(* ===== verification/Prelude.thy ===== *)
theory Prelude
  imports Main "HOL-Library.Multiset" "HOL-Library.Sublist" "HOL-Library.Code_Target_Nat"
begin

text \<open>
  The part of the ECMAScript string and array library that the web client uses, on which
  every component is built.

  A JavaScript string is a sequence of UTF-16 code units; \<open>ustr\<close> is a list of code units
  as natural numbers, so Arabic text is represented as the client sees it.  \<open>U ''abc''\<close>
  is the literal \<open>abc\<close>.  Case conversion is exact for the Basic Latin, Latin-1 and Arabic
  blocks and for every unit that converts into Basic Latin (so comparing a converted string
  with an ASCII literal is exact); other scripts are left unchanged.

  \<open>js_sort\<close> is \<open>Array.prototype.sort\<close> with a comparator: the standard demands a stable sort,
  and for a comparator that is a total preorder the stable result is unique.  The locale
  \<open>comparator\<close> states what a comparator owes and proves what the sort then gives; every
  comparator of the program is an interpretation of it.
\<close>

named_theorems js_defs "definitions of the string and value library, unfolded on concrete input"

section \<open>Strings as code unit sequences\<close>

type_synonym ustr = "nat list"

definition U :: "string \<Rightarrow> ustr" where
  "U s = map of_char s"

lemma U_inj [simp]: "U a = U b \<longleftrightarrow> a = b"
  unfolding U_def by (rule inj_map_eq_map) (simp add: inj_def)

lemma U_Nil [simp]: "U [] = []"
  by (simp add: U_def)

lemma U_eq_Nil [simp]: "U s = [] \<longleftrightarrow> s = []" "[] = U s \<longleftrightarrow> s = []"
  by (auto simp: U_def)

lemma U_append: "U (a @ b) = U a @ U b"
  by (simp add: U_def)

lemma length_U [simp]: "length (U s) = length s"
  by (simp add: U_def)

lemma prefix_U [simp]: "prefix (U a) (U b) \<longleftrightarrow> prefix a b"
proof
  assume "prefix (U a) (U b)"
  then have "take (length a) (U b) = U a"
    by (metis length_U prefix_length_prefix prefix_order.order_refl take_is_prefix append_eq_conv_conj prefix_def)
  then have "U (take (length a) b) = U a"
    by (simp add: U_def take_map)
  then show "prefix a b" by (metis U_inj take_is_prefix)
next
  assume "prefix a b"
  then show "prefix (U a) (U b)" by (auto simp: prefix_def U_append)
qed

subsection \<open>White space and trim\<close>

definition is_ws :: "nat \<Rightarrow> bool" where
  "is_ws c \<longleftrightarrow> (9 \<le> c \<and> c \<le> 13) \<or> c = 32 \<or> c = 160 \<or> c = 5760 \<or> (8192 \<le> c \<and> c \<le> 8202)
     \<or> c = 8232 \<or> c = 8233 \<or> c = 8239 \<or> c = 8287 \<or> c = 12288 \<or> c = 65279"

definition ltrim :: "ustr \<Rightarrow> ustr" where
  "ltrim s = dropWhile is_ws s"

definition rtrim :: "ustr \<Rightarrow> ustr" where
  "rtrim s = rev (dropWhile is_ws (rev s))"

definition trim :: "ustr \<Rightarrow> ustr" where
  "trim s = rtrim (ltrim s)"

definition trimmed :: "ustr \<Rightarrow> bool" where
  "trimmed s \<longleftrightarrow> s = [] \<or> (\<not> is_ws (hd s) \<and> \<not> is_ws (last s))"

lemma rtrim_append: "rtrim (xs @ ys) = (if \<forall>c \<in> set ys. is_ws c then rtrim xs else xs @ rtrim ys)"
  by (auto simp: rtrim_def dropWhile_append)

lemma last_rtrim: "rtrim s \<noteq> [] \<Longrightarrow> \<not> is_ws (last (rtrim s))"
  unfolding rtrim_def by (metis hd_dropWhile last_rev rev_is_Nil_conv)

lemma hd_rtrim: "rtrim s \<noteq> [] \<Longrightarrow> hd (rtrim s) = hd s"
  unfolding rtrim_def
  by (metis append_is_Nil_conv hd_append2 rev_append rev_rev_ident takeWhile_dropWhile_id rev_is_Nil_conv)

lemma trimmed_Nil [simp]: "trimmed []"
  by (simp add: trimmed_def)

lemma trimmed_trim [simp]: "trimmed (trim s)"
proof (cases "trim s = []")
  case False
  then have ne: "rtrim (ltrim s) \<noteq> []" by (simp add: trim_def)
  then have lne: "ltrim s \<noteq> []" by (auto simp: rtrim_def)
  from lne have "\<not> is_ws (hd (ltrim s))" unfolding ltrim_def by (rule hd_dropWhile)
  with ne show ?thesis by (simp add: trimmed_def trim_def hd_rtrim last_rtrim)
qed (simp add: trimmed_def)

lemma trim_id: "trimmed s \<Longrightarrow> trim s = s"
proof (cases s)
  case Nil
  then show ?thesis by (simp add: trim_def ltrim_def rtrim_def)
next
  case (Cons c cs)
  assume t: "trimmed s"
  with Cons have "ltrim s = s" by (simp add: trimmed_def ltrim_def)
  moreover have "rtrim s = s"
  proof -
    have "s \<noteq> []" using Cons by simp
    with t have "\<not> is_ws (hd (rev s))" by (simp only: trimmed_def hd_rev) simp
    then have "dropWhile is_ws (rev s) = rev s" by (cases "rev s") auto
    then show ?thesis by (simp add: rtrim_def)
  qed
  ultimately show ?thesis by (simp add: trim_def)
qed

lemma trim_idem [simp]: "trim (trim s) = trim s"
  by (rule trim_id) simp

lemma trim_Nil [simp]: "trim [] = []"
  by (simp add: trim_def ltrim_def rtrim_def)

lemma trim_eq_iff: "trim s = s \<longleftrightarrow> trimmed s"
  by (metis trim_id trimmed_trim)

lemma trim_eq_Nil: "trim s = [] \<longleftrightarrow> (\<forall>c \<in> set s. is_ws c)"
  by (auto simp: trim_def ltrim_def rtrim_def dropWhile_eq_Nil_conv
      intro: set_dropWhileD dest: set_dropWhileD)
     (metis dropWhile_eq_Nil_conv hd_dropWhile hd_in_set)

lemma set_trim: "set (trim s) \<subseteq> set s"
  by (auto simp: trim_def ltrim_def rtrim_def dest!: set_dropWhileD)

subsection \<open>Case conversion\<close>

definition lower_unit :: "nat \<Rightarrow> ustr" where
  "lower_unit c =
     (if (65 \<le> c \<and> c \<le> 90) \<or> (192 \<le> c \<and> c \<le> 222 \<and> c \<noteq> 215) then [c + 32]
      else if c = 304 then [105, 775]
      else if c = 8490 then [107]
      else if c = 8491 then [229]
      else [c])"

definition upper_unit :: "nat \<Rightarrow> ustr" where
  "upper_unit c =
     (if (97 \<le> c \<and> c \<le> 122) \<or> (224 \<le> c \<and> c \<le> 254 \<and> c \<noteq> 247) then [c - 32]
      else if c = 181 then [924]
      else if c = 223 then [83, 83]
      else if c = 255 then [376]
      else if c = 305 then [73]
      else if c = 383 then [83]
      else [c])"

definition lower :: "ustr \<Rightarrow> ustr" where
  "lower s = concat (map lower_unit s)"

definition upper :: "ustr \<Rightarrow> ustr" where
  "upper s = concat (map upper_unit s)"

lemma lower_Nil [simp]: "lower [] = []"
  by (simp add: lower_def)

lemma lower_append: "lower (a @ b) = lower a @ lower b"
  by (simp add: lower_def)

lemma lower_unit_fix: "d \<in> set (lower_unit c) \<Longrightarrow> lower_unit d = [d]"
  by (auto simp: lower_unit_def split: if_splits)

lemma lower_fix: "(\<And>d. d \<in> set s \<Longrightarrow> lower_unit d = [d]) \<Longrightarrow> lower s = s"
  by (induction s) (auto simp: lower_def)

lemma lower_idem [simp]: "lower (lower s) = lower s"
  by (rule lower_fix) (auto simp: lower_def dest: lower_unit_fix)

lemma lower_unit_not_Nil [simp]: "lower_unit c \<noteq> []"
  by (simp add: lower_unit_def)

lemma lower_eq_Nil [simp]: "lower s = [] \<longleftrightarrow> s = []"
  by (cases s) (auto simp: lower_def)

lemma upper_letter_no_ws:
  "(65 \<le> c \<and> c \<le> 90) \<or> (192 \<le> c \<and> c \<le> 222) \<Longrightarrow> \<not> is_ws c \<and> \<not> is_ws (c + 32)"
  unfolding is_ws_def by arith

lemma lower_unit_ws: "d \<in> set (lower_unit c) \<Longrightarrow> is_ws d \<longleftrightarrow> is_ws c"
proof (cases "(65 \<le> c \<and> c \<le> 90) \<or> (192 \<le> c \<and> c \<le> 222 \<and> c \<noteq> 215)")
  case True
  assume "d \<in> set (lower_unit c)"
  with True have "d = c + 32" by (simp add: lower_unit_def)
  with True upper_letter_no_ws [of c] show ?thesis by blast
next
  case False
  assume "d \<in> set (lower_unit c)"
  with False show ?thesis by (simp add: lower_unit_def is_ws_def split: if_splits) auto
qed

lemma hd_lower: "s \<noteq> [] \<Longrightarrow> hd (lower s) = hd (lower_unit (hd s))"
  by (cases s) (simp_all add: lower_def)

lemma last_lower: "s \<noteq> [] \<Longrightarrow> last (lower s) = last (lower_unit (last s))"
  by (cases s rule: rev_cases) (simp_all add: lower_def)

lemma trimmed_lower: "trimmed s \<Longrightarrow> trimmed (lower s)"
proof (cases "s = []")
  case False
  assume t: "trimmed s"
  have "is_ws (hd (lower s)) = is_ws (hd s)"
    unfolding hd_lower [OF False] by (rule lower_unit_ws) simp
  moreover have "is_ws (last (lower s)) = is_ws (last s)"
    unfolding last_lower [OF False] by (rule lower_unit_ws) simp
  moreover note t False
  ultimately show ?thesis by (simp add: trimmed_def)
qed (simp add: trimmed_def)

subsection \<open>Prefixes, substrings, splitting and joining\<close>

definition starts_with :: "ustr \<Rightarrow> ustr \<Rightarrow> bool" where
  "starts_with s p \<longleftrightarrow> prefix p s"

lemma starts_with_append [simp]: "starts_with (a @ b) a"
  by (simp add: starts_with_def)

definition ends_with :: "ustr \<Rightarrow> ustr \<Rightarrow> bool" where
  "ends_with s p \<longleftrightarrow> suffix p s"

definition js_includes :: "ustr \<Rightarrow> ustr \<Rightarrow> bool" where
  "js_includes s p \<longleftrightarrow> sublist p s"

definition js_slice_end :: "ustr \<Rightarrow> nat \<Rightarrow> ustr" where
  \<comment> \<open>\<open>s.slice(0, -n)\<close>\<close>
  "js_slice_end s n = take (length s - n) s"

fun split_on :: "nat \<Rightarrow> ustr \<Rightarrow> ustr list" where
  "split_on sep [] = [[]]"
| "split_on sep (c # cs) =
     (if c = sep then [] # split_on sep cs
      else (case split_on sep cs of [] \<Rightarrow> [[c]] | p # ps \<Rightarrow> (c # p) # ps))"

fun join :: "ustr \<Rightarrow> ustr list \<Rightarrow> ustr" where
  "join sep [] = []"
| "join sep [x] = x"
| "join sep (x # y # ys) = x @ sep @ join sep (y # ys)"

lemma split_on_not_Nil [simp]: "split_on sep s \<noteq> []"
  by (induction s) (auto split: list.splits)

lemma join_split_on: "join [sep] (split_on sep s) = s"
proof (induction s)
  case Nil
  then show ?case by simp
next
  case (Cons c cs)
  obtain p ps where p: "split_on sep cs = p # ps"
    by (cases "split_on sep cs") auto
  with Cons show ?case by (cases ps) auto
qed

lemma split_on_no_sep: "p \<in> set (split_on sep s) \<Longrightarrow> sep \<notin> set p"
  by (induction s arbitrary: p) (auto split: if_splits list.splits)

section \<open>Decimal digits\<close>

definition is_digit :: "nat \<Rightarrow> bool" where
  "is_digit c \<longleftrightarrow> 48 \<le> c \<and> c \<le> 57"

definition digits_val :: "ustr \<Rightarrow> nat" where
  "digits_val s = foldl (\<lambda>a c. 10 * a + (c - 48)) 0 s"

fun nat_str :: "nat \<Rightarrow> ustr" where
  "nat_str n = (if n < 10 then [48 + n] else nat_str (n div 10) @ [48 + n mod 10])"

declare nat_str.simps [simp del]

definition int_str :: "int \<Rightarrow> ustr" where
  "int_str i = (if i < 0 then 45 # nat_str (nat (- i)) else nat_str (nat i))"

lemma nat_str_not_Nil [simp]: "nat_str n \<noteq> []"
  by (subst nat_str.simps) simp

lemma nat_str_digits: "c \<in> set (nat_str n) \<Longrightarrow> is_digit c"
proof (induction n rule: nat_str.induct)
  case (1 n)
  show ?case
  proof (cases "n < 10")
    case True
    with "1.prems" show ?thesis by (simp add: nat_str.simps [of n] is_digit_def)
  next
    case False
    with "1.prems" "1.IH" show ?thesis
      by (auto simp: nat_str.simps [of n] is_digit_def)
  qed
qed

lemma digits_val_nat_str [simp]: "digits_val (nat_str n) = n"
proof (induction n rule: nat_str.induct)
  case (1 n)
  show ?case
  proof (cases "n < 10")
    case True
    then show ?thesis by (simp add: nat_str.simps [of n] digits_val_def)
  next
    case False
    with "1.IH" have "foldl (\<lambda>a c. 10 * a + (c - 48)) 0 (nat_str (n div 10)) = n div 10"
      by (simp add: digits_val_def)
    with False show ?thesis by (simp add: nat_str.simps [of n] digits_val_def)
  qed
qed

lemma nat_str_inj [simp]: "nat_str a = nat_str b \<longleftrightarrow> a = b"
  by (metis digits_val_nat_str)

lemma trimmed_nat_str [simp]: "trimmed (nat_str n)"
proof -
  have "\<not> is_ws c" if "c \<in> set (nat_str n)" for c
    using nat_str_digits [OF that] by (auto simp: is_digit_def is_ws_def)
  then show ?thesis by (simp add: trimmed_def)
qed

section \<open>Sets as insertion-ordered lists\<close>

text \<open>\<open>[...new Set(xs)]\<close> keeps the first occurrence of each value, in order.\<close>

lemma set_map_filter: "set (List.map_filter f xs) = {y. \<exists>x \<in> set xs. f x = Some y}"
  by (induction xs) (auto simp: List.map_filter_simps split: option.split)

fun uniq_acc :: "'a list \<Rightarrow> 'a list \<Rightarrow> 'a list" where
  "uniq_acc seen [] = []"
| "uniq_acc seen (x # xs) = (if x \<in> set seen then uniq_acc seen xs else x # uniq_acc (x # seen) xs)"

definition uniq :: "'a list \<Rightarrow> 'a list" where
  "uniq xs = uniq_acc [] xs"

lemma set_uniq_acc: "set (uniq_acc seen xs) = set xs - set seen"
  by (induction xs arbitrary: seen) auto

lemma distinct_uniq_acc: "distinct (uniq_acc seen xs)"
  by (induction xs arbitrary: seen) (auto simp: set_uniq_acc)

lemma uniq_acc_id: "distinct xs \<Longrightarrow> set xs \<inter> set seen = {} \<Longrightarrow> uniq_acc seen xs = xs"
  by (induction xs arbitrary: seen) auto

lemma set_uniq [simp]: "set (uniq xs) = set xs"
  by (simp add: uniq_def set_uniq_acc)

lemma distinct_uniq [simp]: "distinct (uniq xs)"
  by (simp add: uniq_def distinct_uniq_acc)

lemma uniq_id: "distinct xs \<Longrightarrow> uniq xs = xs"
  by (simp add: uniq_def uniq_acc_id)

lemma uniq_idem [simp]: "uniq (uniq xs) = uniq xs"
  by (rule uniq_id) simp

lemma uniq_Nil [simp]: "uniq [] = []"
  by (simp add: uniq_def)

section \<open>Normalised key lists\<close>

text \<open>
  Several components keep lists of identifiers as \<open>Array.from(new Set(xs.map(norm).filter(nonEmpty)))\<close>.
  What they rely on is only that normalising twice changes nothing.
\<close>

definition norm_keys :: "(ustr \<Rightarrow> ustr) \<Rightarrow> ustr list \<Rightarrow> ustr list" where
  "norm_keys norm xs = uniq (filter (\<lambda>s. s \<noteq> []) (map norm xs))"

locale key_normaliser =
  fixes norm :: "ustr \<Rightarrow> ustr"
  assumes norm_idem: "norm (norm s) = norm s"
begin

lemma norm_keys_distinct: "distinct (norm_keys norm xs)"
  by (simp add: norm_keys_def)

lemma set_norm_keys: "set (norm_keys norm xs) = norm ` set xs - {[]}"
  by (auto simp: norm_keys_def)

lemma norm_keys_fixed: "x \<in> set (norm_keys norm xs) \<Longrightarrow> norm x = x \<and> x \<noteq> []"
  by (auto simp: set_norm_keys norm_idem)

lemma norm_keys_id:
  assumes "distinct xs" and "\<forall>x \<in> set xs. norm x = x \<and> x \<noteq> []"
  shows "norm_keys norm xs = xs"
proof -
  have "map norm xs = xs" using assms(2) by (simp add: map_idI)
  moreover have "filter (\<lambda>s. s \<noteq> []) xs = xs" using assms(2) by simp
  ultimately show ?thesis using assms(1) by (simp add: norm_keys_def uniq_id)
qed

lemma norm_keys_idem: "norm_keys norm (norm_keys norm xs) = norm_keys norm xs"
  by (rule norm_keys_id) (auto simp: norm_keys_distinct dest: norm_keys_fixed)

lemma mem_norm_keys: "norm s \<noteq> [] \<Longrightarrow> s \<in> set xs \<Longrightarrow> norm s \<in> set (norm_keys norm xs)"
  by (auto simp: set_norm_keys)

end

interpretation trim_keys: key_normaliser trim
  by unfold_locales simp

interpretation trim_lower_keys: key_normaliser "\<lambda>s. lower (trim s)"
  by unfold_locales (simp add: trim_id trimmed_lower)

section \<open>Sorting with a comparator\<close>

fun insert_by :: "('a \<Rightarrow> 'a \<Rightarrow> 'n::{linorder,zero}) \<Rightarrow> 'a \<Rightarrow> 'a list \<Rightarrow> 'a list" where
  "insert_by cmp x [] = [x]"
| "insert_by cmp x (y # ys) = (if cmp x y \<le> 0 then x # y # ys else y # insert_by cmp x ys)"

definition js_sort :: "('a \<Rightarrow> 'a \<Rightarrow> 'n::{linorder,zero}) \<Rightarrow> 'a list \<Rightarrow> 'a list" where
  "js_sort cmp xs = foldr (insert_by cmp) xs []"

lemma js_sort_Nil [simp]: "js_sort cmp [] = []"
  by (simp add: js_sort_def)

lemma js_sort_Cons: "js_sort cmp (x # xs) = insert_by cmp x (js_sort cmp xs)"
  by (simp add: js_sort_def)

lemma mset_insert_by [simp]: "mset (insert_by cmp x xs) = add_mset x (mset xs)"
  by (induction xs) auto

lemma mset_js_sort [simp]: "mset (js_sort cmp xs) = mset xs"
  by (induction xs) (auto simp: js_sort_Cons)

lemma set_js_sort [simp]: "set (js_sort cmp xs) = set xs"
  by (metis mset_js_sort set_mset_mset)

lemma length_js_sort [simp]: "length (js_sort cmp xs) = length xs"
  by (metis mset_js_sort size_mset)

lemma insert_by_min: "\<forall>y \<in> set ys. cmp x y \<le> 0 \<Longrightarrow> insert_by cmp x ys = x # ys"
  by (cases ys) auto

text \<open>
  What a comparator owes: on the values in its domain it is a total preorder.
\<close>

locale comparator =
  fixes cmp :: "'a \<Rightarrow> 'a \<Rightarrow> 'n::{linorder,zero}" and dom_ok :: "'a \<Rightarrow> bool"
  assumes cmp_total: "dom_ok x \<Longrightarrow> dom_ok y \<Longrightarrow> \<not> cmp x y \<le> 0 \<Longrightarrow> cmp y x \<le> 0"
    and cmp_trans: "dom_ok x \<Longrightarrow> dom_ok y \<Longrightarrow> dom_ok z \<Longrightarrow>
      cmp x y \<le> 0 \<Longrightarrow> cmp y z \<le> 0 \<Longrightarrow> cmp x z \<le> 0"
begin

lemma cmp_refl: "dom_ok x \<Longrightarrow> cmp x x \<le> 0"
  using cmp_total [of x x] by blast

lemma sorted_insert_by:
  assumes "dom_ok x" and "\<forall>y \<in> set xs. dom_ok y" and "sorted_wrt (\<lambda>a b. cmp a b \<le> 0) xs"
  shows "sorted_wrt (\<lambda>a b. cmp a b \<le> 0) (insert_by cmp x xs)"
  using assms
proof (induction xs)
  case Nil
  then show ?case by simp
next
  case (Cons y ys)
  show ?case
  proof (cases "cmp x y \<le> 0")
    case True
    with Cons.prems show ?thesis by (auto intro: cmp_trans)
  next
    case False
    with Cons.prems have yx: "cmp y x \<le> 0" using cmp_total by auto
    have "set (insert_by cmp x ys) = insert x (set ys)"
      by (metis mset_insert_by set_mset_mset set_mset_add_mset_insert)
    with False Cons yx show ?thesis by auto
  qed
qed

lemma sorted_js_sort:
  "\<forall>y \<in> set xs. dom_ok y \<Longrightarrow> sorted_wrt (\<lambda>a b. cmp a b \<le> 0) (js_sort cmp xs)"
  by (induction xs) (auto simp: js_sort_Cons intro: sorted_insert_by)

lemma filter_insert_by:
  assumes "dom_ok x" and "\<forall>y \<in> set xs. dom_ok y" and "sorted_wrt (\<lambda>a b. cmp a b \<le> 0) xs"
    and "\<And>y. P y \<Longrightarrow> dom_ok y \<Longrightarrow> P x \<Longrightarrow> cmp x y \<le> 0"
  shows "filter P (insert_by cmp x xs) = filter P (x # xs)"
  using assms
proof (induction xs)
  case Nil
  then show ?case by simp
next
  case (Cons y ys)
  show ?case
  proof (cases "cmp x y \<le> 0")
    case True
    then show ?thesis by simp
  next
    case False
    with Cons.prems have "\<not> (P x \<and> P y)" by auto
    with False Cons show ?thesis by auto
  qed
qed

text \<open>Stability: elements the comparator does not distinguish keep their order.\<close>

lemma js_sort_stable:
  assumes "\<forall>y \<in> set xs. dom_ok y"
    and "\<And>a b. P a \<Longrightarrow> P b \<Longrightarrow> dom_ok a \<Longrightarrow> dom_ok b \<Longrightarrow> cmp a b \<le> 0"
  shows "filter P (js_sort cmp xs) = filter P xs"
  using assms(1)
proof (induction xs)
  case Nil
  then show ?case by simp
next
  case (Cons x xs)
  have "filter P (js_sort cmp (x # xs)) = filter P (x # js_sort cmp xs)"
    unfolding js_sort_Cons
    by (rule filter_insert_by) (use Cons.prems assms(2) in \<open>auto simp: sorted_js_sort\<close>)
  with Cons show ?case by simp
qed

lemma js_sort_id:
  "\<forall>y \<in> set xs. dom_ok y \<Longrightarrow> sorted_wrt (\<lambda>a b. cmp a b \<le> 0) xs \<Longrightarrow> js_sort cmp xs = xs"
  by (induction xs) (auto simp: js_sort_Cons insert_by_min)

lemma js_sort_idem:
  "\<forall>y \<in> set xs. dom_ok y \<Longrightarrow> js_sort cmp (js_sort cmp xs) = js_sort cmp xs"
  by (rule js_sort_id) (simp_all add: sorted_js_sort)

end

text \<open>Sorting by a key commutes with computing the key.\<close>

lemma map_insert_by: "map f (insert_by (\<lambda>a b. cmp (f a) (f b)) x xs) = insert_by cmp (f x) (map f xs)"
  by (induction xs) auto

lemma map_js_sort: "map f (js_sort (\<lambda>a b. cmp (f a) (f b)) xs) = js_sort cmp (map f xs)"
  by (induction xs) (auto simp: js_sort_Cons map_insert_by)

lemma insert_by_cong:
  "(\<And>y. y \<in> set ys \<Longrightarrow> cmp x y \<le> 0 \<longleftrightarrow> cmp' x y \<le> 0) \<Longrightarrow> insert_by cmp x ys = insert_by cmp' x ys"
  by (induction ys) auto

lemma js_sort_cong:
  "sorted_wrt (\<lambda>x y. cmp x y \<le> 0 \<longleftrightarrow> cmp' x y \<le> 0) xs \<Longrightarrow> js_sort cmp xs = js_sort cmp' xs"
proof (induction xs)
  case (Cons x xs)
  then have "insert_by cmp x (js_sort cmp' xs) = insert_by cmp' x (js_sort cmp' xs)"
    by (intro insert_by_cong) auto
  with Cons show ?case by (simp add: js_sort_Cons)
qed simp

section \<open>Branches\<close>

text \<open>A predicate holds of a branching expression when it holds of every branch.\<close>

lemma if_branches: "(c \<Longrightarrow> P a) \<Longrightarrow> (\<not> c \<Longrightarrow> P b) \<Longrightarrow> P (if c then a else b)"
  by simp

lemma option_branches:
  "(x = None \<Longrightarrow> P a) \<Longrightarrow> (\<And>y. x = Some y \<Longrightarrow> P (f y)) \<Longrightarrow> P (case x of None \<Rightarrow> a | Some y \<Rightarrow> f y)"
  by (cases x) simp_all

lemma sum_branches:
  "(\<And>y. x = Inl y \<Longrightarrow> P (f y)) \<Longrightarrow> (\<And>y. x = Inr y \<Longrightarrow> P (g y)) \<Longrightarrow> P (case x of Inl y \<Rightarrow> f y | Inr y \<Rightarrow> g y)"
  by (cases x) simp_all

section \<open>Small list lemmas\<close>

lemma filter_map_eq: "filter P (map f xs) = map f (filter (P \<circ> f) xs)"
  by (induction xs) auto

lemma sorted_wrt_mono_on:
  "(\<And>x y. x \<in> set xs \<Longrightarrow> y \<in> set xs \<Longrightarrow> P x y \<Longrightarrow> Q x y) \<Longrightarrow> sorted_wrt P xs \<Longrightarrow> sorted_wrt Q xs"
  by (induction xs) auto

end
