(* ===== verification/JsValue.thy ===== *)
theory JsValue
  imports Complex_Main Prelude
begin

text \<open>
  JavaScript values as the client receives them from \<open>JSON.parse\<close>, and the conversions the
  client applies: \<open>typeof\<close> tests, \<open>??\<close>, \<open>||\<close>, \<open>String(v)\<close>, \<open>Number(v)\<close>, \<open>Boolean(v)\<close>,
  \<open>Number.parseInt\<close> and \<open>new Date(v)\<close>.

  Finite numbers are exact rationals: integers up to \<open>2 ^ 53 - 1\<close>, and the decimal literals of
  JSON payloads, behave as in the program; rounding of results that are not representable as a
  double is not modelled, overflow to infinity in numeric literals is.  \<open>Date.parse\<close> on arbitrary
  text is implementation defined in ECMAScript, \<open>Math.log10\<close> is implementation approximated and the
  clock is an input, so these are fields of the environment record \<open>jsenv\<close>.
\<close>

section \<open>Values\<close>

datatype jnum = NaN | PInf | NInf | Fin rat

datatype jval =
    Undef
  | Null
  | Bool bool
  | Num jnum
  | BigInt int
  | Str ustr
  | Arr "jval list"
  | Obj "(ustr \<times> jval) list"

record jsenv =
  now_ms :: int                         \<comment> \<open>\<open>Date.now()\<close>, milliseconds\<close>
  parse_date :: "ustr \<Rightarrow> int option"   \<comment> \<open>\<open>Date.parse\<close>, \<open>None\<close> for \<open>NaN\<close>\<close>
  iso_string :: "int \<Rightarrow> ustr"          \<comment> \<open>\<open>toISOString\<close> of a time value\<close>
  js_log10 :: "rat \<Rightarrow> rat"            \<comment> \<open>\<open>Math.log10\<close>, implementation approximated\<close>

fun is_nullish :: "jval \<Rightarrow> bool" where
  "is_nullish Undef = True"
| "is_nullish Null = True"
| "is_nullish _ = False"

fun is_str :: "jval \<Rightarrow> bool" where
  "is_str (Str _) = True"
| "is_str _ = False"

text \<open>\<open>a ?? b ?? c\<close>: the first operand that is neither \<open>null\<close> nor \<open>undefined\<close>, else the last one.\<close>

fun coalesce :: "jval list \<Rightarrow> jval" where
  "coalesce [] = Undef"
| "coalesce [v] = v"
| "coalesce (v # w # vs) = (if is_nullish v then coalesce (w # vs) else v)"

text \<open>Property access \<open>record.key\<close> on a value that is not \<open>null\<close> or \<open>undefined\<close>.\<close>

fun fld :: "jval \<Rightarrow> string \<Rightarrow> jval" where
  "fld (Obj fs) k = (case map_of fs (U k) of None \<Rightarrow> Undef | Some v \<Rightarrow> v)"
| "fld _ k = Undef"

definition flds :: "jval \<Rightarrow> string list \<Rightarrow> jval" where
  \<comment> \<open>\<open>r.a ?? r.b ?? r.c\<close>\<close>
  "flds r ks = coalesce (map (fld r) ks)"

fun truthy :: "jval \<Rightarrow> bool" where
  "truthy Undef = False"
| "truthy Null = False"
| "truthy (Bool b) = b"
| "truthy (Num n) = (n \<noteq> NaN \<and> n \<noteq> Fin 0)"
| "truthy (BigInt i) = (i \<noteq> 0)"
| "truthy (Str s) = (s \<noteq> [])"
| "truthy (Arr _) = True"
| "truthy (Obj _) = True"

definition or_else :: "ustr \<Rightarrow> ustr \<Rightarrow> ustr" where
  \<comment> \<open>\<open>a || b\<close> on strings\<close>
  "or_else a b = (if a = [] then b else a)"

lemma or_else_simps [simp]:
  "or_else [] b = b" "or_else (c # cs) b = c # cs" "or_else a [] = a"
  "or_else a b = [] \<longleftrightarrow> a = [] \<and> b = []"
  by (auto simp: or_else_def)

lemma or_else_U [simp]: "or_else (U (c # cs)) b = U (c # cs)"
  by (simp add: or_else_def)

text \<open>\<open>a || b || text\<close>: the first truthy value as text, else the fallback.\<close>

fun find_truthy :: "jval list \<Rightarrow> jval option" where
  "find_truthy [] = None"
| "find_truthy (v # vs) = (if truthy v then Some v else find_truthy vs)"

text \<open>\<open>a || b || c\<close>: the first truthy value, else the last one.\<close>

fun or_vals :: "jval list \<Rightarrow> jval" where
  "or_vals [] = Undef"
| "or_vals [v] = v"
| "or_vals (v # w # vs) = (if truthy v then v else or_vals (w # vs))"

text \<open>
  What a rejected promise or a \<open>throw\<close> carries: an \<open>Error\<close> with a name and a message, or any
  other value.
\<close>

datatype thrown = JsError (thrown_name: ustr) (thrown_message: ustr) | ThrownValue jval

section \<open>Numbers\<close>

definition is_int_rat :: "rat \<Rightarrow> bool" where
  "is_int_rat r \<longleftrightarrow> of_int \<lfloor>r\<rfloor> = r"

definition trunc_rat :: "rat \<Rightarrow> int" where
  "trunc_rat r = (if r < 0 then \<lceil>r\<rceil> else \<lfloor>r\<rfloor>)"

definition MAX_SAFE_INTEGER :: int where
  "MAX_SAFE_INTEGER = 9007199254740991"

fun is_finite :: "jnum \<Rightarrow> bool" where
  "is_finite (Fin _) = True"
| "is_finite _ = False"

fun is_integer :: "jnum \<Rightarrow> bool" where
  "is_integer (Fin r) = is_int_rat r"
| "is_integer _ = False"

fun is_safe_integer :: "jnum \<Rightarrow> bool" where
  "is_safe_integer (Fin r) = (is_int_rat r \<and> \<bar>r\<bar> \<le> of_int MAX_SAFE_INTEGER)"
| "is_safe_integer _ = False"

lemma is_int_rat_of_int [simp]: "is_int_rat (of_int i)"
  by (simp add: is_int_rat_def)

lemma is_int_ratE: "is_int_rat r \<Longrightarrow> (\<And>i. r = of_int i \<Longrightarrow> thesis) \<Longrightarrow> thesis"
  by (metis is_int_rat_def)

lemma is_int_rat_numeral [simp]: "is_int_rat (numeral n)" "is_int_rat 0" "is_int_rat 1"
  by (simp_all add: is_int_rat_def)

subsection \<open>\<open>Number(text)\<close>\<close>

definition overflow_threshold :: rat where
  \<comment> \<open>half a unit in the last place above the largest double\<close>
  "overflow_threshold = 179769313486231580793728971405303415079934132710037826936173778980444968292764750946649017977587207096330286416692887910946555547851940402630657488671505820681908902000708383676273854845817711531764475730270069855571366959622842914819860834936475292719074168444365510704342711559699508093042880177904174497792"

lemma overflow_threshold_eq: "overflow_threshold = 2 ^ 1024 - 2 ^ 970"
  by (simp add: overflow_threshold_def)

definition fin_or_inf :: "rat \<Rightarrow> jnum" where
  "fin_or_inf v =
     (if v \<ge> overflow_threshold then PInf else if v \<le> - overflow_threshold then NInf else Fin v)"

definition neg_num :: "jnum \<Rightarrow> jnum" where
  "neg_num n = (case n of NaN \<Rightarrow> NaN | PInf \<Rightarrow> NInf | NInf \<Rightarrow> PInf | Fin r \<Rightarrow> Fin (- r))"

definition digit_span :: "ustr \<Rightarrow> ustr \<times> ustr" where
  "digit_span s = (takeWhile is_digit s, dropWhile is_digit s)"

definition exponent_part :: "ustr \<Rightarrow> int option" where
  \<comment> \<open>nothing, or \<open>e\<close>/\<open>E\<close>, an optional sign and at least one digit up to the end\<close>
  "exponent_part s =
     (case s of [] \<Rightarrow> Some 0
      | c # r \<Rightarrow>
         if c = 101 \<or> c = 69 then
           (let neg = (r \<noteq> [] \<and> hd r = 45);
                ds = (if r \<noteq> [] \<and> (hd r = 45 \<or> hd r = 43) then tl r else r)
            in if ds \<noteq> [] \<and> list_all is_digit ds
               then Some (if neg then - int (digits_val ds) else int (digits_val ds)) else None)
         else None)"

definition unsigned_decimal :: "ustr \<Rightarrow> jnum" where
  "unsigned_decimal s =
     (if s = U ''Infinity'' then PInf
      else
        (let (ip, r1) = digit_span s;
             (fp, r2) = (case r1 of c # r \<Rightarrow> if c = 46 then digit_span r else ([], r1) | [] \<Rightarrow> ([], []))
         in if ip = [] \<and> fp = [] then NaN
            else (case exponent_part r2 of
                    None \<Rightarrow> NaN
                  | Some e \<Rightarrow>
                      fin_or_inf (of_nat (digits_val (ip @ fp)) / 10 ^ length fp
                        * (if 0 \<le> e then 10 ^ nat e else 1 / 10 ^ nat (- e))))))"

definition radix_digit :: "nat \<Rightarrow> nat option" where
  "radix_digit c =
     (if is_digit c then Some (c - 48)
      else if 97 \<le> c \<and> c \<le> 102 then Some (c - 87)
      else if 65 \<le> c \<and> c \<le> 70 then Some (c - 55) else None)"

definition radix_literal :: "nat \<Rightarrow> ustr \<Rightarrow> jnum" where
  "radix_literal b ds =
     (if ds \<noteq> [] \<and> list_all (\<lambda>c. case radix_digit c of Some d \<Rightarrow> d < b | None \<Rightarrow> False) ds
      then fin_or_inf (of_nat (foldl (\<lambda>a c. b * a + the (radix_digit c)) 0 ds)) else NaN)"

definition str_num :: "ustr \<Rightarrow> jnum" where
  "str_num s =
     (let t = trim s in
      case t of [] \<Rightarrow> Fin 0
      | c # r \<Rightarrow>
          if c = 45 then neg_num (unsigned_decimal r)
          else if c = 43 then unsigned_decimal r
          else if c = 48 \<and> r \<noteq> [] \<and> (hd r = 120 \<or> hd r = 88) then radix_literal 16 (tl r)
          else if c = 48 \<and> r \<noteq> [] \<and> (hd r = 111 \<or> hd r = 79) then radix_literal 8 (tl r)
          else if c = 48 \<and> r \<noteq> [] \<and> (hd r = 98 \<or> hd r = 66) then radix_literal 2 (tl r)
          else unsigned_decimal t)"

lemma takeWhile_all_digits: "list_all is_digit s \<Longrightarrow> takeWhile is_digit s = s \<and> dropWhile is_digit s = []"
  by (auto simp: list_all_iff takeWhile_eq_all_conv dropWhile_eq_Nil_conv)

lemma digit_not_ws: "is_digit c \<Longrightarrow> \<not> is_ws c"
  by (auto simp: is_digit_def is_ws_def)

lemma trimmed_digits: "list_all is_digit s \<Longrightarrow> trimmed s"
  by (auto simp: trimmed_def list_all_iff dest: digit_not_ws)

lemma all_digits_not_Infinity: "list_all is_digit s \<Longrightarrow> s \<noteq> U ''Infinity''"
  by (auto simp: U_def is_digit_def)

lemma str_num_digits:
  assumes "list_all is_digit s" and "s \<noteq> []"
  shows "str_num s = fin_or_inf (of_nat (digits_val s))"
proof -
  have h: "is_digit c" if "c \<in> set s" for c using assms(1) that by (simp add: list_all_iff)
  obtain c r where s: "s = c # r" using assms(2) by (cases s) auto
  have c: "c \<noteq> 45" "c \<noteq> 43" using h [of c] s by (auto simp: is_digit_def)
  have r: "r \<noteq> [] \<Longrightarrow> is_digit (hd r)" using h s by (cases r) auto
  have t: "trim s = s" using assms(1) by (simp add: trim_id trimmed_digits)
  have u: "unsigned_decimal s = fin_or_inf (of_nat (digits_val s))"
    using assms(2) all_digits_not_Infinity [OF assms(1)]
    by (simp add: unsigned_decimal_def digit_span_def exponent_part_def
        takeWhile_all_digits [OF assms(1), THEN conjunct1]
        takeWhile_all_digits [OF assms(1), THEN conjunct2])
  have n: "\<not> (r \<noteq> [] \<and> (hd r = 120 \<or> hd r = 88))" "\<not> (r \<noteq> [] \<and> (hd r = 111 \<or> hd r = 79))"
    "\<not> (r \<noteq> [] \<and> (hd r = 98 \<or> hd r = 66))"
    using r by (auto simp: is_digit_def)
  show ?thesis
    unfolding str_num_def t Let_def using u c n s by auto
qed

subsection \<open>\<open>String(v)\<close>\<close>

fun frac_digits :: "nat \<Rightarrow> rat \<Rightarrow> ustr" where
  "frac_digits 0 f = []"
| "frac_digits (Suc n) f =
     (if f = 0 then [] else (48 + nat \<lfloor>10 * f\<rfloor>) # frac_digits n (10 * f - of_int \<lfloor>10 * f\<rfloor>))"

fun num_str :: "jnum \<Rightarrow> ustr" where
  "num_str NaN = U ''NaN''"
| "num_str PInf = U ''Infinity''"
| "num_str NInf = U ''-Infinity''"
| "num_str (Fin r) =
     (if is_int_rat r then int_str \<lfloor>r\<rfloor>
      else (if r < 0 then [45] else []) @ int_str \<lfloor>\<bar>r\<bar>\<rfloor> @ [46]
           @ frac_digits 17 (\<bar>r\<bar> - of_int \<lfloor>\<bar>r\<bar>\<rfloor>))"

fun to_str :: "jval \<Rightarrow> ustr" where
  "to_str Undef = U ''undefined''"
| "to_str Null = U ''null''"
| "to_str (Bool b) = (if b then U ''true'' else U ''false'')"
| "to_str (Num n) = num_str n"
| "to_str (BigInt i) = int_str i"
| "to_str (Str s) = s"
| "to_str (Arr vs) = join [44] (map (\<lambda>v. if is_nullish v then [] else to_str v) vs)"
| "to_str (Obj _) = U ''[object Object]''"

fun to_num :: "jval \<Rightarrow> jnum" where
  "to_num Undef = NaN"
| "to_num Null = Fin 0"
| "to_num (Bool b) = Fin (if b then 1 else 0)"
| "to_num (Num n) = n"
| "to_num (BigInt i) = Fin (of_int i)"
| "to_num (Str s) = str_num s"
| "to_num (Arr vs) = str_num (to_str (Arr vs))"
| "to_num (Obj fs) = NaN"

definition js_parse_int :: "ustr \<Rightarrow> jnum" where
  \<comment> \<open>\<open>Number.parseInt(text, 10)\<close>: the longest decimal prefix\<close>
  "js_parse_int s =
     (let t = ltrim s;
          neg = (t \<noteq> [] \<and> hd t = 45);
          u = (if t \<noteq> [] \<and> (hd t = 45 \<or> hd t = 43) then tl t else t);
          ds = takeWhile is_digit u
      in if ds = [] then NaN
         else (let v = fin_or_inf (of_nat (digits_val ds)) in if neg then neg_num v else v))"

definition date_value :: "jsenv \<Rightarrow> jval \<Rightarrow> int option" where
  \<comment> \<open>\<open>new Date(v).getTime()\<close>, \<open>None\<close> for an invalid date\<close>
  "date_value env v =
     (case v of
        Str s \<Rightarrow> parse_date env s
      | Undef \<Rightarrow> None
      | Arr vs \<Rightarrow> parse_date env (to_str v)
      | Obj fs \<Rightarrow> parse_date env (to_str v)
      | _ \<Rightarrow> (case to_num v of
                Fin r \<Rightarrow> if \<bar>r\<bar> \<le> 8640000000000000 then Some (trunc_rat r) else None
              | _ \<Rightarrow> None))"

definition text_or :: "jval list \<Rightarrow> ustr \<Rightarrow> ustr" where
  "text_or vs fallback = (case find_truthy vs of None \<Rightarrow> fallback | Some v \<Rightarrow> to_str v)"

text \<open>
  A concrete environment for the witnesses: times are written as decimal milliseconds, and the
  logarithm is the number of decimal digits less one.
\<close>

definition ref_env :: jsenv where
  "ref_env = \<lparr> now_ms = 1700000000000,
     parse_date = (\<lambda>s. if s \<noteq> [] \<and> list_all is_digit s then Some (int (digits_val s)) else None),
     iso_string = int_str,
     js_log10 = (\<lambda>x. of_nat (length (nat_str (nat \<lfloor>x\<rfloor>)) - 1)) \<rparr>"

definition fixed1 :: "rat \<Rightarrow> ustr" where
  \<comment> \<open>\<open>x.toFixed(1)\<close> for a non-negative number\<close>
  "fixed1 x = (let n = \<lfloor>10 * x + 1 / 2\<rfloor> in int_str (n div 10) @ [46] @ int_str (n mod 10))"

lemma fld_Obj_map:
  "fld (Obj (map (\<lambda>(k, v). (U k, g v)) kvs)) k = (case map_of kvs k of None \<Rightarrow> Undef | Some v \<Rightarrow> g v)"
  by (induction kvs) auto

lemma coalesce_mem: "vs \<noteq> [] \<Longrightarrow> coalesce vs \<in> set vs"
  by (induction vs rule: coalesce.induct) auto

lemma coalesce_nullish: "is_nullish (coalesce vs) \<longleftrightarrow> (\<forall>v \<in> set vs. is_nullish v)"
  by (induction vs rule: coalesce.induct) auto

lemmas [js_defs] = U_def is_ws_def ltrim_def rtrim_def trim_def lower_def lower_unit_def upper_def
  upper_unit_def starts_with_def ends_with_def js_includes_def is_digit_def flds_def

end
