(* ===== verification/KeyStore.thy ===== *)
theory KeyStore
  imports JsValue
begin

text \<open>
  The two string-keyed stores of the browser that the client keeps state in: the query string
  of the current URL (\<open>URLSearchParams\<close>, an ordered list of pairs in which a key may repeat)
  and \<open>localStorage\<close>/\<open>sessionStorage\<close> (a map).  The locale \<open>key_store\<close> is what the client relies
  on; both stores are interpretations of it.
\<close>

section \<open>The interface\<close>

definition put_opt :: "('s \<Rightarrow> ustr \<Rightarrow> 'v \<Rightarrow> 's) \<Rightarrow> ('s \<Rightarrow> ustr \<Rightarrow> 's) \<Rightarrow> 's \<Rightarrow> ustr \<Rightarrow> 'v option \<Rightarrow> 's" where
  "put_opt put del s k v = (case v of None \<Rightarrow> del s k | Some x \<Rightarrow> put s k x)"

locale key_store =
  fixes get :: "'s \<Rightarrow> ustr \<Rightarrow> 'v option"
    and put :: "'s \<Rightarrow> ustr \<Rightarrow> 'v \<Rightarrow> 's"
    and del :: "'s \<Rightarrow> ustr \<Rightarrow> 's"
  assumes get_put: "get (put s k v) k' = (if k' = k then Some v else get s k')"
    and get_del: "get (del s k) k' = (if k' = k then None else get s k')"
begin

lemma get_put_same: "get (put s k v) k = Some v"
  by (simp add: get_put)

lemma get_del_same: "get (del s k) k = None"
  by (simp add: get_del)

lemma get_put_opt: "get (put_opt put del s k v) k' = (if k' = k then v else get s k')"
  by (cases v) (simp_all add: put_opt_def get_put get_del)

lemma get_put_other: "k' \<noteq> k \<Longrightarrow> get (put s k v) k' = get s k'"
  by (simp add: get_put)

lemma get_del_other: "k' \<noteq> k \<Longrightarrow> get (del s k) k' = get s k'"
  by (simp add: get_del)

lemma get_fold_del: "get (fold (\<lambda>k t. del t k) ks s) k' = (if k' \<in> set ks then None else get s k')"
  by (induction ks arbitrary: s) (auto simp: get_del)

end

section \<open>URLSearchParams\<close>

type_synonym url_params = "(ustr \<times> ustr) list"

definition sp_get :: "url_params \<Rightarrow> ustr \<Rightarrow> ustr option" where
  "sp_get ps k = map_of ps k"

definition sp_delete :: "url_params \<Rightarrow> ustr \<Rightarrow> url_params" where
  "sp_delete ps k = filter (\<lambda>p. fst p \<noteq> k) ps"

fun sp_set :: "url_params \<Rightarrow> ustr \<Rightarrow> ustr \<Rightarrow> url_params" where
  \<comment> \<open>the first pair of the key is replaced, its later pairs are dropped\<close>
  "sp_set [] k v = [(k, v)]"
| "sp_set ((k', v') # ps) k v =
     (if k' = k then (k, v) # sp_delete ps k else (k', v') # sp_set ps k v)"

lemma map_of_sp_delete: "map_of (sp_delete ps k) k' = (if k' = k then None else map_of ps k')"
  by (induction ps) (auto simp: sp_delete_def)

lemma map_of_sp_set: "map_of (sp_set ps k v) k' = (if k' = k then Some v else map_of ps k')"
  by (induction ps k v rule: sp_set.induct) (auto simp: map_of_sp_delete)

interpretation url: key_store sp_get sp_set sp_delete
  by unfold_locales (simp_all add: sp_get_def map_of_sp_set map_of_sp_delete)

section \<open>Web storage\<close>

type_synonym storage = "(ustr, ustr) map"

definition getItem :: "storage \<Rightarrow> ustr \<Rightarrow> ustr option" where
  "getItem s k = s k"

definition setItem :: "storage \<Rightarrow> ustr \<Rightarrow> ustr \<Rightarrow> storage" where
  "setItem s k v = s(k \<mapsto> v)"

definition removeItem :: "storage \<Rightarrow> ustr \<Rightarrow> storage" where
  "removeItem s k = s(k := None)"

interpretation web: key_store getItem setItem removeItem
  by unfold_locales (simp_all add: getItem_def setItem_def removeItem_def)

end
