(* ===== verification/Normalizers.thy ===== *)
theory Normalizers
  imports JsValue
begin

text \<open>
  The leaf normalisers every other component calls: \<open>services/api/normalizers.ts\<close>,
  \<open>utils/idValidation.ts\<close>, \<open>utils/phone.ts\<close>, \<open>utils/userDisplayName.ts\<close>,
  \<open>utils/sellerDisplayName.ts\<close>, \<open>services/api/posts/status.ts\<close>, \<open>services/api/shared.ts\<close>,
  \<open>services/api/utils.ts\<close> and the parsing half of \<open>constants/appConfig.ts\<close>.
  Each takes a value of unknown shape and returns a value of a known one.
\<close>

section \<open>normalizers.ts\<close>

fun asRecord :: "jval \<Rightarrow> jval option" where
  "asRecord (Obj fs) = Some (Obj fs)"
| "asRecord (Arr vs) = Some (Arr vs)"
| "asRecord _ = None"

definition toRecord :: "jval \<Rightarrow> jval" where
  "toRecord v = (case asRecord v of Some r \<Rightarrow> r | None \<Rightarrow> Obj [])"

fun readString :: "jval \<Rightarrow> ustr" where
  "readString (Str s) = trim s"
| "readString _ = []"

fun toBoolean :: "jval \<Rightarrow> bool \<Rightarrow> bool" where
  "toBoolean (Bool b) fallback = b"
| "toBoolean _ fallback = fallback"

fun readStringArray :: "jval \<Rightarrow> ustr list" where
  "readStringArray (Arr vs) =
     filter (\<lambda>s. length s > 0) (map readString (filter is_str vs))"
| "readStringArray _ = []"

definition MIN_SAFE_INTEGER :: int where
  "MIN_SAFE_INTEGER = - 9007199254740991"

definition toIntegerOrDefault :: "jval \<Rightarrow> int \<Rightarrow> int \<Rightarrow> int" where
  "toIntegerOrDefault v fallback minimumValue =
     (case to_num v of
        Fin r \<Rightarrow> if \<not> is_int_rat r \<or> r < of_int minimumValue then fallback else \<lfloor>r\<rfloor>
      | _ \<Rightarrow> fallback)"

lemma asRecord_cases: "asRecord v = Some r \<Longrightarrow> v = r \<and> \<not> is_nullish v"
  by (cases v) auto

lemma trimmed_readString [simp]: "trimmed (readString v)"
  by (cases v) simp_all

lemma readStringArray_clean: "s \<in> set (readStringArray v) \<Longrightarrow> trimmed s \<and> s \<noteq> []"
  by (cases v) auto

lemma toIntegerOrDefault_min:
  "minimumValue \<le> fallback \<Longrightarrow> minimumValue \<le> toIntegerOrDefault v fallback minimumValue"
  by (auto simp: toIntegerOrDefault_def le_floor_iff split: jnum.splits)

lemma toIntegerOrDefault_ge:
  "toIntegerOrDefault v fallback minimumValue \<noteq> fallback \<Longrightarrow>
     minimumValue \<le> toIntegerOrDefault v fallback minimumValue"
  by (auto simp: toIntegerOrDefault_def le_floor_iff split: jnum.splits if_splits)

lemma toIntegerOrDefault_int:
  "m \<le> i \<Longrightarrow> toIntegerOrDefault (Num (Fin (of_int i))) d m = i"
  by (simp add: toIntegerOrDefault_def)

section \<open>idValidation.ts\<close>

fun toPositiveIntegerId :: "jval \<Rightarrow> int option" where
  "toPositiveIntegerId (Num n) =
     (case n of
        Fin r \<Rightarrow> if is_safe_integer (Fin r) \<and> r > 0 then Some \<lfloor>r\<rfloor> else None
      | _ \<Rightarrow> None)"
| "toPositiveIntegerId (Str s) =
     (let trimmed_s = trim s in
      if \<not> (trimmed_s \<noteq> [] \<and> list_all is_digit trimmed_s) then None
      else (case str_num trimmed_s of
              Fin parsed \<Rightarrow> if is_safe_integer (Fin parsed) \<and> parsed > 0 then Some \<lfloor>parsed\<rfloor> else None
            | _ \<Rightarrow> None))"
| "toPositiveIntegerId (BigInt i) = (if i > 0 \<and> i \<le> MAX_SAFE_INTEGER then Some i else None)"
| "toPositiveIntegerId _ = None"

lemma safe_pos_floor:
  "is_safe_integer (Fin r) \<Longrightarrow> r > 0 \<Longrightarrow> 1 \<le> r \<and> \<lfloor>r\<rfloor> \<le> MAX_SAFE_INTEGER"
  by (auto elim!: is_int_ratE)

lemma safe_of_int:
  "is_safe_integer (Fin (of_int i)) \<and> (of_int i :: rat) > 0 \<longleftrightarrow> 0 < i \<and> i \<le> MAX_SAFE_INTEGER"
  by auto

lemma toPositiveIntegerId_range:
  "toPositiveIntegerId v = Some i \<Longrightarrow> 0 < i \<and> i \<le> MAX_SAFE_INTEGER"
  by (cases v) (auto simp: Let_def safe_pos_floor split: jnum.splits if_splits
      simp del: is_safe_integer.simps)

lemma toPositiveIntegerId_int:
  "toPositiveIntegerId (Num (Fin (of_int i))) = (if 0 < i \<and> i \<le> MAX_SAFE_INTEGER then Some i else None)"
  using safe_of_int [of i] by (simp del: is_safe_integer.simps)

lemma fin_or_inf_safe:
  assumes "0 \<le> i"
  shows "(case fin_or_inf (of_int i) of
            Fin p \<Rightarrow> if is_safe_integer (Fin p) \<and> p > 0 then Some \<lfloor>p\<rfloor> else None | _ \<Rightarrow> None)
         = (if 0 < i \<and> i \<le> MAX_SAFE_INTEGER then Some i else None)"
proof (cases "fin_or_inf (of_int i :: rat) = Fin (of_int i)")
  case True
  then show ?thesis using safe_of_int [of i] by (simp del: is_safe_integer.simps)
next
  case False
  then have big: "overflow_threshold \<le> of_int i"
    using assms by (auto simp: fin_or_inf_def overflow_threshold_def split: if_splits)
  then have "fin_or_inf (of_int i :: rat) = PInf" by (simp add: fin_or_inf_def)
  moreover have "\<not> i \<le> MAX_SAFE_INTEGER"
  proof
    assume "i \<le> MAX_SAFE_INTEGER"
    then have "(of_int i :: rat) \<le> of_int MAX_SAFE_INTEGER" by simp
    with big have "overflow_threshold \<le> of_int MAX_SAFE_INTEGER" by linarith
    then show False by (simp add: overflow_threshold_def MAX_SAFE_INTEGER_def)
  qed
  ultimately show ?thesis by simp
qed

lemma toPositiveIntegerId_digits:
  assumes "list_all is_digit s" and "s \<noteq> []"
  shows "toPositiveIntegerId (Str s) =
    (if 0 < digits_val s \<and> int (digits_val s) \<le> MAX_SAFE_INTEGER then Some (int (digits_val s)) else None)"
proof -
  have t: "trim s = s" using assms(1) by (simp add: trim_id trimmed_digits)
  have n: "str_num s = fin_or_inf (of_int (int (digits_val s)))"
    using str_num_digits [OF assms] by simp
  show ?thesis
    using fin_or_inf_safe [of "int (digits_val s)"] assms
    by (simp add: t n del: is_safe_integer.simps)
qed

lemma toPositiveIntegerId_trim: "toPositiveIntegerId (Str (trim s)) = toPositiveIntegerId (Str s)"
  by simp

lemma toPositiveIntegerId_Str_Some:
  assumes "toPositiveIntegerId (Str s) = Some i"
  shows "trim s \<noteq> [] \<and> list_all is_digit (trim s) \<and> i = int (digits_val (trim s))"
proof -
  from assms have d: "trim s \<noteq> []" "list_all is_digit (trim s)"
    by (auto simp: Let_def split: if_splits)
  from assms have "toPositiveIntegerId (Str (trim s)) = Some i"
    by (simp only: toPositiveIntegerId_trim)
  with toPositiveIntegerId_digits [OF d(2,1)] d show ?thesis by (simp split: if_splits)
qed

lemma toPositiveIntegerId_int_str:
  assumes "0 < i" and "i \<le> MAX_SAFE_INTEGER"
  shows "toPositiveIntegerId (Str (int_str i)) = Some i"
proof -
  have "int_str i = nat_str (nat i)" using assms(1) by (simp add: int_str_def)
  moreover have "list_all is_digit (nat_str (nat i))"
    by (simp add: list_all_iff nat_str_digits)
  moreover note toPositiveIntegerId_digits [of "nat_str (nat i)"]
  ultimately show ?thesis using assms by (simp del: toPositiveIntegerId.simps)
qed

section \<open>phone.ts\<close>

definition digits_only :: "ustr \<Rightarrow> ustr" where
  "digits_only s = filter is_digit s"

definition is_local_mobile :: "ustr \<Rightarrow> bool" where
  \<comment> \<open>\<open>/^7[789]\d{7}$/\<close>\<close>
  "is_local_mobile s \<longleftrightarrow>
     length s = 9 \<and> s ! 0 = 55 \<and> (s ! 1 = 55 \<or> s ! 1 = 56 \<or> s ! 1 = 57) \<and> list_all is_digit (drop 2 s)"

definition normalizeJordanPhone :: "ustr \<Rightarrow> ustr \<Rightarrow> ustr option" where
  "normalizeJordanPhone defaultPhonePrefix value =
     (let digitsOnly = digits_only value;
          prefixDigits = digits_only defaultPhonePrefix in
      if digitsOnly = [] then None
      else
        (let localNumber =
               (if prefixDigits \<noteq> [] \<and> starts_with digitsOnly prefixDigits
                then drop (length prefixDigits) digitsOnly else digitsOnly);
             localNumber' =
               (if starts_with localNumber [48] \<and> length localNumber = 10
                then drop 1 localNumber else localNumber)
         in if is_local_mobile localNumber' then Some (defaultPhonePrefix @ localNumber') else None))"

lemma local_mobile_digits: "is_local_mobile s \<Longrightarrow> digits_only s = s"
proof -
  assume m: "is_local_mobile s"
  then obtain a b r where s: "s = a # b # r"
    by (cases s; cases "tl s") (auto simp: is_local_mobile_def)
  with m show ?thesis
    by (auto simp: is_local_mobile_def digits_only_def is_digit_def list_all_iff intro!: filter_True)
qed

lemma normalizeJordanPhone_Some:
  assumes "normalizeJordanPhone p v = Some w"
  obtains l where "w = p @ l" and "is_local_mobile l"
  using assms by (auto simp: normalizeJordanPhone_def Let_def split: if_splits)

lemma normalizeJordanPhone_local:
  assumes m: "is_local_mobile l"
  shows "normalizeJordanPhone p (p @ l) = Some (p @ l)"
proof -
  have d: "digits_only (p @ l) = digits_only p @ l"
    using local_mobile_digits [OF m] by (simp add: digits_only_def)
  have l: "length l = 9" using m by (simp add: is_local_mobile_def)
  then have ne: "l \<noteq> []" by auto
  from d ne l m show ?thesis
    by (cases "digits_only p = []")
       (simp_all add: normalizeJordanPhone_def Let_def starts_with_def)
qed

section \<open>userDisplayName.ts and sellerDisplayName.ts\<close>

definition toFallbackLabel :: "jval \<Rightarrow> ustr" where
  "toFallbackLabel fallbackUserId =
     (let normalizedId = (if is_nullish fallbackUserId then [] else trim (to_str fallbackUserId))
      in if length normalizedId > 0 then U ''User '' @ normalizedId else U ''Unknown'')"

definition resolveUserDisplayName :: "jval \<Rightarrow> jval \<Rightarrow> ustr" where
  "resolveUserDisplayName userData fallbackUserId =
     (if \<not> truthy userData then toFallbackLabel fallbackUserId
      else
        (let explicitName = or_else (readString (fld userData ''name'')) (readString (fld userData ''Name''))
         in if explicitName \<noteq> [] then explicitName
            else
              (let firstName = or_else (readString (fld userData ''firstName'')) (readString (fld userData ''FirstName''));
                   lastName = or_else (readString (fld userData ''lastName'')) (readString (fld userData ''LastName''));
                   fullName = trim (firstName @ [32] @ lastName)
               in if fullName \<noteq> [] then fullName
                  else
                    (let email = or_else (readString (fld userData ''email'')) (readString (fld userData ''Email''))
                     in if email \<noteq> [] then email else toFallbackLabel fallbackUserId))))"

lemma toFallbackLabel_not_Nil: "toFallbackLabel v \<noteq> []"
  by (simp add: toFallbackLabel_def Let_def U_def)

lemma resolveUserDisplayName_not_Nil: "resolveUserDisplayName u f \<noteq> []"
  by (simp add: resolveUserDisplayName_def Let_def toFallbackLabel_not_Nil)

definition ascii_lower :: "nat \<Rightarrow> nat" where
  \<comment> \<open>case folding of the regular expression flag \<open>i\<close> on ASCII letters\<close>
  "ascii_lower c = (if 65 \<le> c \<and> c \<le> 90 then c + 32 else c)"

definition ci_prefix :: "string \<Rightarrow> ustr \<Rightarrow> bool" where
  "ci_prefix p s \<longleftrightarrow> map ascii_lower (take (length p) s) = U p"

definition isGenericPlaceholder :: "ustr \<Rightarrow> bool" where
  \<comment> \<open>\<open>/^(user\s*\d*|unknown(\s+seller)?)$/i\<close>\<close>
  "isGenericPlaceholder name \<longleftrightarrow>
     (ci_prefix ''user'' name \<and> list_all is_digit (dropWhile is_ws (drop 4 name)))
     \<or> (ci_prefix ''unknown'' name \<and>
         (let r = drop 7 name in
          r = [] \<or> (is_ws (hd r) \<and> map ascii_lower (dropWhile is_ws r) = U ''seller'')))"

definition normalizeSellerDisplayName :: "jval \<Rightarrow> ustr \<Rightarrow> ustr" where
  "normalizeSellerDisplayName rawName fallbackUserId =
     (let trimmedName = trim (if truthy rawName then to_str rawName else []) in
      if trimmedName = [] \<or> isGenericPlaceholder trimmedName
      then (if fallbackUserId \<noteq> [] then U ''Seller #'' @ fallbackUserId else U ''Seller'')
      else trimmedName)"

section \<open>status.ts\<close>

datatype post_status = ACTIVE | SOLD | DELETED

definition POST_STATUS_ACTIVE :: int where "POST_STATUS_ACTIVE = 0"
definition POST_STATUS_BLOCKED :: int where "POST_STATUS_BLOCKED = 1"
definition POST_STATUS_INACTIVE :: int where "POST_STATUS_INACTIVE = 2"
definition POST_STATUS_SOLD :: int where "POST_STATUS_SOLD = 3"

lemmas post_status_numbers =
  POST_STATUS_ACTIVE_def POST_STATUS_BLOCKED_def POST_STATUS_INACTIVE_def POST_STATUS_SOLD_def

definition normalizePostStatus :: "jval \<Rightarrow> post_status" where
  "normalizePostStatus rawStatus =
     (case rawStatus of
        Str s \<Rightarrow>
          (let normalized = upper (trim s) in
           if normalized = U ''SOLD'' then SOLD
           else if normalized = U ''DELETED'' \<or> normalized = U ''BLOCKED'' \<or> normalized = U ''INACTIVE''
           then DELETED else ACTIVE)
      | _ \<Rightarrow>
          (let numericStatus = to_num rawStatus in
           if numericStatus = Fin (of_int POST_STATUS_SOLD) then SOLD
           else if numericStatus = Fin (of_int POST_STATUS_BLOCKED)
                 \<or> numericStatus = Fin (of_int POST_STATUS_INACTIVE)
           then DELETED else ACTIVE))"

definition toStatusNumber :: "jval \<Rightarrow> int \<Rightarrow> int" where
  "toStatusNumber v fallbackStatus =
     (case to_num v of Fin r \<Rightarrow> trunc_rat r | _ \<Rightarrow> fallbackStatus)"

definition resolveStatusValue :: "ustr option \<Rightarrow> int \<Rightarrow> int" where
  "resolveStatusValue status fallbackStatus =
     (case status of
        None \<Rightarrow> fallbackStatus
      | Some s \<Rightarrow>
          (let k = upper (trim s) in
           if k = U ''ACTIVE'' then POST_STATUS_ACTIVE
           else if k = U ''BLOCKED'' then POST_STATUS_BLOCKED
           else if k = U ''INACTIVE'' \<or> k = U ''DELETED'' then POST_STATUS_INACTIVE
           else if k = U ''SOLD'' then POST_STATUS_SOLD
           else fallbackStatus))"

section \<open>shared.ts and utils.ts\<close>

definition ends_with_offset :: "ustr \<Rightarrow> bool" where
  \<comment> \<open>\<open>/[+-]\d{2}:\d{2}$/\<close>\<close>
  "ends_with_offset s \<longleftrightarrow>
     6 \<le> length s \<and>
     (let t = drop (length s - 6) s in
      (t ! 0 = 43 \<or> t ! 0 = 45) \<and> is_digit (t ! 1) \<and> is_digit (t ! 2) \<and> t ! 3 = 58
      \<and> is_digit (t ! 4) \<and> is_digit (t ! 5))"

definition looks_like_iso :: "ustr \<Rightarrow> bool" where
  \<comment> \<open>\<open>/^\d{4}-\d{2}-\d{2}T/\<close>\<close>
  "looks_like_iso s \<longleftrightarrow>
     11 \<le> length s \<and> list_all is_digit (take 4 s) \<and> s ! 4 = 45 \<and> is_digit (s ! 5) \<and> is_digit (s ! 6)
     \<and> s ! 7 = 45 \<and> is_digit (s ! 8) \<and> is_digit (s ! 9) \<and> s ! 10 = 84"

definition normalizeIsoDateInput :: "ustr \<Rightarrow> ustr" where
  "normalizeIsoDateInput value =
     (let trimmed_v = trim value in
      if trimmed_v = [] then trimmed_v
      else
        (let hasExplicitTimezone = ends_with trimmed_v [90] \<or> ends_with_offset trimmed_v
         in if looks_like_iso trimmed_v \<and> \<not> hasExplicitTimezone then trimmed_v @ [90] else trimmed_v))"

definition toIsoStringOrNow :: "jsenv \<Rightarrow> jval \<Rightarrow> ustr" where
  "toIsoStringOrNow env v =
     (if v \<noteq> Null \<and> v \<noteq> Undef \<and> v \<noteq> Str []
      then
        (let normalizedValue = (case v of Str s \<Rightarrow> Str (normalizeIsoDateInput s) | _ \<Rightarrow> v)
         in case date_value env normalizedValue of
              Some t \<Rightarrow> iso_string env t
            | None \<Rightarrow> iso_string env (now_ms env))
      else iso_string env (now_ms env))"

lemma ends_with_Z_append [simp]: "ends_with (s @ [90]) [90]"
  by (simp add: ends_with_def)

lemma normalizeIsoDateInput_idem:
  "normalizeIsoDateInput (normalizeIsoDateInput s) = normalizeIsoDateInput s"
proof -
  let ?t = "trim s"
  have "trimmed (?t @ [90])" if "?t \<noteq> []"
    using that trimmed_trim [of s] by (simp add: trimmed_def is_ws_def)
  then show ?thesis
    by (simp add: normalizeIsoDateInput_def Let_def trim_id)
qed

fun assoc_set :: "ustr \<Rightarrow> 'v \<Rightarrow> (ustr \<times> 'v) list \<Rightarrow> (ustr \<times> 'v) list" where
  \<comment> \<open>\<open>result[key] = value\<close>: an existing key keeps its position\<close>
  "assoc_set k v [] = [(k, v)]"
| "assoc_set k v ((k', v') # r) = (if k = k' then (k, v) # r else (k', v') # assoc_set k v r)"

definition obj_set :: "jval \<Rightarrow> string \<Rightarrow> jval \<Rightarrow> jval" where
  "obj_set v k x = (case v of Obj fs \<Rightarrow> Obj (assoc_set (U k) x fs) | _ \<Rightarrow> v)"

definition assoc_fill :: "(ustr \<times> 'v) list \<Rightarrow> (ustr \<times> 'v) list" where
  "assoc_fill kvs = fold (\<lambda>(k, v) acc. assoc_set k v acc) kvs []"

fun camel_key :: "ustr \<Rightarrow> ustr" where
  "camel_key [] = []"
| "camel_key (c # cs) = lower_unit c @ cs"

fun toCamelCaseKeys :: "jval \<Rightarrow> jval" where
  "toCamelCaseKeys (Arr vs) = Arr (map toCamelCaseKeys vs)"
| "toCamelCaseKeys (Obj fs) = Obj (assoc_fill (map (\<lambda>kv. (camel_key (fst kv), toCamelCaseKeys (snd kv))) fs))"
| "toCamelCaseKeys v = v"

lemma camel_key_idem [simp]: "camel_key (camel_key k) = camel_key k"
proof (cases k)
  case (Cons c cs)
  obtain d ds where d: "lower_unit c = d # ds" by (cases "lower_unit c") auto
  then have "lower_unit d = [d]" using lower_unit_fix [of d c] by simp
  with Cons d show ?thesis by simp
qed simp

lemma dom_assoc_set: "fst ` set (assoc_set k v r) = insert k (fst ` set r)"
  by (induction k v r rule: assoc_set.induct) (auto simp: insert_commute)

lemma distinct_assoc_set: "distinct (map fst r) \<Longrightarrow> distinct (map fst (assoc_set k v r))"
proof (induction k v r rule: assoc_set.induct)
  case (2 k v k' v' r)
  then show ?case using dom_assoc_set [of k v r] by (simp flip: set_map)
qed simp

lemma set_assoc_set: "set (assoc_set k v r) \<subseteq> insert (k, v) (set r)"
  by (induction k v r rule: assoc_set.induct) auto

lemma map_of_assoc_set: "map_of (assoc_set k v r) = (map_of r)(k \<mapsto> v)"
  by (induction k v r rule: assoc_set.induct) auto

lemma fld_obj_set: "fld (obj_set v k x) j = (if j = k \<and> (\<exists>fs. v = Obj fs) then x else fld v j)"
  by (cases v) (auto simp: obj_set_def map_of_assoc_set)

lemma assoc_set_new: "k \<notin> fst ` set r \<Longrightarrow> assoc_set k v r = r @ [(k, v)]"
  by (induction k v r rule: assoc_set.induct) auto

lemma fold_assoc_set:
  fixes acc :: "(ustr \<times> 'v) list"
  defines "go \<equiv> fold (\<lambda>(k, v) acc. assoc_set k v acc)"
  shows "distinct (map fst acc) \<Longrightarrow> distinct (map fst (go kvs acc))"
    and "set (go kvs acc) \<subseteq> set kvs \<union> set acc"
    and "distinct (map fst (acc @ kvs)) \<Longrightarrow> go kvs acc = acc @ kvs"
proof -
  show "distinct (map fst acc) \<Longrightarrow> distinct (map fst (go kvs acc))"
    unfolding go_def by (induction kvs arbitrary: acc) (auto simp: distinct_assoc_set)
  show "set (go kvs acc) \<subseteq> set kvs \<union> set acc"
    unfolding go_def
  proof (induction kvs arbitrary: acc)
    case (Cons p kvs)
    then show ?case using set_assoc_set [of "fst p" "snd p" acc]
      by (cases p) (fastforce dest: subsetD)
  qed simp
  show "distinct (map fst (acc @ kvs)) \<Longrightarrow> go kvs acc = acc @ kvs"
    unfolding go_def
  proof (induction kvs arbitrary: acc)
    case (Cons p kvs)
    then have "fst p \<notin> fst ` set acc" by auto
    with Cons show ?case by (cases p) (auto simp: assoc_set_new)
  qed simp
qed

lemma distinct_assoc_fill: "distinct (map fst (assoc_fill kvs))"
  by (simp add: assoc_fill_def fold_assoc_set(1))

lemma set_assoc_fill: "set (assoc_fill kvs) \<subseteq> set kvs"
  using fold_assoc_set(2) [of kvs "[]"] by (simp add: assoc_fill_def)

lemma assoc_fill_id: "distinct (map fst kvs) \<Longrightarrow> assoc_fill kvs = kvs"
  using fold_assoc_set(3) [of "[]" kvs] by (simp add: assoc_fill_def)

lemma toCamelCaseKeys_idem_lemma: "toCamelCaseKeys (toCamelCaseKeys v) = toCamelCaseKeys v"
proof (induction v rule: toCamelCaseKeys.induct)
  case (1 vs)
  then show ?case by simp
next
  case (2 fs)
  let ?f = "\<lambda>kv. (camel_key (fst kv), toCamelCaseKeys (snd kv))"
  let ?g = "map ?f fs"
  have "(camel_key (fst kv), toCamelCaseKeys (snd kv)) = kv" if "kv \<in> set (assoc_fill ?g)" for kv
  proof -
    from that have "kv \<in> set ?g" using set_assoc_fill by (rule subsetD [rotated])
    then obtain p where "p \<in> set fs" and "kv = (camel_key (fst p), toCamelCaseKeys (snd p))"
      by (auto simp only: set_map image_iff)
    with 2 show ?thesis by simp
  qed
  then have eq: "map ?f (assoc_fill ?g) = assoc_fill ?g" by (rule map_idI)
  have "toCamelCaseKeys (toCamelCaseKeys (Obj fs)) = Obj (assoc_fill (map ?f (assoc_fill ?g)))"
    by (subst toCamelCaseKeys.simps(2))+ (rule refl)
  also have "\<dots> = Obj (assoc_fill ?g)"
    unfolding eq by (simp only: assoc_fill_id [OF distinct_assoc_fill])
  finally show ?case by (subst (2) toCamelCaseKeys.simps(2))
qed auto

text \<open>\<open>origin_of\<close> stands for \<open>new URL(apiBase).origin\<close>, \<open>None\<close> where the URL does not parse.\<close>

definition is_http_url_ci :: "ustr \<Rightarrow> bool" where
  \<comment> \<open>\<open>/^https?:\/\//i\<close>\<close>
  "is_http_url_ci s \<longleftrightarrow> ci_prefix ''http://'' s \<or> ci_prefix ''https://'' s"

definition resolveUploadUrl :: "(ustr \<Rightarrow> ustr option) \<Rightarrow> ustr \<Rightarrow> ustr \<Rightarrow> ustr" where
  "resolveUploadUrl origin_of apiBase url =
     (if url = [] then []
      else if is_http_url_ci url then url
      else if apiBase \<noteq> [] then
        (case origin_of apiBase of
           Some origin \<Rightarrow> origin @ (if starts_with url [47] then [] else [47]) @ url
         | None \<Rightarrow> url)
      else url)"

section \<open>appConfig.ts\<close>

definition parsePositiveNumber :: "jval \<Rightarrow> rat \<Rightarrow> rat" where
  "parsePositiveNumber v fallback =
     (case to_num v of Fin parsed \<Rightarrow> if parsed > 0 then parsed else fallback | _ \<Rightarrow> fallback)"

definition parseBooleanFlag :: "jval \<Rightarrow> bool \<Rightarrow> bool" where
  "parseBooleanFlag v fallback =
     (case v of
        Bool b \<Rightarrow> b
      | Str s \<Rightarrow>
          (let normalized = lower (trim s) in
           if normalized \<in> set [U ''true'', U ''1'', U ''yes'', U ''on''] then True
           else if normalized \<in> set [U ''false'', U ''0'', U ''no'', U ''off''] then False
           else fallback)
      | _ \<Rightarrow> fallback)"

definition parseNonEmptyString :: "jval \<Rightarrow> ustr \<Rightarrow> ustr" where
  "parseNonEmptyString v fallback =
     (case v of Str s \<Rightarrow> (let t = trim s in if length t > 0 then t else fallback) | _ \<Rightarrow> fallback)"

definition strip_trailing_slashes :: "ustr \<Rightarrow> ustr" where
  \<comment> \<open>\<open>.replace(/\/+$/, "")\<close>\<close>
  "strip_trailing_slashes s = rev (dropWhile (\<lambda>c. c = 47) (rev s))"

text \<open>\<open>canonical\<close> stands for parsing a URL, replacing a loopback host name and printing it again.\<close>

definition normalizeApiBaseUrl :: "(ustr \<Rightarrow> ustr) \<Rightarrow> ustr \<Rightarrow> ustr" where
  "normalizeApiBaseUrl canonical value =
     (let u = canonical (strip_trailing_slashes value) in
      if 4 \<le> length u \<and> ci_prefix ''/api'' (drop (length u - 4) u) then u @ U ''/v1'' else u)"

definition api_tail :: "ustr \<Rightarrow> bool" where
  \<comment> \<open>a whole match of \<open>/\/api(?:\/v\d+)?$/i\<close>\<close>
  "api_tail s \<longleftrightarrow>
     ci_prefix ''/api'' s \<and>
     (let r = drop 4 s in
      r = [] \<or> (ci_prefix ''/v'' r \<and> drop 2 r \<noteq> [] \<and> list_all is_digit (drop 2 r)))"

fun strip_api_tail :: "ustr \<Rightarrow> ustr" where
  "strip_api_tail [] = []"
| "strip_api_tail (c # cs) = (if api_tail (c # cs) then [] else c # strip_api_tail cs)"

record app_config =
  apiBaseUrl :: ustr
  backendHostUrl :: ustr
  googleAuthEnabled :: bool
  googleMapsApiKey :: ustr
  googleMapsMapId :: ustr
  requestTimeoutMs :: rat
  defaultCity :: ustr
  defaultPhonePrefix :: ustr
  allPostsLimit :: rat
  homeLimit :: rat
  searchResultsLimit :: rat

definition APP_CONFIG :: "(ustr \<Rightarrow> ustr) \<Rightarrow> (string \<Rightarrow> jval) \<Rightarrow> app_config" where
  "APP_CONFIG canonical env =
     (let base = normalizeApiBaseUrl canonical
                   (parseNonEmptyString (env ''VITE_API_BASE_URL'') (U ''http://localhost:5033/api/v1''));
          isDevMode = parseBooleanFlag (env ''DEV'') False
      in \<lparr> apiBaseUrl = base,
           backendHostUrl = strip_api_tail base,
           googleAuthEnabled = parseBooleanFlag (env ''VITE_GOOGLE_AUTH_ENABLED'') False,
           googleMapsApiKey = parseNonEmptyString (env ''VITE_GOOGLE_MAPS_API_KEY'') [],
           googleMapsMapId = parseNonEmptyString (env ''VITE_GOOGLE_MAPS_MAP_ID'')
             (if isDevMode then U ''DEMO_MAP_ID'' else []),
           requestTimeoutMs = parsePositiveNumber (env ''VITE_REQUEST_TIMEOUT_MS'') 10000,
           defaultCity = parseNonEmptyString (env ''VITE_DEFAULT_CITY'') (U ''Amman''),
           defaultPhonePrefix = parseNonEmptyString (env ''VITE_DEFAULT_PHONE_PREFIX'') (U ''+962''),
           allPostsLimit = parsePositiveNumber (env ''VITE_ALL_POSTS_SEARCH_LIMIT'') 200,
           homeLimit = parsePositiveNumber (env ''VITE_HOME_SEARCH_LIMIT'') 200,
           searchResultsLimit = parsePositiveNumber (env ''VITE_SEARCH_RESULTS_LIMIT'') 100 \<rparr>)"

lemma parsePositiveNumber_pos: "0 < d \<Longrightarrow> 0 < parsePositiveNumber v d"
  by (auto simp: parsePositiveNumber_def split: jnum.splits)


end
