(* ===== verification/Entities.thy ===== *)
theory Entities
  imports Normalizers
begin

text \<open>
  The entities of \<open>types/index.ts\<close> that the modelled components exchange.  An optional
  property is an \<open>option\<close>; a property whose absence and empty string the code never tells
  apart is still an \<open>option\<close>, and \<open>opt_str\<close> is the \<open>value || ""\<close> the code reads it with.
\<close>

datatype language = En | Ar

datatype role = Admin | RegularUser

record post =
  post_id :: ustr
  post_name :: ustr
  post_price :: rat
  post_location :: ustr
  post_locationAr :: "ustr option"
  post_area :: "ustr option"
  post_areaAr :: "ustr option"
  post_seller :: ustr
  post_sellerId :: ustr
  post_category :: ustr
  post_categoryId :: "ustr option"
  post_image :: ustr
  post_images :: "ustr list option"
  post_phone :: "ustr option"
  post_description :: "ustr option"
  post_createdAt :: "ustr option"
  post_views :: "rat option"
  post_averageRating :: "rat option"
  post_reviewCount :: "rat option"
  post_state :: "post_status option"

record user_profile =
  profile_id :: ustr
  profile_firstName :: "ustr option"
  profile_lastName :: "ustr option"
  profile_name :: ustr
  profile_email :: ustr
  profile_phone :: ustr
  profile_city :: "ustr option"
  profile_area :: "ustr option"
  profile_cityId :: "int option"
  profile_areaId :: "int option"
  profile_location :: ustr
  profile_bio :: ustr
  profile_avatar :: "ustr option"
  profile_joinedDate :: ustr

record user =
  user_id :: ustr
  user_email :: ustr
  user_firstName :: "ustr option"
  user_lastName :: "ustr option"
  user_name :: ustr
  user_avatar :: "ustr option"
  user_role :: role
  user_roleName :: "ustr option"
  user_hasAdminAccess :: "bool option"
  user_permissions :: "ustr list option"

record message =
  messageId :: "int option"
  senderId :: int
  receiverId :: int
  conversationId :: "int option"
  msg_postId :: "int option"
  content :: ustr
  timestamp :: ustr
  isRead :: bool

record chat_read_receipt =
  receipt_conversationId :: int
  readerUserId :: int
  lastReadMessageId :: int

record post_comment =
  commentId :: int
  comment_id :: ustr
  comment_postId :: int
  comment_userId :: int
  parentCommentId :: "int option"
  comment_content :: ustr
  comment_createdAt :: ustr
  comment_updatedAt :: ustr
  authorName :: ustr
  authorAvatar :: "ustr option"
  replyCount :: int
  isEdited :: bool

definition opt_str :: "ustr option \<Rightarrow> ustr" where
  "opt_str s = (case s of None \<Rightarrow> [] | Some t \<Rightarrow> t)"

lemma opt_str_simps [simp]: "opt_str None = []" "opt_str (Some s) = s"
  by (simp_all add: opt_str_def)

definition undef_if_empty :: "ustr \<Rightarrow> ustr option" where
  \<comment> \<open>\<open>s || undefined\<close>\<close>
  "undef_if_empty s = (if s = [] then None else Some s)"

lemma opt_str_undef_if_empty [simp]: "opt_str (undef_if_empty s) = s"
  by (simp add: undef_if_empty_def)

lemma undef_if_empty_eq [simp]:
  "undef_if_empty s = None \<longleftrightarrow> s = []" "undef_if_empty s = Some t \<longleftrightarrow> s = t \<and> t \<noteq> []"
  by (auto simp: undef_if_empty_def)

text \<open>The post with every optional property absent, the base of the concrete posts below.\<close>

definition bare_post :: "ustr \<Rightarrow> post" where
  "bare_post i = \<lparr> post_id = i, post_name = [], post_price = 0, post_location = [],
     post_locationAr = None, post_area = None, post_areaAr = None, post_seller = [],
     post_sellerId = [], post_category = [], post_categoryId = None, post_image = [],
     post_images = None, post_phone = None, post_description = None, post_createdAt = None,
     post_views = None, post_averageRating = None, post_reviewCount = None, post_state = None \<rparr>"

end
