(* ===== verification/SearchRanking.thy ===== *)
theory SearchRanking
  imports Entities
begin

text \<open>
  \<open>lib/searchRanking.ts\<close>: the relevance ranking of posts against a query in English or Arabic.

  \<open>normalizeSearchText\<close> folds a text to lower case, decomposes it (NFKD), drops Arabic
  diacritics, unifies alef, ya and ta marbuta, and replaces everything else by single spaces.
  The NFKD table covers the Basic Latin, Latin-1 and Arabic blocks.  \<open>buildQueryContext\<close>
  analyses the query once, \<open>scorePost\<close> scores one post, \<open>rankPostsBySearch\<close> filters and sorts.
  The lemmas show that normalising is idempotent (so the terms tables are already in normal form
  when they are compared), that the comparator is a total preorder, and from it that the ranking
  is a sorted permutation of the matching active posts.
\<close>

section \<open>Text normalisation\<close>

definition nfkd_table :: "(nat \<times> ustr) list" where
  "nfkd_table =
      [(160, [32]), (168, [32, 776]), (170, [97]), (175, [32, 772]), (178, [50]),
       (179, [51]), (180, [32, 769]), (181, [956]), (184, [32, 807]), (185, [49]),
       (186, [111]), (188, [49, 8260, 52]), (189, [49, 8260, 50]), (190, [51, 8260, 52]),
       (192, [65, 768]), (193, [65, 769]), (194, [65, 770]), (195, [65, 771]),
       (196, [65, 776]), (197, [65, 778]), (199, [67, 807]), (200, [69, 768]),
       (201, [69, 769]), (202, [69, 770]), (203, [69, 776]), (204, [73, 768]),
       (205, [73, 769]), (206, [73, 770]), (207, [73, 776]), (209, [78, 771]),
       (210, [79, 768]), (211, [79, 769]), (212, [79, 770]), (213, [79, 771]),
       (214, [79, 776]), (217, [85, 768]), (218, [85, 769]), (219, [85, 770]),
       (220, [85, 776]), (221, [89, 769]), (224, [97, 768]), (225, [97, 769]),
       (226, [97, 770]), (227, [97, 771]), (228, [97, 776]), (229, [97, 778]),
       (231, [99, 807]), (232, [101, 768]), (233, [101, 769]), (234, [101, 770]),
       (235, [101, 776]), (236, [105, 768]), (237, [105, 769]), (238, [105, 770]),
       (239, [105, 776]), (241, [110, 771]), (242, [111, 768]), (243, [111, 769]),
       (244, [111, 770]), (245, [111, 771]), (246, [111, 776]), (249, [117, 768]),
       (250, [117, 769]), (251, [117, 770]), (252, [117, 776]), (253, [121, 769]),
       (255, [121, 776]), (1570, [1575, 1619]), (1571, [1575, 1620]), (1572, [1608, 1620]),
       (1573, [1575, 1621]), (1574, [1610, 1620]), (1653, [1575, 1652]),
       (1654, [1608, 1652]), (1655, [1735, 1652]), (1656, [1610, 1652]),
       (1728, [1749, 1620]), (1730, [1729, 1620]), (1747, [1746, 1620])]"

definition nfkd_unit :: "nat \<Rightarrow> ustr" where
  "nfkd_unit c = (case map_of nfkd_table c of Some d \<Rightarrow> d | None \<Rightarrow> [c])"

definition is_arabic_diacritic :: "nat \<Rightarrow> bool" where
  "is_arabic_diacritic c \<longleftrightarrow>
     (1552 \<le> c \<and> c \<le> 1562) \<or> (1611 \<le> c \<and> c \<le> 1631) \<or> c = 1648 \<or> (1750 \<le> c \<and> c \<le> 1773)"

definition fold_arabic_letter :: "nat \<Rightarrow> nat" where
  "fold_arabic_letter c =
     (if c = 1571 \<or> c = 1573 \<or> c = 1570 \<or> c = 1649 then 1575
      else if c = 1609 then 1610 else if c = 1577 then 1607 else c)"

definition is_search_char :: "nat \<Rightarrow> bool" where
  "is_search_char c \<longleftrightarrow> (97 \<le> c \<and> c \<le> 122) \<or> is_digit c \<or> (1536 \<le> c \<and> c \<le> 1791) \<or> is_ws c"

function collapse_ws :: "ustr \<Rightarrow> ustr" where
  "collapse_ws [] = []"
| "collapse_ws (c # cs) =
     (if is_ws c then 32 # collapse_ws (dropWhile is_ws cs) else c # collapse_ws cs)"
  by pat_completeness auto
termination
  by (relation "measure length") (auto simp: le_imp_less_Suc length_dropWhile_le)

definition search_units :: "ustr \<Rightarrow> ustr" where
  "search_units s =
     map (\<lambda>c. if is_search_char c then c else 32)
       (map fold_arabic_letter
          (filter (\<lambda>c. \<not> is_arabic_diacritic c) (concat (map nfkd_unit (lower s)))))"

definition normalizeSearchText :: "ustr \<Rightarrow> ustr" where
  "normalizeSearchText s = trim (collapse_ws (search_units s))"

definition tokenize :: "ustr \<Rightarrow> ustr list" where
  "tokenize s = (if s = [] then [] else filter (\<lambda>t. t \<noteq> []) (map trim (split_on 32 s)))"

definition normalizeTerms :: "ustr list \<Rightarrow> ustr list" where
  "normalizeTerms terms = norm_keys normalizeSearchText terms"

subsection \<open>Normalising is idempotent\<close>

text \<open>A settled unit passes through every stage of the pipeline unchanged.\<close>

definition settled :: "nat \<Rightarrow> bool" where
  "settled c \<longleftrightarrow> lower_unit c = [c] \<and> nfkd_unit c = [c] \<and> \<not> is_arabic_diacritic c
     \<and> fold_arabic_letter c = c"

lemma nfkd_table_closed:
  "list_all (\<lambda>(c, ds). lower_unit c = [c] \<longrightarrow>
      list_all (\<lambda>d. lower_unit d = [d] \<and> nfkd_unit d = [d]) ds) nfkd_table"
  by code_simp

lemma nfkd_unit_closed:
  assumes "lower_unit c = [c]" and "d \<in> set (nfkd_unit c)"
  shows "lower_unit d = [d] \<and> nfkd_unit d = [d]"
proof (cases "map_of nfkd_table c")
  case None
  with assms show ?thesis by (simp add: nfkd_unit_def)
next
  case (Some ds)
  then have "(c, ds) \<in> set nfkd_table" by (rule map_of_SomeD)
  with nfkd_table_closed assms(1)
  have "list_all (\<lambda>d. lower_unit d = [d] \<and> nfkd_unit d = [d]) ds"
    by (auto simp: list_all_iff)
  moreover have "d \<in> set ds" using Some assms(2) by (simp add: nfkd_unit_def)
  ultimately show ?thesis by (simp add: list_all_iff)
qed

lemma fold_arabic_letter_targets:
  "fold_arabic_letter c = c \<or> fold_arabic_letter c \<in> {1575, 1610, 1607}"
  by (simp add: fold_arabic_letter_def)

lemma settled_letters: "settled 1575" "settled 1610" "settled 1607" "settled 32"
  by code_simp+

lemma settled_fold:
  assumes "lower_unit c = [c]" "nfkd_unit c = [c]" "\<not> is_arabic_diacritic c"
  shows "settled (fold_arabic_letter c)"
proof (cases "fold_arabic_letter c = c")
  case True
  with assms show ?thesis by (simp add: settled_def)
next
  case False
  with fold_arabic_letter_targets [of c] settled_letters show ?thesis by auto
qed

lemma search_units_settled:
  assumes "c \<in> set (search_units s)"
  shows "settled c \<and> is_search_char c"
proof -
  obtain d e where d: "d \<in> set (lower s)" and e: "e \<in> set (nfkd_unit d)" "\<not> is_arabic_diacritic e"
    and c: "c = (if is_search_char (fold_arabic_letter e) then fold_arabic_letter e else 32)"
    using assms by (auto simp: search_units_def)
  have "lower_unit d = [d]" using d by (auto simp: lower_def dest: lower_unit_fix)
  with e have "settled (fold_arabic_letter e)"
    using nfkd_unit_closed [of d e] settled_fold [of e] by blast
  then show ?thesis
    using c settled_letters(4) by (auto simp: is_search_char_def is_ws_def)
qed

lemma search_units_id:
  assumes "\<forall>c \<in> set s. settled c \<and> is_search_char c"
  shows "search_units s = s"
proof -
  have l: "lower s = s" using assms by (intro lower_fix) (simp add: settled_def)
  have n: "concat (map nfkd_unit s) = s"
    using assms by (induction s) (simp_all add: settled_def)
  have f: "filter (\<lambda>c. \<not> is_arabic_diacritic c) s = s"
    using assms by (simp add: settled_def)
  have m: "map fold_arabic_letter s = s"
    using assms by (intro map_idI) (simp add: settled_def)
  have "map (\<lambda>c. if is_search_char c then c else 32) s = s"
    using assms by (intro map_idI) simp
  with l n f m show ?thesis by (simp add: search_units_def)
qed

abbreviation single_spaced :: "ustr \<Rightarrow> bool" where
  "single_spaced s \<equiv> successively (\<lambda>a b. is_ws a \<longrightarrow> \<not> is_ws b) s"

lemma is_ws_32 [simp]: "is_ws 32"
  by (simp add: is_ws_def)

lemma collapse_ws_chars: "c \<in> set (collapse_ws s) \<Longrightarrow> c = 32 \<or> (c \<in> set s \<and> \<not> is_ws c)"
  by (induction s rule: collapse_ws.induct) (auto split: if_splits dest: set_dropWhileD)

lemma collapse_ws_hd: "collapse_ws s \<noteq> [] \<Longrightarrow> is_ws (hd (collapse_ws s)) \<longleftrightarrow> is_ws (hd s)"
  by (cases s) auto

lemma single_spaced_collapse_ws: "single_spaced (collapse_ws s)"
proof (induction s rule: collapse_ws.induct)
  case (2 c cs)
  show ?case
  proof (cases "is_ws c")
    case True
    let ?r = "dropWhile is_ws cs"
    have "\<not> is_ws (hd (collapse_ws ?r))" if "collapse_ws ?r \<noteq> []"
      using that collapse_ws_hd [OF that] hd_dropWhile [of is_ws cs] by (cases ?r) auto
    with True 2 show ?thesis by (simp add: successively_Cons) blast
  next
    case False
    with 2 show ?thesis by (simp add: successively_Cons)
  qed
qed simp

lemma collapse_ws_id:
  "single_spaced s \<Longrightarrow> \<forall>c \<in> set s. is_ws c \<longrightarrow> c = 32 \<Longrightarrow> collapse_ws s = s"
proof (induction s rule: collapse_ws.induct)
  case (2 c cs)
  show ?case
  proof (cases "is_ws c")
    case True
    with 2(3) have "dropWhile is_ws cs = cs" by (cases cs) (auto simp: successively_Cons)
    with True 2 show ?thesis by (auto simp: successively_Cons)
  next
    case False
    with 2 show ?thesis by (auto simp: successively_Cons)
  qed
qed simp

lemma single_spaced_trim: "single_spaced s \<Longrightarrow> single_spaced (trim s)"
proof -
  have d: "successively P (dropWhile Q xs)" if "successively P xs" for P Q and xs :: ustr
    using that by (metis successively_append_iff takeWhile_dropWhile_id)
  assume "single_spaced s"
  then have "single_spaced (ltrim s)" unfolding ltrim_def by (rule d)
  then show "single_spaced (trim s)"
    by (simp add: trim_def rtrim_def successively_rev d)
qed

lemma normalizeSearchText_chars:
  assumes "c \<in> set (normalizeSearchText s)"
  shows "settled c \<and> is_search_char c \<and> (is_ws c \<longrightarrow> c = 32)"
proof -
  have "c \<in> set (collapse_ws (search_units s))"
    using assms set_trim by (auto simp: normalizeSearchText_def)
  then have "c = 32 \<or> (c \<in> set (search_units s) \<and> \<not> is_ws c)" by (rule collapse_ws_chars)
  then show ?thesis
    using search_units_settled [of c s] settled_letters(4) by (auto simp: is_search_char_def)
qed

lemma normalizeSearchText_id:
  assumes "\<forall>c \<in> set s. settled c \<and> is_search_char c \<and> (is_ws c \<longrightarrow> c = 32)"
    and "single_spaced s" and "trimmed s"
  shows "normalizeSearchText s = s"
  using assms by (simp add: normalizeSearchText_def search_units_id collapse_ws_id trim_id)

lemma normalizeSearchText_idem [simp]:
  "normalizeSearchText (normalizeSearchText s) = normalizeSearchText s"
  by (rule normalizeSearchText_id)
     (use normalizeSearchText_chars in blast,
      simp_all add: normalizeSearchText_def single_spaced_trim single_spaced_collapse_ws)

interpretation search_keys: key_normaliser normalizeSearchText
  by unfold_locales simp

lemma normalizeTerms_normal: "t \<in> set (normalizeTerms ts) \<Longrightarrow> normalizeSearchText t = t \<and> t \<noteq> []"
  unfolding normalizeTerms_def by (rule search_keys.norm_keys_fixed)

section \<open>Query analysis\<close>

record search_intent =
  queryTerms :: "ustr list"
  categoryTerms :: "ustr list"
  listingTerms :: "ustr list"

record query_context =
  normalizedQuery :: ustr
  queryTokens :: "ustr list"
  expandedTokens :: "ustr list"
  activeIntents :: "search_intent list"
  wantsAffordable :: bool
  wantsPremium :: bool

definition SEARCH_INTENTS :: "search_intent list" where
  "SEARCH_INTENTS =
     [\<lparr> queryTerms = normalizeTerms
      [U ''car'', U ''cars'', U ''vehicle'', U ''vehicles'', U ''auto'', U ''automobile'',
       U ''motor'', U ''motors'', U ''suv'', U ''sedan'', U ''truck'', U ''trucks'',
       U ''pickup'', U ''van'', U ''bike'', U ''bikes'', U ''motorcycle'',
       [1587, 1610, 1575, 1585, 1607], [1587, 1610, 1575, 1585, 1575, 1578],
       [1605, 1585, 1603, 1576, 1607], [1605, 1585, 1603, 1576, 1575, 1578],
       [1588, 1575, 1581, 1606, 1607], [1583, 1585, 1575, 1580, 1607],
       [1583, 1585, 1575, 1580, 1575, 1578]],
        categoryTerms = normalizeTerms
      [U ''vehicle'', U ''vehicles'', U ''car'', U ''cars'', U ''automotive'',
       [1587, 1610, 1575, 1585, 1575, 1578], [1605, 1585, 1603, 1576, 1575, 1578],
       [1605, 1585, 1603, 1576, 1607]],
        listingTerms = normalizeTerms
      [U ''car'', U ''cars'', U ''suv'', U ''sedan'', U ''truck'', U ''pickup'', U ''van'',
       U ''motorcycle'', U ''bike'', [1587, 1610, 1575, 1585, 1607],
       [1587, 1610, 1575, 1585, 1575, 1578], [1588, 1575, 1581, 1606, 1607],
       [1583, 1585, 1575, 1580, 1607]] \<rparr>]"

definition AFFORDABLE_QUERY_TERMS :: "ustr list" where
  "AFFORDABLE_QUERY_TERMS = normalizeTerms
      [U ''cheap'', U ''budget'', U ''affordable'', U ''low price'', U ''best price'',
       U ''deal'', U ''deals'', U ''economy'', [1585, 1582, 1610, 1589],
       [1585, 1582, 1610, 1589, 1607], [1587, 1593, 1585, 32, 1605, 1606, 1582, 1601, 1590],
       [1587, 1593, 1585, 32, 1605, 1606, 1575, 1587, 1576]]"

definition PREMIUM_QUERY_TERMS :: "ustr list" where
  "PREMIUM_QUERY_TERMS = normalizeTerms
      [U ''better'', U ''best'', U ''premium'', U ''luxury'', U ''top'', U ''high end'',
       U ''newest'', [1575, 1601, 1590, 1604], [1575, 1604, 1571, 1601, 1590, 1604],
       [1575, 1581, 1587, 1606], [1605, 1605, 1578, 1575, 1586], [1601, 1582, 1605]]"

definition englishWordVariants :: "ustr \<Rightarrow> ustr list" where
  "englishWordVariants token = uniq
     ([token]
      @ (if length token > 3 \<and> ends_with token (U ''ies'') then [js_slice_end token 3 @ U ''y''] else [])
      @ (if length token > 3 \<and> ends_with token (U ''es'') then [js_slice_end token 2] else [])
      @ (if length token > 2 \<and> ends_with token (U ''s'') then [js_slice_end token 1] else []))"

definition queryContainsTerm :: "ustr \<Rightarrow> ustr list \<Rightarrow> ustr \<Rightarrow> bool" where
  "queryContainsTerm normalized_q token_set term =
     (let normalizedTerm = normalizeSearchText term in
      if normalizedTerm = [] then False
      else
        (let termTokens = tokenize normalizedTerm in
         if length termTokens \<le> 1 then normalizedTerm \<in> set token_set
         else js_includes normalized_q normalizedTerm))"

definition queryHasAnyTerm :: "ustr \<Rightarrow> ustr list \<Rightarrow> ustr list \<Rightarrow> bool" where
  "queryHasAnyTerm normalized_q token_set terms =
     list_ex (queryContainsTerm normalized_q token_set) terms"

definition buildQueryContext :: "ustr \<Rightarrow> query_context option" where
  "buildQueryContext query =
     (let nq = normalizeSearchText query in
      if nq = [] then None
      else
        (let toks = tokenize nq;
             intents = filter (\<lambda>intent. queryHasAnyTerm nq toks (queryTerms intent)) SEARCH_INTENTS
         in Some \<lparr> normalizedQuery = nq,
                   queryTokens = toks,
                   expandedTokens =
                     uniq (concat (map englishWordVariants toks) @ concat (map queryTerms intents)),
                   activeIntents = intents,
                   wantsAffordable = queryHasAnyTerm nq toks AFFORDABLE_QUERY_TERMS,
                   wantsPremium = queryHasAnyTerm nq toks PREMIUM_QUERY_TERMS \<rparr>))"

lemma englishWordVariants_self: "token \<in> set (englishWordVariants token)"
  by (simp add: englishWordVariants_def)

lemma buildQueryContext_the:
  "normalizeSearchText q \<noteq> [] \<Longrightarrow> buildQueryContext q = Some (the (buildQueryContext q))"
  by (simp add: buildQueryContext_def Let_def)

lemma buildQueryContext_Some:
  assumes "buildQueryContext q = Some ctx"
  shows "normalizedQuery ctx = normalizeSearchText q \<and> normalizedQuery ctx \<noteq> []
    \<and> queryTokens ctx = tokenize (normalizeSearchText q)
    \<and> set (queryTokens ctx) \<subseteq> set (expandedTokens ctx)"
  using assms englishWordVariants_self
  by (fastforce simp: buildQueryContext_def Let_def split: if_splits)

section \<open>Scoring\<close>

definition toTimestamp :: "jsenv \<Rightarrow> ustr option \<Rightarrow> int" where
  "toTimestamp env dateValue =
     (if opt_str dateValue = [] then 0
      else (case parse_date env (opt_str dateValue) of Some t \<Rightarrow> t | None \<Rightarrow> 0))"

definition recencyBoost :: "jsenv \<Rightarrow> ustr option \<Rightarrow> rat" where
  "recencyBoost env created =
     (let ts = toTimestamp env created in
      if ts = 0 then 0
      else
        (let ageDays = (of_int (now_ms env - ts) :: rat) / (1000 * 60 * 60 * 24) in
         if ageDays \<le> 7 then 12 else if ageDays \<le> 30 then 8 else if ageDays \<le> 90 then 4 else 0))"

definition views_or_0 :: "rat option \<Rightarrow> rat" where
  "views_or_0 v = (case v of None \<Rightarrow> 0 | Some n \<Rightarrow> n)"

definition viewsBoost :: "jsenv \<Rightarrow> rat option \<Rightarrow> rat" where
  "viewsBoost env views =
     (let safeViews = max 0 (views_or_0 views) in
      if safeViews = 0 then 0 else min 8 (js_log10 env (safeViews + 1) * 3))"

definition includesAnyIntentTerm :: "ustr \<Rightarrow> ustr list \<Rightarrow> ustr list \<Rightarrow> bool" where
  "includesAnyIntentTerm txt token_set terms =
     list_ex (\<lambda>term.
       if term = [] then False
       else if length (tokenize term) \<le> 1 then term \<in> set token_set
       else js_includes txt term) terms"

definition image_count :: "post \<Rightarrow> nat" where
  \<comment> \<open>\<open>post.images?.filter(Boolean).length || (post.image ? 1 : 0)\<close>\<close>
  "image_count p =
     (let n = (case post_images p of None \<Rightarrow> 0 | Some is \<Rightarrow> length (filter (\<lambda>i. i \<noteq> []) is)) in
      if n \<noteq> 0 then n else if post_image p \<noteq> [] then 1 else 0)"

definition listingQualityBoost :: "post \<Rightarrow> rat" where
  "listingQualityBoost p =
     (let descriptionLength = length (normalizeSearchText (opt_str (post_description p)));
          imageCount = image_count p
      in (if imageCount \<ge> 4 then 10 else if imageCount \<ge> 2 then 6 else if imageCount = 1 then 3 else - 4)
         + (if descriptionLength \<ge> 80 then 8 else if descriptionLength \<ge> 30 then 5
            else if descriptionLength > 0 then 2 else - 2)
         + (if opt_str (post_phone p) \<noteq> [] \<and> length (trim (opt_str (post_phone p))) > 0 then 2 else 0))"

definition hasBoundaryAwarePrefixMatch :: "query_context \<Rightarrow> ustr \<Rightarrow> ustr list \<Rightarrow> bool" where
  "hasBoundaryAwarePrefixMatch ctx normalizedFieldValue fieldTokenSet =
     (if \<not> starts_with normalizedFieldValue (normalizedQuery ctx) then False
      else if length (queryTokens ctx) \<noteq> 1 then True
      else
        (let firstToken = (case tokenize normalizedFieldValue of [] \<Rightarrow> [] | t # _ \<Rightarrow> t) in
         normalizedQuery ctx \<in> set fieldTokenSet \<and> firstToken = normalizedQuery ctx))"

definition pts :: "bool \<Rightarrow> rat \<Rightarrow> rat" where
  \<comment> \<open>\<open>if (condition) score += points\<close>\<close>
  "pts b n = (if b then n else 0)"

definition phraseScore :: "query_context \<Rightarrow> post \<Rightarrow> rat" where
  "phraseScore ctx p =
     (let q = normalizedQuery ctx;
          name = normalizeSearchText (post_name p);
          category = normalizeSearchText (post_category p)
      in (if name = q then 280
          else if hasBoundaryAwarePrefixMatch ctx name (tokenize name) then 210
          else pts (js_includes name q) 160)
         + (if category = q then 260
            else if hasBoundaryAwarePrefixMatch ctx category (tokenize category) then 200
            else pts (js_includes category q) 150)
         + pts (js_includes (normalizeSearchText (opt_str (post_description p))) q) 80
         + pts (js_includes (normalizeSearchText (post_location p)) q) 40
         + pts (js_includes (normalizeSearchText (post_seller p)) q) 30)"

definition tokenScore :: "query_context \<Rightarrow> post \<Rightarrow> rat" where
  "tokenScore ctx p =
     sum_list (map (\<lambda>token.
         pts (js_includes (normalizeSearchText (post_category p)) token) 60
         + pts (js_includes (normalizeSearchText (post_name p)) token) 50
         + pts (js_includes (normalizeSearchText (opt_str (post_description p))) token) 24
         + pts (js_includes (normalizeSearchText (post_location p)) token) 16
         + pts (js_includes (normalizeSearchText (post_seller p)) token) 10)
       (filter (\<lambda>token. token \<noteq> []) (queryTokens ctx)))"

definition expandedScore :: "query_context \<Rightarrow> post \<Rightarrow> rat" where
  "expandedScore ctx p =
     sum_list (map (\<lambda>token.
         pts (js_includes (normalizeSearchText (post_category p)) token) 34
         + pts (js_includes (normalizeSearchText (post_name p)) token) 24
         + pts (js_includes (normalizeSearchText (opt_str (post_description p))) token) 12)
       (filter (\<lambda>token. token \<notin> set (queryTokens ctx)) (expandedTokens ctx)))"

definition intentScore :: "query_context \<Rightarrow> post \<Rightarrow> rat" where
  "intentScore ctx p =
     sum_list (map (\<lambda>intent.
         (let category = normalizeSearchText (post_category p);
              name = normalizeSearchText (post_name p);
              description = normalizeSearchText (opt_str (post_description p));
              hasCategory = includesAnyIntentTerm category (tokenize category) (categoryTerms intent);
              hasListing = includesAnyIntentTerm name (tokenize name) (listingTerms intent)
                \<or> includesAnyIntentTerm description (tokenize description) (listingTerms intent)
          in if hasCategory \<and> hasListing then 240 else if hasCategory then 190
             else if hasListing then 130 else 0))
       (activeIntents ctx))"

definition priceScore :: "query_context \<Rightarrow> post \<Rightarrow> rat" where
  "priceScore ctx p =
     (let numericPrice = post_price p in
      if numericPrice > 0 then
        (if wantsAffordable ctx
         then (if numericPrice \<le> 1000 then 22 else if numericPrice \<le> 5000 then 12
               else if numericPrice \<le> 10000 then 4 else - 8)
         else 0)
        + (if wantsPremium ctx
           then (if numericPrice \<ge> 20000 then 16 else if numericPrice \<ge> 10000 then 10
                 else if numericPrice \<ge> 5000 then 5 else 0)
           else 0)
      else 0)"

definition matchScore :: "query_context \<Rightarrow> post \<Rightarrow> rat" where
  \<comment> \<open>the score when \<open>if (score <= 0) return 0\<close> is reached\<close>
  "matchScore ctx p =
     phraseScore ctx p + tokenScore ctx p + expandedScore ctx p + intentScore ctx p + priceScore ctx p"

definition boostScore :: "jsenv \<Rightarrow> query_context \<Rightarrow> post \<Rightarrow> rat" where
  "boostScore env ctx p =
     recencyBoost env (post_createdAt p) + viewsBoost env (post_views p) + listingQualityBoost p
     + (if wantsPremium ctx
        then min 10 (js_log10 env (max 0 (views_or_0 (post_views p)) + 1) * 4) else 0)"

definition scorePost :: "jsenv \<Rightarrow> query_context \<Rightarrow> post \<Rightarrow> rat" where
  "scorePost env ctx p = (if matchScore ctx p \<le> 0 then 0 else matchScore ctx p + boostScore env ctx p)"

section \<open>Ranking\<close>

definition isActivePost :: "post \<Rightarrow> bool" where
  "isActivePost p \<longleftrightarrow> post_state p \<noteq> Some SOLD \<and> post_state p \<noteq> Some DELETED"

record rank_entry =
  entry_post :: post
  entry_index :: nat
  entry_score :: rat
  entry_createdAtTs :: int
  entry_views :: rat

definition rank_entry_of :: "jsenv \<Rightarrow> query_context \<Rightarrow> nat \<Rightarrow> post \<Rightarrow> rank_entry" where
  "rank_entry_of env ctx i p =
     \<lparr> entry_post = p, entry_index = i, entry_score = scorePost env ctx p,
       entry_createdAtTs = toTimestamp env (post_createdAt p),
       entry_views = views_or_0 (post_views p) \<rparr>"

definition compareEntries :: "rank_entry \<Rightarrow> rank_entry \<Rightarrow> rat" where
  "compareEntries a b =
     (if entry_score b \<noteq> entry_score a then entry_score b - entry_score a
      else
        (let createdDiff = entry_createdAtTs b - entry_createdAtTs a in
         if createdDiff \<noteq> 0 then of_int createdDiff
         else
           (let viewsDiff = entry_views b - entry_views a in
            if viewsDiff \<noteq> 0 then viewsDiff
            else of_nat (entry_index a) - of_nat (entry_index b))))"

definition rankPostsBySearch :: "jsenv \<Rightarrow> post list \<Rightarrow> ustr \<Rightarrow> post list" where
  "rankPostsBySearch env posts query =
     (let activePosts = filter isActivePost posts in
      case buildQueryContext query of
        None \<Rightarrow> activePosts
      | Some ctx \<Rightarrow>
          map entry_post
            (js_sort compareEntries
               (filter (\<lambda>e. entry_score e > 0)
                  (map (\<lambda>(i, p). rank_entry_of env ctx i p) (enumerate 0 activePosts)))))"

section \<open>The comparator is a total preorder\<close>

definition comparePosts :: "jsenv \<Rightarrow> query_context \<Rightarrow> post \<Rightarrow> post \<Rightarrow> rat" where
  \<comment> \<open>the specification order: score, then creation time, then views, all descending\<close>
  "comparePosts env ctx a b =
     compareEntries (rank_entry_of env ctx 0 a) (rank_entry_of env ctx 0 b)"

lemma compareEntries_le:
  "compareEntries a b \<le> 0 \<longleftrightarrow>
     entry_score b < entry_score a
     \<or> (entry_score b = entry_score a
        \<and> (entry_createdAtTs b < entry_createdAtTs a
            \<or> (entry_createdAtTs b = entry_createdAtTs a
               \<and> (entry_views b < entry_views a
                   \<or> (entry_views b = entry_views a \<and> entry_index a \<le> entry_index b)))))"
  by (auto simp: compareEntries_def Let_def)

interpretation rank_entries: comparator compareEntries "\<lambda>_. True"
  by unfold_locales (auto simp: compareEntries_le)

lemma comparePosts_le:
  "comparePosts env ctx a b \<le> 0 \<longleftrightarrow>
     scorePost env ctx b < scorePost env ctx a
     \<or> (scorePost env ctx b = scorePost env ctx a
        \<and> (toTimestamp env (post_createdAt b) < toTimestamp env (post_createdAt a)
            \<or> (toTimestamp env (post_createdAt b) = toTimestamp env (post_createdAt a)
               \<and> views_or_0 (post_views b) \<le> views_or_0 (post_views a))))"
  unfolding comparePosts_def compareEntries_le by (auto simp: rank_entry_of_def)

interpretation rank_posts: comparator "comparePosts env ctx" "\<lambda>_. True"
  for env ctx
  by unfold_locales (auto simp: comparePosts_le)

lemma rank_entry_of_simps [simp]:
  "entry_post (rank_entry_of env ctx i p) = p" "entry_index (rank_entry_of env ctx i p) = i"
  "entry_score (rank_entry_of env ctx i p) = scorePost env ctx p"
  "entry_createdAtTs (rank_entry_of env ctx i p) = toTimestamp env (post_createdAt p)"
  "entry_views (rank_entry_of env ctx i p) = views_or_0 (post_views p)"
  by (simp_all add: rank_entry_of_def)

lemma compare_indexed:
  "i < j \<Longrightarrow> compareEntries (rank_entry_of env ctx i a) (rank_entry_of env ctx j b) \<le> 0
     \<longleftrightarrow> comparePosts env ctx a b \<le> 0"
  by (auto simp: compareEntries_le comparePosts_le)

lemma sorted_enumerate_compare:
  "sorted_wrt (\<lambda>x y. compareEntries x y \<le> 0 \<longleftrightarrow> comparePosts env ctx (entry_post x) (entry_post y) \<le> 0)
     (map (\<lambda>(i, p). rank_entry_of env ctx i p) (enumerate n posts))"
proof (induction posts arbitrary: n)
  case (Cons p ps)
  have "compareEntries (rank_entry_of env ctx n p) (rank_entry_of env ctx j b) \<le> 0
      \<longleftrightarrow> comparePosts env ctx p b \<le> 0" if "(j, b) \<in> set (enumerate (Suc n) ps)" for j b
  proof -
    from that have "Suc n \<le> j" by (auto simp: in_set_enumerate_eq)
    then show ?thesis by (intro compare_indexed) simp
  qed
  then have "\<forall>y \<in> set (map (\<lambda>(i, p). rank_entry_of env ctx i p) (enumerate (Suc n) ps)).
      compareEntries (rank_entry_of env ctx n p) y \<le> 0
        \<longleftrightarrow> comparePosts env ctx (entry_post (rank_entry_of env ctx n p)) (entry_post y) \<le> 0"
    by (simp only: rank_entry_of_simps set_map) auto
  with Cons [of "Suc n"] show ?case by (simp only: enumerate_simps list.map sorted_wrt.simps prod.case)
qed simp

lemma map_post_of_enumerate:
  "map entry_post (filter (\<lambda>e. entry_score e > 0)
      (map (\<lambda>(i, p). rank_entry_of env ctx i p) (enumerate n posts)))
   = filter (\<lambda>p. scorePost env ctx p > 0) posts"
  by (induction posts arbitrary: n) auto

text \<open>The index bookkeeping adds nothing to a stable sort: ranking is filtering and sorting.\<close>

lemma rankPostsBySearch_spec:
  assumes "buildQueryContext q = Some ctx"
  shows "rankPostsBySearch env posts q =
    js_sort (comparePosts env ctx) (filter (\<lambda>p. isActivePost p \<and> scorePost env ctx p > 0) posts)"
proof -
  let ?es = "filter (\<lambda>e. entry_score e > 0)
    (map (\<lambda>(i, p). rank_entry_of env ctx i p) (enumerate 0 (filter isActivePost posts)))"
  have "js_sort compareEntries ?es
      = js_sort (\<lambda>x y. comparePosts env ctx (entry_post x) (entry_post y)) ?es"
    by (intro js_sort_cong sorted_wrt_filter sorted_enumerate_compare)
  then have "map entry_post (js_sort compareEntries ?es)
      = js_sort (comparePosts env ctx) (map entry_post ?es)"
    by (simp only: map_js_sort)
  also have "map entry_post ?es = filter (\<lambda>p. isActivePost p \<and> scorePost env ctx p > 0) posts"
    by (simp only: map_post_of_enumerate filter_filter)
  finally show ?thesis
    using assms by (simp add: rankPostsBySearch_def Let_def)
qed

lemma rankPostsBySearch_None:
  "buildQueryContext q = None \<Longrightarrow> rankPostsBySearch env posts q = filter isActivePost posts"
  by (simp add: rankPostsBySearch_def)

lemma set_rankPostsBySearch: "set (rankPostsBySearch env posts q) \<subseteq> {p \<in> set posts. isActivePost p}"
  by (cases "buildQueryContext q") (auto simp: rankPostsBySearch_None rankPostsBySearch_spec)

section \<open>Bounds on the score\<close>

lemma pts_nonneg [simp]: "0 \<le> n \<Longrightarrow> 0 \<le> pts b n"
  by (simp add: pts_def)

lemma recencyBoost_bounds: "0 \<le> recencyBoost env c \<and> recencyBoost env c \<le> 12"
  by (simp add: recencyBoost_def Let_def)

lemma listingQualityBoost_bounds: "- 6 \<le> listingQualityBoost p \<and> listingQualityBoost p \<le> 20"
  by (simp add: listingQualityBoost_def Let_def)

definition log10_ok :: "jsenv \<Rightarrow> bool" where
  \<comment> \<open>what the code relies on of \<open>Math.log10\<close>: not negative from 1 on\<close>
  "log10_ok env \<longleftrightarrow> (\<forall>x \<ge> 1. 0 \<le> js_log10 env x)"

lemma viewsBoost_bounds: "log10_ok env \<Longrightarrow> 0 \<le> viewsBoost env v \<and> viewsBoost env v \<le> 8"
  by (auto simp: viewsBoost_def Let_def log10_ok_def max_def)

lemma boostScore_bounds:
  assumes "log10_ok env"
  shows "- 6 \<le> boostScore env ctx p \<and> boostScore env ctx p \<le> 50"
proof -
  have "0 \<le> js_log10 env (max 0 (views_or_0 (post_views p)) + 1)"
    using assms by (simp add: log10_ok_def)
  then show ?thesis
    using recencyBoost_bounds [of env "post_createdAt p"] listingQualityBoost_bounds [of p]
      viewsBoost_bounds [OF assms, of "post_views p"]
    unfolding boostScore_def by (auto simp: min_def)
qed

lemma sum_list_nonneg_rat: "(\<And>x. x \<in> set xs \<Longrightarrow> 0 \<le> f x) \<Longrightarrow> 0 \<le> sum_list (map f xs)" for f :: "'a \<Rightarrow> rat"
  by (induction xs) auto

lemma matchScore_ge_phrase: "phraseScore ctx p - 8 \<le> matchScore ctx p"
proof -
  have "0 \<le> tokenScore ctx p" "0 \<le> expandedScore ctx p" "0 \<le> intentScore ctx p"
    unfolding tokenScore_def expandedScore_def intentScore_def
    by (rule sum_list_nonneg_rat, simp add: Let_def)+
  moreover have "- 8 \<le> priceScore ctx p" by (simp add: priceScore_def Let_def)
  ultimately show ?thesis by (simp add: matchScore_def)
qed

lemma phraseScore_name:
  assumes "normalizeSearchText (post_name p) = normalizedQuery ctx"
  shows "280 \<le> phraseScore ctx p"
  using assms unfolding phraseScore_def Let_def by (simp add: pts_def)

section \<open>Properties\<close>

lemma log10_ok_ref_env [simp]: "log10_ok ref_env"
  by (simp add: log10_ok_def ref_env_def)

text \<open>
  Claim C1. For a query with searchable text, \<open>rankPostsBySearch\<close> returns exactly the active posts
  with a positive score, each as often as it occurs in the input, ordered by descending score,
  then newest first, then most viewed first.
\<close>

theorem rank_sorted_permutation:
  assumes "buildQueryContext query = Some ctx"
  shows "mset (rankPostsBySearch env posts query)
           = mset (filter (\<lambda>p. isActivePost p \<and> 0 < scorePost env ctx p) posts)
         \<and> sorted_wrt (\<lambda>a b. scorePost env ctx b < scorePost env ctx a
              \<or> (scorePost env ctx b = scorePost env ctx a
                 \<and> (toTimestamp env (post_createdAt b) < toTimestamp env (post_createdAt a)
                     \<or> (toTimestamp env (post_createdAt b) = toTimestamp env (post_createdAt a)
                        \<and> views_or_0 (post_views b) \<le> views_or_0 (post_views a)))))
             (rankPostsBySearch env posts query)"
proof -
  have "sorted_wrt (\<lambda>a b. comparePosts env ctx a b \<le> 0) (rankPostsBySearch env posts query)"
    unfolding rankPostsBySearch_spec [OF assms] by (rule rank_posts.sorted_js_sort) simp
  then show ?thesis by (simp add: rankPostsBySearch_spec [OF assms] comparePosts_le)
qed

definition sample_post :: "string \<Rightarrow> string \<Rightarrow> post" where
  "sample_post i n = (bare_post (U i))\<lparr> post_name := U n, post_price := 500 \<rparr>"

theorem rank_sorted_permutation_witness:
  "mset (rankPostsBySearch ref_env [sample_post ''1'' ''red bike'', sample_post ''2'' ''bike''] (U '' BIKE ''))
     = mset (filter (\<lambda>p. isActivePost p \<and> 0 < scorePost ref_env (the (buildQueryContext (U '' BIKE ''))) p)
         [sample_post ''1'' ''red bike'', sample_post ''2'' ''bike''])"
proof -
  have "normalizeSearchText (U '' BIKE '') \<noteq> []" by code_simp
  then have "buildQueryContext (U '' BIKE '') = Some (the (buildQueryContext (U '' BIKE '')))"
    by (rule buildQueryContext_the)
  from rank_sorted_permutation [OF this] show ?thesis by blast
qed

text \<open>
  Posts that the ranking criteria do not distinguish (equal score, creation time and
  views) keep their relative order from the input.
\<close>

theorem rank_stable:
  assumes "buildQueryContext query = Some ctx"
  shows "filter (\<lambda>p. scorePost env ctx p = s \<and> toTimestamp env (post_createdAt p) = t
                    \<and> views_or_0 (post_views p) = v) (rankPostsBySearch env posts query)
       = filter (\<lambda>p. (isActivePost p \<and> 0 < scorePost env ctx p) \<and> scorePost env ctx p = s
                    \<and> toTimestamp env (post_createdAt p) = t \<and> views_or_0 (post_views p) = v) posts"
  unfolding rankPostsBySearch_spec [OF assms]
  by (subst rank_posts.js_sort_stable) (auto simp: comparePosts_le)

theorem rank_stable_witness:
  "filter (\<lambda>p. scorePost ref_env (the (buildQueryContext (U ''van''))) p = 5
               \<and> toTimestamp ref_env (post_createdAt p) = 0 \<and> views_or_0 (post_views p) = 0)
     (rankPostsBySearch ref_env [sample_post ''1'' ''van'', sample_post ''2'' ''van''] (U ''van''))
   = filter (\<lambda>p. (isActivePost p \<and> 0 < scorePost ref_env (the (buildQueryContext (U ''van''))) p)
               \<and> scorePost ref_env (the (buildQueryContext (U ''van''))) p = 5
               \<and> toTimestamp ref_env (post_createdAt p) = 0 \<and> views_or_0 (post_views p) = 0)
       [sample_post ''1'' ''van'', sample_post ''2'' ''van'']"
proof -
  have "normalizeSearchText (U ''van'') \<noteq> []" by code_simp
  then have "buildQueryContext (U ''van'') = Some (the (buildQueryContext (U ''van'')))"
    by (rule buildQueryContext_the)
  from rank_stable [OF this] show ?thesis .
qed

text \<open>
  Claim C2. Ranking is a projection: ranking a ranked list again for the same query, at the same
  time, changes nothing, and the query may as well be normalised first.
\<close>

theorem rank_idempotent:
  "rankPostsBySearch env (rankPostsBySearch env posts query) query = rankPostsBySearch env posts query
   \<and> rankPostsBySearch env posts (normalizeSearchText query) = rankPostsBySearch env posts query"
proof
  show "rankPostsBySearch env (rankPostsBySearch env posts query) query = rankPostsBySearch env posts query"
  proof (cases "buildQueryContext query")
    case None
    then show ?thesis by (simp add: rankPostsBySearch_None)
  next
    case (Some ctx)
    let ?ys = "js_sort (comparePosts env ctx) (filter (\<lambda>p. isActivePost p \<and> scorePost env ctx p > 0) posts)"
    have "filter (\<lambda>p. isActivePost p \<and> scorePost env ctx p > 0) ?ys = ?ys"
      by (rule filter_True) simp
    then show ?thesis by (simp add: rankPostsBySearch_spec [OF Some] rank_posts.js_sort_idem)
  qed
  show "rankPostsBySearch env posts (normalizeSearchText query) = rankPostsBySearch env posts query"
    by (simp add: rankPostsBySearch_def buildQueryContext_def)
qed

text \<open>
  An active post whose name is the query, up to case, Arabic spelling and punctuation,
  is always among the results, whatever its price, age, views, images and description.
\<close>

theorem rank_finds_exact_name:
  assumes "log10_ok env" and "p \<in> set posts" and "isActivePost p"
    and "normalizeSearchText (post_name p) = normalizeSearchText query"
  shows "p \<in> set (rankPostsBySearch env posts query)"
proof (cases "buildQueryContext query")
  case None
  with assms show ?thesis by (simp add: rankPostsBySearch_None)
next
  case (Some ctx)
  then have "normalizedQuery ctx = normalizeSearchText query" using buildQueryContext_Some by blast
  with assms(4) have "280 \<le> phraseScore ctx p" by (intro phraseScore_name) simp
  with matchScore_ge_phrase [of ctx p] boostScore_bounds [OF assms(1), of ctx p]
  have "0 < scorePost env ctx p" by (auto simp: scorePost_def)
  with assms(2,3) show ?thesis by (simp add: rankPostsBySearch_spec [OF Some])
qed

theorem rank_finds_exact_name_witness:
  "sample_post ''7'' ''Toyota  Corolla!'' \<in> set (rankPostsBySearch ref_env
     [sample_post ''3'' ''lamp'', sample_post ''7'' ''Toyota  Corolla!''] (U ''toyota corolla''))"
  by (rule rank_finds_exact_name) (simp, simp, code_simp, code_simp)

end
