(* ===== verification/Marketplace.thy ===== *)
theory Marketplace
  imports SearchRanking
begin

text \<open>
  Marketplace search over listings: client-side filtering and sorting
  (\<open>features/marketplace/search/marketplacePostFiltering.ts\<close>), the request pipeline with its local
  fallback (\<open>searchPipeline.ts\<close>, \<open>marketplaceSearch.ts\<close>) and what the search hook shows for a
  given query state (\<open>useMarketplaceSearchResults.ts\<close>).

  The comparator returns a double: where a date does not parse the difference is \<open>NaN\<close>, which
  \<open>Array.prototype.sort\<close> reads as zero.
\<close>

section \<open>Filtering and sorting\<close>

datatype sort_by = ByDate | ByPrice | ByViews

datatype sort_order = Asc | Desc

record search_filters =
  flt_category :: "ustr option"
  flt_city :: "ustr option"
  flt_minPrice :: "jnum option"
  flt_maxPrice :: "jnum option"
  flt_sortBy :: "sort_by option"
  flt_sortOrder :: "sort_order option"

fun num_le :: "jnum \<Rightarrow> jnum \<Rightarrow> bool" where
  "num_le NaN _ = False"
| "num_le _ NaN = False"
| "num_le NInf _ = True"
| "num_le _ PInf = True"
| "num_le PInf _ = False"
| "num_le (Fin _) NInf = False"
| "num_le (Fin a) (Fin b) = (a \<le> b)"

definition rankMarketplacePosts :: "jsenv \<Rightarrow> post list \<Rightarrow> ustr \<Rightarrow> post list" where
  "rankMarketplacePosts env posts query = rankPostsBySearch env (filter isActivePost posts) query"

definition post_date :: "jsenv \<Rightarrow> post \<Rightarrow> int option" where
  \<comment> \<open>\<open>p.createdAt ? new Date(p.createdAt).getTime() : 0\<close>, \<open>None\<close> for \<open>NaN\<close>\<close>
  "post_date env p =
     (if opt_str (post_createdAt p) = [] then Some 0 else parse_date env (opt_str (post_createdAt p)))"

definition compareMarketplace :: "jsenv \<Rightarrow> search_filters \<Rightarrow> post \<Rightarrow> post \<Rightarrow> rat" where
  "compareMarketplace env filters a b =
     (let order = (if flt_sortOrder filters = Some Asc then 1 else - 1) in
      if flt_sortBy filters = Some ByPrice then (post_price a - post_price b) * order
      else if flt_sortBy filters = Some ByViews
      then (views_or_0 (post_views a) - views_or_0 (post_views b)) * order
      else (case (post_date env a, post_date env b) of
              (Some dateA, Some dateB) \<Rightarrow> of_int (dateA - dateB) * order
            | _ \<Rightarrow> 0))"

definition filterAndSortMarketplacePosts ::
    "jsenv \<Rightarrow> post list \<Rightarrow> search_filters \<Rightarrow> ustr \<Rightarrow> (ustr \<Rightarrow> bool) option \<Rightarrow> bool \<Rightarrow> post list" where
  "filterAndSortMarketplacePosts env posts filters query matchesCategory applySelectedCategory =
     (let results = (case matchesCategory of None \<Rightarrow> posts | Some m \<Rightarrow> filter (\<lambda>p. m (post_category p)) posts);
          results = (if applySelectedCategory \<and> opt_str (flt_category filters) \<noteq> []
            then (let categoryFilter = lower (opt_str (flt_category filters)) in
                  filter (\<lambda>p. lower (post_category p) = categoryFilter) results)
            else results);
          results = (if opt_str (flt_city filters) \<noteq> []
            then (let cityFilter = lower (opt_str (flt_city filters)) in
                  filter (\<lambda>p. js_includes (lower (post_location p)) cityFilter
                    \<or> (case post_locationAr p of None \<Rightarrow> False
                       | Some l \<Rightarrow> js_includes (lower l) cityFilter)) results)
            else results);
          results = (case flt_minPrice filters of None \<Rightarrow> results
            | Some minimumPrice \<Rightarrow> filter (\<lambda>p. num_le minimumPrice (Fin (post_price p))) results);
          results = (case flt_maxPrice filters of None \<Rightarrow> results
            | Some maximumPrice \<Rightarrow> filter (\<lambda>p. num_le (Fin (post_price p)) maximumPrice) results);
          normalizedQuery = trim query;
          results = (if normalizedQuery \<noteq> [] then rankMarketplacePosts env results normalizedQuery else results)
      in js_sort (compareMarketplace env filters) results)"

subsection \<open>What a listing has to satisfy\<close>

definition found_by_query :: "jsenv \<Rightarrow> ustr \<Rightarrow> post \<Rightarrow> bool" where
  \<comment> \<open>a blank query filters nothing, a query without searchable text only inactive posts\<close>
  "found_by_query env query p \<longleftrightarrow>
     trim query = [] \<or>
     (isActivePost p \<and>
      (case buildQueryContext (trim query) of None \<Rightarrow> True | Some ctx \<Rightarrow> 0 < scorePost env ctx p))"

definition listing_matches ::
    "jsenv \<Rightarrow> search_filters \<Rightarrow> ustr \<Rightarrow> (ustr \<Rightarrow> bool) option \<Rightarrow> bool \<Rightarrow> post \<Rightarrow> bool" where
  "listing_matches env filters query matchesCategory applySelectedCategory p \<longleftrightarrow>
     (\<forall>m. matchesCategory = Some m \<longrightarrow> m (post_category p))
     \<and> (applySelectedCategory \<and> opt_str (flt_category filters) \<noteq> [] \<longrightarrow>
          lower (post_category p) = lower (opt_str (flt_category filters)))
     \<and> (opt_str (flt_city filters) \<noteq> [] \<longrightarrow>
          js_includes (lower (post_location p)) (lower (opt_str (flt_city filters)))
          \<or> js_includes (lower (opt_str (post_locationAr p))) (lower (opt_str (flt_city filters))))
     \<and> (\<forall>l. flt_minPrice filters = Some l \<longrightarrow> num_le l (Fin (post_price p)))
     \<and> (\<forall>h. flt_maxPrice filters = Some h \<longrightarrow> num_le (Fin (post_price p)) h)
     \<and> found_by_query env query p"

lemma mset_rankPostsBySearch:
  "mset (rankPostsBySearch env posts q) =
     mset (filter (\<lambda>p. isActivePost p \<and>
       (case buildQueryContext q of None \<Rightarrow> True | Some ctx \<Rightarrow> 0 < scorePost env ctx p)) posts)"
  by (cases "buildQueryContext q") (simp_all add: rankPostsBySearch_None rankPostsBySearch_spec)

lemma mset_rankMarketplacePosts:
  "trim q \<noteq> [] \<Longrightarrow>
     mset (rankMarketplacePosts env posts (trim q)) = mset (filter (found_by_query env q) posts)"
  unfolding rankMarketplacePosts_def mset_rankPostsBySearch found_by_query_def
  by (simp add: conj_commute conj_left_commute)

lemma js_includes_Nil [simp]: "js_includes [] p \<longleftrightarrow> p = []"
  by (simp add: js_includes_def)

lemma mset_if_filter: "mset (if c then filter P xs else xs) = mset (filter (\<lambda>x. c \<longrightarrow> P x) xs)"
  by simp

definition city_matches :: "search_filters \<Rightarrow> post \<Rightarrow> bool" where
  "city_matches filters p \<longleftrightarrow>
     js_includes (lower (post_location p)) (lower (opt_str (flt_city filters)))
     \<or> (case post_locationAr p of None \<Rightarrow> False
        | Some l \<Rightarrow> js_includes (lower l) (lower (opt_str (flt_city filters))))"

lemma city_matches_iff:
  "opt_str (flt_city filters) \<noteq> [] \<Longrightarrow> city_matches filters p \<longleftrightarrow>
     js_includes (lower (post_location p)) (lower (opt_str (flt_city filters)))
     \<or> js_includes (lower (opt_str (post_locationAr p))) (lower (opt_str (flt_city filters)))"
  by (auto simp: city_matches_def split: option.splits)

lemma opt_filter:
  "(case m of None \<Rightarrow> xs | Some v \<Rightarrow> filter (P v) xs) = filter (\<lambda>x. \<forall>v. m = Some v \<longrightarrow> P v x) xs"
  by (cases m) simp_all

lemma if_filter: "(if c then filter P xs else xs) = filter (\<lambda>x. c \<longrightarrow> P x) xs"
  by simp

lemma filterAndSort_eq:
  "filterAndSortMarketplacePosts env posts filters query mc ac =
     js_sort (compareMarketplace env filters)
       (let rs = filter (\<lambda>p. (\<forall>m. mc = Some m \<longrightarrow> m (post_category p))
             \<and> (ac \<and> opt_str (flt_category filters) \<noteq> [] \<longrightarrow>
                  lower (post_category p) = lower (opt_str (flt_category filters)))
             \<and> (opt_str (flt_city filters) \<noteq> [] \<longrightarrow> city_matches filters p)
             \<and> (\<forall>l. flt_minPrice filters = Some l \<longrightarrow> num_le l (Fin (post_price p)))
             \<and> (\<forall>h. flt_maxPrice filters = Some h \<longrightarrow> num_le (Fin (post_price p)) h)) posts
        in if trim query \<noteq> [] then rankMarketplacePosts env rs (trim query) else rs)"
  unfolding filterAndSortMarketplacePosts_def Let_def city_matches_def [symmetric] opt_filter if_filter
  by (simp add: conj_commute conj_left_commute)

lemma mset_filterAndSort:
  "mset (filterAndSortMarketplacePosts env posts filters query mc ac) =
     mset (filter (listing_matches env filters query mc ac) posts)"
proof (cases "trim query = []")
  case True
  then show ?thesis
    unfolding filterAndSort_eq Let_def mset_js_sort listing_matches_def
    by (simp add: city_matches_iff found_by_query_def cong: conj_cong)
next
  case False
  show ?thesis
    unfolding filterAndSort_eq Let_def mset_js_sort listing_matches_def
    using False
    by (simp add: mset_rankMarketplacePosts city_matches_iff conj_commute conj_left_commute
        conj_assoc cong: conj_cong)
qed

subsection \<open>The order\<close>

definition date_ok :: "jsenv \<Rightarrow> search_filters \<Rightarrow> post \<Rightarrow> bool" where
  "date_ok env filters p \<longleftrightarrow>
     flt_sortBy filters = Some ByPrice \<or> flt_sortBy filters = Some ByViews \<or> post_date env p \<noteq> None"

definition sort_key :: "jsenv \<Rightarrow> search_filters \<Rightarrow> post \<Rightarrow> rat" where
  \<comment> \<open>the number the chosen column sorts by\<close>
  "sort_key env filters p =
     (case flt_sortBy filters of
        Some ByPrice \<Rightarrow> post_price p
      | Some ByViews \<Rightarrow> views_or_0 (post_views p)
      | _ \<Rightarrow> of_int (the (post_date env p)))"

definition in_order :: "search_filters \<Rightarrow> rat \<Rightarrow> rat \<Rightarrow> bool" where
  "in_order filters x y \<longleftrightarrow> (if flt_sortOrder filters = Some Asc then x \<le> y else y \<le> x)"

lemma compareMarketplace_le:
  assumes "date_ok env filters a" and "date_ok env filters b"
  shows "compareMarketplace env filters a b \<le> 0 \<longleftrightarrow>
           in_order filters (sort_key env filters a) (sort_key env filters b)"
  using assms
  by (auto simp: compareMarketplace_def Let_def sort_key_def in_order_def date_ok_def
      split: option.splits sort_by.splits)

interpretation marketplace_order: comparator "compareMarketplace env filters" "date_ok env filters"
  for env filters
  by unfold_locales (auto simp: compareMarketplace_le in_order_def split: if_splits)

section \<open>The request pipeline\<close>

text \<open>
  A request resolves with a response or rejects with a thrown value.
\<close>

record pagination =
  currentPage :: int
  totalPages :: int
  totalPosts :: int
  postsPerPage :: int

record search_response =
  response_success :: bool
  response_posts :: "post list"
  response_pagination :: "pagination option"
  response_error :: "ustr option option"   \<comment> \<open>\<open>error?: { message?: string }\<close>\<close>

record pipeline_result =
  result_posts :: "post list"
  result_error :: "ustr option"
  result_pagination :: "pagination option"

definition resolveErrorMessage :: "thrown \<Rightarrow> ustr \<Rightarrow> ustr" where
  "resolveErrorMessage e fallbackMessage =
     (case e of JsError _ m \<Rightarrow> if m \<noteq> [] then m else fallbackMessage | ThrownValue _ \<Rightarrow> fallbackMessage)"

definition isAbortError :: "thrown \<Rightarrow> bool" where
  "isAbortError e = (case e of JsError n _ \<Rightarrow> n = U ''AbortError'' | ThrownValue _ \<Rightarrow> False)"

definition runSearchPipeline ::
    "thrown + search_response \<Rightarrow> post list \<Rightarrow> ustr \<Rightarrow> (post list \<Rightarrow> post list) option
     \<Rightarrow> thrown + pipeline_result" where
  "runSearchPipeline request fallbackPosts fallbackErrorMessage transformRemotePosts =
     (case request of
        Inr response \<Rightarrow>
          if response_success response
          then Inr \<lparr> result_posts = (case transformRemotePosts of
                         Some f \<Rightarrow> f (response_posts response) | None \<Rightarrow> response_posts response),
                     result_error = None, result_pagination = response_pagination response \<rparr>
          else Inr \<lparr> result_posts = fallbackPosts,
                     result_error = (if length fallbackPosts > 0 then None
                       else Some (or_else (case response_error response of
                              Some (Some m) \<Rightarrow> m | _ \<Rightarrow> []) fallbackErrorMessage)),
                     result_pagination = None \<rparr>
      | Inl e \<Rightarrow>
          if isAbortError e then Inl e
          else Inr \<lparr> result_posts = fallbackPosts,
                     result_error = (if length fallbackPosts > 0 then None
                       else Some (resolveErrorMessage e fallbackErrorMessage)),
                     result_pagination = None \<rparr>)"

datatype search_preset = HomePreset | AllPostsPreset | SearchResultsPreset

definition resolveMarketplaceSearchLimit :: "app_config \<Rightarrow> search_preset \<Rightarrow> rat" where
  "resolveMarketplaceSearchLimit cfg preset =
     (case preset of HomePreset \<Rightarrow> homeLimit cfg | AllPostsPreset \<Rightarrow> allPostsLimit cfg
      | SearchResultsPreset \<Rightarrow> searchResultsLimit cfg)"

definition runMarketplaceSearchPipeline ::
    "thrown + search_response \<Rightarrow> post list \<Rightarrow> ustr \<Rightarrow> (post list \<Rightarrow> post list) option
     \<Rightarrow> thrown + pipeline_result" where
  "runMarketplaceSearchPipeline request fallbackPosts fallbackErrorMessage transformRemotePosts =
     runSearchPipeline request (filter isActivePost fallbackPosts) fallbackErrorMessage
       (Some (\<lambda>posts. let activePosts = filter isActivePost posts in
                case transformRemotePosts of Some f \<Rightarrow> f activePosts | None \<Rightarrow> activePosts))"

section \<open>What the search hook shows\<close>

text \<open>
  \<open>useMarketplaceSearchResults\<close> as a function of the settled (debounced) query, the source posts,
  the caller's fallback builder and the data and error of the underlying server query.
\<close>

definition js_slice :: "'a list \<Rightarrow> rat \<Rightarrow> rat \<Rightarrow> 'a list" where
  \<comment> \<open>\<open>xs.slice(start, end)\<close>: fractions are truncated, negative positions count from the end\<close>
  "js_slice xs s e =
     (let n = int (length xs);
          pos = (\<lambda>r. let i = trunc_rat r in if i < 0 then max (n + i) 0 else min i n)
      in take (nat (pos e - pos s)) (drop (nat (pos s)) xs))"

record search_view =
  view_posts :: "post list"
  view_error :: "ustr option"
  view_query :: ustr
  view_currentPage :: int
  view_totalPages :: int

definition shouldRequestSearch :: "bool \<Rightarrow> bool \<Rightarrow> ustr \<Rightarrow> bool" where
  "shouldRequestSearch enabled shouldRequestWhenQueryEmpty q \<longleftrightarrow>
     enabled \<and> (shouldRequestWhenQueryEmpty \<or> length q > 0)"

definition or_error :: "ustr option \<Rightarrow> ustr option \<Rightarrow> ustr option" where
  \<comment> \<open>\<open>a || b\<close> where both may be \<open>null\<close>\<close>
  "or_error a b = (if opt_str a \<noteq> [] then a else b)"

definition useMarketplaceSearchResults ::
    "ustr \<Rightarrow> post list \<Rightarrow> (post list \<Rightarrow> ustr \<Rightarrow> post list) \<Rightarrow> bool \<Rightarrow> bool \<Rightarrow> int \<Rightarrow> rat
     \<Rightarrow> pipeline_result option \<Rightarrow> ustr option \<Rightarrow> search_view" where
  "useMarketplaceSearchResults debouncedQuery sourcePosts buildFallbackPosts enabled
       shouldRequestWhenQueryEmpty page limit data error =
     (let settledQuery = trim debouncedQuery;
          activePosts = filter isActivePost sourcePosts;
          fallbackPosts = filter isActivePost (buildFallbackPosts activePosts settledQuery);
          shouldRequest = shouldRequestSearch enabled shouldRequestWhenQueryEmpty settledQuery;
          start = of_int (page - 1) * limit;
          fallbackPagePosts =
            (if \<not> shouldRequest then fallbackPosts else js_slice fallbackPosts start (start + limit));
          dataFailed = (case data of None \<Rightarrow> False | Some d \<Rightarrow> opt_str (result_error d) \<noteq> []);
          remotePagination = (case data of None \<Rightarrow> None | Some d \<Rightarrow> result_pagination d)
      in \<lparr> view_posts =
             (if \<not> shouldRequest then fallbackPosts
              else (case data of
                      None \<Rightarrow> fallbackPagePosts
                    | Some d \<Rightarrow> if dataFailed then fallbackPagePosts else result_posts d)),
           view_error =
             (if \<not> enabled \<or> \<not> shouldRequest then None
              else if length fallbackPosts > 0 then None
              else or_error (case data of None \<Rightarrow> None | Some d \<Rightarrow> result_error d) error),
           view_query = settledQuery,
           view_currentPage =
             (case remotePagination of
                Some pg \<Rightarrow> if \<not> dataFailed then max 1 (currentPage pg) else page
              | None \<Rightarrow> page),
           view_totalPages =
             (case remotePagination of
                Some pg \<Rightarrow> if \<not> dataFailed then max 1 (totalPages pg)
                           else max 1 \<lceil>of_nat (length fallbackPosts) / limit\<rceil>
              | None \<Rightarrow> max 1 \<lceil>of_nat (length fallbackPosts) / limit\<rceil>) \<rparr>)"

lemma set_js_slice: "set (js_slice xs s e) \<subseteq> set xs"
  by (auto simp: js_slice_def Let_def dest!: in_set_takeD in_set_dropD)

lemma pipeline_error_empty:
  "runSearchPipeline request fb msg tr = Inr r \<Longrightarrow> result_error r \<noteq> None \<Longrightarrow> result_posts r = []"
  by (auto simp: runSearchPipeline_def split: sum.splits if_splits)

lemma pipeline_fallback:
  "runSearchPipeline (Inr resp) fb msg tr = Inr r \<Longrightarrow> \<not> response_success resp \<Longrightarrow>
     result_posts r = fb \<and> result_pagination r = None"
  by (auto simp: runSearchPipeline_def)

definition keeps_active :: "(post list \<Rightarrow> post list) option \<Rightarrow> bool" where
  \<comment> \<open>the transformation adds no inactive listing\<close>
  "keeps_active tr \<longleftrightarrow>
     (case tr of None \<Rightarrow> True
      | Some f \<Rightarrow> \<forall>xs. (\<forall>p \<in> set xs. isActivePost p) \<longrightarrow> (\<forall>p \<in> set (f xs). isActivePost p))"

lemma runMarketplace_active:
  assumes r: "runMarketplaceSearchPipeline request fb msg tr = Inr r" and k: "keeps_active tr"
  shows "\<forall>p \<in> set (result_posts r). isActivePost p"
proof -
  have t: "\<forall>p \<in> set (case tr of Some f \<Rightarrow> f (filter isActivePost xs) | None \<Rightarrow> filter isActivePost xs).
      isActivePost p" for xs
    using k by (cases tr) (auto simp: keeps_active_def dest: spec [of _ "filter isActivePost xs"])
  show ?thesis
    using r t by (auto simp: runMarketplaceSearchPipeline_def runSearchPipeline_def Let_def
        split: sum.splits if_splits)
qed

lemma filterAndSort_subset:
  "set (filterAndSortMarketplacePosts env posts filters query mc ac) \<subseteq> set posts"
  by (metis mset_filterAndSort filter_is_subset set_mset_mset)

section \<open>Properties\<close>

text \<open>
  Claim C3. Client-side search returns exactly the listings that match every active criterion
  (category chosen, category page, city in either language, price bounds, query), each as often
  as it occurs; they are ordered by the chosen column in the chosen direction, and listings with
  equal keys keep the order the previous stage gave them.
\<close>

theorem filter_sort_correct:
  assumes "\<forall>p \<in> set posts. date_ok env filters p"
  shows "mset (filterAndSortMarketplacePosts env posts filters query mc ac)
           = mset (filter (listing_matches env filters query mc ac) posts)
         \<and> sorted_wrt (\<lambda>a b. in_order filters (sort_key env filters a) (sort_key env filters b))
             (filterAndSortMarketplacePosts env posts filters query mc ac)"
proof
  show "mset (filterAndSortMarketplacePosts env posts filters query mc ac)
           = mset (filter (listing_matches env filters query mc ac) posts)"
    by (rule mset_filterAndSort)
  then have sub: "set (filterAndSortMarketplacePosts env posts filters query mc ac) \<subseteq> set posts"
    by (metis filter_is_subset set_mset_mset)
  obtain rs where rs: "filterAndSortMarketplacePosts env posts filters query mc ac
      = js_sort (compareMarketplace env filters) rs"
    unfolding filterAndSort_eq by blast
  with sub assms have ok: "\<forall>p \<in> set rs. date_ok env filters p" by (metis set_js_sort subsetD)
  show "sorted_wrt (\<lambda>a b. in_order filters (sort_key env filters a) (sort_key env filters b))
             (filterAndSortMarketplacePosts env posts filters query mc ac)"
    unfolding rs
    by (rule sorted_wrt_mono_on [OF _ marketplace_order.sorted_js_sort [OF ok]])
       (use ok in \<open>simp add: compareMarketplace_le\<close>)
qed

definition price_filters :: search_filters where
  "price_filters = \<lparr> flt_category = None, flt_city = Some (U ''amman''), flt_minPrice = Some (Fin 100),
     flt_maxPrice = None, flt_sortBy = Some ByPrice, flt_sortOrder = Some Asc \<rparr>"

theorem filter_sort_correct_witness:
  "mset (filterAndSortMarketplacePosts ref_env [sample_post ''1'' ''van'', sample_post ''2'' ''lamp'']
       price_filters [] None True)
     = mset (filter (listing_matches ref_env price_filters [] None True)
         [sample_post ''1'' ''van'', sample_post ''2'' ''lamp''])"
proof -
  have "\<forall>p \<in> set [sample_post ''1'' ''van'', sample_post ''2'' ''lamp'']. date_ok ref_env price_filters p"
    by (simp add: date_ok_def price_filters_def)
  from filter_sort_correct [OF this] show ?thesis by blast
qed

text \<open>
  Claim C4. The search pipeline answers every request: it rejects only when the request was
  aborted, never returns an inactive listing, reports an error only together with an empty list,
  and whenever the server did not answer, shows the active part of the local fallback.
\<close>

theorem pipeline_outcome:
  assumes "keeps_active tr"
  shows "case runMarketplaceSearchPipeline request fb msg tr of
           Inl e \<Rightarrow> request = Inl e \<and> isAbortError e
         | Inr r \<Rightarrow> (\<forall>p \<in> set (result_posts r). isActivePost p)
             \<and> (result_error r \<noteq> None \<longrightarrow> result_posts r = [])
             \<and> ((\<nexists>resp. request = Inr resp \<and> response_success resp) \<longrightarrow>
                  result_posts r = filter isActivePost fb \<and> result_pagination r = None)"
proof (cases request)
  case (Inl e)
  then show ?thesis
    by (cases "isAbortError e") (simp_all add: runMarketplaceSearchPipeline_def runSearchPipeline_def)
next
  case (Inr resp)
  then obtain r where r: "runMarketplaceSearchPipeline request fb msg tr = Inr r"
    by (cases "response_success resp")
       (simp_all add: runMarketplaceSearchPipeline_def runSearchPipeline_def)
  note p = r [unfolded runMarketplaceSearchPipeline_def]
  have "result_error r \<noteq> None \<longrightarrow> result_posts r = []"
    using pipeline_error_empty [OF p] by blast
  moreover have "\<not> response_success resp \<longrightarrow> result_posts r = filter isActivePost fb \<and> result_pagination r = None"
    using pipeline_fallback [OF p [unfolded Inr]] by blast
  moreover note runMarketplace_active [OF r assms]
  moreover have "(\<nexists>x. request = Inr x \<and> response_success x) \<longleftrightarrow> \<not> response_success resp"
    by (simp add: Inr)
  ultimately show ?thesis unfolding r sum.case by blast
qed

theorem pipeline_outcome_witness:
  "let tr = Some (\<lambda>ps. filterAndSortMarketplacePosts ref_env ps price_filters [] None True) in
   case runMarketplaceSearchPipeline (Inl (ThrownValue Undef)) [sample_post ''1'' ''van''] (U ''failed'') tr of
     Inl e \<Rightarrow> (Inl (ThrownValue Undef) :: thrown + search_response) = Inl e \<and> isAbortError e
   | Inr r \<Rightarrow> (\<forall>p \<in> set (result_posts r). isActivePost p)
       \<and> (result_error r \<noteq> None \<longrightarrow> result_posts r = [])
       \<and> ((\<nexists>resp. (Inl (ThrownValue Undef) :: thrown + search_response) = Inr resp \<and> response_success resp) \<longrightarrow>
            result_posts r = filter isActivePost [sample_post ''1'' ''van''] \<and> result_pagination r = None)"
  unfolding Let_def
  by (rule pipeline_outcome)
     (simp add: keeps_active_def, use filterAndSort_subset in blast)

text \<open>
  What the search page shows is consistent: no inactive listing, an error only when
  nothing could be shown from the local posts, and page numbers from 1 up to at least 1 page.
\<close>

theorem search_view_consistent:
  assumes "1 \<le> page"
    and "\<forall>d. data = Some d \<longrightarrow> (\<forall>p \<in> set (result_posts d). isActivePost p)"
  shows "let v = useMarketplaceSearchResults q src build enabled whenEmpty page limit data err in
           (\<forall>p \<in> set (view_posts v). isActivePost p)
           \<and> (view_error v \<noteq> None \<longrightarrow> enabled \<and> filter isActivePost (build (filter isActivePost src) (trim q)) = [])
           \<and> 1 \<le> view_currentPage v \<and> 1 \<le> view_totalPages v"
proof -
  let ?fb = "filter isActivePost (build (filter isActivePost src) (trim q))"
  let ?v = "useMarketplaceSearchResults q src build enabled whenEmpty page limit data err"
  let ?start = "of_int (page - 1) * limit"
  let ?pg = "js_slice ?fb ?start (?start + limit)"
  have sl: "\<forall>p \<in> set ?pg. isActivePost p" using set_js_slice [of ?fb ?start "?start + limit"] by auto
  have eq: "view_posts ?v = (if \<not> shouldRequestSearch enabled whenEmpty (trim q) then ?fb
      else case data of None \<Rightarrow> ?pg
        | Some d \<Rightarrow> if opt_str (result_error d) \<noteq> [] then ?pg else result_posts d)"
    by (cases data) (simp_all add: useMarketplaceSearchResults_def Let_def)
  have "\<forall>p \<in> set (result_posts d). isActivePost p" if "data = Some d" for d
    using assms(2) that by blast
  moreover have "\<forall>p \<in> set ?fb. isActivePost p" by simp
  ultimately have "\<forall>p \<in> set (view_posts ?v). isActivePost p"
    unfolding eq using sl
    by (intro if_branches [where P = "\<lambda>xs. \<forall>p \<in> set xs. isActivePost p"]
          option_branches [where P = "\<lambda>xs. \<forall>p \<in> set xs. isActivePost p"])
  moreover have "view_error ?v \<noteq> None \<longrightarrow> enabled \<and> ?fb = []"
    by (simp add: useMarketplaceSearchResults_def Let_def)
  moreover have "1 \<le> view_currentPage ?v \<and> 1 \<le> view_totalPages ?v"
    using assms(1) by (simp add: useMarketplaceSearchResults_def Let_def split: option.split)
  ultimately show ?thesis unfolding Let_def by blast
qed

theorem search_view_consistent_witness:
  "let v = useMarketplaceSearchResults (U '' van '') [sample_post ''1'' ''van''] (\<lambda>ps _. ps) True False 2 1
             None (Some (U ''offline'')) in
     (\<forall>p \<in> set (view_posts v). isActivePost p)
     \<and> (view_error v \<noteq> None \<longrightarrow> True \<and>
          filter isActivePost (filter isActivePost [sample_post ''1'' ''van'']) = [])
     \<and> 1 \<le> view_currentPage v \<and> 1 \<le> view_totalPages v"
proof -
  have h: "(1::int) \<le> 2" "\<forall>d. (None :: pipeline_result option) = Some d \<longrightarrow>
      (\<forall>p \<in> set (result_posts d). isActivePost p)" by simp_all
  from search_view_consistent [OF h, of "U '' van ''" "[sample_post ''1'' ''van'']" "\<lambda>ps _. ps" True False 1
      "Some (U ''offline'')"]
  show ?thesis .
qed

end
