(* ===== verification/Paging.thy ===== *)
theory Paging
  imports Complex_Main Prelude
begin

text \<open>
  The pager behind the listing pages (\<open>shared/hooks/useInfiniteScroll.ts\<close>, used through
  \<open>usePaginatedResults.ts\<close>) as a state machine.  A page change is requested by a click, which
  schedules an animation frame; the frame shows the page.  Every handler runs on the state of the
  last render, and React renders between two events, so an event acts on the current state.
  \<open>per\<close> is the (positive) number of items per page; \<open>notified\<close> lists the pages reported to
  \<open>onPageChange\<close>, newest first.
\<close>

record 'a paging =
  pg_items :: "'a list"
  displayedItems :: "'a list"
  pg_page :: int
  hasMore :: bool
  isLoading :: bool
  pendingFrame :: "int option"
  notified :: "int list"

definition pages_of :: "int \<Rightarrow> 'a list \<Rightarrow> int" where
  "pages_of per items = \<lceil>(of_nat (length items) :: rat) / of_int per\<rceil>"

definition clampPage :: "int \<Rightarrow> 'a list \<Rightarrow> int \<Rightarrow> int" where
  "clampPage per items pageNumber = min (max pageNumber 1) (max 1 (pages_of per items))"

definition page_slice :: "int \<Rightarrow> 'a list \<Rightarrow> int \<Rightarrow> 'a list" where
  \<comment> \<open>\<open>items.slice((p - 1) * per, p * per)\<close> for \<open>p \<ge> 1\<close>\<close>
  "page_slice per items p = take (nat per) (drop (nat ((p - 1) * per)) items)"

definition show_page :: "int \<Rightarrow> 'a list \<Rightarrow> int \<Rightarrow> 'a paging \<Rightarrow> 'a paging" where
  "show_page per items p s =
     s\<lparr> displayedItems := page_slice per items p, pg_page := p,
        hasMore := p * per < int (length items), isLoading := False \<rparr>"

definition pg_mount :: "'a paging" where
  "pg_mount = \<lparr> pg_items = [], displayedItems = [], pg_page = 1, hasMore = True, isLoading = False,
     pendingFrame = None, notified = [] \<rparr>"

definition reset_items :: "int \<Rightarrow> 'a list \<Rightarrow> int \<Rightarrow> 'a paging \<Rightarrow> 'a paging" where
  \<comment> \<open>the effect that runs when the items or the initial page change\<close>
  "reset_items per items initialPage s =
     (let nextPage = clampPage per items initialPage in
      (show_page per items nextPage s)
        \<lparr> pg_items := items, pendingFrame := None,
          notified := (if length items > 0 then nextPage # notified s else notified s) \<rparr>)"

definition loadPage :: "int \<Rightarrow> int \<Rightarrow> 'a paging \<Rightarrow> 'a paging" where
  "loadPage per pageNumber s =
     (if isLoading s then s
      else s\<lparr> isLoading := True, pendingFrame := Some (clampPage per (pg_items s) pageNumber) \<rparr>)"

definition run_frame :: "int \<Rightarrow> 'a paging \<Rightarrow> 'a paging" where
  \<comment> \<open>the callback given to \<open>requestAnimationFrame\<close>\<close>
  "run_frame per s =
     (case pendingFrame s of
        None \<Rightarrow> s
      | Some p \<Rightarrow> (show_page per (pg_items s) p s)\<lparr> notified := p # notified s, pendingFrame := None \<rparr>)"

definition loadMore :: "int \<Rightarrow> 'a paging \<Rightarrow> 'a paging" where
  "loadMore per s = (if isLoading s \<or> \<not> hasMore s then s else loadPage per (pg_page s + 1) s)"

definition goToPage :: "int \<Rightarrow> int \<Rightarrow> 'a paging \<Rightarrow> 'a paging" where
  "goToPage per pageNumber s =
     (if pageNumber < 1 \<or> pageNumber > pages_of per (pg_items s) then s else loadPage per pageNumber s)"

definition goToNextPage :: "int \<Rightarrow> 'a paging \<Rightarrow> 'a paging" where
  "goToNextPage per s =
     (if pg_page s < pages_of per (pg_items s) then loadPage per (pg_page s + 1) s else s)"

definition goToPreviousPage :: "int \<Rightarrow> 'a paging \<Rightarrow> 'a paging" where
  "goToPreviousPage per s = (if pg_page s > 1 then loadPage per (pg_page s - 1) s else s)"

section \<open>Reachable states\<close>

inductive pg_step :: "int \<Rightarrow> 'a paging \<Rightarrow> 'a paging \<Rightarrow> bool" for per where
  reset: "pg_step per s (reset_items per items initialPage s)"
| frame: "pg_step per s (run_frame per s)"
| more: "pg_step per s (loadMore per s)"
| goto: "pg_step per s (goToPage per n s)"
| next_pg: "pg_step per s (goToNextPage per s)"
| prev_pg: "pg_step per s (goToPreviousPage per s)"

inductive pg_reachable :: "int \<Rightarrow> 'a paging \<Rightarrow> bool" for per where
  mount: "pg_reachable per (reset_items per items initialPage pg_mount)"
| step: "pg_reachable per s \<Longrightarrow> pg_step per s t \<Longrightarrow> pg_reachable per t"

definition in_pages :: "int \<Rightarrow> 'a list \<Rightarrow> int \<Rightarrow> bool" where
  "in_pages per items p \<longleftrightarrow> 1 \<le> p \<and> p \<le> max 1 (pages_of per items)"

definition pg_inv :: "int \<Rightarrow> 'a paging \<Rightarrow> bool" where
  "pg_inv per s \<longleftrightarrow>
     in_pages per (pg_items s) (pg_page s)
     \<and> displayedItems s = page_slice per (pg_items s) (pg_page s)
     \<and> hasMore s = (pg_page s * per < int (length (pg_items s)))
     \<and> isLoading s = (pendingFrame s \<noteq> None)
     \<and> (\<forall>p. pendingFrame s = Some p \<longrightarrow> in_pages per (pg_items s) p)"

lemma clampPage_in_pages [simp]: "in_pages per items (clampPage per items n)"
  by (simp add: in_pages_def clampPage_def)

lemma clampPage_id: "in_pages per items n \<Longrightarrow> clampPage per items n = n"
  by (auto simp: in_pages_def clampPage_def)

lemma pg_inv_show_page:
  "in_pages per (pg_items s) p \<Longrightarrow> pg_inv per ((show_page per (pg_items s) p s)\<lparr> notified := ns, pendingFrame := None \<rparr>)"
  by (simp add: pg_inv_def show_page_def)

lemma pg_inv_reset: "pg_inv per (reset_items per items n s)"
  by (simp add: pg_inv_def reset_items_def show_page_def Let_def)

lemma pg_inv_loadPage: "pg_inv per s \<Longrightarrow> pg_inv per (loadPage per n s)"
  by (simp add: pg_inv_def loadPage_def)

lemma pg_inv_frame: "pg_inv per s \<Longrightarrow> pg_inv per (run_frame per s)"
  by (cases "pendingFrame s")
     (simp_all add: run_frame_def pg_inv_def show_page_def)

lemma pg_inv_step: "pg_step per s t \<Longrightarrow> pg_inv per s \<Longrightarrow> pg_inv per t"
  by (induction rule: pg_step.induct)
     (auto simp: pg_inv_reset pg_inv_frame loadMore_def goToPage_def goToNextPage_def
        goToPreviousPage_def pg_inv_loadPage)

section \<open>The pages cover the items\<close>

lemma pages_of_enough:
  assumes "0 < per"
  shows "int (length items) \<le> pages_of per items * per"
proof -
  let ?q = "of_nat (length items) / of_int per :: rat"
  have "?q \<le> of_int (pages_of per items)" unfolding pages_of_def by (rule le_of_int_ceiling)
  then have "?q * of_int per \<le> of_int (pages_of per items) * of_int per"
    using assms by (intro mult_right_mono) simp_all
  then have "(of_int (int (length items)) :: rat) \<le> of_int (pages_of per items * per)"
    using assms by simp
  then show ?thesis by (simp only: of_int_le_iff)
qed

lemma pages_of_nonneg: "0 < per \<Longrightarrow> 0 \<le> pages_of per items"
proof -
  assume "0 < per"
  then have "(0 :: rat) \<le> of_nat (length items) / of_int per" by simp
  then show ?thesis unfolding pages_of_def by linarith
qed

lemma more_iff_next_page:
  assumes "0 < per"
  shows "p * per < int (length items) \<longleftrightarrow> p < pages_of per items"
proof -
  have "p < pages_of per items \<longleftrightarrow> (of_int p :: rat) < of_nat (length items) / of_int per"
    by (simp add: pages_of_def less_ceiling_iff)
  also have "\<dots> \<longleftrightarrow> (of_int p :: rat) * of_int per < of_nat (length items)"
    using assms by (simp add: pos_less_divide_eq)
  also have "\<dots> \<longleftrightarrow> (of_int (p * per) :: rat) < of_int (int (length items))" by simp
  also have "\<dots> \<longleftrightarrow> p * per < int (length items)" by (simp only: of_int_less_iff)
  finally show ?thesis by (rule sym)
qed

lemma page_slice_Suc:
  assumes "0 < per"
  shows "take (k * nat per) items @ page_slice per items (int k + 1) = take (Suc k * nat per) items"
proof -
  have "nat (int k * per) = k * nat per" using assms by (simp add: nat_mult_distrib)
  then show ?thesis
    by (simp add: page_slice_def take_add [symmetric] add.commute)
qed

lemma concat_pages:
  assumes "0 < per"
  shows "concat (map (\<lambda>k. page_slice per items (int k + 1)) [0..<n]) = take (n * nat per) items"
proof (induction n)
  case (Suc n)
  then show ?case using page_slice_Suc [OF assms, of n items] by simp
qed simp

section \<open>Properties\<close>

text \<open>
  Claim C6. In every reachable state of the pager the current page exists, the items shown are
  that page of the current items, \<open>hasMore\<close> says whether a further page exists, and a scheduled
  page change (present exactly while loading) targets an existing page.
\<close>

theorem pager_invariant:
  assumes "pg_reachable per s" and "0 < per"
  shows "1 \<le> pg_page s \<and> pg_page s \<le> max 1 (pages_of per (pg_items s))
    \<and> displayedItems s = page_slice per (pg_items s) (pg_page s)
    \<and> (hasMore s \<longleftrightarrow> pg_page s < pages_of per (pg_items s))
    \<and> (isLoading s \<longleftrightarrow> pendingFrame s \<noteq> None)
    \<and> (\<forall>p. pendingFrame s = Some p \<longrightarrow> in_pages per (pg_items s) p)"
proof -
  from assms(1) have "pg_inv per s"
    by induction (auto intro: pg_inv_reset pg_inv_step)
  then show ?thesis
    using more_iff_next_page [OF assms(2), of "pg_page s" "pg_items s"]
    by (simp add: pg_inv_def in_pages_def)
qed

definition sample_pager :: "nat paging" where
  "sample_pager = goToNextPage 2 (reset_items 2 [10, 20, 30] 9 pg_mount)"

theorem pager_invariant_witness:
  "1 \<le> pg_page sample_pager \<and> (isLoading sample_pager \<longleftrightarrow> pendingFrame sample_pager \<noteq> None)
    \<and> displayedItems sample_pager = page_slice 2 (pg_items sample_pager) (pg_page sample_pager)"
proof -
  have "pg_reachable 2 sample_pager"
    unfolding sample_pager_def by (rule pg_reachable.step [OF pg_reachable.mount pg_step.next_pg])
  from pager_invariant [OF this] show ?thesis by simp
qed

text \<open>
  The pages partition the items: put together they are the list, nothing lost and
  nothing repeated.  From every reachable idle state each of them is one click and one frame away,
  and the previous-page button undoes the next-page button.
\<close>

theorem pages_partition:
  assumes "0 < per" and "pg_reachable per s" and "\<not> isLoading s"
  shows "concat (map (\<lambda>k. page_slice per (pg_items s) (int k + 1)) [0..<nat (pages_of per (pg_items s))])
           = pg_items s
    \<and> (\<forall>n. 1 \<le> n \<and> n \<le> pages_of per (pg_items s) \<longrightarrow>
          displayedItems (run_frame per (goToPage per n s)) = page_slice per (pg_items s) n)
    \<and> (pg_page s < pages_of per (pg_items s) \<longrightarrow>
          displayedItems (run_frame per (goToPreviousPage per (run_frame per (goToNextPage per s))))
            = displayedItems s)"
proof (intro conjI)
  let ?items = "pg_items s"
  have "int (length ?items) \<le> int (nat (pages_of per ?items) * nat per)"
    using pages_of_enough [OF assms(1), of ?items] pages_of_nonneg [OF assms(1), of ?items] assms(1) by simp
  then have "length ?items \<le> nat (pages_of per ?items) * nat per"
    by (simp only: of_nat_le_iff)
  then show "concat (map (\<lambda>k. page_slice per ?items (int k + 1)) [0..<nat (pages_of per ?items)]) = ?items"
    by (simp add: concat_pages [OF assms(1)])
  show "\<forall>n. 1 \<le> n \<and> n \<le> pages_of per ?items \<longrightarrow>
          displayedItems (run_frame per (goToPage per n s)) = page_slice per ?items n"
    using assms(3) by (auto simp: goToPage_def loadPage_def run_frame_def show_page_def clampPage_def)
  from assms(2) have inv: "pg_inv per s"
    by induction (auto intro: pg_inv_reset pg_inv_step)
  then have "in_pages per ?items (pg_page s)" "displayedItems s = page_slice per ?items (pg_page s)"
    by (simp_all add: pg_inv_def)
  then show "pg_page s < pages_of per ?items \<longrightarrow>
          displayedItems (run_frame per (goToPreviousPage per (run_frame per (goToNextPage per s))))
            = displayedItems s"
    using assms(3)
    by (auto simp: goToNextPage_def goToPreviousPage_def loadPage_def run_frame_def show_page_def
        clampPage_def in_pages_def)
qed

theorem pages_partition_witness:
  "concat (map (\<lambda>k. page_slice 2 [10, 20, 30 :: nat] (int k + 1)) [0..<nat (pages_of 2 [10, 20, 30 :: nat])])
     = [10, 20, 30]"
proof -
  have "\<not> isLoading (reset_items 2 [10, 20, 30 :: nat] 2 pg_mount)"
    by (simp add: reset_items_def show_page_def Let_def)
  from pages_partition [OF _ pg_reachable.mount this] show ?thesis
    by (simp add: reset_items_def show_page_def Let_def)
qed

end
