(* ===== verification/AuthPolicy.thy ===== *)
theory AuthPolicy
  imports KeyStore Entities
begin

text \<open>
  The decisions the authentication context makes: who the user is and what the user may
  administrate (\<open>contexts/authUtils.ts\<close>), when to retry, revalidate and report
  (\<open>contexts/authRuntimePolicy.ts\<close>), how errors are classified and which hints are stored
  (\<open>contexts/authContextUtils.ts\<close>, \<open>shared/constants/authStorageKeys.ts\<close>).

  An error object \<open>{ code?, message? }\<close> is the record \<open>api_error\<close>, an absent text being empty:
  the code never tells the two apart.  A payload field the code declares to be text is converted
  with \<open>String\<close> should it be anything else.
\<close>

record api_error =
  err_code :: ustr
  err_message :: ustr
  err_details :: jval

datatype api_response = ApiOk jval | ApiErr api_error

definition includes_any :: "ustr \<Rightarrow> string list \<Rightarrow> bool" where
  \<comment> \<open>\<open>s.includes(a) || s.includes(b) || ...\<close>\<close>
  "includes_any s ks = list_ex (\<lambda>k. js_includes s (U k)) ks"

section \<open>authUtils.ts: the user behind a payload\<close>

definition asBackendUser :: "jval \<Rightarrow> jval option" where
  "asBackendUser v = (case v of Obj _ \<Rightarrow> Some v | Arr _ \<Rightarrow> Some v | _ \<Rightarrow> None)"

definition resolvePermissions :: "jval \<Rightarrow> ustr list" where
  "resolvePermissions backendUser =
     readStringArray (flds backendUser
       [''AdminPermissions'', ''adminPermissions'', ''Permissions'', ''permissions''])"

definition is_admin_text :: "jval \<Rightarrow> bool" where
  \<comment> \<open>\<open>typeof v === "string" && v.trim().toLowerCase() === "admin"\<close>\<close>
  "is_admin_text v = (case v of Str s \<Rightarrow> lower (trim s) = U ''admin'' | _ \<Rightarrow> False)"

definition is_role_one :: "jval \<Rightarrow> bool" where
  "is_role_one v \<longleftrightarrow> v = Num (Fin 1) \<or> v = Str (U ''1'')"

definition resolveHasAdminAccessFromPayload :: "jval option \<Rightarrow> bool" where
  "resolveHasAdminAccessFromPayload backendUser =
     (case backendUser of
        None \<Rightarrow> False
      | Some b \<Rightarrow>
          (let explicitAdminAccess = toBoolean (flds b [''HasAdminAccess'', ''hasAdminAccess'']) False in
           if explicitAdminAccess then True
           else
             (let permissions = resolvePermissions b in
              if length permissions > 0 then True
              else
                (let roleValue = flds b [''RoleID'', ''roleID'', ''Role'', ''role'', ''RoleName'', ''roleName'']
                 in is_role_one roleValue \<or> is_admin_text roleValue))))"

definition mapRole :: "jval \<Rightarrow> role" where
  "mapRole roleName =
     (if is_admin_text roleName then Admin else if is_role_one roleName then Admin else RegularUser)"

fun role_name :: "role \<Rightarrow> ustr" where
  "role_name Admin = U ''admin''"
| "role_name RegularUser = U ''user''"

record auth_fallback =
  fb_email :: ustr
  fb_firstName :: ustr
  fb_lastName :: ustr
  fb_name :: ustr
  fb_role :: "role option"
  fb_id :: ustr
  fb_avatar :: "ustr option"

definition toUserFromBackend :: "jval \<Rightarrow> user \<Rightarrow> user" where
  "toUserFromBackend backendUser fallback =
     (let firstName = text_or [fld backendUser ''FirstName'', fld backendUser ''firstName'']
            (opt_str (user_firstName fallback));
          lastName = text_or [fld backendUser ''LastName'', fld backendUser ''lastName'']
            (opt_str (user_lastName fallback));
          fullName = text_or [fld backendUser ''Name'', fld backendUser ''name'']
            (or_else (trim (firstName @ [32] @ lastName))
              (or_else (user_name fallback)
                (text_or [fld backendUser ''Email'', fld backendUser ''email''] (user_email fallback))));
          roleName = coalesce [fld backendUser ''RoleName'', fld backendUser ''roleName'',
            Str (role_name (user_role fallback))]
      in \<lparr> user_id = text_or [fld backendUser ''Id'', fld backendUser ''id'', fld backendUser ''UserID'',
             fld backendUser ''userID''] (user_id fallback),
           user_email = text_or [fld backendUser ''Email'', fld backendUser ''email''] (user_email fallback),
           user_firstName = Some firstName,
           user_lastName = Some lastName,
           user_name = fullName,
           user_avatar = (case find_truthy [fld backendUser ''Avatar'', fld backendUser ''avatar''] of
             Some v \<Rightarrow> Some (to_str v) | None \<Rightarrow> user_avatar fallback),
           user_role = mapRole roleName,
           user_roleName = (case roleName of Str s \<Rightarrow> Some s | _ \<Rightarrow> None),
           user_hasAdminAccess = Some (resolveHasAdminAccessFromPayload (Some backendUser)),
           user_permissions = Some (resolvePermissions backendUser) \<rparr>)"

definition toFallbackUser :: "auth_fallback \<Rightarrow> user" where
  "toFallbackUser fallback =
     (let email = fb_email fallback; firstName = fb_firstName fallback; lastName = fb_lastName fallback
      in \<lparr> user_id = fb_id fallback, user_email = email, user_firstName = Some firstName,
           user_lastName = Some lastName,
           user_name = or_else (fb_name fallback) (or_else (trim (firstName @ [32] @ lastName)) email),
           user_avatar = fb_avatar fallback,
           user_role = (if fb_role fallback = Some Admin then Admin else RegularUser),
           user_roleName = None, user_hasAdminAccess = None, user_permissions = None \<rparr>)"

definition resolveUserFromAuthPayload :: "jval \<Rightarrow> auth_fallback \<Rightarrow> user" where
  "resolveUserFromAuthPayload payload fallback =
     (let safeFallback = toFallbackUser fallback in
      case asBackendUser payload of
        None \<Rightarrow> safeFallback
      | Some backendUser \<Rightarrow> toUserFromBackend backendUser safeFallback)"

definition userHasAdminAccess :: "user option \<Rightarrow> bool" where
  "userHasAdminAccess u =
     (case u of
        None \<Rightarrow> False
      | Some u \<Rightarrow> user_role u = Admin \<or> user_hasAdminAccess u = Some True
           \<or> (case user_permissions u of None \<Rightarrow> False | Some ps \<Rightarrow> length ps > 0))"

definition userHasAdminPermission :: "user option \<Rightarrow> ustr \<Rightarrow> bool" where
  "userHasAdminPermission u permissionKey =
     (if trim permissionKey = [] then False
      else if \<not> userHasAdminAccess u then False
      else
        (case u of
           None \<Rightarrow> False
         | Some u \<Rightarrow>
             (case user_permissions u of
                None \<Rightarrow> user_role u = Admin
              | Some ps \<Rightarrow> if length ps = 0 then user_role u = Admin else permissionKey \<in> set ps)))"

section \<open>authUtils.ts: rejections\<close>

definition isAuthRejectionMessage :: "ustr \<Rightarrow> bool" where
  "isAuthRejectionMessage message =
     (let normalized = lower (trim message) in
      if normalized = [] then False
      else normalized = U ''unauthorized'' \<or> normalized = U ''forbidden''
        \<or> js_includes normalized (U ''401'') \<or> js_includes normalized (U ''403''))"

definition trim_or :: "ustr \<Rightarrow> ustr \<Rightarrow> ustr" where
  "trim_or message fallback = (let t = trim message in if t \<noteq> [] then t else fallback)"

definition normalizeAuthRejectionMessage :: "api_error option \<Rightarrow> ustr \<Rightarrow> ustr" where
  "normalizeAuthRejectionMessage error fallback =
     (case error of
        None \<Rightarrow> fallback
      | Some e \<Rightarrow>
          if err_code e = U ''HTTP_401'' \<or> err_code e = U ''HTTP_403'' \<or> isAuthRejectionMessage (err_message e)
          then fallback
          else trim_or (err_message e) fallback)"

definition getErrorMessage :: "thrown \<Rightarrow> ustr" where
  "getErrorMessage e = (case e of JsError _ m \<Rightarrow> m | ThrownValue v \<Rightarrow> to_str v)"

definition shouldClearTokenForAuthError :: "thrown \<Rightarrow> bool" where
  "shouldClearTokenForAuthError error =
     includes_any (lower (getErrorMessage error))
       [''401'', ''403'', ''unauthorized'', ''forbidden'', ''token expired'', ''jwt expired'']"

section \<open>authRuntimePolicy.ts\<close>

datatype auth_check_outcome = CheckSuccess | CheckAuthError | CheckNetworkError

definition AUTH_ERROR_EMIT_COOLDOWN_MS :: int where "AUTH_ERROR_EMIT_COOLDOWN_MS = 12000"
definition AUTH_MAX_CONSECUTIVE_NETWORK_FAILURES :: nat where "AUTH_MAX_CONSECUTIVE_NETWORK_FAILURES = 8"

definition OFFLINE_SESSION_MESSAGE :: ustr where
  "OFFLINE_SESSION_MESSAGE = U ''You are offline. Session verification will resume when connection is restored.''"

definition normalizeFailureCount :: "jnum \<Rightarrow> nat" where
  "normalizeFailureCount value =
     (case value of Fin r \<Rightarrow> if r < 0 then 0 else nat (trunc_rat r) | _ \<Rightarrow> 0)"

definition getNetworkRetryDelayMs :: "jnum \<Rightarrow> int" where
  "getNetworkRetryDelayMs consecutiveFailures =
     min 15000 (800 * 2 ^ normalizeFailureCount consecutiveFailures)"

definition getNextConsecutiveNetworkFailures :: "jnum \<Rightarrow> auth_check_outcome \<Rightarrow> nat" where
  "getNextConsecutiveNetworkFailures previousFailures outcome =
     (if outcome \<noteq> CheckNetworkError then 0
      else min AUTH_MAX_CONSECUTIVE_NETWORK_FAILURES (normalizeFailureCount previousFailures + 1))"

definition getRevalidateThrottleMs :: "jnum \<Rightarrow> int" where
  "getRevalidateThrottleMs consecutiveFailures =
     min 60000 (5000 * 2 ^ (normalizeFailureCount consecutiveFailures - 1))"

definition canRevalidateSession :: "int \<Rightarrow> int \<Rightarrow> jnum \<Rightarrow> bool" where
  "canRevalidateSession nowMs lastRevalidateAtMs consecutiveFailures \<longleftrightarrow>
     nowMs - lastRevalidateAtMs \<ge> getRevalidateThrottleMs consecutiveFailures"

record error_emission =
  emitted_message :: ustr
  emittedAt :: int

definition shouldEmitAuthError :: "error_emission \<Rightarrow> ustr \<Rightarrow> int \<Rightarrow> int \<Rightarrow> bool" where
  "shouldEmitAuthError previous nextMessage nowMs cooldownMs =
     (\<not> (emitted_message previous = nextMessage \<and> nowMs - emittedAt previous < cooldownMs))"

section \<open>authContextUtils.ts\<close>

definition AUTH_LOGOUT_KEY :: ustr where "AUTH_LOGOUT_KEY = U ''tijarahjo_logged_out''"
definition AUTH_SESSION_HINT_KEY :: ustr where "AUTH_SESSION_HINT_KEY = U ''tijarahjo_has_authenticated''"
definition AUTH_ADMIN_ACCESS_HINT_KEY :: ustr where "AUTH_ADMIN_ACCESS_HINT_KEY = U ''tijarahjo_has_admin_access''"
definition AUTH_GUEST_KEY :: ustr where "AUTH_GUEST_KEY = U ''guestMode''"
definition AUTH_LEGACY_KEYS :: "ustr list" where
  "AUTH_LEGACY_KEYS = [U ''tijarahjo_token'', U ''tijarahjo_auth'', U ''tijarahjo_user'']"

lemmas auth_keys = AUTH_LOGOUT_KEY_def AUTH_SESSION_HINT_KEY_def AUTH_ADMIN_ACCESS_HINT_KEY_def
  AUTH_GUEST_KEY_def AUTH_LEGACY_KEYS_def

definition SESSION_EXPIRED_MESSAGE :: ustr where
  "SESSION_EXPIRED_MESSAGE = U ''Your session has expired. Please sign in again.''"

definition BACKEND_UNAVAILABLE_MESSAGE :: ustr where
  "BACKEND_UNAVAILABLE_MESSAGE = U ''Cannot verify your session right now. Please check your connection and try again.''"

definition AUTH_NETWORK_ERROR_CODES :: "ustr list" where
  "AUTH_NETWORK_ERROR_CODES = [U ''CONNECTION_REFUSED'', U ''TIMEOUT'', U ''NETWORK_ERROR'']"

definition normalizeMessage :: "ustr \<Rightarrow> ustr \<Rightarrow> ustr" where
  "normalizeMessage message fallback = trim_or message fallback"

definition isRetryableAuthError :: "api_error option \<Rightarrow> bool" where
  "isRetryableAuthError error =
     (case error of
        None \<Rightarrow> False
      | Some e \<Rightarrow>
          if err_code e \<noteq> [] \<and> err_code e \<in> set AUTH_NETWORK_ERROR_CODES then True
          else includes_any (lower (err_message e))
            [''failed to fetch'', ''connection refused'', ''cannot connect'', ''unable to connect'',
             ''timed out'', ''server error''])"

definition bool_text :: "bool \<Rightarrow> ustr" where
  "bool_text b = (if b then U ''true'' else U ''false'')"

definition hasStoredAuthSessionHint :: "storage \<Rightarrow> bool" where
  "hasStoredAuthSessionHint ls \<longleftrightarrow> getItem ls AUTH_SESSION_HINT_KEY = Some (U ''true'')"

definition persistAuthSessionHint :: "storage \<Rightarrow> storage" where
  "persistAuthSessionHint ls = setItem ls AUTH_SESSION_HINT_KEY (U ''true'')"

definition persistAdminAccessHint :: "bool \<Rightarrow> storage \<Rightarrow> storage" where
  "persistAdminAccessHint hasAdminAccess ls = setItem ls AUTH_ADMIN_ACCESS_HINT_KEY (bool_text hasAdminAccess)"

definition clearAuthSessionHint :: "storage \<Rightarrow> storage" where
  "clearAuthSessionHint ls = removeItem (removeItem ls AUTH_SESSION_HINT_KEY) AUTH_ADMIN_ACCESS_HINT_KEY"

section \<open>Properties\<close>

lemma normalizeFailureCount_of_nat [simp]: "normalizeFailureCount (Fin (of_nat n)) = n"
  by (simp add: normalizeFailureCount_def trunc_rat_def)

lemma next_failures_iterate:
  "((\<lambda>k. getNextConsecutiveNetworkFailures (Fin (of_nat k)) CheckNetworkError) ^^ n) 0 = min 8 n"
  by (induction n)
     (simp_all add: getNextConsecutiveNetworkFailures_def AUTH_MAX_CONSECUTIVE_NETWORK_FAILURES_def)

lemma int_pow_mono: "m \<le> n \<Longrightarrow> (2::int) ^ m \<le> 2 ^ n"
  by (rule power_increasing) simp_all

text \<open>
  The back-off of session checks: n failures in a row count as at most 8; the retry
  delay starts at 800 ms, never shrinks while failures go on and never exceeds 15 s; the time
  between two revalidations lies between 5 s and 60 s; any success or rejection resets the count.
\<close>

theorem network_backoff:
  "((\<lambda>k. getNextConsecutiveNetworkFailures (Fin (of_nat k)) CheckNetworkError) ^^ n) 0 = min 8 n
   \<and> 800 \<le> getNetworkRetryDelayMs f \<and> getNetworkRetryDelayMs f \<le> 15000
   \<and> getNetworkRetryDelayMs (Fin (of_nat n)) \<le> getNetworkRetryDelayMs (Fin (of_nat (n + m)))
   \<and> (canRevalidateSession (lastAt + 60000) lastAt f \<and> \<not> canRevalidateSession (lastAt + 4999) lastAt f)
   \<and> getNextConsecutiveNetworkFailures f CheckSuccess = 0
   \<and> getNextConsecutiveNetworkFailures f CheckAuthError = 0"
proof (intro conjI)
  have one: "(1::int) \<le> 2 ^ k" for k by simp
  show "800 \<le> getNetworkRetryDelayMs f"
    using one [of "normalizeFailureCount f"] by (simp add: getNetworkRetryDelayMs_def)
  show "getNetworkRetryDelayMs (Fin (of_nat n)) \<le> getNetworkRetryDelayMs (Fin (of_nat (n + m)))"
    unfolding getNetworkRetryDelayMs_def normalizeFailureCount_of_nat
    using int_pow_mono [of n "n + m"] by (intro min.mono) simp_all
  show "\<not> canRevalidateSession (lastAt + 4999) lastAt f"
    using one [of "normalizeFailureCount f - 1"]
    unfolding canRevalidateSession_def getRevalidateThrottleMs_def by linarith
qed (simp_all only: next_failures_iterate,
     simp_all add: getNetworkRetryDelayMs_def canRevalidateSession_def getRevalidateThrottleMs_def
       getNextConsecutiveNetworkFailures_def)

end
