(* ===== verification/AuthApi.thy ===== *)
theory AuthApi
  imports AuthPolicy
begin

text \<open>
  The authentication API (\<open>services/api/auth.ts\<close>, \<open>authHelpers.ts\<close>, \<open>schemas/authSchema.ts\<close>,
  \<open>signupErrorMessages.ts\<close>).  An operation is a request, the endpoint with its JSON body, and an
  interpretation of the \<open>ApiResponse\<close> that \<open>apiRequest\<close> returns for it.
\<close>

section \<open>authSchema.ts\<close>

record parsed_auth_user =
  pau_id :: ustr
  pau_firstName :: ustr
  pau_lastName :: ustr
  pau_email :: ustr
  pau_phone :: ustr
  pau_city :: ustr
  pau_area :: ustr
  pau_bio :: ustr
  pau_avatar :: "ustr option"
  pau_joinedDate :: ustr
  pau_roleID :: int
  pau_isDeleted :: bool
  pau_RoleName :: ustr
  pau_HasAdminAccess :: bool
  pau_AdminPermissions :: "ustr list"

record parsed_auth_envelope =
  env_successFlag :: "bool option"
  env_message :: ustr
  env_user :: "parsed_auth_user option"
  env_requiresTwoFactor :: bool
  env_twoFactorToken :: "ustr option"
  env_requiresEmailVerification :: bool

definition parseAuthUser :: "jsenv \<Rightarrow> jval \<Rightarrow> parsed_auth_user option" where
  "parseAuthUser env v =
     (case asRecord v of
        None \<Rightarrow> None
      | Some r \<Rightarrow> Some
          \<lparr> pau_id = to_str (coalesce [fld r ''Id'', fld r ''id'', Str []]),
            pau_firstName = readString (flds r [''FirstName'', ''firstName'']),
            pau_lastName = readString (flds r [''LastName'', ''lastName'']),
            pau_email = readString (flds r [''Email'', ''email'']),
            pau_phone = readString (flds r [''Phone'', ''phone'']),
            pau_city = readString (flds r [''City'', ''city'']),
            pau_area = readString (flds r [''Area'', ''area'']),
            pau_bio = readString (flds r [''Bio'', ''bio'']),
            pau_avatar = undef_if_empty (readString (flds r [''Avatar'', ''avatar''])),
            pau_joinedDate = toIsoStringOrNow env (flds r [''JoinedDate'', ''joinedDate'']),
            pau_roleID = toIntegerOrDefault (flds r [''RoleID'', ''roleID'']) 2 1,
            pau_isDeleted = toBoolean (flds r [''IsDeleted'', ''isDeleted'']) False,
            pau_RoleName = readString (flds r [''RoleName'', ''roleName'']),
            pau_HasAdminAccess = toBoolean (flds r [''HasAdminAccess'', ''hasAdminAccess'']) False,
            pau_AdminPermissions = readStringArray
              (flds r [''AdminPermissions'', ''adminPermissions'', ''Permissions'', ''permissions'']) \<rparr>)"

definition parseAuthEnvelope :: "jsenv \<Rightarrow> jval \<Rightarrow> parsed_auth_envelope option" where
  "parseAuthEnvelope env payload =
     (case asRecord payload of
        None \<Rightarrow> None
      | Some r \<Rightarrow> Some
          \<lparr> env_successFlag = (case flds r [''Success'', ''success''] of Bool b \<Rightarrow> Some b | _ \<Rightarrow> None),
            env_message = readString (flds r [''Message'', ''message'']),
            env_user = parseAuthUser env (flds r [''User'', ''user'']),
            env_requiresTwoFactor = toBoolean (flds r [''RequiresTwoFactor'', ''requiresTwoFactor'']) False,
            env_twoFactorToken = undef_if_empty (readString (flds r [''TwoFactorToken'', ''twoFactorToken''])),
            env_requiresEmailVerification =
              toBoolean (flds r [''RequiresEmailVerification'', ''requiresEmailVerification'']) False \<rparr>)"

section \<open>signupErrorMessages.ts\<close>

definition isUniqueConstraintError :: "ustr \<Rightarrow> bool" where
  "isUniqueConstraintError message = includes_any message [''UNIQUE KEY constraint'', ''UQ_TbUsers'']"

definition containsDuplicateIdentityPhrase :: "ustr \<Rightarrow> bool" where
  "containsDuplicateIdentityPhrase message =
     includes_any (lower message) [''already exists'', ''duplicate'', ''already been taken'', ''already registered'']"

definition normalizeSignupConstraintMessage :: "ustr \<Rightarrow> ustr" where
  "normalizeSignupConstraintMessage message =
     (let normalized = lower message;
          looksLikeDuplicateIdentity =
            isUniqueConstraintError message \<or> containsDuplicateIdentityPhrase message
      in if \<not> looksLikeDuplicateIdentity then message
         else if includes_any normalized [''uq_tbusers_e'', ''uq_tbusers_email'', ''uq_users_email'',
                ''ix_users_login_email_active'', ''email'']
         then U ''An account with this email address already exists. Please use a different email or try logging in.''
         else if includes_any normalized [''uq_users_phone_active'', ''phone'']
         then U ''An account with this phone number already exists. Please use a different phone number or try logging in.''
         else U ''An account with this information already exists. Please check your details and try again.'')"

section \<open>authHelpers.ts\<close>

record auth_result =
  ar_success :: bool
  ar_user :: "jval option"
  ar_message :: "ustr option"
  ar_requiresTwoFactor :: bool
  ar_twoFactorToken :: "ustr option"
  ar_requiresEmailVerification :: bool
  ar_error :: "(ustr \<times> ustr) option"

definition auth_ok :: auth_result where
  "auth_ok = \<lparr> ar_success = True, ar_user = None, ar_message = None, ar_requiresTwoFactor = False,
     ar_twoFactorToken = None, ar_requiresEmailVerification = False, ar_error = None \<rparr>"

definition normalizeLoginIdentifier :: "ustr \<Rightarrow> ustr \<Rightarrow> ustr" where
  "normalizeLoginIdentifier phonePrefix v =
     (let trimmed_v = trim v in
      if trimmed_v = [] then []
      else (case normalizeJordanPhone phonePrefix trimmed_v of
              Some phone \<Rightarrow> if phone \<noteq> [] then phone else lower trimmed_v
            | None \<Rightarrow> lower trimmed_v))"

definition toAuthFailure :: "ustr \<Rightarrow> ustr \<Rightarrow> auth_result" where
  "toAuthFailure code msg =
     auth_ok\<lparr> ar_success := False, ar_message := Some msg, ar_error := Some (code, msg) \<rparr>"

definition opt_jstr :: "ustr option \<Rightarrow> jval" where
  "opt_jstr v = (case v of None \<Rightarrow> Undef | Some s \<Rightarrow> Str s)"

definition mapParsedAuthUser :: "jsenv \<Rightarrow> parsed_auth_user \<Rightarrow> jval" where
  "mapParsedAuthUser env u =
     Obj [(U ''id'', Str (pau_id u)),
       (U ''firstName'', Str (pau_firstName u)),
       (U ''lastName'', Str (pau_lastName u)),
       (U ''email'', Str (pau_email u)),
       (U ''phone'', Str (pau_phone u)),
       (U ''city'', Str (pau_city u)),
       (U ''area'', Str (pau_area u)),
       (U ''bio'', Str (pau_bio u)),
       (U ''avatar'', opt_jstr (pau_avatar u)),
       (U ''joinedDate'', Str (pau_joinedDate u)),
       (U ''createdAt'', Str (pau_joinedDate u)),
       (U ''updatedAt'', Str (iso_string env (now_ms env))),
       (U ''roleID'', Num (Fin (of_int (pau_roleID u)))),
       (U ''isDeleted'', Bool (pau_isDeleted u)),
       (U ''RoleName'', Str (pau_RoleName u)),
       (U ''HasAdminAccess'', Bool (pau_HasAdminAccess u)),
       (U ''AdminPermissions'', Arr (map Str (pau_AdminPermissions u)))]"

definition extractMessageFromErrorDetails :: "jval \<Rightarrow> ustr" where
  "extractMessageFromErrorDetails details =
     (case asRecord details of
        None \<Rightarrow> []
      | Some r \<Rightarrow> readString (flds r [''Message'', ''message'', ''Detail'', ''detail'']))"

definition resolveMessageFromPayload :: "jval \<Rightarrow> ustr \<Rightarrow> ustr" where
  "resolveMessageFromPayload payload fallback =
     (case asRecord payload of
        None \<Rightarrow> fallback
      | Some r \<Rightarrow> or_else (readString (flds r [''message'', ''Message''])) fallback)"

record two_factor_status =
  tfs_success :: bool
  tfs_enabled :: bool
  tfs_hasPendingSetup :: bool
  tfs_message :: "ustr option"

definition parseTwoFactorStatusPayload :: "jval \<Rightarrow> two_factor_status" where
  "parseTwoFactorStatusPayload payload =
     (case asRecord payload of
        None \<Rightarrow> \<lparr> tfs_success = False, tfs_enabled = False, tfs_hasPendingSetup = False,
                  tfs_message = Some (U ''Invalid two-factor status response.'') \<rparr>
      | Some r \<Rightarrow> \<lparr> tfs_success = True, tfs_enabled = truthy (flds r [''Enabled'', ''enabled'']),
                    tfs_hasPendingSetup = truthy (flds r [''HasPendingSetup'', ''hasPendingSetup'']),
                    tfs_message = None \<rparr>)"

record two_factor_setup =
  tfu_success :: bool
  tfu_secretKey :: "ustr option"
  tfu_otpAuthUri :: "ustr option"
  tfu_message :: ustr

definition parseTwoFactorSetupStartPayload :: "jval \<Rightarrow> two_factor_setup" where
  "parseTwoFactorSetupStartPayload payload =
     (case asRecord payload of
        None \<Rightarrow> \<lparr> tfu_success = False, tfu_secretKey = None, tfu_otpAuthUri = None,
                  tfu_message = U ''Invalid two-factor setup response.'' \<rparr>
      | Some r \<Rightarrow>
          (let secretKey = readString (flds r [''SecretKey'', ''secretKey'']);
               otpAuthUri = readString (flds r [''OtpAuthUri'', ''otpAuthUri'']);
               msg = readString (flds r [''Message'', ''message'']);
               success = toBoolean (flds r [''Success'', ''success'']) True
           in if \<not> success
              then \<lparr> tfu_success = False, tfu_secretKey = None, tfu_otpAuthUri = None,
                     tfu_message = or_else msg (U ''Two-factor setup could not be started.'') \<rparr>
              else \<lparr> tfu_success = True, tfu_secretKey = undef_if_empty secretKey,
                     tfu_otpAuthUri = undef_if_empty otpAuthUri, tfu_message = msg \<rparr>))"

definition BACKEND_CONNECTION_SHORT_MESSAGE :: ustr where
  "BACKEND_CONNECTION_SHORT_MESSAGE = U ''Unable to connect to the server.''"

definition resolveAuthFailureMessage :: "api_response \<Rightarrow> ustr \<Rightarrow> bool \<Rightarrow> ustr" where
  "resolveAuthFailureMessage response fallbackMessage normalizeSignupConstraint =
     (case response of
        ApiOk _ \<Rightarrow> fallbackMessage
      | ApiErr e \<Rightarrow>
          (let messageFromDetails = extractMessageFromErrorDetails (err_details e);
               baseMessage = or_else messageFromDetails (or_else (trim (err_message e)) fallbackMessage)
           in if err_code e = U ''CONNECTION_REFUSED'' then BACKEND_CONNECTION_SHORT_MESSAGE
              else if normalizeSignupConstraint then normalizeSignupConstraintMessage baseMessage
              else baseMessage))"

definition handleAuthSuccessPayload ::
    "jsenv \<Rightarrow> jval \<Rightarrow> ustr \<Rightarrow> ustr \<Rightarrow> ustr \<Rightarrow> auth_result" where
  "handleAuthSuccessPayload env payload failureCode failureMessage successFallbackMessage =
     (case parseAuthEnvelope env payload of
        None \<Rightarrow> toAuthFailure (U ''INVALID_RESPONSE'') failureMessage
      | Some p \<Rightarrow>
          if env_successFlag p = Some False
          then toAuthFailure failureCode (or_else (env_message p) failureMessage)
          else
            (case env_user p of
               Some u \<Rightarrow> auth_ok\<lparr> ar_user := Some (mapParsedAuthUser env u) \<rparr>
             | None \<Rightarrow>
                 if env_requiresTwoFactor p
                 then auth_ok\<lparr> ar_requiresTwoFactor := True, ar_twoFactorToken := env_twoFactorToken p,
                        ar_message := Some (or_else (env_message p)
                          (U ''Two-factor verification is required to complete sign in.'')) \<rparr>
                 else if env_requiresEmailVerification p
                 then auth_ok\<lparr> ar_requiresEmailVerification := True,
                        ar_message := Some (or_else (env_message p) (U ''Please verify your email address.'')) \<rparr>
                 else auth_ok\<lparr> ar_message := Some (or_else (env_message p) successFallbackMessage) \<rparr>))"

section \<open>auth.ts: requests\<close>

type_synonym api_request = "ustr \<times> jval"   \<comment> \<open>endpoint and JSON body (\<open>Undef\<close> for none)\<close>

definition jobj :: "(string \<times> jval) list \<Rightarrow> jval" where
  "jobj kvs = Obj (map (\<lambda>(k, v). (U k, v)) kvs)"

definition nonempty_or_null :: "ustr \<Rightarrow> jval" where
  \<comment> \<open>\<open>s || null\<close>\<close>
  "nonempty_or_null s = (if s = [] then Null else Str s)"

definition login_request :: "ustr \<Rightarrow> ustr \<Rightarrow> ustr \<Rightarrow> api_request" where
  "login_request phonePrefix email password =
     (U ''/auth/login'',
      jobj [(''Login'', Str (normalizeLoginIdentifier phonePrefix email)), (''Password'', Str password)])"

definition verifyTwoFactorLogin_request :: "ustr \<Rightarrow> ustr \<Rightarrow> api_request" where
  "verifyTwoFactorLogin_request twoFactorToken code =
     (U ''/auth/2fa/verify-login'',
      jobj [(''TwoFactorToken'', Str (trim twoFactorToken)), (''Code'', Str (trim code))])"

definition requestPasswordReset_request :: "ustr \<Rightarrow> api_request" where
  "requestPasswordReset_request email =
     (U ''/auth/forgot-password/request'', jobj [(''Email'', Str (lower (trim email)))])"

definition verifyPasswordResetCode_request :: "ustr \<Rightarrow> ustr \<Rightarrow> api_request" where
  "verifyPasswordResetCode_request email code =
     (U ''/auth/forgot-password/verify'',
      jobj [(''Email'', Str (lower (trim email))), (''Code'', Str (trim code))])"

definition confirmPasswordReset_request :: "ustr \<Rightarrow> ustr \<Rightarrow> ustr \<Rightarrow> api_request" where
  "confirmPasswordReset_request email code newPassword =
     (U ''/auth/forgot-password/confirm'',
      jobj [(''Email'', Str (lower (trim email))), (''Code'', Str (trim code)), (''NewPassword'', Str newPassword)])"

record signup_data =
  su_firstName :: ustr
  su_lastName :: ustr
  su_email :: ustr
  su_password :: ustr
  su_phone :: ustr
  su_city :: ustr
  su_area :: ustr
  su_bio :: ustr
  su_avatar :: ustr

text \<open>
  \<open>resolveCityId\<close> and \<open>resolveAreaId\<close> look names up on the server; their answers are arguments.
  \<open>Inl\<close> is a failure without a request.
\<close>

definition VALIDATION_ERROR :: ustr where "VALIDATION_ERROR = U ''VALIDATION_ERROR''"

definition signup_request ::
    "ustr \<Rightarrow> (ustr \<Rightarrow> int option) \<Rightarrow> (int \<Rightarrow> ustr \<Rightarrow> int option) \<Rightarrow> signup_data \<Rightarrow> auth_result + api_request" where
  "signup_request phonePrefix resolveCityId resolveAreaId userData =
     (let normalizedPhone = normalizeJordanPhone phonePrefix (su_phone userData);
          normalizedCity = trim (su_city userData);
          normalizedArea = trim (su_area userData);
          normalizedBio = trim (su_bio userData);
          normalizedAvatar = trim (su_avatar userData)
      in case normalizedPhone of
           None \<Rightarrow> Inl (toAuthFailure VALIDATION_ERROR
             (U ''Phone number is required and must be a valid Jordanian number.''))
         | Some phone \<Rightarrow>
             if normalizedCity = [] then Inl (toAuthFailure VALIDATION_ERROR (U ''City is required.''))
             else if normalizedArea = [] then Inl (toAuthFailure VALIDATION_ERROR (U ''Area is required.''))
             else
               (case resolveCityId normalizedCity of
                  None \<Rightarrow> Inl (toAuthFailure VALIDATION_ERROR
                    (U ''Could not resolve city \"'' @ normalizedCity @ U ''\". Please select a valid city.''))
                | Some cityId \<Rightarrow>
                    (case resolveAreaId cityId normalizedArea of
                       None \<Rightarrow> Inl (toAuthFailure VALIDATION_ERROR
                         (U ''Could not resolve area \"'' @ normalizedArea
                          @ U ''\" in the selected city. Please select a valid area.''))
                     | Some areaId \<Rightarrow> Inr
                         (U ''/auth/signup'',
                          jobj [(''Email'', nonempty_or_null (trim (su_email userData))),
                            (''Password'', Str (su_password userData)),
                            (''FirstName'', Str (su_firstName userData)),
                            (''LastName'', Str (su_lastName userData)),
                            (''Phone'', Str phone),
                            (''CityId'', Num (Fin (of_int cityId))),
                            (''AreaId'', Num (Fin (of_int areaId))),
                            (''Bio'', nonempty_or_null normalizedBio),
                            (''Avatar'', nonempty_or_null normalizedAvatar)]))))"

definition split_name :: "ustr \<Rightarrow> ustr \<times> ustr" where
  \<comment> \<open>first word, and the other words joined again\<close>
  "split_name name =
     (let nameParts = split_on 32 (trim name) in (hd nameParts, join [32] (tl nameParts)))"

definition register_signup_data ::
    "ustr \<Rightarrow> ustr \<Rightarrow> ustr \<Rightarrow> ustr \<Rightarrow> ustr \<Rightarrow> ustr \<Rightarrow> signup_data" where
  "register_signup_data email password name phone city area =
     (let (firstName, rest) = split_name name in
      \<lparr> su_firstName = firstName, su_lastName = or_else rest firstName, su_email = trim email,
        su_password = password, su_phone = trim phone, su_city = trim city, su_area = trim area,
        su_bio = [], su_avatar = [] \<rparr>)"

section \<open>auth.ts: interpreting the response\<close>

definition auth_reply :: "jsenv \<Rightarrow> api_response \<Rightarrow> ustr \<Rightarrow> ustr \<Rightarrow> ustr \<Rightarrow> bool \<Rightarrow> auth_result" where
  \<comment> \<open>\<open>if (response.success && response.data) handleAuthSuccessPayload(...)\<close>, else a failure\<close>
  "auth_reply env response failureCode failureMessage successFallbackMessage normalizeSignup =
     (case response of
        ApiOk d \<Rightarrow>
          if truthy d then handleAuthSuccessPayload env d failureCode failureMessage successFallbackMessage
          else toAuthFailure failureCode (resolveAuthFailureMessage response failureMessage normalizeSignup)
      | ApiErr _ \<Rightarrow> toAuthFailure failureCode (resolveAuthFailureMessage response failureMessage normalizeSignup))"

definition message_reply :: "api_response \<Rightarrow> ustr \<Rightarrow> ustr \<Rightarrow> ustr \<Rightarrow> auth_result" where
  \<comment> \<open>an operation whose success carries only a message\<close>
  "message_reply response successMessage failureCode failureMessage =
     (case response of
        ApiOk d \<Rightarrow> auth_ok\<lparr> ar_message := Some (resolveMessageFromPayload d successMessage) \<rparr>
      | ApiErr _ \<Rightarrow> toAuthFailure failureCode (resolveAuthFailureMessage response failureMessage False))"

definition login_result :: "jsenv \<Rightarrow> api_response \<Rightarrow> auth_result" where
  "login_result env response =
     (case response of
        ApiOk d \<Rightarrow>
          if truthy d then handleAuthSuccessPayload env d (U ''LOGIN_FAILED'')
            (U ''Login failed. Please try again.'') (U ''Login successful'')
          else toAuthFailure (U ''LOGIN_FAILED'') (U ''Login failed. Please try again.'')
      | ApiErr e \<Rightarrow>
          (let errorDetails = err_details e in
           if err_code e = U ''HTTP_403'' \<and> truthy errorDetails
              \<and> (fld errorDetails ''RequiresEmailVerification'' = Bool True
                 \<or> fld errorDetails ''requiresEmailVerification'' = Bool True)
           then auth_ok\<lparr> ar_success := False, ar_requiresEmailVerification := True,
                  ar_message := Some (or_else
                    (to_str (coalesce [fld errorDetails ''Message'', fld errorDetails ''message'', Str []]))
                    (U ''Please verify your email address before logging in.'')) \<rparr>
           else toAuthFailure (U ''LOGIN_FAILED'')
             (resolveAuthFailureMessage response (U ''Login failed. Please try again.'') False)))"

definition verifyTwoFactorLogin_result :: "jsenv \<Rightarrow> api_response \<Rightarrow> auth_result" where
  "verifyTwoFactorLogin_result env response =
     auth_reply env response (U ''TWO_FACTOR_VERIFY_FAILED'')
       (U ''Two-factor verification failed. Please try again.'') (U ''Two-factor verification successful'') False"

definition getTwoFactorStatus_result :: "api_response \<Rightarrow> two_factor_status" where
  "getTwoFactorStatus_result response =
     (case response of
        ApiOk d \<Rightarrow> parseTwoFactorStatusPayload d
      | ApiErr _ \<Rightarrow> \<lparr> tfs_success = False, tfs_enabled = False, tfs_hasPendingSetup = False,
          tfs_message = Some (resolveAuthFailureMessage response (U ''Failed to load two-factor status.'') False) \<rparr>)"

definition getTwoFactorChallenge_result :: "jsenv \<Rightarrow> api_response \<Rightarrow> auth_result" where
  "getTwoFactorChallenge_result env response =
     auth_reply env response (U ''TWO_FACTOR_CHALLENGE_FAILED'')
       (U ''Failed to retrieve two-factor challenge.'') (U ''Two-factor verification is required.'') False"

definition startTwoFactorSetup_result :: "api_response \<Rightarrow> two_factor_setup" where
  "startTwoFactorSetup_result response =
     (case response of
        ApiOk d \<Rightarrow> parseTwoFactorSetupStartPayload d
      | ApiErr _ \<Rightarrow> \<lparr> tfu_success = False, tfu_secretKey = None, tfu_otpAuthUri = None,
          tfu_message = resolveAuthFailureMessage response (U ''Failed to start two-factor setup.'') False \<rparr>)"

definition confirmTwoFactorSetup_result :: "api_response \<Rightarrow> auth_result" where
  "confirmTwoFactorSetup_result response =
     message_reply response (U ''Two-factor authentication enabled.'')
       (U ''TWO_FACTOR_SETUP_CONFIRM_FAILED'') (U ''Failed to enable two-factor authentication.'')"

definition disableTwoFactor_result :: "api_response \<Rightarrow> auth_result" where
  "disableTwoFactor_result response =
     message_reply response (U ''Two-factor authentication disabled.'')
       (U ''TWO_FACTOR_DISABLE_FAILED'') (U ''Failed to disable two-factor authentication.'')"

definition signup_result :: "jsenv \<Rightarrow> api_response \<Rightarrow> auth_result" where
  "signup_result env response =
     auth_reply env response (U ''SIGNUP_FAILED'') (U ''Registration failed. Please try again.'')
       (U ''Registration successful'') True"

definition requestPasswordReset_result :: "api_response \<Rightarrow> auth_result" where
  "requestPasswordReset_result response =
     message_reply response (U ''A verification code has been sent to your email.'')
       (U ''PASSWORD_RESET_REQUEST_FAILED'') (U ''Unable to process password reset request.'')"

definition verifyPasswordResetCode_result :: "api_response \<Rightarrow> auth_result" where
  "verifyPasswordResetCode_result response =
     message_reply response (U ''Verification code confirmed.'')
       (U ''PASSWORD_RESET_VERIFY_FAILED'') (U ''Invalid or expired verification code.'')"

definition confirmPasswordReset_result :: "api_response \<Rightarrow> auth_result" where
  "confirmPasswordReset_result response =
     message_reply response (U ''Password reset succeeded.'')
       (U ''PASSWORD_RESET_CONFIRM_FAILED'') (U ''Unable to reset password. Please check your code and try again.'')"

definition verifyEmail_result :: "jsenv \<Rightarrow> api_response \<Rightarrow> auth_result" where
  "verifyEmail_result env response =
     auth_reply env response (U ''EMAIL_VERIFY_FAILED'')
       (U ''Email verification failed. The link may have expired.'') (U ''Email verified successfully.'') False"

definition resendVerificationEmail_result :: "api_response \<Rightarrow> auth_result" where
  "resendVerificationEmail_result response =
     (let m = U ''If an account exists with this email, a verification link has been sent.'' in
      case response of
        ApiOk d \<Rightarrow> auth_ok\<lparr> ar_message := Some (resolveMessageFromPayload d m) \<rparr>
      | ApiErr _ \<Rightarrow> auth_ok\<lparr> ar_message := Some m \<rparr>)"

section \<open>Lemmas\<close>

definition result_wf :: "auth_result \<Rightarrow> bool" where
  \<comment> \<open>what callers of the API may rely on\<close>
  "result_wf r \<longleftrightarrow>
     (if ar_success r then ar_error r = None
      else ar_user r = None \<and> \<not> ar_requiresTwoFactor r
        \<and> (\<exists>m. ar_message r = Some m \<and> m \<noteq> []
             \<and> (ar_requiresEmailVerification r \<or> (\<exists>code. ar_error r = Some (code, m)))))
     \<and> (ar_user r \<noteq> None \<longrightarrow> \<not> ar_requiresTwoFactor r \<and> \<not> ar_requiresEmailVerification r)"

lemma toAuthFailure_sel [simp]:
  "ar_success (toAuthFailure c m) = False" "ar_user (toAuthFailure c m) = None"
  "ar_requiresTwoFactor (toAuthFailure c m) = False" "ar_message (toAuthFailure c m) = Some m"
  "ar_error (toAuthFailure c m) = Some (c, m)" "ar_requiresEmailVerification (toAuthFailure c m) = False"
  by (simp_all add: toAuthFailure_def auth_ok_def)

lemma result_wf_failure [simp]: "m \<noteq> [] \<Longrightarrow> result_wf (toAuthFailure c m)"
  by (simp add: result_wf_def)

lemma result_wf_handle: "fm \<noteq> [] \<Longrightarrow> result_wf (handleAuthSuccessPayload env d fc fm sm)"
proof (cases "parseAuthEnvelope env d")
  case (Some p)
  assume "fm \<noteq> []"
  then show ?thesis
    by (cases "env_successFlag p = Some False"; cases "env_user p")
       (simp_all add: handleAuthSuccessPayload_def Some, simp_all add: result_wf_def auth_ok_def)
qed (simp add: handleAuthSuccessPayload_def)

lemma normalizeSignup_not_Nil: "m \<noteq> [] \<Longrightarrow> normalizeSignupConstraintMessage m \<noteq> []"
  by (simp add: normalizeSignupConstraintMessage_def Let_def)

lemma resolveAuthFailureMessage_not_Nil: "fm \<noteq> [] \<Longrightarrow> resolveAuthFailureMessage r fm ns \<noteq> []"
  by (cases r) (simp_all add: resolveAuthFailureMessage_def Let_def BACKEND_CONNECTION_SHORT_MESSAGE_def
      normalizeSignup_not_Nil)

lemma result_wf_reply: "fm \<noteq> [] \<Longrightarrow> result_wf (auth_reply env r fc fm sm ns)"
  by (cases r) (simp_all add: auth_reply_def result_wf_handle resolveAuthFailureMessage_not_Nil)

lemma ar_user_handle:
  "ar_user (handleAuthSuccessPayload env d fc fm sm) = Some u \<Longrightarrow>
     \<exists>p pu. parseAuthEnvelope env d = Some p \<and> env_successFlag p \<noteq> Some False
        \<and> env_user p = Some pu \<and> u = mapParsedAuthUser env pu"
  by (auto simp: handleAuthSuccessPayload_def auth_ok_def toAuthFailure_def split: option.splits if_splits)

lemma ar_user_reply:
  "ar_user (auth_reply env r fc fm sm ns) = Some u \<Longrightarrow>
     \<exists>d p pu. r = ApiOk d \<and> parseAuthEnvelope env d = Some p \<and> env_successFlag p \<noteq> Some False
        \<and> env_user p = Some pu \<and> u = mapParsedAuthUser env pu"
  by (auto simp: auth_reply_def dest: ar_user_handle split: api_response.splits if_splits)

lemma digits_only_lower: "digits_only (lower s) = digits_only s"
proof (induction s)
  case (Cons c s)
  have "filter is_digit (lower_unit c) = (if is_digit c then [c] else [])"
    by (auto simp: lower_unit_def is_digit_def)
  with Cons show ?case by (simp add: digits_only_def lower_def)
qed (simp add: digits_only_def)

lemma digits_only_dropWhile_ws: "digits_only (dropWhile is_ws s) = digits_only s"
  by (induction s) (auto simp: digits_only_def is_ws_def is_digit_def)

lemma digits_only_rev: "digits_only (rev s) = rev (digits_only s)"
  by (simp add: digits_only_def rev_filter)

lemma digits_only_trim [simp]: "digits_only (trim s) = digits_only s"
  by (simp add: trim_def rtrim_def ltrim_def digits_only_rev digits_only_dropWhile_ws)

lemma normalizeJordanPhone_digits:
  "digits_only s = digits_only t \<Longrightarrow> normalizeJordanPhone p s = normalizeJordanPhone p t"
  by (simp add: normalizeJordanPhone_def)

lemma normalizeJordanPhone_trim [simp]: "normalizeJordanPhone p (trim s) = normalizeJordanPhone p s"
  by (rule normalizeJordanPhone_digits) simp

lemma normalizeJordanPhone_lower: "normalizeJordanPhone p (lower s) = normalizeJordanPhone p s"
  by (rule normalizeJordanPhone_digits) (simp add: digits_only_lower)

lemma normalizeJordanPhone_blank: "trim s = [] \<Longrightarrow> normalizeJordanPhone p s = None"
  using normalizeJordanPhone_trim [of p s] by (simp add: normalizeJordanPhone_def digits_only_def)

lemma local_mobile_not_Nil: "is_local_mobile l \<Longrightarrow> l \<noteq> []"
  by (auto simp: is_local_mobile_def)

lemma normalizeJordanPhone_result:
  assumes "normalizeJordanPhone p s = Some w"
  shows "w \<noteq> [] \<and> normalizeJordanPhone p w = Some w"
proof -
  from assms obtain l where "w = p @ l" "is_local_mobile l" by (rule normalizeJordanPhone_Some)
  then show ?thesis by (simp add: normalizeJordanPhone_local local_mobile_not_Nil)
qed

lemma normalizeLoginIdentifier_phone:
  "normalizeJordanPhone p s = Some w \<Longrightarrow> normalizeLoginIdentifier p s = w"
  using normalizeJordanPhone_blank [of s p] normalizeJordanPhone_result [of p s w]
  by (auto simp: normalizeLoginIdentifier_def Let_def)

lemma normalizeLoginIdentifier_other:
  "normalizeJordanPhone p s = None \<Longrightarrow> normalizeLoginIdentifier p s = lower (trim s)"
  by (simp add: normalizeLoginIdentifier_def Let_def)

section \<open>Properties\<close>

text \<open>
  Every authentication operation that may open a session reports a well-formed result
  (a failure has a readable message and no user, a success no error, a user excludes a pending
  second factor), and it reports a user only where the server answered with a user object and did
  not declare the request failed.
\<close>

theorem auth_results_wf:
  "result_wf (login_result env r) \<and> result_wf (verifyTwoFactorLogin_result env r)
   \<and> result_wf (getTwoFactorChallenge_result env r) \<and> result_wf (signup_result env r)
   \<and> result_wf (verifyEmail_result env r)
   \<and> (\<forall>u. ar_user (login_result env r) = Some u \<longrightarrow>
        (\<exists>d p pu. r = ApiOk d \<and> parseAuthEnvelope env d = Some p \<and> env_successFlag p \<noteq> Some False
           \<and> env_user p = Some pu \<and> u = mapParsedAuthUser env pu))"
proof (intro conjI allI impI)
  show "result_wf (login_result env r)"
  proof (cases r)
    case (ApiOk d)
    then show ?thesis by (simp add: login_result_def result_wf_handle)
  next
    case (ApiErr e)
    have "result_wf (auth_ok\<lparr>ar_success := False, ar_requiresEmailVerification := True,
        ar_message := Some (or_else t (U ''Please verify your email address before logging in.''))\<rparr>)" for t
      by (simp add: result_wf_def auth_ok_def)
    with ApiErr show ?thesis
      by (simp add: login_result_def Let_def resolveAuthFailureMessage_not_Nil)
  qed
next
  fix u assume u: "ar_user (login_result env r) = Some u"
  show "\<exists>d p pu. r = ApiOk d \<and> parseAuthEnvelope env d = Some p \<and> env_successFlag p \<noteq> Some False
           \<and> env_user p = Some pu \<and> u = mapParsedAuthUser env pu"
  proof (cases r)
    case (ApiOk d)
    with u have "ar_user (handleAuthSuccessPayload env d (U ''LOGIN_FAILED'')
        (U ''Login failed. Please try again.'') (U ''Login successful'')) = Some u"
      by (simp add: login_result_def split: if_splits)
    from ar_user_handle [OF this] ApiOk show ?thesis by blast
  next
    case (ApiErr e)
    with u show ?thesis by (simp add: login_result_def Let_def auth_ok_def split: if_splits)
  qed
qed (simp_all add: verifyTwoFactorLogin_result_def getTwoFactorChallenge_result_def signup_result_def
       verifyEmail_result_def result_wf_reply)

theorem auth_results_wf_witness:
  "\<exists>p pu. parseAuthEnvelope ref_env (Obj [(U ''user'', Obj [(U ''id'', Str (U ''5''))])]) = Some p
     \<and> env_user p = Some pu
     \<and> ar_user (login_result ref_env (ApiOk (Obj [(U ''user'', Obj [(U ''id'', Str (U ''5''))])])))
         = Some (mapParsedAuthUser ref_env pu)"
proof -
  let ?v = "Obj [(U ''user'', Obj [(U ''id'', Str (U ''5''))])]"
  obtain u where u: "ar_user (login_result ref_env (ApiOk ?v)) = Some u"
    by (simp add: login_result_def handleAuthSuccessPayload_def parseAuthEnvelope_def parseAuthUser_def
      flds_def auth_ok_def)
  with auth_results_wf [of ref_env "ApiOk ?v"] show ?thesis by auto
qed

text \<open>
  Signing up sends a request only with a normalised Jordanian phone number, and typing
  the phone number at the login form the way it was typed at sign-up logs in under the number that
  was registered; identifiers are normalised once and for all.
\<close>

theorem login_finds_registered_phone:
  assumes "signup_request p city area d = Inr (endpoint, body)" and "trimmed p"
  shows "\<exists>l. is_local_mobile l \<and> fld body ''Phone'' = Str (p @ l)
      \<and> normalizeLoginIdentifier p (su_phone d) = p @ l
      \<and> normalizeLoginIdentifier p (normalizeLoginIdentifier p s) = normalizeLoginIdentifier p s"
proof -
  from assms(1) obtain w where w: "normalizeJordanPhone p (su_phone d) = Some w"
    and b: "fld body ''Phone'' = Str w"
    by (auto simp: signup_request_def Let_def jobj_def split: option.splits if_splits)
  from w obtain l where l: "w = p @ l" "is_local_mobile l" by (rule normalizeJordanPhone_Some)
  have "normalizeLoginIdentifier p (normalizeLoginIdentifier p s) = normalizeLoginIdentifier p s"
  proof (cases "normalizeJordanPhone p s")
    case None
    then have "normalizeJordanPhone p (lower (trim s)) = None" by (simp add: normalizeJordanPhone_lower)
    with None show ?thesis by (simp add: normalizeLoginIdentifier_other trim_id trimmed_lower)
  next
    case (Some v)
    then show ?thesis using normalizeJordanPhone_result [OF Some]
      by (simp add: normalizeLoginIdentifier_phone)
  qed
  with w b l show ?thesis by (auto simp: normalizeLoginIdentifier_phone)
qed

definition sample_signup :: signup_data where
  "sample_signup = \<lparr> su_firstName = U ''Lina'', su_lastName = [], su_email = [], su_password = U ''Secret#12'',
     su_phone = U ''079 123 4567'', su_city = U ''Amman'', su_area = U ''Abdoun'', su_bio = [], su_avatar = [] \<rparr>"

theorem login_finds_registered_phone_witness:
  "\<exists>l. is_local_mobile l
     \<and> normalizeLoginIdentifier (U ''+962'') (su_phone sample_signup) = U ''+962'' @ l"
proof -
  have t: "trimmed (U ''+962'')" by code_simp
  have "\<exists>e b. signup_request (U ''+962'') (\<lambda>_. Some 1) (\<lambda>_ _. Some 2) sample_signup = Inr (e, b)"
    by (rule exI, rule exI, code_simp)
  then obtain e b where "signup_request (U ''+962'') (\<lambda>_. Some 1) (\<lambda>_ _. Some 2) sample_signup = Inr (e, b)"
    by blast
  from login_finds_registered_phone [OF this t] show ?thesis by blast
qed




lemma asBackendUser_mapped [simp]: "asBackendUser (mapParsedAuthUser env u) = Some (mapParsedAuthUser env u)"
  by (simp add: asBackendUser_def mapParsedAuthUser_def)




end
