(* ===== verification/Session.thy ===== *)
theory Session
  imports AuthApi
begin

text \<open>
  The session of the web client (\<open>contexts/useAuthProviderController.ts\<close>, \<open>authActions.ts\<close>,
  \<open>useAuthEventSync.ts\<close>) as a state machine.  The asynchronous functions are split at their
  \<open>await\<close>s: what a suspended call still has to do is a \<open>task\<close> of the state, and resuming it takes
  what the awaited call returned.  Tasks of different calls interleave freely.  React renders
  between two steps, so \<open>authStateRef.current\<close> is the current state.

  What the server answers (\<open>thrown + api_response\<close>), whether the browser is online, and the time
  are inputs of the steps.
\<close>

section \<open>State\<close>

datatype current_user_result =
    CurSuccess user
  | CurAuthError ustr
  | CurNetworkError ustr

datatype task =
    CheckTask nat bool bool ustr bool
      \<comment> \<open>\<open>checkAuth\<close>: run id, \<open>guestMode === "true"\<close>, authenticated at the start, e-mail, retrying\<close>
  | LoginTask ustr
  | RegisterTask ustr ustr
  | HydrateTask user ustr
  | GuestTask

record session_state =
  sn_isAuthenticated :: bool
  sn_user :: "user option"
  sn_isGuest :: bool
  sn_loading :: bool
  sn_authError :: "ustr option"
  authCheckRunId :: nat
  authCheckInitialized :: bool
  lastRevalidateAt :: int
  netFailures :: nat
  lastEmission :: error_emission
  localSt :: storage
  sessionSt :: storage
  cachedQueries :: "ustr list"
  tasks :: "task list"

definition initial_session :: "storage \<Rightarrow> storage \<Rightarrow> session_state" where
  "initial_session ls ss =
     \<lparr> sn_isAuthenticated = False, sn_user = None, sn_isGuest = False, sn_loading = True,
       sn_authError = None, authCheckRunId = 0, authCheckInitialized = False, lastRevalidateAt = 0,
       netFailures = 0, lastEmission = \<lparr> emitted_message = [], emittedAt = 0 \<rparr>,
       localSt = ls, sessionSt = ss, cachedQueries = [], tasks = [] \<rparr>"

section \<open>Synchronous parts\<close>

definition clear_local :: "storage \<Rightarrow> storage" where
  "clear_local ls =
     removeItem (fold (\<lambda>k t. removeItem t k) AUTH_LEGACY_KEYS (clearAuthSessionHint (removeItem ls AUTH_GUEST_KEY)))
       (U ''tijarahjo_favorites'')"

definition clearAuthStorage :: "session_state \<Rightarrow> session_state" where
  "clearAuthStorage s =
     s\<lparr> localSt := clear_local (localSt s),
        sessionSt := removeItem (sessionSt s) (U ''tijarahjo_compare_items''),
        cachedQueries := filter (\<lambda>q. \<not> starts_with q (U ''favorites:'')) (cachedQueries s) \<rparr>"

definition signed_out :: "session_state \<Rightarrow> session_state" where
  "signed_out s = s\<lparr> sn_isAuthenticated := False, sn_user := None \<rparr>"

definition setSignedOutState :: "ustr option \<Rightarrow> session_state \<Rightarrow> session_state" where
  "setSignedOutState msg s =
     (signed_out s)\<lparr> sn_isGuest := False,
       sn_authError := (if opt_str msg \<noteq> [] then msg else None) \<rparr>"

definition emitAuthError :: "int \<Rightarrow> ustr \<Rightarrow> session_state \<Rightarrow> session_state" where
  "emitAuthError now msg s =
     (let normalizedMessage = normalizeMessage msg BACKEND_UNAVAILABLE_MESSAGE in
      if \<not> shouldEmitAuthError (lastEmission s) normalizedMessage now AUTH_ERROR_EMIT_COOLDOWN_MS then s
      else s\<lparr> lastEmission := \<lparr> emitted_message = normalizedMessage, emittedAt = now \<rparr>,
              sn_authError := Some normalizedMessage \<rparr>)"

definition resolveAuthUser :: "jval \<Rightarrow> auth_fallback \<Rightarrow> user" where
  "resolveAuthUser payload fallback =
     resolveUserFromAuthPayload payload
       (fallback\<lparr> fb_name := or_else (fb_name fallback) (fb_email fallback),
          fb_role := (case fb_role fallback of None \<Rightarrow> Some RegularUser | r \<Rightarrow> r) \<rparr>)"

definition email_fallback :: "ustr \<Rightarrow> auth_fallback" where
  "email_fallback email =
     \<lparr> fb_email = email, fb_firstName = [], fb_lastName = [], fb_name = email,
       fb_role = Some RegularUser, fb_id = [], fb_avatar = None \<rparr>"

definition persist_hints :: "user \<Rightarrow> storage \<Rightarrow> storage" where
  "persist_hints u ls =
     persistAdminAccessHint
       (user_role u = Admin \<or> user_hasAdminAccess u = Some True
        \<or> (case user_permissions u of None \<Rightarrow> False | Some ps \<Rightarrow> length ps > 0))
       (persistAuthSessionHint ls)"

definition persistAuthenticatedSession :: "user \<Rightarrow> session_state \<Rightarrow> session_state" where
  "persistAuthenticatedSession u s =
     s\<lparr> localSt := persist_hints u (removeItem (removeItem (localSt s) AUTH_GUEST_KEY) AUTH_LOGOUT_KEY),
        sn_isGuest := False, sn_authError := None, sn_isAuthenticated := True, sn_user := Some u \<rparr>"

definition fetchCurrentUser :: "bool \<Rightarrow> thrown + api_response \<Rightarrow> ustr \<Rightarrow> current_user_result" where
  "fetchCurrentUser online outcome fallbackEmail =
     (if \<not> online then CurNetworkError OFFLINE_SESSION_MESSAGE
      else
        (case outcome of
           Inr (ApiOk d) \<Rightarrow>
             if truthy d then CurSuccess (resolveAuthUser d (email_fallback fallbackEmail))
             else CurAuthError SESSION_EXPIRED_MESSAGE
         | Inr (ApiErr e) \<Rightarrow>
             if isRetryableAuthError (Some e)
             then CurNetworkError (normalizeMessage (err_message e) BACKEND_UNAVAILABLE_MESSAGE)
             else CurAuthError (normalizeAuthRejectionMessage (Some e) SESSION_EXPIRED_MESSAGE)
         | Inl t \<Rightarrow>
             if shouldClearTokenForAuthError t
             then CurAuthError (normalizeMessage (getErrorMessage t) SESSION_EXPIRED_MESSAGE)
             else CurNetworkError (normalizeMessage (getErrorMessage t) BACKEND_UNAVAILABLE_MESSAGE)))"

section \<open>checkAuth\<close>

definition hasAnySessionHint :: "storage \<Rightarrow> bool" where
  "hasAnySessionHint ls \<longleftrightarrow>
     hasStoredAuthSessionHint ls \<or> list_ex (\<lambda>k. getItem ls k \<noteq> None) AUTH_LEGACY_KEYS"

definition add_task :: "task \<Rightarrow> session_state \<Rightarrow> session_state" where
  "add_task t s = s\<lparr> tasks := tasks s @ [t] \<rparr>"

definition drop_task :: "task \<Rightarrow> session_state \<Rightarrow> session_state" where
  "drop_task t s = s\<lparr> tasks := remove1 t (tasks s) \<rparr>"

definition check_settled :: "session_state \<Rightarrow> session_state" where
  "check_settled s = s\<lparr> authCheckInitialized := True, sn_loading := False \<rparr>"

definition enter_guest :: "session_state \<Rightarrow> session_state" where
  "enter_guest s = (signed_out s)\<lparr> netFailures := 0, sn_isGuest := True, sn_authError := None \<rparr>"

definition check_begin :: "bool \<Rightarrow> session_state \<Rightarrow> session_state" where
  \<comment> \<open>a new run; \<open>oauthSuccess\<close>: the URL carries \<open>?oauthSuccess=1\<close>\<close>
  "check_begin oauthSuccess s =
     s\<lparr> authCheckRunId := authCheckRunId s + 1,
        sn_loading := (if \<not> authCheckInitialized s then True else sn_loading s),
        localSt := (if oauthSuccess then persistAuthSessionHint (removeItem (localSt s) AUTH_LOGOUT_KEY)
                    else localSt s) \<rparr>"

definition checkAuth :: "bool \<Rightarrow> session_state \<Rightarrow> session_state" where
  \<comment> \<open>up to the first \<open>await\<close>\<close>
  "checkAuth oauthSuccess s0 =
     (let s = check_begin oauthSuccess s0
      in if getItem (localSt s) AUTH_LOGOUT_KEY = Some (U ''true'')
         then check_settled (setSignedOutState None (clearAuthStorage s))
         else
           (let guestMode = (getItem (localSt s) AUTH_GUEST_KEY = Some (U ''true''));
                shouldSkipLoggedOutProbe =
                  \<not> sn_isAuthenticated s \<and> sn_user s = None \<and> \<not> hasAnySessionHint (localSt s)
            in if shouldSkipLoggedOutProbe
               then check_settled (if guestMode then enter_guest s
                                   else setSignedOutState None (clearAuthStorage s))
               else add_task (CheckTask (authCheckRunId s) guestMode (sn_isAuthenticated s)
                      (case sn_user s of None \<Rightarrow> [] | Some u \<Rightarrow> user_email u) False) s))"

definition check_succeeded :: "bool \<Rightarrow> user \<Rightarrow> session_state \<Rightarrow> session_state" where
  "check_succeeded guestMode u s =
     s\<lparr> netFailures := 0,
        localSt := persist_hints u (if guestMode then removeItem (localSt s) AUTH_GUEST_KEY else localSt s),
        sn_isGuest := False, sn_isAuthenticated := True, sn_user := Some u, sn_authError := None \<rparr>"

definition check_rejected :: "bool \<Rightarrow> ustr \<Rightarrow> session_state \<Rightarrow> session_state" where
  "check_rejected wasAuthenticated msg s =
     setSignedOutState (if wasAuthenticated then Some msg else None)
       (clearAuthStorage (s\<lparr> netFailures := 0 \<rparr>))"

definition check_unreachable :: "int \<Rightarrow> bool \<Rightarrow> ustr \<Rightarrow> session_state \<Rightarrow> session_state" where
  "check_unreachable now wasAuthenticated0 msg s0 =
     (let s = s0\<lparr> netFailures := getNextConsecutiveNetworkFailures
                    (Fin (of_nat (netFailures s0))) CheckNetworkError \<rparr>;
          wasAuthenticated = (wasAuthenticated0 \<or> list_ex (\<lambda>k. getItem (localSt s) k \<noteq> None) AUTH_LEGACY_KEYS);
          s1 = (if wasAuthenticated then emitAuthError now msg s else s)
      in if sn_isAuthenticated s1 \<and> sn_user s1 \<noteq> None then s1 else signed_out s1)"

definition check_finish ::
    "int \<Rightarrow> nat \<Rightarrow> bool \<Rightarrow> bool \<Rightarrow> current_user_result \<Rightarrow> session_state \<Rightarrow> session_state" where
  \<comment> \<open>after the last \<open>await\<close>; only the latest run may change the session\<close>
  "check_finish now run guestMode wasAuthenticated r s =
     (if run \<noteq> authCheckRunId s then s
      else check_settled
        (case r of
           CurSuccess u \<Rightarrow> check_succeeded guestMode u s
         | CurAuthError m \<Rightarrow> if guestMode then enter_guest s else check_rejected wasAuthenticated m s
         | CurNetworkError m \<Rightarrow> if guestMode then enter_guest s else check_unreachable now wasAuthenticated m s))"

definition check_resume :: "int \<Rightarrow> task \<Rightarrow> bool \<Rightarrow> thrown + api_response \<Rightarrow> session_state \<Rightarrow> session_state" where
  "check_resume now t online outcome s =
     (case t of
        CheckTask run guestMode wasAuthenticated email retrying \<Rightarrow>
          (let r = fetchCurrentUser online outcome email; s1 = drop_task t s in
           case r of
             CurNetworkError _ \<Rightarrow>
               if \<not> retrying then add_task (CheckTask run guestMode wasAuthenticated email True) s1
               else check_finish now run guestMode wasAuthenticated r s1
           | _ \<Rightarrow> check_finish now run guestMode wasAuthenticated r s1)
      | _ \<Rightarrow> s)"

section \<open>Login, registration, logout, guest mode\<close>

definition needsUserHydration :: "user \<Rightarrow> bool" where
  "needsUserHydration candidateUser \<longleftrightarrow>
     trim (user_id candidateUser) = []
     \<or> (trim (opt_str (user_firstName candidateUser)) = [] \<and> trim (opt_str (user_lastName candidateUser)) = [])"

definition hydrate_or_persist :: "user \<Rightarrow> ustr \<Rightarrow> session_state \<Rightarrow> session_state" where
  "hydrate_or_persist candidateUser fallbackEmail s =
     (if needsUserHydration candidateUser
      then add_task (HydrateTask candidateUser (or_else (user_email candidateUser) fallbackEmail)) s
      else persistAuthenticatedSession candidateUser s)"

definition hydrate_resume :: "task \<Rightarrow> bool \<Rightarrow> thrown + api_response \<Rightarrow> session_state \<Rightarrow> session_state" where
  "hydrate_resume t online outcome s =
     (case t of
        HydrateTask candidateUser email \<Rightarrow>
          (case fetchCurrentUser online outcome email of
             CurSuccess u \<Rightarrow> persistAuthenticatedSession u (drop_task t s)
           | CurNetworkError m \<Rightarrow>
               persistAuthenticatedSession candidateUser ((drop_task t s)\<lparr> sn_authError := Some m \<rparr>)
           | CurAuthError m \<Rightarrow>
               setSignedOutState (Some (normalizeMessage m SESSION_EXPIRED_MESSAGE))
                 (clearAuthStorage (drop_task t s)))
      | _ \<Rightarrow> s)"

definition login_start :: "ustr \<Rightarrow> session_state \<Rightarrow> session_state" where
  "login_start email s = add_task (LoginTask email) (s\<lparr> sn_authError := Some [] \<rparr>)"

definition ar_payload :: "auth_result \<Rightarrow> jval" where
  "ar_payload r = (case ar_user r of None \<Rightarrow> Undef | Some u \<Rightarrow> u)"

definition login_resume :: "task \<Rightarrow> thrown + auth_result \<Rightarrow> session_state \<Rightarrow> session_state" where
  "login_resume t outcome s0 =
     (case t of
        LoginTask email \<Rightarrow>
          (let s = drop_task t s0 in
           case outcome of
             Inl e \<Rightarrow> s\<lparr> sn_authError := Some (normalizeMessage (getErrorMessage e) (U ''Login failed. Please try again.'')) \<rparr>
           | Inr r \<Rightarrow>
               if \<not> ar_success r
               then s\<lparr> sn_authError := Some
                      (if ar_requiresEmailVerification r
                       then or_else (opt_str (ar_message r)) (U ''Please verify your email address before logging in.'')
                       else normalizeMessage (opt_str (ar_message r))
                         (U ''Login failed. Please check your credentials and try again.'')) \<rparr>
               else if ar_requiresTwoFactor r
               then s\<lparr> sn_authError := Some (normalizeMessage (opt_str (ar_message r))
                      (U ''Two-factor verification is required. Please sign in from the login page.'')) \<rparr>
               else hydrate_or_persist (resolveAuthUser (ar_payload r) (email_fallback email)) email s)
      | _ \<Rightarrow> s0)"

definition register_start :: "ustr \<Rightarrow> ustr \<Rightarrow> session_state \<Rightarrow> session_state" where
  "register_start email name s = add_task (RegisterTask email name) (s\<lparr> sn_authError := Some [] \<rparr>)"

definition register_resume :: "task \<Rightarrow> thrown + auth_result \<Rightarrow> session_state \<Rightarrow> session_state" where
  \<comment> \<open>\<open>authApi.register\<close> reports \<open>{ success: true, data }\<close> or \<open>{ success: false, error: message }\<close>\<close>
  "register_resume t outcome s0 =
     (case t of
        RegisterTask email name \<Rightarrow>
          (let s = drop_task t s0 in
           case outcome of
             Inl e \<Rightarrow> s\<lparr> sn_authError := Some (normalizeMessage (getErrorMessage e)
                      (U ''Registration failed. Please try again.'')) \<rparr>
           | Inr r \<Rightarrow>
               if ar_success r
               then hydrate_or_persist
                      (resolveAuthUser (ar_payload r)
                        ((email_fallback email)\<lparr> fb_firstName := fst (split_name name),
                           fb_lastName := snd (split_name name), fb_name := or_else name email \<rparr>)) email s
               else s\<lparr> sn_authError := Some (normalizeMessage (opt_str (ar_message r))
                      (U ''Registration failed. Please verify your details and try again.'')) \<rparr>)
      | _ \<Rightarrow> s0)"

definition logout :: "session_state \<Rightarrow> session_state" where
  "logout s =
     (setSignedOutState None (clearAuthStorage
        (s\<lparr> authCheckRunId := authCheckRunId s + 1,
           localSt := setItem (localSt s) AUTH_LOGOUT_KEY (U ''true'') \<rparr>)))\<lparr> sn_loading := False \<rparr>"

definition loginAsGuest_start :: "session_state \<Rightarrow> session_state" where
  "loginAsGuest_start s = add_task GuestTask (s\<lparr> authCheckRunId := authCheckRunId s + 1 \<rparr>)"

definition loginAsGuest_resume :: "session_state \<Rightarrow> session_state" where
  "loginAsGuest_resume s0 =
     (let s = clearAuthStorage (drop_task GuestTask s0) in
      (signed_out s)\<lparr> localSt := setItem (removeItem (localSt s) AUTH_LOGOUT_KEY) AUTH_GUEST_KEY (U ''true''),
        sn_isGuest := True, sn_authError := None \<rparr>)"

section \<open>Events\<close>

definition isAuthStorageKey :: "ustr option \<Rightarrow> bool" where
  \<comment> \<open>\<open>None\<close>: the store was cleared\<close>
  "isAuthStorageKey key =
     (case key of
        None \<Rightarrow> True
      | Some k \<Rightarrow> k = AUTH_GUEST_KEY \<or> k = AUTH_LOGOUT_KEY \<or> k = AUTH_SESSION_HINT_KEY
          \<or> k = AUTH_ADMIN_ACCESS_HINT_KEY \<or> k \<in> set AUTH_LEGACY_KEYS)"

definition handleStorageChange :: "ustr option \<Rightarrow> storage \<Rightarrow> session_state \<Rightarrow> session_state" where
  \<comment> \<open>another tab changed the store, which now is \<open>ls\<close>\<close>
  "handleStorageChange key ls s =
     (let s1 = s\<lparr> localSt := ls \<rparr> in if isAuthStorageKey key then checkAuth False s1 else s1)"

definition revalidateSession :: "bool \<Rightarrow> int \<Rightarrow> session_state \<Rightarrow> session_state" where
  "revalidateSession online now s =
     (if \<not> online then emitAuthError now OFFLINE_SESSION_MESSAGE s
      else if \<not> canRevalidateSession now (lastRevalidateAt s) (Fin (of_nat (netFailures s))) then s
      else checkAuth False (s\<lparr> lastRevalidateAt := now \<rparr>))"

definition handleOnline :: "session_state \<Rightarrow> session_state" where
  "handleOnline s = checkAuth False (s\<lparr> netFailures := 0, lastRevalidateAt := 0 \<rparr>)"

definition handleOffline :: "int \<Rightarrow> session_state \<Rightarrow> session_state" where
  "handleOffline now s = emitAuthError now OFFLINE_SESSION_MESSAGE s"

text \<open>The steps; the label says what happened.\<close>

datatype session_label =
    Checked | OAuthReturn | Resumed task | LoginAsked | RegisterAsked | SessionSet
  | LoggedOut | GuestAsked | OtherTab | Other

inductive session_step :: "session_state \<Rightarrow> session_label \<Rightarrow> session_state \<Rightarrow> bool" where
  check: "session_step s Checked (checkAuth False s)"
| oauth: "session_step s OAuthReturn (checkAuth True s)"
| check_reply: "t \<in> set (tasks s) \<Longrightarrow> t = CheckTask run g w e rt \<Longrightarrow>
    session_step s (Resumed t) (check_resume now t online outcome s)"
| hydrate_reply: "t \<in> set (tasks s) \<Longrightarrow> t = HydrateTask u e \<Longrightarrow>
    session_step s (Resumed t) (hydrate_resume t online outcome s)"
| login: "session_step s LoginAsked (login_start email s)"
| login_reply: "t \<in> set (tasks s) \<Longrightarrow> t = LoginTask e \<Longrightarrow>
    session_step s (Resumed t) (login_resume t reply s)"
| register: "session_step s RegisterAsked (register_start email name s)"
| register_reply: "t \<in> set (tasks s) \<Longrightarrow> t = RegisterTask e n \<Longrightarrow>
    session_step s (Resumed t) (register_resume t reply s)"
| set_session: "session_step s SessionSet (persistAuthenticatedSession u s)"
| logout: "session_step s LoggedOut (logout s)"
| guest: "session_step s GuestAsked (loginAsGuest_start s)"
| guest_reply: "GuestTask \<in> set (tasks s) \<Longrightarrow> session_step s (Resumed GuestTask) (loginAsGuest_resume s)"
| other_tab: "session_step s OtherTab (handleStorageChange key ls s)"
| revalidate: "session_step s Checked (revalidateSession online now s)"
| online: "session_step s Checked (handleOnline s)"
| offline: "session_step s Other (handleOffline now s)"
| clear_error: "session_step s Other (s\<lparr> sn_authError := None \<rparr>)"

inductive session_run :: "session_state \<Rightarrow> session_label list \<Rightarrow> session_state \<Rightarrow> bool" where
  start: "session_run s [] s"
| step: "session_run s ls t \<Longrightarrow> session_step t l u \<Longrightarrow> session_run s (ls @ [l]) u"

inductive session_reachable :: "session_state \<Rightarrow> bool" where
  init: "session_reachable (initial_session ls ss)"
| more: "session_reachable s \<Longrightarrow> session_step s l t \<Longrightarrow> session_reachable t"

inductive_cases session_stepE: "session_step s l t"

section \<open>Invariant\<close>

definition run_of_ok :: "nat \<Rightarrow> task \<Rightarrow> bool" where
  "run_of_ok n t = (case t of CheckTask run _ _ _ _ \<Rightarrow> run \<le> n | _ \<Rightarrow> True)"

definition session_inv :: "session_state \<Rightarrow> bool" where
  "session_inv s \<longleftrightarrow>
     (sn_isAuthenticated s \<longleftrightarrow> sn_user s \<noteq> None)
     \<and> (sn_isGuest s \<longrightarrow> \<not> sn_isAuthenticated s)
     \<and> netFailures s \<le> AUTH_MAX_CONSECUTIVE_NETWORK_FAILURES
     \<and> (\<forall>t \<in> set (tasks s). run_of_ok (authCheckRunId s) t)"

lemma run_of_ok_simps [simp]:
  "run_of_ok n (CheckTask run g w e rt) = (run \<le> n)" "run_of_ok n (LoginTask e)"
  "run_of_ok n (RegisterTask e nm)" "run_of_ok n (HydrateTask u e)" "run_of_ok n GuestTask"
  by (simp_all add: run_of_ok_def)

lemma run_of_ok_mono: "run_of_ok m t \<Longrightarrow> m \<le> n \<Longrightarrow> run_of_ok n t"
  by (cases t) auto

lemmas session_steps = clearAuthStorage_def setSignedOutState_def signed_out_def emitAuthError_def Let_def
  persistAuthenticatedSession_def add_task_def drop_task_def check_settled_def enter_guest_def

lemma next_failures_le: "getNextConsecutiveNetworkFailures n o1 \<le> AUTH_MAX_CONSECUTIVE_NETWORK_FAILURES"
  by (simp add: getNextConsecutiveNetworkFailures_def)

lemma session_inv_drop: "session_inv s \<Longrightarrow> session_inv (drop_task t s)"
  by (auto simp: session_inv_def drop_task_def dest: notin_set_remove1)

lemma session_inv_add: "session_inv s \<Longrightarrow> run_of_ok (authCheckRunId s) t \<Longrightarrow> session_inv (add_task t s)"
  by (auto simp: session_inv_def add_task_def)

lemma session_inv_emit [simp]: "session_inv (emitAuthError now m s) = session_inv s"
  by (simp add: session_inv_def emitAuthError_def Let_def)

lemma session_inv_local [simp]:
  "session_inv (s\<lparr> localSt := ls \<rparr>) = session_inv s"
  "session_inv (s\<lparr> sn_authError := e \<rparr>) = session_inv s"
  "session_inv (s\<lparr> lastRevalidateAt := now \<rparr>) = session_inv s"
  "session_inv (clearAuthStorage s) = session_inv s"
  "session_inv (check_settled s) = session_inv s"
  by (simp_all add: session_inv_def clearAuthStorage_def check_settled_def)

lemma session_inv_signed_out: "session_inv s \<Longrightarrow> session_inv (setSignedOutState m s)"
  by (simp add: session_inv_def setSignedOutState_def signed_out_def)

lemma session_inv_persist: "session_inv s \<Longrightarrow> session_inv (persistAuthenticatedSession u s)"
  by (simp add: session_inv_def persistAuthenticatedSession_def)

lemma session_inv_enter_guest: "session_inv s \<Longrightarrow> session_inv (enter_guest s)"
  by (simp add: session_inv_def enter_guest_def signed_out_def)

lemma session_inv_begin: "session_inv s \<Longrightarrow> session_inv (check_begin oauth s)"
  by (auto simp: session_inv_def check_begin_def intro: run_of_ok_mono)

lemma session_inv_checkAuth: "session_inv s \<Longrightarrow> session_inv (checkAuth oauth s)"
  by (simp add: checkAuth_def Let_def session_inv_begin session_inv_signed_out session_inv_enter_guest
      session_inv_add)

lemma session_inv_check_finish:
  assumes "session_inv s"
  shows "session_inv (check_finish now run g w r s)"
proof -
  have "session_inv (check_succeeded g u s)" for u
    using assms by (auto simp: session_inv_def check_succeeded_def)
  moreover have "session_inv (check_rejected w m s)" for m
    using assms unfolding check_rejected_def
    by (intro session_inv_signed_out) (auto simp: session_inv_def clearAuthStorage_def)
  moreover have "session_inv (check_unreachable now w m s)" for m
  proof -
    have "session_inv (s\<lparr> netFailures := getNextConsecutiveNetworkFailures n CheckNetworkError \<rparr>)" for n
      using assms next_failures_le by (auto simp: session_inv_def)
    moreover have "session_inv t \<Longrightarrow> session_inv (signed_out t)" for t
      by (simp add: session_inv_def signed_out_def)
    ultimately show ?thesis by (simp add: check_unreachable_def Let_def)
  qed
  ultimately show ?thesis
    using assms by (cases r) (simp_all add: check_finish_def session_inv_enter_guest)
qed

lemma session_inv_check_resume:
  "session_inv s \<Longrightarrow> t \<in> set (tasks s) \<Longrightarrow> t = CheckTask run g w e rt \<Longrightarrow>
     session_inv (check_resume now t online outcome s)"
proof -
  assume s: "session_inv s" and t: "t \<in> set (tasks s)" "t = CheckTask run g w e rt"
  then have r: "run \<le> authCheckRunId s" by (auto simp: session_inv_def)
  have "session_inv (add_task (CheckTask run g w e True) (drop_task t s))"
  proof (rule session_inv_add)
    show "session_inv (drop_task t s)" using s by (rule session_inv_drop)
  qed (simp add: drop_task_def r)
  then show ?thesis
    using s by (cases rt; cases "fetchCurrentUser online outcome e")
      (simp_all add: check_resume_def t(2) Let_def session_inv_check_finish session_inv_drop)
qed

lemma session_inv_hydrate: "session_inv s \<Longrightarrow> session_inv (hydrate_or_persist u e s)"
  by (simp add: hydrate_or_persist_def session_inv_add session_inv_persist)

lemma session_inv_step: "session_step s l t \<Longrightarrow> session_inv s \<Longrightarrow> session_inv t"
proof (induction rule: session_step.induct)
  case (hydrate_reply t s u e online outcome)
  then show ?case
    by (cases "fetchCurrentUser online outcome e")
       (simp_all add: hydrate_resume_def session_inv_persist session_inv_signed_out session_inv_drop)
next
  case (login_reply t s e reply)
  then show ?case
    by (cases reply) (simp_all add: login_resume_def Let_def session_inv_hydrate session_inv_drop)
next
  case (register_reply t s e n reply)
  then show ?case
    by (cases reply) (simp_all add: register_resume_def Let_def session_inv_hydrate session_inv_drop)
next
  case (logout s)
  have "session_inv (s\<lparr> authCheckRunId := authCheckRunId s + 1, localSt := ls \<rparr>)" for ls
    using logout by (auto simp: session_inv_def intro: run_of_ok_mono)
  then show ?case
    by (simp add: logout_def) (simp add: session_inv_def setSignedOutState_def signed_out_def clearAuthStorage_def)
next
  case (guest s)
  then show ?case by (auto simp: session_inv_def loginAsGuest_start_def add_task_def intro: run_of_ok_mono)
next
  case (guest_reply s)
  then have "session_inv (clearAuthStorage (drop_task GuestTask s))" by (simp add: session_inv_drop)
  then show ?case by (simp add: loginAsGuest_resume_def Let_def session_inv_def signed_out_def)
next
  case (online s)
  then have "session_inv (s\<lparr> netFailures := 0, lastRevalidateAt := 0 \<rparr>)" by (auto simp: session_inv_def)
  then show ?case by (simp add: handleOnline_def session_inv_checkAuth)
qed (simp_all add: session_inv_checkAuth session_inv_check_resume session_inv_persist session_inv_add
       login_start_def register_start_def handleStorageChange_def revalidateSession_def handleOffline_def Let_def)

lemma session_inv_reachable: "session_reachable s \<Longrightarrow> session_inv s"
proof (induction rule: session_reachable.induct)
  case (init ls ss)
  then show ?case by (simp add: session_inv_def initial_session_def)
next
  case (more s l t)
  then show ?case by (blast intro: session_inv_step)
qed

section \<open>Stored hints\<close>

definition hints_ok :: "session_state \<Rightarrow> bool" where
  "hints_ok s \<longleftrightarrow> (\<forall>u. sn_user s = Some u \<longrightarrow>
     hasStoredAuthSessionHint (localSt s)
     \<and> getItem (localSt s) AUTH_ADMIN_ACCESS_HINT_KEY = Some (bool_text (userHasAdminAccess (Some u))))"

lemma auth_keys_distinct [simp]:
  "AUTH_LOGOUT_KEY \<noteq> AUTH_SESSION_HINT_KEY" "AUTH_LOGOUT_KEY \<noteq> AUTH_ADMIN_ACCESS_HINT_KEY"
  "AUTH_LOGOUT_KEY \<noteq> AUTH_GUEST_KEY" "AUTH_SESSION_HINT_KEY \<noteq> AUTH_ADMIN_ACCESS_HINT_KEY"
  "AUTH_SESSION_HINT_KEY \<noteq> AUTH_GUEST_KEY" "AUTH_ADMIN_ACCESS_HINT_KEY \<noteq> AUTH_GUEST_KEY"
  "AUTH_SESSION_HINT_KEY \<noteq> AUTH_LOGOUT_KEY" "AUTH_ADMIN_ACCESS_HINT_KEY \<noteq> AUTH_LOGOUT_KEY"
  "AUTH_GUEST_KEY \<noteq> AUTH_LOGOUT_KEY" "AUTH_ADMIN_ACCESS_HINT_KEY \<noteq> AUTH_SESSION_HINT_KEY"
  "AUTH_GUEST_KEY \<noteq> AUTH_SESSION_HINT_KEY" "AUTH_GUEST_KEY \<noteq> AUTH_ADMIN_ACCESS_HINT_KEY"
  by (simp_all add: auth_keys)

lemma getItem_clear_local:
  "getItem (clear_local ls) AUTH_LOGOUT_KEY = getItem ls AUTH_LOGOUT_KEY"
  by (simp add: clear_local_def clearAuthSessionHint_def web.get_del web.get_fold_del)
     (simp add: auth_keys)

lemma getItem_persist_hints:
  "getItem (persist_hints u ls) k =
     (if k = AUTH_ADMIN_ACCESS_HINT_KEY then Some (bool_text (userHasAdminAccess (Some u)))
      else if k = AUTH_SESSION_HINT_KEY then Some (U ''true'') else getItem ls k)"
  by (simp add: persist_hints_def persistAdminAccessHint_def persistAuthSessionHint_def web.get_put
      userHasAdminAccess_def)

lemma hints_ok_persist [simp]: "hints_ok (s\<lparr> localSt := persist_hints u ls, sn_user := Some u \<rparr>)"
  by (simp add: hints_ok_def hasStoredAuthSessionHint_def getItem_persist_hints)

lemma hints_ok_no_user: "sn_user s = None \<Longrightarrow> hints_ok s"
  by (simp add: hints_ok_def)

lemma hints_ok_cong:
  "sn_user t = sn_user s \<Longrightarrow> localSt t = localSt s \<Longrightarrow> hints_ok t = hints_ok s"
  by (simp add: hints_ok_def)

lemma hints_ok_irrelevant [simp]:
  "hints_ok (add_task t s) = hints_ok s" "hints_ok (drop_task t s) = hints_ok s"
  "hints_ok (check_settled s) = hints_ok s" "hints_ok (emitAuthError now m s) = hints_ok s"
  "hints_ok (s\<lparr> sn_authError := e \<rparr>) = hints_ok s" "hints_ok (s\<lparr> netFailures := n \<rparr>) = hints_ok s"
  "hints_ok (s\<lparr> lastRevalidateAt := i \<rparr>) = hints_ok s"
  by (auto simp: add_task_def drop_task_def check_settled_def emitAuthError_def Let_def intro!: hints_ok_cong)

lemma sn_user_signed_out [simp]:
  "sn_user (signed_out s) = None" "sn_user (setSignedOutState m s) = None" "sn_user (enter_guest s) = None"
  by (simp_all add: signed_out_def setSignedOutState_def enter_guest_def)

lemma hints_ok_signed_out [simp]:
  "hints_ok (setSignedOutState m s)" "hints_ok (enter_guest s)" "hints_ok (signed_out s)"
  by (simp_all add: hints_ok_no_user)

lemma hints_ok_session [simp]: "hints_ok (persistAuthenticatedSession u s)"
  by (simp add: persistAuthenticatedSession_def hints_ok_def hasStoredAuthSessionHint_def getItem_persist_hints)







section \<open>After logging out\<close>

definition stale_check :: "nat \<Rightarrow> task \<Rightarrow> bool" where
  "stale_check n t = (case t of CheckTask run _ _ _ _ \<Rightarrow> run < n | _ \<Rightarrow> False)"

definition signed_off :: "session_state \<Rightarrow> bool" where
  "signed_off s \<longleftrightarrow> \<not> sn_isAuthenticated s \<and> sn_user s = None
     \<and> getItem (localSt s) AUTH_LOGOUT_KEY = Some (U ''true'')
     \<and> (\<forall>t \<in> set (tasks s). stale_check (authCheckRunId s) t)"

fun is_passive :: "session_label \<Rightarrow> bool" where
  \<comment> \<open>not an explicit act of signing in, of entering guest mode, or of another tab\<close>
  "is_passive Checked = True"
| "is_passive (Resumed t) = True"
| "is_passive LoggedOut = True"
| "is_passive Other = True"
| "is_passive _ = False"

lemma stale_check_mono: "stale_check m t \<Longrightarrow> m \<le> n \<Longrightarrow> stale_check n t"
  by (cases t) (auto simp: stale_check_def)

lemma signed_off_emit [simp]: "signed_off (emitAuthError now m s) = signed_off s"
  by (simp add: signed_off_def emitAuthError_def Let_def)

lemma signed_off_begin: "signed_off s \<Longrightarrow> signed_off (check_begin False s)"
  by (auto simp: signed_off_def check_begin_def intro: stale_check_mono)

lemma signed_off_cleared: "signed_off s \<Longrightarrow> signed_off (setSignedOutState m (clearAuthStorage s))"
  by (simp add: signed_off_def setSignedOutState_def signed_out_def clearAuthStorage_def getItem_clear_local)

lemma signed_off_checkAuth: "signed_off s \<Longrightarrow> signed_off (checkAuth False s)"
proof -
  assume s: "signed_off s"
  have "signed_off (check_begin False s)" using s by (rule signed_off_begin)
  then have "signed_off (setSignedOutState None (clearAuthStorage (check_begin False s)))"
    and "getItem (localSt (check_begin False s)) AUTH_LOGOUT_KEY = Some (U ''true'')"
    by (simp_all add: signed_off_cleared) (simp add: signed_off_def)
  then show ?thesis by (simp add: checkAuth_def Let_def) (simp add: signed_off_def check_settled_def)
qed

lemma signed_off_resume:
  assumes "signed_off s" and "t \<in> set (tasks s)"
  shows "signed_off (check_resume now t online outcome s)"
proof (cases t)
  case (CheckTask run g w e rt)
  with assms have run: "run < authCheckRunId s" by (auto simp: signed_off_def stale_check_def)
  have d: "signed_off (drop_task t s)"
    using assms(1) by (auto simp: signed_off_def drop_task_def dest: notin_set_remove1)
  have a: "signed_off (add_task (CheckTask run g w e True) (drop_task t s))"
    using d run by (simp add: signed_off_def add_task_def stale_check_def drop_task_def)
  have f: "check_finish now run g w r (drop_task x s) = drop_task x s" for r x
    using run by (simp add: check_finish_def drop_task_def)
  show ?thesis
    using a d by (cases rt; cases "fetchCurrentUser online outcome e")
      (simp_all add: check_resume_def CheckTask Let_def f)
qed (use assms in \<open>simp_all add: check_resume_def\<close>)

lemma signed_off_step: "session_step s l t \<Longrightarrow> signed_off s \<Longrightarrow> is_passive l \<Longrightarrow> signed_off t"
proof (induction rule: session_step.induct)
  case (check_reply t s run g w e rt now online outcome)
  then show ?case by (simp add: signed_off_resume)
next
  case (logout s)
  then have "signed_off (s\<lparr> authCheckRunId := authCheckRunId s + 1,
      localSt := setItem (localSt s) AUTH_LOGOUT_KEY (U ''true'') \<rparr>)"
    by (auto simp: signed_off_def web.get_put intro: stale_check_mono)
  from signed_off_cleared [OF this, of None] show ?case
    by (simp add: logout_def) (simp add: signed_off_def)
next
  case (online s)
  then have "signed_off (s\<lparr> netFailures := 0, lastRevalidateAt := 0 \<rparr>)" by (simp add: signed_off_def)
  then show ?case by (simp add: handleOnline_def signed_off_checkAuth)
next
  case (revalidate s online now)
  then have "signed_off (s\<lparr> lastRevalidateAt := now \<rparr>)" by (simp add: signed_off_def)
  with revalidate show ?case by (simp add: revalidateSession_def signed_off_checkAuth)
next
  case (clear_error s)
  then show ?case by (simp add: signed_off_def)
qed (simp_all add: signed_off_checkAuth handleOffline_def, (force simp: signed_off_def stale_check_def)+)

lemma signed_off_run:
  "session_run s ls t \<Longrightarrow> signed_off s \<Longrightarrow> \<forall>l \<in> set ls. is_passive l \<Longrightarrow> signed_off t"
  by (induction rule: session_run.induct) (auto intro: signed_off_step)

section \<open>Properties\<close>

text \<open>
  Claim C8. In every reachable state, whatever the interleaving of checks, logins, registrations,
  guest mode, logouts, replies and other tabs: the session is authenticated exactly when there is
  a user, guest mode and an authenticated session exclude each other, and the count of network
  failures behind the back-off stays within its bound.
\<close>

theorem session_consistent:
  assumes "session_reachable s"
  shows "(sn_isAuthenticated s \<longleftrightarrow> sn_user s \<noteq> None) \<and> (sn_isGuest s \<longrightarrow> \<not> sn_isAuthenticated s)
    \<and> netFailures s \<le> 8"
  using session_inv_reachable [OF assms]
  by (auto simp: session_inv_def AUTH_MAX_CONSECUTIVE_NETWORK_FAILURES_def)

definition hinted_storage :: storage where
  "hinted_storage = setItem (\<lambda>_. None) AUTH_SESSION_HINT_KEY (U ''true'')"

definition sample_user :: user where
  "sample_user = \<lparr> user_id = U ''12'', user_email = U ''a@b.jo'', user_firstName = Some (U ''Lina''),
     user_lastName = None, user_name = U ''Lina'', user_avatar = None, user_role = RegularUser,
     user_roleName = None, user_hasAdminAccess = None, user_permissions = None \<rparr>"

definition signed_in_sample :: session_state where
  "signed_in_sample = persistAuthenticatedSession sample_user (initial_session (\<lambda>_. None) (\<lambda>_. None))"

theorem session_consistent_witness:
  "sn_isAuthenticated signed_in_sample = (sn_user signed_in_sample \<noteq> None)
   \<and> sn_isAuthenticated signed_in_sample \<and> \<not> sn_isGuest signed_in_sample \<and> netFailures signed_in_sample \<le> 8"
proof -
  have "session_reachable signed_in_sample"
    unfolding signed_in_sample_def
    by (rule session_reachable.more [OF session_reachable.init session_step.set_session])
  from session_consistent [OF this] show ?thesis
    by (simp add: signed_in_sample_def persistAuthenticatedSession_def)
qed

text \<open>
  Claim C9. Logging out is final: if no login, registration or guest switch is under way, then
  after a logout no check, late reply, focus, reconnect or repeated logout signs the user in
  again, and the logout flag survives, until the user signs in, enters guest mode, returns from
  the OAuth redirect, or another tab changes the store.
\<close>

theorem logout_is_final:
  assumes "session_reachable s"
    and "\<forall>t \<in> set (tasks s). \<exists>run g w e rt. t = CheckTask run g w e rt"
    and "session_run (logout s) ls t" and "\<forall>l \<in> set ls. is_passive l"
  shows "\<not> sn_isAuthenticated t \<and> sn_user t = None
    \<and> getItem (localSt t) AUTH_LOGOUT_KEY = Some (U ''true'')"
proof -
  have "stale_check (authCheckRunId s + 1) x" if "x \<in> set (tasks s)" for x
    using session_inv_reachable [OF assms(1)] assms(2) that
    by (fastforce simp: session_inv_def stale_check_def)
  then have "signed_off (logout s)"
    by (simp add: logout_def signed_off_def setSignedOutState_def signed_out_def clearAuthStorage_def
        getItem_clear_local web.get_put)
  from signed_off_run [OF assms(3) this assms(4)] show ?thesis by (simp add: signed_off_def)
qed

theorem logout_is_final_witness:
  "\<not> sn_isAuthenticated (handleOnline (logout signed_in_sample))"
proof -
  have r: "session_reachable signed_in_sample"
    unfolding signed_in_sample_def
    by (rule session_reachable.more [OF session_reachable.init session_step.set_session])
  have n: "\<forall>t \<in> set (tasks signed_in_sample). \<exists>run g w e rt. t = CheckTask run g w e rt"
    by (simp add: signed_in_sample_def persistAuthenticatedSession_def initial_session_def)
  have u: "session_run (logout signed_in_sample) ([] @ [Checked]) (handleOnline (logout signed_in_sample))"
    by (rule session_run.step [OF session_run.start session_step.online])
  from logout_is_final [OF r n u] show ?thesis by simp
qed



text \<open>
  A check of the session that began before a login is still the latest run after it, so
  its rejection signs the new user out and erases the stored hints: a login does not supersede the
  checks under way, as a logout does.
\<close>

theorem login_undone_by_earlier_check:
  "\<exists>s. session_reachable s \<and> sn_user s = Some sample_user \<and> sn_isAuthenticated s
     \<and> (\<exists>t \<in> set (tasks s).
          sn_user (check_resume 0 t True (Inr (ApiErr \<lparr> err_code = U ''HTTP_401'', err_message = [], err_details = Null \<rparr>)) s)
            = None)"
proof -
  let ?started = "checkAuth False (initial_session hinted_storage (\<lambda>_. None))"
  let ?s = "persistAuthenticatedSession sample_user ?started"
  let ?t = "CheckTask 1 False False [] False"
  let ?rej = "Inr (ApiErr \<lparr> err_code = U ''HTTP_401'', err_message = [], err_details = Null \<rparr>)"
  have s0: "?started = add_task ?t (check_begin False (initial_session hinted_storage (\<lambda>_. None)))"
    by (simp add: checkAuth_def Let_def check_begin_def initial_session_def hinted_storage_def web.get_put
        hasAnySessionHint_def hasStoredAuthSessionHint_def) (simp add: getItem_def)
  have r: "session_reachable ?s"
    by (rule session_reachable.more [OF session_reachable.more [OF session_reachable.init session_step.check]
          session_step.set_session])
  have m: "?t \<in> set (tasks ?s)"
    unfolding s0 by (simp add: persistAuthenticatedSession_def add_task_def check_begin_def initial_session_def)
  have "isRetryableAuthError (Some \<lparr> err_code = U ''HTTP_401'', err_message = [], err_details = Null \<rparr>) = False"
    by code_simp
  then have "\<exists>msg. fetchCurrentUser True ?rej [] = CurAuthError msg"
    by (simp add: fetchCurrentUser_def)
  moreover have "authCheckRunId (drop_task ?t ?s) = 1"
    unfolding s0 by (simp add: drop_task_def persistAuthenticatedSession_def add_task_def check_begin_def
        initial_session_def)
  ultimately have "sn_user (check_resume 0 ?t True ?rej ?s) = None"
    by (auto simp: check_resume_def check_finish_def Let_def check_settled_def check_rejected_def)
  moreover have "sn_user ?s = Some sample_user" "sn_isAuthenticated ?s"
    by (simp_all add: persistAuthenticatedSession_def)
  ultimately show ?thesis using r m by blast
qed

text \<open>
  Entering guest mode while the first session check is under way leaves the application
  loading: the check is superseded and nothing that is still to run clears the loading flag.
\<close>

theorem guest_mode_leaves_loading:
  "\<exists>s. session_reachable s \<and> sn_isGuest s \<and> sn_loading s \<and> tasks s = []"
proof -
  let ?started = "checkAuth False (initial_session hinted_storage (\<lambda>_. None))"
  let ?t = "CheckTask 1 False False [] False"
  let ?guest = "loginAsGuest_resume (loginAsGuest_start ?started)"
  let ?reply = "Inr (ApiOk (Obj []))"
  let ?final = "check_resume 0 ?t True ?reply ?guest"
  have st: "?started = add_task ?t (check_begin False (initial_session hinted_storage (\<lambda>_. None)))"
    by (simp add: checkAuth_def Let_def check_begin_def initial_session_def hinted_storage_def web.get_put
        hasAnySessionHint_def hasStoredAuthSessionHint_def) (simp add: getItem_def)
  have g: "session_reachable ?guest"
  proof (rule session_reachable.more)
    show "session_reachable (loginAsGuest_start ?started)"
      by (rule session_reachable.more [OF session_reachable.more [OF session_reachable.init session_step.check]
            session_step.guest])
    show "session_step (loginAsGuest_start ?started) (Resumed GuestTask) ?guest"
      by (rule session_step.guest_reply) (simp add: loginAsGuest_start_def add_task_def)
  qed
  have f: "tasks ?guest = [?t]" "sn_loading ?guest" "sn_isGuest ?guest" "authCheckRunId ?guest = 2"
    unfolding st
    by (simp_all add: loginAsGuest_resume_def loginAsGuest_start_def Let_def clearAuthStorage_def add_task_def
        drop_task_def signed_out_def check_begin_def initial_session_def)
  have "session_reachable ?final"
    by (rule session_reachable.more [OF g session_step.check_reply [OF _ refl]]) (simp add: f(1))
  moreover have "?final = drop_task ?t ?guest"
    by (simp add: check_resume_def fetchCurrentUser_def Let_def check_finish_def drop_task_def f(4))
  ultimately show ?thesis using f by (auto simp: drop_task_def intro: exI [of _ ?final])
qed

end
