(* ===== verification/PostMapping.thy ===== *)
theory PostMapping
  imports KeyStore AuthPolicy Marketplace "HOL-Library.Word"
begin

text \<open>
  Listings between the wire and the client: parsing of post payloads
  (\<open>services/api/schemas/postSchema.ts\<close>), their mapping to \<open>post\<close> (\<open>services/api/posts/mappers.ts\<close>)
  and the search endpoint (\<open>services/api/search.ts\<close>).

  A raw post is the object \<open>parseRawPost\<close> builds.  The price and the view count of a \<open>post\<close> are
  rationals: an infinite JSON number (a literal beyond the double range) counts as 0 here.
\<close>

section \<open>postSchema.ts\<close>

definition raw_post_fields :: "(string \<times> string list) list" where
  \<comment> \<open>the keys of a raw post, each with the alternatives it is read from\<close>
  "raw_post_fields =
     [(''PostID'', [''PostID'', ''postID'', ''postId'']),
      (''postID'', [''postID'', ''postId'']),
      (''postId'', [''postId'']),
      (''id'', [''id'']),
      (''UserID'', [''UserID'', ''userID'', ''UserId'', ''userId'']),
      (''userID'', [''userID'', ''userId'']),
      (''UserId'', [''UserId'', ''userId'']),
      (''userId'', [''userId'']),
      (''SellerID'', [''SellerID'', ''SellerId'', ''sellerId'']),
      (''SellerId'', [''SellerId'', ''sellerId'']),
      (''sellerId'', [''sellerId'']),
      (''CategoryID'', [''CategoryID'', ''categoryID'', ''CategoryId'', ''categoryId'']),
      (''CategoryId'', [''CategoryId'', ''categoryId'']),
      (''categoryID'', [''categoryID'', ''categoryId'']),
      (''categoryId'', [''categoryId'']),
      (''Category'', [''Category'']),
      (''category'', [''category'']),
      (''Seller'', [''Seller'']),
      (''seller'', [''seller'']),
      (''PostTitle'', [''PostTitle'', ''postTitle'']),
      (''postTitle'', [''postTitle'']),
      (''name'', [''name'', ''postTitle'']),
      (''PostDescription'', [''PostDescription'', ''postDescription'']),
      (''postDescription'', [''postDescription'']),
      (''description'', [''description'', ''postDescription'']),
      (''Price'', [''Price'', ''price'']),
      (''price'', [''price'']),
      (''Location'', [''Location'']),
      (''location'', [''location'']),
      (''LocationAr'', [''LocationAr'']),
      (''locationAr'', [''locationAr'']),
      (''City'', [''City'']),
      (''CityId'', [''CityId'', ''cityId'']),
      (''cityId'', [''cityId'']),
      (''Area'', [''Area'']),
      (''area'', [''area'']),
      (''AreaAr'', [''AreaAr'']),
      (''areaAr'', [''areaAr'']),
      (''Phone'', [''Phone'']),
      (''phone'', [''phone'']),
      (''AreaId'', [''AreaId'', ''areaId'']),
      (''areaId'', [''areaId'']),
      (''PostImageURL'', [''PostImageURL'']),
      (''postImageURL'', [''postImageURL'']),
      (''ThumbnailImage'', [''ThumbnailImage'']),
      (''thumbnailImage'', [''thumbnailImage'']),
      (''thumbnailImageURL'', [''thumbnailImageURL'']),
      (''thumbnailImageUrl'', [''thumbnailImageUrl'']),
      (''Image'', [''Image'']),
      (''image'', [''image'']),
      (''Images'', [''Images'']),
      (''images'', [''images'']),
      (''CreatedAt'', [''CreatedAt'', ''createdAt'']),
      (''createdAt'', [''createdAt'']),
      (''Views'', [''Views'', ''views'']),
      (''views'', [''views'']),
      (''AverageRating'', [''AverageRating'']),
      (''averageRating'', [''averageRating'']),
      (''ReviewCount'', [''ReviewCount'']),
      (''reviewCount'', [''reviewCount'']),
      (''Status'', [''Status'', ''status'']),
      (''status'', [''status'']),
      (''IsDeleted'', [''IsDeleted'', ''isDeleted'']),
      (''isDeleted'', [''isDeleted''])]"

definition parseRawPost :: "jval \<Rightarrow> jval option" where
  "parseRawPost v =
     (case asRecord v of
        None \<Rightarrow> None
      | Some r \<Rightarrow> Some (Obj (map (\<lambda>(k, ks). (U k, flds r ks)) raw_post_fields)))"

definition parseRawPostsCollection :: "jval \<Rightarrow> jval list" where
  "parseRawPostsCollection v = (case v of Arr vs \<Rightarrow> List.map_filter parseRawPost vs | _ \<Rightarrow> [])"

record posts_envelope =
  envelope_posts :: "jval list"
  envelope_pagination :: jval

definition parsePostsEnvelope :: "jval \<Rightarrow> posts_envelope option" where
  "parsePostsEnvelope v =
     (case asRecord v of
        None \<Rightarrow> None
      | Some r \<Rightarrow>
          (let rawPosts = flds r [''posts'', ''Posts''] in
           case rawPosts of
             Arr _ \<Rightarrow> Some \<lparr> envelope_posts = parseRawPostsCollection rawPosts,
               envelope_pagination =
                 toRecord (coalesce [fld r ''pagination'', fld r ''Pagination'', Obj []]) \<rparr>
           | _ \<Rightarrow> None))"

definition parsePaginationPayload :: "jval \<Rightarrow> int \<Rightarrow> int \<Rightarrow> int \<Rightarrow> pagination" where
  "parsePaginationPayload v fallbackPage fallbackRowsPerPage fallbackTotalPosts =
     (let r = toRecord v;
          page = toIntegerOrDefault (fld r ''currentPage'') fallbackPage 1;
          perPage = toIntegerOrDefault (fld r ''postsPerPage'') fallbackRowsPerPage 1;
          total = toIntegerOrDefault (fld r ''totalPosts'') fallbackTotalPosts 0;
          pages = toIntegerOrDefault (fld r ''totalPages'')
            (if total > 0 then \<lceil>(of_int total :: rat) / of_int perPage\<rceil> else 0) 0
      in \<lparr> currentPage = page, totalPages = pages, totalPosts = total, postsPerPage = perPage \<rparr>)"

section \<open>mappers.ts: images\<close>

definition normalizeImagePath :: "ustr \<Rightarrow> ustr \<Rightarrow> ustr" where
  "normalizeImagePath host v =
     (let trimmed_v = trim v in
      if length trimmed_v = 0 then []
      else if starts_with trimmed_v (U ''/'') then host @ trimmed_v
      else if starts_with trimmed_v (U ''uploads/'')
      then (let backendHost = (if ends_with host (U ''/'') then js_slice_end host 1
                               else host)
            in backendHost @ U ''/'' @ trimmed_v)
      else trimmed_v)"

definition looksLikeSplitDataPrefix :: "ustr \<Rightarrow> bool" where
  "looksLikeSplitDataPrefix current \<longleftrightarrow>
     starts_with current (U ''data:'') \<and> js_includes current (U '';base64'') \<and> \<not> js_includes current (U '','')"

definition is_split_payload :: "ustr \<Rightarrow> bool" where
  "is_split_payload payload \<longleftrightarrow>
     payload \<noteq> [] \<and> \<not> starts_with payload (U ''http://'') \<and> \<not> starts_with payload (U ''https://'')
     \<and> \<not> starts_with payload (U ''data:'') \<and> \<not> starts_with payload (U ''blob:'')"

fun join_split_images :: "ustr \<Rightarrow> ustr list \<Rightarrow> ustr list" where
  \<comment> \<open>the loop: a data URL cut at its comma is put together again\<close>
  "join_split_images host [] = []"
| "join_split_images host [current] = [normalizeImagePath host current]"
| "join_split_images host (current # payload # rest) =
     (if looksLikeSplitDataPrefix current \<and> is_split_payload payload
      then (current @ U '','' @ payload) # join_split_images host rest
      else normalizeImagePath host current # join_split_images host (payload # rest))"

definition normalizePostImages :: "ustr \<Rightarrow> jval list \<Rightarrow> ustr list" where
  "normalizePostImages host rawImages =
     join_split_images host (filter (\<lambda>s. length s > 0) (map readString rawImages))"

section \<open>mappers.ts: identifiers\<close>

definition hash_step :: "32 word \<Rightarrow> nat \<Rightarrow> 32 word" where
  \<comment> \<open>\<open>(hash * 31 + c) | 0\<close>\<close>
  "hash_step h c = h * 31 + of_nat c"

definition string_hash :: "ustr \<Rightarrow> 32 word" where
  "string_hash s = foldl hash_step 0 s"

fun radix36 :: "nat \<Rightarrow> ustr" where
  "radix36 n =
     (let d = n mod 36; c = (if d < 10 then 48 + d else 87 + d)
      in if n < 36 then [c] else radix36 (n div 36) @ [c])"

declare radix36.simps [simp del]

definition index_suffix :: "nat option \<Rightarrow> ustr" where
  "index_suffix i = (case i of None \<Rightarrow> [] | Some n \<Rightarrow> [45] @ nat_str n)"

definition seed_text :: "jval \<Rightarrow> ustr" where
  \<comment> \<open>\<open>String(value ?? "").trim()\<close>\<close>
  "seed_text v = trim (to_str (if is_nullish v then Str [] else v))"

definition buildDeterministicFallbackPostId :: "jval \<Rightarrow> nat option \<Rightarrow> ustr" where
  "buildDeterministicFallbackPostId postModel fallbackIndex =
     (let seedParts = filter (\<lambda>s. length s > 0) (map (\<lambda>k. seed_text (fld postModel k))
            [''PostTitle'', ''name'', ''PostDescription'', ''description'', ''UserID'', ''UserId'',
             ''SellerID'', ''sellerId'', ''CreatedAt'', ''createdAt''])
      in if length seedParts = 0 then U ''post-unknown'' @ index_suffix fallbackIndex
         else
           (let seed = lower (join (U ''|'') seedParts);
                hashPart = radix36 (nat \<bar>sint (string_hash seed)\<bar>)
            in U ''post-'' @ hashPart @ index_suffix fallbackIndex))"

definition getUserIdentifier :: "jval \<Rightarrow> ustr" where
  "getUserIdentifier user =
     (let userId = (if is_nullish user then Undef else flds user [''UserID'', ''userID'', ''Id'', ''id''])
      in if is_nullish userId then [] else to_str userId)"

definition getUserDisplayName :: "jval \<Rightarrow> jval \<Rightarrow> ustr" where
  "getUserDisplayName user fallbackUserId = resolveUserDisplayName user fallbackUserId"

section \<open>mappers.ts: the post\<close>

definition str_chain :: "jval list \<Rightarrow> ustr option" where
  \<comment> \<open>the first value whose \<open>typeof\<close> is \<open>string\<close>\<close>
  "str_chain vs = (case find is_str vs of Some (Str s) \<Rightarrow> Some s | _ \<Rightarrow> None)"

fun is_num :: "jval \<Rightarrow> bool" where
  "is_num (Num _) = True"
| "is_num _ = False"

definition num_chain :: "jval list \<Rightarrow> jnum option" where
  "num_chain vs = (case find is_num vs of Some (Num n) \<Rightarrow> Some n | _ \<Rightarrow> None)"

definition finite_or_0 :: "jnum option \<Rightarrow> rat" where
  "finite_or_0 n = (case n of Some (Fin r) \<Rightarrow> r | _ \<Rightarrow> 0)"

definition present_str :: "jval list \<Rightarrow> ustr option" where
  \<comment> \<open>\<open>String(v)\<close> of the first value that is neither \<open>undefined\<close> nor \<open>null\<close>\<close>
  "present_str vs = (case find (\<lambda>v. \<not> is_nullish v) vs of Some v \<Rightarrow> Some (to_str v) | None \<Rightarrow> None)"

definition blank_free_str :: "jval list \<Rightarrow> ustr" where
  \<comment> \<open>the first non-blank string, trimmed, or empty\<close>
  "blank_free_str vs =
     (case find (\<lambda>v. case v of Str s \<Rightarrow> length (trim s) > 0 | _ \<Rightarrow> False) vs of
        Some (Str s) \<Rightarrow> trim s | _ \<Rightarrow> [])"

definition raw_rating :: "jval \<Rightarrow> string list \<Rightarrow> jnum" where
  \<comment> \<open>a number if one is given as such, else \<open>Number(a ?? b ?? 0)\<close>\<close>
  "raw_rating m ks =
     (case num_chain (map (fld m) ks) of
        Some n \<Rightarrow> n | None \<Rightarrow> to_num (coalesce (map (fld m) ks @ [Num (Fin 0)])))"

definition post_rating :: "jval \<Rightarrow> rat option" where
  "post_rating m =
     (case raw_rating m [''AverageRating'', ''averageRating''] of
        Fin r \<Rightarrow> if r > 0 then Some (min 5 (max 1 r)) else None
      | _ \<Rightarrow> None)"

definition post_review_count :: "jval \<Rightarrow> rat option" where
  "post_review_count m =
     (case raw_rating m [''ReviewCount'', ''reviewCount''] of
        Fin r \<Rightarrow> if r > 0 then Some (max 0 (of_int (trunc_rat r))) else None
      | _ \<Rightarrow> None)"

definition post_image_list :: "ustr \<Rightarrow> jval \<Rightarrow> ustr list \<Rightarrow> ustr list" where
  "post_image_list host m images =
     (let backendImages = (case fld m ''Images'' of Arr vs \<Rightarrow> vs
            | _ \<Rightarrow> (case fld m ''images'' of Arr vs \<Rightarrow> vs | _ \<Rightarrow> []));
          singleImage = blank_free_str (map (fld m) [''PostImageURL'', ''postImageURL'', ''Image'', ''image'']);
          preferredImages = (if length images > 0 then map Str images else backendImages);
          normalizedImages = normalizePostImages host
            (if length preferredImages > 0 then preferredImages else [Str singleImage])
      in if length normalizedImages > 0 then normalizedImages
         else filter (\<lambda>s. length s > 0) [singleImage])"

definition post_identity :: "jval \<Rightarrow> nat option \<Rightarrow> ustr" where
  "post_identity m fallbackIndex =
     (let postId = (if \<not> is_nullish (fld m ''PostID'') then to_str (fld m ''PostID'')
                    else (case fld m ''id'' of Str s \<Rightarrow> s | _ \<Rightarrow> []))
      in or_else postId (buildDeterministicFallbackPostId m fallbackIndex))"

definition post_seller_id :: "jval \<Rightarrow> ustr" where
  "post_seller_id m =
     (case present_str (map (fld m) [''UserID'', ''UserId'', ''SellerID'', ''SellerId'']) of
        Some s \<Rightarrow> s
      | None \<Rightarrow> (case fld m ''sellerId'' of Str s \<Rightarrow> s | Num n \<Rightarrow> num_str n | _ \<Rightarrow> []))"

definition transformPostModelToPost :: "jsenv \<Rightarrow> ustr \<Rightarrow> jval \<Rightarrow> ustr list \<Rightarrow> nat option \<Rightarrow> post" where
  "transformPostModelToPost env host m images fallbackIndex =
     (let singleImage = blank_free_str (map (fld m) [''PostImageURL'', ''postImageURL'', ''Image'', ''image'']);
          singleThumbnailImage = blank_free_str
            (map (fld m) [''ThumbnailImage'', ''thumbnailImage'', ''thumbnailImageURL'', ''thumbnailImageUrl'']);
          normalizedThumbnailImage = normalizeImagePath host singleThumbnailImage;
          postImages = post_image_list host m images
      in \<lparr> post_id = post_identity m fallbackIndex,
           post_name = opt_str (str_chain [fld m ''PostTitle'', fld m ''name'']),
           post_price = finite_or_0 (num_chain [fld m ''Price'', fld m ''price'']),
           post_location = opt_str (str_chain [fld m ''City'', fld m ''Location'', fld m ''location'']),
           post_locationAr = Some (opt_str (str_chain [fld m ''LocationAr'', fld m ''locationAr''])),
           post_area = str_chain [fld m ''Area'', fld m ''area''],
           post_areaAr = str_chain [fld m ''AreaAr'', fld m ''areaAr''],
           post_seller = (case str_chain [fld m ''Seller'', fld m ''seller''] of
             Some s \<Rightarrow> s | None \<Rightarrow> U ''Unknown''),
           post_sellerId = post_seller_id m,
           post_category = (case str_chain [fld m ''Category'', fld m ''category''] of
             Some s \<Rightarrow> s | None \<Rightarrow> U ''Unknown''),
           post_categoryId = Some (opt_str (present_str
             [fld m ''CategoryID'', fld m ''CategoryId'', fld m ''categoryId''])),
           post_image = or_else normalizedThumbnailImage
             (or_else (case postImages of [] \<Rightarrow> [] | i # _ \<Rightarrow> i) (normalizeImagePath host singleImage)),
           post_images = Some postImages,
           post_phone = Some (opt_str (str_chain [fld m ''Phone'', fld m ''phone''])),
           post_description = Some (opt_str (str_chain [fld m ''PostDescription'', fld m ''description''])),
           post_createdAt = Some (toIsoStringOrNow env (flds m [''CreatedAt'', ''createdAt''])),
           post_views = Some (finite_or_0 (num_chain [fld m ''Views'', fld m ''views''])),
           post_averageRating = post_rating m,
           post_reviewCount = post_review_count m,
           post_state = Some (normalizePostStatus (flds m [''Status'', ''status''])) \<rparr>)"

section \<open>search.ts\<close>

definition toPositiveInteger :: "jval \<Rightarrow> int \<Rightarrow> int" where
  "toPositiveInteger v fallback =
     (case to_num v of Fin parsed \<Rightarrow> if parsed > 0 then trunc_rat parsed else fallback | _ \<Rightarrow> fallback)"

definition search_images :: "jval \<Rightarrow> ustr list" where
  \<comment> \<open>\<open>normalizeImages\<close>\<close>
  "search_images v =
     (case v of Arr vs \<Rightarrow> filter (\<lambda>s. length s > 0) (map (\<lambda>i. trim (to_str i)) vs) | _ \<Rightarrow> [])"

record search_request =
  sr_query :: "ustr option"
  sr_category :: "ustr option"
  sr_city :: "ustr option"
  sr_minPrice :: "jnum option"
  sr_maxPrice :: "jnum option"
  sr_status :: "ustr option"
  sr_sortBy :: "ustr option"
  sr_sortOrder :: "ustr option"
  sr_page :: jval
  sr_limit :: jval

definition set_text :: "string \<Rightarrow> ustr option \<Rightarrow> url_params \<Rightarrow> url_params" where
  \<comment> \<open>\<open>if (v?.trim()) params.set(k, v.trim())\<close>\<close>
  "set_text k v ps = (if trim (opt_str v) = [] then ps else sp_set ps (U k) (trim (opt_str v)))"

definition set_raw :: "string \<Rightarrow> ustr option \<Rightarrow> url_params \<Rightarrow> url_params" where
  "set_raw k v ps = (if opt_str v = [] then ps else sp_set ps (U k) (opt_str v))"

definition set_price :: "string \<Rightarrow> jnum option \<Rightarrow> url_params \<Rightarrow> url_params" where
  "set_price k v ps =
     (case v of Some (Fin r) \<Rightarrow> if r \<ge> 0 then sp_set ps (U k) (num_str (Fin r)) else ps | _ \<Rightarrow> ps)"

definition search_params :: "search_request \<Rightarrow> url_params" where
  "search_params q =
     (let ps = set_text ''query'' (sr_query q) [];
          ps = set_text ''category'' (sr_category q) ps;
          ps = set_text ''city'' (sr_city q) ps;
          ps = set_price ''minPrice'' (sr_minPrice q) ps;
          ps = set_price ''maxPrice'' (sr_maxPrice q) ps;
          ps = set_raw ''status'' (sr_status q) ps;
          ps = set_raw ''sortBy'' (sr_sortBy q) ps;
          ps = set_raw ''sortOrder'' (sr_sortOrder q) ps;
          ps = sp_set ps (U ''page'') (int_str (toPositiveInteger (sr_page q) 1))
      in sp_set ps (U ''limit'') (int_str (toPositiveInteger (sr_limit q) 20)))"

text \<open>\<open>enrich\<close> is \<open>enrichPostsWithCategoryAndSeller\<close>, which asks the server for names and images.\<close>

definition search_reply ::
    "jsenv \<Rightarrow> ustr \<Rightarrow> (jval list \<Rightarrow> jval list) \<Rightarrow> search_request \<Rightarrow> api_response \<Rightarrow> search_response" where
  "search_reply env host enrich q response =
     (let requestedPage = toPositiveInteger (sr_page q) 1;
          requestedLimit = toPositiveInteger (sr_limit q) 20;
          parsedPayload = (case response of ApiOk d \<Rightarrow> parsePostsEnvelope d | ApiErr _ \<Rightarrow> None)
      in case parsedPayload of
           Some p \<Rightarrow>
             (let enrichedPosts = enrich (envelope_posts p);
                  posts = map (\<lambda>(i, m). transformPostModelToPost env host m
                                (search_images (flds m [''images'', ''Images''])) (Some i))
                            (enumerate 0 enrichedPosts)
              in \<lparr> response_success = True, response_posts = posts,
                   response_pagination = Some (parsePaginationPayload (envelope_pagination p)
                     requestedPage requestedLimit (int (length posts))),
                   response_error = None \<rparr>)
         | None \<Rightarrow>
             \<lparr> response_success = False, response_posts = [],
               response_pagination = Some \<lparr> currentPage = requestedPage, totalPages = 0, totalPosts = 0,
                 postsPerPage = requestedLimit \<rparr>,
               response_error = Some (Some (or_else
                 (case response of ApiErr e \<Rightarrow> err_message e | ApiOk _ \<Rightarrow> []) (U ''Search request failed''))) \<rparr>)"

section \<open>Lemmas\<close>

lemma U_append_not_Nil: "U (c # cs) @ x \<noteq> []"
  by simp

lemma fallback_id_not_Nil [simp]: "buildDeterministicFallbackPostId m i \<noteq> []"
  unfolding buildDeterministicFallbackPostId_def Let_def
  by (rule if_branches [where P = "\<lambda>x. x \<noteq> []"]; rule U_append_not_Nil)

lemma normalizeImagePath_not_Nil: "trim v \<noteq> [] \<Longrightarrow> normalizeImagePath host v \<noteq> []"
  by (simp add: normalizeImagePath_def Let_def)

lemma join_split_not_Nil:
  "\<forall>v \<in> set vs. trimmed v \<and> v \<noteq> [] \<Longrightarrow> \<forall>w \<in> set (join_split_images host vs). w \<noteq> []"
  by (induction host vs rule: join_split_images.induct) (simp_all add: normalizeImagePath_not_Nil trim_id)

lemma join_split_eq_Nil: "join_split_images host vs = [] \<longleftrightarrow> vs = []"
  by (cases "(host, vs)" rule: join_split_images.cases) auto

lemma normalizePostImages_not_Nil:
  assumes "w \<in> set (normalizePostImages host vs)"
  shows "w \<noteq> []"
proof -
  have "\<forall>v \<in> set (filter (\<lambda>s. length s > 0) (map readString vs)). trimmed v \<and> v \<noteq> []" by auto
  from join_split_not_Nil [OF this, of host] assms show ?thesis
    unfolding normalizePostImages_def by blast
qed

lemma blank_free_str_trimmed: "trimmed (blank_free_str vs)"
  by (auto simp: blank_free_str_def split: option.split jval.split)

lemma post_image_list_not_Nil: "w \<in> set (post_image_list host m images) \<Longrightarrow> w \<noteq> []"
  by (auto simp: post_image_list_def Let_def normalizePostImages_not_Nil split: if_splits)

lemma int32_abs: "\<bar>sint (w :: 32 word)\<bar> \<le> 2147483648"
  using sint_ge [of w] sint_lt [of w] by simp

section \<open>Properties\<close>

text \<open>
  Whatever object the server sends as a listing, the client's listing is displayable: it
  has a non-empty identifier, no empty image address, a cover image whenever it has images, a
  rating between 1 and 5 if any, a non-negative whole number of reviews if any, and a status.
\<close>

theorem transformed_post_displayable:
  "let p = transformPostModelToPost env host m images i in
     post_id p \<noteq> []
     \<and> (\<forall>w \<in> set (the (post_images p)). w \<noteq> [])
     \<and> (post_images p \<noteq> Some [] \<longrightarrow> post_image p \<noteq> [])
     \<and> (\<forall>r. post_averageRating p = Some r \<longrightarrow> 1 \<le> r \<and> r \<le> 5)
     \<and> (\<forall>n. post_reviewCount p = Some n \<longrightarrow> 0 \<le> n \<and> is_int_rat n)
     \<and> post_state p = Some (normalizePostStatus (flds m [''Status'', ''status'']))"
proof -
  let ?p = "transformPostModelToPost env host m images i"
  let ?imgs = "post_image_list host m images"
  have imgs: "post_images ?p = Some ?imgs" by (simp add: transformPostModelToPost_def Let_def)
  have cover: "?imgs \<noteq> [] \<longrightarrow> post_image ?p \<noteq> []"
    using post_image_list_not_Nil [of _ host m images]
    by (cases ?imgs) (simp_all add: transformPostModelToPost_def Let_def)
  have id: "post_id ?p \<noteq> []" by (simp add: transformPostModelToPost_def Let_def post_identity_def)
  have rating: "post_averageRating ?p = Some r \<longrightarrow> 1 \<le> r \<and> r \<le> 5" for r
    by (auto simp: transformPostModelToPost_def Let_def post_rating_def split: jnum.splits if_splits)
  have count: "post_reviewCount ?p = Some n \<longrightarrow> 0 \<le> n \<and> is_int_rat n" for n
    by (auto simp: transformPostModelToPost_def Let_def post_review_count_def max_def
        split: jnum.splits if_splits)
  have st: "post_state ?p = Some (normalizePostStatus (flds m [''Status'', ''status'']))"
    by (simp add: transformPostModelToPost_def Let_def)
  have "\<forall>w \<in> set ?imgs. w \<noteq> []" using post_image_list_not_Nil by blast
  then show ?thesis unfolding Let_def imgs option.sel using cover id rating count st by blast
qed

theorem transformed_post_displayable_witness:
  "\<exists>r. post_averageRating (transformPostModelToPost ref_env [] (Obj [(U ''AverageRating'', Num (Fin 9))]) [] None) = Some r
     \<and> 1 \<le> r \<and> r \<le> 5"
proof -
  let ?m = "Obj [(U ''AverageRating'', Num (Fin 9))]"
  have "post_averageRating (transformPostModelToPost ref_env [] ?m [] None) = Some 5"
    by (simp add: transformPostModelToPost_def Let_def post_rating_def raw_rating_def num_chain_def)
  with transformed_post_displayable [of ref_env "[]" ?m "[]" None] show ?thesis
    unfolding Let_def by blast
qed

text \<open>
  A page of search results is numbered from 1, has at least one row per page and
  non-negative totals, for whatever pagination object the server sends, as long as the caller asks
  for at least one row of at least the first page.
\<close>

theorem pagination_bounds:
  assumes "1 \<le> page" and "1 \<le> rows" and "0 \<le> n"
  shows "1 \<le> currentPage (parsePaginationPayload v page rows n)
    \<and> 1 \<le> postsPerPage (parsePaginationPayload v page rows n)
    \<and> 0 \<le> totalPosts (parsePaginationPayload v page rows n)
    \<and> 0 \<le> totalPages (parsePaginationPayload v page rows n)"
proof (intro conjI)
  show "1 \<le> postsPerPage (parsePaginationPayload v page rows n)"
    by (simp add: parsePaginationPayload_def Let_def toIntegerOrDefault_min assms)
  then have perPage: "1 \<le> toIntegerOrDefault (fld (toRecord v) ''postsPerPage'') rows 1"
    by (simp add: parsePaginationPayload_def Let_def)
  have "0 \<le> (if t > 0 then \<lceil>(of_int t :: rat) / of_int p\<rceil> else 0)" if "1 \<le> p" for t p :: int
  proof (cases "t > 0")
    case True
    then have "(0::rat) \<le> of_int t / of_int p" using that by simp
    then have "(0::int) \<le> \<lceil>(of_int t :: rat) / of_int p\<rceil>" by linarith
    with True show ?thesis by simp
  qed simp
  from this [OF perPage] show "0 \<le> totalPages (parsePaginationPayload v page rows n)"
    unfolding parsePaginationPayload_def Let_def by (simp only: pagination.simps toIntegerOrDefault_min)
qed (simp_all add: parsePaginationPayload_def Let_def toIntegerOrDefault_min assms)

theorem pagination_bounds_witness:
  "1 \<le> currentPage (parsePaginationPayload (Obj [(U ''currentPage'', Num (Fin (- 3)))]) 1 20 0)"
  using pagination_bounds [of 1 20 0 "Obj [(U ''currentPage'', Num (Fin (- 3)))]"] by simp

text \<open>
  The search endpoint asks for a positive whole number of rows of a positive page for
  every page and limit of at least 1, but a limit strictly between 0 and 1 is accepted as positive
  and then truncated to a request for zero rows.
\<close>

theorem search_limit_requested:
  "sp_get (search_params q) (U ''limit'') = Some (int_str (toPositiveInteger (sr_limit q) 20))
   \<and> sp_get (search_params q) (U ''page'') = Some (int_str (toPositiveInteger (sr_page q) 1))
   \<and> (case to_num (sr_limit q) of Fin r \<Rightarrow> r \<le> 0 \<or> 1 \<le> r | _ \<Rightarrow> True) =
       (1 \<le> toPositiveInteger (sr_limit q) 20)"
proof (intro conjI)
  show "sp_get (search_params q) (U ''limit'') = Some (int_str (toPositiveInteger (sr_limit q) 20))"
    by (simp add: search_params_def Let_def url.get_put)
  show "sp_get (search_params q) (U ''page'') = Some (int_str (toPositiveInteger (sr_page q) 1))"
    by (simp add: search_params_def Let_def url.get_put)
  show "(case to_num (sr_limit q) of Fin r \<Rightarrow> r \<le> 0 \<or> 1 \<le> r | _ \<Rightarrow> True) =
       (1 \<le> toPositiveInteger (sr_limit q) 20)"
    by (auto simp: toPositiveInteger_def trunc_rat_def le_floor_iff not_le split: jnum.split)
qed

end
