(* ===== verification/Catalog.thy ===== *)
theory Catalog
  imports PostMapping
begin

text \<open>
  The catalogue the listings refer to: categories (\<open>services/api/schemas/categorySchema.ts\<close>,
  \<open>services/api/categories.ts\<close>) and cities with their areas (\<open>services/api/locations.ts\<close>), read from
  payloads of unknown shape.  The answers of the server are arguments; sharing one promise between
  concurrent callers of the same collection is left out, since every caller gets the same answer.
\<close>

section \<open>categorySchema.ts\<close>

definition raw_category_fields :: "string list" where
  "raw_category_fields =
     [''CategoryID'', ''categoryID'', ''id'', ''CategoryName'', ''categoryName'', ''name'',
      ''NameAr'', ''nameAr'', ''categoryNameAr'', ''Image'', ''image'']"

definition parseRawCategory :: "jval \<Rightarrow> jval option" where
  "parseRawCategory v =
     (case asRecord v of
        None \<Rightarrow> None
      | Some r \<Rightarrow>
          if list_ex (\<lambda>k. fld r k \<noteq> Undef)
               [''CategoryID'', ''categoryID'', ''id'', ''CategoryName'', ''categoryName'', ''name'']
          then Some (Obj (map (\<lambda>k. (U k, fld r k)) raw_category_fields)) else None)"

definition parseRawCategoryCollection :: "jval \<Rightarrow> jval list" where
  "parseRawCategoryCollection v = (case v of Arr vs \<Rightarrow> List.map_filter parseRawCategory vs | _ \<Rightarrow> [])"

definition unwrapCategoryCollectionPayload :: "jval \<Rightarrow> jval" where
  "unwrapCategoryCollectionPayload v =
     (case v of
        Arr vs \<Rightarrow> v
      | _ \<Rightarrow> (case asRecord v of None \<Rightarrow> v
              | Some r \<Rightarrow> flds r [''categories'', ''Categories'', ''data'', ''Data'']))"

definition parseCategoryCollectionPayload :: "jval \<Rightarrow> jval list" where
  "parseCategoryCollectionPayload v = parseRawCategoryCollection (unwrapCategoryCollectionPayload v)"

definition parseCategoryPayload :: "jval \<Rightarrow> jval option" where
  "parseCategoryPayload v =
     (case parseRawCategory v of
        Some c \<Rightarrow> Some c
      | None \<Rightarrow> (case asRecord v of None \<Rightarrow> None
                | Some r \<Rightarrow> parseRawCategory (flds r [''category'', ''Category'', ''data''])))"

definition parseCategoryExistsPayload :: "jval \<Rightarrow> bool" where
  "parseCategoryExistsPayload v =
     (case v of
        Bool b \<Rightarrow> b
      | _ \<Rightarrow> (case asRecord v of None \<Rightarrow> False
              | Some r \<Rightarrow> flds r [''exists'', ''Exists'', ''success'', ''Success'', ''data''] = Bool True))"

record category =
  category_id :: ustr
  category_name :: ustr
  category_nameAr :: ustr
  category_image :: ustr
  category_postCount :: int

definition normalizeCategory :: "ustr \<Rightarrow> jval \<Rightarrow> nat option \<Rightarrow> category" where
  "normalizeCategory host m fallbackIndex =
     (let fallbackId = (case fallbackIndex of Some n \<Rightarrow> U ''category-'' @ nat_str n
            | None \<Rightarrow> U ''category-unknown'');
          uniqueId = (case toPositiveIntegerId (flds m [''CategoryID'', ''categoryID'', ''id'']) of
            Some i \<Rightarrow> int_str i | None \<Rightarrow> fallbackId);
          n = or_else (readString (flds m [''CategoryName'', ''categoryName'', ''name''])) (U ''Uncategorized'');
          img = readString (flds m [''Image'', ''image''])
      in \<lparr> category_id = uniqueId, category_name = n,
           category_nameAr = or_else (readString (flds m [''NameAr'', ''nameAr'', ''categoryNameAr''])) n,
           category_image = (if starts_with img (U ''/'') then host @ img else img),
           category_postCount = 0 \<rparr>)"

section \<open>categories.ts\<close>

definition getCategories :: "ustr \<Rightarrow> api_response \<Rightarrow> category list option" where
  \<comment> \<open>\<open>None\<close> for \<open>{ success: false, categories: [] }\<close>\<close>
  "getCategories host response =
     (case response of
        ApiOk d \<Rightarrow> Some (map (\<lambda>(i, c). normalizeCategory host c (Some i))
                          (enumerate 0 (parseCategoryCollectionPayload d)))
      | ApiErr _ \<Rightarrow> None)"

definition getCategory :: "ustr \<Rightarrow> jval \<Rightarrow> api_response \<Rightarrow> category option" where
  "getCategory host i response =
     (case toPositiveIntegerId i of
        None \<Rightarrow> None
      | Some _ \<Rightarrow> (case response of
            ApiErr _ \<Rightarrow> None
          | ApiOk d \<Rightarrow> map_option (\<lambda>m. normalizeCategory host m None) (parseCategoryPayload d)))"

record category_response =
  cs_success :: bool
  cs_category :: "category option"
  cs_message :: "ustr option"

definition category_failure :: "ustr \<Rightarrow> category_response" where
  "category_failure m = \<lparr> cs_success = False, cs_category = None, cs_message = Some m \<rparr>"

definition category_reply :: "ustr \<Rightarrow> api_response \<Rightarrow> ustr \<Rightarrow> category_response" where
  \<comment> \<open>the reading of the answer that creating and updating share\<close>
  "category_reply host response fallback =
     (case response of
        ApiOk d \<Rightarrow> (case parseCategoryPayload d of
            None \<Rightarrow> category_failure (U ''Invalid category response'')
          | Some m \<Rightarrow> \<lparr> cs_success = True, cs_category = Some (normalizeCategory host m None), cs_message = None \<rparr>)
      | ApiErr e \<Rightarrow> category_failure (or_else (err_message e) fallback))"

definition createCategory ::
    "ustr \<Rightarrow> ustr \<Rightarrow> ustr \<Rightarrow> ustr option \<Rightarrow> thrown + api_response \<Rightarrow> category_response \<times> jval option" where
  \<comment> \<open>the result and the body posted, if any\<close>
  "createCategory host name nameAr img outcome =
     (let n = trim name in
      if n = [] then (category_failure (U ''Category name is required''), None)
      else ((case outcome of
               Inr response \<Rightarrow> category_reply host response (U ''Failed to create category'')
             | Inl (JsError _ m) \<Rightarrow> category_failure m
             | Inl (ThrownValue _) \<Rightarrow> category_failure (U ''Failed to create category'')),
            Some (Obj [(U ''CategoryName'', Str n), (U ''NameAr'', Str (or_else (trim nameAr) n)),
                       (U ''Image'', Str (opt_str img))])))"

definition trimmed_or_undef :: "ustr option \<Rightarrow> jval" where
  \<comment> \<open>\<open>s?.trim() || undefined\<close>\<close>
  "trimmed_or_undef s = (if trim (opt_str s) = [] then Undef else Str (trim (opt_str s)))"

definition updateCategory ::
    "ustr \<Rightarrow> jval \<Rightarrow> ustr option \<Rightarrow> ustr option \<Rightarrow> ustr option \<Rightarrow> api_response
     \<Rightarrow> category_response \<times> jval option" where
  "updateCategory host i name nameAr img response =
     (case toPositiveIntegerId i of
        None \<Rightarrow> (category_failure (U ''Invalid category ID''), None)
      | Some n \<Rightarrow>
          (category_reply host response (U ''Failed to update category''),
           Some (Obj [(U ''CategoryID'', Num (Fin (of_int n))), (U ''CategoryName'', trimmed_or_undef name),
                      (U ''NameAr'', trimmed_or_undef nameAr),
                      (U ''Image'', (case img of None \<Rightarrow> Undef | Some s \<Rightarrow> Str s))])))"

definition deleteCategory :: "jval \<Rightarrow> api_response \<Rightarrow> category_response" where
  "deleteCategory i response =
     (case toPositiveIntegerId i of
        None \<Rightarrow> category_failure (U ''Invalid category ID'')
      | Some _ \<Rightarrow> (case response of
            ApiOk _ \<Rightarrow> \<lparr> cs_success = True, cs_category = None, cs_message = None \<rparr>
          | ApiErr e \<Rightarrow> category_failure (or_else (err_message e) (U ''Failed to delete category''))))"

definition category_exists :: "jval \<Rightarrow> api_response \<Rightarrow> bool" where
  "category_exists i response =
     (case toPositiveIntegerId i of
        None \<Rightarrow> False
      | Some _ \<Rightarrow> (case response of ApiOk d \<Rightarrow> parseCategoryExistsPayload d | ApiErr _ \<Rightarrow> False))"

section \<open>locations.ts\<close>

record location_city =
  cityId :: int
  cityName :: ustr
  cityNameAr :: ustr

record location_area =
  areaId :: int
  areaName :: ustr
  areaNameAr :: ustr
  area_cityId :: int

definition name_text :: "jval \<Rightarrow> string list \<Rightarrow> ustr" where
  \<comment> \<open>\<open>String(a ?? b ?? "").trim()\<close>\<close>
  "name_text r ks = trim (to_str (coalesce (map (fld r) ks @ [Str []])))"

definition normalizeCity :: "jval \<Rightarrow> location_city option" where
  "normalizeCity payload =
     (if asRecord payload = None then None
      else
        (case toPositiveIntegerId (flds payload [''CityId'', ''cityId'']) of
           None \<Rightarrow> None
         | Some i \<Rightarrow>
             (let n = name_text payload [''CityName'', ''cityName''] in
              if n = [] then None
              else Some \<lparr> cityId = i, cityName = n,
                     cityNameAr = name_text payload [''CityNameAr'', ''cityNameAr''] \<rparr>)))"

definition normalizeArea :: "jval \<Rightarrow> location_area option" where
  "normalizeArea payload =
     (if asRecord payload = None then None
      else
        (case (toPositiveIntegerId (flds payload [''AreaId'', ''areaId'']),
               toPositiveIntegerId (flds payload [''CityId'', ''cityId''])) of
           (Some i, Some c) \<Rightarrow>
             (let n = name_text payload [''AreaName'', ''areaName''] in
              if n = [] then None
              else Some \<lparr> areaId = i, areaName = n,
                     areaNameAr = name_text payload [''AreaNameAr'', ''areaNameAr''], area_cityId = c \<rparr>)
         | _ \<Rightarrow> None))"

definition getCities :: "api_response \<Rightarrow> location_city list" where
  "getCities response = (case response of ApiOk (Arr vs) \<Rightarrow> List.map_filter normalizeCity vs | _ \<Rightarrow> [])"

definition getAreasByCity :: "jval \<Rightarrow> api_response \<Rightarrow> location_area list" where
  "getAreasByCity city response =
     (case toPositiveIntegerId city of
        None \<Rightarrow> []
      | Some _ \<Rightarrow> (case response of ApiOk (Arr vs) \<Rightarrow> List.map_filter normalizeArea vs | _ \<Rightarrow> []))"

section \<open>Lemmas\<close>

lemma normalizeCity_id:
  assumes "normalizeCity v = Some c"
  shows "0 < cityId c \<and> cityId c \<le> MAX_SAFE_INTEGER" "cityName c \<noteq> []" "trim (cityName c) = cityName c"
proof -
  from assms obtain i where "toPositiveIntegerId (flds v [''CityId'', ''cityId'']) = Some i"
    and c: "cityId c = i" "cityName c = name_text v [''CityName'', ''cityName'']"
      "name_text v [''CityName'', ''cityName''] \<noteq> []"
    by (auto simp: normalizeCity_def Let_def split: if_splits option.splits)
  then show "0 < cityId c \<and> cityId c \<le> MAX_SAFE_INTEGER" "cityName c \<noteq> []" "trim (cityName c) = cityName c"
    using toPositiveIntegerId_range by (auto simp: name_text_def)
qed

lemma getCities_id: "c \<in> set (getCities r) \<Longrightarrow> 0 < cityId c \<and> cityId c \<le> MAX_SAFE_INTEGER"
  by (auto simp: getCities_def set_map_filter dest: normalizeCity_id(1) split: api_response.splits jval.splits)

lemma getCities_name: "c \<in> set (getCities r) \<Longrightarrow> cityName c \<noteq> [] \<and> trim (cityName c) = cityName c"
  using normalizeCity_id(2,3)
  by (fastforce simp: getCities_def set_map_filter split: api_response.splits jval.splits)

lemma getAreasByCity_id: "a \<in> set (getAreasByCity c r) \<Longrightarrow> 0 < areaId a \<and> areaId a \<le> MAX_SAFE_INTEGER"
  using toPositiveIntegerId_range
  by (fastforce simp: getAreasByCity_def normalizeArea_def Let_def set_map_filter
      split: api_response.splits jval.splits option.splits if_splits)

end
