(* ===== verification/ImageCache.thy ===== *)
theory ImageCache
  imports PostMapping
begin

text \<open>
  The cache of image rows per listing (\<open>services/api/posts/lookups.images.ts\<close>) as a state machine.
  A read is answered from the cache, joins the request for the same listing that is under way, or
  starts a request; an answer fills the cache and ends the request; an invalidation empties the
  cache.  Requests are numbered; \<open>outstanding\<close> are those whose answer has not arrived, \<open>inflight\<close>
  is the table of shared promises.  Reads, answers and invalidations come in any order.
\<close>

section \<open>Image rows\<close>

definition isDeletedImageFlag :: "jval \<Rightarrow> bool" where
  "isDeletedImageFlag v \<longleftrightarrow>
     v = Bool True \<or> v = Num (Fin 1) \<or> v = Str (U ''1'')
     \<or> (case v of Str s \<Rightarrow> lower (trim s) = U ''true'' | _ \<Rightarrow> False)"

definition row_deleted :: "jval \<Rightarrow> bool" where
  "row_deleted row \<longleftrightarrow> isDeletedImageFlag (flds row [''IsDeleted'', ''isDeleted''])"

definition extractPostImageUrl :: "jval \<Rightarrow> ustr" where
  "extractPostImageUrl row =
     (if row_deleted row then []
      else (case flds row [''PostImageURL'', ''postImageURL''] of Str s \<Rightarrow> trim s | _ \<Rightarrow> []))"

definition extractPostImageThumbnailUrl :: "jval \<Rightarrow> ustr" where
  "extractPostImageThumbnailUrl row =
     (if row_deleted row then []
      else (case flds row [''ThumbnailPostImageURL'', ''thumbnailPostImageURL'', ''thumbnailPostImageUrl''] of
              Str s \<Rightarrow> if length (trim s) > 0 then trim s else extractPostImageUrl row
            | _ \<Rightarrow> extractPostImageUrl row))"

definition mapPostImageRowsToUrls :: "jval list \<Rightarrow> ustr list" where
  "mapPostImageRowsToUrls rows = filter (\<lambda>u. length u > 0) (map extractPostImageUrl rows)"

definition getPostImagePreviewUrl :: "jval list \<Rightarrow> ustr" where
  "getPostImagePreviewUrl rows =
     (case find (\<lambda>u. length u > 0) (map extractPostImageThumbnailUrl rows) of Some u \<Rightarrow> u | None \<Rightarrow> [])"

section \<open>The cache\<close>

definition LOOKUP_CACHE_TTL_MS :: int where "LOOKUP_CACHE_TTL_MS = 60000"

definition isCacheFresh :: "int \<Rightarrow> int \<Rightarrow> bool" where
  "isCacheFresh now updatedAt \<longleftrightarrow> updatedAt > 0 \<and> now - updatedAt < LOOKUP_CACHE_TTL_MS"

definition normalizePostId :: "jval \<Rightarrow> ustr" where
  "normalizePostId postId = trim (to_str (coalesce [postId, Str []]))"

definition js_get :: "(ustr \<Rightarrow> 'v option) \<Rightarrow> ustr \<Rightarrow> 'v option" where
  "js_get m k = m k"

definition js_put :: "(ustr \<Rightarrow> 'v option) \<Rightarrow> ustr \<Rightarrow> 'v \<Rightarrow> ustr \<Rightarrow> 'v option" where
  "js_put m k v = m(k \<mapsto> v)"

definition js_del :: "(ustr \<Rightarrow> 'v option) \<Rightarrow> ustr \<Rightarrow> ustr \<Rightarrow> 'v option" where
  "js_del m k = m(k := None)"

interpretation table: key_store js_get js_put js_del
  by unfold_locales (simp_all add: js_get_def js_put_def js_del_def)

record cache_entry =
  entry_rows :: "jval list"
  entry_updatedAt :: int

record image_cache =
  rowsCache :: "ustr \<Rightarrow> cache_entry option"
  inflight :: "ustr \<Rightarrow> nat option"
  outstanding :: "(nat \<times> ustr) list"
  nextRequest :: nat

definition empty_cache :: image_cache where
  "empty_cache = \<lparr> rowsCache = (\<lambda>_. None), inflight = (\<lambda>_. None), outstanding = [], nextRequest = 0 \<rparr>"

datatype image_read = Rows "jval list" | Joins nat | Starts nat

definition start_request :: "ustr \<Rightarrow> image_cache \<Rightarrow> image_read \<times> image_cache" where
  "start_request key c =
     (Starts (nextRequest c),
      c\<lparr> inflight := js_put (inflight c) key (nextRequest c),
         outstanding := (nextRequest c, key) # outstanding c,
         nextRequest := nextRequest c + 1 \<rparr>)"

definition getPostImageRowsByPostId :: "int \<Rightarrow> jval \<Rightarrow> bool \<Rightarrow> image_cache \<Rightarrow> image_read \<times> image_cache" where
  "getPostImageRowsByPostId now postId forceRefresh c =
     (let key = normalizePostId postId in
      if key = [] then (Rows [], c)
      else
        (case js_get (rowsCache c) key of
           Some e \<Rightarrow>
             if \<not> forceRefresh \<and> isCacheFresh now (entry_updatedAt e) then (Rows (entry_rows e), c)
             else (case js_get (inflight c) key of
                     Some n \<Rightarrow> if \<not> forceRefresh then (Joins n, c) else start_request key c
                   | None \<Rightarrow> start_request key c)
         | None \<Rightarrow>
             (case js_get (inflight c) key of
                Some n \<Rightarrow> if \<not> forceRefresh then (Joins n, c) else start_request key c
              | None \<Rightarrow> start_request key c)))"

definition image_rows_reply ::
    "int \<Rightarrow> nat \<times> ustr \<Rightarrow> api_response \<Rightarrow> image_cache \<Rightarrow> jval list \<times> image_cache" where
  \<comment> \<open>the rows the waiting callers get; the table entry of the listing is dropped whoever owns it\<close>
  "image_rows_reply now q response c =
     (let key = snd q;
          c1 = (case response of
            ApiOk (Arr rows) \<Rightarrow>
              c\<lparr> rowsCache := js_put (rowsCache c) key \<lparr> entry_rows = rows, entry_updatedAt = now \<rparr> \<rparr>
          | _ \<Rightarrow> c)
      in ((case response of ApiOk (Arr rows) \<Rightarrow> rows
           | _ \<Rightarrow> (case js_get (rowsCache c) key of Some e \<Rightarrow> entry_rows e | None \<Rightarrow> [])),
          c1\<lparr> inflight := js_del (inflight c1) key, outstanding := remove1 q (outstanding c1) \<rparr>))"

definition invalidatePostImagesCache :: "image_cache \<Rightarrow> image_cache" where
  "invalidatePostImagesCache c = c\<lparr> rowsCache := (\<lambda>_. None) \<rparr>"

section \<open>Runs\<close>

datatype cache_event =
    Read jval bool int
  | Answered ustr api_response int
  | Invalidated

inductive cache_step :: "image_cache \<Rightarrow> cache_event \<Rightarrow> image_cache \<Rightarrow> bool" where
  read: "cache_step c (Read postId force now) (snd (getPostImageRowsByPostId now postId force c))"
| reply: "(n, key) \<in> set (outstanding c) \<Longrightarrow>
     cache_step c (Answered key response now) (snd (image_rows_reply now (n, key) response c))"
| invalidate: "cache_step c Invalidated (invalidatePostImagesCache c)"

inductive cache_run :: "image_cache \<Rightarrow> cache_event list \<Rightarrow> image_cache \<Rightarrow> bool" where
  start: "cache_run c [] c"
| step: "cache_run c es d \<Longrightarrow> cache_step d e d' \<Longrightarrow> cache_run c (es @ [e]) d'"

inductive_cases cache_stepE: "cache_step c e d"

definition is_forced :: "cache_event \<Rightarrow> bool" where
  "is_forced e \<longleftrightarrow> (case e of Read _ f _ \<Rightarrow> f | _ \<Rightarrow> False)"

section \<open>Invariants\<close>

definition requests_ok :: "image_cache \<Rightarrow> bool" where
  "requests_ok c \<longleftrightarrow>
     (\<forall>q \<in> set (outstanding c). fst q < nextRequest c) \<and> distinct (outstanding c)
     \<and> (\<forall>k n. js_get (inflight c) k = Some n \<longrightarrow> (n, k) \<in> set (outstanding c))"

definition deduplicated :: "image_cache \<Rightarrow> bool" where
  "deduplicated c \<longleftrightarrow> (\<forall>n k. (n, k) \<in> set (outstanding c) \<longrightarrow> js_get (inflight c) k = Some n)"

definition answered_since :: "cache_event list \<Rightarrow> image_cache \<Rightarrow> bool" where
  \<comment> \<open>what is cached is an answer for that listing, and nothing was invalidated after it\<close>
  "answered_since es c \<longleftrightarrow>
     (\<forall>k e. js_get (rowsCache c) k = Some e \<longrightarrow>
        (\<exists>pre post. es = pre @ Answered k (ApiOk (Arr (entry_rows e))) (entry_updatedAt e) # post
           \<and> Invalidated \<notin> set post))"

lemma read_cases:
  assumes "getPostImageRowsByPostId now p f c = (r, d)"
  obtains "d = c" | "(r, d) = start_request (normalizePostId p) c"
    and "f \<or> js_get (inflight c) (normalizePostId p) = None"
  using assms
  by (fastforce simp: getPostImageRowsByPostId_def Let_def split: if_splits option.splits)

lemma requests_ok_start: "requests_ok c \<Longrightarrow> requests_ok (snd (start_request k c))"
  by (auto simp: requests_ok_def start_request_def table.get_put)

lemma requests_ok_reply: "requests_ok c \<Longrightarrow> requests_ok (snd (image_rows_reply now q response c))"
proof -
  assume ok: "requests_ok c"
  have "js_get (js_del (inflight c) (snd q)) k = Some n \<Longrightarrow> (n, k) \<in> set (remove1 q (outstanding c))" for k n
  proof -
    assume a: "js_get (js_del (inflight c) (snd q)) k = Some n"
    then have "k \<noteq> snd q" "js_get (inflight c) k = Some n" by (auto simp: table.get_del split: if_splits)
    then show ?thesis using ok by (cases q) (auto simp: requests_ok_def)
  qed
  then show ?thesis using ok
    by (auto simp: requests_ok_def image_rows_reply_def Let_def distinct_remove1
      split: api_response.split jval.split dest: notin_set_remove1)
qed

lemma requests_ok_step: "cache_step c e d \<Longrightarrow> requests_ok c \<Longrightarrow> requests_ok d"
proof (induction rule: cache_step.induct)
  case (read c postId force now)
  obtain r d where d: "getPostImageRowsByPostId now postId force c = (r, d)" by fastforce
  from d show ?case
    by (rule read_cases) (use d read requests_ok_start in \<open>auto simp: prod_eq_iff\<close>)
next
  case (reply n key c response now)
  then show ?case by (simp add: requests_ok_reply)
next
  case (invalidate c)
  then show ?case by (simp add: requests_ok_def invalidatePostImagesCache_def)
qed

lemma deduplicated_step:
  "cache_step c e d \<Longrightarrow> \<not> is_forced e \<Longrightarrow> requests_ok c \<Longrightarrow> deduplicated c \<Longrightarrow> deduplicated d"
proof (induction rule: cache_step.induct)
  case (read c postId force now)
  obtain r d where d: "getPostImageRowsByPostId now postId force c = (r, d)" by fastforce
  from d show ?case
  proof (rule read_cases)
    assume "d = c" then show ?thesis using d read by simp
  next
    assume st: "(r, d) = start_request (normalizePostId postId) c"
      and new: "force \<or> js_get (inflight c) (normalizePostId postId) = None"
    from read(1) new have "js_get (inflight c) (normalizePostId postId) = None" by (simp add: is_forced_def)
    with st d read(3) show ?thesis
      by (auto simp: deduplicated_def start_request_def table.get_put)
  qed
next
  case (reply n key c response now)
  have "deduplicated (snd (image_rows_reply now (n, key) response c))"
    unfolding deduplicated_def
  proof (intro allI impI)
    fix m k
    assume "(m, k) \<in> set (outstanding (snd (image_rows_reply now (n, key) response c)))"
    then have m: "(m, k) \<in> set (remove1 (n, key) (outstanding c))"
      by (auto simp: image_rows_reply_def Let_def split: api_response.splits jval.splits)
    then have mo: "(m, k) \<in> set (outstanding c)" and ne: "(m, k) \<noteq> (n, key)"
      using reply(3) by (auto simp: requests_ok_def)
    have "js_get (inflight c) k = Some m" "js_get (inflight c) key = Some n"
      using mo reply(1,4) unfolding deduplicated_def by blast+
    with ne have "k \<noteq> key" by auto
    then show "js_get (inflight (snd (image_rows_reply now (n, key) response c))) k = Some m"
      using mo reply(4)
      by (auto simp: deduplicated_def image_rows_reply_def Let_def table.get_del split: api_response.split jval.split)
  qed
  then show ?case .
next
  case (invalidate c)
  then show ?case by (simp add: deduplicated_def invalidatePostImagesCache_def)
qed

lemma answered_since_mono:
  "answered_since es c \<Longrightarrow> e \<noteq> Invalidated \<Longrightarrow> rowsCache d = rowsCache c \<Longrightarrow> answered_since (es @ [e]) d"
  unfolding answered_since_def by (metis append.assoc append_Cons set_ConsD set_append Un_iff empty_iff list.set(1))

lemma rowsCache_read: "rowsCache (snd (getPostImageRowsByPostId now p f c)) = rowsCache c"
  by (auto simp: getPostImageRowsByPostId_def Let_def start_request_def split: option.split)

lemma answered_since_step:
  "cache_step c e d \<Longrightarrow> answered_since es c \<Longrightarrow> answered_since (es @ [e]) d"
proof (induction rule: cache_step.induct)
  case (read c postId force now)
  then show ?case by (rule answered_since_mono) (simp_all add: rowsCache_read)
next
  case (reply n key c response now)
  show ?case
  proof (cases "\<exists>rows. response = ApiOk (Arr rows)")
    case True
    then obtain rows where r: "response = ApiOk (Arr rows)" by blast
    show ?thesis
      unfolding answered_since_def
    proof (intro allI impI)
      fix k e
      assume a: "js_get (rowsCache (snd (image_rows_reply now (n, key) response c))) k = Some e"
      show "\<exists>pre post. es @ [Answered key response now]
          = pre @ Answered k (ApiOk (Arr (entry_rows e))) (entry_updatedAt e) # post \<and> Invalidated \<notin> set post"
      proof (cases "k = key")
        case True
        with a r have "e = \<lparr> entry_rows = rows, entry_updatedAt = now \<rparr>"
          by (simp add: image_rows_reply_def table.get_put)
        with True r have "es @ [Answered key response now]
            = es @ Answered k (ApiOk (Arr (entry_rows e))) (entry_updatedAt e) # []" by simp
        then show ?thesis by (metis empty_iff list.set(1))
      next
        case False
        with a r have "js_get (rowsCache c) k = Some e" by (simp add: image_rows_reply_def table.get_put)
        with reply(2) obtain pre post where
          "es = pre @ Answered k (ApiOk (Arr (entry_rows e))) (entry_updatedAt e) # post" "Invalidated \<notin> set post"
          unfolding answered_since_def by blast
        then have "es @ [Answered key response now]
            = pre @ Answered k (ApiOk (Arr (entry_rows e))) (entry_updatedAt e) # (post @ [Answered key response now])"
          "Invalidated \<notin> set (post @ [Answered key response now])" by simp_all
        then show ?thesis by blast
      qed
    qed
  next
    case False
    then have "rowsCache (snd (image_rows_reply now (n, key) response c)) = rowsCache c"
      by (auto simp: image_rows_reply_def Let_def split: api_response.split jval.split)
    with reply(2) show ?thesis by (intro answered_since_mono) simp_all
  qed
next
  case (invalidate c)
  then show ?case by (simp add: answered_since_def invalidatePostImagesCache_def js_get_def)
qed

lemma run_invariant:
  assumes "cache_run c0 es c" and "c0 = empty_cache"
  shows "requests_ok c \<and> answered_since es c \<and> (list_all (\<lambda>e. \<not> is_forced e) es \<longrightarrow> deduplicated c)"
  using assms
proof (induction rule: cache_run.induct)
  case (start c)
  then show ?case by (simp add: requests_ok_def answered_since_def deduplicated_def empty_cache_def js_get_def)
next
  case (step c es d e d')
  then have ih: "requests_ok d" "answered_since es d" "list_all (\<lambda>e. \<not> is_forced e) es \<longrightarrow> deduplicated d" by simp_all
  show ?case
    using requests_ok_step [OF step(2) ih(1)] answered_since_step [OF step(2) ih(2)]
      deduplicated_step [OF step(2) _ ih(1)] ih(3) by (simp add: list_all_append)
qed

lemma fresh_read:
  assumes "getPostImageRowsByPostId now p f c = (Rows rows, d)" and "normalizePostId p \<noteq> []"
  obtains e where "js_get (rowsCache c) (normalizePostId p) = Some e" "isCacheFresh now (entry_updatedAt e)"
    "rows = entry_rows e" "\<not> f" "d = c"
  using assms
  by (auto simp: getPostImageRowsByPostId_def start_request_def Let_def split: option.splits if_splits)

section \<open>Properties\<close>

text \<open>
  Claim C14. Reading the image rows of a listing, after any history of reads, answers and
  invalidations: rows served from the cache are the server's answer for that very listing, given
  less than a minute ago and not invalidated since; a joined request is for that listing and still
  under way; and a request is started afresh, never next to another one for the same listing as
  long as no caller forces a refresh.
\<close>

theorem image_reads_sound:
  assumes run: "cache_run empty_cache es c" and key: "normalizePostId p \<noteq> []"
    and read: "getPostImageRowsByPostId now p f c = (r, d)"
  shows "case r of
      Rows rows \<Rightarrow> \<not> f \<and> d = c
        \<and> (\<exists>t pre post. es = pre @ Answered (normalizePostId p) (ApiOk (Arr rows)) t # post
             \<and> Invalidated \<notin> set post \<and> 0 < t \<and> now - t < 60000)
    | Joins n \<Rightarrow> \<not> f \<and> d = c \<and> (n, normalizePostId p) \<in> set (outstanding c)
    | Starts n \<Rightarrow> (n, normalizePostId p) \<in> set (outstanding d) \<and> n \<notin> fst ` set (outstanding c)
        \<and> (list_all (\<lambda>e. \<not> is_forced e) es \<and> \<not> f \<longrightarrow> normalizePostId p \<notin> snd ` set (outstanding c))"
proof -
  note inv = run_invariant [OF run refl]
  show ?thesis
  proof (cases r)
    case (Rows rows)
    from fresh_read [OF read [unfolded Rows] key] obtain e where
      e: "js_get (rowsCache c) (normalizePostId p) = Some e" "isCacheFresh now (entry_updatedAt e)"
        "rows = entry_rows e" "\<not> f" "d = c" .
    from inv e(1) obtain pre post where
      "es = pre @ Answered (normalizePostId p) (ApiOk (Arr (entry_rows e))) (entry_updatedAt e) # post"
      "Invalidated \<notin> set post" unfolding answered_since_def by blast
    with e Rows show ?thesis by (auto simp: isCacheFresh_def LOOKUP_CACHE_TTL_MS_def)
  next
    case (Joins n)
    with read key have "js_get (inflight c) (normalizePostId p) = Some n" "\<not> f" "d = c"
      by (auto simp: getPostImageRowsByPostId_def start_request_def Let_def split: option.splits if_splits)
    with inv Joins show ?thesis by (simp add: requests_ok_def)
  next
    case (Starts n)
    with read have st: "(r, d) = start_request (normalizePostId p) c"
      "f \<or> js_get (inflight c) (normalizePostId p) = None"
      by (auto simp: getPostImageRowsByPostId_def Let_def split: option.splits if_splits)
    from st(1) Starts have n: "n = nextRequest c" "(n, normalizePostId p) \<in> set (outstanding d)"
      by (simp_all add: start_request_def)
    have "n \<notin> fst ` set (outstanding c)"
    proof
      assume "n \<in> fst ` set (outstanding c)"
      then obtain q where "q \<in> set (outstanding c)" "fst q = n" by blast
      with inv have "n < nextRequest c" unfolding requests_ok_def by blast
      with n show False by simp
    qed
    moreover have "normalizePostId p \<notin> snd ` set (outstanding c)" if h: "list_all (\<lambda>e. \<not> is_forced e) es \<and> \<not> f"
    proof
      assume "normalizePostId p \<in> snd ` set (outstanding c)"
      then obtain m where "(m, normalizePostId p) \<in> set (outstanding c)" by (metis imageE prod.collapse)
      moreover from inv h have "deduplicated c" by blast
      ultimately have "js_get (inflight c) (normalizePostId p) = Some m" unfolding deduplicated_def by blast
      with st(2) h show False by simp
    qed
    ultimately show ?thesis using Starts n by simp
  qed
qed

theorem image_reads_sound_witness:
  "(0, U ''7'') \<in> set (outstanding (snd (getPostImageRowsByPostId 5 (Str (U ''7'')) False empty_cache)))"
proof -
  have k: "normalizePostId (Str (U ''7'')) = U ''7''" by code_simp
  have "getPostImageRowsByPostId 5 (Str (U ''7'')) False empty_cache = start_request (U ''7'') empty_cache"
    by (simp add: getPostImageRowsByPostId_def Let_def k empty_cache_def js_get_def)
  then have r: "getPostImageRowsByPostId 5 (Str (U ''7'')) False empty_cache
      = (Starts 0, snd (start_request (U ''7'') empty_cache))"
    by (simp add: start_request_def empty_cache_def)
  from image_reads_sound [OF cache_run.start _ r] k show ?thesis by (simp add: r)
qed

text \<open>
  Emptying the cache does not reach the requests under way: rows that were requested
  before an invalidation are cached when they arrive after it, and served as fresh for the next
  minute.
\<close>

theorem invalidation_misses_requests_under_way:
  assumes "(n, key) \<in> set (outstanding c)" and "normalizePostId p = key" and "key \<noteq> []"
    and "0 < t" and "now - t < 60000"
  shows "cache_step (invalidatePostImagesCache c) (Answered key (ApiOk (Arr rows)) t)
      (snd (image_rows_reply t (n, key) (ApiOk (Arr rows)) (invalidatePostImagesCache c)))
    \<and> fst (getPostImageRowsByPostId now p False
        (snd (image_rows_reply t (n, key) (ApiOk (Arr rows)) (invalidatePostImagesCache c)))) = Rows rows"
proof
  show "cache_step (invalidatePostImagesCache c) (Answered key (ApiOk (Arr rows)) t)
      (snd (image_rows_reply t (n, key) (ApiOk (Arr rows)) (invalidatePostImagesCache c)))"
    using assms(1) by (intro cache_step.reply) (simp add: invalidatePostImagesCache_def)
  show "fst (getPostImageRowsByPostId now p False
        (snd (image_rows_reply t (n, key) (ApiOk (Arr rows)) (invalidatePostImagesCache c)))) = Rows rows"
    using assms(2-5)
    by (simp add: getPostImageRowsByPostId_def image_rows_reply_def Let_def table.get_put isCacheFresh_def
      LOOKUP_CACHE_TTL_MS_def)
qed

theorem invalidation_misses_requests_under_way_witness:
  "fst (getPostImageRowsByPostId 20 (Str (U ''7'')) False
      (snd (image_rows_reply 10 (0, U ''7'') (ApiOk (Arr [Null])) (invalidatePostImagesCache
        (snd (start_request (U ''7'') empty_cache)))))) = Rows [Null]"
proof -
  have "(0, U ''7'') \<in> set (outstanding (snd (start_request (U ''7'') empty_cache)))"
    by (simp add: start_request_def empty_cache_def)
  moreover have "normalizePostId (Str (U ''7'')) = U ''7''" by code_simp
  ultimately show ?thesis
    using invalidation_misses_requests_under_way [of 0 "U ''7''" _ "Str (U ''7'')" 10 20 "[Null]"] by simp
qed

text \<open>
  The pictures shown for a listing are never those of rows marked as deleted, are never
  blank, and the preview is a picture of the listing whenever it has one.
\<close>

theorem pictures_shown:
  "(\<forall>u \<in> set (mapPostImageRowsToUrls rows). u \<noteq> [] \<and>
       (\<exists>row \<in> set rows. \<not> row_deleted row \<and> u = extractPostImageUrl row))
   \<and> (getPostImagePreviewUrl rows = [] \<longleftrightarrow> (\<forall>row \<in> set rows. extractPostImageThumbnailUrl row = []))
   \<and> (mapPostImageRowsToUrls rows \<noteq> [] \<longrightarrow> getPostImagePreviewUrl rows \<noteq> [])"
proof -
  have thumb: "extractPostImageUrl row \<noteq> [] \<Longrightarrow> extractPostImageThumbnailUrl row \<noteq> []" for row
    by (cases "row_deleted row"; cases "flds row [''ThumbnailPostImageURL'', ''thumbnailPostImageURL'', ''thumbnailPostImageUrl'']")
      (simp_all add: extractPostImageThumbnailUrl_def extractPostImageUrl_def)
  have prev: "getPostImagePreviewUrl rows = [] \<longleftrightarrow> (\<forall>row \<in> set rows. extractPostImageThumbnailUrl row = [])"
    by (induction rows) (auto simp: getPostImagePreviewUrl_def)
  have urls: "\<forall>u \<in> set (mapPostImageRowsToUrls rows). u \<noteq> [] \<and>
       (\<exists>row \<in> set rows. \<not> row_deleted row \<and> u = extractPostImageUrl row)"
    by (auto simp: mapPostImageRowsToUrls_def) (auto simp: extractPostImageUrl_def split: if_splits)
  moreover have "mapPostImageRowsToUrls rows \<noteq> [] \<Longrightarrow> getPostImagePreviewUrl rows \<noteq> []"
    using prev thumb by (auto simp: mapPostImageRowsToUrls_def filter_empty_conv)
  ultimately show ?thesis using prev by blast
qed

theorem pictures_shown_witness:
  "getPostImagePreviewUrl [Obj [(U ''postImageURL'', Str (U ''/a.png''))]] \<noteq> []"
proof -
  have "mapPostImageRowsToUrls [Obj [(U ''postImageURL'', Str (U ''/a.png''))]] \<noteq> []" by code_simp
  with pictures_shown [of "[Obj [(U ''postImageURL'', Str (U ''/a.png''))]]"] show ?thesis by blast
qed

end
