(* ===== verification/Json.thy ===== *)
theory Json
  imports Normalizers
begin

text \<open>
  \<open>JSON.parse\<close>: a recursive descent parser over code units, \<open>None\<close> where it throws a
  \<open>SyntaxError\<close>.  The fuel bounds the number of nested calls; a value of n units needs at most
  two calls per unit, and \<open>JSON_parse\<close> starts with three per unit.  Of a repeated key the last
  value is kept.  The parser consumes what it accepts, and its result does not depend on the fuel once it
  is enough.
\<close>

definition json_ws :: "nat \<Rightarrow> bool" where
  "json_ws c \<longleftrightarrow> c = 32 \<or> c = 9 \<or> c = 10 \<or> c = 13"

definition skip_ws :: "ustr \<Rightarrow> ustr" where
  "skip_ws s = dropWhile json_ws s"

definition simple_escape :: "nat \<Rightarrow> nat option" where
  "simple_escape c =
     (if c = 34 \<or> c = 92 \<or> c = 47 then Some c
      else if c = 98 then Some 8 else if c = 102 then Some 12 else if c = 110 then Some 10
      else if c = 114 then Some 13 else if c = 116 then Some 9 else None)"

definition hex_val :: "ustr \<Rightarrow> nat option" where
  "hex_val s =
     (if list_all (\<lambda>c. radix_digit c \<noteq> None) s
      then Some (foldl (\<lambda>a c. 16 * a + the (radix_digit c)) 0 s) else None)"

fun json_string :: "nat \<Rightarrow> ustr \<Rightarrow> (ustr \<times> ustr) option" where
  \<comment> \<open>the text up to the closing quote and what follows it\<close>
  "json_string n s =
     (if n = 0 then None
      else
        (case s of
           [] \<Rightarrow> None
         | c # r \<Rightarrow>
             if c = 34 then Some ([], r)
             else if c < 32 then None
             else if c \<noteq> 92 then map_option (\<lambda>(t, u). (c # t, u)) (json_string (n - 1) r)
             else
               (case r of
                  [] \<Rightarrow> None
                | e # r' \<Rightarrow>
                    (case simple_escape e of
                       Some d \<Rightarrow> map_option (\<lambda>(t, u). (d # t, u)) (json_string (n - 1) r')
                     | None \<Rightarrow>
                         if e = 117 \<and> 4 \<le> length r'
                         then (case hex_val (take 4 r') of
                                 Some d \<Rightarrow> map_option (\<lambda>(t, u). (d # t, u)) (json_string (n - 1) (drop 4 r'))
                               | None \<Rightarrow> None)
                         else None))))"

declare json_string.simps [simp del]

definition json_number :: "ustr \<Rightarrow> (jnum \<times> ustr) option" where
  "json_number s =
     (let neg = (s \<noteq> [] \<and> hd s = 45); u = (if neg then tl s else s);
          (ip, r1) = digit_span u;
          (dot, fp, r2) = (case r1 of c # r \<Rightarrow> if c = 46 then (True, digit_span r) else (False, [], r1)
                           | [] \<Rightarrow> (False, [], []));
          is_exp = (r2 \<noteq> [] \<and> (hd r2 = 101 \<or> hd r2 = 69));
          sg = (if is_exp \<and> tl r2 \<noteq> [] \<and> (hd (tl r2) = 43 \<or> hd (tl r2) = 45) then [hd (tl r2)] else []);
          (ed, r3) = (if is_exp then digit_span (drop (1 + length sg) r2) else ([], r2))
      in if ip = [] \<or> (hd ip = 48 \<and> tl ip \<noteq> []) \<or> (dot \<and> fp = []) \<or> (is_exp \<and> ed = []) then None
         else
           (let v = unsigned_decimal (ip @ (if dot then 46 # fp else []) @ (if is_exp then 101 # sg @ ed else []))
            in Some (if neg then neg_num v else v, r3)))"

fun json_value :: "nat \<Rightarrow> ustr \<Rightarrow> (jval \<times> ustr) option"
  and json_elements :: "nat \<Rightarrow> ustr \<Rightarrow> (jval list \<times> ustr) option"
  and json_members :: "nat \<Rightarrow> ustr \<Rightarrow> ((ustr \<times> jval) list \<times> ustr) option" where
  "json_value n s =
     (let t = skip_ws s in
      if n = 0 \<or> t = [] then None
      else if hd t = 34 then map_option (\<lambda>(x, r). (Str x, r)) (json_string (length t) (tl t))
      else if hd t = 91 then
        (let u = skip_ws (tl t) in
         if u \<noteq> [] \<and> hd u = 93 then Some (Arr [], tl u)
         else map_option (\<lambda>(xs, r). (Arr xs, r)) (json_elements (n - 1) u))
      else if hd t = 123 then
        (let u = skip_ws (tl t) in
         if u \<noteq> [] \<and> hd u = 125 then Some (Obj [], tl u)
         else map_option (\<lambda>(xs, r). (Obj (assoc_fill xs), r)) (json_members (n - 1) u))
      else if starts_with t (U ''true'') then Some (Bool True, drop 4 t)
      else if starts_with t (U ''false'') then Some (Bool False, drop 5 t)
      else if starts_with t (U ''null'') then Some (Null, drop 4 t)
      else map_option (\<lambda>(x, r). (Num x, r)) (json_number t))"
| "json_elements n s =
     (if n = 0 then None
      else
        (case json_value (n - 1) s of
           None \<Rightarrow> None
         | Some (v, r) \<Rightarrow>
             (let t = skip_ws r in
              if t = [] then None
              else if hd t = 93 then Some ([v], tl t)
              else if hd t = 44 then map_option (\<lambda>(vs, u). (v # vs, u)) (json_elements (n - 1) (tl t))
              else None)))"
| "json_members n s =
     (let k = skip_ws s in
      if n = 0 \<or> k = [] \<or> hd k \<noteq> 34 then None
      else
        (case json_string (length k) (tl k) of
           None \<Rightarrow> None
         | Some (key, r) \<Rightarrow>
             (let c = skip_ws r in
              if c = [] \<or> hd c \<noteq> 58 then None
              else
                (case json_value (n - 1) (tl c) of
                   None \<Rightarrow> None
                 | Some (v, r') \<Rightarrow>
                     (let t = skip_ws r' in
                      if t = [] then None
                      else if hd t = 125 then Some ([(key, v)], tl t)
                      else if hd t = 44 then map_option (\<lambda>(ms, u). ((key, v) # ms, u)) (json_members (n - 1) (tl t))
                      else None)))))"

declare json_value.simps [simp del] json_elements.simps [simp del] json_members.simps [simp del]

definition JSON_parse :: "ustr \<Rightarrow> jval option" where
  "JSON_parse s =
     (case json_value (3 * length s + 3) s of
        None \<Rightarrow> None
      | Some (v, r) \<Rightarrow> if skip_ws r = [] then Some v else None)"

lemma JSON_parse_sample:
  "JSON_parse (U ''{\"a\": [1, -2.5e1, \"x\", true], \"b\": null}'')
     = Some (Obj [(U ''a'', Arr [Num (Fin 1), Num (Fin (- 25)), Str (U ''x''), Bool True]), (U ''b'', Null)])"
  by code_simp

lemma JSON_parse_rejects: "JSON_parse (U ''<html>'') = None \<and> JSON_parse (U ''[01]'') = None"
  by code_simp

section \<open>The fuel is enough\<close>


lemma skip_ws_length: "length (skip_ws s) \<le> length s"
  by (simp add: skip_ws_def length_dropWhile_le)

lemma json_string_shorter: "json_string n s = Some (t, r) \<Longrightarrow> length r < length s"
proof (induction n arbitrary: s t r)
  case 0 then show ?case by (simp add: json_string.simps)
next
  case (Suc n)
  then show ?case
    by (subst (asm) (2) json_string.simps)
      (auto split: list.splits if_splits option.splits dest!: Suc.IH simp: less_Suc_eq)
qed

lemma json_string_fuel: "length s < n \<Longrightarrow> length s < m \<Longrightarrow> json_string n s = json_string m s"
proof (induction "length s" arbitrary: s n m rule: less_induct)
  case less
  have rec: "json_string (n - 1) r = json_string (m - 1) r" if "length r < length s" for r
    by (rule less.hyps [OF that]) (use less.prems that in simp_all)
  have "json_string (n - 1) (drop 4 r) = json_string (m - 1) (drop 4 r)" if "s = c # e # r" for c e r
    using that by (intro rec) auto
  then show ?case
    using less.prems rec
    by (subst (1 2) json_string.simps) (auto split: list.splits option.splits)
qed

lemma digit_span_length: "digit_span s = (a, b) \<Longrightarrow> length a + length b = length s"
  by (metis digit_span_def Pair_inject length_append takeWhile_dropWhile_id)

lemma guardD: "(if C then None else Some (w, r')) = Some (x, r) \<Longrightarrow> r = r' \<and> \<not> C"
  by (simp split: if_split_asm)

lemma json_number_shorter:
  assumes "json_number s = Some (x, r)" shows "length r < length s"
proof -
  define u where "u = (if s \<noteq> [] \<and> hd s = 45 then tl s else s)"
  obtain ip r1 where 1: "digit_span u = (ip, r1)" by fastforce
  obtain dot fp r2 where 2: "(case r1 of c # r \<Rightarrow> if c = 46 then (True, digit_span r) else (False, [], r1)
                           | [] \<Rightarrow> (False, [], [])) = (dot, fp, r2)" by (metis prod_cases3)
  define e where "e = (r2 \<noteq> [] \<and> (hd r2 = 101 \<or> hd r2 = 69))"
  define sg where "sg = (if e \<and> tl r2 \<noteq> [] \<and> (hd (tl r2) = 43 \<or> hd (tl r2) = 45) then [hd (tl r2)] else [])"
  obtain ed r3 where 3: "(if e then digit_span (drop (1 + length sg) r2) else ([], r2)) = (ed, r3)" by fastforce
  note parsed = assms [unfolded json_number_def Let_def u_def [symmetric] 1 prod.case 2 e_def [symmetric]
      sg_def [symmetric] 3]
  have "r = r3 \<and> ip \<noteq> []" using guardD [OF parsed] by simp
  moreover have "length r3 \<le> length r2" using 3 digit_span_length by (fastforce split: if_splits)
  moreover have "length r2 \<le> length r1" using 2 digit_span_length by (fastforce split: list.splits if_splits)
  moreover have "length ip + length r1 = length u" "length u \<le> length s" using 1 digit_span_length by (auto simp: u_def)
  ultimately show ?thesis by (cases ip) auto
qed

definition json_shorter_at :: "nat \<Rightarrow> bool" where
  "json_shorter_at n \<longleftrightarrow>
     (\<forall>s v r. json_value n s = Some (v, r) \<longrightarrow> length r < length s)
   \<and> (\<forall>s vs r. json_elements n s = Some (vs, r) \<longrightarrow> length r < length s)
   \<and> (\<forall>s ms r. json_members n s = Some (ms, r) \<longrightarrow> length r < length s)"

lemma json_value_shorter_step:
  assumes "json_shorter_at (n - 1)" and "json_value n s = Some (v, r)"
  shows "length r < length s"
proof (cases "skip_ws s")
  case Nil
  then show ?thesis using assms(2) by (subst (asm) json_value.simps) simp
next
  case (Cons c t)
  have s: "length (c # t) \<le> length s" using skip_ws_length [of s] Cons by simp
  have t: "length (skip_ws t) \<le> length t" by (rule skip_ws_length)
  have "length r < length (c # t)"
  proof (cases "c = 34 \<or> c = 91 \<or> c = 123")
    case True
    consider "c = 34" | "c = 91" | "c = 123" using True by blast
    then show ?thesis
    proof cases
      case 1
      then show ?thesis using assms(2) Cons by (subst (asm) json_value.simps) (auto simp: Let_def dest!: json_string_shorter split: if_splits)
    next
      case 2
      then have "r = tl (skip_ws t) \<or> (\<exists>vs. json_elements (n - 1) (skip_ws t) = Some (vs, r))"
        using assms(2) Cons by (subst (asm) json_value.simps) (auto simp: Let_def split: if_splits)
      then show ?thesis using assms(1) t unfolding json_shorter_at_def by fastforce
    next
      case 3
      then have "r = tl (skip_ws t) \<or> (\<exists>vs. json_members (n - 1) (skip_ws t) = Some (vs, r))"
        using assms(2) Cons by (subst (asm) json_value.simps) (auto simp: Let_def split: if_splits)
      then show ?thesis using assms(1) t unfolding json_shorter_at_def by fastforce
    qed
  next
    case False
    then have "(\<exists>k>0. r = drop k (c # t)) \<or> (\<exists>x. json_number (c # t) = Some (x, r))"
      using assms(2) Cons by (subst (asm) json_value.simps) (fastforce simp: Let_def split: if_splits)
    then show ?thesis using json_number_shorter by fastforce
  qed
  then show ?thesis using s by simp
qed

lemma json_elements_shorter_step:
  assumes "json_shorter_at (n - 1)" and "json_elements n s = Some (vs, r)"
  shows "length r < length s"
proof -
  obtain v u where v: "json_value (n - 1) s = Some (v, u)"
    and r: "r = tl (skip_ws u) \<or> (\<exists>ws. json_elements (n - 1) (tl (skip_ws u)) = Some (ws, r))"
    using assms(2) by (subst (asm) json_elements.simps) (auto simp: Let_def split: if_splits option.splits)
  have "length (tl (skip_ws u)) < length s"
    using v assms(1) skip_ws_length [of u] unfolding json_shorter_at_def by fastforce
  then show ?thesis using r assms(1) unfolding json_shorter_at_def by fastforce
qed

lemma json_members_shorter_step:
  assumes "json_shorter_at (n - 1)" and "json_members n s = Some (ms, r)"
  shows "length r < length s"
proof -
  obtain key q v u where k: "skip_ws s \<noteq> []" "json_string (length (skip_ws s)) (tl (skip_ws s)) = Some (key, q)"
    and v: "json_value (n - 1) (tl (skip_ws q)) = Some (v, u)"
    and r: "r = tl (skip_ws u) \<or> (\<exists>ws. json_members (n - 1) (tl (skip_ws u)) = Some (ws, r))"
    using assms(2) by (subst (asm) json_members.simps) (auto simp: Let_def split: if_splits option.splits)
  have "length q < length s" using json_string_shorter [OF k(2)] k(1) skip_ws_length [of s] by simp
  then have "length (tl (skip_ws q)) < length s" using skip_ws_length [of q] by simp
  moreover have "length u < length (tl (skip_ws q))" using v assms(1) unfolding json_shorter_at_def by blast
  ultimately have "length (tl (skip_ws u)) < length s" using skip_ws_length [of u] by simp
  then show ?thesis using r assms(1) unfolding json_shorter_at_def by fastforce
qed

lemma json_shorter_all: "json_shorter_at n"
proof (induction n)
  case 0
  show ?case
    unfolding json_shorter_at_def
    by (intro conjI allI impI; subst (asm) json_value.simps json_elements.simps json_members.simps; simp add: Let_def)
next
  case (Suc n)
  then have "json_shorter_at (Suc n - 1)" by simp
  from json_value_shorter_step [OF this] json_elements_shorter_step [OF this] json_members_shorter_step [OF this]
  show ?case unfolding json_shorter_at_def [of "Suc n"] by blast
qed

lemma json_shorter:
  "json_value n s = Some (v, r) \<Longrightarrow> length r < length s"
  "json_elements n s = Some (vs, r) \<Longrightarrow> length r < length s"
  "json_members n s = Some (ms, r) \<Longrightarrow> length r < length s"
  using json_shorter_all [of n] unfolding json_shorter_at_def by blast+

lemma json_value_fuel_step:
  assumes "\<And>r. length r < length s \<Longrightarrow> json_elements (n - 1) r = json_elements (m - 1) r"
    and "\<And>r. length r < length s \<Longrightarrow> json_members (n - 1) r = json_members (m - 1) r" and "n \<noteq> 0" "m \<noteq> 0"
  shows "json_value n s = json_value m s"
proof (cases "skip_ws s")
  case Nil
  then show ?thesis by (subst (1 2) json_value.simps) simp
next
  case (Cons c t)
  have "length (skip_ws t) < length s"
    using skip_ws_length [of t] skip_ws_length [of s] Cons by simp
  from assms(1) [OF this] assms(2) [OF this] show ?thesis
    using Cons assms(3,4) by (subst (1 2) json_value.simps, cases "skip_ws t") (simp_all add: Let_def)
qed

lemma json_elements_fuel_step:
  assumes "json_value (n - 1) s = json_value (m - 1) s"
    and "\<And>r. length r < length s \<Longrightarrow> json_elements (n - 1) r = json_elements (m - 1) r" and "n \<noteq> 0" "m \<noteq> 0"
  shows "json_elements n s = json_elements m s"
proof (cases "json_value (m - 1) s")
  case None
  then show ?thesis using assms by (subst (1 2) json_elements.simps) simp
next
  case (Some x)
  then obtain v r where x: "json_value (m - 1) s = Some (v, r)" by (cases x) auto
  then have "length r < length s" by (rule json_shorter)
  then have "length (tl (skip_ws r)) < length s" using skip_ws_length [of r] by simp
  from assms(2) [OF this] show ?thesis
    using x assms by (subst (1 2) json_elements.simps) (simp add: Let_def)
qed

lemma json_members_fuel_step:
  assumes "\<And>r. length r < length s \<Longrightarrow> json_value (n - 1) r = json_value (m - 1) r"
    and "\<And>r. length r < length s \<Longrightarrow> json_members (n - 1) r = json_members (m - 1) r" and "n \<noteq> 0" "m \<noteq> 0"
  shows "json_members n s = json_members m s"
proof (cases "skip_ws s")
  case Nil
  then show ?thesis by (subst (1 2) json_members.simps) simp
next
  case (Cons c t)
  show ?thesis
  proof (cases "json_string (length (skip_ws s)) t")
    case None
    then show ?thesis using Cons by (subst (1 2) json_members.simps) (simp add: Let_def)
  next
    case (Some x)
    then obtain k r where key: "json_string (length (skip_ws s)) t = Some (k, r)" by (cases x) auto
    then have "length r < length t" by (rule json_string_shorter)
    then have 1: "length (tl (skip_ws r)) < length s"
      using skip_ws_length [of r] skip_ws_length [of s] Cons by simp
    show ?thesis
    proof (cases "json_value (m - 1) (tl (skip_ws r))")
      case None
      then show ?thesis using Cons key assms(1) [OF 1] by (subst (1 2) json_members.simps) (simp add: Let_def)
    next
      case (Some y)
      then obtain v u where v: "json_value (m - 1) (tl (skip_ws r)) = Some (v, u)" by (cases y) auto
      then have "length u < length (tl (skip_ws r))" by (rule json_shorter)
      then have "length (tl (skip_ws u)) < length s" using skip_ws_length [of u] 1 by simp
      from assms(2) [OF this] show ?thesis
        using Cons key v assms(1) [OF 1] assms(3,4) by (subst (1 2) json_members.simps) (simp add: Let_def)
    qed
  qed
qed

lemma json_fuel:
  "(2 * length s < n \<and> 2 * length s < m \<longrightarrow> json_value n s = json_value m s)
   \<and> (2 * length s + 1 < n \<and> 2 * length s + 1 < m
       \<longrightarrow> json_elements n s = json_elements m s \<and> json_members n s = json_members m s)"
proof (induction "length s" arbitrary: s n m rule: less_induct)
  case less
  note IH = less.hyps [THEN conjunct1, rule_format, OF _ conjI] less.hyps [THEN conjunct2, rule_format, OF _ conjI]
  note v = IH(1) and e = IH(2) [THEN conjunct1] and k = IH(2) [THEN conjunct2]
  have vals: "json_value n s = json_value m s" if "2 * length s < n" "2 * length s < m" for n m
    by (rule json_value_fuel_step [OF e k]) (use that in simp_all)
  have "json_elements n s = json_elements m s" if "2 * length s + 1 < n" "2 * length s + 1 < m"
    by (rule json_elements_fuel_step [OF vals e]) (use that in simp_all)
  moreover have "json_members n s = json_members m s" if "2 * length s + 1 < n" "2 * length s + 1 < m"
    by (rule json_members_fuel_step [OF v k]) (use that in simp_all)
  ultimately show ?case using vals by blast
qed


text \<open>
  Claim C70.  \<open>JSON.parse\<close> terminates with the fuel it is given: any fuel above two per unit yields the
  value \<open>JSON_parse\<close> yields, every accepted value consumes at least one unit of the text, and the
  scanner of strings needs no more than one call per unit.
\<close>

theorem json_parse_terminates:
  assumes "2 * length s < n"
  shows "JSON_parse s = (case json_value n s of None \<Rightarrow> None
           | Some (v, r) \<Rightarrow> if skip_ws r = [] then Some v else None)
    \<and> (json_value n s = Some (v, r) \<longrightarrow> length r < length s)
    \<and> json_string (length s + k + 1) s = json_string (length s + 1) s"
  using json_fuel [of s "3 * length s + 3" n] assms json_shorter(1)
  by (simp add: JSON_parse_def json_string_fuel [of s "Suc (length s + k)" "Suc (length s)"])

theorem json_parse_terminates_witness:
  "JSON_parse (U ''[true]'') = Some (Arr [Bool True]) \<and> json_value 13 (U ''[true]'') = Some (Arr [Bool True], [])
   \<and> length ([] :: ustr) < length (U ''[true]'')"
proof -
  have n: "2 * length (U ''[true]'') < 13" by (simp add: U_def)
  have v: "json_value 13 (U ''[true]'') = Some (Arr [Bool True], [])" by code_simp
  show ?thesis using json_parse_terminates [OF n, of "Arr [Bool True]" "[]"] by (simp add: v skip_ws_def)
qed

end
