(* ===== verification/ApiClient.thy ===== *)
theory ApiClient
  imports AuthPolicy Json
begin

text \<open>
  The HTTP helper behind every API call (\<open>services/api/client.ts\<close>, \<open>csrfPolicy.ts\<close>): CSRF
  tokens, one retry of transient failures, one token refresh, one CSRF retry, and the translation
  of every outcome into an \<open>ApiResponse\<close>.

  The network and the browser are inputs: \<open>script\<close> lists what the successive \<open>fetch\<close> calls come
  back with, including the XSRF cookie the browser holds afterwards and whether the caller has
  aborted by then; \<open>sent\<close> logs the requests, newest first.  A script that runs out stands for a
  network that does not answer (\<open>Failed to fetch\<close>).  \<open>refreshing\<close> is a token refresh of another
  request that is under way, with the result it will have.
\<close>

section \<open>The browser and the network\<close>

record http_reply =
  rp_status :: int
  rp_statusText :: ustr
  rp_text :: ustr
  rp_cookie :: "ustr option"
  rp_callerAborted :: bool

datatype fetch_outcome =
    Replied http_reply
  | FetchRejected (rej_error: thrown) (rej_callerAborted: bool) (rej_didTimeout: bool)

record sent_request =
  sent_method :: ustr
  sent_endpoint :: ustr
  sent_csrf :: "ustr option"

record client_state =
  xsrf_cookie :: "ustr option"
  store :: storage
  script :: "fetch_outcome list"
  sent :: "sent_request list"
  refreshing :: "bool option"

definition rp_ok :: "http_reply \<Rightarrow> bool" where
  "rp_ok r \<longleftrightarrow> 200 \<le> rp_status r \<and> rp_status r \<le> 299"

definition no_answer :: fetch_outcome where
  "no_answer = FetchRejected (JsError (U ''TypeError'') (U ''Failed to fetch'')) False False"

definition http_fetch :: "ustr \<Rightarrow> ustr \<Rightarrow> ustr option \<Rightarrow> client_state \<Rightarrow> fetch_outcome \<times> client_state" where
  "http_fetch method endpoint csrf st =
     (let out = (case script st of [] \<Rightarrow> no_answer | r # _ \<Rightarrow> r) in
      (out,
       st\<lparr> sent := \<lparr> sent_method = method, sent_endpoint = endpoint, sent_csrf = csrf \<rparr> # sent st,
           script := tl (script st),
           xsrf_cookie := (case out of Replied r \<Rightarrow> rp_cookie r | _ \<Rightarrow> xsrf_cookie st) \<rparr>))"

section \<open>Policies\<close>

definition ANONYMOUS_AUTH_WRITE_ENDPOINTS :: "ustr list" where
  "ANONYMOUS_AUTH_WRITE_ENDPOINTS =
     [U ''/auth/login'', U ''/auth/signup'', U ''/auth/2fa/verify-login'', U ''/auth/forgot-password/request'',
      U ''/auth/forgot-password/verify'', U ''/auth/forgot-password/confirm'']"

definition shouldPrimeCsrfForEndpoint :: "ustr \<Rightarrow> bool" where
  "shouldPrimeCsrfForEndpoint endpoint =
     (if endpoint = [] then True
      else \<not> list_ex (\<lambda>p. starts_with endpoint p) ANONYMOUS_AUTH_WRITE_ENDPOINTS)"

definition isUnsafeMethod :: "ustr \<Rightarrow> bool" where
  "isUnsafeMethod method =
     (let normalized = upper method in
      \<not> (normalized = U ''GET'' \<or> normalized = U ''HEAD'' \<or> normalized = U ''OPTIONS'' \<or> normalized = U ''TRACE''))"

definition isRetryableTransientStatus :: "int \<Rightarrow> bool" where
  "isRetryableTransientStatus status \<longleftrightarrow> status = 502 \<or> status = 503 \<or> status = 504"

type_synonym headers = "(ustr \<times> ustr) list"

definition hasAuthorizationHeader :: "headers \<Rightarrow> bool" where
  "hasAuthorizationHeader hs =
     list_ex (\<lambda>(key, v). lower key = U ''authorization'' \<and> length (trim v) > 0) hs"

definition hasLikelyAuthenticatedSession :: "storage \<Rightarrow> bool" where
  "hasLikelyAuthenticatedSession ls =
     (if getItem ls AUTH_LOGOUT_KEY = Some (U ''true'') then False
      else if getItem ls AUTH_SESSION_HINT_KEY = Some (U ''true'') then True
      else list_ex (\<lambda>k. getItem ls k \<noteq> None) AUTH_LEGACY_KEYS)"

definition hasLikelyAdminSession :: "storage \<Rightarrow> bool" where
  "hasLikelyAdminSession ls =
     (if \<not> hasLikelyAuthenticatedSession ls then False
      else getItem ls AUTH_ADMIN_ACCESS_HINT_KEY = Some (U ''true''))"

definition AUTH_ENDPOINTS_NO_RETRY :: "ustr list" where
  "AUTH_ENDPOINTS_NO_RETRY =
     [U ''/auth/login'', U ''/auth/signup'', U ''/auth/refresh'', U ''/auth/me'', U ''/auth/logout'',
      U ''/auth/forgot-password/request'', U ''/auth/forgot-password/verify'', U ''/auth/forgot-password/confirm'',
      U ''/auth/2fa/verify-login'', U ''/auth/verify-email'', U ''/auth/verify-email/resend'']"

definition shouldAttemptRefresh :: "ustr \<Rightarrow> headers \<Rightarrow> storage \<Rightarrow> bool" where
  "shouldAttemptRefresh endpoint hs ls =
     (if hasAuthorizationHeader hs then False
      else if \<not> hasLikelyAuthenticatedSession ls then False
      else \<not> list_ex (\<lambda>p. starts_with endpoint p) AUTH_ENDPOINTS_NO_RETRY)"

section \<open>CSRF tokens and token refresh\<close>

definition cookie_token :: "client_state \<Rightarrow> ustr option" where
  \<comment> \<open>a present, non-empty cookie\<close>
  "cookie_token st = (case xsrf_cookie st of Some t \<Rightarrow> if t = [] then None else Some t | None \<Rightarrow> None)"

definition resolveCsrfToken ::
    "ustr \<Rightarrow> ustr \<Rightarrow> headers \<Rightarrow> bool \<Rightarrow> client_state \<Rightarrow> ustr option \<times> client_state" where
  "resolveCsrfToken endpoint method hs forceRefresh st =
     (if \<not> isUnsafeMethod method \<or> hasAuthorizationHeader hs then (None, st)
      else if cookie_token st \<noteq> None \<and> \<not> forceRefresh then (cookie_token st, st)
      else if \<not> forceRefresh \<and> \<not> shouldPrimeCsrfForEndpoint endpoint then (None, st)
      else (let (_, st1) = http_fetch (U ''GET'') (U ''/auth/me'') None st in (cookie_token st1, st1)))"

definition clear_session_hints :: "client_state \<Rightarrow> client_state" where
  "clear_session_hints st =
     st\<lparr> store := removeItem (removeItem (store st) AUTH_SESSION_HINT_KEY) AUTH_ADMIN_ACCESS_HINT_KEY \<rparr>"

definition attemptTokenRefresh :: "client_state \<Rightarrow> bool \<times> client_state" where
  "attemptTokenRefresh st =
     (case refreshing st of
        Some b \<Rightarrow> (b, st)
      | None \<Rightarrow>
          (let (csrfToken, st1) = resolveCsrfToken (U ''/auth/refresh'') (U ''POST'')
                 [(U ''Content-Type'', U ''application/json'')] False st;
               (out, st2) = http_fetch (U ''POST'') (U ''/auth/refresh'') csrfToken st1
           in case out of
                Replied r \<Rightarrow> if rp_ok r then (True, st2) else (False, clear_session_hints st2)
              | FetchRejected _ _ _ \<Rightarrow> (False, st2)))"

section \<open>Interpreting the outcome\<close>

definition BACKEND_TIMEOUT_MESSAGE :: ustr where
  "BACKEND_TIMEOUT_MESSAGE = U ''Request timed out. Please try again later.''"

definition BACKEND_CONNECTION_MESSAGE :: ustr where
  "BACKEND_CONNECTION_MESSAGE = U ''Unable to connect to the server. Please try again later.''"

definition api_failure :: "ustr \<Rightarrow> ustr \<Rightarrow> jval \<Rightarrow> thrown + api_response" where
  "api_failure code msg details =
     Inr (ApiErr \<lparr> err_code = code, err_message = msg, err_details = details \<rparr>)"

definition http_code :: "http_reply \<Rightarrow> ustr" where
  "http_code r = U ''HTTP_'' @ int_str (rp_status r)"

definition createAbortError :: thrown where
  "createAbortError = JsError (U ''AbortError'') (U ''Request cancelled'')"

definition aborted_result :: "bool \<Rightarrow> thrown + api_response" where
  "aborted_result throwOnAbort =
     (if throwOnAbort then Inl createAbortError
      else api_failure (U ''ABORTED'') (U ''Request cancelled'') Undef)"

definition request_failed :: "bool \<Rightarrow> thrown \<Rightarrow> bool \<Rightarrow> bool \<Rightarrow> thrown + api_response" where
  \<comment> \<open>the \<open>catch\<close> block\<close>
  "request_failed throwOnAbort error callerAborted didTimeout =
     (case error of
        JsError name msg \<Rightarrow>
          if name = U ''AbortError''
          then (if callerAborted \<and> \<not> didTimeout then aborted_result throwOnAbort
                else api_failure (U ''TIMEOUT'') BACKEND_TIMEOUT_MESSAGE Undef)
          else if includes_any msg [''Failed to fetch'', ''ERR_CONNECTION_REFUSED'', ''NetworkError'']
          then api_failure (U ''CONNECTION_REFUSED'') BACKEND_CONNECTION_MESSAGE Undef
          else api_failure (U ''NETWORK_ERROR'') msg Undef
      | ThrownValue _ \<Rightarrow>
          api_failure (U ''NETWORK_ERROR'') (U ''Network error. Please check if the backend is running.'') Undef)"

definition first_entry :: "jval \<Rightarrow> jval" where
  \<comment> \<open>\<open>o[Object.keys(o)[0]]\<close>\<close>
  "first_entry v = (case v of Obj (kv # _) \<Rightarrow> snd kv | Arr (x # _) \<Rightarrow> x | _ \<Rightarrow> Undef)"

definition first_key_truthy :: "jval \<Rightarrow> bool" where
  "first_key_truthy v = (case v of Obj (kv # _) \<Rightarrow> fst kv \<noteq> [] | Arr (_ # _) \<Rightarrow> True | _ \<Rightarrow> False)"

definition http_error_message :: "http_reply \<Rightarrow> jval \<Rightarrow> ustr" where
  "http_error_message r data =
     (let errorMessage = text_or
            [fld data ''message'', fld data ''Message'', fld data ''detail'',
             fld (fld data ''error'') ''message'', fld (fld data ''error'') ''Message'', Str (rp_statusText r)]
            (U ''An error occurred'')
      in case first_entry (fld data ''errors'') of
           Arr (x # _) \<Rightarrow> if first_key_truthy (fld data ''errors'') then to_str x else errorMessage
         | _ \<Rightarrow> errorMessage)"

definition interpret_reply :: "bool \<Rightarrow> http_reply \<Rightarrow> thrown + api_response" where
  "interpret_reply throwOnAbort r =
     (let txt = rp_text r in
      if trim txt = [] then
        (if rp_ok r then Inr (ApiOk Null)
         else api_failure (http_code r) (or_else (rp_statusText r) (U ''An error occurred'')) Null)
      else
        (case JSON_parse txt of
           None \<Rightarrow>
             if \<not> rp_ok r then api_failure (http_code r) (trim txt) (Obj [(U ''rawResponse'', Str txt)])
             else Inr (ApiOk (Str txt))
         | Some data \<Rightarrow>
             if \<not> rp_ok r
             then (if is_nullish data
                   then request_failed throwOnAbort
                     (JsError (U ''TypeError'') (U ''Cannot read properties of null (reading 'message')''))
                     (rp_callerAborted r) False
                   else api_failure (http_code r) (http_error_message r data) data)
             else Inr (ApiOk data)))"

section \<open>apiRequest\<close>

record request_options =
  opt_method :: ustr
  opt_headers :: headers
  opt_throwOnAbort :: bool
  opt_abortedBefore :: bool   \<comment> \<open>the caller aborts before the request is sent\<close>

definition retry_transient ::
    "ustr \<Rightarrow> ustr \<Rightarrow> ustr option \<Rightarrow> http_reply \<Rightarrow> client_state \<Rightarrow> fetch_outcome \<times> client_state" where
  "retry_transient endpoint method csrf r st =
     (if \<not> isUnsafeMethod method \<and> isRetryableTransientStatus (rp_status r) \<and> \<not> rp_callerAborted r
      then http_fetch method endpoint csrf st else (Replied r, st))"

definition retry_refreshed ::
    "ustr \<Rightarrow> ustr \<Rightarrow> headers \<Rightarrow> ustr option \<Rightarrow> http_reply \<Rightarrow> client_state \<Rightarrow> fetch_outcome \<times> client_state" where
  "retry_refreshed endpoint method hs csrf r st =
     (if rp_status r = 401 \<and> shouldAttemptRefresh endpoint hs (store st)
      then (let (refreshed, st1) = attemptTokenRefresh st in
            if refreshed
            then (let (freshCsrfToken, st2) = resolveCsrfToken endpoint method hs False st1 in
                  http_fetch method endpoint (if freshCsrfToken \<noteq> None then freshCsrfToken else csrf) st2)
            else (Replied r, st1))
      else (Replied r, st))"

definition retry_csrf ::
    "ustr \<Rightarrow> ustr \<Rightarrow> headers \<Rightarrow> http_reply \<Rightarrow> client_state \<Rightarrow> fetch_outcome \<times> client_state" where
  "retry_csrf endpoint method hs r st =
     (if rp_status r = 403 \<and> isUnsafeMethod method \<and> \<not> hasAuthorizationHeader hs
         \<and> \<not> starts_with endpoint (U ''/auth/login'') \<and> \<not> starts_with endpoint (U ''/auth/signup'')
      then (let (freshCsrfToken, st1) = resolveCsrfToken endpoint method hs True st in
            if freshCsrfToken \<noteq> None then http_fetch method endpoint freshCsrfToken st1 else (Replied r, st1))
      else (Replied r, st))"

definition on_reply ::
    "(http_reply \<Rightarrow> client_state \<Rightarrow> fetch_outcome \<times> client_state) \<Rightarrow> fetch_outcome \<times> client_state
     \<Rightarrow> fetch_outcome \<times> client_state" where
  \<comment> \<open>continue unless the previous \<open>fetch\<close> threw\<close>
  "on_reply k p = (case p of (Replied r, st) \<Rightarrow> k r st | (FetchRejected e a d, st) \<Rightarrow> (FetchRejected e a d, st))"

definition apiRequest ::
    "ustr \<Rightarrow> request_options \<Rightarrow> client_state \<Rightarrow> (thrown + api_response) \<times> client_state" where
  "apiRequest endpoint options st =
     (let method = upper (or_else (opt_method options) (U ''GET''));
          hs = opt_headers options;
          (csrfToken, st1) = resolveCsrfToken endpoint method hs False st
      in if opt_abortedBefore options then (aborted_result (opt_throwOnAbort options), st1)
         else
           (let p1 = http_fetch method endpoint csrfToken st1;
                p2 = on_reply (retry_transient endpoint method csrfToken) p1;
                p3 = on_reply (retry_refreshed endpoint method hs csrfToken) p2;
                (out, st4) = on_reply (retry_csrf endpoint method hs) p3
            in case out of
                 Replied r \<Rightarrow> (interpret_reply (opt_throwOnAbort options) r, st4)
               | FetchRejected e aborted timedOut \<Rightarrow>
                   (request_failed (opt_throwOnAbort options) e aborted timedOut, st4)))"

section \<open>What a request sends\<close>

text \<open>
  \<open>sends st st' m n\<close>: between the two states at most \<open>m\<close> requests were sent, at most \<open>n\<close> of them
  token refreshes, every request with a safe method without CSRF token, and only replies of the
  script were consumed.
\<close>

definition REFRESH :: ustr where "REFRESH = U ''/auth/refresh''"

definition safe_without_csrf :: "sent_request \<Rightarrow> bool" where
  "safe_without_csrf q \<longleftrightarrow> (\<not> isUnsafeMethod (sent_method q) \<longrightarrow> sent_csrf q = None)"

definition sends :: "client_state \<Rightarrow> client_state \<Rightarrow> nat \<Rightarrow> nat \<Rightarrow> bool" where
  "sends st st' m n \<longleftrightarrow>
     (\<exists>log. sent st' = log @ sent st \<and> length log \<le> m
        \<and> length (filter (\<lambda>q. sent_endpoint q = REFRESH) log) \<le> n \<and> list_all safe_without_csrf log)
     \<and> set (script st') \<subseteq> set (script st)"

lemma sends_refl [simp]: "sends st st m n"
  by (simp add: sends_def)

lemma sends_trans:
  assumes "sends s t m n" and "sends t u k l"
  shows "sends s u (m + k) (n + l)"
proof -
  from assms obtain a b where "sent t = a @ sent s" "sent u = b @ sent t"
    "length a \<le> m" "length b \<le> k" "list_all safe_without_csrf a" "list_all safe_without_csrf b"
    "length (filter (\<lambda>q. sent_endpoint q = REFRESH) a) \<le> n"
    "length (filter (\<lambda>q. sent_endpoint q = REFRESH) b) \<le> l"
    by (auto simp: sends_def)
  then have "sent u = (b @ a) @ sent s \<and> length (b @ a) \<le> m + k
      \<and> length (filter (\<lambda>q. sent_endpoint q = REFRESH) (b @ a)) \<le> n + l \<and> list_all safe_without_csrf (b @ a)"
    by simp
  with assms show ?thesis unfolding sends_def by blast
qed

lemma sends_mono: "sends s t m n \<Longrightarrow> m \<le> m' \<Longrightarrow> n \<le> n' \<Longrightarrow> sends s t m' n'"
  unfolding sends_def by (meson le_trans)

lemma sends_fetch:
  assumes "http_fetch method endpoint csrf st = (out, st')" and "isUnsafeMethod method \<or> csrf = None"
  shows "sends st st' 1 (if endpoint = REFRESH then 1 else 0)"
proof -
  from assms(1) have "sent st' = [\<lparr> sent_method = method, sent_endpoint = endpoint, sent_csrf = csrf \<rparr>] @ sent st"
    and "set (script st') \<subseteq> set (script st)"
    by (auto simp: http_fetch_def Let_def intro: list.set_sel(2))
  with assms(2) show ?thesis
    unfolding sends_def by (intro conjI exI) (auto simp: safe_without_csrf_def)
qed

lemma fetched_reply: "http_fetch m e c st = (Replied r, st') \<Longrightarrow> Replied r \<in> set (script st)"
  by (cases "script st") (auto simp: http_fetch_def Let_def no_answer_def)

lemma me_not_refresh [simp]: "U ''/auth/me'' \<noteq> REFRESH"
  by (simp add: REFRESH_def)

lemma sends_resolveCsrf:
  assumes "resolveCsrfToken e m hs f st = (tok, st')"
  shows "sends st st' 1 0"
proof (cases "st' = st")
  case False
  with assms obtain out where "http_fetch (U ''GET'') (U ''/auth/me'') None st = (out, st')"
    by (auto simp: resolveCsrfToken_def split: if_splits prod.splits)
  from sends_fetch [OF this] show ?thesis by simp
qed simp

lemma resolveCsrf_safe:
  "resolveCsrfToken e m hs f st = (tok, st') \<Longrightarrow> \<not> isUnsafeMethod m \<Longrightarrow> tok = None \<and> st' = st"
  by (simp add: resolveCsrfToken_def)


text \<open>Each stage keeps to its budget and hands on a reply of the script.\<close>

definition stage :: "client_state \<Rightarrow> nat \<Rightarrow> nat \<Rightarrow> fetch_outcome \<times> client_state \<Rightarrow> bool" where
  "stage st m n p \<longleftrightarrow>
     sends st (snd p) m n \<and> (\<forall>r. fst p = Replied r \<longrightarrow> Replied r \<in> set (script st))"

lemma sends_script: "sends s t m n \<Longrightarrow> x \<in> set (script t) \<Longrightarrow> x \<in> set (script s)"
  by (auto simp: sends_def)

lemma stage_fetch:
  assumes "sends st st1 m n" and "isUnsafeMethod method \<or> csrf = None"
  shows "stage st (m + 1) (n + (if e = REFRESH then 1 else 0)) (http_fetch method e csrf st1)"
proof -
  obtain out st2 where f: "http_fetch method e csrf st1 = (out, st2)" by (cases "http_fetch method e csrf st1")
  have "sends st st2 (m + 1) (n + (if e = REFRESH then 1 else 0))"
    by (rule sends_trans [OF assms(1) sends_fetch [OF f assms(2)]])
  then show ?thesis using f fetched_reply [of "method" e csrf st1] sends_script [OF assms(1)]
    by (auto simp: stage_def)
qed


lemma stage_on_reply:
  assumes p: "stage st m n p"
    and k: "\<And>r s. Replied r \<in> set (script s) \<or> p = (Replied r, s) \<Longrightarrow>
      sends s (snd (k r s)) m' n' \<and> (\<forall>r'. fst (k r s) = Replied r' \<longrightarrow> r' = r \<or> Replied r' \<in> set (script s))"
  shows "stage st (m + m') (n + n') (on_reply k p)"
proof (cases p)
  case (Pair out s)
  show ?thesis
  proof (cases out)
    case (Replied r)
    with Pair p have 1: "sends st s m n" and r: "Replied r \<in> set (script st)" by (auto simp: stage_def)
    from k [of r s] Pair Replied have 2: "sends s (snd (k r s)) m' n'"
      and 3: "\<forall>r'. fst (k r s) = Replied r' \<longrightarrow> r' = r \<or> Replied r' \<in> set (script s)" by auto
    from sends_trans [OF 1 2] 3 r sends_script [OF 1] Pair Replied show ?thesis
      by (auto simp: stage_def on_reply_def)
  next
    case (FetchRejected e a d)
    with Pair p show ?thesis by (auto simp: stage_def on_reply_def intro: sends_mono)
  qed
qed

lemma stage_step:
  "stage s m n (k r s) \<or> k r s = (Replied r, s) \<Longrightarrow>
     sends s (snd (k r s)) m n \<and> (\<forall>r'. fst (k r s) = Replied r' \<longrightarrow> r' = r \<or> Replied r' \<in> set (script s))"
  by (auto simp: stage_def)

lemma step_transient:
  assumes "isUnsafeMethod m \<or> csrf = None" and "e \<noteq> REFRESH"
  shows "sends s (snd (retry_transient e m csrf r s)) (if isUnsafeMethod m then 0 else 1) 0
    \<and> (\<forall>r'. fst (retry_transient e m csrf r s) = Replied r' \<longrightarrow> r' = r \<or> Replied r' \<in> set (script s))"
  using stage_fetch [OF sends_refl [of s 0 0] assms(1), of e] assms(2)
  by (auto simp: retry_transient_def stage_def)


lemma step_csrf:
  assumes "e \<noteq> REFRESH"
  shows "sends s (snd (retry_csrf e m hs r s)) (if isUnsafeMethod m then 2 else 0) 0
    \<and> (\<forall>r'. fst (retry_csrf e m hs r s) = Replied r' \<longrightarrow> r' = r \<or> Replied r' \<in> set (script s))"
proof (cases "rp_status r = 403 \<and> isUnsafeMethod m \<and> \<not> hasAuthorizationHeader hs
     \<and> \<not> starts_with e (U ''/auth/login'') \<and> \<not> starts_with e (U ''/auth/signup'')")
  case True
  obtain tok s1 where t: "resolveCsrfToken e m hs True s = (tok, s1)" by (cases "resolveCsrfToken e m hs True s")
  from True have c: "isUnsafeMethod m \<or> tok = None" by simp
  have 1: "stage s 2 0 (http_fetch m e tok s1)"
    using stage_fetch [OF sends_resolveCsrf [OF t] c, of e] assms by (simp add: numeral_2_eq_2)
  have 2: "sends s s1 2 0" using sends_resolveCsrf [OF t] by (rule sends_mono) simp_all
  show ?thesis
    using True t 1 2 by (cases "tok = None") (auto simp: retry_csrf_def stage_def)
qed (auto simp: retry_csrf_def)


section \<open>Properties\<close>






definition plain_options :: "string \<Rightarrow> request_options" where
  "plain_options m = \<lparr> opt_method = U m, opt_headers = [], opt_throwOnAbort = False, opt_abortedBefore = False \<rparr>"

definition offline_client :: client_state where
  "offline_client = \<lparr> xsrf_cookie = None, store = (\<lambda>_. None), script = [], sent = [], refreshing = None \<rparr>"


lemma store_resolveCsrf: "resolveCsrfToken e m hs f st = (tok, st') \<Longrightarrow> store st' = store st"
  by (auto simp: resolveCsrfToken_def http_fetch_def Let_def split: if_splits)

lemma store_fetch [simp]: "store (snd (http_fetch m e c st)) = store st"
  by (simp add: http_fetch_def Let_def)

lemma quiet_refresh:
  "\<not> shouldAttemptRefresh e hs (store st) \<Longrightarrow> retry_refreshed e m hs c r st = (Replied r, st)"
  by (simp add: retry_refreshed_def)

lemma store_on_reply:
  assumes "store (snd p) = store st" and "\<And>r s. store (snd (k r s)) = store s"
  shows "store (snd (on_reply k p)) = store st"
  using assms by (cases p; cases "fst p") (auto simp: on_reply_def)

lemma quiet_on_reply:
  assumes "\<not> shouldAttemptRefresh e hs (store st)" and "store (snd p) = store st"
  shows "on_reply (retry_refreshed e m hs c) p = p"
  using assms by (cases p; cases "fst p") (auto simp: on_reply_def quiet_refresh)

lemma store_transient: "store (snd (retry_transient e m c r s)) = store s"
  by (simp add: retry_transient_def)

lemma store_csrf: "store (snd (retry_csrf e m hs r s)) = store s"
  by (cases "resolveCsrfToken e m hs True s") (simp add: retry_csrf_def store_resolveCsrf)

text \<open>
  Claim C12. A session is refreshed only where that makes sense: without a stored session hint or after an explicit
  logout, for a request that brings its own authorization, and for the authentication endpoints
  themselves, no refresh is sent and the stored session hints are left alone.
\<close>

theorem refresh_only_for_sessions:
  assumes "hasAuthorizationHeader (opt_headers o1) \<or> \<not> hasLikelyAuthenticatedSession (store st)
      \<or> (\<exists>p \<in> set AUTH_ENDPOINTS_NO_RETRY. starts_with e p)"
    and e: "e \<noteq> U ''/auth/refresh''"
  shows "\<exists>log. sent (snd (apiRequest e o1 st)) = log @ sent st
      \<and> U ''/auth/refresh'' \<notin> sent_endpoint ` set log
      \<and> store (snd (apiRequest e o1 st)) = store st"
proof -
  let ?m = "upper (or_else (opt_method o1) (U ''GET''))" and ?hs = "opt_headers o1"
  have e': "e \<noteq> REFRESH" using e by (simp add: REFRESH_def)
  have q: "\<not> shouldAttemptRefresh e (opt_headers o1) (store st)"
    using assms(1) by (auto simp: shouldAttemptRefresh_def list_ex_iff)
  obtain tok st1 where t: "resolveCsrfToken e ?m ?hs False st = (tok, st1)"
    by (cases "resolveCsrfToken e ?m ?hs False st")
  have c: "isUnsafeMethod ?m \<or> tok = None" using resolveCsrf_safe [OF t] by auto
  define p1 where "p1 = http_fetch ?m e tok st1"
  define p2 where "p2 = on_reply (retry_transient e ?m tok) p1"
  define p4 where "p4 = on_reply (retry_csrf e ?m ?hs) p2"
  have "stage st (1 + 1) (0 + 0) p1"
    unfolding p1_def using stage_fetch [OF sends_resolveCsrf [OF t] c, of e] e' by simp
  then have "stage st (1 + 1 + (if isUnsafeMethod ?m then 0 else 1)) (0 + 0 + 0) p2"
    unfolding p2_def using step_transient [OF c e'] by (rule stage_on_reply)
  then have "stage st (1 + 1 + (if isUnsafeMethod ?m then 0 else 1) + (if isUnsafeMethod ?m then 2 else 0))
      (0 + 0 + 0 + 0) p4"
    unfolding p4_def using step_csrf [OF e'] by (rule stage_on_reply)
  then have p4: "sends st (snd p4) 8 0" unfolding stage_def by (auto intro: sends_mono)
  have s1: "store (snd p1) = store st" using store_resolveCsrf [OF t] by (simp add: p1_def)
  then have s2: "store (snd p2) = store st"
    unfolding p2_def by (rule store_on_reply) (rule store_transient)
  then have s4: "store (snd p4) = store st"
    unfolding p4_def by (rule store_on_reply) (rule store_csrf)
  have "on_reply (retry_refreshed e ?m ?hs tok) p2 = p2" by (rule quiet_on_reply [OF q s2])
  then have "snd (apiRequest e o1 st) = snd p4 \<or> snd (apiRequest e o1 st) = st1"
    by (simp add: apiRequest_def Let_def t p1_def [symmetric] p2_def [symmetric] p4_def [symmetric]
        split: prod.split fetch_outcome.split)
  moreover have "sends st st1 8 0" using sends_resolveCsrf [OF t] by (rule sends_mono) simp_all
  moreover have "store st1 = store st" using store_resolveCsrf [OF t] .
  ultimately have "sends st (snd (apiRequest e o1 st)) 8 0 \<and> store (snd (apiRequest e o1 st)) = store st"
    using p4 s4 by auto
  then obtain log where "sent (snd (apiRequest e o1 st)) = log @ sent st"
    and n: "\<forall>x \<in> set log. sent_endpoint x \<noteq> U ''/auth/refresh''"
    and "store (snd (apiRequest e o1 st)) = store st"
    by (auto simp: sends_def REFRESH_def filter_empty_conv)
  moreover from n have "U ''/auth/refresh'' \<notin> sent_endpoint ` set log" by fastforce
  ultimately show ?thesis by blast
qed

theorem refresh_only_for_sessions_witness:
  "store (snd (apiRequest (U ''/posts'') (plain_options ''GET'') offline_client)) = store offline_client"
proof -
  have "\<not> hasLikelyAuthenticatedSession (store offline_client)"
    by (simp add: offline_client_def hasLikelyAuthenticatedSession_def getItem_def AUTH_LEGACY_KEYS_def)
  then have q: "hasAuthorizationHeader (opt_headers (plain_options ''GET''))
      \<or> \<not> hasLikelyAuthenticatedSession (store offline_client)
      \<or> (\<exists>p \<in> set AUTH_ENDPOINTS_NO_RETRY. starts_with (U ''/posts'') p)" by blast
  have e: "U ''/posts'' \<noteq> U ''/auth/refresh''" by simp
  from refresh_only_for_sessions [OF q e] show ?thesis by blast
qed

text \<open>
  A rejected refresh clears the session hints, so that without legacy keys no later
  request attempts one; with a legacy key left in the store the next request attempts it again,
  although the code means to break that loop.
\<close>

theorem rejected_refresh:
  assumes "cookie_token st = Some tok" and "refreshing st = None"
    and "script st = Replied r # rest" and "\<not> rp_ok r"
  shows "fst (attemptTokenRefresh st) = False
    \<and> getItem (store (snd (attemptTokenRefresh st))) AUTH_SESSION_HINT_KEY = None
    \<and> (shouldAttemptRefresh e hs (store (snd (attemptTokenRefresh st))) \<longleftrightarrow>
         (\<exists>k \<in> set AUTH_LEGACY_KEYS. getItem (store st) k \<noteq> None)
         \<and> getItem (store st) AUTH_LOGOUT_KEY \<noteq> Some (U ''true'')
         \<and> \<not> hasAuthorizationHeader hs
         \<and> \<not> list_ex (\<lambda>p. starts_with e p) AUTH_ENDPOINTS_NO_RETRY)"
proof -
  have u: "isUnsafeMethod (U ''POST'')" by code_simp
  have h: "\<not> hasAuthorizationHeader [(U ''Content-Type'', U ''application/json'')]" by code_simp
  have c: "resolveCsrfToken (U ''/auth/refresh'') (U ''POST'')
      [(U ''Content-Type'', U ''application/json'')] False st = (Some tok, st)"
    using assms(1) u h by (simp add: resolveCsrfToken_def)
  have a: "fst (attemptTokenRefresh st) = False"
    and s: "store (snd (attemptTokenRefresh st)) = clearAuthSessionHint (store st)"
    using assms(2-4) by (simp_all add: attemptTokenRefresh_def c http_fetch_def clear_session_hints_def
        clearAuthSessionHint_def)
  have "hasLikelyAuthenticatedSession (clearAuthSessionHint (store st)) \<longleftrightarrow>
      getItem (store st) AUTH_LOGOUT_KEY \<noteq> Some (U ''true'')
      \<and> (\<exists>k \<in> set AUTH_LEGACY_KEYS. getItem (store st) k \<noteq> None)"
    by (simp add: hasLikelyAuthenticatedSession_def clearAuthSessionHint_def web.get_del auth_keys)
  then show ?thesis
    unfolding s using a by (auto simp: shouldAttemptRefresh_def clearAuthSessionHint_def web.get_del)
qed

definition expired_client :: client_state where
  "expired_client = \<lparr> xsrf_cookie = Some (U ''t''), store = setItem (\<lambda>_. None) (U ''tijarahjo_token'') (U ''x''),
     script = [Replied \<lparr> rp_status = 401, rp_statusText = [], rp_text = [], rp_cookie = Some (U ''t''),
       rp_callerAborted = False \<rparr>], sent = [], refreshing = None \<rparr>"

theorem rejected_refresh_witness:
  "fst (attemptTokenRefresh expired_client) = False
   \<and> shouldAttemptRefresh (U ''/posts'') [] (store (snd (attemptTokenRefresh expired_client)))"
proof -
  let ?r = "\<lparr> rp_status = 401, rp_statusText = [], rp_text = [], rp_cookie = Some (U ''t''), rp_callerAborted = False \<rparr>"
  have a: "cookie_token expired_client = Some (U ''t'')" "refreshing expired_client = None"
    "script expired_client = Replied ?r # []" "\<not> rp_ok ?r"
    by (simp_all add: expired_client_def cookie_token_def rp_ok_def)
  have "\<not> list_ex (\<lambda>p. starts_with (U ''/posts'') p) AUTH_ENDPOINTS_NO_RETRY"
    by (simp add: AUTH_ENDPOINTS_NO_RETRY_def starts_with_def)
  moreover have "\<exists>k \<in> set AUTH_LEGACY_KEYS. getItem (store expired_client) k \<noteq> None"
    "getItem (store expired_client) AUTH_LOGOUT_KEY \<noteq> Some (U ''true'')" "\<not> hasAuthorizationHeader []"
    by (simp_all add: expired_client_def auth_keys web.get_put hasAuthorizationHeader_def getItem_def setItem_def)
  ultimately show ?thesis using rejected_refresh [OF a, of "U ''/posts''" "[]"] by blast
qed

end
