(* ===== verification/Lookups.thy ===== *)
theory Lookups
  imports Catalog ImageCache ApiClient
begin

text \<open>
  The cached lookup tables behind the listings (\<open>services/api/posts/lookups.resolvers.ts\<close>): category
  names, seller names, seller ratings, cities and areas; the resolution of names to identifiers;
  and the enrichment of raw listings.  The module variables are the record \<open>lookup_state\<close>, what the
  server would answer to each request is \<open>lookup_server\<close>.  Each operation runs to its end before the
  next; sharing one promise between concurrent callers, modelled for the image rows, is left out.

  A JavaScript object used as a table is an association list; \<open>object_entries\<close> lists it in the
  order of \<open>Object.entries\<close>, array indices first in numeric order.
\<close>

section \<open>Tables\<close>

record place_names =
  name_en :: ustr
  name_ar :: ustr

type_synonym 'v js_object = "(ustr \<times> 'v) list"

definition index_key :: "ustr \<Rightarrow> nat option" where
  "index_key s =
     (let n = digits_val s in
      if s \<noteq> [] \<and> list_all is_digit s \<and> nat_str n = s \<and> n < 4294967295 then Some n else None)"

definition object_entries :: "'v js_object \<Rightarrow> 'v js_object" where
  "object_entries kvs =
     js_sort (\<lambda>a b. int (the (index_key (fst a))) - int (the (index_key (fst b))))
       (filter (\<lambda>kv. index_key (fst kv) \<noteq> None) kvs)
     @ filter (\<lambda>kv. index_key (fst kv) = None) kvs"

record rating_entry =
  rate_average :: rat
  rate_count :: rat
  rate_updatedAt :: int

record lookup_state =
  categoriesCache :: "ustr js_object option"
  categoryIdByNameCache :: "int js_object option"
  categoriesCacheUpdatedAt :: int
  usersCache :: "ustr js_object option"
  usersCacheUpdatedAt :: int
  usersAllEndpointAccessible :: "bool option"
  sellerRatingsCache :: "rating_entry js_object"
  citiesCache :: "place_names js_object option"
  citiesCacheUpdatedAt :: int
  areasCacheByCityId :: "place_names js_object js_object"

definition initial_lookups :: lookup_state where
  "initial_lookups = \<lparr> categoriesCache = None, categoryIdByNameCache = None, categoriesCacheUpdatedAt = 0,
     usersCache = None, usersCacheUpdatedAt = 0, usersAllEndpointAccessible = None, sellerRatingsCache = [],
     citiesCache = None, citiesCacheUpdatedAt = 0, areasCacheByCityId = [] \<rparr>"

record lookup_server =
  srv_categories :: api_response
  srv_cities :: api_response
  srv_areas :: "int \<Rightarrow> api_response"
  srv_users :: api_response
  srv_user :: "ustr \<Rightarrow> api_response"
  srv_ratings :: "ustr list \<Rightarrow> api_response"

section \<open>Seller ratings\<close>

definition clean_ids :: "jval list \<Rightarrow> (ustr \<Rightarrow> bool) \<Rightarrow> ustr list" where
  \<comment> \<open>\<open>Array.from(new Set(ids.map((id) => String(id).trim()).filter(ok)))\<close>\<close>
  "clean_ids ids ok = uniq (filter ok (map (\<lambda>v. trim (to_str v)) ids))"

definition read_rating :: "lookup_state \<Rightarrow> ustr \<Rightarrow> rat \<times> rat" where
  "read_rating st userId =
     (case map_of (sellerRatingsCache st) userId of
        Some e \<Rightarrow> (rate_average e, rate_count e) | None \<Rightarrow> (0, 0))"

definition object_pairs :: "jval \<Rightarrow> (ustr \<times> jval) list" where
  \<comment> \<open>\<open>Object.entries\<close> of a parsed object or array\<close>
  "object_pairs v = (case v of Obj fs \<Rightarrow> object_entries fs
     | Arr vs \<Rightarrow> map (\<lambda>(i, x). (nat_str i, x)) (enumerate 0 vs) | _ \<Rightarrow> [])"

definition rating_of :: "int \<Rightarrow> jval \<Rightarrow> rating_entry" where
  "rating_of now stat =
     \<lparr> rate_average = (case to_num (coalesce [fld stat ''AverageRating'', Num (Fin 0)]) of
          Fin a \<Rightarrow> min 5 (max 0 a) | _ \<Rightarrow> 0),
       rate_count = (case to_num (coalesce [fld stat ''ReviewCount'', Num (Fin 0)]) of
          Fin n \<Rightarrow> if n > 0 then n else 0 | _ \<Rightarrow> 0),
       rate_updatedAt = now \<rparr>"

definition store_ratings :: "int \<Rightarrow> ustr list \<Rightarrow> api_response \<Rightarrow> lookup_state \<Rightarrow> lookup_state" where
  "store_ratings now staleIds response st =
     (let answered = (case response of ApiOk d \<Rightarrow> object_pairs d | ApiErr _ \<Rightarrow> []);
          filled = fold (\<lambda>(userId, stat) m. assoc_set userId (rating_of now stat) m) answered
                     (sellerRatingsCache st);
          zeroed = fold (\<lambda>userId m.
              (case map_of m userId of
                 Some e \<Rightarrow> if rate_updatedAt e \<noteq> now
                   then assoc_set userId \<lparr> rate_average = 0, rate_count = 0, rate_updatedAt = now \<rparr> m else m
               | None \<Rightarrow> assoc_set userId \<lparr> rate_average = 0, rate_count = 0, rate_updatedAt = now \<rparr> m))
            staleIds filled
      in st\<lparr> sellerRatingsCache := zeroed \<rparr>)"

definition staleOrMissing :: "int \<Rightarrow> bool \<Rightarrow> lookup_state \<Rightarrow> ustr list \<Rightarrow> ustr list" where
  "staleOrMissing now forceRefresh st ids =
     filter (\<lambda>userId. forceRefresh \<or>
        (case map_of (sellerRatingsCache st) userId of
           None \<Rightarrow> True | Some e \<Rightarrow> \<not> isCacheFresh now (rate_updatedAt e))) ids"

definition rated_ids :: "jval list \<Rightarrow> ustr list" where
  "rated_ids userIds = clean_ids userIds (\<lambda>s. toPositiveIntegerId (Str s) \<noteq> None)"

definition ensureSellerRatingsCache ::
    "int \<Rightarrow> lookup_server \<Rightarrow> bool \<Rightarrow> jval list \<Rightarrow> lookup_state \<Rightarrow> (rat \<times> rat) js_object \<times> lookup_state" where
  "ensureSellerRatingsCache now srv forceRefresh userIds st =
     (let ids = rated_ids userIds in
      if length ids = 0 then ([], st)
      else
        (let staleIds = staleOrMissing now forceRefresh st ids;
             st1 = (if length staleIds > 0 then store_ratings now staleIds (srv_ratings srv staleIds) st else st)
         in (map (\<lambda>userId. (userId, read_rating st1 userId)) ids, st1)))"

definition readCachedSellerRatings :: "lookup_state \<Rightarrow> jval list \<Rightarrow> (rat \<times> rat) js_object" where
  "readCachedSellerRatings st userIds =
     map (\<lambda>userId. (userId, read_rating st userId))
       (filter (\<lambda>s. s \<noteq> []) (map (\<lambda>v. trim (to_str v)) userIds))"

definition resolveSellerRatingsWithoutBlockingListings ::
    "int \<Rightarrow> lookup_server \<Rightarrow> bool \<Rightarrow> jval list \<Rightarrow> bool \<Rightarrow> lookup_state
     \<Rightarrow> (rat \<times> rat) js_object \<times> lookup_state" where
  \<comment> \<open>\<open>inTime\<close>: the answer arrives before the timer; if not, it is stored by a later event\<close>
  "resolveSellerRatingsWithoutBlockingListings now srv inTime userIds forceRefresh st =
     (if length userIds = 0 then ([], st)
      else if inTime then ensureSellerRatingsCache now srv forceRefresh userIds st
      else (readCachedSellerRatings st userIds, st))"

section \<open>Categories\<close>

definition normalizeCategoryNameKey :: "ustr \<Rightarrow> ustr" where
  "normalizeCategoryNameKey categoryName = lower (trim categoryName)"

definition category_entry :: "category \<Rightarrow> (int \<times> ustr) option" where
  "category_entry c =
     (case toPositiveIntegerId (Str (category_id c)) of
        None \<Rightarrow> None
      | Some i \<Rightarrow> if length (trim (category_name c)) > 0 then Some (i, trim (category_name c)) else None)"

definition opt_list :: "'a list option \<Rightarrow> 'a list" where
  \<comment> \<open>\<open>table ?? {}\<close>\<close>
  "opt_list t = (case t of None \<Rightarrow> [] | Some xs \<Rightarrow> xs)"

definition refresh_categories :: "int \<Rightarrow> ustr \<Rightarrow> lookup_server \<Rightarrow> lookup_state \<Rightarrow> lookup_state" where
  "refresh_categories now host srv st =
     (case getCategories host (srv_categories srv) of
        Some cs \<Rightarrow>
          (let es = List.map_filter category_entry cs
           in st\<lparr> categoriesCache := Some (fold (\<lambda>(i, n) m. assoc_set (int_str i) n m) es []),
                  categoryIdByNameCache :=
                    Some (fold (\<lambda>(i, n) m. assoc_set (normalizeCategoryNameKey n) i m) es []),
                  categoriesCacheUpdatedAt := now \<rparr>)
      | None \<Rightarrow> st\<lparr> categoriesCache := Some (opt_list (categoriesCache st)),
                  categoryIdByNameCache := Some (opt_list (categoryIdByNameCache st)) \<rparr>)"

definition ensureCategoriesCache ::
    "int \<Rightarrow> ustr \<Rightarrow> lookup_server \<Rightarrow> bool \<Rightarrow> lookup_state \<Rightarrow> ustr js_object \<times> lookup_state" where
  "ensureCategoriesCache now host srv forceRefresh st =
     (let keep = (\<not> forceRefresh \<and> categoriesCache st \<noteq> None \<and> isCacheFresh now (categoriesCacheUpdatedAt st));
          st1 = (if keep then st else refresh_categories now host srv st)
      in (opt_list (categoriesCache st1), st1))"

section \<open>Users\<close>

definition refresh_users :: "int \<Rightarrow> api_response \<Rightarrow> lookup_state \<Rightarrow> lookup_state" where
  "refresh_users now response st =
     (case response of
        ApiOk (Arr users) \<Rightarrow>
          st\<lparr> usersCache := Some (fold (\<lambda>user m.
                 (let userId = getUserIdentifier user in
                  if userId = [] then m else assoc_set userId (getUserDisplayName user (Str userId)) m)) users []),
              usersCacheUpdatedAt := now, usersAllEndpointAccessible := Some True \<rparr>
      | ApiOk _ \<Rightarrow> st
      | ApiErr e \<Rightarrow>
          if err_code e = U ''HTTP_401'' \<or> err_code e = U ''HTTP_403''
          then st\<lparr> usersAllEndpointAccessible := Some False \<rparr> else st)"

definition user_label :: "ustr \<Rightarrow> ustr" where
  "user_label userId = U ''User '' @ userId"

definition cache_user :: "api_response \<Rightarrow> ustr \<Rightarrow> ustr js_object \<Rightarrow> ustr js_object" where
  "cache_user response userId m =
     (case response of
        ApiOk d \<Rightarrow>
          if truthy d
          then (let resolvedUserId = or_else (getUserIdentifier d) userId;
                    displayName = getUserDisplayName d (Str resolvedUserId)
                in assoc_set userId displayName (assoc_set resolvedUserId displayName m))
          else assoc_set userId (user_label userId) m
      | ApiErr _ \<Rightarrow> assoc_set userId (user_label userId) m)"

definition known_user :: "ustr js_object \<Rightarrow> ustr \<Rightarrow> bool" where
  "known_user m userId \<longleftrightarrow> (case map_of m userId of Some n \<Rightarrow> n \<noteq> [] | None \<Rightarrow> False)"

definition ensureUsersCache ::
    "int \<Rightarrow> storage \<Rightarrow> lookup_server \<Rightarrow> bool \<Rightarrow> jval list \<Rightarrow> lookup_state
     \<Rightarrow> ustr js_object \<times> lookup_state" where
  "ensureUsersCache now ls srv forceRefresh userIds st0 =
     (let st = st0\<lparr> usersCache := Some (opt_list (usersCache st0)) \<rparr>;
          ids = clean_ids userIds (\<lambda>s. length s > 0 \<and> s \<noteq> U ''0'')
      in
        if length ids = 0 then (opt_list (usersCache st), st)
        else
          (let refreshAll = (forceRefresh \<or> \<not> isCacheFresh now (usersCacheUpdatedAt st)
                 \<or> length (opt_list (usersCache st)) = 0);
               canQueryList = (hasLikelyAdminSession ls \<and> usersAllEndpointAccessible st \<noteq> Some False);
               st1 = (if refreshAll \<and> canQueryList then refresh_users now (srv_users srv) st else st);
               m1 = opt_list (usersCache st1);
               missing = filter (\<lambda>i. \<not> known_user m1 i) ids
           in
             if length missing = 0 then (m1, st1)
             else
               (let m2 = (if hasLikelyAuthenticatedSession ls
                          then fold (\<lambda>i m. cache_user (srv_user srv i) i m) missing m1
                          else fold (\<lambda>i m. assoc_set i (user_label i) m) missing m1)
                in (m2, st1\<lparr> usersCache := Some m2, usersCacheUpdatedAt := now \<rparr>))))"

section \<open>Cities and areas\<close>

definition ensureCitiesCache ::
    "int \<Rightarrow> lookup_server \<Rightarrow> bool \<Rightarrow> lookup_state \<Rightarrow> place_names js_object \<times> lookup_state" where
  "ensureCitiesCache now srv forceRefresh st =
     (if \<not> forceRefresh \<and> citiesCache st \<noteq> None \<and> isCacheFresh now (citiesCacheUpdatedAt st)
      then (opt_list (citiesCache st), st)
      else
        (let next_cities = fold (\<lambda>c m. assoc_set (int_str (cityId c))
               \<lparr> name_en = cityName c, name_ar = cityNameAr c \<rparr> m) (getCities (srv_cities srv)) []
         in (next_cities, st\<lparr> citiesCache := Some next_cities, citiesCacheUpdatedAt := now \<rparr>)))"

definition areas_answer :: "lookup_server \<Rightarrow> jval \<Rightarrow> location_area list" where
  "areas_answer srv city =
     (case toPositiveIntegerId city of None \<Rightarrow> [] | Some i \<Rightarrow> getAreasByCity city (srv_areas srv i))"

definition ensureAreasCache ::
    "lookup_server \<Rightarrow> jnum \<Rightarrow> bool \<Rightarrow> lookup_state \<Rightarrow> place_names js_object \<times> lookup_state" where
  "ensureAreasCache srv city forceRefresh st =
     (case (if forceRefresh then None else map_of (areasCacheByCityId st) (num_str city)) of
        Some areas \<Rightarrow> (areas, st)
      | None \<Rightarrow>
          (let next_areas = fold (\<lambda>a m. assoc_set (int_str (areaId a))
                 \<lparr> name_en = areaName a, name_ar = areaNameAr a \<rparr> m) (areas_answer srv (Num city)) []
           in (next_areas, st\<lparr> areasCacheByCityId := assoc_set (num_str city) next_areas (areasCacheByCityId st) \<rparr>)))"

definition exact_name :: "ustr \<Rightarrow> ustr \<times> place_names \<Rightarrow> bool" where
  "exact_name v e \<longleftrightarrow> lower (name_en (snd e)) = v \<or> lower (name_ar (snd e)) = v \<or> fst e = v"

definition prefix_name :: "ustr \<Rightarrow> ustr \<times> place_names \<Rightarrow> bool" where
  "prefix_name v e \<longleftrightarrow> starts_with (lower (name_en (snd e))) v \<or> starts_with (lower (name_ar (snd e))) v"

definition infix_name :: "ustr \<Rightarrow> ustr \<times> place_names \<Rightarrow> bool" where
  "infix_name v e \<longleftrightarrow> js_includes (lower (name_en (snd e))) v \<or> js_includes (lower (name_ar (snd e))) v"

definition resolveLookupIdByName :: "place_names js_object \<Rightarrow> ustr \<Rightarrow> int option" where
  "resolveLookupIdByName entries normalizedValue =
     (case find (exact_name normalizedValue) entries of
        Some e \<Rightarrow> toPositiveIntegerId (Str (fst e))
      | None \<Rightarrow>
          (case find (prefix_name normalizedValue) entries of
             Some e \<Rightarrow> toPositiveIntegerId (Str (fst e))
           | None \<Rightarrow>
               (case find (infix_name normalizedValue) entries of
                  Some e \<Rightarrow> toPositiveIntegerId (Str (fst e))
                | None \<Rightarrow> None)))"

section \<open>Names to identifiers\<close>

definition resolveCategoryId ::
    "int \<Rightarrow> ustr \<Rightarrow> lookup_server \<Rightarrow> jval \<Rightarrow> bool \<Rightarrow> lookup_state \<Rightarrow> int option \<times> lookup_state" where
  "resolveCategoryId now host srv categoryValue forceRefresh st =
     (case toPositiveIntegerId categoryValue of
        Some i \<Rightarrow> (Some i, st)
      | None \<Rightarrow>
          (case categoryValue of
             Str s \<Rightarrow>
               if normalizeCategoryNameKey s = [] then (None, st)
               else
                 (let st1 = snd (ensureCategoriesCache now host srv forceRefresh st)
                  in (case map_of (opt_list (categoryIdByNameCache st1)) (normalizeCategoryNameKey s) of
                        None \<Rightarrow> None | Some i \<Rightarrow> toPositiveIntegerId (Num (Fin (of_int i))), st1))
           | _ \<Rightarrow> (None, st)))"

definition resolveCityId ::
    "int \<Rightarrow> lookup_server \<Rightarrow> jval \<Rightarrow> bool \<Rightarrow> lookup_state \<Rightarrow> int option \<times> lookup_state" where
  "resolveCityId now srv cityValue forceRefresh st =
     (case toPositiveIntegerId cityValue of
        Some i \<Rightarrow> (Some i, st)
      | None \<Rightarrow>
          (case cityValue of
             Str s \<Rightarrow>
               if trim s = [] then (None, st)
               else
                 (let (cities, st1) = ensureCitiesCache now srv forceRefresh st
                  in (resolveLookupIdByName (object_entries cities) (lower (trim s)), st1))
           | _ \<Rightarrow> (None, st)))"

definition resolveAreaId ::
    "lookup_server \<Rightarrow> jnum \<Rightarrow> jval \<Rightarrow> bool \<Rightarrow> lookup_state \<Rightarrow> int option \<times> lookup_state" where
  "resolveAreaId srv city areaValue forceRefresh st =
     (case toPositiveIntegerId areaValue of
        Some i \<Rightarrow> (Some i, st)
      | None \<Rightarrow>
          (case areaValue of
             Str s \<Rightarrow>
               if trim s = [] then (None, st)
               else
                 (let (areas, st1) = ensureAreasCache srv city forceRefresh st
                  in (resolveLookupIdByName (object_entries areas) (lower (trim s)), st1))
           | _ \<Rightarrow> (None, st)))"

section \<open>Enrichment\<close>

definition resolvePostUserId :: "jval \<Rightarrow> jval" where
  "resolvePostUserId post =
     flds post [''UserID'', ''userID'', ''UserId'', ''sellerId'', ''SellerId'', ''SellerID'']"

definition isUsableLookupId :: "jval \<Rightarrow> bool" where
  "isUsableLookupId v \<longleftrightarrow> (is_str v \<or> is_num v) \<and> trim (to_str v) \<noteq> [] \<and> to_str v \<noteq> U ''0''"

definition trimmed_text :: "jval \<Rightarrow> ustr" where
  \<comment> \<open>\<open>typeof v === "string" ? v.trim() : ""\<close>\<close>
  "trimmed_text v = (case v of Str s \<Rightarrow> trim s | _ \<Rightarrow> [])"

definition hasText :: "jval list \<Rightarrow> bool" where
  "hasText vs \<longleftrightarrow> list_ex (\<lambda>v. length (trimmed_text v) > 0) vs"

definition post_categoryKey :: "jval \<Rightarrow> jval" where
  "post_categoryKey post = flds post [''CategoryID'', ''categoryID'', ''CategoryId'']"

definition text_or_val :: "ustr \<Rightarrow> jval \<Rightarrow> jval" where
  \<comment> \<open>\<open>text || v\<close>\<close>
  "text_or_val t v = (if t = [] then v else Str t)"

record resolved_tables =
  resolvedCategories :: "ustr js_object"
  resolvedUsers :: "ustr js_object"
  resolvedCities :: "place_names js_object"
  resolvedSellerRatings :: "(rat \<times> rat) js_object"
  resolvedAreas :: "place_names js_object js_object"

definition enriched_category :: "resolved_tables \<Rightarrow> jval \<Rightarrow> ustr" where
  "enriched_category t post =
     (let categoryName = trim (to_str (or_vals [fld post ''Category'', fld post ''category'', Str []]));
          categoryId = post_categoryKey post
      in if categoryName = []
         then (if is_nullish categoryId then U ''Unknown''
               else (case map_of (resolvedCategories t) (to_str categoryId) of
                       Some n \<Rightarrow> or_else n (U ''Unknown'') | None \<Rightarrow> U ''Unknown''))
         else categoryName)"

definition enriched_seller :: "resolved_tables \<Rightarrow> jval \<Rightarrow> ustr" where
  "enriched_seller t post =
     (let existingSeller = trimmed_text (flds post [''Seller'', ''seller'']);
          userId = resolvePostUserId post
      in if existingSeller = []
         then (if is_nullish userId then U ''Unknown''
               else (case map_of (resolvedUsers t) (to_str userId) of
                       Some n \<Rightarrow> or_else n (user_label (to_str userId)) | None \<Rightarrow> user_label (to_str userId)))
         else existingSeller)"

definition found_place :: "place_names js_object \<Rightarrow> jval \<Rightarrow> place_names option" where
  "found_place m i = (if is_nullish i then None else map_of m (to_str i))"

definition name_or_found :: "ustr \<Rightarrow> (place_names \<Rightarrow> ustr) \<Rightarrow> place_names option \<Rightarrow> ustr" where
  "name_or_found existing f entry =
     (if existing = [] then (case entry of Some n \<Rightarrow> f n | None \<Rightarrow> []) else existing)"

definition enrich_post :: "resolved_tables \<Rightarrow> jval \<Rightarrow> jval" where
  "enrich_post t post =
     (let userId = resolvePostUserId post;
          city = flds post [''CityId'', ''cityId''];
          area = flds post [''AreaId'', ''areaId''];
          sellerRating = (if is_nullish userId then None else map_of (resolvedSellerRatings t) (to_str userId));
          cityEntry = found_place (resolvedCities t) city;
          cityNameEn = name_or_found (trimmed_text (flds post [''City'', ''city''])) name_en cityEntry;
          cityNameAr = name_or_found (trimmed_text (flds post [''LocationAr'', ''locationAr''])) name_ar cityEntry;
          areaEntry = (if is_nullish city then None
            else found_place (case map_of (resolvedAreas t) (to_str city) of Some m \<Rightarrow> m | None \<Rightarrow> []) area);
          areaNameEn = name_or_found (trimmed_text (flds post [''Area'', ''area''])) name_en areaEntry;
          areaNameAr = name_or_found (trimmed_text (flds post [''AreaAr'', ''areaAr''])) name_ar areaEntry
      in fold (\<lambda>(k, v) p. obj_set p k v)
           [(''Category'', Str (enriched_category t post)),
            (''Seller'', Str (enriched_seller t post)),
            (''City'', text_or_val cityNameEn (fld post ''City'')),
            (''LocationAr'', text_or_val cityNameAr (or_vals [fld post ''LocationAr'', fld post ''locationAr''])),
            (''Area'', text_or_val areaNameEn (fld post ''Area'')),
            (''AreaAr'', text_or_val areaNameAr (or_vals [fld post ''AreaAr'', fld post ''areaAr''])),
            (''AverageRating'', (case sellerRating of
                Some (a, n) \<Rightarrow> if n > 0 then Num (Fin a) else Undef | None \<Rightarrow> Undef)),
            (''ReviewCount'', (case sellerRating of
                Some (a, n) \<Rightarrow> if n > 0 then Num (Fin n) else Undef | None \<Rightarrow> Undef))]
           post)"

definition post_city_ids :: "jval list \<Rightarrow> jnum list" where
  "post_city_ids posts =
     uniq (filter (\<lambda>n. case n of Fin r \<Rightarrow> r > 0 | _ \<Rightarrow> False)
       (map (\<lambda>post. to_num (flds post [''CityId'', ''cityId'']))
         (filter (\<lambda>post. \<not> hasText [fld post ''Area'', fld post ''area'', fld post ''AreaAr'', fld post ''areaAr''])
           posts)))"

definition enrichPostsWithCategoryAndSeller ::
    "int \<Rightarrow> ustr \<Rightarrow> storage \<Rightarrow> lookup_server \<Rightarrow> bool \<Rightarrow> jval list \<Rightarrow> bool \<Rightarrow> lookup_state
     \<Rightarrow> jval list \<times> lookup_state" where
  "enrichPostsWithCategoryAndSeller now host ls srv inTime posts forceRefresh st =
     (let postUserIds = filter isUsableLookupId (map resolvePostUserId posts);
          sellerLookupUserIds = filter isUsableLookupId (map resolvePostUserId
            (filter (\<lambda>post. \<not> hasText [fld post ''Seller'', fld post ''seller'']) posts));
          needsCategoryLookup = list_ex (\<lambda>post. \<not> hasText [fld post ''Category'', fld post ''category'']
            \<and> isUsableLookupId (post_categoryKey post)) posts;
          needsCityLookup = list_ex (\<lambda>post.
            \<not> hasText [fld post ''City'', fld post ''city'', fld post ''LocationAr'', fld post ''locationAr'']
            \<and> toPositiveIntegerId (flds post [''CityId'', ''cityId'']) \<noteq> None) posts;
          (categories, st1) = (if needsCategoryLookup then ensureCategoriesCache now host srv forceRefresh st
            else (opt_list (categoriesCache st), st));
          (users, st2) = ensureUsersCache now ls srv forceRefresh sellerLookupUserIds st1;
          (cities, st3) = (if needsCityLookup then ensureCitiesCache now srv forceRefresh st2
            else (opt_list (citiesCache st2), st2));
          (ratings, st4) = resolveSellerRatingsWithoutBlockingListings now srv inTime postUserIds forceRefresh st3;
          st5 = fold (\<lambda>city s. snd (ensureAreasCache srv city forceRefresh s)) (post_city_ids posts) st4;
          tables = \<lparr> resolvedCategories = categories, resolvedUsers = users, resolvedCities = cities,
            resolvedSellerRatings = ratings, resolvedAreas = areasCacheByCityId st5 \<rparr>
      in (map (enrich_post tables) posts, st5))"

section \<open>Lemmas on tables\<close>

lemma set_object_entries [simp]: "set (object_entries kvs) = set kvs"
  by (auto simp: object_entries_def)

lemma fold_table: "fold (\<lambda>x m. assoc_set (k x) (v x) m) xs m = fold (\<lambda>(k, v) m. assoc_set k v m) (map (\<lambda>x. (k x, v x)) xs) m"
  by (induction xs arbitrary: m) auto

lemma set_table: "set (fold (\<lambda>x m. assoc_set (k x) (v x) m) xs m) \<subseteq> (\<lambda>x. (k x, v x)) ` set xs \<union> set m"
  unfolding fold_table using fold_assoc_set(2) [of "map (\<lambda>x. (k x, v x)) xs" m] by simp

lemma table_distinct:
  "distinct (map k xs) \<Longrightarrow> fold (\<lambda>x m. assoc_set (k x) (v x) m) xs [] = map (\<lambda>x. (k x, v x)) xs"
  unfolding fold_table using fold_assoc_set(3) [of "[]" "map (\<lambda>x. (k x, v x)) xs"] by (simp add: comp_def)

lemma starts_with_includes: "starts_with s v \<Longrightarrow> js_includes s v"
  by (auto simp: starts_with_def js_includes_def)

lemma find_mem: "find P xs = Some x \<Longrightarrow> x \<in> set xs \<and> P x"
  by (metis find_Some_iff nth_mem)

lemma find_None: "find P xs = None \<longleftrightarrow> (\<forall>x \<in> set xs. \<not> P x)"
  by (auto simp: find_None_iff)

lemma resolve_entry:
  assumes "\<exists>x \<in> set es. exact_name v x \<or> infix_name v x"
  shows "\<exists>e \<in> set es. resolveLookupIdByName es v = toPositiveIntegerId (Str (fst e))
    \<and> (if \<exists>x \<in> set es. exact_name v x then exact_name v e
       else if \<exists>x \<in> set es. prefix_name v x then prefix_name v e else infix_name v e)"
proof (cases "find (exact_name v) es")
  case (Some e)
  with find_mem [OF Some] show ?thesis by (auto simp: resolveLookupIdByName_def)
next
  case ex: None
  then have nex: "\<not> (\<exists>x \<in> set es. exact_name v x)" by (simp add: find_None)
  show ?thesis
  proof (cases "find (prefix_name v) es")
    case (Some e)
    with find_mem [OF Some] nex show ?thesis by (auto simp: resolveLookupIdByName_def ex)
  next
    case pre: None
    then have npre: "\<not> (\<exists>x \<in> set es. prefix_name v x)" by (simp add: find_None)
    from assms nex have "find (infix_name v) es \<noteq> None" by (auto simp: find_None)
    then obtain e where e: "find (infix_name v) es = Some e" by blast
    with find_mem [OF e] nex npre show ?thesis by (auto simp: resolveLookupIdByName_def ex pre)
  qed
qed

lemma resolve_None:
  assumes "\<not> (\<exists>x \<in> set es. exact_name v x \<or> infix_name v x)"
  shows "resolveLookupIdByName es v = None"
proof -
  have "find (exact_name v) es = None" "find (infix_name v) es = None" using assms by (auto simp: find_None)
  moreover have "find (prefix_name v) es = None"
    using assms starts_with_includes by (fastforce simp: find_None prefix_name_def infix_name_def)
  ultimately show ?thesis by (simp add: resolveLookupIdByName_def)
qed

definition ids_ok :: "place_names js_object \<Rightarrow> bool" where
  "ids_ok m \<longleftrightarrow> (\<forall>e \<in> set m. toPositiveIntegerId (Str (fst e)) \<noteq> None)"

lemma ids_ok_cities: "ids_ok (fold (\<lambda>c m. assoc_set (int_str (cityId c)) (v c) m) (getCities r) [])"
  using set_table [of "\<lambda>c. int_str (cityId c)" v "getCities r" "[]"]
    toPositiveIntegerId_int_str getCities_id by (fastforce simp: ids_ok_def)

lemma ids_ok_areas: "ids_ok (fold (\<lambda>a m. assoc_set (int_str (areaId a)) (v a) m) (areas_answer srv c) [])"
proof -
  have "a \<in> set (areas_answer srv c) \<Longrightarrow> 0 < areaId a \<and> areaId a \<le> MAX_SAFE_INTEGER" for a
    using getAreasByCity_id by (auto simp: areas_answer_def split: option.splits)
  then show ?thesis
    using set_table [of "\<lambda>a. int_str (areaId a)" v "areas_answer srv c" "[]"] toPositiveIntegerId_int_str
    by (fastforce simp: ids_ok_def)
qed

lemma obj_set_Obj: "\<exists>gs. obj_set (Obj fs) k v = Obj gs"
  by (simp add: obj_set_def)

section \<open>The invariant of the caches\<close>

declare toPositiveIntegerId.simps [simp del]

definition vals_all :: "('v \<Rightarrow> bool) \<Rightarrow> 'v js_object \<Rightarrow> bool" where
  "vals_all P m \<longleftrightarrow> (\<forall>kv \<in> set m. P (snd kv))"

lemma vals_all_Nil [simp]: "vals_all P []"
  by (simp add: vals_all_def)

lemma vals_all_set: "vals_all P m \<Longrightarrow> P v \<Longrightarrow> vals_all P (assoc_set k v m)"
  by (induction k v m rule: assoc_set.induct) (auto simp: vals_all_def)

lemma vals_all_get: "vals_all P m \<Longrightarrow> map_of m k = Some v \<Longrightarrow> P v"
  unfolding vals_all_def by (metis map_of_SomeD snd_conv)

lemma vals_all_fold:
  "vals_all P m \<Longrightarrow> (\<And>x m. x \<in> set xs \<Longrightarrow> vals_all P m \<Longrightarrow> vals_all P (f x m)) \<Longrightarrow> vals_all P (fold f xs m)"
  by (induction xs arbitrary: m) auto

definition bounded_rating :: "rating_entry \<Rightarrow> bool" where
  "bounded_rating e \<longleftrightarrow> 0 \<le> rate_average e \<and> rate_average e \<le> 5 \<and> 0 \<le> rate_count e"

definition valid_id :: "int \<Rightarrow> bool" where
  "valid_id i \<longleftrightarrow> 0 < i \<and> i \<le> MAX_SAFE_INTEGER"

definition lookups_ok :: "lookup_state \<Rightarrow> bool" where
  "lookups_ok st \<longleftrightarrow>
     vals_all bounded_rating (sellerRatingsCache st)
     \<and> ids_ok (opt_list (citiesCache st)) \<and> vals_all ids_ok (areasCacheByCityId st)
     \<and> vals_all (\<lambda>n. n \<noteq> []) (opt_list (usersCache st))
     \<and> vals_all (\<lambda>n. n \<noteq> []) (opt_list (categoriesCache st))
     \<and> vals_all valid_id (opt_list (categoryIdByNameCache st))"

inductive lookup_step :: "lookup_state \<Rightarrow> lookup_state \<Rightarrow> bool" where
  category: "lookup_step st (snd (resolveCategoryId now host srv v force st))"
| city: "lookup_step st (snd (resolveCityId now srv v force st))"
| area: "lookup_step st (snd (resolveAreaId srv c v force st))"
| enrich: "lookup_step st (snd (enrichPostsWithCategoryAndSeller now host ls srv inTime posts force st))"
| late_ratings: "lookup_step st (store_ratings now staleIds response st)"

inductive lookup_reachable :: "lookup_state \<Rightarrow> bool" where
  init: "lookup_reachable initial_lookups"
| more: "lookup_reachable st \<Longrightarrow> lookup_step st st' \<Longrightarrow> lookup_reachable st'"

lemma opt_list_simps [simp]: "opt_list None = []" "opt_list (Some xs) = xs"
  by (simp_all add: opt_list_def)

lemma bounded_rating_of: "bounded_rating (rating_of now v)"
  by (simp add: bounded_rating_def rating_of_def split: jnum.split)

lemma bounded_zero: "bounded_rating \<lparr> rate_average = 0, rate_count = 0, rate_updatedAt = now \<rparr>"
  by (simp add: bounded_rating_def)

lemma bounded_store:
  assumes "vals_all bounded_rating (sellerRatingsCache st)"
  shows "vals_all bounded_rating (sellerRatingsCache (store_ratings now ids r st))"
  unfolding store_ratings_def Let_def lookup_state.select_convs lookup_state.update_convs
  using assms
  by (auto intro!: vals_all_fold vals_all_set bounded_rating_of bounded_zero split: option.split)

lemma lookups_ok_store: "lookups_ok st \<Longrightarrow> lookups_ok (store_ratings now ids r st)"
  using bounded_store [of st now ids r] by (simp add: lookups_ok_def) (simp add: store_ratings_def Let_def)

lemma lookups_ok_ratings:
  "lookups_ok st \<Longrightarrow> lookups_ok (snd (resolveSellerRatingsWithoutBlockingListings now srv inTime ids force st))"
  by (simp add: resolveSellerRatingsWithoutBlockingListings_def ensureSellerRatingsCache_def Let_def lookups_ok_store)

lemma category_entry_ok: "category_entry c = Some (i, n) \<Longrightarrow> valid_id i \<and> n \<noteq> []"
  using toPositiveIntegerId_range [of "Str (category_id c)"]
  by (auto simp: category_entry_def valid_id_def split: option.splits if_splits)

lemma lookups_ok_categories: "lookups_ok st \<Longrightarrow> lookups_ok (refresh_categories now host srv st)"
proof (cases "getCategories host (srv_categories srv)")
  case (Some cs)
  let ?es = "List.map_filter category_entry cs"
  have es: "(i, n) \<in> set ?es \<Longrightarrow> valid_id i \<and> n \<noteq> []" for i n
    using category_entry_ok by (auto simp: set_map_filter)
  have "vals_all (\<lambda>n. n \<noteq> []) (fold (\<lambda>(i, n) m. assoc_set (int_str i) n m) ?es [])"
    by (rule vals_all_fold) (auto dest: es intro: vals_all_set)
  moreover have "vals_all valid_id (fold (\<lambda>(i, n) m. assoc_set (normalizeCategoryNameKey n) i m) ?es [])"
    by (rule vals_all_fold) (auto dest: es intro: vals_all_set)
  moreover assume "lookups_ok st"
  ultimately show ?thesis by (simp add: refresh_categories_def Some Let_def lookups_ok_def)
next
  case None
  assume "lookups_ok st"
  then show ?thesis by (simp add: refresh_categories_def None lookups_ok_def)
qed

lemma getUserDisplayName_not_Nil: "getUserDisplayName u f \<noteq> []"
  by (simp add: getUserDisplayName_def resolveUserDisplayName_not_Nil)

lemma user_label_not_Nil: "user_label u \<noteq> []"
  by (simp add: user_label_def)

lemma cache_user_ok: "vals_all (\<lambda>n. n \<noteq> []) m \<Longrightarrow> vals_all (\<lambda>n. n \<noteq> []) (cache_user r u m)"
  by (auto simp: cache_user_def Let_def getUserDisplayName_not_Nil user_label_not_Nil
      intro!: vals_all_set split: api_response.split)

lemma refresh_users_ok: "lookups_ok st \<Longrightarrow> lookups_ok (refresh_users now r st)"
proof (cases "\<exists>us. r = ApiOk (Arr us)")
  case True
  then obtain us where r: "r = ApiOk (Arr us)" by blast
  have "vals_all (\<lambda>n. n \<noteq> []) (fold (\<lambda>user m. let userId = getUserIdentifier user in
      if userId = [] then m else assoc_set userId (getUserDisplayName user (Str userId)) m) us [])"
    by (rule vals_all_fold) (auto simp: Let_def getUserDisplayName_not_Nil intro: vals_all_set)
  moreover assume "lookups_ok st"
  ultimately show ?thesis by (simp add: refresh_users_def r lookups_ok_def)
next
  case False
  moreover assume "lookups_ok st"
  ultimately show ?thesis
    by (auto simp: refresh_users_def lookups_ok_def split: api_response.split jval.split)
qed

lemma lookups_ok_users:
  assumes "lookups_ok st"
  shows "lookups_ok (snd (ensureUsersCache now ls srv force ids st))
    \<and> vals_all (\<lambda>n. n \<noteq> []) (fst (ensureUsersCache now ls srv force ids st))"
proof -
  have u0: "lookups_ok (st\<lparr>usersCache := Some (opt_list (usersCache st))\<rparr>)"
    using assms by (simp add: lookups_ok_def)
  have users: "lookups_ok s \<Longrightarrow> vals_all (\<lambda>n. n \<noteq> []) (opt_list (usersCache s))" for s
    by (simp add: lookups_ok_def)
  have put: "lookups_ok s \<Longrightarrow> vals_all (\<lambda>n. n \<noteq> []) m \<Longrightarrow>
      lookups_ok (s\<lparr>usersCache := Some m, usersCacheUpdatedAt := now\<rparr>)" for s m
    by (simp add: lookups_ok_def)
  have cached: "vals_all (\<lambda>n. n \<noteq> []) (fold (\<lambda>i m. cache_user (srv_user srv i) i m) xs m)"
    and labelled: "vals_all (\<lambda>n. n \<noteq> []) (fold (\<lambda>i m. assoc_set i (user_label i) m) xs m)"
    if "vals_all (\<lambda>n. n \<noteq> []) m" for xs m
    using that by (auto intro!: vals_all_fold cache_user_ok vals_all_set user_label_not_Nil)
  let ?s1 = "\<lambda>b. if b then refresh_users now (srv_users srv) (st\<lparr>usersCache := Some (opt_list (usersCache st))\<rparr>)
      else st\<lparr>usersCache := Some (opt_list (usersCache st))\<rparr>"
  have s1: "lookups_ok (?s1 b)" for b using refresh_users_ok [OF u0] u0 by simp
  show ?thesis
    unfolding ensureUsersCache_def Let_def
    using put [OF s1 cached [OF users [OF s1]]] put [OF s1 labelled [OF users [OF s1]]]
      cached [OF users [OF s1]] labelled [OF users [OF s1]] users [OF s1] s1 u0 users [OF u0]
    by (simp del: lookup_state.update_convs)
qed

lemma lookups_ok_cities:
  "lookups_ok st \<Longrightarrow> lookups_ok (snd (ensureCitiesCache now srv force st))"
  "lookups_ok st \<Longrightarrow> ids_ok (fst (ensureCitiesCache now srv force st))"
  using ids_ok_cities [of "\<lambda>c. \<lparr> name_en = cityName c, name_ar = cityNameAr c \<rparr>" "srv_cities srv"]
  by (auto simp: ensureCitiesCache_def lookups_ok_def Let_def)

lemma lookups_ok_areas:
  "lookups_ok st \<Longrightarrow> lookups_ok (snd (ensureAreasCache srv c force st))"
  "lookups_ok st \<Longrightarrow> ids_ok (fst (ensureAreasCache srv c force st))"
  using ids_ok_areas [of "\<lambda>a. \<lparr> name_en = areaName a, name_ar = areaNameAr a \<rparr>" srv "Num c"]
  by (auto simp: ensureAreasCache_def lookups_ok_def Let_def vals_all_set dest: vals_all_get split: option.split)

lemma lookups_ok_ensure_categories:
  "lookups_ok st \<Longrightarrow> lookups_ok (snd (ensureCategoriesCache now host srv force st))"
  "lookups_ok st \<Longrightarrow> vals_all (\<lambda>n. n \<noteq> []) (fst (ensureCategoriesCache now host srv force st))"
  using lookups_ok_categories [of st now host srv]
  by (auto simp: ensureCategoriesCache_def Let_def) (auto simp: lookups_ok_def)

lemma lookups_ok_enrich:
  assumes "lookups_ok st"
  shows "lookups_ok (snd (enrichPostsWithCategoryAndSeller now host ls srv inTime posts force st))"
proof -
  have areas: "lookups_ok s \<Longrightarrow> lookups_ok (fold (\<lambda>city s. snd (ensureAreasCache srv city force s)) cs s)" for cs s
    by (induction cs arbitrary: s) (simp_all add: lookups_ok_areas)
  have "lookups_ok (snd (if b then ensureCategoriesCache now host srv force s else (opt_list (categoriesCache s), s)))"
    "lookups_ok (snd (if b then ensureCitiesCache now srv force s else (opt_list (citiesCache s), s)))"
    if "lookups_ok s" for b s
    using that by (simp_all add: lookups_ok_ensure_categories lookups_ok_cities)
  note steps = this lookups_ok_users [THEN conjunct1] lookups_ok_ratings areas
  show ?thesis
    unfolding enrichPostsWithCategoryAndSeller_def Let_def case_prod_unfold snd_conv
    by (intro steps assms)
qed

lemma lookups_ok_step: "lookup_step st st' \<Longrightarrow> lookups_ok st \<Longrightarrow> lookups_ok st'"
proof (induction rule: lookup_step.induct)
  case (category st now host srv v force)
  then show ?case
    by (auto simp: resolveCategoryId_def Let_def lookups_ok_ensure_categories split: option.split jval.split)
next
  case (city st now srv v force)
  then show ?case
    by (auto simp: resolveCityId_def Let_def case_prod_unfold lookups_ok_cities split: option.split jval.split)
next
  case (area st srv c v force)
  then show ?case
    by (auto simp: resolveAreaId_def Let_def case_prod_unfold lookups_ok_areas split: option.split jval.split)
qed (simp_all add: lookups_ok_enrich lookups_ok_store)

lemma lookups_ok_reachable: "lookup_reachable st \<Longrightarrow> lookups_ok st"
proof (induction rule: lookup_reachable.induct)
  case init
  then show ?case by (simp add: lookups_ok_def initial_lookups_def ids_ok_def)
qed (simp add: lookups_ok_step)

lemma resolve_valid:
  assumes "resolveLookupIdByName es v = Some i"
  shows "valid_id i"
proof -
  have "valid_id i" if "toPositiveIntegerId (Str k) = Some i" for k
    using toPositiveIntegerId_range [OF that] by (simp add: valid_id_def)
  with assms show ?thesis by (auto simp: resolveLookupIdByName_def split: option.splits)
qed

lemma tp_valid: "toPositiveIntegerId v = Some i \<Longrightarrow> valid_id i"
  using toPositiveIntegerId_range by (simp add: valid_id_def)

lemma resolved_valid:
  "fst (resolveCategoryId now host srv v force st) = Some i \<Longrightarrow> valid_id i"
  "fst (resolveCityId now srv v force st) = Some i \<Longrightarrow> valid_id i"
  "fst (resolveAreaId srv c v force st) = Some i \<Longrightarrow> valid_id i"
  by (auto simp: resolveCategoryId_def resolveCityId_def resolveAreaId_def Let_def case_prod_unfold
      split: option.splits jval.splits if_splits intro: tp_valid resolve_valid)

section \<open>Properties\<close>

text \<open>
  A name typed by the user is resolved to the first entry that bears it, in English, in
  Arabic or as its identifier; failing that to the first whose name starts with it; failing that
  to the first that contains it; and to nothing exactly when no entry contains it, as long as the
  table's keys are identifiers, which in the caches they always are.
\<close>

theorem names_resolved_by_priority:
  assumes "ids_ok es"
  shows "(resolveLookupIdByName es v = None \<longleftrightarrow> \<not> (\<exists>e \<in> set es. exact_name v e \<or> infix_name v e))
    \<and> (\<forall>i. resolveLookupIdByName es v = Some i \<longrightarrow> valid_id i
        \<and> (\<exists>e \<in> set es. toPositiveIntegerId (Str (fst e)) = Some i
             \<and> (if \<exists>x \<in> set es. exact_name v x then exact_name v e
                else if \<exists>x \<in> set es. prefix_name v x then prefix_name v e else infix_name v e)))"
proof (cases "\<exists>e \<in> set es. exact_name v e \<or> infix_name v e")
  case True
  from resolve_entry [OF this] obtain e where e: "e \<in> set es"
    "resolveLookupIdByName es v = toPositiveIntegerId (Str (fst e))"
    "if \<exists>x \<in> set es. exact_name v x then exact_name v e
       else if \<exists>x \<in> set es. prefix_name v x then prefix_name v e else infix_name v e" by blast
  from e(1) assms obtain j where j: "toPositiveIntegerId (Str (fst e)) = Some j" by (auto simp: ids_ok_def)
  with e(2) have r: "resolveLookupIdByName es v = Some j" by simp
  show ?thesis
    unfolding r using True resolve_valid [OF r] e(1,3) j by blast
next
  case False
  from resolve_None [OF this] False show ?thesis by simp
qed

theorem names_resolved_by_priority_witness:
  "resolveLookupIdByName [(U ''1'', \<lparr> name_en = U ''Amman'', name_ar = [] \<rparr>)] (U ''irbid'') = None"
proof -
  let ?es = "[(U ''1'', \<lparr> name_en = U ''Amman'', name_ar = [] \<rparr>)]"
  have "ids_ok ?es" using toPositiveIntegerId_int_str [of 1]
    by (simp add: ids_ok_def MAX_SAFE_INTEGER_def int_str_def nat_str.simps U_def)
  moreover have "\<not> (\<exists>e \<in> set ?es. exact_name (U ''irbid'') e \<or> infix_name (U ''irbid'') e)"
    by code_simp
  ultimately show ?thesis using names_resolved_by_priority by blast
qed

lemma fold_cities: "distinct (map cityId cs) \<Longrightarrow> \<forall>c \<in> set cs. 0 < cityId c \<Longrightarrow>
   fold (\<lambda>c m. assoc_set (int_str (cityId c)) (v c) m) cs [] = map (\<lambda>c. (int_str (cityId c), v c)) cs"
  by (rule table_distinct) (auto simp: distinct_map inj_on_def int_str_def nat_str_inj)

text \<open>
  A city of the directory is found by its name: whatever the capitals and the blanks
  around it, when no other city bears that name, the resolution returns that city's identifier,
  and for the next minute does so without asking the server again.
\<close>

theorem city_found_by_name:
  assumes c: "c \<in> set (getCities (srv_cities srv))" and d: "distinct (map cityId (getCities (srv_cities srv)))"
    and v: "toPositiveIntegerId (Str s) = None" "lower (trim s) = lower (cityName c)"
    and unique: "\<forall>c' \<in> set (getCities (srv_cities srv)).
        lower (cityName c') = lower (cityName c) \<or> lower (cityNameAr c') = lower (cityName c)
        \<or> int_str (cityId c') = lower (cityName c) \<longrightarrow> c' = c"
    and stale: "citiesCache st = None \<or> \<not> isCacheFresh now (citiesCacheUpdatedAt st)"
    and later: "0 < now" "now2 - now < 60000"
  shows "fst (resolveCityId now srv (Str s) False st) = Some (cityId c)
    \<and> resolveCityId now2 srv2 (Str s) False (snd (resolveCityId now srv (Str s) False st))
        = (Some (cityId c), snd (resolveCityId now srv (Str s) False st))"
proof -
  let ?t = "map (\<lambda>c. (int_str (cityId c), \<lparr> name_en = cityName c, name_ar = cityNameAr c \<rparr>))
      (getCities (srv_cities srv))"
  let ?v = "lower (trim s)"
  have t: "fold (\<lambda>c m. assoc_set (int_str (cityId c)) \<lparr> name_en = cityName c, name_ar = cityNameAr c \<rparr> m)
      (getCities (srv_cities srv)) [] = ?t"
    by (rule fold_cities [OF d]) (simp add: getCities_id)
  have ne: "trim s \<noteq> []"
    using v(2) getCities_name [OF c] by (metis lower_Nil lower_eq_Nil)
  have e: "\<exists>e \<in> set (object_entries ?t). exact_name ?v e"
    using c v(2) by (auto simp: exact_name_def)
  then obtain e where e: "e \<in> set (object_entries ?t)" "exact_name ?v e"
    "resolveLookupIdByName (object_entries ?t) ?v = toPositiveIntegerId (Str (fst e))"
    using resolve_entry [of "object_entries ?t" ?v] by (metis (lifting))
  then obtain c' where c': "c' \<in> set (getCities (srv_cities srv))" "fst e = int_str (cityId c')"
    "snd e = \<lparr> name_en = cityName c', name_ar = cityNameAr c' \<rparr>" by auto
  with e(2) v(2) unique have "c' = c" by (auto simp: exact_name_def)
  with e(3) c' have r: "resolveLookupIdByName (object_entries ?t) ?v = Some (cityId c)"
    using toPositiveIntegerId_int_str getCities_id [OF c] by simp
  have s1: "resolveCityId now srv (Str s) False st
      = (Some (cityId c), st\<lparr> citiesCache := Some ?t, citiesCacheUpdatedAt := now \<rparr>)"
    using stale ne by (auto simp: resolveCityId_def v(1) ensureCitiesCache_def t r Let_def)
  moreover have "resolveCityId now2 srv2 (Str s) False (st\<lparr> citiesCache := Some ?t, citiesCacheUpdatedAt := now \<rparr>)
      = (Some (cityId c), st\<lparr> citiesCache := Some ?t, citiesCacheUpdatedAt := now \<rparr>)"
    using later ne by (simp add: resolveCityId_def v(1) ensureCitiesCache_def r isCacheFresh_def LOOKUP_CACHE_TTL_MS_def)
  ultimately show ?thesis by simp
qed

theorem city_found_by_name_witness:
  "fst (resolveCityId 5
     \<lparr> srv_categories = ApiOk Null, srv_cities = ApiOk (Arr [Obj [(U ''CityId'', Num (Fin 3)), (U ''CityName'', Str (U ''Irbid''))]]),
       srv_areas = \<lambda>_. ApiOk Null, srv_users = ApiOk Null, srv_user = \<lambda>_. ApiOk Null, srv_ratings = \<lambda>_. ApiOk Null \<rparr>
     (Str (U '' IRBID '')) False initial_lookups) = Some 3"
proof -
  let ?r = "ApiOk (Arr [Obj [(U ''CityId'', Num (Fin 3)), (U ''CityName'', Str (U ''Irbid''))]])"
  let ?srv = "\<lparr> srv_categories = ApiOk Null, srv_cities = ?r, srv_areas = \<lambda>_. ApiOk Null, srv_users = ApiOk Null,
      srv_user = \<lambda>_. ApiOk Null, srv_ratings = \<lambda>_. ApiOk Null \<rparr>"
  let ?c = "\<lparr> cityId = 3, cityName = U ''Irbid'', cityNameAr = [] \<rparr>"
  have three: "toPositiveIntegerId (Num (Fin 3)) = Some 3"
    using toPositiveIntegerId_int [of 3] by (simp add: MAX_SAFE_INTEGER_def)
  have names: "trim (U ''Irbid'') = U ''Irbid''" "U ''Irbid'' \<noteq> []" "trim [] = []" by code_simp+
  have cs: "getCities (srv_cities ?srv) = [?c]"
    by (simp add: getCities_def List.map_filter_simps normalizeCity_def three name_text_def Let_def names flds_def)
  have v: "toPositiveIntegerId (Str (U '' IRBID '')) = None" by code_simp
  have n: "lower (trim (U '' IRBID '')) = lower (cityName ?c)" by code_simp
  have "fst (resolveCityId 5 ?srv (Str (U '' IRBID '')) False initial_lookups) = Some (cityId ?c)"
    by (rule city_found_by_name [OF _ _ v n, where ?now2.0 = 5 and ?srv2.0 = ?srv, THEN conjunct1])
      (simp_all only: cs, simp_all add: initial_lookups_def)
  then show ?thesis by simp
qed

text \<open>
  Claim C15. In every reachable state of the lookup caches ratings lie between 0 and 5 with
  non-negative counts, every cached city and area has an identifier, every cached seller and
  category has a name, and so a resolved name is always a positive safe identifier.
\<close>

theorem lookup_caches_sound:
  assumes "lookup_reachable st"
  shows "(\<forall>u. 0 \<le> fst (read_rating st u) \<and> fst (read_rating st u) \<le> 5 \<and> 0 \<le> snd (read_rating st u))
    \<and> ids_ok (opt_list (citiesCache st)) \<and> vals_all ids_ok (areasCacheByCityId st)
    \<and> vals_all (\<lambda>n. n \<noteq> []) (opt_list (usersCache st)) \<and> vals_all (\<lambda>n. n \<noteq> []) (opt_list (categoriesCache st))
    \<and> (\<forall>i. fst (resolveCategoryId now host srv v force st) = Some i \<longrightarrow> 0 < i \<and> i \<le> MAX_SAFE_INTEGER)
    \<and> (\<forall>i. fst (resolveCityId now srv v force st) = Some i \<longrightarrow> 0 < i \<and> i \<le> MAX_SAFE_INTEGER)
    \<and> (\<forall>i. fst (resolveAreaId srv c v force st) = Some i \<longrightarrow> 0 < i \<and> i \<le> MAX_SAFE_INTEGER)"
proof -
  note ok = lookups_ok_reachable [OF assms]
  have "0 \<le> fst (read_rating st u) \<and> fst (read_rating st u) \<le> 5 \<and> 0 \<le> snd (read_rating st u)" for u
    using ok vals_all_get [of bounded_rating "sellerRatingsCache st" u]
    by (auto simp: read_rating_def lookups_ok_def bounded_rating_def split: option.split)
  moreover note resolved_valid [where st = st, unfolded valid_id_def]
  ultimately show ?thesis using ok by (simp add: lookups_ok_def)
qed

theorem lookup_caches_sound_witness:
  "ids_ok (opt_list (citiesCache (snd (resolveCityId 1
     \<lparr> srv_categories = ApiOk Null, srv_cities = ApiOk (Arr [Null]), srv_areas = \<lambda>_. ApiOk Null, srv_users = ApiOk Null,
       srv_user = \<lambda>_. ApiOk Null, srv_ratings = \<lambda>_. ApiOk Null \<rparr> (Str (U ''amman'')) False initial_lookups))))"
  by (rule lookup_caches_sound [THEN conjunct2, THEN conjunct1,
      OF lookup_reachable.more [OF lookup_reachable.init lookup_step.city]])

lemma read_rating_bounds:
  "lookups_ok st \<Longrightarrow> 0 \<le> fst (read_rating st u) \<and> fst (read_rating st u) \<le> 5 \<and> 0 \<le> snd (read_rating st u)"
  using vals_all_get [of bounded_rating "sellerRatingsCache st" u]
  by (auto simp: read_rating_def lookups_ok_def bounded_rating_def split: option.split)

lemma ratings_table_bounds:
  assumes "lookups_ok st"
    and "map_of (fst (resolveSellerRatingsWithoutBlockingListings now srv inTime ids force st)) u = Some (a, n)"
  shows "0 \<le> a \<and> a \<le> 5"
proof -
  have "\<exists>st'. lookups_ok st' \<and> (a, n) = read_rating st' u"
    using map_of_SomeD [OF assms(2)] assms(1)
    by (auto simp: resolveSellerRatingsWithoutBlockingListings_def ensureSellerRatingsCache_def
        readCachedSellerRatings_def Let_def split: if_splits intro: lookups_ok_store)
  then obtain st' where "lookups_ok st'" "(a, n) = read_rating st' u" by blast
  with read_rating_bounds [of st' u] show ?thesis by (metis fst_conv)
qed

lemma enriched_names:
  "enriched_category t post \<noteq> []" "enriched_seller t post \<noteq> []"
  by (auto simp: enriched_category_def enriched_seller_def Let_def user_label_def split: option.split)

lemma fld_enrich_post:
  assumes "post = Obj fs"
  shows "fld (enrich_post t post) ''Category'' = Str (enriched_category t post)"
    "fld (enrich_post t post) ''Seller'' = Str (enriched_seller t post)"
    "fld (enrich_post t post) ''PostID'' = fld post ''PostID''"
    "fld (enrich_post t post) ''PostTitle'' = fld post ''PostTitle''"
    "fld (enrich_post t post) ''Price'' = fld post ''Price''"
    "fld (enrich_post t post) ''AverageRating'' =
       (case (if is_nullish (resolvePostUserId post) then None
              else map_of (resolvedSellerRatings t) (to_str (resolvePostUserId post))) of
          Some (a, n) \<Rightarrow> if n > 0 then Num (Fin a) else Undef | None \<Rightarrow> Undef)"
  unfolding enrich_post_def Let_def assms
  by (simp_all add: obj_set_def map_of_assoc_set)

lemma enrich_tables:
  assumes "lookups_ok st"
  shows "\<exists>t s4. fst (enrichPostsWithCategoryAndSeller now host ls srv inTime posts force st) = map (enrich_post t) posts
    \<and> lookups_ok s4
    \<and> resolvedSellerRatings t = fst (resolveSellerRatingsWithoutBlockingListings now srv inTime
        (filter isUsableLookupId (map resolvePostUserId posts)) force s4)"
proof -
  have "lookups_ok (snd (if b then ensureCategoriesCache now host srv force s else (opt_list (categoriesCache s), s)))"
    "lookups_ok (snd (if b then ensureCitiesCache now srv force s else (opt_list (citiesCache s), s)))"
    if "lookups_ok s" for b s
    using that by (simp_all add: lookups_ok_ensure_categories lookups_ok_cities)
  note steps = this lookups_ok_users [THEN conjunct1]
  show ?thesis
    unfolding enrichPostsWithCategoryAndSeller_def Let_def case_prod_unfold fst_conv
    apply (intro exI, rule conjI, rule refl, rule conjI [rotated])
     apply (rule resolved_tables.select_convs(4))
    apply (intro steps assms)
    done
qed

text \<open>
  Enriching listings in a reachable state of the caches returns them in order and
  complete, leaves identifier, title and price alone, gives every one a category and a seller
  name, and a rating only between 0 and 5, whatever the server answers and whether or not the
  ratings arrive in time.
\<close>

theorem enriched_listings:
  assumes "lookup_reachable st" and "\<forall>p \<in> set posts. \<exists>fs. p = Obj fs"
    and "fst (enrichPostsWithCategoryAndSeller now host ls srv inTime posts force st) = qs"
  shows "length qs = length posts
    \<and> (\<forall>i < length posts.
        fld (qs ! i) ''PostID'' = fld (posts ! i) ''PostID'' \<and> fld (qs ! i) ''PostTitle'' = fld (posts ! i) ''PostTitle''
        \<and> fld (qs ! i) ''Price'' = fld (posts ! i) ''Price''
        \<and> (\<exists>c. c \<noteq> [] \<and> fld (qs ! i) ''Category'' = Str c)
        \<and> (\<exists>n. n \<noteq> [] \<and> fld (qs ! i) ''Seller'' = Str n)
        \<and> (fld (qs ! i) ''AverageRating'' = Undef
           \<or> (\<exists>a. fld (qs ! i) ''AverageRating'' = Num (Fin a) \<and> 0 \<le> a \<and> a \<le> 5)))"
proof -
  note ok = lookups_ok_reachable [OF assms(1)]
  obtain t s4 where qs: "qs = map (enrich_post t) posts" and s4: "lookups_ok s4"
    and r: "resolvedSellerRatings t = fst (resolveSellerRatingsWithoutBlockingListings now srv inTime
      (filter isUsableLookupId (map resolvePostUserId posts)) force s4)"
    using enrich_tables [OF ok, of now host ls srv inTime posts force] assms(3) by blast
  have bound: "map_of (resolvedSellerRatings t) u = Some (a, n) \<Longrightarrow> 0 \<le> a \<and> a \<le> 5" for u a n
    unfolding r by (rule ratings_table_bounds [OF s4])
  have rating: "fld (enrich_post t p) ''AverageRating'' = Undef
      \<or> (\<exists>a. fld (enrich_post t p) ''AverageRating'' = Num (Fin a) \<and> 0 \<le> a \<and> a \<le> 5)" if "p = Obj fs" for p fs
    by (auto simp: fld_enrich_post(6) [OF that] dest: bound split: option.split)
  show ?thesis
    unfolding qs
  proof (intro conjI allI impI)
    fix i assume "i < length posts"
    then obtain fs where i: "map (enrich_post t) posts ! i = enrich_post t (posts ! i)" "posts ! i = Obj fs"
      using assms(2) by (metis nth_map nth_mem)
    note f = fld_enrich_post [OF i(2), of t]
    show "fld (map (enrich_post t) posts ! i) ''PostID'' = fld (posts ! i) ''PostID''"
      "fld (map (enrich_post t) posts ! i) ''PostTitle'' = fld (posts ! i) ''PostTitle''"
      "fld (map (enrich_post t) posts ! i) ''Price'' = fld (posts ! i) ''Price''"
      unfolding i(1) by (rule f)+
    show "\<exists>c. c \<noteq> [] \<and> fld (map (enrich_post t) posts ! i) ''Category'' = Str c"
      "\<exists>n. n \<noteq> [] \<and> fld (map (enrich_post t) posts ! i) ''Seller'' = Str n"
      unfolding i(1) using f(1,2) enriched_names by blast+
    show "fld (map (enrich_post t) posts ! i) ''AverageRating'' = Undef
        \<or> (\<exists>a. fld (map (enrich_post t) posts ! i) ''AverageRating'' = Num (Fin a) \<and> 0 \<le> a \<and> a \<le> 5)"
      unfolding i(1) by (rule rating [OF i(2)])
  qed simp
qed

definition silent_server :: lookup_server where
  "silent_server = \<lparr> srv_categories = ApiOk Null, srv_cities = ApiOk Null, srv_areas = \<lambda>_. ApiOk Null,
     srv_users = ApiOk Null, srv_user = \<lambda>_. ApiOk Null, srv_ratings = \<lambda>_. ApiOk Null \<rparr>"

theorem enriched_listings_witness:
  "\<exists>n. n \<noteq> [] \<and> fld (fst (enrichPostsWithCategoryAndSeller 1 [] (\<lambda>_. None) silent_server True
     [Obj [(U ''UserID'', Num (Fin 7))]] False initial_lookups) ! 0) ''Seller'' = Str n"
  using enriched_listings [OF lookup_reachable.init, of "[Obj [(U ''UserID'', Num (Fin 7))]]" 1 "[]" "\<lambda>_. None"
      silent_server True False, OF _ refl] by simp

lemma map_of_fold_other:
  "(\<And>x m. x \<in> set xs \<Longrightarrow> map_of (f x m) u = map_of m u) \<Longrightarrow> map_of (fold f xs m) u = map_of m u"
  by (induction xs arbitrary: m) auto

lemma map_of_label_fold:
  "map_of (fold (\<lambda>i m. assoc_set i (user_label i) m) xs m) u
     = (if u \<in> set xs then Some (user_label u) else map_of m u)"
  by (induction xs arbitrary: m) (auto simp: map_of_assoc_set)

lemma known_user_label: "map_of m u = Some (user_label u) \<Longrightarrow> known_user m u"
  by (simp add: known_user_def user_label_not_Nil)

lemma hasLikelyAdmin_session: "hasLikelyAdminSession ls \<Longrightarrow> hasLikelyAuthenticatedSession ls"
  by (simp add: hasLikelyAdminSession_def split: if_splits)

lemma known_user_kept:
  assumes "map_of (opt_list (usersCache st)) u = Some (user_label u)" and "\<not> hasLikelyAdminSession ls"
    and "\<forall>i d. srv_user srv i = ApiOk d \<longrightarrow> getUserIdentifier d = [] \<or> getUserIdentifier d = i"
  shows "map_of (fst (ensureUsersCache now ls srv force ids st)) u = Some (user_label u)"
proof -
  let ?m = "opt_list (usersCache st)"
  let ?missing = "filter (\<lambda>i. \<not> known_user ?m i) (clean_ids ids (\<lambda>s. length s > 0 \<and> s \<noteq> U ''0''))"
  have u: "u \<notin> set ?missing" using known_user_label [OF assms(1)] by simp
  have cached: "map_of (cache_user (srv_user srv i) i m) u = map_of m u" if "i \<in> set ?missing" for i m
  proof -
    have "i \<noteq> u" using that u by blast
    moreover have "or_else (getUserIdentifier d) i = i" if "srv_user srv i = ApiOk d" for d
      using assms(3) that by (auto simp: or_else_def)
    ultimately show ?thesis
      by (auto simp: cache_user_def Let_def map_of_assoc_set split: api_response.split)
  qed
  have "map_of (fold (\<lambda>i m. cache_user (srv_user srv i) i m) ?missing ?m) u = map_of ?m u"
    by (rule map_of_fold_other) (rule cached)
  moreover have "map_of (fold (\<lambda>i m. assoc_set i (user_label i) m) ?missing ?m) u = map_of ?m u"
    by (simp only: map_of_label_fold u if_False)
  ultimately show ?thesis
    using assms(1,2) by (simp add: ensureUsersCache_def Let_def)
qed

text \<open>
  Claim C36. The name of a seller first seen without a session is the placeholder \<open>User n\<close>, and it
  stays so: no later lookup, forced or not, by a signed-in user without admin access replaces it,
  whatever the server would answer.
\<close>

theorem placeholder_sellers_stick:
  assumes anonymous: "\<not> hasLikelyAuthenticatedSession ls1"
    and u: "u \<in> set (clean_ids ids1 (\<lambda>s. length s > 0 \<and> s \<noteq> U ''0''))"
      "\<not> known_user (opt_list (usersCache st)) u"
    and later: "\<not> hasLikelyAdminSession ls2"
      "\<forall>i d. srv_user srv2 i = ApiOk d \<longrightarrow> getUserIdentifier d = [] \<or> getUserIdentifier d = i"
  shows "map_of (fst (ensureUsersCache now1 ls1 srv1 f1 ids1 st)) u = Some (user_label u)
    \<and> map_of (fst (ensureUsersCache now2 ls2 srv2 f2 ids2 (snd (ensureUsersCache now1 ls1 srv1 f1 ids1 st)))) u
        = Some (user_label u)"
proof -
  let ?ids = "clean_ids ids1 (\<lambda>s. length s > 0 \<and> s \<noteq> U ''0'')"
  let ?m = "fold (\<lambda>i m. assoc_set i (user_label i) m)
      (filter (\<lambda>i. \<not> known_user (opt_list (usersCache st)) i) ?ids) (opt_list (usersCache st))"
  have "\<not> hasLikelyAdminSession ls1" using anonymous hasLikelyAdmin_session by blast
  moreover have "?ids \<noteq> []" using u(1) by force
  moreover have "filter (\<lambda>i. \<not> known_user (opt_list (usersCache st)) i) ?ids \<noteq> []"
    using u unfolding filter_empty_conv by blast
  ultimately have "ensureUsersCache now1 ls1 srv1 f1 ids1 st
      = (?m, st\<lparr>usersCache := Some (opt_list (usersCache st)), usersCache := Some ?m, usersCacheUpdatedAt := now1\<rparr>)"
    using anonymous by (simp add: ensureUsersCache_def Let_def)
  moreover have "map_of ?m u = Some (user_label u)" using u by (simp add: map_of_label_fold)
  ultimately show ?thesis using known_user_kept [OF _ later] by simp
qed

theorem placeholder_sellers_stick_witness:
  "map_of (fst (ensureUsersCache 9 (setItem (\<lambda>_. None) AUTH_SESSION_HINT_KEY (U ''true''))
      (silent_server\<lparr> srv_user := \<lambda>i. ApiOk (Obj [(U ''UserID'', Str i), (U ''name'', Str (U ''Lina''))]) \<rparr>)
      True [Str (U ''7'')] (snd (ensureUsersCache 1 (\<lambda>_. None) silent_server False [Str (U ''7'')] initial_lookups))))
    (U ''7'') = Some (U ''User 7'')"
proof -
  let ?srv = "silent_server\<lparr> srv_user := \<lambda>i. ApiOk (Obj [(U ''UserID'', Str i), (U ''name'', Str (U ''Lina''))]) \<rparr>"
  let ?ls = "setItem (\<lambda>_. None) AUTH_SESSION_HINT_KEY (U ''true'')"
  have a: "\<not> hasLikelyAuthenticatedSession (\<lambda>_. None)"
    by (simp add: hasLikelyAuthenticatedSession_def getItem_def AUTH_LEGACY_KEYS_def)
  have u: "U ''7'' \<in> set (clean_ids [Str (U ''7'')] (\<lambda>s. length s > 0 \<and> s \<noteq> U ''0''))" by code_simp
  have k: "\<not> known_user (opt_list (usersCache initial_lookups)) (U ''7'')"
    by (simp add: initial_lookups_def known_user_def)
  have l: "\<not> hasLikelyAdminSession ?ls"
    by (simp add: hasLikelyAdminSession_def web.get_put auth_keys) (simp add: getItem_def)
  have s: "\<forall>i d. srv_user ?srv i = ApiOk d \<longrightarrow> getUserIdentifier d = [] \<or> getUserIdentifier d = i"
    by (simp add: getUserIdentifier_def flds_def)
  have "user_label (U ''7'') = U ''User 7''" by (simp add: user_label_def U_def)
  with placeholder_sellers_stick [OF a u k l s] show ?thesis by metis
qed

text \<open>
  A failed request for the areas of a city is remembered as a city without areas, and
  unlike the other tables this one never expires: from then on no area of that city is found by
  its name, whatever the server would answer, until a caller forces a refresh.
\<close>

theorem failed_areas_stick:
  assumes first: "map_of (areasCacheByCityId st) (num_str city) = None" "toPositiveIntegerId (Num city) = Some i"
      "srv_areas srv i = ApiErr e" "toPositiveIntegerId (Str s) = None" "trim s \<noteq> []"
    and later: "toPositiveIntegerId (Str s2) = None"
  shows "fst (resolveAreaId srv2 city (Str s2) False (snd (resolveAreaId srv city (Str s) False st))) = None"
proof -
  have "snd (resolveAreaId srv city (Str s) False st)
      = st\<lparr> areasCacheByCityId := assoc_set (num_str city) [] (areasCacheByCityId st) \<rparr>"
    using first by (simp add: resolveAreaId_def ensureAreasCache_def areas_answer_def getAreasByCity_def)
  then show ?thesis
    using later by (simp add: resolveAreaId_def ensureAreasCache_def map_of_assoc_set resolveLookupIdByName_def
        object_entries_def)
qed

theorem failed_areas_stick_witness:
  "fst (resolveAreaId (silent_server\<lparr> srv_areas := \<lambda>_. ApiOk (Arr [Obj [(U ''AreaId'', Num (Fin 4)), (U ''CityId'', Num (Fin 3)),
        (U ''AreaName'', Str (U ''Abdoun''))]]) \<rparr>) (Fin 3) (Str (U ''abdoun'')) False
      (snd (resolveAreaId (silent_server\<lparr> srv_areas := \<lambda>_. ApiErr \<lparr> err_code = [], err_message = [], err_details = Null \<rparr> \<rparr>)
        (Fin 3) (Str (U ''abdoun'')) False initial_lookups))) = None"
proof -
  have i: "toPositiveIntegerId (Num (Fin 3)) = Some 3"
    using toPositiveIntegerId_int [of 3] by (simp add: MAX_SAFE_INTEGER_def)
  have n: "toPositiveIntegerId (Str (U ''abdoun'')) = None" "trim (U ''abdoun'') \<noteq> []" by code_simp+
  show ?thesis
    by (rule failed_areas_stick [OF _ i _ n n(1)]) (simp_all add: initial_lookups_def)
qed

end
