(* ===== verification/ChatMessages.thy ===== *)
theory ChatMessages
  imports AuthPolicy
begin

text \<open>
  Chat messages as they come in and go out: payload schemas (\<open>services/api/schemas/chatSchema.ts\<close>),
  normalisation (\<open>services/api/chatNormalization.ts\<close>), the chat endpoints (\<open>services/api/chat.ts\<close>),
  the reading of a message's content as text or picture (\<open>features/chat/chatMessageContent.ts\<close>) and
  the ownership tests (\<open>features/chat/chatOwnership.ts\<close>).  Errors that the code throws are the
  left summand of the results.
\<close>

section \<open>chatNormalization.ts\<close>

definition toTimestampOrNow :: "jsenv \<Rightarrow> jval \<Rightarrow> ustr" where
  "toTimestampOrNow env v =
     (case (if truthy v then parse_date env (to_str v) else None) of
        Some t \<Rightarrow> iso_string env t
      | None \<Rightarrow> iso_string env (now_ms env))"

definition normalizeChatMessage :: "jsenv \<Rightarrow> jval \<Rightarrow> message option" where
  "normalizeChatMessage env m =
     (if asRecord m = None then None
      else
        (case (toPositiveIntegerId (flds m [''SenderId'', ''senderId'']),
               toPositiveIntegerId (flds m [''ReceiverId'', ''receiverId''])) of
           (Some s, Some r) \<Rightarrow>
             (let c = trim (to_str (coalesce [fld m ''Content'', fld m ''content'', Str []])) in
              if c = [] then None
              else Some \<lparr> messageId = toPositiveIntegerId (flds m [''MessageId'', ''messageId'']),
                     senderId = s, receiverId = r,
                     conversationId = toPositiveIntegerId (flds m [''ConversationId'', ''conversationId'']),
                     msg_postId = toPositiveIntegerId (flds m [''PostId'', ''postId'']),
                     content = c,
                     timestamp = toTimestampOrNow env (flds m [''Timestamp'', ''timestamp'']),
                     isRead = truthy (coalesce [fld m ''IsRead'', fld m ''isRead'', Bool False]) \<rparr>)
         | _ \<Rightarrow> None))"

section \<open>chatSchema.ts\<close>

definition raw_message_fields :: "string list" where
  "raw_message_fields =
     [''MessageId'', ''messageId'', ''SenderId'', ''senderId'', ''ReceiverId'', ''receiverId'',
      ''ConversationId'', ''conversationId'', ''PostId'', ''postId'', ''Content'', ''content'',
      ''Timestamp'', ''timestamp'', ''IsRead'', ''isRead'']"

definition parseRawChatMessage :: "jval \<Rightarrow> jval option" where
  "parseRawChatMessage v =
     (case asRecord v of
        None \<Rightarrow> None
      | Some r \<Rightarrow>
          if list_ex (\<lambda>k. fld r k \<noteq> Undef)
               [''MessageId'', ''messageId'', ''SenderId'', ''senderId'', ''ReceiverId'', ''receiverId'',
                ''Content'', ''content'']
          then Some (Obj (map (\<lambda>k. (U k, fld r k)) raw_message_fields)) else None)"

definition parseRawChatMessagesCollection :: "jval \<Rightarrow> jval list" where
  "parseRawChatMessagesCollection v = (case v of Arr vs \<Rightarrow> List.map_filter parseRawChatMessage vs | _ \<Rightarrow> [])"

definition unwrapChatMessagesPayload :: "jval \<Rightarrow> jval" where
  "unwrapChatMessagesPayload v =
     (case v of
        Arr vs \<Rightarrow> v
      | _ \<Rightarrow> (case asRecord v of None \<Rightarrow> v
              | Some r \<Rightarrow> flds r [''messages'', ''Messages'', ''data'', ''Data'']))"

fun is_array :: "jval \<Rightarrow> bool" where
  "is_array (Arr _) = True"
| "is_array _ = False"

definition isChatMessagesPayload :: "jval \<Rightarrow> bool" where
  "isChatMessagesPayload v \<longleftrightarrow>
     is_array v
     \<or> (case asRecord v of None \<Rightarrow> False
        | Some r \<Rightarrow> list_ex (\<lambda>k. is_array (fld r k)) [''messages'', ''Messages'', ''data'', ''Data''])"

definition parseChatMessagesPayload :: "jval \<Rightarrow> jval list" where
  "parseChatMessagesPayload v = parseRawChatMessagesCollection (unwrapChatMessagesPayload v)"

definition parseSentChatMessagePayload :: "jval \<Rightarrow> jval option" where
  "parseSentChatMessagePayload v =
     (if is_array v
      then (case parseRawChatMessagesCollection v of [] \<Rightarrow> None | m # _ \<Rightarrow> Some m)
      else
        (case parseRawChatMessage v of
           Some m \<Rightarrow> Some m
         | None \<Rightarrow> (case asRecord v of None \<Rightarrow> None
                   | Some r \<Rightarrow> parseRawChatMessage (flds r [''message'', ''Message'', ''data'', ''Data'']))))"

definition parsePresencePayload :: "jval \<Rightarrow> jval option" where
  "parsePresencePayload v =
     (case asRecord v of
        None \<Rightarrow> None
      | Some r \<Rightarrow>
          (let source = (case asRecord (flds r [''presence'', ''Presence'', ''data'']) of
                           Some p \<Rightarrow> p | None \<Rightarrow> r)
           in Some (Obj (map (\<lambda>k. (U k, fld source k))
                [''isOnline'', ''IsOnline'', ''lastSeenAtUtc'', ''LastSeenAtUtc'', ''statusText'', ''StatusText'']))))"

definition normalizePresenceTimestamp :: "jsenv \<Rightarrow> jval \<Rightarrow> ustr option" where
  "normalizePresenceTimestamp env v =
     (if is_nullish v \<or> trim (to_str v) = [] then None
      else map_option (iso_string env) (parse_date env (to_str v)))"

section \<open>chat.ts\<close>

definition MAX_CHAT_IMAGE_BYTES :: int where "MAX_CHAT_IMAGE_BYTES = 10 * 1024 * 1024"

definition ALLOWED_CHAT_IMAGE_EXTENSIONS :: "ustr list" where
  "ALLOWED_CHAT_IMAGE_EXTENSIONS = [U ''.jpg'', U ''.jpeg'', U ''.png'', U ''.webp'', U ''.gif'']"

definition normalizeMessageContent :: "jval \<Rightarrow> ustr" where
  "normalizeMessageContent v = (case v of Str s \<Rightarrow> trim s | _ \<Rightarrow> [])"

definition js_error :: "ustr \<Rightarrow> thrown" where
  \<comment> \<open>\<open>new Error(message)\<close>\<close>
  "js_error m = JsError (U ''Error'') m"

definition mapChatMessages :: "jsenv \<Rightarrow> jval list \<Rightarrow> message list" where
  "mapChatMessages env payload = List.map_filter (normalizeChatMessage env) payload"

definition fetchChatMessages :: "jsenv \<Rightarrow> api_response \<Rightarrow> thrown + message list" where
  "fetchChatMessages env response =
     (case response of
        ApiErr e \<Rightarrow> Inl (js_error (or_else (err_message e) (U ''Failed to load chat messages'')))
      | ApiOk d \<Rightarrow>
          if isChatMessagesPayload d then Inr (mapChatMessages env (parseChatMessagesPayload d))
          else Inl (js_error (U ''Invalid chat messages response'')))"

definition getChatHistory :: "jsenv \<Rightarrow> jval \<Rightarrow> api_response \<Rightarrow> thrown + message list" where
  "getChatHistory env otherUserId response =
     (case toPositiveIntegerId otherUserId of
        None \<Rightarrow> Inl (js_error (U ''Invalid chat user ID''))
      | Some _ \<Rightarrow> fetchChatMessages env response)"

record chat_presence =
  isOnline :: bool
  lastSeenAtUtc :: "ustr option"
  statusText :: "ustr option"

definition getPresence :: "jsenv \<Rightarrow> jval \<Rightarrow> api_response \<Rightarrow> thrown + chat_presence" where
  "getPresence env otherUserId response =
     (case toPositiveIntegerId otherUserId of
        None \<Rightarrow> Inl (js_error (U ''Invalid chat user ID''))
      | Some _ \<Rightarrow>
          (case response of
             ApiErr e \<Rightarrow> Inl (js_error (or_else (err_message e) (U ''Failed to load chat presence'')))
           | ApiOk d \<Rightarrow>
               (case parsePresencePayload d of
                  None \<Rightarrow> Inl (js_error (U ''Invalid chat presence response''))
                | Some p \<Rightarrow> Inr \<lparr>
                    isOnline = truthy (coalesce [fld p ''isOnline'', fld p ''IsOnline'', Bool False]),
                    lastSeenAtUtc = normalizePresenceTimestamp env (flds p [''lastSeenAtUtc'', ''LastSeenAtUtc'']),
                    statusText = undef_if_empty
                      (trim (to_str (coalesce [fld p ''statusText'', fld p ''StatusText'', Str []]))) \<rparr>)))"

definition rest_sendMessage_body :: "jval \<Rightarrow> jval \<Rightarrow> jval \<Rightarrow> jval option" where
  \<comment> \<open>the body posted to \<open>/chat/send\<close>, if the call gets that far\<close>
  "rest_sendMessage_body rid text postId =
     (case toPositiveIntegerId rid of
        None \<Rightarrow> None
      | Some r \<Rightarrow>
          if normalizeMessageContent text = [] then None
          else Some (Obj [(U ''ReceiverId'', Num (Fin (of_int r))), (U ''Content'', Str (normalizeMessageContent text)),
                 (U ''PostId'', if truthy postId then Num (to_num postId) else Null)]))"

definition rest_sendMessage :: "jsenv \<Rightarrow> jval \<Rightarrow> jval \<Rightarrow> jval \<Rightarrow> api_response \<Rightarrow> message option" where
  "rest_sendMessage env rid text postId response =
     (case rest_sendMessage_body rid text postId of
        None \<Rightarrow> None
      | Some _ \<Rightarrow>
          (case response of
             ApiOk d \<Rightarrow> (case parseSentChatMessagePayload d of
                 None \<Rightarrow> None | Some m \<Rightarrow> normalizeChatMessage env m)
           | ApiErr _ \<Rightarrow> None))"

definition file_extension :: "ustr \<Rightarrow> ustr" where
  \<comment> \<open>from the last dot on, or empty\<close>
  "file_extension n = (if 46 \<in> set n then 46 # rev (takeWhile (\<lambda>c. c \<noteq> 46) (rev n)) else [])"

definition sendImageMessage ::
    "jsenv \<Rightarrow> (ustr \<times> int) option \<Rightarrow> jval \<Rightarrow> api_response \<Rightarrow> thrown + message" where
  \<comment> \<open>a file is its name and size, \<open>None\<close> what is not a \<open>File\<close>\<close>
  "sendImageMessage env file rid response =
     (case file of
        None \<Rightarrow> Inl (js_error (U ''Please choose a valid image file.''))
      | Some (n, sz) \<Rightarrow>
          if sz \<le> 0 then Inl (js_error (U ''Please choose a valid image file.''))
          else if file_extension (lower (trim n)) \<notin> set ALLOWED_CHAT_IMAGE_EXTENSIONS
          then Inl (js_error (U ''Unsupported image format. Use JPG, JPEG, PNG, WEBP, or GIF.''))
          else if sz > MAX_CHAT_IMAGE_BYTES
          then Inl (js_error (U ''Image file exceeds the 10 MB size limit.''))
          else if toPositiveIntegerId rid = None
          then Inl (js_error (U ''A valid receiver is required.''))
          else
            (case response of
               ApiErr e \<Rightarrow> Inl (js_error (or_else (err_message e) (U ''Failed to upload image.'')))
             | ApiOk d \<Rightarrow>
                 (case (case parseSentChatMessagePayload d of None \<Rightarrow> None | Some m \<Rightarrow> normalizeChatMessage env m) of
                    None \<Rightarrow> Inl (js_error (U ''Image send failed because the server returned no message.''))
                  | Some m \<Rightarrow> Inr m)))"

section \<open>chatMessageContent.ts\<close>

definition CHAT_IMAGE_PREFIX :: ustr where "CHAT_IMAGE_PREFIX = U ''[chat-image]''"

datatype chat_content =
    TextContent ustr
  | ImageContent (image_url: ustr) (raw_image_url: ustr) (image_caption: "ustr option")

definition ends_path :: "ustr \<Rightarrow> bool" where
  "ends_path r \<longleftrightarrow> r = [] \<or> hd r = 63 \<or> hd r = 35"

fun image_path_pattern :: "ustr \<Rightarrow> bool" where
  \<comment> \<open>\<open>/\.(png|jpe?g|gif|webp|bmp|svg)(?:$|[?#])/i\<close>\<close>
  "image_path_pattern [] = False"
| "image_path_pattern (c # cs) =
     ((c = 46 \<and> list_ex (\<lambda>e. ci_prefix e cs \<and> ends_path (drop (length e) cs))
         [''png'', ''jpg'', ''jpeg'', ''gif'', ''webp'', ''bmp'', ''svg''])
      \<or> image_path_pattern cs)"

definition isHttpUrl :: "ustr \<Rightarrow> bool" where
  "isHttpUrl s \<longleftrightarrow> starts_with s (U ''http://'') \<or> starts_with s (U ''https://'')"

text \<open>
  The URL parser of the platform is the parameter \<open>url_target\<close>: path and query of a text resolved
  against the host, \<open>None\<close> where \<open>new URL\<close> throws.
\<close>

definition isLikelyImageUrl :: "(ustr \<Rightarrow> ustr option) \<Rightarrow> ustr \<Rightarrow> bool" where
  "isLikelyImageUrl url_target v =
     (let t = trim v in
      if t = [] then False
      else if js_includes t (U ''chat/download-image'') then True
      else if starts_with t (U ''/uploads/'') then True
      else if image_path_pattern t then True
      else if \<not> isHttpUrl t \<and> \<not> starts_with t (U ''/'') then starts_with t (U ''api/'')
      else (case url_target t of Some p \<Rightarrow> image_path_pattern p | None \<Rightarrow> False))"

definition strip_slashes :: "ustr \<Rightarrow> ustr" where
  \<comment> \<open>\<open>s.replace(/\/+$/, "")\<close>\<close>
  "strip_slashes s = rev (dropWhile (\<lambda>c. c = 47) (rev s))"

definition resolveImageUrl :: "ustr \<Rightarrow> ustr \<Rightarrow> ustr" where
  "resolveImageUrl host v =
     (let t = trim v in
      if t = [] then []
      else if isHttpUrl t then t
      else if strip_slashes host = [] then t
      else strip_slashes host @ (if starts_with t (U ''/'') then t else U ''/'' @ t))"

fun split_lines :: "ustr \<Rightarrow> ustr list" where
  \<comment> \<open>\<open>s.split(/\r?\n/)\<close>\<close>
  "split_lines [] = [[]]"
| "split_lines (c # cs) =
     (if c = 10 then [] # split_lines cs
      else if c = 13 \<and> cs \<noteq> [] \<and> hd cs = 10 then [] # split_lines (tl cs)
      else (case split_lines cs of [] \<Rightarrow> [[c]] | p # ps \<Rightarrow> (c # p) # ps))"

definition payload_lines :: "ustr \<Rightarrow> ustr list" where
  "payload_lines t =
     filter (\<lambda>l. length l > 0) (map trim (split_lines (trim (drop (length CHAT_IMAGE_PREFIX) t))))"

definition parseChatMessageContent :: "ustr \<Rightarrow> (ustr \<Rightarrow> ustr option) \<Rightarrow> ustr \<Rightarrow> chat_content" where
  "parseChatMessageContent host url_target c =
     (let t = trim c;
          plain = (if isLikelyImageUrl url_target t then ImageContent (resolveImageUrl host t) t None
                   else TextContent c)
      in if t = [] then TextContent []
         else if starts_with t CHAT_IMAGE_PREFIX
         then (case payload_lines t of
                 rawImageUrl # captionLines \<Rightarrow>
                   if isLikelyImageUrl url_target rawImageUrl
                   then ImageContent (resolveImageUrl host rawImageUrl) rawImageUrl
                          (undef_if_empty (trim (join [10] captionLines)))
                   else plain
               | [] \<Rightarrow> plain)
         else plain)"

definition photo_label :: "language \<Rightarrow> ustr" where
  "photo_label l = (case l of Ar \<Rightarrow> [1571, 1585, 1587, 1604, 32, 1589, 1608, 1585, 1577] | En \<Rightarrow> U ''Sent an image'')"

definition formatChatPreviewText :: "ustr \<Rightarrow> (ustr \<Rightarrow> ustr option) \<Rightarrow> ustr \<Rightarrow> language \<Rightarrow> ustr" where
  "formatChatPreviewText host url_target c l =
     (case parseChatMessageContent host url_target c of
        TextContent t \<Rightarrow> t
      | ImageContent _ _ (Some caption) \<Rightarrow> photo_label l @ U '': '' @ caption
      | ImageContent _ _ None \<Rightarrow> photo_label l)"

section \<open>chatOwnership.ts\<close>

definition isChatMessageForParticipants :: "message \<Rightarrow> int option \<Rightarrow> int option \<Rightarrow> bool" where
  \<comment> \<open>an identifier that is \<open>0\<close> is as good as none\<close>
  "isChatMessageForParticipants m currentUserId otherUserId =
     (case (currentUserId, otherUserId) of
        (Some c, Some u) \<Rightarrow>
          c \<noteq> 0 \<and> u \<noteq> 0
          \<and> ((senderId m = u \<and> receiverId m = c) \<or> (receiverId m = u \<and> senderId m = c))
      | _ \<Rightarrow> False)"

definition isOwnedChatScope :: "ustr option \<Rightarrow> ustr option \<Rightarrow> bool" where
  "isOwnedChatScope currentUserId loadedUserId \<longleftrightarrow>
     trim (opt_str currentUserId) \<noteq> [] \<and> trim (opt_str currentUserId) = trim (opt_str loadedUserId)"

section \<open>Lemmas\<close>

definition safe_id :: "int \<Rightarrow> bool" where
  "safe_id i \<longleftrightarrow> 0 < i \<and> i \<le> MAX_SAFE_INTEGER"

definition opt_safe :: "int option \<Rightarrow> bool" where
  "opt_safe i \<longleftrightarrow> (case i of None \<Rightarrow> True | Some n \<Rightarrow> safe_id n)"

definition message_wf :: "message \<Rightarrow> bool" where
  "message_wf m \<longleftrightarrow>
     safe_id (senderId m) \<and> safe_id (receiverId m) \<and> opt_safe (messageId m) \<and> opt_safe (conversationId m)
     \<and> opt_safe (msg_postId m) \<and> content m \<noteq> [] \<and> trim (content m) = content m"

definition opt_num :: "int option \<Rightarrow> jval" where
  "opt_num i = (case i of None \<Rightarrow> Undef | Some n \<Rightarrow> Num (Fin (of_int n)))"

definition message_json :: "message \<Rightarrow> jval" where
  \<comment> \<open>the object the code builds, as any other component may read it again\<close>
  "message_json m = Obj
     [(U ''senderId'', Num (Fin (of_int (senderId m)))), (U ''receiverId'', Num (Fin (of_int (receiverId m)))),
      (U ''messageId'', opt_num (messageId m)), (U ''conversationId'', opt_num (conversationId m)),
      (U ''postId'', opt_num (msg_postId m)), (U ''content'', Str (content m)),
      (U ''timestamp'', Str (timestamp m)), (U ''isRead'', Bool (isRead m))]"

declare toPositiveIntegerId.simps [simp del]

lemma to_id_safe: "toPositiveIntegerId v = Some i \<Longrightarrow> safe_id i"
  using toPositiveIntegerId_range by (simp add: safe_id_def)

lemma to_id_opt_safe: "opt_safe (toPositiveIntegerId v)"
  using to_id_safe by (simp add: opt_safe_def split: option.split)

lemma to_id_num [simp]: "safe_id i \<Longrightarrow> toPositiveIntegerId (Num (Fin (of_int i))) = Some i"
  by (simp add: toPositiveIntegerId_int safe_id_def)

lemma to_id_opt_num [simp]: "opt_safe i \<Longrightarrow> toPositiveIntegerId (opt_num i) = i"
  by (cases i) (simp_all add: opt_safe_def opt_num_def toPositiveIntegerId.simps(4-))

lemma normalize_wf:
  assumes "normalizeChatMessage env v = Some m"
  shows "message_wf m \<and> (\<exists>t. timestamp m = iso_string env t)"
proof -
  from assms obtain s r c where m: "toPositiveIntegerId (flds v [''SenderId'', ''senderId'']) = Some s"
    "toPositiveIntegerId (flds v [''ReceiverId'', ''receiverId'']) = Some r" "c \<noteq> []"
    "c = trim (to_str (coalesce [fld v ''Content'', fld v ''content'', Str []]))"
    "senderId m = s" "receiverId m = r" "content m = c"
    "messageId m = toPositiveIntegerId (flds v [''MessageId'', ''messageId''])"
    "conversationId m = toPositiveIntegerId (flds v [''ConversationId'', ''conversationId''])"
    "msg_postId m = toPositiveIntegerId (flds v [''PostId'', ''postId''])"
    "timestamp m = toTimestampOrNow env (flds v [''Timestamp'', ''timestamp''])"
    by (auto simp: normalizeChatMessage_def Let_def split: if_splits option.splits)
  then have "message_wf m" by (simp add: message_wf_def to_id_safe to_id_opt_safe)
  moreover have "\<exists>t. timestamp m = iso_string env t"
    unfolding m(11) toTimestampOrNow_def by (cases "if truthy (flds v [''Timestamp'', ''timestamp'']) then
      parse_date env (to_str (flds v [''Timestamp'', ''timestamp''])) else None") auto
  ultimately show ?thesis by simp
qed

lemma normalize_message_json:
  assumes "message_wf m" and "timestamp m \<noteq> []" and "parse_date env (timestamp m) = Some t"
    and "iso_string env t = timestamp m"
  shows "normalizeChatMessage env (message_json m) = Some m"
  using assms
  by (simp add: normalizeChatMessage_def message_json_def message_wf_def flds_def toTimestampOrNow_def Let_def)

lemma mapChatMessages_wf: "m \<in> set (mapChatMessages env vs) \<Longrightarrow> message_wf m"
  using normalize_wf by (auto simp: mapChatMessages_def set_map_filter)

section \<open>Properties\<close>

text \<open>
  Claim C16. A normalised chat message is well formed, and normalising it again gives the same
  message, as long as \<open>Date.parse\<close> reads back what \<open>toISOString\<close> writes: a message can pass
  through the normaliser on every way it reaches the screen.
\<close>

theorem chat_message_stable:
  assumes "\<And>t. parse_date env (iso_string env t) = Some t" and "\<And>t. iso_string env t \<noteq> []"
    and "normalizeChatMessage env v = Some m"
  shows "message_wf m \<and> normalizeChatMessage env (message_json m) = Some m"
proof -
  from normalize_wf [OF assms(3)] obtain t where m: "message_wf m" "timestamp m = iso_string env t" by blast
  have "timestamp m \<noteq> []" "parse_date env (timestamp m) = Some t" using assms(2) by (simp_all add: m(2) assms(1))
  with normalize_message_json [OF m(1) _ _ m(2) [symmetric]] m(1) show ?thesis by blast
qed

definition clock_env :: jsenv where
  \<comment> \<open>an environment whose dates read back what they write: times are written in unary\<close>
  "clock_env = ref_env\<lparr> iso_string := (\<lambda>t. if t < 0 then 45 # replicate (nat (- t)) 49 else 43 # replicate (nat t) 49),
     parse_date := (\<lambda>s. case s of [] \<Rightarrow> None | c # cs \<Rightarrow> Some (if c = 45 then - int (length cs) else int (length cs))) \<rparr>"

theorem chat_message_stable_witness:
  "\<exists>m. normalizeChatMessage clock_env
      (Obj [(U ''SenderId'', Num (Fin 3)), (U ''ReceiverId'', Str (U ''4'')), (U ''Content'', Str (U '' hi ''))]) = Some m
    \<and> normalizeChatMessage clock_env (message_json m) = Some m"
proof -
  let ?v = "Obj [(U ''SenderId'', Num (Fin 3)), (U ''ReceiverId'', Str (U ''4'')), (U ''Content'', Str (U '' hi ''))]"
  have "toPositiveIntegerId (Num (Fin 3)) = Some 3" "toPositiveIntegerId (Str (U ''4'')) = Some 4" "trim (U '' hi '') = U ''hi''"
    by code_simp+
  then obtain m where m: "normalizeChatMessage clock_env ?v = Some m"
    by (simp add: normalizeChatMessage_def flds_def)
  have "parse_date clock_env (iso_string clock_env t) = Some t" "iso_string clock_env t \<noteq> []" for t
    by (simp_all add: clock_env_def)
  from chat_message_stable [OF this m] m show ?thesis by blast
qed

text \<open>
  Reading the content of a message: blank content is an empty text; a text that is not
  taken for a picture is shown exactly as written; a picture has a non-empty address that is
  absolute whenever the host is known.  Text is taken for a picture as soon as an image file name
  ends it, whatever precedes the name.
\<close>

theorem chat_content_reading:
  "(case parseChatMessageContent host ut c of
      TextContent t \<Rightarrow> t = (if trim c = [] then [] else c) \<and> (trim c = [] \<or> \<not> isLikelyImageUrl ut (trim c))
    | ImageContent u r cap \<Rightarrow> u = resolveImageUrl host r \<and> u \<noteq> [] \<and> isLikelyImageUrl ut r
        \<and> (isHttpUrl u \<or> strip_slashes host = [] \<or> starts_with u (strip_slashes host)))
   \<and> (image_path_pattern (trim c) \<longrightarrow> (\<exists>u r cap. parseChatMessageContent host ut c = ImageContent u r cap))"
proof -
  define ok where "ok x = (case x of
      TextContent t \<Rightarrow> t = (if trim c = [] then [] else c) \<and> (trim c = [] \<or> \<not> isLikelyImageUrl ut (trim c))
    | ImageContent u r cap \<Rightarrow> u = resolveImageUrl host r \<and> u \<noteq> [] \<and> isLikelyImageUrl ut r
        \<and> (isHttpUrl u \<or> strip_slashes host = [] \<or> starts_with u (strip_slashes host)))" for x
  have picture: "ok (ImageContent (resolveImageUrl host v) v cap)" if "isLikelyImageUrl ut v" for v cap
  proof -
    have "trim v \<noteq> []" using that by (auto simp: isLikelyImageUrl_def Let_def)
    then show ?thesis using that by (auto simp: ok_def resolveImageUrl_def Let_def)
  qed
  have blank: "trim c = [] \<Longrightarrow> ok (TextContent [])" by (simp add: ok_def)
  have plain: "trim c \<noteq> [] \<Longrightarrow> \<not> isLikelyImageUrl ut (trim c) \<Longrightarrow> ok (TextContent c)" by (simp add: ok_def)
  have "ok (parseChatMessageContent host ut c)"
    unfolding parseChatMessageContent_def Let_def
    using picture blank plain by (cases "payload_lines (trim c)") simp_all
  moreover have "\<exists>u r cap. parseChatMessageContent host ut c = ImageContent u r cap" if "image_path_pattern (trim c)"
  proof -
    have "trim c \<noteq> []" using that by auto
    moreover from this that have "isLikelyImageUrl ut (trim c)" by (simp add: isLikelyImageUrl_def Let_def)
    ultimately show ?thesis
      unfolding parseChatMessageContent_def Let_def by (cases "payload_lines (trim c)") simp_all
  qed
  ultimately show ?thesis unfolding ok_def by blast
qed

theorem chat_content_reading_witness:
  "\<exists>u r cap. parseChatMessageContent (U ''https://h'') (\<lambda>_. None) (U ''the logo is in cat.png'') = ImageContent u r cap"
proof -
  have "image_path_pattern (trim (U ''the logo is in cat.png''))" by code_simp
  with chat_content_reading [of "U ''the logo is in cat.png''" "\<lambda>_. None" "U ''https://h''"] show ?thesis by blast
qed

end
