(* ===== verification/ChatViews.thy ===== *)
theory ChatViews
  imports ChatMessages Json KeyStore
begin

text \<open>
  The two views of the chat: the conversation (\<open>features/chat/hooks/useChat.ts\<close>) and the list of
  conversations (\<open>features/chat/useChatList.ts\<close>), with the stored return path
  (\<open>features/chat/chatSessionUtils.ts\<close>).  The state of a hook is a record, each handler and each
  continuation of an await is an operation on it, and requests settle in any order.  A mounted
  \<open>ChatWindow\<close> has a fixed user and a fixed partner (its React key), so these are parameters.
\<close>

section \<open>useChat.ts\<close>

definition isSameChatMessage :: "message \<Rightarrow> message \<Rightarrow> bool" where
  "isSameChatMessage l r \<longleftrightarrow>
     (messageId l \<noteq> None \<and> messageId r \<noteq> None \<and> messageId l = messageId r)
     \<or> (senderId l = senderId r \<and> receiverId l = receiverId r \<and> msg_postId l = msg_postId r
        \<and> content l = content r \<and> timestamp l = timestamp r)"

record chat_view =
  view_messages :: "message list"
  view_loading :: bool
  view_error :: "ustr option"
  view_runId :: nat              \<comment> \<open>\<open>historyRunIdRef\<close>\<close>
  view_pending :: "nat list"     \<comment> \<open>the runs whose history request is under way\<close>

definition newChatView :: chat_view where
  "newChatView = \<lparr> view_messages = [], view_loading = False, view_error = None, view_runId = 0, view_pending = [] \<rparr>"

definition append_message :: "message \<Rightarrow> message list \<Rightarrow> message list" where
  "append_message m prev = (if list_ex (\<lambda>e. isSameChatMessage e m) prev then prev else prev @ [m])"

definition chat_message_received :: "int option \<Rightarrow> int option \<Rightarrow> message \<Rightarrow> chat_view \<Rightarrow> chat_view" where
  "chat_message_received me other msg v =
     (if isChatMessageForParticipants msg me other
      then v\<lparr> view_messages := append_message msg (view_messages v) \<rparr> else v)"

definition requests_read_receipt :: "int option \<Rightarrow> int option \<Rightarrow> message \<Rightarrow> bool" where
  \<comment> \<open>whether the history is asked for again, only so that the server marks it as read\<close>
  "requests_read_receipt me other msg \<longleftrightarrow>
     isChatMessageForParticipants msg me other \<and> Some (senderId msg) = other \<and> Some (receiverId msg) = me"

definition mark_read :: "int \<Rightarrow> chat_read_receipt \<Rightarrow> message \<Rightarrow> message" where
  "mark_read me receipt m =
     (if senderId m \<noteq> me \<or> conversationId m \<noteq> Some (receipt_conversationId receipt) \<or> isRead m
         \<or> (case messageId m of None \<Rightarrow> True | Some i \<Rightarrow> i > lastReadMessageId receipt)
      then m else m\<lparr> isRead := True \<rparr>)"

definition chat_messages_read :: "int option \<Rightarrow> int option \<Rightarrow> chat_read_receipt \<Rightarrow> chat_view \<Rightarrow> chat_view" where
  \<comment> \<open>subscribed only where both identifiers are there\<close>
  "chat_messages_read me other receipt v =
     (case (me, other) of
        (Some i, Some u) \<Rightarrow>
          if i = 0 \<or> u = 0 \<or> readerUserId receipt \<noteq> u then v
          else v\<lparr> view_messages := map (mark_read i receipt) (view_messages v) \<rparr>
      | _ \<Rightarrow> v)"

definition by_time :: "jsenv \<Rightarrow> message \<Rightarrow> message \<Rightarrow> int" where
  \<comment> \<open>the comparator of the history; \<open>NaN\<close> counts as 0\<close>
  "by_time env a b =
     (case (parse_date env (timestamp a), parse_date env (timestamp b)) of
        (Some x, Some y) \<Rightarrow> x - y | _ \<Rightarrow> 0)"

definition load_history :: "bool \<Rightarrow> int option \<Rightarrow> int option \<Rightarrow> chat_view \<Rightarrow> chat_view" where
  \<comment> \<open>\<open>loadHistory\<close> up to the await\<close>
  "load_history isAuthenticated me other v =
     (let runId = view_runId v + 1;
          v' = v\<lparr> view_runId := runId, view_messages := [] \<rparr>
      in if other = None \<or> other = Some 0 \<or> \<not> isAuthenticated \<or> me = None
         then v'\<lparr> view_loading := False \<rparr>
         else v'\<lparr> view_loading := True, view_pending := view_pending v @ [runId] \<rparr>)"

definition history_settled :: "jsenv \<Rightarrow> nat \<Rightarrow> thrown + message list \<Rightarrow> chat_view \<Rightarrow> chat_view" where
  "history_settled env runId result v0 =
     (let v = v0\<lparr> view_pending := remove1 runId (view_pending v0) \<rparr>
      in if runId \<noteq> view_runId v then v
         else (case result of
                 Inr history \<Rightarrow>
                   v\<lparr> view_messages := js_sort (by_time env) history, view_error := None, view_loading := False \<rparr>
               | Inl e \<Rightarrow> v\<lparr> view_error := Some (U ''Failed to load history''), view_loading := False \<rparr>))"

definition history_cleanup :: "chat_view \<Rightarrow> chat_view" where
  "history_cleanup v = v\<lparr> view_runId := view_runId v + 1 \<rparr>"

definition send_arguments :: "int option \<Rightarrow> ustr \<Rightarrow> jval \<Rightarrow> (int \<times> ustr \<times> int option) option" where
  \<comment> \<open>what \<open>sendMessage\<close> hands to the service, \<open>None\<close> where it returns false at once\<close>
  "send_arguments other text postId =
     (case other of
        None \<Rightarrow> None
      | Some o' \<Rightarrow>
          (case toPositiveIntegerId (opt_num (Some o')) of
             None \<Rightarrow> None
           | Some r \<Rightarrow> if trim text = [] then None else Some (r, trim text, toPositiveIntegerId postId)))"

definition send_settled :: "ustr \<Rightarrow> thrown + message option \<Rightarrow> chat_view \<Rightarrow> bool \<times> chat_view" where
  \<comment> \<open>the rest of \<open>sendMessage\<close> and of \<open>sendImageMessage\<close>, with their text for a foreign exception\<close>
  "send_settled fallback result v =
     (case result of
        Inr sent \<Rightarrow>
          (True, (case sent of None \<Rightarrow> v | Some m \<Rightarrow> v\<lparr> view_messages := append_message m (view_messages v) \<rparr>)
                   \<lparr> view_error := None \<rparr>)
      | Inl e \<Rightarrow> (False, v\<lparr> view_error := Some (case e of JsError _ t \<Rightarrow> t | ThrownValue _ \<Rightarrow> fallback) \<rparr>))"

datatype view_event =
    Received message
  | Receipt chat_read_receipt
  | HistoryRequested bool
  | HistorySettled nat "thrown + message list"
  | HistoryCleanedUp
  | SendSettled "thrown + message option"

inductive view_step ::
    "jsenv \<Rightarrow> int option \<Rightarrow> int option \<Rightarrow> chat_view \<Rightarrow> view_event \<Rightarrow> chat_view \<Rightarrow> bool" for env me other where
  received: "view_step env me other v (Received m) (chat_message_received me other m v)"
| receipt: "view_step env me other v (Receipt r) (chat_messages_read me other r v)"
| requested: "view_step env me other v (HistoryRequested auth) (load_history auth me other v)"
| settled: "r \<in> set (view_pending v) \<Longrightarrow>
     view_step env me other v (HistorySettled r result) (history_settled env r result v)"
| cleaned: "view_step env me other v HistoryCleanedUp (history_cleanup v)"
| sent: "view_step env me other v (SendSettled result) (snd (send_settled t result v))"

inductive view_run ::
    "jsenv \<Rightarrow> int option \<Rightarrow> int option \<Rightarrow> view_event list \<Rightarrow> chat_view \<Rightarrow> bool" for env me other where
  mounted: "view_run env me other [] newChatView"
| step: "view_run env me other es v \<Longrightarrow> view_step env me other v e v' \<Longrightarrow> view_run env me other (es @ [e]) v'"

section \<open>useChatList.ts\<close>

record chat_summary =
  summary_userId :: int
  summary_displayName :: ustr
  summary_avatar :: "ustr option"
  summary_lastMessage :: ustr
  summary_timestamp :: ustr
  summary_isRead :: bool

record chat_list =
  list_chats :: "chat_summary list"
  list_loading :: bool
  list_error :: "ustr option"
  list_loadedUserId :: ustr
  list_runId :: nat
  list_names :: "int \<rightharpoonup> ustr"
  list_avatars :: "int \<rightharpoonup> ustr"
  list_fetched :: "int set"

definition other_user :: "int \<Rightarrow> message \<Rightarrow> int" where
  "other_user me m = (if senderId m = me then receiverId m else senderId m)"

definition newest_first :: "jsenv \<Rightarrow> message \<Rightarrow> message \<Rightarrow> int" where
  "newest_first env a b = by_time env b a"

definition base_summary :: "(ustr \<Rightarrow> ustr) \<Rightarrow> int \<Rightarrow> message \<Rightarrow> chat_summary" where
  "base_summary preview me m =
     \<lparr> summary_userId = other_user me m, summary_displayName = [], summary_avatar = None,
       summary_lastMessage = preview (content m), summary_timestamp = timestamp m,
       summary_isRead = (if senderId m = me then True else isRead m) \<rparr>"

fun chats_by_user :: "(ustr \<Rightarrow> ustr) \<Rightarrow> int \<Rightarrow> message list \<Rightarrow> chat_summary list \<Rightarrow> chat_summary list" where
  \<comment> \<open>the map in insertion order\<close>
  "chats_by_user preview me [] chats = chats"
| "chats_by_user preview me (m # ms) chats =
     (if other_user me m = 0 \<or> other_user me m = me \<or> other_user me m \<in> set (map summary_userId chats)
      then chats_by_user preview me ms chats
      else chats_by_user preview me ms (chats @ [base_summary preview me m]))"

definition base_chats :: "jsenv \<Rightarrow> (ustr \<Rightarrow> ustr) \<Rightarrow> int \<Rightarrow> message list \<Rightarrow> chat_summary list" where
  "base_chats env preview me recentMessages =
     chats_by_user preview me (js_sort (newest_first env) recentMessages) []"

definition requested_user :: "bool \<Rightarrow> ustr option \<Rightarrow> ustr" where
  "requested_user isAuthenticated userId = (if isAuthenticated then trim (opt_str userId) else [])"

definition fetchChats :: "bool \<Rightarrow> ustr option \<Rightarrow> chat_list \<Rightarrow> (nat \<times> int) option \<times> chat_list" where
  \<comment> \<open>up to the request: the run and the current user it is made for\<close>
  "fetchChats isAuthenticated userId s =
     (let requestedUserId = requested_user isAuthenticated userId;
          runId = list_runId s + 1;
          s' = s\<lparr> list_runId := runId, list_loadedUserId := [], list_chats := [], list_names := Map.empty,
                  list_avatars := Map.empty, list_error := None, list_fetched := {} \<rparr>
      in if requestedUserId = [] then (None, s'\<lparr> list_loading := False \<rparr>)
         else (case toPositiveIntegerId (Str requestedUserId) of
                 None \<Rightarrow> (None, s'\<lparr> list_loadedUserId := requestedUserId, list_loading := False \<rparr>)
               | Some me \<Rightarrow> (Some (runId, me), s'\<lparr> list_loading := True \<rparr>)))"

definition recents_settled ::
    "jsenv \<Rightarrow> (ustr \<Rightarrow> ustr) \<Rightarrow> nat \<Rightarrow> ustr \<Rightarrow> int \<Rightarrow> thrown + message list \<Rightarrow> chat_list \<Rightarrow> chat_list" where
  "recents_settled env preview runId requestedUserId me result s =
     (if runId \<noteq> list_runId s then s
      else (case result of
              Inr recentMessages \<Rightarrow>
                (let chats = base_chats env preview me recentMessages
                 in s\<lparr> list_chats := chats, list_loadedUserId := requestedUserId, list_loading := False,
                       list_fetched := list_fetched s \<union> set (map summary_userId chats) \<rparr>)
            | Inl e \<Rightarrow>
                s\<lparr> list_chats := [], list_error := Some (case e of JsError _ t \<Rightarrow> t | ThrownValue _ \<Rightarrow> U ''Failed to load chats''),
                   list_loadedUserId := requestedUserId, list_loading := False \<rparr>))"

definition enriched_name :: "ustr \<Rightarrow> int \<Rightarrow> thrown + jval \<Rightarrow> ustr" where
  "enriched_name userPrefix i reply =
     (case reply of Inr u \<Rightarrow> resolveUserDisplayName u (Num (Fin (of_int i))) | Inl e \<Rightarrow> userPrefix @ U '' '' @ int_str i)"

definition enriched_avatar :: "thrown + jval \<Rightarrow> ustr option" where
  "enriched_avatar reply = (case reply of Inr u \<Rightarrow> (case fld u ''avatar'' of Str a \<Rightarrow> undef_if_empty a | _ \<Rightarrow> None) | Inl e \<Rightarrow> None)"

definition enrich_chat :: "(int \<rightharpoonup> ustr) \<Rightarrow> (int \<rightharpoonup> ustr) \<Rightarrow> chat_summary \<Rightarrow> chat_summary" where
  "enrich_chat names avatars c =
     c\<lparr> summary_displayName := or_else (opt_str (names (summary_userId c))) (summary_displayName c),
        summary_avatar := (case avatars (summary_userId c) of Some a \<Rightarrow> Some a | None \<Rightarrow> summary_avatar c) \<rparr>"

definition chat_users_settled :: "ustr \<Rightarrow> nat \<Rightarrow> (int \<times> (thrown + jval)) list \<Rightarrow> chat_list \<Rightarrow> chat_list" where
  \<comment> \<open>after \<open>Promise.all\<close>; identifiers are pairwise different\<close>
  "chat_users_settled userPrefix runId replies s0 =
     (let s = s0\<lparr> list_fetched := list_fetched s0 - {i. \<exists>e. (i, Inl e) \<in> set replies} \<rparr>;
          names = map_of (map (\<lambda>(i, r). (i, enriched_name userPrefix i r)) replies);
          avatars = (\<lambda>i. case map_of replies i of None \<Rightarrow> None | Some r \<Rightarrow> enriched_avatar r)
      in if runId \<noteq> list_runId s then s
         else s\<lparr> list_names := list_names s ++ names, list_avatars := list_avatars s ++ avatars,
                 list_chats := map (enrich_chat names avatars) (list_chats s) \<rparr>)"

definition updated_summary :: "(ustr \<Rightarrow> ustr) \<Rightarrow> int \<Rightarrow> int option \<Rightarrow> message \<Rightarrow> chat_list \<Rightarrow> chat_summary" where
  "updated_summary preview me selectedUserId m s =
     (let u = other_user me m;
          existing = find (\<lambda>c. summary_userId c = u) (list_chats s);
          name = (case existing of None \<Rightarrow> [] | Some c \<Rightarrow> summary_displayName c);
          avatar = (case existing of None \<Rightarrow> None | Some c \<Rightarrow> summary_avatar c)
      in \<lparr> summary_userId = u, summary_displayName = or_else name (opt_str (list_names s u)),
           summary_avatar = (if opt_str avatar \<noteq> [] then avatar else list_avatars s u),
           summary_lastMessage = preview (content m), summary_timestamp = timestamp m,
           summary_isRead = (senderId m = me \<or> selectedUserId = Some u) \<rparr>)"

definition list_message_received :: "(ustr \<Rightarrow> ustr) \<Rightarrow> int \<Rightarrow> int option \<Rightarrow> message \<Rightarrow> chat_list \<Rightarrow> chat_list" where
  "list_message_received preview me selectedUserId m s =
     (let u = other_user me m
      in if \<not> (senderId m = me \<or> receiverId m = me) \<or> u = 0 \<or> u = me then s
         else s\<lparr> list_chats := updated_summary preview me selectedUserId m s
                   # filter (\<lambda>c. summary_userId c \<noteq> u) (list_chats s),
                 list_fetched := (if opt_str (list_names s u) = [] then insert u (list_fetched s) else list_fetched s) \<rparr>)"

definition new_user_settled :: "int \<Rightarrow> thrown + jval \<Rightarrow> bool \<Rightarrow> chat_list \<Rightarrow> chat_list" where
  \<comment> \<open>the profile of a user first seen in a message; the flag is \<open>isActiveOwner\<close>\<close>
  "new_user_settled u reply isActiveOwner s =
     (case reply of
        Inl e \<Rightarrow> s\<lparr> list_fetched := list_fetched s - {u} \<rparr>
      | Inr d \<Rightarrow>
          if \<not> isActiveOwner then s
          else (let name = resolveUserDisplayName d (Num (Fin (of_int u)))
                in s\<lparr> list_names := (list_names s)(u \<mapsto> name),
                      list_avatars := (case enriched_avatar reply of None \<Rightarrow> list_avatars s
                                       | Some a \<Rightarrow> (list_avatars s)(u \<mapsto> a)),
                      list_chats := map (\<lambda>c. if summary_userId c = u
                          then c\<lparr> summary_displayName := name,
                                  summary_avatar := (case enriched_avatar reply of None \<Rightarrow> summary_avatar c
                                                     | Some a \<Rightarrow> Some a) \<rparr> else c) (list_chats s) \<rparr>))"

definition visible_chats :: "bool \<Rightarrow> ustr option \<Rightarrow> chat_list \<Rightarrow> chat_summary list" where
  "visible_chats isAuthenticated userId s =
     (if isAuthenticated \<and> isOwnedChatScope (Some (requested_user isAuthenticated userId)) (Some (list_loadedUserId s))
      then list_chats s else [])"

section \<open>chatSessionUtils.ts\<close>

definition readPersistedChatReturnState :: "storage \<Rightarrow> (ustr \<times> ustr) option" where
  \<comment> \<open>user and path, \<open>None\<close> for null\<close>
  "readPersistedChatReturnState st =
     (case getItem st (U ''chat:return-path'') of
        None \<Rightarrow> None
      | Some stored \<Rightarrow>
          if stored = [] then None
          else (case JSON_parse stored of
                  None \<Rightarrow> None
                | Some v \<Rightarrow>
                    (case (fld v ''chatUserId'', fld v ''returnPath'') of
                       (Str u, Str p) \<Rightarrow>
                         if length (trim u) > 0 \<and> starts_with p (U ''/'') then Some (u, p) else None
                     | _ \<Rightarrow> None)))"

definition clearPersistedChatReturnPath :: "storage \<Rightarrow> storage" where
  "clearPersistedChatReturnPath st = removeItem st (U ''chat:return-path'')"

section \<open>The conversation\<close>

definition dated :: "jsenv \<Rightarrow> message \<Rightarrow> bool" where
  "dated env m \<longleftrightarrow> parse_date env (timestamp m) \<noteq> None"

definition time_of :: "jsenv \<Rightarrow> message \<Rightarrow> int" where
  "time_of env m = (case parse_date env (timestamp m) of Some t \<Rightarrow> t | None \<Rightarrow> 0)"

lemma by_time_dated: "dated env a \<Longrightarrow> dated env b \<Longrightarrow> by_time env a b = time_of env a - time_of env b"
  by (auto simp: by_time_def dated_def time_of_def)

interpretation history_order: comparator "by_time env" "dated env" for env
  by unfold_locales (auto simp: by_time_dated)

interpretation recency_order: comparator "newest_first env" "dated env" for env
  by unfold_locales (auto simp: newest_first_def by_time_dated)

definition no_repeats :: "message list \<Rightarrow> bool" where
  "no_repeats ms \<longleftrightarrow> sorted_wrt (\<lambda>a b. \<not> isSameChatMessage a b) ms"

lemma same_sym: "isSameChatMessage a b \<longleftrightarrow> isSameChatMessage b a"
  by (auto simp: isSameChatMessage_def)

lemma sorted_wrt_insert_by:
  assumes "\<And>a b. R a b \<longleftrightarrow> R b a"
  shows "sorted_wrt R (insert_by cmp x xs) \<longleftrightarrow> (\<forall>y \<in> set xs. R x y) \<and> sorted_wrt R xs"
proof (induction xs)
  case (Cons y ys)
  have "set (insert_by cmp x ys) = insert x (set ys)"
    by (metis mset_insert_by set_mset_mset set_mset_add_mset_insert)
  with Cons assms show ?case by auto
qed simp

lemma no_repeats_sort: "no_repeats (js_sort cmp ms) \<longleftrightarrow> no_repeats ms"
  unfolding no_repeats_def
  by (induction ms) (simp_all add: js_sort_Cons sorted_wrt_insert_by same_sym)

lemma no_repeats_append: "no_repeats ms \<Longrightarrow> no_repeats (append_message m ms)"
  by (auto simp: no_repeats_def append_message_def sorted_wrt_append list_ex_iff)

lemma mark_read_same [simp]: "isSameChatMessage (mark_read me r a) (mark_read me r b) \<longleftrightarrow> isSameChatMessage a b"
  by (simp add: isSameChatMessage_def mark_read_def)

lemma no_repeats_mark: "no_repeats ms \<Longrightarrow> no_repeats (map (mark_read me r) ms)"
  by (simp add: no_repeats_def sorted_wrt_map)

definition up_to_read :: "message \<Rightarrow> message \<Rightarrow> bool" where
  "up_to_read a b \<longleftrightarrow> a\<lparr> isRead := True \<rparr> = b\<lparr> isRead := True \<rparr>"

lemma up_to_read_mark [simp]: "up_to_read (mark_read me r a) b \<longleftrightarrow> up_to_read a b"
  by (simp add: up_to_read_def mark_read_def)

definition brought :: "int option \<Rightarrow> int option \<Rightarrow> view_event list \<Rightarrow> message \<Rightarrow> bool" where
  \<comment> \<open>some event brought the message to this conversation\<close>
  "brought me other es m \<longleftrightarrow>
     (\<exists>e \<in> set es. case e of
        Received m' \<Rightarrow> up_to_read m m' \<and> isChatMessageForParticipants m' me other
      | HistorySettled _ (Inr h) \<Rightarrow> (\<exists>m' \<in> set h. up_to_read m m')
      | SendSettled (Inr (Some m')) \<Rightarrow> up_to_read m m'
      | _ \<Rightarrow> False)"

lemma brought_mono: "brought me other es m \<Longrightarrow> brought me other (es @ es') m"
  by (auto simp: brought_def)

lemma brought_last:
  "brought me other (es @ [e]) m \<longleftrightarrow> brought me other es m \<or> brought me other [e] m"
  by (auto simp: brought_def)

lemma brought_mark [simp]: "brought me other es (mark_read i r m) \<longleftrightarrow> brought me other es m"
  unfolding brought_def up_to_read_mark by (rule refl)

definition histories_plain :: "view_event list \<Rightarrow> bool" where
  "histories_plain es \<longleftrightarrow> (\<forall>r h. HistorySettled r (Inr h) \<in> set es \<longrightarrow> no_repeats h)"

definition view_ok :: "int option \<Rightarrow> int option \<Rightarrow> view_event list \<Rightarrow> chat_view \<Rightarrow> bool" where
  "view_ok me other es v \<longleftrightarrow>
     (\<forall>r \<in> set (view_pending v). r \<le> view_runId v) \<and> distinct (view_pending v)
     \<and> (\<forall>m \<in> set (view_messages v). brought me other es m)
     \<and> (histories_plain es \<longrightarrow> no_repeats (view_messages v))"

lemma in_append_message: "x \<in> set (append_message m ms) \<Longrightarrow> x = m \<or> x \<in> set ms"
  by (auto simp: append_message_def split: if_splits)

lemma view_step_ok:
  assumes "view_step env me other v e v'" and ok: "view_ok me other es v"
  shows "view_ok me other (es @ [e]) v'"
proof -
  have plain: "histories_plain (es @ [e]) \<Longrightarrow> histories_plain es" by (auto simp: histories_plain_def)
  have self: "up_to_read m m" for m by (simp add: up_to_read_def)
  from assms(1) show ?thesis
  proof cases
    case (received m)
    then show ?thesis
      using ok plain no_repeats_append
      by (auto simp: view_ok_def chat_message_received_def brought_last brought_def [of _ _ "[Received m]"] self
          dest!: in_append_message)
  next
    case (receipt r)
    then show ?thesis
      using ok plain by (auto simp: view_ok_def chat_messages_read_def brought_last no_repeats_mark split: option.split)
  next
    case (requested auth)
    then show ?thesis using ok by (auto simp: view_ok_def load_history_def Let_def no_repeats_def)
  next
    case (settled r result)
    then have "no_repeats (js_sort (by_time env) h)" if "result = Inr h" "histories_plain (es @ [e])" for h
      using that by (auto simp: histories_plain_def no_repeats_sort)
    then show ?thesis
      using ok plain settled set_remove1_subset [of r "view_pending v"]
      by (auto simp: view_ok_def history_settled_def Let_def brought_last brought_def [of _ _ "[HistorySettled r result]"]
          split: sum.split intro: self)
  next
    case cleaned
    then show ?thesis using ok plain by (auto simp: view_ok_def history_cleanup_def brought_last)
  next
    case (sent result t)
    then show ?thesis
      using ok plain no_repeats_append
      by (auto simp: view_ok_def send_settled_def brought_last brought_def [of _ _ "[SendSettled result]"] self
          split: sum.split option.split dest!: in_append_message)
  qed
qed

lemma view_run_ok: "view_run env me other es v \<Longrightarrow> view_ok me other es v"
proof (induction rule: view_run.induct)
  case mounted
  then show ?case by (simp add: view_ok_def newChatView_def no_repeats_def)
qed (rule view_step_ok)

section \<open>The list of conversations\<close>

definition partner_ok :: "int \<Rightarrow> message \<Rightarrow> bool" where
  "partner_ok me m \<longleftrightarrow> other_user me m \<noteq> 0 \<and> other_user me m \<noteq> me"

lemma base_summary_sel [simp]:
  "summary_userId (base_summary preview me m) = other_user me m"
  "summary_timestamp (base_summary preview me m) = timestamp m"
  by (simp_all add: base_summary_def)

lemma chats_by_user_ids:
  "distinct (map summary_userId chats) \<Longrightarrow> distinct (map summary_userId (chats_by_user preview me ms chats))"
  "summary_userId ` set (chats_by_user preview me ms chats)
     = summary_userId ` set chats \<union> other_user me ` {m \<in> set ms. partner_ok me m}"
  by (induction preview me ms chats rule: chats_by_user.induct) (auto simp: partner_ok_def)

text \<open>A conversation shows its first message in the order of the walk.\<close>

definition shows_first :: "(ustr \<Rightarrow> ustr) \<Rightarrow> int \<Rightarrow> message list \<Rightarrow> chat_summary \<Rightarrow> bool" where
  "shows_first preview me ms c \<longleftrightarrow>
     (\<exists>pre m post. ms = pre @ m # post \<and> c = base_summary preview me m \<and> partner_ok me m
        \<and> (\<forall>p \<in> set pre. other_user me p \<noteq> other_user me m))"

lemma shows_first_Cons:
  "shows_first preview me ms c \<Longrightarrow> other_user me x \<noteq> summary_userId c \<Longrightarrow> shows_first preview me (x # ms) c"
  unfolding shows_first_def by (elim exE, rule_tac x = "x # pre" in exI) auto

lemma chats_by_user_first:
  assumes "c \<in> set (chats_by_user preview me ms chats)" and "distinct (map summary_userId chats)"
  shows "c \<in> set chats \<or> (shows_first preview me ms c \<and> summary_userId c \<notin> set (map summary_userId chats))"
  using assms
proof (induction preview me ms chats rule: chats_by_user.induct)
  case (2 preview me m ms chats)
  show ?case
  proof (cases "other_user me m = 0 \<or> other_user me m = me \<or> other_user me m \<in> set (map summary_userId chats)")
    case True
    then consider "c \<in> set chats" | "shows_first preview me ms c" "summary_userId c \<notin> set (map summary_userId chats)"
      using 2 by auto
    then show ?thesis
    proof cases
      case 2
      then have "other_user me m \<noteq> summary_userId c"
        using True by (auto simp: shows_first_def partner_ok_def image_iff)
      with 2 show ?thesis by (blast intro: shows_first_Cons)
    qed simp
  next
    case False
    then consider "c \<in> set chats" | "c = base_summary preview me m"
      | "shows_first preview me ms c" "summary_userId c \<notin> set (map summary_userId (chats @ [base_summary preview me m]))"
      using 2 by fastforce
    then show ?thesis
    proof cases
      case 2
      then have "shows_first preview me (m # ms) c"
        using False unfolding shows_first_def by (intro exI [of _ "[]"] exI [of _ m] exI [of _ ms]) (simp add: partner_ok_def)
      with 2 False show ?thesis by auto
    next
      case 3
      then show ?thesis using shows_first_Cons [of preview me ms c m] by auto
    qed simp
  qed
qed simp

definition later :: "jsenv \<Rightarrow> chat_summary \<Rightarrow> chat_summary \<Rightarrow> bool" where
  \<comment> \<open>the second is not newer than the first\<close>
  "later env a b \<longleftrightarrow> (case (parse_date env (summary_timestamp a), parse_date env (summary_timestamp b)) of
     (Some x, Some y) \<Rightarrow> y \<le> x | _ \<Rightarrow> False)"

lemma later_base:
  "dated env a \<Longrightarrow> dated env b \<Longrightarrow>
   later env (base_summary preview me a) (base_summary preview me b) \<longleftrightarrow> time_of env b \<le> time_of env a"
  by (auto simp: later_def dated_def time_of_def)

lemma chats_by_user_sorted:
  assumes "\<forall>m \<in> set ms. dated env m" and "sorted_wrt (\<lambda>a b. time_of env b \<le> time_of env a) ms"
    and "sorted_wrt (later env) chats"
    and "\<forall>c \<in> set chats. \<forall>m \<in> set ms. later env c (base_summary preview me m)"
  shows "sorted_wrt (later env) (chats_by_user preview me ms chats)"
  using assms
  by (induction preview me ms chats rule: chats_by_user.induct) (auto simp: sorted_wrt_append later_base)

section \<open>Properties\<close>

text \<open>
  Claim C19. In every reachable state of a conversation each message was brought there by a message
  between its two participants, by a history of the conversation, or by sending; no message is shown
  twice unless a history repeats it; a loaded history is shown in the order of its times, and the
  answer to a superseded request changes nothing.
\<close>

theorem chat_view_invariant:
  assumes "view_run env me other es v"
  shows "(\<forall>m \<in> set (view_messages v). brought me other es m)
    \<and> (histories_plain es \<longrightarrow> no_repeats (view_messages v))
    \<and> ((\<forall>m \<in> set h. dated env m) \<longrightarrow>
        sorted_wrt (\<lambda>a b. time_of env a \<le> time_of env b) (view_messages (history_settled env (view_runId v) (Inr h) v)))
    \<and> (r \<noteq> view_runId v \<longrightarrow> view_messages (history_settled env r result v) = view_messages v
        \<and> view_error (history_settled env r result v) = view_error v)"
proof -
  have "sorted_wrt (\<lambda>a b. time_of env a \<le> time_of env b) (js_sort (by_time env) h)" if "\<forall>m \<in> set h. dated env m"
    using history_order.sorted_js_sort [OF that] that
    by (elim sorted_wrt_mono_on [rotated]) (auto simp: by_time_dated)
  then show ?thesis
    using view_run_ok [OF assms] by (simp add: view_ok_def history_settled_def Let_def)
qed

definition sample_message :: "int \<Rightarrow> int \<Rightarrow> int \<Rightarrow> message" where
  "sample_message i a b = \<lparr> messageId = Some i, senderId = a, receiverId = b, conversationId = Some 1,
     msg_postId = None, content = U ''hi'', timestamp = U ''5'', isRead = False \<rparr>"

lemma sample_view_run:
  "view_run env (Some 3) (Some 4) [HistoryRequested True, Received (sample_message 9 4 3)]
     (chat_message_received (Some 3) (Some 4) (sample_message 9 4 3) (load_history True (Some 3) (Some 4) newChatView))"
  using view_run.step [OF view_run.step [OF mounted requested] received, of env "Some 3" "Some 4" True "sample_message 9 4 3"]
  by simp

theorem chat_view_invariant_witness:
  "\<exists>v. view_run ref_env (Some 3) (Some 4) [HistoryRequested True, Received (sample_message 9 4 3)] v
     \<and> length (view_messages v) = 1 \<and> no_repeats (view_messages v)"
proof -
  let ?v = "chat_message_received (Some 3) (Some 4) (sample_message 9 4 3) (load_history True (Some 3) (Some 4) newChatView)"
  have "histories_plain [HistoryRequested True, Received (sample_message 9 4 3)]" by (simp add: histories_plain_def)
  moreover have "length (view_messages ?v) = 1"
    by (simp add: chat_message_received_def load_history_def newChatView_def isChatMessageForParticipants_def
        sample_message_def append_message_def Let_def)
  ultimately show ?thesis
    using chat_view_invariant [OF sample_view_run [of ref_env], of "[]" 0 "Inr []"] sample_view_run [of ref_env] by blast
qed

text \<open>
  A message that arrives while the history is being loaded is shown until the history
  is there and then dropped, unless the server had it in its answer.
\<close>

theorem history_overwrites_message:
  assumes "view_run env (Some i) (Some u) es v" and "i \<noteq> 0" and "u \<noteq> 0"
    and "senderId m = u" and "receiverId m = i" and "m \<notin> set h"
  shows "\<exists>shown. view_run env (Some i) (Some u) (es @ [HistoryRequested True, Received m]) shown
     \<and> m \<in> set (view_messages shown)
     \<and> view_run env (Some i) (Some u) (es @ [HistoryRequested True, Received m, HistorySettled (view_runId shown) (Inr h)])
          (history_settled env (view_runId shown) (Inr h) shown)
     \<and> m \<notin> set (view_messages (history_settled env (view_runId shown) (Inr h) shown))"
proof -
  let ?l = "load_history True (Some i) (Some u) v"
  let ?s = "chat_message_received (Some i) (Some u) m ?l"
  have run: "view_run env (Some i) (Some u) (es @ [HistoryRequested True, Received m]) ?s"
    using view_run.step [OF view_run.step [OF assms(1) requested] received, of True m] by simp
  have shown: "m \<in> set (view_messages ?s)" "view_runId ?s \<in> set (view_pending ?s)"
    using assms(2-5) by (simp_all add: chat_message_received_def isChatMessageForParticipants_def load_history_def
        append_message_def Let_def)
  from view_run.step [OF run settled [OF shown(2)], of "Inr h"]
  have "view_run env (Some i) (Some u) (es @ [HistoryRequested True, Received m, HistorySettled (view_runId ?s) (Inr h)])
      (history_settled env (view_runId ?s) (Inr h) ?s)" by simp
  moreover have "m \<notin> set (view_messages (history_settled env (view_runId ?s) (Inr h) ?s))"
    using assms(6) by (simp add: history_settled_def Let_def)
  ultimately show ?thesis using run shown(1) by blast
qed

theorem history_overwrites_message_witness:
  "\<exists>shown. sample_message 9 4 3 \<in> set (view_messages shown)
     \<and> sample_message 9 4 3 \<notin> set (view_messages (history_settled ref_env (view_runId shown) (Inr []) shown))"
proof -
  have "senderId (sample_message 9 4 3) = 4" "receiverId (sample_message 9 4 3) = 3"
    "sample_message 9 4 3 \<notin> set []" "(3::int) \<noteq> 0" "(4::int) \<noteq> 0"
    by (simp_all add: sample_message_def)
  from history_overwrites_message [OF mounted [of ref_env "Some 3" "Some 4"] this(4,5) this(1-3)] show ?thesis by blast
qed

text \<open>
  The list of conversations has one entry for each user there is a message with, never
  one for the current user; the entry is about a message with that user none is newer than, and the
  entries are in the order of these times.  A message that arrives puts its conversation first and
  leaves the others as they are, still one for each user.
\<close>

theorem chat_list_correct:
  assumes "\<forall>m \<in> set ms. dated env m"
  shows "distinct (map summary_userId (base_chats env preview me ms))
    \<and> summary_userId ` set (base_chats env preview me ms) = other_user me ` {m \<in> set ms. partner_ok me m}
    \<and> me \<notin> summary_userId ` set (base_chats env preview me ms)
    \<and> (\<forall>c \<in> set (base_chats env preview me ms). \<exists>m \<in> set ms. c = base_summary preview me m
         \<and> (\<forall>n \<in> set ms. other_user me n = other_user me m \<longrightarrow> time_of env n \<le> time_of env m))
    \<and> sorted_wrt (later env) (base_chats env preview me ms)
    \<and> (distinct (map summary_userId (list_chats s)) \<and> (senderId m = me \<or> receiverId m = me) \<and> partner_ok me m \<longrightarrow>
        summary_userId (hd (list_chats (list_message_received preview me sel m s))) = other_user me m
        \<and> summary_lastMessage (hd (list_chats (list_message_received preview me sel m s))) = preview (content m)
        \<and> distinct (map summary_userId (list_chats (list_message_received preview me sel m s)))
        \<and> filter (\<lambda>c. summary_userId c \<noteq> other_user me m) (list_chats (list_message_received preview me sel m s))
          = filter (\<lambda>c. summary_userId c \<noteq> other_user me m) (list_chats s))"
proof (intro conjI)
  let ?l = "js_sort (newest_first env) ms"
  have sorted: "sorted_wrt (\<lambda>a b. time_of env b \<le> time_of env a) ?l"
    using recency_order.sorted_js_sort [OF assms] assms
    by (elim sorted_wrt_mono_on [rotated]) (auto simp: newest_first_def by_time_dated)
  show "distinct (map summary_userId (base_chats env preview me ms))"
    unfolding base_chats_def by (rule chats_by_user_ids) simp
  show ids: "summary_userId ` set (base_chats env preview me ms) = other_user me ` {m \<in> set ms. partner_ok me m}"
    by (simp add: base_chats_def chats_by_user_ids)
  then show "me \<notin> summary_userId ` set (base_chats env preview me ms)"
    by (auto simp: partner_ok_def)
  show "\<forall>c \<in> set (base_chats env preview me ms). \<exists>m \<in> set ms. c = base_summary preview me m
         \<and> (\<forall>n \<in> set ms. other_user me n = other_user me m \<longrightarrow> time_of env n \<le> time_of env m)"
  proof
    fix c assume "c \<in> set (base_chats env preview me ms)"
    then have "shows_first preview me ?l c" using chats_by_user_first by (fastforce simp: base_chats_def)
    then obtain pre m post where m: "?l = pre @ m # post" "c = base_summary preview me m"
      and first: "\<forall>p \<in> set pre. other_user me p \<noteq> other_user me m" by (auto simp: shows_first_def)
    have "m \<in> set ms" using m(1) set_js_sort [of "newest_first env" ms] by auto
    moreover have "time_of env n \<le> time_of env m" if "n \<in> set ms" "other_user me n = other_user me m" for n
    proof -
      have "n \<in> set (pre @ m # post)" using that(1) m(1) set_js_sort [of "newest_first env" ms] by metis
      then have "n = m \<or> n \<in> set post" using first that(2) by auto
      then show ?thesis using sorted m(1) by (auto simp: sorted_wrt_append)
    qed
    ultimately show "\<exists>m \<in> set ms. c = base_summary preview me m
         \<and> (\<forall>n \<in> set ms. other_user me n = other_user me m \<longrightarrow> time_of env n \<le> time_of env m)"
      using m(2) by blast
  qed
  show "sorted_wrt (later env) (base_chats env preview me ms)"
    unfolding base_chats_def by (rule chats_by_user_sorted) (use assms sorted in auto)
  show "distinct (map summary_userId (list_chats s)) \<and> (senderId m = me \<or> receiverId m = me) \<and> partner_ok me m \<longrightarrow>
        summary_userId (hd (list_chats (list_message_received preview me sel m s))) = other_user me m
        \<and> summary_lastMessage (hd (list_chats (list_message_received preview me sel m s))) = preview (content m)
        \<and> distinct (map summary_userId (list_chats (list_message_received preview me sel m s)))
        \<and> filter (\<lambda>c. summary_userId c \<noteq> other_user me m) (list_chats (list_message_received preview me sel m s))
          = filter (\<lambda>c. summary_userId c \<noteq> other_user me m) (list_chats s)"
    by (auto simp: list_message_received_def Let_def updated_summary_def partner_ok_def distinct_map_filter)
qed

theorem chat_list_correct_witness:
  "map summary_userId (base_chats ref_env id 3 [sample_message 1 4 3, sample_message 2 3 5, sample_message 3 4 3]) = [4, 5]
    \<and> distinct (map summary_userId (base_chats ref_env id 3 [sample_message 1 4 3, sample_message 2 3 5, sample_message 3 4 3]))"
proof -
  have "\<forall>m \<in> set [sample_message 1 4 3, sample_message 2 3 5, sample_message 3 4 3]. dated ref_env m"
    by code_simp
  note distinct = chat_list_correct [OF this, of id 3, THEN conjunct1]
  have "map summary_userId (base_chats ref_env id 3 [sample_message 1 4 3, sample_message 2 3 5, sample_message 3 4 3]) = [4, 5]"
    by code_simp
  with distinct show ?thesis by blast
qed

end
