(* ===== verification/ChatWindow.thy ===== *)
theory ChatWindow
  imports ChatMessages
begin

text \<open>
  The chat window (\<open>features/chat/components/ChatWindow.tsx\<close>) and avatar addresses
  (\<open>shared/lib/avatar.ts\<close>), without the markup: the splitting of a text at its links, the draft with
  its picture, sending and the presence line.  One window belongs to one conversation (its React key).
  The addresses \<open>URL.createObjectURL\<close> hands out are inputs; the store of the browser that keeps them
  alive is part of the state.
\<close>

section \<open>Links in a text\<close>

definition link_char :: "nat \<Rightarrow> bool" where
  \<comment> \<open>the class \<open>[^\s<>"]\<close>\<close>
  "link_char c \<longleftrightarrow> \<not> is_ws c \<and> c \<noteq> 60 \<and> c \<noteq> 62 \<and> c \<noteq> 34"

definition link_end_char :: "nat \<Rightarrow> bool" where
  \<comment> \<open>the class \<open>[^\s<>".,;:!?)]\<close>\<close>
  "link_end_char c \<longleftrightarrow> link_char c \<and> c \<notin> set (U ''.,;:!?)'')"

definition link_scheme :: "ustr \<Rightarrow> nat" where
  \<comment> \<open>the length of \<open>https?:\/\/\<close>\<close>
  "link_scheme s = (if starts_with s (U ''https://'') then 8 else if starts_with s (U ''http://'') then 7 else 0)"

definition link_at :: "ustr \<Rightarrow> ustr option" where
  \<comment> \<open>\<open>URL_REGEX\<close> at the start of the text.  Both repetitions are greedy and nothing can fail after
      them, so none is given back; an opening parenthesis is a character of the first alternative of
      the group, so the second is never tried.\<close>
  "link_at s =
     (let n = link_scheme s; run = takeWhile link_char (drop n s);
          tail = takeWhile link_end_char (drop (length run) (drop n s))
      in if n = 0 \<or> run = [] then None else Some (take n s @ run @ tail))"

fun next_link :: "ustr \<Rightarrow> (ustr \<times> ustr \<times> ustr) option" where
  \<comment> \<open>\<open>exec\<close>: the text before the next match, the match, and the text after it\<close>
  "next_link [] = None"
| "next_link (c # s) =
     (case link_at (c # s) of
        Some url \<Rightarrow> Some ([], url, drop (length url) (c # s))
      | None \<Rightarrow> map_option (\<lambda>(before, url, after). (c # before, url, after)) (next_link s))"

datatype part = Plain ustr | Link ustr

fun part_text :: "part \<Rightarrow> ustr" where
  "part_text (Plain s) = s"
| "part_text (Link s) = s"

lemma no_tail: "takeWhile link_end_char (drop (length (takeWhile link_char s)) s) = []"
proof -
  have "drop (length (takeWhile link_char s)) s = dropWhile link_char s"
    by (simp add: dropWhile_eq_drop)
  then show ?thesis
    by (cases "dropWhile link_char s") (auto simp: link_end_char_def dest: dropWhile_eq_Cons_conv [THEN iffD1])
qed

lemma link_at_iff:
  "link_at s = Some url \<longleftrightarrow> link_scheme s \<noteq> 0 \<and> takeWhile link_char (drop (link_scheme s) s) \<noteq> []
     \<and> url = take (link_scheme s) s @ takeWhile link_char (drop (link_scheme s) s)"
  by (auto simp: link_at_def Let_def no_tail simp del: drop_drop)

lemma link_at_split:
  assumes "link_at s = Some url"
  shows "url \<noteq> []" and "s = url @ drop (length url) s"
    and "drop (length url) s = dropWhile link_char (drop (link_scheme s) s)"
proof -
  let ?r = "drop (link_scheme s) s"
  have url: "url = take (link_scheme s) s @ takeWhile link_char ?r" "takeWhile link_char ?r \<noteq> []"
    using assms by (simp_all add: link_at_iff)
  have s: "s = url @ dropWhile link_char ?r" unfolding url by simp
  show "url \<noteq> []" using url by auto
  show "drop (length url) s = dropWhile link_char ?r" by (subst s) simp
  then show "s = url @ drop (length url) s" using s by simp
qed

lemma next_link_split:
  "next_link s = Some (before, url, after) \<Longrightarrow> s = before @ url @ after \<and> url \<noteq> [] \<and> link_at (url @ after) = Some url"
proof (induction s arbitrary: before)
  case (Cons c s)
  show ?case
  proof (cases "link_at (c # s)")
    case None
    then show ?thesis using Cons by auto
  next
    case (Some u)
    then have "before = []" "url = u" "after = drop (length u) (c # s)" using Cons.prems by (auto simp del: drop_Cons')
    moreover have "u @ drop (length u) (c # s) = c # s" using link_at_split(2) [OF Some] by (rule sym)
    ultimately show ?thesis using Some link_at_split(1) [OF Some] by (simp del: drop_Cons')
  qed
qed simp

function link_parts :: "ustr \<Rightarrow> part list" where
  \<comment> \<open>the loop and what follows it\<close>
  "link_parts s =
     (case next_link s of
        None \<Rightarrow> if s = [] then [] else [Plain s]
      | Some (before, url, after) \<Rightarrow>
          (if before = [] then [] else [Plain before]) @ Link url # link_parts after)"
  by pat_completeness auto

termination
proof (relation "measure length")
  fix s x before y url after
  assume "next_link s = Some x" "(before, y) = x" "(url, after) = y"
  then show "(after, s) \<in> measure length" using next_link_split [of s before url after] by fastforce
qed simp

declare link_parts.simps [simp del]

definition renderTextWithLinks :: "ustr \<Rightarrow> part list" where
  "renderTextWithLinks text = (let parts = link_parts text in if parts = [] then [Plain text] else parts)"

lemma links_join: "concat (map part_text (link_parts s)) = s"
proof (induction s rule: link_parts.induct)
  case (1 s)
  show ?case
  proof (cases "next_link s")
    case None
    then show ?thesis by (simp add: link_parts.simps [of s])
  next
    case (Some x)
    then obtain before url after where x: "next_link s = Some (before, url, after)" by (cases x) auto
    then have "concat (map part_text (link_parts after)) = after" using 1 [of "(before, url, after)" before "(url, after)"] by simp
    moreover have "link_parts s = (if before = [] then [] else [Plain before]) @ Link url # link_parts after"
      using x by (simp add: link_parts.simps [of s])
    ultimately show ?thesis using next_link_split [OF x] by auto
  qed
qed

definition link_text_ok :: "ustr \<Rightarrow> bool" where
  "link_text_ok url \<longleftrightarrow>
     link_scheme url \<noteq> 0 \<and> link_scheme url < length url \<and> list_all link_char (drop (link_scheme url) url)"

fun part_ok :: "part \<Rightarrow> bool" where
  \<comment> \<open>a link is an address without blanks, angle brackets or quotes; plain text is not empty and holds no link\<close>
  "part_ok (Link url) \<longleftrightarrow> link_text_ok url"
| "part_ok (Plain s) \<longleftrightarrow> s \<noteq> [] \<and> next_link s = None"

lemma scheme_cases:
  obtains "link_scheme s = 8" "starts_with s (U ''https://'')" | "link_scheme s = 7" "starts_with s (U ''http://'')"
  | "link_scheme s = 0"
  by (cases "starts_with s (U ''https://'')"; cases "starts_with s (U ''http://'')") (simp_all add: link_scheme_def)

lemma scheme_append: "link_scheme p \<noteq> 0 \<Longrightarrow> link_scheme (p @ q) = link_scheme p \<and> link_scheme p \<le> length p"
  by (cases p rule: scheme_cases) (auto simp: link_scheme_def starts_with_def prefix_def U_def split: if_splits)

lemma link_at_mono: "link_at (p @ q) = None \<Longrightarrow> link_at p = None"
proof (rule ccontr)
  assume q: "link_at (p @ q) = None" and "link_at p \<noteq> None"
  then obtain url where "link_at p = Some url" by auto
  then have p: "link_scheme p \<noteq> 0" "takeWhile link_char (drop (link_scheme p) p) \<noteq> []"
    by (simp_all add: link_at_iff)
  then have "takeWhile link_char (drop (link_scheme (p @ q)) (p @ q)) \<noteq> []"
    using scheme_append [OF p(1), of q] by (cases "drop (link_scheme p) p") (auto split: if_splits)
  with p(1) q scheme_append [OF p(1), of q] show False by (simp add: link_at_def Let_def split: if_splits)
qed

lemma before_next_link: "next_link s = Some (before, url, after) \<Longrightarrow> next_link before = None"
proof (induction s arbitrary: before)
  case (Cons c s)
  show ?case
  proof (cases "link_at (c # s)")
    case None
    then obtain b where b: "before = c # b" "next_link s = Some (b, url, after)" using Cons.prems by auto
    then have "c # s = (c # b) @ url @ after" using next_link_split by fastforce
    with None have "link_at (c # b) = None" using link_at_mono by metis
    then show ?thesis using Cons.IH [OF b(2)] b(1) by simp
  next
    case (Some u)
    then show ?thesis using Cons.prems by auto
  qed
qed simp

lemma link_at_ok:
  assumes "link_at s = Some url" shows "link_text_ok url"
proof -
  let ?n = "link_scheme s" and ?run = "takeWhile link_char (drop (link_scheme s) s)"
  have url: "url = take ?n s @ ?run" "?run \<noteq> []" and n: "?n \<noteq> 0"
    using assms by (simp_all add: link_at_iff)
  have "?n \<le> length s" using scheme_append [OF n, of "[]"] by simp
  moreover have "link_scheme (take ?n s) = ?n"
    using n by (cases s rule: scheme_cases) (auto simp: link_scheme_def starts_with_def prefix_def U_def split: if_splits)
  moreover have "0 < length ?run" using url(2) by simp
  ultimately have "link_scheme url = ?n" "drop ?n url = ?run" "?n < length url"
    using scheme_append [of "take ?n s" ?run] n unfolding url(1) by (simp_all add: min_absorb2 del: takeWhile_eq_Nil_iff)
  then show ?thesis using n by (auto simp: link_text_ok_def list_all_iff dest: set_takeWhileD)
qed

lemma links_ok: "list_all part_ok (link_parts s)"
proof (induction s rule: link_parts.induct)
  case (1 s)
  show ?case
  proof (cases "next_link s")
    case None
    then show ?thesis by (simp add: link_parts.simps [of s])
  next
    case (Some x)
    then obtain before url after where x: "next_link s = Some (before, url, after)" by (cases x) auto
    then have "list_all part_ok (link_parts after)" using 1 [of "(before, url, after)" before "(url, after)"] by simp
    moreover have "link_text_ok url" using next_link_split [OF x] link_at_ok by blast
    moreover have "link_parts s = (if before = [] then [] else [Plain before]) @ Link url # link_parts after"
      using x by (simp add: link_parts.simps [of s])
    ultimately show ?thesis using before_next_link [OF x] by simp
  qed
qed

lemma links_maximal:
  "link_parts s = ps @ Link url # qs \<Longrightarrow> concat (map part_text qs) = [] \<or> \<not> link_char (hd (concat (map part_text qs)))"
proof (induction s arbitrary: ps rule: link_parts.induct)
  case (1 s)
  show ?case
  proof (cases "next_link s")
    case None
    then show ?thesis using 1(2) unfolding link_parts.simps [of s]
      by (auto simp: Cons_eq_append_conv split: if_splits)
  next
    case (Some x)
    then obtain before u after where x: "next_link s = Some (before, u, after)" by (cases x) auto
    note parts = link_parts.simps [of s, unfolded x, simplified]
    show ?thesis
    proof (cases "qs = link_parts after")
      case True
      have "link_at (u @ after) = Some u" using next_link_split [OF x] by blast
      then have "after = dropWhile link_char (drop (link_scheme (u @ after)) (u @ after))"
        using link_at_split(3) [of "u @ after" u] by simp
      then have "after = [] \<or> \<not> link_char (hd after)" using hd_dropWhile by metis
      then show ?thesis using True by (simp add: links_join)
    next
      case False
      then obtain ps' where "link_parts after = ps' @ Link url # qs"
        using 1(2) parts by (auto simp: append_eq_append_conv2 Cons_eq_append_conv split: if_splits)
      then show ?thesis using 1(1) [of "(before, u, after)" before "(u, after)"] x by simp
    qed
  qed
qed

section \<open>avatar.ts\<close>

definition resolveAvatarSrc :: "ustr \<Rightarrow> ustr option \<Rightarrow> ustr option" where
  \<comment> \<open>the first argument is \<open>APP_CONFIG.backendHostUrl\<close>\<close>
  "resolveAvatarSrc host avatar =
     (let t = trim (opt_str avatar) in
      if t = [] then None
      else if starts_with t (U ''data:image/'') \<or> starts_with t (U ''blob:'') then Some t
      else if starts_with t (U ''/uploads/'') then Some (host @ t)
      else if starts_with t (U ''uploads/'')
      then Some ((if ends_with host (U ''/'') then butlast host else host) @ U ''/'' @ t)
      else if starts_with t (U ''http://'') \<or> starts_with t (U ''https://'') then Some t
      else None)"

definition getAvatarInitial :: "ustr option \<Rightarrow> ustr" where
  "getAvatarInitial n = (let t = trim (opt_str n) in if t \<noteq> [] then upper (take 1 t) else U ''?'')"

section \<open>The draft and what is being sent\<close>

record chosen_file =
  chosen_type :: ustr
  chosen_id :: nat

datatype window_send =
    SendText ustr
  | SendImage chosen_file "ustr option" ustr   \<comment> \<open>caption, and the preview of the closure\<close>

record chat_window =
  cw_input :: ustr
  cw_file :: "chosen_file option"
  cw_preview :: ustr
  cw_isSending :: bool
  cw_greeted :: bool           \<comment> \<open>\<open>initialMessageAppliedRef\<close>\<close>
  cw_seenLoading :: bool       \<comment> \<open>\<open>hasSeenLoadingRef\<close>\<close>
  cw_presence :: chat_presence
  cw_sends :: "window_send list"
  cw_objectUrls :: "ustr list"   \<comment> \<open>object addresses not revoked\<close>

definition offline :: chat_presence where
  "offline = \<lparr> isOnline = False, lastSeenAtUtc = None, statusText = None \<rparr>"

definition new_window :: chat_window where
  "new_window = \<lparr> cw_input = [], cw_file = None, cw_preview = [], cw_isSending = False, cw_greeted = False,
     cw_seenLoading = False, cw_presence = offline, cw_sends = [], cw_objectUrls = [] \<rparr>"

definition revoke :: "ustr \<Rightarrow> chat_window \<Rightarrow> chat_window" where
  \<comment> \<open>\<open>if (url.startsWith("blob:")) URL.revokeObjectURL(url)\<close>\<close>
  "revoke url w =
     (if starts_with url (U ''blob:'') then w\<lparr> cw_objectUrls := removeAll url (cw_objectUrls w) \<rparr> else w)"

definition greeting_effect :: "ustr option \<Rightarrow> bool \<Rightarrow> nat \<Rightarrow> chat_window \<Rightarrow> chat_window" where
  "greeting_effect initialMessage isLoading messages w =
     (if isLoading then w\<lparr> cw_seenLoading := True \<rparr>
      else if opt_str initialMessage \<noteq> [] \<and> cw_seenLoading w \<and> messages = 0 \<and> \<not> cw_greeted w
      then w\<lparr> cw_greeted := True, cw_input := opt_str initialMessage \<rparr> else w)"

definition clearSelectedImage :: "ustr \<Rightarrow> chat_window \<Rightarrow> chat_window" where
  \<comment> \<open>with the preview of the closure it runs in\<close>
  "clearSelectedImage preview w = (revoke preview w)\<lparr> cw_file := None, cw_preview := [] \<rparr>"

definition handleImageSelected :: "chosen_file option \<Rightarrow> ustr \<Rightarrow> chat_window \<Rightarrow> chat_window" where
  \<comment> \<open>the second argument is the address the browser creates\<close>
  "handleImageSelected file url w =
     (case file of
        None \<Rightarrow> w
      | Some f \<Rightarrow>
          if \<not> starts_with (chosen_type f) (U ''image/'') then w
          else (let v = revoke (cw_preview w) w in
                v\<lparr> cw_file := Some f, cw_preview := url, cw_objectUrls := url # cw_objectUrls v \<rparr>))"

definition handleSend :: "chat_window \<Rightarrow> chat_window" where
  "handleSend w =
     (let trimmedInput = trim (cw_input w) in
      if trimmedInput = [] \<and> cw_file w = None then w
      else w\<lparr> cw_isSending := True,
              cw_sends := cw_sends w @
                [case cw_file w of
                   None \<Rightarrow> SendText trimmedInput
                 | Some f \<Rightarrow> SendImage f (undef_if_empty trimmedInput) (cw_preview w)] \<rparr>)"

definition send_done :: "window_send \<Rightarrow> bool \<Rightarrow> chat_window \<Rightarrow> chat_window" where
  \<comment> \<open>the rest of \<open>handleSend\<close>, once it is known whether the message was sent\<close>
  "send_done r sent w =
     (let v = w\<lparr> cw_sends := remove1 r (cw_sends w) \<rparr>;
          v' = (if sent
                then (case r of
                        SendText _ \<Rightarrow> v\<lparr> cw_input := [] \<rparr>
                      | SendImage _ _ preview \<Rightarrow> clearSelectedImage preview (v\<lparr> cw_input := [] \<rparr>))
                else v)
      in v'\<lparr> cw_isSending := False \<rparr>)"

definition handleSendClick :: "chat_window \<Rightarrow> chat_window" where
  "handleSendClick w = handleSend w"

definition canSend :: "chat_window \<Rightarrow> bool" where
  "canSend w \<longleftrightarrow> (length (trim (cw_input w)) > 0 \<or> cw_file w \<noteq> None) \<and> \<not> cw_isSending w"

definition presence_settled :: "thrown + chat_presence \<Rightarrow> chat_window \<Rightarrow> chat_window" where
  "presence_settled result w =
     w\<lparr> cw_presence := (case result of Inr p \<Rightarrow> p | Inl _ \<Rightarrow> offline) \<rparr>"

definition presenceLabel :: "(ustr \<Rightarrow> ustr) \<Rightarrow> ustr \<Rightarrow> ustr \<Rightarrow> ustr \<Rightarrow> chat_window \<Rightarrow> ustr" where
  \<comment> \<open>the formatter of times, the three labels\<close>
  "presenceLabel formatCompactTime online lastSeen offlineLabel w =
     (if isOnline (cw_presence w) then online
      else (let t = opt_str (lastSeenAtUtc (cw_presence w)) in
            if t \<noteq> [] then lastSeen @ [32] @ formatCompactTime t else offlineLabel))"

section \<open>Steps\<close>

datatype window_event =
    Typed ustr
  | ImageSelected "chosen_file option" ustr
  | EnterPressed
  | SendClicked
  | ImageRemoved
  | SendDone window_send bool
  | HistoryRendered "ustr option" bool nat
  | PresenceSettled "thrown + chat_presence"

definition preview_effect :: "ustr \<Rightarrow> chat_window \<Rightarrow> chat_window" where
  \<comment> \<open>the cleanup of the effect on the preview\<close>
  "preview_effect previous w = (if cw_preview w = previous then w else revoke previous w)"

definition window_handler :: "window_event \<Rightarrow> chat_window \<Rightarrow> chat_window" where
  "window_handler e w =
     (case e of
        Typed s \<Rightarrow> w\<lparr> cw_input := s \<rparr>
      | ImageSelected file url \<Rightarrow> handleImageSelected file url w
      | EnterPressed \<Rightarrow> handleSend w
      | SendClicked \<Rightarrow> handleSendClick w
      | ImageRemoved \<Rightarrow> clearSelectedImage (cw_preview w) w
      | SendDone r sent \<Rightarrow> send_done r sent w
      | HistoryRendered initial loading n \<Rightarrow> greeting_effect initial loading n w
      | PresenceSettled result \<Rightarrow> presence_settled result w)"

fun possible :: "window_event \<Rightarrow> chat_window \<Rightarrow> bool" where
  \<comment> \<open>the button works only while enabled, a request settles while under way, and the browser hands
      out new object addresses\<close>
  "possible SendClicked w \<longleftrightarrow> canSend w"
| "possible (SendDone r _) w \<longleftrightarrow> r \<in> set (cw_sends w)"
| "possible (ImageSelected _ url) w \<longleftrightarrow> starts_with url (U ''blob:'') \<and> url \<notin> set (cw_objectUrls w)"
| "possible ImageRemoved w \<longleftrightarrow> cw_preview w \<noteq> []"
| "possible _ w \<longleftrightarrow> True"

inductive window_step :: "chat_window \<Rightarrow> window_event \<Rightarrow> chat_window \<Rightarrow> bool" where
  handled: "possible e w \<Longrightarrow> window_step w e (preview_effect (cw_preview w) (window_handler e w))"

inductive window_run :: "window_event list \<Rightarrow> chat_window \<Rightarrow> bool" where
  opened: "window_run [] new_window"
| stepped: "window_run es w \<Longrightarrow> window_step w e w' \<Longrightarrow> window_run (es @ [e]) w'"

inductive_cases window_stepE: "window_step w e w'"

section \<open>Properties\<close>

text \<open>
   Splitting a message at its links terminates and loses nothing: the parts joined are the
  text, every link is an http or https address without blanks, angle brackets or quotes, what is left
  as text holds no further link, and a link ends only where the text ends or such a character follows,
  so punctuation written after an address is always part of the link.
\<close>

theorem links_partition_text:
  "concat (map part_text (renderTextWithLinks s)) = s
   \<and> (s \<noteq> [] \<longrightarrow> list_all part_ok (renderTextWithLinks s))
   \<and> (renderTextWithLinks s = ps @ Link url # qs
       \<longrightarrow> concat (map part_text qs) = [] \<or> \<not> link_char (hd (concat (map part_text qs))))"
proof (cases "link_parts s = []")
  case True
  then have "s = []" using links_join [of s] by simp
  then show ?thesis using True by (auto simp: renderTextWithLinks_def Cons_eq_append_conv)
next
  case False
  then show ?thesis
    using links_join [of s] links_ok [of s] links_maximal [of s ps url qs] by (simp add: renderTextWithLinks_def)
qed

theorem links_partition_text_witness:
  "renderTextWithLinks (U ''see https://a.jo.'') = [Plain (U ''see ''), Link (U ''https://a.jo.'')]
   \<and> concat (map part_text (renderTextWithLinks (U ''see https://a.jo.''))) = U ''see https://a.jo.''"
proof -
  have "next_link (U ''see https://a.jo.'') = Some (U ''see '', U ''https://a.jo.'', [])" by code_simp
  then have "link_parts (U ''see https://a.jo.'') = [Plain (U ''see ''), Link (U ''https://a.jo.'')]"
    by (subst link_parts.simps) (simp add: link_parts.simps [of "[]"])
  then show ?thesis
    using links_partition_text [of "U ''see https://a.jo.''"] by (simp add: renderTextWithLinks_def)
qed

definition previews_ok :: "chat_window \<Rightarrow> bool" where
  "previews_ok w \<longleftrightarrow>
     cw_objectUrls w = (if cw_preview w = [] then [] else [cw_preview w])
     \<and> (cw_preview w \<noteq> [] \<longleftrightarrow> cw_file w \<noteq> None)
     \<and> (cw_preview w \<noteq> [] \<longrightarrow> starts_with (cw_preview w) (U ''blob:''))"

lemma blob_not_empty [simp]: "\<not> starts_with [] (U ''blob:'')"
  by (simp add: starts_with_def U_def)

lemma previews_step:
  assumes "previews_ok w" and "possible e w"
  shows "previews_ok (preview_effect (cw_preview w) (window_handler e w))"
proof (cases e)
  case (ImageSelected f url)
  then show ?thesis
    using assms by (auto simp: previews_ok_def window_handler_def handleImageSelected_def preview_effect_def revoke_def
        Let_def split: option.splits)
next
  case (SendDone r sent)
  then show ?thesis
    using assms by (cases r) (auto simp: previews_ok_def window_handler_def send_done_def clearSelectedImage_def
        preview_effect_def revoke_def Let_def)
qed (use assms in \<open>auto simp: previews_ok_def window_handler_def handleSend_def handleSendClick_def clearSelectedImage_def
        greeting_effect_def presence_settled_def preview_effect_def revoke_def Let_def\<close>)

text \<open>
   The window leaks no picture: whatever is typed, chosen, removed and sent, and in whatever
  order the requests settle, the only object address alive is the one of the picture shown, there is one
  exactly while a picture is chosen, and choosing, removing or sending releases it.
\<close>

theorem chat_window_previews:
  assumes "window_run es w"
  shows "cw_objectUrls w = (if cw_file w = None then [] else [cw_preview w]) \<and> (cw_preview w \<noteq> []) = (cw_file w \<noteq> None)"
proof -
  have "previews_ok w"
    using assms
  proof induction
    case opened
    then show ?case by (simp add: previews_ok_def new_window_def)
  next
    case (stepped es w e w')
    then show ?case by (auto elim!: window_stepE intro: previews_step)
  qed
  then show ?thesis by (auto simp: previews_ok_def)
qed

lemma run_handled:
  "window_run es w \<Longrightarrow> possible e w \<Longrightarrow> w' = preview_effect (cw_preview w) (window_handler e w) \<Longrightarrow> window_run (es @ [e]) w'"
  by (blast intro: stepped handled)

theorem chat_window_previews_witness:
  "\<exists>w. window_run [ImageSelected (Some \<lparr> chosen_type = U ''image/png'', chosen_id = 1 \<rparr>) (U ''blob:1'')] w
     \<and> cw_objectUrls w = [U ''blob:1''] \<and> cw_preview w \<noteq> []"
proof -
  let ?e = "ImageSelected (Some \<lparr> chosen_type = U ''image/png'', chosen_id = 1 \<rparr>) (U ''blob:1'')"
  let ?w = "preview_effect (cw_preview new_window) (window_handler ?e new_window)"
  have run: "window_run [?e] ?w"
    using run_handled [OF opened, of ?e ?w] by (simp add: new_window_def starts_with_def U_def)
  have w: "cw_file ?w \<noteq> None" "cw_preview ?w = U ''blob:1''"
    by (simp_all add: preview_effect_def window_handler_def handleImageSelected_def new_window_def revoke_def
        starts_with_def U_def Let_def)
  show ?thesis using chat_window_previews [OF run] run w by auto
qed

text \<open>
   While a message is being sent only the button is blocked.  Pressing Enter again sends the
  same text a second time, and what is typed before the answer arrives is thrown away with it.
\<close>

theorem enter_sends_again:
  assumes "window_run es w" and "trim (cw_input w) \<noteq> []" and "cw_file w = None"
  shows "(\<exists>w'. window_run (es @ [EnterPressed] @ [EnterPressed]) w' \<and> \<not> canSend w'
            \<and> cw_sends w' = cw_sends w @ [SendText (trim (cw_input w))] @ [SendText (trim (cw_input w))])
       \<and> (\<exists>w'. window_run (es @ [EnterPressed] @ [Typed s] @ [SendDone (SendText (trim (cw_input w))) True]) w'
            \<and> cw_input w' = [])"
proof -
  define v where "v = handleSend w"
  have v: "cw_input v = cw_input w" "cw_file v = None" "cw_preview v = cw_preview w" "cw_isSending v"
    "cw_sends v = cw_sends w @ [SendText (trim (cw_input w))]"
    using assms by (simp_all add: v_def handleSend_def Let_def)
  have 1: "window_run (es @ [EnterPressed]) v"
    by (rule run_handled [OF assms(1)]) (simp_all add: window_handler_def preview_effect_def v(3) flip: v_def)
  have 2: "window_run ((es @ [EnterPressed]) @ [EnterPressed]) (handleSend v)"
    by (rule run_handled [OF 1]) (use v assms in \<open>simp_all add: window_handler_def preview_effect_def handleSend_def Let_def\<close>)
  have 3: "window_run ((es @ [EnterPressed]) @ [Typed s]) (v\<lparr> cw_input := s \<rparr>)"
    by (rule run_handled [OF 1]) (simp_all add: window_handler_def preview_effect_def)
  let ?r = "SendText (trim (cw_input w))"
  have 4: "window_run (((es @ [EnterPressed]) @ [Typed s]) @ [SendDone ?r True]) (send_done ?r True (v\<lparr> cw_input := s \<rparr>))"
    by (rule run_handled [OF 3]) (simp_all add: v window_handler_def preview_effect_def send_done_def Let_def)
  have "\<not> canSend (handleSend v)" "cw_sends (handleSend v) = cw_sends w @ [?r] @ [?r]"
    using v assms by (simp_all add: handleSend_def Let_def canSend_def)
  moreover have "cw_input (send_done ?r True (v\<lparr> cw_input := s \<rparr>)) = []" by (simp add: send_done_def Let_def)
  ultimately show ?thesis using 2 4 by (metis append.assoc)
qed

theorem enter_sends_again_witness:
  "\<exists>w'. window_run [Typed (U ''hi''), EnterPressed, EnterPressed] w' \<and> \<not> canSend w'
     \<and> cw_sends w' = [SendText (U ''hi''), SendText (U ''hi'')]"
proof -
  let ?w = "new_window\<lparr> cw_input := U ''hi'' \<rparr>"
  have run: "window_run [Typed (U ''hi'')] ?w"
    using run_handled [OF opened, of "Typed (U ''hi'')" ?w] by (simp add: window_handler_def preview_effect_def)
  have t: "trim (U ''hi'') = U ''hi''" by code_simp
  then have "trim (cw_input ?w) \<noteq> []" "cw_file ?w = None" by (simp_all add: new_window_def U_def)
  from enter_sends_again [OF run this, THEN conjunct1] t show ?thesis by (simp add: new_window_def)
qed

end
