(* ===== verification/ChatService.thy ===== *)
theory ChatService
  imports ChatMessages
begin

text \<open>
  The realtime connection of the chat (\<open>services/chatService.ts\<close>) as a state machine.  Requests to
  connect and to disconnect take effect on \<open>requestedUserId\<close> at once and queue a transition; the
  transitions run one at a time, each cut at its awaits.  The SignalR hub, a third-party client, is
  the environment: its connections report their state, close, and let \<open>start\<close> and \<open>stop\<close> succeed or
  fail, at any time.  Connections are numbered in the order they are built, \<open>cs_opened\<close> is the user
  each was built for, which its handlers have in their closure.
\<close>

section \<open>State\<close>

datatype hub_state = Disconnected | Connecting | Connected | Reconnecting | Disconnecting

datatype transition =
    ConnectTo int bool   \<comment> \<open>the user, and whether a reconnect timer awaits the outcome\<close>
  | DisconnectAll

datatype running =
    StoppingFor int nat bool   \<comment> \<open>\<open>await previousConnection.stop()\<close> of \<open>connectInternal\<close>\<close>
  | Starting int nat bool      \<comment> \<open>\<open>await connection.start()\<close>\<close>
  | StoppingOff nat            \<comment> \<open>\<open>await previousConnection.stop()\<close> of \<open>disconnectInternal\<close>\<close>
  | Rejected bool              \<comment> \<open>the transition threw, its handlers have not run yet\<close>

record chat_service =
  cs_connection :: "nat option"
  cs_currentUserId :: "int option"
  cs_requestedUserId :: "int option"
  cs_lastKnownUserId :: "int option"
  cs_intentionalDisconnect :: bool
  cs_reconnectAttempt :: nat
  cs_reconnectTimer :: "nat option"
  cs_timers :: "(nat \<times> int \<times> int) list"   \<comment> \<open>timers that have not fired: handle, user, delay\<close>
  cs_nextTimer :: nat
  cs_transitions :: "transition list"
  cs_running :: "running option"
  cs_opened :: "int list"
  cs_hub :: "nat \<Rightarrow> hub_state"
  cs_handlers :: "nat list"                  \<comment> \<open>connections whose realtime handlers are attached\<close>
  cs_live :: "nat list"                      \<comment> \<open>connections neither told to stop, nor closed, nor failed to start\<close>
  cs_messageCallbacks :: "nat list"
  cs_readReceiptCallbacks :: "nat list"
  cs_notificationCallbacks :: "nat list"
  cs_disconnectCallbacks :: "nat list"

definition newChatService :: chat_service where
  "newChatService = \<lparr> cs_connection = None, cs_currentUserId = None, cs_requestedUserId = None,
     cs_lastKnownUserId = None, cs_intentionalDisconnect = False, cs_reconnectAttempt = 0,
     cs_reconnectTimer = None, cs_timers = [], cs_nextTimer = 0, cs_transitions = [], cs_running = None,
     cs_opened = [], cs_hub = (\<lambda>_. Disconnected), cs_handlers = [], cs_live = [],
     cs_messageCallbacks = [], cs_readReceiptCallbacks = [], cs_notificationCallbacks = [],
     cs_disconnectCallbacks = [] \<rparr>"

section \<open>Payloads of the hub\<close>

fun is_object :: "jval \<Rightarrow> bool" where
  \<comment> \<open>\<open>v && typeof v === "object"\<close>\<close>
  "is_object (Arr _) = True"
| "is_object (Obj _) = True"
| "is_object _ = False"

fun is_number :: "jval \<Rightarrow> bool" where
  "is_number (Num _) = True"
| "is_number _ = False"

definition arg :: "jval list \<Rightarrow> nat \<Rightarrow> jval" where
  "arg args i = (if i < length args then args ! i else Undef)"

definition mapRealtimePayload :: "int option \<Rightarrow> jval list \<Rightarrow> jval" where
  \<comment> \<open>\<open>Null\<close> where the code returns null\<close>
  "mapRealtimePayload currentUser args =
     (if length args = 0 then Null
      else if length args = 1 \<and> is_object (hd args) then hd args
      else if is_number (arg args 1) \<and> is_str (arg args 2)
      then Obj [(U ''senderId'', arg args 0), (U ''receiverId'', opt_num currentUser), (U ''isRead'', Bool False),
             (U ''conversationId'', arg args 1), (U ''content'', arg args 2), (U ''postId'', arg args 3),
             (U ''timestamp'', arg args 4)]
      else Obj [(U ''senderId'', arg args 0), (U ''receiverId'', opt_num currentUser), (U ''isRead'', Bool False),
             (U ''content'', arg args 1), (U ''postId'', arg args 2), (U ''timestamp'', arg args 3)])"

record app_notification =
  notificationId :: int
  notificationType :: ustr
  notification_title :: ustr
  notification_body :: ustr
  senderUserId :: "int option"
  notification_conversationId :: "int option"
  notification_messageId :: "int option"
  routeUrl :: "ustr option"
  notification_isRead :: bool
  notification_createdAt :: ustr
  readAt :: "ustr option"

definition payload_of :: "jval list \<Rightarrow> jval option" where
  "payload_of args = (if length args = 1 \<and> is_object (hd args) then Some (hd args) else None)"

definition read_text :: "jval \<Rightarrow> string \<Rightarrow> string \<Rightarrow> ustr" where
  \<comment> \<open>\<open>String(p.A ?? p.a ?? "").trim()\<close>\<close>
  "read_text p a b = trim (to_str (coalesce [fld p a, fld p b, Str []]))"

definition mapNotificationPayload :: "jsenv \<Rightarrow> jval list \<Rightarrow> app_notification option" where
  "mapNotificationPayload env args =
     (case payload_of args of
        None \<Rightarrow> None
      | Some p \<Rightarrow>
          (let ntype = read_text p ''NotificationType'' ''notificationType'';
               title = read_text p ''Title'' ''title'';
               body = read_text p ''Body'' ''body'';
               readAtValue = flds p [''ReadAt'', ''readAt'']
           in case (toPositiveIntegerId (flds p [''NotificationId'', ''notificationId'']),
                    parse_date env (to_str (coalesce [fld p ''CreatedAt'', fld p ''createdAt'', Str []]))) of
                (Some n, Some createdAt) \<Rightarrow>
                  if ntype = [] \<or> title = [] \<or> body = [] then None
                  else Some \<lparr> notificationId = n, notificationType = ntype, notification_title = title,
                     notification_body = body,
                     senderUserId = toPositiveIntegerId (flds p [''SenderUserId'', ''senderUserId'']),
                     notification_conversationId = toPositiveIntegerId (flds p [''ConversationId'', ''conversationId'']),
                     notification_messageId = toPositiveIntegerId (flds p [''MessageId'', ''messageId'']),
                     routeUrl = (case flds p [''RouteUrl'', ''routeUrl''] of Str s \<Rightarrow> Some s | _ \<Rightarrow> None),
                     notification_isRead = truthy (coalesce [fld p ''IsRead'', fld p ''isRead'', Bool False]),
                     notification_createdAt = iso_string env createdAt,
                     readAt = (if is_nullish readAtValue \<or> trim (to_str readAtValue) = [] then None
                               else map_option (iso_string env) (parse_date env (to_str readAtValue))) \<rparr>
              | _ \<Rightarrow> None))"

definition mapReadReceiptPayload :: "jval list \<Rightarrow> chat_read_receipt option" where
  "mapReadReceiptPayload args =
     (case payload_of args of
        None \<Rightarrow> None
      | Some p \<Rightarrow>
          (case (toPositiveIntegerId (flds p [''ConversationId'', ''conversationId'']),
                 toPositiveIntegerId (flds p [''ReaderUserId'', ''readerUserId'']),
                 toPositiveIntegerId (flds p [''LastReadMessageId'', ''lastReadMessageId''])) of
             (Some c, Some r, Some l) \<Rightarrow>
               Some \<lparr> receipt_conversationId = c, readerUserId = r, lastReadMessageId = l \<rparr>
           | _ \<Rightarrow> None))"

section \<open>Listeners\<close>

definition off_callback :: "nat \<Rightarrow> nat list \<Rightarrow> nat list" where
  \<comment> \<open>what the function returned by a registration does\<close>
  "off_callback cb cbs = filter (\<lambda>c. c \<noteq> cb) cbs"

definition onMessageReceived :: "nat \<Rightarrow> chat_service \<Rightarrow> chat_service" where
  "onMessageReceived cb s = s\<lparr> cs_messageCallbacks := cs_messageCallbacks s @ [cb] \<rparr>"

definition onMessagesRead :: "nat \<Rightarrow> chat_service \<Rightarrow> chat_service" where
  "onMessagesRead cb s = s\<lparr> cs_readReceiptCallbacks := cs_readReceiptCallbacks s @ [cb] \<rparr>"

definition onNotificationReceived :: "nat \<Rightarrow> chat_service \<Rightarrow> chat_service" where
  "onNotificationReceived cb s = s\<lparr> cs_notificationCallbacks := cs_notificationCallbacks s @ [cb] \<rparr>"

definition onDisconnect :: "nat \<Rightarrow> chat_service \<Rightarrow> chat_service" where
  "onDisconnect cb s = s\<lparr> cs_disconnectCallbacks := cs_disconnectCallbacks s @ [cb] \<rparr>"

definition offMessageReceived :: "nat \<Rightarrow> chat_service \<Rightarrow> chat_service" where
  "offMessageReceived cb s = s\<lparr> cs_messageCallbacks := off_callback cb (cs_messageCallbacks s) \<rparr>"

definition offMessagesRead :: "nat \<Rightarrow> chat_service \<Rightarrow> chat_service" where
  "offMessagesRead cb s = s\<lparr> cs_readReceiptCallbacks := off_callback cb (cs_readReceiptCallbacks s) \<rparr>"

definition offNotificationReceived :: "nat \<Rightarrow> chat_service \<Rightarrow> chat_service" where
  "offNotificationReceived cb s = s\<lparr> cs_notificationCallbacks := off_callback cb (cs_notificationCallbacks s) \<rparr>"

definition offDisconnect :: "nat \<Rightarrow> chat_service \<Rightarrow> chat_service" where
  "offDisconnect cb s = s\<lparr> cs_disconnectCallbacks := off_callback cb (cs_disconnectCallbacks s) \<rparr>"

definition notify :: "nat list \<Rightarrow> 'a \<Rightarrow> (nat \<times> 'a) list" where
  \<comment> \<open>the calls \<open>callbacks.forEach((cb) => cb(x))\<close> makes, in order\<close>
  "notify cbs x = map (\<lambda>cb. (cb, x)) cbs"

section \<open>Handlers of a connection\<close>

definition owner :: "chat_service \<Rightarrow> nat \<Rightarrow> int" where
  "owner s c = cs_opened s ! c"

definition isActiveConnection :: "chat_service \<Rightarrow> nat \<Rightarrow> int \<Rightarrow> bool" where
  "isActiveConnection s c u \<longleftrightarrow>
     cs_connection s = Some c \<and> cs_currentUserId s = Some u \<and> cs_requestedUserId s = Some u"

definition detachRealtimeHandlers :: "nat \<Rightarrow> chat_service \<Rightarrow> chat_service" where
  "detachRealtimeHandlers c s = s\<lparr> cs_handlers := filter (\<lambda>d. d \<noteq> c) (cs_handlers s) \<rparr>"

definition hears :: "chat_service \<Rightarrow> nat \<Rightarrow> bool" where
  "hears s c \<longleftrightarrow> c \<in> set (cs_handlers s) \<and> isActiveConnection s c (owner s c)"

definition receiveMessage :: "jsenv \<Rightarrow> chat_service \<Rightarrow> nat \<Rightarrow> jval list \<Rightarrow> (nat \<times> message) list" where
  \<comment> \<open>the handlers of \<open>ReceiveMessage\<close> and of \<open>MessageSent\<close>\<close>
  "receiveMessage env s c args =
     (if \<not> hears s c then []
      else (case normalizeChatMessage env (mapRealtimePayload (cs_currentUserId s) args) of
              Some m \<Rightarrow> notify (cs_messageCallbacks s) m | None \<Rightarrow> []))"

definition receiveNotification ::
    "jsenv \<Rightarrow> chat_service \<Rightarrow> nat \<Rightarrow> jval list \<Rightarrow> (nat \<times> app_notification) list" where
  "receiveNotification env s c args =
     (if \<not> hears s c then []
      else (case mapNotificationPayload env args of
              Some n \<Rightarrow> notify (cs_notificationCallbacks s) n | None \<Rightarrow> []))"

definition messagesRead :: "chat_service \<Rightarrow> nat \<Rightarrow> jval list \<Rightarrow> (nat \<times> chat_read_receipt) list" where
  "messagesRead s c args =
     (if \<not> hears s c then []
      else (case mapReadReceiptPayload args of
              Some r \<Rightarrow> notify (cs_readReceiptCallbacks s) r | None \<Rightarrow> []))"

section \<open>Reconnecting\<close>

definition clearTimer :: "nat \<Rightarrow> chat_service \<Rightarrow> chat_service" where
  \<comment> \<open>\<open>clearTimeout\<close>\<close>
  "clearTimer i s = s\<lparr> cs_timers := filter (\<lambda>t. fst t \<noteq> i) (cs_timers s) \<rparr>"

definition clearReconnect :: "chat_service \<Rightarrow> chat_service" where
  "clearReconnect s =
     (case cs_reconnectTimer s of
        None \<Rightarrow> s
      | Some i \<Rightarrow> (clearTimer i s)\<lparr> cs_reconnectTimer := None \<rparr>)"

definition reconnect_delay :: "nat \<Rightarrow> int" where
  "reconnect_delay attempt = min (1000 * 2 ^ attempt) 30000"

definition scheduleReconnect :: "chat_service \<Rightarrow> chat_service" where
  "scheduleReconnect s0 =
     (let s = (case cs_reconnectTimer s0 of None \<Rightarrow> s0 | Some i \<Rightarrow> clearTimer i s0)
      in if cs_intentionalDisconnect s then s
         else if cs_reconnectAttempt s \<ge> 5 then s
         else (case cs_lastKnownUserId s of
                 None \<Rightarrow> s
               | Some u \<Rightarrow>
                   if cs_requestedUserId s \<noteq> Some u then s
                   else s\<lparr> cs_reconnectAttempt := cs_reconnectAttempt s + 1,
                          cs_timers := cs_timers s @ [(cs_nextTimer s, u, reconnect_delay (cs_reconnectAttempt s))],
                          cs_reconnectTimer := Some (cs_nextTimer s),
                          cs_nextTimer := cs_nextTimer s + 1 \<rparr>))"

section \<open>Requests\<close>

definition request_connection :: "bool \<Rightarrow> int \<Rightarrow> chat_service \<Rightarrow> chat_service" where
  \<comment> \<open>\<open>connect\<close> with a valid identifier\<close>
  "request_connection awaited u s =
     (let s' = (if cs_requestedUserId s \<noteq> Some u then clearReconnect s else s)
      in s'\<lparr> cs_requestedUserId := Some u, cs_transitions := cs_transitions s' @ [ConnectTo u awaited] \<rparr>)"

definition connect :: "jval \<Rightarrow> chat_service \<Rightarrow> (ustr + unit) \<times> chat_service" where
  \<comment> \<open>\<open>Inl\<close> where the promise is rejected at once\<close>
  "connect currentUserId s =
     (case toPositiveIntegerId currentUserId of
        None \<Rightarrow> (Inl (U ''Invalid current user ID''), s)
      | Some u \<Rightarrow> (Inr (), request_connection False u s))"

definition disconnect :: "chat_service \<Rightarrow> chat_service" where
  "disconnect s =
     (let s' = clearReconnect (s\<lparr> cs_requestedUserId := None, cs_intentionalDisconnect := True \<rparr>)
      in s'\<lparr> cs_transitions := cs_transitions s' @ [DisconnectAll] \<rparr>)"

definition timer_fired :: "nat \<Rightarrow> int \<Rightarrow> chat_service \<Rightarrow> chat_service" where
  \<comment> \<open>the callback of a reconnect timer up to the await of \<open>connect\<close>\<close>
  "timer_fired i u s0 =
     (let s = clearTimer i s0
      in if cs_intentionalDisconnect s \<or> cs_requestedUserId s \<noteq> Some u then s
         else (case toPositiveIntegerId (opt_num (Some u)) of
                 None \<Rightarrow> scheduleReconnect s
               | Some v \<Rightarrow> request_connection True v s))"

section \<open>Transitions\<close>

definition let_go :: "nat \<Rightarrow> chat_service \<Rightarrow> chat_service" where
  \<comment> \<open>the connection is detached, forgotten and told to stop\<close>
  "let_go c s =
     (detachRealtimeHandlers c s)\<lparr> cs_connection := None, cs_currentUserId := None,
        cs_lastKnownUserId := None, cs_live := filter (\<lambda>d. d \<noteq> c) (cs_live s) \<rparr>"

definition connect_open :: "int \<Rightarrow> bool \<Rightarrow> chat_service \<Rightarrow> chat_service" where
  \<comment> \<open>\<open>connectInternal\<close> from its second check to the await of \<open>start\<close>\<close>
  "connect_open u awaited s =
     (if cs_requestedUserId s \<noteq> Some u then s\<lparr> cs_running := None \<rparr>
      else (let c = length (cs_opened s)
            in s\<lparr> cs_currentUserId := Some u, cs_lastKnownUserId := Some u, cs_intentionalDisconnect := False,
                 cs_opened := cs_opened s @ [u], cs_handlers := cs_handlers s @ [c], cs_live := cs_live s @ [c],
                 cs_connection := Some c, cs_running := Some (Starting u c awaited) \<rparr>))"

definition isActiveState :: "hub_state \<Rightarrow> bool" where
  "isActiveState h \<longleftrightarrow> h = Connected \<or> h = Connecting \<or> h = Reconnecting"

definition connectInternal :: "int \<Rightarrow> bool \<Rightarrow> chat_service \<Rightarrow> chat_service" where
  "connectInternal u awaited s =
     (if cs_requestedUserId s \<noteq> Some u then s\<lparr> cs_running := None \<rparr>
      else (case cs_connection s of
              Some c \<Rightarrow>
                if isActiveState (cs_hub s c) \<and> cs_currentUserId s = Some u then s\<lparr> cs_running := None \<rparr>
                else (let_go c (clearReconnect (s\<lparr> cs_intentionalDisconnect := True \<rparr>)))
                       \<lparr> cs_running := Some (StoppingFor u c awaited) \<rparr>
            | None \<Rightarrow> connect_open u awaited s))"

definition disconnected :: "chat_service \<Rightarrow> chat_service" where
  "disconnected s = s\<lparr> cs_currentUserId := None, cs_lastKnownUserId := None, cs_running := None \<rparr>"

definition disconnectInternal :: "chat_service \<Rightarrow> chat_service" where
  "disconnectInternal s0 =
     (let s = clearReconnect (s0\<lparr> cs_intentionalDisconnect := True \<rparr>)
      in case cs_connection s of
           Some c \<Rightarrow> (let_go c s)\<lparr> cs_running := Some (StoppingOff c) \<rparr>
         | None \<Rightarrow> disconnected s)"

definition run_transition :: "chat_service \<Rightarrow> chat_service" where
  \<comment> \<open>the next step of the chain \<open>connectionTransition\<close>\<close>
  "run_transition s =
     (case cs_transitions s of
        [] \<Rightarrow> s
      | ConnectTo u awaited # ts \<Rightarrow> connectInternal u awaited (s\<lparr> cs_transitions := ts \<rparr>)
      | DisconnectAll # ts \<Rightarrow> disconnectInternal (s\<lparr> cs_transitions := ts \<rparr>))"

definition stop_settled :: "bool \<Rightarrow> chat_service \<Rightarrow> chat_service" where
  "stop_settled ok s =
     (case cs_running s of
        Some (StoppingFor u c awaited) \<Rightarrow>
          if ok then connect_open u awaited s else s\<lparr> cs_running := Some (Rejected awaited) \<rparr>
      | Some (StoppingOff c) \<Rightarrow>
          if ok then disconnected s else s\<lparr> cs_running := Some (Rejected False) \<rparr>
      | _ \<Rightarrow> s)"

definition start_settled :: "bool \<Rightarrow> chat_service \<Rightarrow> chat_service" where
  "start_settled ok s =
     (case cs_running s of
        Some (Starting u c awaited) \<Rightarrow>
          if ok
          then (if cs_requestedUserId s \<noteq> Some u then s\<lparr> cs_running := None \<rparr>
                else s\<lparr> cs_reconnectAttempt := 0, cs_running := None \<rparr>)
          else (let s' = s\<lparr> cs_live := filter (\<lambda>d. d \<noteq> c) (cs_live s), cs_running := Some (Rejected awaited) \<rparr>
                in if cs_connection s = Some c then s'\<lparr> cs_connection := None, cs_currentUserId := None \<rparr> else s')
      | _ \<Rightarrow> s)"

definition rejection_settled :: "chat_service \<Rightarrow> chat_service" where
  \<comment> \<open>the handlers of a rejected transition: a reconnect timer schedules the next attempt\<close>
  "rejection_settled s =
     (case cs_running s of
        Some (Rejected awaited) \<Rightarrow>
          (let s' = s\<lparr> cs_running := None \<rparr> in if awaited then scheduleReconnect s' else s')
      | _ \<Rightarrow> s)"

definition connection_closed :: "nat \<Rightarrow> chat_service \<Rightarrow> (nat \<times> unit) list \<times> chat_service" where
  "connection_closed c s0 =
     (let s = s0\<lparr> cs_live := filter (\<lambda>d. d \<noteq> c) (cs_live s0) \<rparr>
      in if cs_connection s \<noteq> Some c then ([], s)
         else (let s' = s\<lparr> cs_connection := None, cs_currentUserId := None \<rparr>
               in (notify (cs_disconnectCallbacks s') (),
                   if \<not> cs_intentionalDisconnect s' \<and> cs_lastKnownUserId s' \<noteq> None
                   then scheduleReconnect s' else s')))"

section \<open>Sending\<close>

datatype send_step =
    SendError thrown
  | SendRest int ustr "int option"                    \<comment> \<open>\<open>chatApi.sendMessage\<close>\<close>
  | SendInvoke nat int int ustr "int option"          \<comment> \<open>connection, sending user, receiver, content, post\<close>

definition sendMessage :: "jval \<Rightarrow> ustr \<Rightarrow> jval \<Rightarrow> chat_service \<Rightarrow> send_step" where
  "sendMessage receiver text postId s =
     (case toPositiveIntegerId receiver of
        None \<Rightarrow> SendError (js_error (U ''Invalid receiver ID''))
      | Some r \<Rightarrow>
          if trim text = [] then SendError (js_error (U ''Message content cannot be empty''))
          else (let p = toPositiveIntegerId postId
                in case cs_currentUserId s of
                     None \<Rightarrow> SendError (js_error (U ''Current user is not connected''))
                   | Some u \<Rightarrow>
                       if cs_requestedUserId s \<noteq> Some u
                       then SendError (js_error (U ''Current user is not connected''))
                       else (case cs_connection s of
                               None \<Rightarrow> SendRest r (trim text) p
                             | Some c \<Rightarrow> if cs_hub s c \<noteq> Connected then SendRest r (trim text) p
                                        else SendInvoke c u r (trim text) p)))"

definition invoke_failed :: "int \<Rightarrow> int \<Rightarrow> ustr \<Rightarrow> int option \<Rightarrow> chat_service \<Rightarrow> send_step" where
  \<comment> \<open>the catch of \<open>sendMessage\<close>, in the state at that time\<close>
  "invoke_failed sendingUser r text p s =
     (if cs_currentUserId s \<noteq> Some sendingUser \<or> cs_requestedUserId s \<noteq> Some sendingUser
      then SendError (js_error (U ''The active account changed before the message was sent.''))
      else SendRest r text p)"

definition rest_settled :: "thrown option \<Rightarrow> message option \<Rightarrow> thrown + message" where
  \<comment> \<open>the answer of the fallback; the first argument is what \<open>invoke\<close> threw, if it was tried\<close>
  "rest_settled err fallbackMessage =
     (case fallbackMessage of
        Some m \<Rightarrow> Inr m
      | None \<Rightarrow>
          Inl (case err of
                 None \<Rightarrow> js_error (U ''No realtime connection and REST fallback failed'')
               | Some (JsError n m) \<Rightarrow> JsError n m
               | Some (ThrownValue v) \<Rightarrow>
                   js_error (U ''Failed to send message through realtime or fallback API'')))"

section \<open>Runs\<close>

datatype service_event =
    ConnectCall jval
  | DisconnectCall
  | TransitionRuns
  | StopSettles bool
  | StartSettles bool
  | RejectionSettles
  | HubReports nat hub_state
  | HubCloses nat
  | TimerFires nat int int

inductive service_step :: "chat_service \<Rightarrow> service_event \<Rightarrow> chat_service \<Rightarrow> bool" where
  connects: "service_step s (ConnectCall v) (snd (connect v s))"
| disconnects: "service_step s DisconnectCall (disconnect s)"
| transits: "cs_running s = None \<Longrightarrow> cs_transitions s \<noteq> [] \<Longrightarrow>
     service_step s TransitionRuns (run_transition s)"
| stops: "service_step s (StopSettles ok) (stop_settled ok s)"
| starts: "service_step s (StartSettles ok) (start_settled ok s)"
| rejects: "service_step s RejectionSettles (rejection_settled s)"
| reports: "service_step s (HubReports c h) (s\<lparr> cs_hub := (cs_hub s)(c := h) \<rparr>)"
| closes: "c < length (cs_opened s) \<Longrightarrow> service_step s (HubCloses c) (snd (connection_closed c s))"
| fires: "(i, u, d) \<in> set (cs_timers s) \<Longrightarrow> service_step s (TimerFires i u d) (timer_fired i u s)"

inductive_cases service_stepE: "service_step s e s'"

inductive service_run :: "chat_service \<Rightarrow> service_event list \<Rightarrow> chat_service \<Rightarrow> bool" where
  begin_run: "service_run s [] s"
| continue_run: "service_run s es s' \<Longrightarrow> service_step s' e s'' \<Longrightarrow> service_run s (es @ [e]) s''"

section \<open>Invariant\<close>

text \<open>
  The current connection was opened for the current user and no other connection is alive.  While
  a transition runs it owns the connection.  What is pending ends at the requested user.  At most
  one reconnect is scheduled, for the requested user, after at most 16 seconds, and at most five
  times in a row.
\<close>

definition connection_ok :: "chat_service \<Rightarrow> bool" where
  "connection_ok s \<longleftrightarrow>
     cs_currentUserId s = map_option (owner s) (cs_connection s)
     \<and> (\<forall>c. cs_connection s = Some c \<longrightarrow> c < length (cs_opened s))
     \<and> set (cs_live s) \<subseteq> set_option (cs_connection s)"

definition running_ok :: "chat_service \<Rightarrow> bool" where
  "running_ok s \<longleftrightarrow>
     (case cs_running s of
        None \<Rightarrow> True
      | Some (Starting u c awaited) \<Rightarrow>
          c < length (cs_opened s) \<and> owner s c = u \<and> cs_connection s \<in> {None, Some c}
      | Some _ \<Rightarrow> cs_connection s = None)"

definition target_of :: "transition \<Rightarrow> int option" where
  "target_of t = (case t of ConnectTo u _ \<Rightarrow> Some u | DisconnectAll \<Rightarrow> None)"

definition running_target :: "running \<Rightarrow> int option \<Rightarrow> bool" where
  "running_target r u \<longleftrightarrow>
     (case r of StoppingFor v _ _ \<Rightarrow> u = Some v | Starting v _ _ \<Rightarrow> u = Some v | StoppingOff _ \<Rightarrow> u = None
      | Rejected _ \<Rightarrow> True)"

definition target_ok :: "chat_service \<Rightarrow> bool" where
  "target_ok s \<longleftrightarrow>
     (if cs_transitions s \<noteq> [] then target_of (last (cs_transitions s)) = cs_requestedUserId s
      else (case cs_running s of
              Some r \<Rightarrow> running_target r (cs_requestedUserId s)
            | None \<Rightarrow> cs_connection s = None \<or> cs_currentUserId s = cs_requestedUserId s))"

definition timer_ok :: "chat_service \<Rightarrow> bool" where
  "timer_ok s \<longleftrightarrow>
     cs_reconnectAttempt s \<le> 5
     \<and> (cs_timers s = []
        \<or> (\<exists>i u d. cs_timers s = [(i, u, d)] \<and> cs_reconnectTimer s = Some i \<and> cs_requestedUserId s = Some u
             \<and> 1000 \<le> d \<and> d \<le> 16000 \<and> \<not> cs_intentionalDisconnect s \<and> safe_id u))"

definition ids_ok :: "chat_service \<Rightarrow> bool" where
  "ids_ok s \<longleftrightarrow> opt_safe (cs_requestedUserId s)"

definition service_ok :: "chat_service \<Rightarrow> bool" where
  "service_ok s \<longleftrightarrow> connection_ok s \<and> running_ok s \<and> target_ok s \<and> timer_ok s \<and> ids_ok s"

lemma new_service_ok: "service_ok newChatService"
  by (simp add: service_ok_def connection_ok_def running_ok_def target_ok_def timer_ok_def ids_ok_def
      newChatService_def opt_safe_def)

lemma clearReconnect_sel [simp]:
  "cs_connection (clearReconnect s) = cs_connection s" "cs_currentUserId (clearReconnect s) = cs_currentUserId s"
  "cs_requestedUserId (clearReconnect s) = cs_requestedUserId s"
  "cs_lastKnownUserId (clearReconnect s) = cs_lastKnownUserId s"
  "cs_intentionalDisconnect (clearReconnect s) = cs_intentionalDisconnect s"
  "cs_reconnectAttempt (clearReconnect s) = cs_reconnectAttempt s"
  "cs_transitions (clearReconnect s) = cs_transitions s" "cs_running (clearReconnect s) = cs_running s"
  "cs_opened (clearReconnect s) = cs_opened s" "cs_hub (clearReconnect s) = cs_hub s"
  "cs_handlers (clearReconnect s) = cs_handlers s" "cs_live (clearReconnect s) = cs_live s"
  "owner (clearReconnect s) = owner s"
  by (simp_all add: clearReconnect_def clearTimer_def owner_def fun_eq_iff split: option.split)

lemma clearReconnect_timers:
  "timer_ok s \<Longrightarrow> cs_timers (clearReconnect s) = []"
  by (auto simp: timer_ok_def clearReconnect_def clearTimer_def split: option.split)

lemma scheduleReconnect_sel [simp]:
  "cs_connection (scheduleReconnect s) = cs_connection s" "cs_currentUserId (scheduleReconnect s) = cs_currentUserId s"
  "cs_requestedUserId (scheduleReconnect s) = cs_requestedUserId s"
  "cs_transitions (scheduleReconnect s) = cs_transitions s" "cs_running (scheduleReconnect s) = cs_running s"
  "cs_opened (scheduleReconnect s) = cs_opened s" "cs_live (scheduleReconnect s) = cs_live s"
  "owner (scheduleReconnect s) = owner s"
  by (simp_all add: scheduleReconnect_def clearTimer_def owner_def fun_eq_iff Let_def split: option.split)

lemma reconnect_delay_bounds: "n < 5 \<Longrightarrow> 1000 \<le> reconnect_delay n \<and> reconnect_delay n \<le> 16000"
  by (cases n rule: nat.exhaust; auto simp: reconnect_delay_def less_Suc_eq numeral_eq_Suc)

lemma scheduleReconnect_timer_ok:
  assumes "timer_ok s" and "ids_ok s"
  shows "timer_ok (scheduleReconnect s)"
proof -
  define t where "t = (case cs_reconnectTimer s of None \<Rightarrow> s | Some i \<Rightarrow> clearTimer i s)"
  have t: "cs_timers t = []" "timer_ok t" "cs_requestedUserId t = cs_requestedUserId s"
    using assms(1) by (auto simp: t_def timer_ok_def clearTimer_def split: option.split)
  have "scheduleReconnect s = (if cs_intentionalDisconnect t then t
         else if cs_reconnectAttempt t \<ge> 5 then t
         else (case cs_lastKnownUserId t of None \<Rightarrow> t
               | Some u \<Rightarrow> if cs_requestedUserId t \<noteq> Some u then t
                   else t\<lparr> cs_reconnectAttempt := cs_reconnectAttempt t + 1,
                          cs_timers := cs_timers t @ [(cs_nextTimer t, u, reconnect_delay (cs_reconnectAttempt t))],
                          cs_reconnectTimer := Some (cs_nextTimer t),
                          cs_nextTimer := cs_nextTimer t + 1 \<rparr>))"
    unfolding scheduleReconnect_def Let_def t_def by (rule refl)
  then show ?thesis
    using t assms(2) reconnect_delay_bounds [of "cs_reconnectAttempt t"]
    by (auto simp: timer_ok_def ids_ok_def opt_safe_def split: option.splits)
qed

lemma timer_ok_quiet: "cs_timers s = [] \<Longrightarrow> cs_reconnectAttempt s \<le> 5 \<Longrightarrow> timer_ok s"
  by (simp add: timer_ok_def)

lemma owner_opened: "owner s = (!) (cs_opened s)"
  by (simp add: owner_def fun_eq_iff)

lemmas service_defs = service_ok_def connection_ok_def running_ok_def target_ok_def ids_ok_def owner_opened

lemma clear_timer_ok [simp]: "timer_ok s \<Longrightarrow> timer_ok (clearReconnect s)"
  by (rule timer_ok_quiet [OF clearReconnect_timers]) (simp_all add: timer_ok_def)

lemma schedule_ok:
  assumes "service_ok s"
  shows "service_ok (scheduleReconnect s)"
  using assms scheduleReconnect_timer_ok [of s]
  by (auto simp: service_defs split: option.split running.split)

lemma request_ok:
  assumes "service_ok s" and "safe_id u"
  shows "service_ok (request_connection a u s)"
proof -
  have "timer_ok (request_connection a u s)"
  proof (cases "cs_requestedUserId s = Some u")
    case True
    then show ?thesis using assms by (auto simp: request_connection_def service_ok_def timer_ok_def)
  next
    case False
    then show ?thesis
      using assms clearReconnect_timers [of s]
      by (intro timer_ok_quiet) (auto simp: request_connection_def service_ok_def timer_ok_def Let_def)
  qed
  then show ?thesis
    using assms by (auto simp: service_defs request_connection_def Let_def target_of_def opt_safe_def
        split: option.split running.split)
qed

lemma connect_ok: "service_ok s \<Longrightarrow> service_ok (snd (connect v s))"
  using request_ok to_id_safe by (simp add: connect_def split: option.split)

lemma disconnect_ok:
  assumes "service_ok s"
  shows "service_ok (disconnect s)"
proof -
  let ?t = "s\<lparr> cs_requestedUserId := None, cs_intentionalDisconnect := True \<rparr>"
  have "cs_timers (clearReconnect ?t) = []"
    using assms by (auto simp: service_ok_def timer_ok_def clearReconnect_def clearTimer_def split: option.split)
  then have "timer_ok (disconnect s)"
    using assms by (intro timer_ok_quiet) (auto simp: disconnect_def Let_def service_ok_def timer_ok_def)
  then show ?thesis
    using assms by (auto simp: service_defs disconnect_def Let_def target_of_def opt_safe_def
        split: option.split running.split)
qed

lemma timer_fired_ok:
  assumes "service_ok s" and "(i, u, d) \<in> set (cs_timers s)"
  shows "service_ok (timer_fired i u s)"
    and "cs_transitions (timer_fired i u s) = cs_transitions s @ [ConnectTo u True]"
    and "cs_timers (timer_fired i u s) = []"
proof -
  from assms have t: "cs_timers s = [(i, u, d)]" "cs_requestedUserId s = Some u" "\<not> cs_intentionalDisconnect s" "safe_id u"
    by (auto simp: service_ok_def timer_ok_def)
  let ?t = "clearTimer i s"
  have fired: "timer_fired i u s = request_connection True u ?t"
    using t by (simp add: timer_fired_def Let_def clearTimer_def opt_num_def)
  have "service_ok ?t" "cs_timers ?t = []"
    using assms(1) t by (auto simp: service_defs timer_ok_def clearTimer_def split: option.splits running.splits)
  then show "service_ok (timer_fired i u s)" using fired request_ok t(4) by simp
  show "cs_transitions (timer_fired i u s) = cs_transitions s @ [ConnectTo u True]" "cs_timers (timer_fired i u s) = []"
    unfolding fired using t by (simp_all add: request_connection_def Let_def clearTimer_def)
qed

definition unconnected :: "chat_service \<Rightarrow> bool" where
  \<comment> \<open>what holds whenever a transition has let go of the previous connection\<close>
  "unconnected s \<longleftrightarrow>
     cs_connection s = None \<and> cs_currentUserId s = None \<and> cs_live s = [] \<and> timer_ok s \<and> ids_ok s
     \<and> (cs_transitions s \<noteq> [] \<longrightarrow> target_of (last (cs_transitions s)) = cs_requestedUserId s)"

lemma unconnected_ok:
  assumes "unconnected s" and "case r of Some (Starting u c a) \<Rightarrow> False | _ \<Rightarrow> True"
    and "cs_transitions s = [] \<Longrightarrow> case r of None \<Rightarrow> True | Some r' \<Rightarrow> running_target r' (cs_requestedUserId s)"
  shows "service_ok (s\<lparr> cs_running := r \<rparr>)"
  using assms by (auto simp: service_defs unconnected_def timer_ok_def split: option.splits running.splits)

lemma connect_open_ok:
  assumes "unconnected s"
  shows "service_ok (connect_open u a s)"
proof (cases "cs_requestedUserId s = Some u")
  case False
  then show ?thesis using unconnected_ok [OF assms, of None] by (simp add: connect_open_def)
next
  case True
  then show ?thesis
    using assms by (auto simp: connect_open_def Let_def service_defs unconnected_def timer_ok_def running_target_def)
qed

lemma run_transition_ok:
  assumes "service_ok s" and "cs_running s = None"
  shows "service_ok (run_transition s)"
proof (cases "cs_transitions s")
  case Nil
  then show ?thesis using assms by (simp add: run_transition_def)
next
  case (Cons t ts)
  define q where "q = clearReconnect (s\<lparr> cs_transitions := ts, cs_intentionalDisconnect := True \<rparr>)"
  have later: "ts \<noteq> [] \<Longrightarrow> target_of (last ts) = cs_requestedUserId s"
    and final: "ts = [] \<Longrightarrow> target_of t = cs_requestedUserId s"
    using assms(1) Cons by (auto simp: service_ok_def target_ok_def split: if_splits)
  have timers: "cs_timers q = []"
    using assms(1) by (auto simp: q_def service_ok_def timer_ok_def clearReconnect_def clearTimer_def split: option.split)
  then have gone: "unconnected (let_go c q)" if "cs_connection s = Some c" for c
    using assms that later
    by (auto simp: q_def unconnected_def let_go_def detachRealtimeHandlers_def service_defs filter_empty_conv timer_ok_def)
  have none: "unconnected (s\<lparr> cs_transitions := ts \<rparr>)" "unconnected q" if "cs_connection s = None"
    using assms that later timers by (auto simp: q_def unconnected_def service_defs timer_ok_def)
  show ?thesis
  proof (cases t)
    case (ConnectTo u a)
    show ?thesis
    proof (cases "cs_requestedUserId s = Some u")
      case False
      then have "ts \<noteq> []" using final ConnectTo by (auto simp: target_of_def)
      with False show ?thesis
        using assms Cons ConnectTo later
        by (simp add: run_transition_def connectInternal_def service_defs timer_ok_def)
    next
      case req: True
      show ?thesis
      proof (cases "cs_connection s")
        case None
        then show ?thesis
          using Cons ConnectTo req none connect_open_ok by (simp add: run_transition_def connectInternal_def)
      next
        case (Some c)
        show ?thesis
        proof (cases "isActiveState (cs_hub s c) \<and> cs_currentUserId s = Some u")
          case True
          then show ?thesis
            using assms Cons ConnectTo req Some later
            by (auto simp: run_transition_def connectInternal_def service_defs timer_ok_def)
        next
          case False
          then have "run_transition s = (let_go c q)\<lparr> cs_running := Some (StoppingFor u c a) \<rparr>"
            using Cons ConnectTo req Some by (auto simp: run_transition_def connectInternal_def q_def)
          then show ?thesis
            using unconnected_ok [OF gone [OF Some], of "Some (StoppingFor u c a)"] req
            by (simp add: running_target_def let_go_def detachRealtimeHandlers_def q_def)
        qed
      qed
    qed
  next
    case DisconnectAll
    show ?thesis
    proof (cases "cs_connection s")
      case None
      then have "unconnected (q\<lparr> cs_currentUserId := None, cs_lastKnownUserId := None \<rparr>)"
        using none by (simp add: unconnected_def timer_ok_def ids_ok_def)
      from unconnected_ok [OF this, of None] show ?thesis
        using None Cons DisconnectAll by (simp add: run_transition_def disconnectInternal_def disconnected_def q_def)
    next
      case (Some c)
      have "run_transition s = (let_go c q)\<lparr> cs_running := Some (StoppingOff c) \<rparr>"
        using Cons DisconnectAll Some by (simp add: run_transition_def disconnectInternal_def q_def)
      then show ?thesis
        using unconnected_ok [OF gone [OF Some], of "Some (StoppingOff c)"] final DisconnectAll
        by (simp add: running_target_def let_go_def detachRealtimeHandlers_def q_def target_of_def)
    qed
  qed
qed

lemma ok_unconnected:
  assumes "service_ok s" and "cs_running s = Some r" and "\<forall>u c a. r \<noteq> Starting u c a"
  shows "unconnected s"
  using assms by (auto simp: unconnected_def service_defs split: running.splits)

lemma stop_settled_ok:
  assumes "service_ok s"
  shows "service_ok (stop_settled ok s)"
proof -
  have rej: "service_ok (s\<lparr> cs_running := Some (Rejected a) \<rparr>)" if "unconnected s" for a
    using unconnected_ok [OF that, of "Some (Rejected a)"] by (simp add: running_target_def)
  have "service_ok (disconnected s)" if "unconnected s"
    using that by (auto simp: disconnected_def unconnected_def service_defs timer_ok_def)
  then show ?thesis
    using assms rej ok_unconnected [OF assms] connect_open_ok
    by (auto simp: stop_settled_def split: option.split running.split)
qed

lemma start_settled_ok:
  assumes "service_ok s"
  shows "service_ok (start_settled ok s)"
proof (cases "\<exists>u c a. cs_running s = Some (Starting u c a)")
  case True
  then obtain u c a where "cs_running s = Some (Starting u c a)" by blast
  then show ?thesis
    using assms by (auto simp: start_settled_def Let_def service_defs timer_ok_def running_target_def)
next
  case False
  then have "start_settled ok s = s" by (simp add: start_settled_def split: option.split running.split)
  then show ?thesis using assms by simp
qed

lemma rejection_settled_ok:
  assumes "service_ok s"
  shows "service_ok (rejection_settled s)"
proof -
  have "service_ok (s\<lparr> cs_running := None \<rparr>)" if "unconnected s"
    using unconnected_ok [OF that, of None] by simp
  then show ?thesis
    using assms ok_unconnected [OF assms] schedule_ok
    by (auto simp: rejection_settled_def Let_def split: option.split running.split)
qed

lemma closed_ok:
  assumes "service_ok s"
  shows "service_ok (snd (connection_closed c s))"
proof -
  let ?s = "s\<lparr> cs_live := filter (\<lambda>d. d \<noteq> c) (cs_live s) \<rparr>"
  have "service_ok ?s"
    using assms by (auto simp: service_defs timer_ok_def split: option.split running.split)
  moreover have "service_ok (?s\<lparr> cs_connection := None, cs_currentUserId := None \<rparr>)" if "cs_connection s = Some c"
    using assms that by (auto simp: service_defs timer_ok_def filter_empty_conv split: option.splits running.splits)
  ultimately show ?thesis using schedule_ok by (simp add: connection_closed_def Let_def)
qed

lemma service_step_ok:
  assumes "service_step s e s'" and "service_ok s"
  shows "service_ok s'"
  using assms
proof (cases rule: service_step.cases)
  case (reports c h)
  then show ?thesis using assms(2) by (auto simp: service_defs timer_ok_def split: option.split running.split)
qed (simp_all add: connect_ok disconnect_ok run_transition_ok stop_settled_ok start_settled_ok
      rejection_settled_ok closed_ok timer_fired_ok(1))

lemma service_run_ok: "service_run s es s' \<Longrightarrow> service_ok s \<Longrightarrow> service_ok s'"
  by (induction rule: service_run.induct) (auto intro: service_step_ok)

section \<open>Settling\<close>

text \<open>
  \<open>advance\<close> is the next thing that happens to the transitions when nobody asks for anything new and
  the hub answers \<open>start\<close> and \<open>stop\<close> with success or failure as the argument says; \<open>work\<close> bounds how
  often it can happen.
\<close>

definition advance :: "bool \<Rightarrow> chat_service \<Rightarrow> chat_service" where
  "advance ok s =
     (case cs_running s of
        None \<Rightarrow> run_transition s
      | Some (StoppingFor _ _ _) \<Rightarrow> stop_settled ok s
      | Some (StoppingOff _) \<Rightarrow> stop_settled ok s
      | Some (Starting _ _ _) \<Rightarrow> start_settled ok s
      | Some (Rejected _) \<Rightarrow> rejection_settled s)"

fun settle :: "bool list \<Rightarrow> chat_service \<Rightarrow> chat_service" where
  "settle [] s = s"
| "settle (ok # oks) s = settle oks (advance ok s)"

definition work :: "chat_service \<Rightarrow> nat" where
  "work s = 4 * length (cs_transitions s)
     + (case cs_running s of None \<Rightarrow> 0 | Some (StoppingFor _ _ _) \<Rightarrow> 3 | Some (Starting _ _ _) \<Rightarrow> 2
        | Some (StoppingOff _) \<Rightarrow> 2 | Some (Rejected _) \<Rightarrow> 1)"

definition idle :: "chat_service \<Rightarrow> bool" where
  "idle s \<longleftrightarrow> cs_running s = None \<and> cs_transitions s = []"

lemma work_idle: "work s = 0 \<longleftrightarrow> idle s"
  by (auto simp: work_def idle_def split: option.split running.split)

lemma advance_ok: "service_ok s \<Longrightarrow> service_ok (advance ok s)"
  by (simp add: advance_def run_transition_ok stop_settled_ok start_settled_ok rejection_settled_ok
      split: option.split running.split)

lemma advance_idle: "idle s \<Longrightarrow> advance ok s = s"
  by (simp add: advance_def idle_def run_transition_def)

lemma work_run:
  assumes "cs_running s = None" and "cs_transitions s \<noteq> []"
  shows "work (run_transition s) < work s"
proof (cases "cs_transitions s")
  case (Cons t ts)
  then show ?thesis
    using assms
    by (auto simp: run_transition_def connectInternal_def connect_open_def disconnectInternal_def disconnected_def
        Let_def let_go_def detachRealtimeHandlers_def work_def split: transition.split option.split)
qed (use assms in simp)

lemma work_advance:
  assumes "\<not> idle s"
  shows "work (advance ok s) < work s"
proof (cases "cs_running s")
  case None
  then show ?thesis using assms work_run by (simp add: advance_def idle_def)
next
  case (Some r)
  then show ?thesis
    by (cases r) (auto simp: advance_def stop_settled_def start_settled_def rejection_settled_def disconnected_def
        connect_open_def Let_def work_def)
qed

lemma settle_ok: "service_ok s \<Longrightarrow> service_ok (settle oks s)"
  by (induction oks arbitrary: s) (auto simp: advance_ok)

lemma settle_idle: "work s \<le> length oks \<Longrightarrow> idle (settle oks s)"
proof (induction oks arbitrary: s)
  case Nil
  then show ?case using work_idle by simp
next
  case (Cons ok oks)
  show ?case
  proof (cases "idle s")
    case True
    then show ?thesis using Cons.IH [of s] work_idle [of s] by (simp add: advance_idle)
  next
    case False
    then show ?thesis using Cons work_advance [OF False, of ok] by simp
  qed
qed

definition reaching :: "int \<Rightarrow> chat_service \<Rightarrow> bool" where
  "reaching u s \<longleftrightarrow>
     service_ok s \<and> cs_requestedUserId s = Some u
     \<and> (cs_transitions s \<noteq> []
        \<or> (case cs_running s of
             None \<Rightarrow> cs_connection s \<noteq> None
           | Some (StoppingFor _ _ _) \<Rightarrow> True
           | Some (Starting _ _ _) \<Rightarrow> cs_connection s \<noteq> None
           | Some _ \<Rightarrow> False))"

lemma reaching_open:
  assumes "service_ok s" and "cs_requestedUserId s = Some u" and "cs_running s = Some (StoppingFor u c a)"
  shows "reaching u (connect_open u a s)"
  using assms connect_open_ok [OF ok_unconnected [OF assms(1,3)], of u a]
  by (simp add: reaching_def connect_open_def Let_def)

lemma reaching_run:
  assumes "reaching u s" and "cs_running s = None"
  shows "reaching u (run_transition s)"
proof (cases "cs_transitions s")
  case Nil
  then show ?thesis using assms by (simp add: run_transition_def)
next
  case (Cons t ts)
  have s: "service_ok s" "cs_requestedUserId s = Some u" using assms(1) by (auto simp: reaching_def)
  then have "ts = [] \<Longrightarrow> t = ConnectTo u (case t of ConnectTo _ a \<Rightarrow> a | DisconnectAll \<Rightarrow> False)"
    using Cons by (auto simp: service_ok_def target_ok_def target_of_def split: transition.splits)
  moreover have "cs_transitions (run_transition s) = ts" "cs_requestedUserId (run_transition s) = Some u"
    using Cons s(2) by (auto simp: run_transition_def connectInternal_def connect_open_def disconnectInternal_def
        disconnected_def Let_def let_go_def detachRealtimeHandlers_def split: transition.split option.split)
  moreover have "case cs_running (connectInternal u a (s\<lparr> cs_transitions := ts \<rparr>)) of
      None \<Rightarrow> cs_connection (connectInternal u a (s\<lparr> cs_transitions := ts \<rparr>)) \<noteq> None
    | Some (StoppingFor _ _ _) \<Rightarrow> True
    | Some (Starting _ _ _) \<Rightarrow> cs_connection (connectInternal u a (s\<lparr> cs_transitions := ts \<rparr>)) \<noteq> None
    | Some _ \<Rightarrow> False" for a
    using s(2) by (simp add: connectInternal_def connect_open_def Let_def split: option.split)
  ultimately show ?thesis
    using run_transition_ok [OF s(1) assms(2)] Cons
    by (cases ts; cases t) (auto simp: reaching_def run_transition_def)
qed

lemma reaching_advance:
  assumes "reaching u s"
  shows "reaching u (advance True s)"
proof (cases "cs_running s")
  case None
  then show ?thesis using assms reaching_run by (simp add: advance_def)
next
  case (Some r)
  have s: "service_ok s" "cs_requestedUserId s = Some u" using assms by (auto simp: reaching_def)
  show ?thesis
  proof (cases r)
    case (StoppingFor v c a)
    show ?thesis
    proof (cases "v = u")
      case True
      then show ?thesis using reaching_open [OF s] Some StoppingFor by (simp add: advance_def stop_settled_def)
    next
      case False
      then have "cs_transitions s \<noteq> []"
        using s Some StoppingFor by (auto simp: service_ok_def target_ok_def running_target_def split: if_splits)
      then show ?thesis
        using False Some StoppingFor advance_ok [OF s(1), of True] s(2)
        by (simp add: advance_def stop_settled_def connect_open_def reaching_def)
    qed
  qed (use assms Some advance_ok [OF s(1), of True] s(2) in
      \<open>auto simp: advance_def stop_settled_def start_settled_def rejection_settled_def disconnected_def Let_def reaching_def\<close>)
qed

lemma reaching_settle: "reaching u s \<Longrightarrow> \<forall>ok \<in> set oks. ok \<Longrightarrow> reaching u (settle oks s)"
  by (induction oks arbitrary: s) (auto simp: reaching_advance)

lemma requested_settle: "cs_requestedUserId (settle oks s) = cs_requestedUserId s"
proof (induction oks arbitrary: s)
  case (Cons ok oks)
  have "cs_requestedUserId (advance ok s) = cs_requestedUserId s"
    by (auto simp: advance_def run_transition_def connectInternal_def connect_open_def disconnectInternal_def
        disconnected_def Let_def let_go_def detachRealtimeHandlers_def stop_settled_def start_settled_def
        rejection_settled_def split: option.split running.split transition.split list.split)
  then show ?case using Cons by simp
qed simp

lemma idle_connection:
  assumes "service_ok s" and "idle s" and "cs_connection s = Some c"
  shows "cs_requestedUserId s = Some (owner s c)" and "cs_currentUserId s = Some (owner s c)"
  using assms by (auto simp: service_ok_def connection_ok_def target_ok_def idle_def)

section \<open>Properties\<close>

text \<open>
  Claim C16. After any history of connects, disconnects, timers and hub events: the current user is
  the one the current connection was opened for; every other connection has been told to stop, has
  closed or never started; at most one reconnect is scheduled, for the requested user, after one to
  sixteen seconds, and when it fires it is carried out; at most five are made in a row.
\<close>

theorem chat_connection_invariant:
  assumes "service_run newChatService es s"
  shows "cs_currentUserId s = map_option (owner s) (cs_connection s)
    \<and> set (cs_live s) \<subseteq> set_option (cs_connection s)
    \<and> cs_reconnectAttempt s \<le> 5
    \<and> (cs_timers s = [] \<or>
        (\<exists>i u d. cs_timers s = [(i, u, d)] \<and> cs_requestedUserId s = Some u \<and> 1000 \<le> d \<and> d \<le> 16000
           \<and> cs_transitions (timer_fired i u s) = cs_transitions s @ [ConnectTo u True]))"
proof -
  have ok: "service_ok s" using service_run_ok [OF assms new_service_ok] .
  then show ?thesis
    using timer_fired_ok(2) [OF ok] by (auto simp: service_ok_def connection_ok_def timer_ok_def)
qed

lemma run_of_steps:
  "service_run newChatService [ConnectCall (Num (Fin 7)), TransitionRuns, StartSettles True, HubReports 0 Connected, HubCloses 0]
     (snd (connection_closed 0
       ((start_settled True (run_transition (snd (connect (Num (Fin 7)) newChatService))))
          \<lparr> cs_hub := (cs_hub (start_settled True (run_transition (snd (connect (Num (Fin 7)) newChatService)))))(0 := Connected) \<rparr>)))"
proof -
  let ?a = "snd (connect (Num (Fin 7)) newChatService)"
  have 1: "service_run newChatService ([] @ [ConnectCall (Num (Fin 7))]) ?a"
    by (rule continue_run [OF begin_run connects])
  have seven: "toPositiveIntegerId (Num (Fin 7)) = Some 7" by code_simp
  then have a: "?a = newChatService\<lparr> cs_requestedUserId := Some 7, cs_transitions := [ConnectTo 7 False] \<rparr>"
    by (simp add: connect_def request_connection_def newChatService_def clearReconnect_def)
  have 2: "service_run newChatService (([] @ [ConnectCall (Num (Fin 7))]) @ [TransitionRuns]) (run_transition ?a)"
    by (rule continue_run [OF 1 transits]) (unfold a, simp_all add: newChatService_def)
  note 3 = continue_run [OF 2 starts, of True]
  note 4 = continue_run [OF 3 reports, of 0 Connected]
  have "0 < length (cs_opened ((start_settled True (run_transition ?a))
      \<lparr> cs_hub := (cs_hub (start_settled True (run_transition ?a)))(0 := Connected) \<rparr>))"
    unfolding a by (simp add: newChatService_def run_transition_def connectInternal_def connect_open_def start_settled_def Let_def)
  from continue_run [OF 4 closes [OF this]] show ?thesis by simp
qed

theorem chat_connection_invariant_witness:
  "\<exists>es s. service_run newChatService es s \<and> length es = 5
     \<and> (cs_timers s = [] \<or> (\<exists>i u d. cs_timers s = [(i, u, d)] \<and> 1000 \<le> d))"
  using chat_connection_invariant [OF run_of_steps] run_of_steps by fastforce

text \<open>
  Claim C17. Accounts are kept apart.  What a connection delivers reaches the listeners only while
  it is the current connection and was opened for the requested user; the hub is asked to send only
  over an open connection of the requested user.  From the moment another account is requested, or
  none, nothing is delivered and every message is refused until a connection of the new account is
  opened.
\<close>

theorem chat_accounts_apart:
  assumes "service_run newChatService es s"
  shows "(receiveMessage env s c args \<noteq> [] \<or> receiveNotification env s c args \<noteq> [] \<or> messagesRead s c args \<noteq> []
      \<longrightarrow> cs_connection s = Some c \<and> cs_requestedUserId s = Some (owner s c))
    \<and> (sendMessage r t p s = SendInvoke d u r' t' p'
      \<longrightarrow> cs_connection s = Some d \<and> cs_hub s d = Connected \<and> owner s d = u \<and> cs_requestedUserId s = Some u
          \<and> t' = trim t \<and> t' \<noteq> [] \<and> toPositiveIntegerId r = Some r')
    \<and> (s' = disconnect s \<or> (\<exists>v a. cs_currentUserId s \<noteq> Some v \<and> s' = request_connection a v s)
      \<longrightarrow> receiveMessage env s' c args = [] \<and> receiveNotification env s' c args = [] \<and> messagesRead s' c args = []
          \<and> (\<exists>e. sendMessage r t p s' = SendError e))"
proof (intro conjI impI)
  have ok: "service_ok s" using service_run_ok [OF assms new_service_ok] .
  have heard: "hears s c"
    if "receiveMessage env s c args \<noteq> [] \<or> receiveNotification env s c args \<noteq> [] \<or> messagesRead s c args \<noteq> []"
    using that by (auto simp: receiveMessage_def receiveNotification_def messagesRead_def split: if_splits)
  then show "cs_connection s = Some c" "cs_requestedUserId s = Some (owner s c)"
    if "receiveMessage env s c args \<noteq> [] \<or> receiveNotification env s c args \<noteq> [] \<or> messagesRead s c args \<noteq> []"
    using that by (auto simp: hears_def isActiveConnection_def)
  assume "sendMessage r t p s = SendInvoke d u r' t' p'"
  then show "cs_connection s = Some d" "cs_hub s d = Connected" "owner s d = u" "cs_requestedUserId s = Some u"
    "t' = trim t" "t' \<noteq> []" "toPositiveIntegerId r = Some r'"
    using ok by (auto simp: sendMessage_def Let_def service_ok_def connection_ok_def split: option.splits if_splits)
next
  assume change: "s' = disconnect s \<or> (\<exists>v a. cs_currentUserId s \<noteq> Some v \<and> s' = request_connection a v s)"
  have changed: "cs_currentUserId s' = None \<or> cs_requestedUserId s' \<noteq> cs_currentUserId s'"
    using change by (auto simp: disconnect_def request_connection_def Let_def split: if_splits)
  then have "\<not> hears s' c" by (auto simp: hears_def isActiveConnection_def)
  then show "receiveMessage env s' c args = []" "receiveNotification env s' c args = []" "messagesRead s' c args = []"
    by (simp_all add: receiveMessage_def receiveNotification_def messagesRead_def)
  show "\<exists>e. sendMessage r t p s' = SendError e"
    using changed by (auto simp: sendMessage_def Let_def split: option.split)
qed

theorem chat_accounts_apart_witness:
  "\<exists>es s. service_run newChatService es s \<and> length es = 5
     \<and> (\<exists>e. sendMessage (Num (Fin 3)) (U ''hi'') Undef (disconnect s) = SendError e)"
  using chat_accounts_apart [OF run_of_steps, of ref_env 0 "[]" "Num (Fin 3)" "U ''hi''" Undef 0 0 0 "[]" None "disconnect _"]
    run_of_steps by fastforce

text \<open>
  Claim C18. The transitions always come to rest: after at most \<open>work\<close> steps nothing is pending,
  whatever the hub answers, and then there is no connection or it is one of the requested user; after
  a disconnect there is none and no reconnect is scheduled.  When the hub answers every \<open>start\<close> and
  \<open>stop\<close> with success, a requested connection is there in the end, however many transitions were
  pending before it.
\<close>

theorem chat_settles:
  assumes "service_run newChatService es s" and "toPositiveIntegerId v = Some u"
  shows "(work s \<le> length oks \<longrightarrow> idle (settle oks s)
        \<and> (\<forall>c. cs_connection (settle oks s) = Some c \<longrightarrow>
             cs_requestedUserId (settle oks s) = Some (owner (settle oks s) c)))
    \<and> (work (disconnect s) \<le> length oks \<longrightarrow>
        cs_connection (settle oks (disconnect s)) = None \<and> cs_currentUserId (settle oks (disconnect s)) = None
        \<and> cs_timers (settle oks (disconnect s)) = [])
    \<and> (work (snd (connect v s)) \<le> length oks \<and> (\<forall>ok \<in> set oks. ok) \<longrightarrow>
        (\<exists>c. cs_connection (settle oks (snd (connect v s))) = Some c
           \<and> owner (settle oks (snd (connect v s))) c = u
           \<and> cs_currentUserId (settle oks (snd (connect v s))) = Some u))"
proof (intro conjI impI)
  have ok: "service_ok s" using service_run_ok [OF assms(1) new_service_ok] .
  show "idle (settle oks s)" if "work s \<le> length oks" using settle_idle that .
  show "\<forall>c. cs_connection (settle oks s) = Some c \<longrightarrow>
      cs_requestedUserId (settle oks s) = Some (owner (settle oks s) c)" if "work s \<le> length oks"
    using idle_connection(1) [OF settle_ok [OF ok] settle_idle [OF that]] by simp
  let ?d = "settle oks (disconnect s)"
  have d: "service_ok ?d" "cs_requestedUserId ?d = None"
    using settle_ok [OF disconnect_ok [OF ok]] by (simp_all add: requested_settle disconnect_def Let_def)
  show "cs_timers ?d = []" using d by (auto simp: service_ok_def timer_ok_def)
  show none: "cs_connection ?d = None" if "work (disconnect s) \<le> length oks"
    using idle_connection(1) [OF d(1) settle_idle [OF that]] d(2) by (cases "cs_connection ?d") auto
  show "cs_currentUserId ?d = None" if "work (disconnect s) \<le> length oks"
    using none [OF that] d(1) by (simp add: service_ok_def connection_ok_def)
  let ?c = "settle oks (snd (connect v s))"
  assume c: "work (snd (connect v s)) \<le> length oks \<and> (\<forall>ok \<in> set oks. ok)"
  have "reaching u (snd (connect v s))"
    using connect_ok [OF ok, of v] assms(2) by (simp add: reaching_def connect_def request_connection_def Let_def)
  with c have r: "reaching u ?c" and i: "idle ?c" using reaching_settle settle_idle by blast+
  then obtain c where "cs_connection ?c = Some c" by (auto simp: reaching_def idle_def)
  with idle_connection [OF _ i this] r show "\<exists>c. cs_connection ?c = Some c \<and> owner ?c c = u \<and> cs_currentUserId ?c = Some u"
    by (auto simp: reaching_def)
qed

theorem chat_settles_witness:
  "\<exists>c. cs_connection (settle [True, True, True, True] (snd (connect (Num (Fin 7)) newChatService))) = Some c"
proof -
  have seven: "toPositiveIntegerId (Num (Fin 7)) = Some 7" by code_simp
  then have "work (snd (connect (Num (Fin 7)) newChatService)) \<le> 4"
    by (simp add: connect_def request_connection_def newChatService_def clearReconnect_def work_def)
  with chat_settles [OF begin_run seven, of "[True, True, True, True]"] show ?thesis by auto
qed

lemma normalize_cong:
  assumes "asRecord v = None \<longleftrightarrow> asRecord w = None"
    and "flds v [''SenderId'', ''senderId''] = flds w [''SenderId'', ''senderId'']"
    and "flds v [''ReceiverId'', ''receiverId''] = flds w [''ReceiverId'', ''receiverId'']"
    and "coalesce [fld v ''Content'', fld v ''content'', Str []] = coalesce [fld w ''Content'', fld w ''content'', Str []]"
    and "flds v [''MessageId'', ''messageId''] = flds w [''MessageId'', ''messageId'']"
    and "flds v [''ConversationId'', ''conversationId''] = flds w [''ConversationId'', ''conversationId'']"
    and "flds v [''PostId'', ''postId''] = flds w [''PostId'', ''postId'']"
    and "flds v [''Timestamp'', ''timestamp''] = flds w [''Timestamp'', ''timestamp'']"
    and "coalesce [fld v ''IsRead'', fld v ''isRead'', Bool False] = coalesce [fld w ''IsRead'', fld w ''isRead'', Bool False]"
  shows "normalizeChatMessage env v = normalizeChatMessage env w"
  unfolding normalizeChatMessage_def assms by (rule refl)

text \<open>
  Whatever a hub sends, listeners get well-formed values: messages with valid
  identifiers and non-empty trimmed content, notifications with a valid identifier and non-blank
  type, title and body, receipts with three valid identifiers.  A message is read the same in the
  old, the legacy and the object form.
\<close>

theorem hub_payloads_wf:
  "(\<forall>(cb, m) \<in> set (receiveMessage env s c args). message_wf m)
   \<and> (\<forall>(cb, n) \<in> set (receiveNotification env s c args).
        safe_id (notificationId n) \<and> notificationType n \<noteq> [] \<and> notification_title n \<noteq> [] \<and> notification_body n \<noteq> []
        \<and> opt_safe (notification_messageId n))
   \<and> (\<forall>(cb, r) \<in> set (messagesRead s c args).
        safe_id (receipt_conversationId r) \<and> safe_id (readerUserId r) \<and> safe_id (lastReadMessageId r))
   \<and> normalizeChatMessage env (mapRealtimePayload (Some u) [from, Num n, Str text, post, time])
     = normalizeChatMessage env (mapRealtimePayload (Some u)
         [Obj [(U ''senderId'', from), (U ''receiverId'', opt_num (Some u)), (U ''conversationId'', Num n),
               (U ''content'', Str text), (U ''postId'', post), (U ''timestamp'', time)]])"
proof (intro conjI)
  show "\<forall>(cb, m) \<in> set (receiveMessage env s c args). message_wf m"
    using normalize_wf by (auto simp: receiveMessage_def notify_def split: option.splits)
  have n: "safe_id (notificationId n) \<and> notificationType n \<noteq> [] \<and> notification_title n \<noteq> [] \<and> notification_body n \<noteq> []
        \<and> opt_safe (notification_messageId n)" if "mapNotificationPayload env args = Some n" for n
  proof -
    from that obtain p where p: "payload_of args = Some p" by (cases "payload_of args") (simp_all add: mapNotificationPayload_def)
    from that p obtain i where i: "toPositiveIntegerId (flds p [''NotificationId'', ''notificationId'']) = Some i"
      by (cases "toPositiveIntegerId (flds p [''NotificationId'', ''notificationId''])")
         (simp_all add: mapNotificationPayload_def Let_def)
    from that p i obtain t where
      t: "parse_date env (to_str (coalesce [fld p ''CreatedAt'', fld p ''createdAt'', Str []])) = Some t"
      by (cases "parse_date env (to_str (coalesce [fld p ''CreatedAt'', fld p ''createdAt'', Str []]))")
         (simp_all add: mapNotificationPayload_def Let_def)
    from that show ?thesis
      unfolding mapNotificationPayload_def p Let_def option.case i t prod.case
      by (cases "read_text p ''NotificationType'' ''notificationType'' = [] \<or> read_text p ''Title'' ''title'' = []
          \<or> read_text p ''Body'' ''body'' = []") (auto simp only: if_True if_False not_False_eq_True option.inject
          option.distinct app_notification.select_convs to_id_safe [OF i] to_id_opt_safe de_Morgan_disj simp_thms)
  qed
  then show "\<forall>(cb, n) \<in> set (receiveNotification env s c args).
        safe_id (notificationId n) \<and> notificationType n \<noteq> [] \<and> notification_title n \<noteq> [] \<and> notification_body n \<noteq> []
        \<and> opt_safe (notification_messageId n)"
    by (auto simp: receiveNotification_def notify_def split: option.splits)
  have "safe_id (receipt_conversationId r) \<and> safe_id (readerUserId r) \<and> safe_id (lastReadMessageId r)"
    if "mapReadReceiptPayload args = Some r" for r
    using that to_id_safe by (auto simp: mapReadReceiptPayload_def split: option.splits)
  then show "\<forall>(cb, r) \<in> set (messagesRead s c args).
        safe_id (receipt_conversationId r) \<and> safe_id (readerUserId r) \<and> safe_id (lastReadMessageId r)"
    by (auto simp: messagesRead_def notify_def split: option.splits)
  show "normalizeChatMessage env (mapRealtimePayload (Some u) [from, Num n, Str text, post, time])
     = normalizeChatMessage env (mapRealtimePayload (Some u)
         [Obj [(U ''senderId'', from), (U ''receiverId'', opt_num (Some u)), (U ''conversationId'', Num n),
               (U ''content'', Str text), (U ''postId'', post), (U ''timestamp'', time)]])"
    by (rule normalize_cong) (simp_all add: mapRealtimePayload_def arg_def flds_def)
qed

theorem hub_payloads_wf_witness:
  "normalizeChatMessage ref_env (mapRealtimePayload (Some 7) [Num (Fin 3), Num (Fin 5), Str (U ''hi''), Undef, Undef])
     = normalizeChatMessage ref_env (mapRealtimePayload (Some 7)
         [Obj [(U ''senderId'', Num (Fin 3)), (U ''receiverId'', opt_num (Some 7)), (U ''conversationId'', Num (Fin 5)),
               (U ''content'', Str (U ''hi'')), (U ''postId'', Undef), (U ''timestamp'', Undef)]])"
  using hub_payloads_wf [of ref_env newChatService 0 "[]" 7 "Num (Fin 3)" "Fin 5" "U ''hi''" Undef Undef] by blast

end
