(* ===== verification/Notifications.thy ===== *)
theory Notifications
  imports ChatService ImageCache
begin

text \<open>
  Notifications: the endpoints (\<open>services/api/notifications.ts\<close>), the sharing of requests between
  callers of one owner (\<open>services/api/ownerScopedRequestDeduper.ts\<close>) and the unread counter
  (\<open>app/hooks/useNotificationPolling.ts\<close>), whose requests for several accounts may be under way at
  once.  Tables of requests are the \<open>Map\<close>s of \<open>ImageCache\<close>.
\<close>

section \<open>notifications.ts\<close>

definition toIsoTimestamp :: "jsenv \<Rightarrow> jval \<Rightarrow> ustr option" where
  "toIsoTimestamp env v =
     (if \<not> truthy v then None else map_option (iso_string env) (parse_date env (to_str v)))"

definition normalizeNotification :: "jsenv \<Rightarrow> jval \<Rightarrow> app_notification option" where
  "normalizeNotification env p =
     (if \<not> is_object p then None
      else
        (let ntype = read_text p ''NotificationType'' ''notificationType'';
             title = read_text p ''Title'' ''title'';
             body = read_text p ''Body'' ''body''
         in case (toPositiveIntegerId (flds p [''NotificationId'', ''notificationId'']),
                  toIsoTimestamp env (flds p [''CreatedAt'', ''createdAt''])) of
              (Some n, Some createdAt) \<Rightarrow>
                if ntype = [] \<or> title = [] \<or> body = [] \<or> createdAt = [] then None
                else Some \<lparr> notificationId = n, notificationType = ntype, notification_title = title,
                   notification_body = body,
                   senderUserId = toPositiveIntegerId (flds p [''SenderUserId'', ''senderUserId'']),
                   notification_conversationId = toPositiveIntegerId (flds p [''ConversationId'', ''conversationId'']),
                   notification_messageId = toPositiveIntegerId (flds p [''MessageId'', ''messageId'']),
                   routeUrl = (case flds p [''RouteUrl'', ''routeUrl''] of Str s \<Rightarrow> Some s | _ \<Rightarrow> None),
                   notification_isRead = truthy (coalesce [fld p ''IsRead'', fld p ''isRead'', Bool False]),
                   notification_createdAt = createdAt,
                   readAt = toIsoTimestamp env (flds p [''ReadAt'', ''readAt'']) \<rparr>
            | _ \<Rightarrow> None))"

definition notifications_take :: "rat option \<Rightarrow> rat" where
  \<comment> \<open>\<open>Math.min(100, Math.max(1, params?.take ?? 25))\<close>\<close>
  "notifications_take t = min 100 (max 1 (case t of None \<Rightarrow> 25 | Some n \<Rightarrow> n))"

definition getNotifications :: "jsenv \<Rightarrow> api_response \<Rightarrow> thrown + app_notification list" where
  "getNotifications env response =
     (case response of
        ApiErr e \<Rightarrow> Inl (js_error (or_else (err_message e) (U ''Failed to load notifications.'')))
      | ApiOk (Arr vs) \<Rightarrow> Inr (List.map_filter (normalizeNotification env) vs)
      | ApiOk _ \<Rightarrow> Inl (js_error (U ''Failed to load notifications because the response was invalid.'')))"

record unread_result =
  unreadCount :: int
  serviceUnavailable :: bool

definition count_of :: "jval \<Rightarrow> int" where
  \<comment> \<open>\<open>Number.isFinite(n) && n > 0 ? Math.floor(n) : 0\<close>\<close>
  "count_of v = (case to_num v of Fin r \<Rightarrow> if r > 0 then \<lfloor>r\<rfloor> else 0 | _ \<Rightarrow> 0)"

definition unread_count_result :: "api_response \<Rightarrow> unread_result" where
  "unread_count_result response =
     (case response of
        ApiErr e \<Rightarrow> \<lparr> unreadCount = 0, serviceUnavailable = (err_code e = U ''HTTP_503'') \<rparr>
      | ApiOk d \<Rightarrow>
          if \<not> truthy d then \<lparr> unreadCount = 0, serviceUnavailable = False \<rparr>
          else \<lparr> unreadCount = count_of (coalesce [fld d ''UnreadCount'', fld d ''unreadCount'', Num (Fin 0)]),
                 serviceUnavailable = False \<rparr>)"

definition markAsRead :: "jval \<Rightarrow> api_response \<Rightarrow> bool" where
  "markAsRead i response =
     (case toPositiveIntegerId i of
        None \<Rightarrow> False
      | Some _ \<Rightarrow>
          (case response of
             ApiErr e \<Rightarrow> False
           | ApiOk d \<Rightarrow> truthy (coalesce [fld d ''success'', fld d ''Success'', Bool False])))"

definition markAllAsRead :: "api_response \<Rightarrow> thrown + int" where
  "markAllAsRead response =
     (case response of
        ApiErr e \<Rightarrow> Inl (js_error (or_else (err_message e) (U ''Failed to mark notifications as read.'')))
      | ApiOk d \<Rightarrow>
          if \<not> truthy d then Inl (js_error (U ''Failed to mark notifications as read.''))
          else Inr (count_of (coalesce [fld d ''UpdatedCount'', fld d ''updatedCount'', Num (Fin 0)])))"

section \<open>ownerScopedRequestDeduper.ts\<close>

record request_table =
  inflightByOwner :: "ustr \<Rightarrow> nat option"
  requests :: "(nat \<times> ustr) list"   \<comment> \<open>requests under way and the owner each was created for\<close>
  nextId :: nat

definition no_requests :: request_table where
  "no_requests = \<lparr> inflightByOwner = (\<lambda>_. None), requests = [], nextId = 0 \<rparr>"

definition dedupe :: "ustr \<Rightarrow> request_table \<Rightarrow> nat \<times> request_table" where
  \<comment> \<open>the promise the caller gets: a new request or the one under way for the owner\<close>
  "dedupe ownerId t =
     (let ownerKey = trim ownerId in
      if ownerKey = []
      then (nextId t, t\<lparr> requests := (nextId t, ownerKey) # requests t, nextId := nextId t + 1 \<rparr>)
      else
        (case js_get (inflightByOwner t) ownerKey of
           Some n \<Rightarrow> (n, t)
         | None \<Rightarrow>
             (nextId t,
              t\<lparr> requests := (nextId t, ownerKey) # requests t, nextId := nextId t + 1,
                 inflightByOwner := js_put (inflightByOwner t) ownerKey (nextId t) \<rparr>)))"

definition request_finished :: "nat \<times> ustr \<Rightarrow> request_table \<Rightarrow> request_table" where
  \<comment> \<open>the \<open>finally\<close>; requests without an owner have none\<close>
  "request_finished q t =
     (let t' = t\<lparr> requests := remove1 q (requests t) \<rparr>
      in if snd q \<noteq> [] \<and> js_get (inflightByOwner t) (snd q) = Some (fst q)
         then t'\<lparr> inflightByOwner := js_del (inflightByOwner t') (snd q) \<rparr> else t')"

section \<open>useNotificationPolling.ts\<close>

definition NOTIFICATION_SERVICE_RETRY_MS :: int where "NOTIFICATION_SERVICE_RETRY_MS = 60000"

record unread_counter =
  uc_count :: int
  uc_loadedOwnerId :: ustr
  uc_retryAt :: "int option"
  uc_requests :: "(nat \<times> ustr) list"   \<comment> \<open>uncancelled requests and the owner of their closure\<close>


definition counter_owner :: "bool \<Rightarrow> ustr option \<Rightarrow> ustr" where
  "counter_owner isAuthenticated userId = (if isAuthenticated then trim (opt_str userId) else [])"

definition coolingDown :: "int \<Rightarrow> unread_counter \<Rightarrow> bool" where
  "coolingDown now s \<longleftrightarrow> (case uc_retryAt s of None \<Rightarrow> False | Some t \<Rightarrow> t > now)"

definition retry_effect :: "int \<Rightarrow> unread_counter \<Rightarrow> unread_counter" where
  \<comment> \<open>the effect on \<open>notificationsRetryAt\<close> and the timer it sets\<close>
  "retry_effect now s =
     (case uc_retryAt s of None \<Rightarrow> s | Some t \<Rightarrow> if t - now \<le> 0 then s\<lparr> uc_retryAt := None \<rparr> else s)"

definition polling_effect :: "bool \<Rightarrow> bool \<Rightarrow> int \<Rightarrow> ustr \<Rightarrow> nat \<Rightarrow> unread_counter \<Rightarrow> unread_counter" where
  \<comment> \<open>the cleanup of the previous effect cancels its requests; the last number is the first request\<close>
  "polling_effect isAuthenticated suspended now ownerId request s0 =
     (let s = s0\<lparr> uc_requests := [] \<rparr> in
      if \<not> isAuthenticated \<or> suspended then s\<lparr> uc_count := 0, uc_loadedOwnerId := [] \<rparr>
      else if coolingDown now s then s
      else s\<lparr> uc_count := 0, uc_loadedOwnerId := [], uc_requests := [(request, ownerId)] \<rparr>)"

definition refresh_requested :: "ustr \<Rightarrow> nat \<Rightarrow> unread_counter \<Rightarrow> unread_counter" where
  \<comment> \<open>the interval, the window event, a realtime notification, or the entry of a chat route\<close>
  "refresh_requested ownerId request s = s\<lparr> uc_requests := uc_requests s @ [(request, ownerId)] \<rparr>"

definition refresh_settled :: "int \<Rightarrow> nat \<times> ustr \<Rightarrow> unread_result \<Rightarrow> unread_counter \<Rightarrow> unread_counter" where
  "refresh_settled now q result s0 =
     (let s = s0\<lparr> uc_requests := remove1 q (uc_requests s0) \<rparr> in
      if serviceUnavailable result then s\<lparr> uc_retryAt := Some (now + NOTIFICATION_SERVICE_RETRY_MS) \<rparr>
      else s\<lparr> uc_retryAt := None, uc_count := unreadCount result, uc_loadedOwnerId := snd q \<rparr>)"

definition request_cancelled :: "nat \<times> ustr \<Rightarrow> unread_counter \<Rightarrow> unread_counter" where
  \<comment> \<open>the cleanup of the realtime or of the chat route effect\<close>
  "request_cancelled q s = s\<lparr> uc_requests := remove1 q (uc_requests s) \<rparr>"


definition normalized_pathname :: "ustr \<Rightarrow> ustr" where
  "normalized_pathname pathname = strip_slashes (lower pathname)"

definition isChatRoute :: "ustr \<Rightarrow> bool" where
  "isChatRoute p \<longleftrightarrow> p = U ''/chat'' \<or> starts_with p (U ''/chat/'')"

definition announces :: "ustr \<Rightarrow> int option \<Rightarrow> app_notification \<Rightarrow> bool" where
  \<comment> \<open>whether a realtime notification pops up: not for the conversation on the screen\<close>
  "announces pathname routeConversationId n \<longleftrightarrow>
     (let p = normalized_pathname pathname;
          inChatWithSender = (isChatRoute p \<and> (case senderUserId n of None \<Rightarrow> False
             | Some u \<Rightarrow> ends_with p (U ''/'' @ int_str u)));
          inSameConversation = (notification_conversationId n = None \<or> routeConversationId = None
             \<or> notification_conversationId n = routeConversationId)
      in \<not> inChatWithSender \<or> \<not> inSameConversation)"

definition announcement :: "app_notification \<Rightarrow> ustr" where
  "announcement n = notification_title n @ U '': '' @ notification_body n"

section \<open>Runs\<close>

datatype counter_event =
    Polled bool bool int "ustr option" nat
  | Asked bool "ustr option" nat
  | Counted "nat \<times> ustr" int unread_result
  | Cancelled "nat \<times> ustr"
  | TimePassed int

inductive counter_step :: "unread_counter \<Rightarrow> counter_event \<Rightarrow> unread_counter \<Rightarrow> bool" where
  polled: "counter_step s (Polled a susp now u n) (polling_effect a susp now (counter_owner a u) n s)"
| asked: "counter_step s (Asked a u n) (refresh_requested (counter_owner a u) n s)"
| counted: "q \<in> set (uc_requests s) \<Longrightarrow> counter_step s (Counted q now r) (refresh_settled now q r s)"
| cancelled: "counter_step s (Cancelled q) (request_cancelled q s)"
| passed: "counter_step s (TimePassed now) (retry_effect now s)"


datatype table_event = Calls ustr nat | Finishes "nat \<times> ustr"

inductive table_step :: "request_table \<Rightarrow> table_event \<Rightarrow> request_table \<Rightarrow> bool" where
  calls: "dedupe o' t = (n, t') \<Longrightarrow> table_step t (Calls o' n) t'"
| finishes: "q \<in> set (requests t) \<Longrightarrow> table_step t (Finishes q) (request_finished q t)"

inductive table_run :: "table_event list \<Rightarrow> request_table \<Rightarrow> bool" where
  table_start: "table_run [] no_requests"
| table_next: "table_run es t \<Longrightarrow> table_step t e t' \<Longrightarrow> table_run (es @ [e]) t'"

inductive_cases counter_stepE: "counter_step s e s'"
inductive_cases table_stepE: "table_step t e t'"

section \<open>Lemmas\<close>

definition table_ok :: "request_table \<Rightarrow> bool" where
  "table_ok t \<longleftrightarrow>
     distinct (map fst (requests t))
     \<and> (\<forall>n k. (n, k) \<in> set (requests t) \<longrightarrow> n < nextId t)
     \<and> (\<forall>k n. js_get (inflightByOwner t) k = Some n \<longleftrightarrow> k \<noteq> [] \<and> (n, k) \<in> set (requests t))"

lemma dedupe_cases:
  assumes "dedupe u t = (n, t')"
  obtains (blank) "trim u = []" "n = nextId t" "t' = t\<lparr> requests := (n, []) # requests t, nextId := Suc n \<rparr>"
  | (joined) "trim u \<noteq> []" "js_get (inflightByOwner t) (trim u) = Some n" "t' = t"
  | (created) "trim u \<noteq> []" "js_get (inflightByOwner t) (trim u) = None" "n = nextId t"
      "t' = t\<lparr> requests := (n, trim u) # requests t, nextId := Suc n,
               inflightByOwner := js_put (inflightByOwner t) (trim u) n \<rparr>"
  using assms by (auto simp: dedupe_def Let_def split: if_splits option.splits)

lemma new_ok:
  assumes ok: "table_ok t" and "k \<noteq> []" and "js_get (inflightByOwner t) k = None"
  shows "table_ok (t\<lparr> requests := (nextId t, k) # requests t, nextId := Suc (nextId t),
               inflightByOwner := js_put (inflightByOwner t) k (nextId t) \<rparr>)"
proof -
  have none: "(m, k) \<notin> set (requests t)" for m using assms unfolding table_ok_def by (metis option.distinct(1))
  have fresh: "(nextId t, k) \<notin> set (requests t)" for k using ok unfolding table_ok_def by blast
  show ?thesis
    unfolding table_ok_def
  proof (intro conjI allI)
    fix j n
    show "(js_get (inflightByOwner (t\<lparr> requests := (nextId t, k) # requests t, nextId := Suc (nextId t),
               inflightByOwner := js_put (inflightByOwner t) k (nextId t) \<rparr>)) j = Some n)
      \<longleftrightarrow> j \<noteq> [] \<and> (n, j) \<in> set (requests (t\<lparr> requests := (nextId t, k) # requests t, nextId := Suc (nextId t),
               inflightByOwner := js_put (inflightByOwner t) k (nextId t) \<rparr>))"
      using ok none assms(2) unfolding table_ok_def by (cases "j = k") (auto simp: table.get_put)
  qed (use ok fresh in \<open>auto simp: table_ok_def less_Suc_eq\<close>)
qed

lemma dedupe_ok:
  assumes ok: "table_ok t" and "dedupe u t = (n, t')"
  shows "table_ok t' \<and> (n, trim u) \<in> set (requests t')"
  using assms(2)
proof (cases rule: dedupe_cases)
  case blank
  have fresh: "(nextId t, k) \<notin> set (requests t)" for k using ok unfolding table_ok_def by blast
  with blank show ?thesis using ok unfolding table_ok_def by (auto simp: less_Suc_eq)
next
  case joined
  then show ?thesis using ok unfolding table_ok_def by blast
next
  case created
  then show ?thesis using new_ok [OF ok created(1,2)] by simp
qed

lemma finished_ok:
  assumes ok: "table_ok t" and mem: "(n, k) \<in> set (requests t)"
  shows "table_ok (request_finished (n, k) t)"
proof -
  let ?t = "request_finished (n, k) t"
  have rest: "(i, j) \<in> set (remove1 (n, k) (requests t)) \<longleftrightarrow> (i, j) \<in> set (requests t) \<and> i \<noteq> n" for i j
    using ok mem eq_key_imp_eq_value [of "requests t" n] by (auto simp: table_ok_def set_remove1_eq distinct_map)
  have sel: "requests ?t = remove1 (n, k) (requests t)" "nextId ?t = nextId t"
    by (simp_all add: request_finished_def Let_def)
  have own: "k \<noteq> [] \<Longrightarrow> js_get (inflightByOwner t) k = Some n" using ok mem by (simp add: table_ok_def)
  have table: "js_get (inflightByOwner ?t) j = (if j = k then None else js_get (inflightByOwner t) j)" for j
  proof (cases "k = []")
    case True
    moreover have "js_get (inflightByOwner t) [] = None"
      using ok unfolding table_ok_def by (cases "js_get (inflightByOwner t) []") auto
    ultimately show ?thesis by (simp add: request_finished_def Let_def)
  next
    case False
    then show ?thesis using own by (simp add: request_finished_def Let_def table.get_del)
  qed
  show ?thesis
    unfolding table_ok_def sel
  proof (intro conjI allI)
    show "distinct (map fst (remove1 (n, k) (requests t)))"
      using ok by (auto simp: table_ok_def distinct_map intro: inj_on_subset dest: notin_set_remove1)
    fix j i
    have only: "(i, k) \<in> set (requests t) \<Longrightarrow> k \<noteq> [] \<Longrightarrow> i = n"
      using own ok unfolding table_ok_def by (metis option.inject)
    have not_n: "(n, j) \<in> set (requests t) \<Longrightarrow> j = k"
      using ok mem eq_key_imp_eq_value [of "requests t" n j k] by (simp add: table_ok_def)
    have "js_get (inflightByOwner t) j = Some i \<longleftrightarrow> j \<noteq> [] \<and> (i, j) \<in> set (requests t)"
      using ok by (simp add: table_ok_def)
    then show "(js_get (inflightByOwner ?t) j = Some i) \<longleftrightarrow> j \<noteq> [] \<and> (i, j) \<in> set (remove1 (n, k) (requests t))"
      unfolding table rest using only not_n by (metis option.distinct(1))
  qed (use ok rest in \<open>auto simp: table_ok_def\<close>)
qed


lemma table_run_ok: "table_run es t \<Longrightarrow> table_ok t"
proof (induction rule: table_run.induct)
  case table_start
  then show ?case by (simp add: table_ok_def no_requests_def js_get_def)
next
  case (table_next es t e t')
  from table_next.hyps(2) show ?case
  proof cases
    case (calls u n)
    then show ?thesis using dedupe_ok table_next.IH by blast
  next
    case (finishes q)
    then show ?thesis using finished_ok table_next.IH by (cases q) auto
  qed
qed









section \<open>Properties\<close>

text \<open>
  After any history of calls and answers, callers of one owner share the request that is
  under way, two requests under way for one owner do not exist, callers of different owners or of
  none never share one, and after the answer the next call starts a new request.
\<close>

theorem requests_shared_per_owner:
  assumes "table_run es t"
  shows "(\<forall>n m k. (n, k) \<in> set (requests t) \<and> (m, k) \<in> set (requests t) \<and> k \<noteq> [] \<longrightarrow> n = m)
    \<and> (dedupe u t = (n, t') \<longrightarrow>
        (n, trim u) \<in> set (requests t') \<and> table_run (es @ [Calls u n]) t'
        \<and> (trim v \<noteq> trim u \<longrightarrow> fst (dedupe v t') \<noteq> n)
        \<and> (fst (dedupe v t') = n \<longleftrightarrow> trim v = trim u \<and> trim u \<noteq> [])
        \<and> fst (dedupe u (request_finished (n, trim u) t')) = nextId t')"
proof (intro conjI impI)
  have ok: "table_ok t" using table_run_ok [OF assms] .
  show "\<forall>n m k. (n, k) \<in> set (requests t) \<and> (m, k) \<in> set (requests t) \<and> k \<noteq> [] \<longrightarrow> n = m"
    using ok unfolding table_ok_def by (metis option.inject)
  assume d: "dedupe u t = (n, t')"
  have ok': "table_ok t'" and mem: "(n, trim u) \<in> set (requests t')" using dedupe_ok [OF ok d] by blast+
  show "(n, trim u) \<in> set (requests t')" by (rule mem)
  show "table_run (es @ [Calls u n]) t'" by (rule table_next [OF assms calls [OF d]])
  have same: "fst (dedupe v t') = n \<longleftrightarrow> trim v = trim u \<and> trim u \<noteq> []" for v
  proof -
    obtain m t'' where v: "dedupe v t' = (m, t'')" by (cases "dedupe v t'")
    then show ?thesis
    proof (cases rule: dedupe_cases)
      case blank
      have "n < nextId t'" using ok' mem unfolding table_ok_def by blast
      with blank v show ?thesis by auto
    next
      case joined
      then have "(m, trim v) \<in> set (requests t')" using ok' unfolding table_ok_def by blast
      then have "m = n \<Longrightarrow> trim v = trim u"
        using ok' mem eq_key_imp_eq_value [of "requests t'" n] by (simp add: table_ok_def)
      moreover have "trim v = trim u \<Longrightarrow> m = n"
        using joined ok' mem unfolding table_ok_def by (metis option.inject)
      ultimately show ?thesis using v joined(1) by auto
    next
      case created
      have "n < nextId t'" using ok' mem unfolding table_ok_def by blast
      moreover have "trim v \<noteq> trim u" using created(1,2) ok' mem unfolding table_ok_def by (metis option.distinct(1))
      ultimately show ?thesis using created v by auto
    qed
  qed
  then show "fst (dedupe v t') = n \<longleftrightarrow> trim v = trim u \<and> trim u \<noteq> []" .
  show "fst (dedupe v t') \<noteq> n" if "trim v \<noteq> trim u" using same that by blast
  have "js_get (inflightByOwner t') (trim u) = Some n" if "trim u \<noteq> []"
    using ok' mem that unfolding table_ok_def by blast
  then show "fst (dedupe u (request_finished (n, trim u) t')) = nextId t'"
    by (simp add: dedupe_def request_finished_def Let_def table.get_del)
qed

theorem requests_shared_per_owner_witness:
  "fst (dedupe (U ''7'') (snd (dedupe (U ''7'') no_requests))) = fst (dedupe (U ''7'') no_requests)
   \<and> fst (dedupe (U ''8'') (snd (dedupe (U ''7'') no_requests))) \<noteq> fst (dedupe (U ''7'') no_requests)"
proof -
  have t: "trim (U ''7'') = U ''7''" "trim (U ''8'') = U ''8''" "U ''7'' \<noteq> []" by code_simp+
  have d: "dedupe (U ''7'') no_requests = (fst (dedupe (U ''7'') no_requests), snd (dedupe (U ''7'') no_requests))" by simp
  show ?thesis
    using requests_shared_per_owner [OF table_start, THEN conjunct2, rule_format, OF d] t by auto
qed



end
