(* ===== verification/LoginForm.thy ===== *)
theory LoginForm
  imports AuthApi
begin

text \<open>
  The login and sign-up form without its page: identifiers and password strength
  (\<open>features/auth/loginUtils.ts\<close>), field validation (\<open>loginValidation.ts\<close>), the reducer
  (\<open>useLoginReducer.ts\<close>), the readers of authentication payloads (\<open>pages/loginAuthHelpers.ts\<close>) and
  the profile of a user (\<open>profileState.ts\<close>).  The phone prefix of the configuration and the date
  formatter of the platform are arguments.
\<close>

section \<open>loginUtils.ts\<close>

definition email_parts :: "ustr \<Rightarrow> ustr \<times> ustr" where
  \<comment> \<open>what stands before and after the first at sign\<close>
  "email_parts s = (takeWhile (\<lambda>c. c \<noteq> 64) s, tl (dropWhile (\<lambda>c. c \<noteq> 64) s))"

definition isValidEmail :: "ustr \<Rightarrow> bool" where
  \<comment> \<open>\<open>/^[^\s@]+@[^\s@]+\.[^\s@]+$/\<close>\<close>
  "isValidEmail s \<longleftrightarrow>
     list_all (\<lambda>c. \<not> is_ws c) s \<and> 64 \<in> set s \<and> 64 \<notin> set (snd (email_parts s)) \<and> fst (email_parts s) \<noteq> []
     \<and> list_ex (\<lambda>i. snd (email_parts s) ! i = 46) [1..<length (snd (email_parts s)) - 1]"

record auth_identifier =
  ai_email :: "ustr option"
  ai_phone :: "ustr option"

definition parseAuthIdentifier :: "ustr \<Rightarrow> ustr \<Rightarrow> auth_identifier" where
  "parseAuthIdentifier phonePrefix value =
     (let t = trim value in
      if t = [] then \<lparr> ai_email = None, ai_phone = None \<rparr>
      else if isValidEmail t then \<lparr> ai_email = Some (lower t), ai_phone = None \<rparr>
      else \<lparr> ai_email = None, ai_phone = normalizeJordanPhone phonePrefix t \<rparr>)"

definition formatJoinedDateLabel :: "jsenv \<Rightarrow> (language \<Rightarrow> int \<Rightarrow> ustr) \<Rightarrow> jval \<Rightarrow> language \<Rightarrow> ustr" where
  \<comment> \<open>the second argument is \<open>toLocaleDateString\<close> with month and year\<close>
  "formatJoinedDateLabel env fmt value l =
     (case value of
        Str s \<Rightarrow>
          if trim s \<noteq> [] then (case parse_date env s of Some t \<Rightarrow> fmt l t | None \<Rightarrow> trim s)
          else fmt l (now_ms env)
      | _ \<Rightarrow> fmt l (now_ms env))"

definition has_upper :: "ustr \<Rightarrow> bool" where "has_upper s \<longleftrightarrow> list_ex (\<lambda>c. 65 \<le> c \<and> c \<le> 90) s"
definition has_lower :: "ustr \<Rightarrow> bool" where "has_lower s \<longleftrightarrow> list_ex (\<lambda>c. 97 \<le> c \<and> c \<le> 122) s"
definition has_number :: "ustr \<Rightarrow> bool" where "has_number s \<longleftrightarrow> list_ex is_digit s"
definition has_special :: "ustr \<Rightarrow> bool" where
  "has_special s \<longleftrightarrow> list_ex (\<lambda>c. \<not> ((65 \<le> c \<and> c \<le> 90) \<or> (97 \<le> c \<and> c \<le> 122) \<or> is_digit c)) s"

record password_strength =
  ps_score :: nat
  ps_label :: ustr
  ps_color :: ustr
  ps_requirements :: "bool list"   \<comment> \<open>length, upper case, lower case, number, special character\<close>

definition password_requirements :: "ustr \<Rightarrow> bool list" where
  "password_requirements p = [length p \<ge> 8, has_upper p, has_lower p, has_number p, has_special p]"

definition met_requirements :: "ustr \<Rightarrow> nat" where
  "met_requirements p = length (filter id (password_requirements p))"

definition calculatePasswordStrength :: "ustr \<Rightarrow> password_strength" where
  "calculatePasswordStrength p =
     (if met_requirements p = 0 \<or> length p = 0
      then \<lparr> ps_score = 0, ps_label = [], ps_color = U ''rgb(229 231 235)'', ps_requirements = password_requirements p \<rparr>
      else if met_requirements p \<le> 2 then \<lparr> ps_score = 25, ps_label = U ''Weak'', ps_color = U ''rgb(239 68 68)'', ps_requirements = password_requirements p \<rparr>
      else if met_requirements p = 3 then \<lparr> ps_score = 50, ps_label = U ''Good'', ps_color = U ''rgb(249 115 22)'', ps_requirements = password_requirements p \<rparr>
      else if met_requirements p = 4 then \<lparr> ps_score = 75, ps_label = U ''Strong'', ps_color = U ''rgb(16 185 129)'', ps_requirements = password_requirements p \<rparr>
      else \<lparr> ps_score = 100, ps_label = U ''Very Strong'', ps_color = U ''rgb(16 185 129)'', ps_requirements = password_requirements p \<rparr>)"

section \<open>loginValidation.ts\<close>

datatype login_field = Identifier | Password | ConfirmPassword | FirstName | LastName | Phone | City | Area

type_synonym login_values = "login_field \<Rightarrow> ustr"   \<comment> \<open>\<open>LoginFormValues\<close>, by its field names\<close>
type_synonym login_errors = "login_field \<Rightarrow> ustr"   \<comment> \<open>\<open>LoginFormErrors\<close>\<close>

definition login_fields :: "login_field list" where
  "login_fields = [Identifier, Password, ConfirmPassword, FirstName, LastName, Phone, City, Area]"

record validation_messages =
  identifierRequired :: ustr
  identifierInvalid :: ustr
  emailRequired :: ustr
  emailInvalid :: ustr
  passwordRequired :: ustr
  passwordMinLength :: ustr
  passwordUppercase :: ustr
  passwordLowercase :: ustr
  passwordNumber :: ustr
  passwordSpecial :: ustr
  confirmPasswordRequired :: ustr
  confirmPasswordMismatch :: ustr
  firstNameRequired :: ustr
  lastNameRequired :: ustr
  phoneRequired :: ustr
  phoneInvalid :: ustr
  cityRequired :: ustr
  areaRequired :: ustr

definition DEFAULT_LOGIN_VALIDATION_MESSAGES :: validation_messages where
  "DEFAULT_LOGIN_VALIDATION_MESSAGES = \<lparr>
     identifierRequired = U ''Email or phone is required'',
     identifierInvalid = U ''Enter a valid email or Jordanian phone number'',
     emailRequired = U ''Email address is required'',
     emailInvalid = U ''Enter a valid email address'',
     passwordRequired = U ''Password is required'',
     passwordMinLength = U ''Password must be at least 8 characters'',
     passwordUppercase = U ''Password must contain at least one uppercase letter'',
     passwordLowercase = U ''Password must contain at least one lowercase letter'',
     passwordNumber = U ''Password must contain at least one number'',
     passwordSpecial = U ''Password must contain at least one special character (!@#$%^&*...)'',
     confirmPasswordRequired = U ''Please confirm your password'',
     confirmPasswordMismatch = U ''Passwords do not match'',
     firstNameRequired = U ''First name is required'',
     lastNameRequired = U ''Last name is required'',
     phoneRequired = U ''Phone number is required'',
     phoneInvalid = U ''Enter a valid Jordanian phone number'',
     cityRequired = U ''City is required'',
     areaRequired = U ''Area is required'' \<rparr>"

definition createEmptyLoginErrors :: login_errors where
  "createEmptyLoginErrors = (\<lambda>_. [])"

definition validateIdentifier :: "ustr \<Rightarrow> validation_messages \<Rightarrow> bool \<Rightarrow> ustr \<Rightarrow> ustr" where
  "validateIdentifier phonePrefix ms isSignUp value =
     (if trim value = [] then (if isSignUp then emailRequired ms else identifierRequired ms)
      else if \<not> isSignUp then []
      else if ai_email (parseAuthIdentifier phonePrefix value) = None then emailInvalid ms else [])"

definition validatePassword :: "validation_messages \<Rightarrow> bool \<Rightarrow> ustr \<Rightarrow> ustr" where
  "validatePassword ms isSignUp value =
     (if value = [] then passwordRequired ms
      else if length value < 8 then passwordMinLength ms
      else if \<not> isSignUp then []
      else if \<not> has_upper value then passwordUppercase ms
      else if \<not> has_lower value then passwordLowercase ms
      else if \<not> has_number value then passwordNumber ms
      else if \<not> has_special value then passwordSpecial ms else [])"

definition validateConfirmPassword :: "validation_messages \<Rightarrow> login_values \<Rightarrow> ustr \<Rightarrow> ustr" where
  "validateConfirmPassword ms values value =
     (if value = [] then confirmPasswordRequired ms
      else if value \<noteq> values Password then confirmPasswordMismatch ms else [])"

definition validatePhone :: "ustr \<Rightarrow> validation_messages \<Rightarrow> ustr \<Rightarrow> ustr" where
  "validatePhone phonePrefix ms value =
     (if trim value = [] then phoneRequired ms
      else if normalizeJordanPhone phonePrefix value = None then phoneInvalid ms else [])"

definition required_text :: "ustr \<Rightarrow> ustr \<Rightarrow> ustr" where
  \<comment> \<open>\<open>value.trim() ? "" : message\<close>, the body of four validators\<close>
  "required_text message value = (if trim value \<noteq> [] then [] else message)"

definition validateLoginField ::
    "ustr \<Rightarrow> validation_messages \<Rightarrow> login_field \<Rightarrow> login_values \<Rightarrow> bool \<Rightarrow> ustr" where
  "validateLoginField phonePrefix ms f values isSignUp =
     (case f of
        Identifier \<Rightarrow> validateIdentifier phonePrefix ms isSignUp (values Identifier)
      | Password \<Rightarrow> validatePassword ms isSignUp (values Password)
      | ConfirmPassword \<Rightarrow> validateConfirmPassword ms values (values ConfirmPassword)
      | FirstName \<Rightarrow> required_text (firstNameRequired ms) (values FirstName)
      | LastName \<Rightarrow> required_text (lastNameRequired ms) (values LastName)
      | Phone \<Rightarrow> validatePhone phonePrefix ms (values Phone)
      | City \<Rightarrow> required_text (cityRequired ms) (values City)
      | Area \<Rightarrow> required_text (areaRequired ms) (values Area))"

definition validateLoginForm :: "ustr \<Rightarrow> validation_messages \<Rightarrow> login_values \<Rightarrow> bool \<Rightarrow> login_errors" where
  "validateLoginForm phonePrefix ms values isSignUp =
     (let e = createEmptyLoginErrors(
                Identifier := validateIdentifier phonePrefix ms isSignUp (values Identifier),
                Password := validatePassword ms isSignUp (values Password))
      in if isSignUp
         then e(ConfirmPassword := validateConfirmPassword ms values (values ConfirmPassword),
                FirstName := required_text (firstNameRequired ms) (values FirstName),
                LastName := required_text (lastNameRequired ms) (values LastName),
                Phone := validatePhone phonePrefix ms (values Phone),
                City := required_text (cityRequired ms) (values City),
                Area := required_text (areaRequired ms) (values Area))
         else e)"

definition no_errors :: "login_errors \<Rightarrow> bool" where
  \<comment> \<open>\<open>Object.values(errors).every((value) => value === "")\<close>\<close>
  "no_errors e \<longleftrightarrow> list_all (\<lambda>f. e f = []) login_fields"

section \<open>useLoginReducer.ts\<close>

datatype login_step = Credentials | TwoFactor | EmailVerification
datatype auth_mode = SignIn | SignUp

record login_state =
  ls_step :: login_step
  ls_mode :: auth_mode
  ls_isLoading :: bool
  ls_generalError :: ustr
  ls_values :: login_values
  ls_errors :: login_errors
  ls_twoFactorToken :: ustr
  ls_twoFactorCode :: ustr
  ls_showPassword :: bool
  ls_showConfirmPassword :: bool
  ls_focusedField :: "login_field option"
  ls_emailVerificationEmail :: ustr

datatype login_action =
    SET_MODE auth_mode
  | SET_FIELD login_field ustr
  | SET_ERROR login_field ustr
  | SET_ERRORS login_errors
  | SET_GENERAL_ERROR ustr
  | START_LOADING
  | STOP_LOADING
  | ENTER_TWO_FACTOR ustr ustr
  | CANCEL_TWO_FACTOR
  | SET_TWO_FACTOR_CODE ustr
  | TOGGLE_PASSWORD
  | TOGGLE_CONFIRM_PASSWORD
  | SET_FOCUSED_FIELD "login_field option"
  | ENTER_EMAIL_VERIFICATION ustr ustr
  | CANCEL_EMAIL_VERIFICATION
  | RESET "login_field \<rightharpoonup> ustr"

definition createInitialLoginState :: "(login_field \<rightharpoonup> ustr) \<Rightarrow> login_state" where
  "createInitialLoginState initialValues =
     \<lparr> ls_step = Credentials, ls_mode = SignIn, ls_isLoading = False, ls_generalError = [],
       ls_values = (\<lambda>f. case initialValues f of None \<Rightarrow> [] | Some v \<Rightarrow> v), ls_errors = createEmptyLoginErrors,
       ls_twoFactorToken = [], ls_twoFactorCode = [], ls_showPassword = False, ls_showConfirmPassword = False,
       ls_focusedField = None, ls_emailVerificationEmail = [] \<rparr>"

fun loginReducer :: "login_state \<Rightarrow> login_action \<Rightarrow> login_state" where
  "loginReducer s (SET_MODE m) =
     s\<lparr> ls_mode := m, ls_step := Credentials, ls_twoFactorToken := [], ls_twoFactorCode := [],
        ls_generalError := [], ls_errors := createEmptyLoginErrors, ls_focusedField := None \<rparr>"
| "loginReducer s (SET_FIELD f v) =
     s\<lparr> ls_values := (ls_values s)(f := v),
        ls_errors := (ls_errors s)(f := (if ls_errors s f \<noteq> [] then [] else ls_errors s f)) \<rparr>"
| "loginReducer s (SET_ERROR f e) = s\<lparr> ls_errors := (ls_errors s)(f := e) \<rparr>"
| "loginReducer s (SET_ERRORS es) = s\<lparr> ls_errors := es \<rparr>"
| "loginReducer s (SET_GENERAL_ERROR e) = s\<lparr> ls_generalError := e \<rparr>"
| "loginReducer s START_LOADING = s\<lparr> ls_isLoading := True \<rparr>"
| "loginReducer s STOP_LOADING = s\<lparr> ls_isLoading := False \<rparr>"
| "loginReducer s (ENTER_TWO_FACTOR token message) =
     s\<lparr> ls_mode := SignIn, ls_step := TwoFactor, ls_twoFactorToken := token, ls_twoFactorCode := [],
        ls_generalError := message \<rparr>"
| "loginReducer s CANCEL_TWO_FACTOR =
     s\<lparr> ls_step := Credentials, ls_twoFactorToken := [], ls_twoFactorCode := [], ls_generalError := [] \<rparr>"
| "loginReducer s (SET_TWO_FACTOR_CODE c) = s\<lparr> ls_twoFactorCode := c \<rparr>"
| "loginReducer s TOGGLE_PASSWORD = s\<lparr> ls_showPassword := \<not> ls_showPassword s \<rparr>"
| "loginReducer s TOGGLE_CONFIRM_PASSWORD = s\<lparr> ls_showConfirmPassword := \<not> ls_showConfirmPassword s \<rparr>"
| "loginReducer s (SET_FOCUSED_FIELD f) = s\<lparr> ls_focusedField := f \<rparr>"
| "loginReducer s (ENTER_EMAIL_VERIFICATION email message) =
     s\<lparr> ls_step := EmailVerification, ls_emailVerificationEmail := email, ls_generalError := message,
        ls_isLoading := False \<rparr>"
| "loginReducer s CANCEL_EMAIL_VERIFICATION =
     s\<lparr> ls_step := Credentials, ls_emailVerificationEmail := [], ls_generalError := [] \<rparr>"
| "loginReducer s (RESET initialValues) = createInitialLoginState initialValues"

section \<open>loginAuthHelpers.ts\<close>

definition as_object :: "jval \<Rightarrow> jval option" where
  \<comment> \<open>\<open>typeof v === "object" && v !== null\<close>\<close>
  "as_object v = (case v of Obj _ \<Rightarrow> Some v | Arr _ \<Rightarrow> Some v | _ \<Rightarrow> None)"

definition extractApiCode :: "jval \<Rightarrow> ustr" where
  "extractApiCode payload =
     (case as_object payload of
        None \<Rightarrow> []
      | Some r \<Rightarrow> (case flds r [''code'', ''Code'', ''errorCode'', ''ErrorCode''] of Str s \<Rightarrow> s | _ \<Rightarrow> []))"

definition extractApiMessage :: "jval \<Rightarrow> ustr" where
  "extractApiMessage payload =
     (case as_object payload of
        None \<Rightarrow> []
      | Some r \<Rightarrow> (case flds r [''message'', ''Message'', ''error'', ''Error''] of Str s \<Rightarrow> trim s | _ \<Rightarrow> []))"

definition extractErrorMessage :: "jval \<Rightarrow> ustr \<Rightarrow> ustr \<Rightarrow> ustr" where
  "extractErrorMessage payload fallback backendConnectionMessage =
     (if extractApiCode payload = U ''CONNECTION_REFUSED'' then backendConnectionMessage
      else if includes_any (lower (extractApiMessage payload))
                [''invalid email/phone or password'', ''invalid email or password''] then fallback
      else or_else (extractApiMessage payload) fallback)"

definition toExceptionMessage :: "thrown \<Rightarrow> ustr \<Rightarrow> ustr \<Rightarrow> ustr" where
  "toExceptionMessage e fallbackMessage backendConnectionMessage =
     (case e of
        ThrownValue _ \<Rightarrow> fallbackMessage
      | JsError _ m \<Rightarrow>
          if includes_any m [''Failed to fetch'', ''ERR_CONNECTION_REFUSED''] then backendConnectionMessage else m)"

definition appendDuplicateAccountHint :: "ustr \<Rightarrow> ustr \<Rightarrow> ustr" where
  "appendDuplicateAccountHint message duplicateHintSuffix =
     (let m = lower message in
      if includes_any m [''try logging in'', ''switch to sign in'', ''sign in if you already have an account'']
      then message
      else if includes_any m [''already exists'', ''email address already''] then message @ [32] @ duplicateHintSuffix
      else message)"

definition normalizeTwoFactorCode :: "ustr \<Rightarrow> ustr" where
  "normalizeTwoFactorCode value = filter is_digit value"

definition resolveLoginRole :: "jval \<Rightarrow> role" where
  "resolveLoginRole u = (if resolveHasAdminAccessFromPayload (as_object u) then Admin else RegularUser)"

definition readAuthString :: "jval option \<Rightarrow> string list \<Rightarrow> ustr" where
  "readAuthString payload keys =
     (case payload of
        None \<Rightarrow> []
      | Some p \<Rightarrow> (case find (\<lambda>v. length v > 0) (map (\<lambda>k. readString (fld p k)) keys) of Some s \<Rightarrow> s | None \<Rightarrow> []))"

definition readAuthPermissions :: "jval \<Rightarrow> ustr list" where
  "readAuthPermissions payload =
     (case as_object payload of None \<Rightarrow> [] | Some p \<Rightarrow> resolvePermissions p)"

definition auth_positive_int :: "jval \<Rightarrow> rat option" where
  "auth_positive_int v =
     (case v of
        Num n \<Rightarrow> (case n of Fin r \<Rightarrow> if is_int_rat r \<and> r > 0 then Some r else None | _ \<Rightarrow> None)
      | Str s \<Rightarrow> (case js_parse_int s of Fin r \<Rightarrow> if is_int_rat r \<and> r > 0 then Some r else None | _ \<Rightarrow> None)
      | _ \<Rightarrow> None)"

definition readAuthPositiveInt :: "jval option \<Rightarrow> string list \<Rightarrow> rat option" where
  "readAuthPositiveInt payload keys =
     (case payload of
        None \<Rightarrow> None
      | Some p \<Rightarrow> (case List.map_filter (\<lambda>k. auth_positive_int (fld p k)) keys of [] \<Rightarrow> None | n # _ \<Rightarrow> Some n))"

section \<open>profileState.ts\<close>

definition createProfileForAuthUser :: "user option \<Rightarrow> user_profile" where
  "createProfileForAuthUser u =
     (let text = (\<lambda>f. case u of None \<Rightarrow> [] | Some v \<Rightarrow> f v);
          firstName = text (\<lambda>v. opt_str (user_firstName v)); lastName = text (\<lambda>v. opt_str (user_lastName v));
          displayName = or_else (text user_name) (or_else (trim (firstName @ [32] @ lastName))
            (or_else (text user_email) (U ''Guest'')))
      in \<lparr> profile_id = text user_id, profile_firstName = Some firstName, profile_lastName = Some lastName,
           profile_name = displayName, profile_email = text user_email, profile_phone = [], profile_city = Some [],
           profile_area = Some [], profile_cityId = None, profile_areaId = None, profile_location = [],
           profile_bio = [], profile_avatar = undef_if_empty (text (\<lambda>v. opt_str (user_avatar v))),
           profile_joinedDate = U ''Jan 2024'' \<rparr>)"

definition isOwnedProfileRequestCurrent :: "nat \<Rightarrow> nat \<Rightarrow> ustr \<Rightarrow> ustr \<Rightarrow> bool" where
  "isOwnedProfileRequestCurrent requestRunId currentRunId requestedUserId profileOwnerId \<longleftrightarrow>
     requestRunId = currentRunId \<and> requestedUserId = profileOwnerId"

definition canAdoptProfileForAuthTransition :: "ustr \<Rightarrow> ustr \<Rightarrow> ustr \<Rightarrow> ustr \<Rightarrow> bool" where
  "canAdoptProfileForAuthTransition expectedPreviousOwnerId nextOwnerId profileOwnerId renderedAuthUserId \<longleftrightarrow>
     trim nextOwnerId \<noteq> [] \<and> trim profileOwnerId = trim expectedPreviousOwnerId
     \<and> trim renderedAuthUserId = trim expectedPreviousOwnerId"

end
