(* ===== verification/LoginPage.thy ===== *)
theory LoginPage
  imports LoginForm
begin

text \<open>
  The login page (\<open>features/auth/pages/LoginPage.tsx\<close>) without its rendering: a state machine over
  the form state of \<open>LoginForm\<close>.  Each handler is cut at its awaits; a request under way keeps what
  its closure captured, and everything else can happen before it settles.  Texts of the page's
  language are the parameter \<open>page_copy\<close>, replies are those of \<open>AuthApi\<close>.
\<close>

section \<open>State\<close>

record page_copy =
  backendConnection :: ustr
  unexpected_error :: ustr
  duplicateHintSuffix :: ustr
  signUpIdentifierMustBeEmail :: ustr
  signUpInvalidPhonePrompt :: ustr
  signUpCityRequiredPrompt :: ustr
  signUpAreaRequiredPrompt :: ustr
  registrationFailedFallback :: ustr
  loginFailedFallback :: ustr
  googleAuthFailedFallback :: ustr
  twoFactorRequiredPrompt :: ustr
  twoFactorCodeInvalid :: ustr
  twoFactorSessionExpired :: ustr
  phoneTaken :: ustr
  accountCreated :: ustr
  verifyFirst :: ustr
  linkSent :: ustr
  resendFailed :: ustr
  fileTooLarge :: ustr
  notAnImage :: ustr
  validation_copy :: validation_messages

record login_user =
  lu_id :: "ustr option"
  lu_firstName :: ustr
  lu_lastName :: ustr
  lu_email :: ustr
  lu_phone :: ustr
  lu_city :: ustr
  lu_area :: ustr
  lu_cityId :: "rat option"
  lu_areaId :: "rat option"
  lu_avatar :: "ustr option"
  lu_joinedDate :: jval
  lu_role :: role
  lu_hasAdminAccess :: bool
  lu_permissions :: "ustr list"

datatype origin = Submitted | Resent   \<comment> \<open>whose \<open>finally\<close> follows\<close>

datatype page_request =
    LoginRequest origin login_values
  | SignupRequest login_values ustr bool   \<comment> \<open>the avatar preview, and whether a file was chosen\<close>
  | VerifyRequest ustr ustr login_values   \<comment> \<open>token and code\<close>
  | AvatarRequest login_user
  | CurrentUserRequest origin login_user
  | ResendVerification
  | ChallengeRequest ustr                  \<comment> \<open>the message of the address\<close>

record login_page =
  lp_state :: login_state
  lp_inFlight :: bool               \<comment> \<open>\<open>submitInFlightRef\<close>\<close>
  lp_resendingTwoFactor :: bool
  lp_resendingVerification :: bool
  lp_cooldown :: nat
  lp_avatarPreview :: ustr
  lp_avatarFile :: bool
  lp_local :: storage
  lp_sessionStorage :: storage
  lp_requests :: "page_request list"
  lp_sessions :: "login_user list"  \<comment> \<open>the users handed to \<open>setSession\<close> and \<open>onLogin\<close>, in order\<close>

definition dispatch :: "login_action \<Rightarrow> login_page \<Rightarrow> login_page" where
  "dispatch a p = p\<lparr> lp_state := loginReducer (lp_state p) a \<rparr>"

definition send_request :: "page_request \<Rightarrow> login_page \<Rightarrow> login_page" where
  "send_request r p = p\<lparr> lp_requests := lp_requests p @ [r] \<rparr>"

definition new_page :: "storage \<Rightarrow> storage \<Rightarrow> login_page" where
  "new_page local sessionSt = \<lparr> lp_state = createInitialLoginState [Phone \<mapsto> []], lp_inFlight = False,
     lp_resendingTwoFactor = False, lp_resendingVerification = False, lp_cooldown = 0,
     lp_avatarPreview = [], lp_avatarFile = False, lp_local = local, lp_sessionStorage = sessionSt,
     lp_requests = [], lp_sessions = [] \<rparr>"

section \<open>Readiness and validation\<close>

definition isSignUp :: "login_page \<Rightarrow> bool" where
  "isSignUp p \<longleftrightarrow> ls_mode (lp_state p) = SignUp"

definition validateForSubmit :: "ustr \<Rightarrow> page_copy \<Rightarrow> login_page \<Rightarrow> login_errors" where
  "validateForSubmit phonePrefix c p =
     validateLoginForm phonePrefix (validation_copy c) (ls_values (lp_state p)) (isSignUp p)"

definition canSubmit :: "ustr \<Rightarrow> page_copy \<Rightarrow> login_page \<Rightarrow> bool" where
  "canSubmit phonePrefix c p =
     (let s = lp_state p in
      if ls_isLoading s then False
      else if ls_step s = TwoFactor then length (normalizeTwoFactorCode (ls_twoFactorCode s)) = 6
      else if ls_mode s = SignIn then trim (ls_values s Identifier) \<noteq> [] \<and> ls_values s Password \<noteq> []
      else no_errors (validateForSubmit phonePrefix c p))"

section \<open>Small handlers\<close>

definition handleFieldValueChange :: "login_field \<Rightarrow> ustr \<Rightarrow> login_page \<Rightarrow> login_page" where
  "handleFieldValueChange f v p =
     (let q = dispatch (SET_FIELD f v) p in
      if f = City \<and> v \<noteq> ls_values (lp_state p) City \<and> ls_values (lp_state p) Area \<noteq> []
      then dispatch (SET_FIELD Area []) q else q)"

definition handleFieldBlur :: "ustr \<Rightarrow> page_copy \<Rightarrow> login_field \<Rightarrow> login_page \<Rightarrow> login_page" where
  "handleFieldBlur phonePrefix c f p =
     (let q = dispatch (SET_FOCUSED_FIELD None) p in
      if f = Password \<and> ls_mode (lp_state p) = SignIn then q
      else dispatch (SET_ERROR f (validateLoginField phonePrefix (validation_copy c) f (ls_values (lp_state p)) (isSignUp p))) q)"

definition toggleAuthMode :: "bool \<Rightarrow> login_page \<Rightarrow> login_page" where
  "toggleAuthMode allowSignup p =
     (if \<not> allowSignup \<and> ls_mode (lp_state p) = SignIn then p
      else dispatch (SET_MODE (if isSignUp p then SignIn else SignUp)) p)"

definition handleAvatarUpload :: "page_copy \<Rightarrow> (ustr \<times> int) option \<Rightarrow> ustr \<Rightarrow> login_page \<Rightarrow> login_page" where
  \<comment> \<open>type and size of the chosen file, and the data address the reader yields for it\<close>
  "handleAvatarUpload c file data_url p =
     (case file of
        None \<Rightarrow> p
      | Some (ftype, sz) \<Rightarrow>
          if sz > 10 * 1024 * 1024 then dispatch (SET_GENERAL_ERROR (fileTooLarge c)) p
          else if \<not> starts_with ftype (U ''image/'') then dispatch (SET_GENERAL_ERROR (notAnImage c)) p
          else p\<lparr> lp_avatarPreview := data_url, lp_avatarFile := True \<rparr>)"

definition step_effect :: "login_page \<Rightarrow> login_page" where
  \<comment> \<open>the effect on \<open>state.step\<close>\<close>
  "step_effect p = p\<lparr> lp_cooldown := (if ls_step (lp_state p) = EmailVerification then 60 else 0) \<rparr>"

definition cooldown_tick :: "login_page \<Rightarrow> login_page" where
  "cooldown_tick p = p\<lparr> lp_cooldown := (if lp_cooldown p \<le> 1 then 0 else lp_cooldown p - 1) \<rparr>"

definition handleGoogleAuth :: "bool \<Rightarrow> page_copy \<Rightarrow> login_page \<Rightarrow> login_page \<times> ustr option" where
  \<comment> \<open>with the mode of the address the browser is sent to\<close>
  "handleGoogleAuth enabled c p =
     (if \<not> enabled then (dispatch (SET_GENERAL_ERROR (googleAuthFailedFallback c)) p, None)
      else
        ((dispatch (SET_GENERAL_ERROR []) p)
           \<lparr> lp_local := persistAuthSessionHint (removeItem (lp_local p) AUTH_LOGOUT_KEY) \<rparr>,
         Some (if isSignUp p then U ''signup'' else U ''login'')))"

section \<open>Finishing a sign-in\<close>

definition finish_submit :: "login_page \<Rightarrow> login_page" where
  "finish_submit p = dispatch STOP_LOADING (p\<lparr> lp_inFlight := False \<rparr>)"

definition finish :: "origin \<Rightarrow> login_page \<Rightarrow> login_page" where
  "finish o' p = (case o' of Submitted \<Rightarrow> finish_submit p | Resent \<Rightarrow> p\<lparr> lp_resendingTwoFactor := False \<rparr>)"

definition show_error :: "ustr \<Rightarrow> origin \<Rightarrow> login_page \<Rightarrow> login_page" where
  "show_error e o' p = finish o' (dispatch (SET_GENERAL_ERROR e) p)"

definition finalizeAuthenticatedLogin :: "login_user \<Rightarrow> origin \<Rightarrow> login_page \<Rightarrow> login_page" where
  \<comment> \<open>up to the request for the current user\<close>
  "finalizeAuthenticatedLogin fallbackUser o' p =
     send_request (CurrentUserRequest o' fallbackUser)
       (p\<lparr> lp_local := persistAuthSessionHint (removeItem (lp_local p) AUTH_LOGOUT_KEY) \<rparr>)"

definition refined_user ::
    "jsenv \<Rightarrow> (language \<Rightarrow> int \<Rightarrow> ustr) \<Rightarrow> language \<Rightarrow> jval \<Rightarrow> login_user \<Rightarrow> login_user" where
  \<comment> \<open>the fallback user overridden by what the server says about the current user\<close>
  "refined_user env fmt l authenticatedUser fu =
     (let a = Some authenticatedUser;
          avatar = readAuthString a [''Avatar'', ''avatar''];
          i = readAuthString a [''Id'', ''id'', ''UserID'', ''userID''];
          joined = readAuthString a [''JoinedDate'', ''joinedDate'', ''JoinDate'', ''joinDate'']
      in \<lparr> lu_id = (if i \<noteq> [] then Some i else lu_id fu),
           lu_firstName = or_else (readAuthString a [''FirstName'', ''firstName'']) (lu_firstName fu),
           lu_lastName = or_else (readAuthString a [''LastName'', ''lastName'']) (lu_lastName fu),
           lu_email = or_else (readAuthString a [''Email'', ''email'']) (lu_email fu),
           lu_phone = or_else (readAuthString a [''Phone'', ''phone'']) (lu_phone fu),
           lu_city = or_else (readAuthString a [''City'', ''city'']) (lu_city fu),
           lu_area = or_else (readAuthString a [''Area'', ''area'']) (lu_area fu),
           lu_cityId = (case readAuthPositiveInt a [''CityId'', ''cityId''] of Some n \<Rightarrow> Some n | None \<Rightarrow> lu_cityId fu),
           lu_areaId = (case readAuthPositiveInt a [''AreaId'', ''areaId''] of Some n \<Rightarrow> Some n | None \<Rightarrow> lu_areaId fu),
           lu_avatar = (if avatar \<noteq> [] then Some avatar else lu_avatar fu),
           lu_joinedDate = Str (formatJoinedDateLabel env fmt (if joined \<noteq> [] then Str joined else lu_joinedDate fu) l),
           lu_role = resolveLoginRole authenticatedUser,
           lu_hasAdminAccess = (resolveHasAdminAccessFromPayload (as_object authenticatedUser) \<or> lu_hasAdminAccess fu),
           lu_permissions = (if length (readAuthPermissions authenticatedUser) > 0
                             then readAuthPermissions authenticatedUser else lu_permissions fu) \<rparr>)"

definition session_user :: "login_user \<Rightarrow> user" where
  \<comment> \<open>the argument of \<open>setSession\<close>\<close>
  "session_user u =
     \<lparr> user_id = opt_str (lu_id u), user_email = lu_email u, user_firstName = Some (lu_firstName u),
       user_lastName = Some (lu_lastName u),
       user_name = or_else (trim (lu_firstName u @ [32] @ lu_lastName u)) (lu_email u),
       user_avatar = lu_avatar u, user_role = lu_role u, user_roleName = None,
       user_hasAdminAccess = Some (lu_hasAdminAccess u), user_permissions = Some (lu_permissions u) \<rparr>"

definition current_user_settled ::
    "jsenv \<Rightarrow> (language \<Rightarrow> int \<Rightarrow> ustr) \<Rightarrow> language \<Rightarrow> thrown + api_response \<Rightarrow> origin \<Rightarrow> login_user \<Rightarrow> login_page \<Rightarrow> login_page" where
  "current_user_settled env fmt l reply o' fu p =
     (let u = (case reply of
                 Inr (ApiOk d) \<Rightarrow> (case as_object d of Some a \<Rightarrow> refined_user env fmt l a fu | None \<Rightarrow> fu)
               | _ \<Rightarrow> fu)
      in finish o' (p\<lparr> lp_sessions := lp_sessions p @ [u] \<rparr>))"

section \<open>Signing in\<close>

definition result_json :: "auth_result \<Rightarrow> jval" where
  \<comment> \<open>a failed result as the object the error readers get\<close>
  "result_json r =
     Obj [(U ''success'', Bool (ar_success r)), (U ''message'', opt_jstr (ar_message r)),
          (U ''error'', (case ar_error r of None \<Rightarrow> Undef
             | Some (code, m) \<Rightarrow> Obj [(U ''code'', Str code), (U ''message'', Str m)]))]"

definition user_of :: "auth_result \<Rightarrow> jval" where
  "user_of r = (case ar_user r of None \<Rightarrow> Undef | Some u \<Rightarrow> u)"

definition opt_field :: "jval \<Rightarrow> string \<Rightarrow> ustr option" where
  \<comment> \<open>\<open>user?.key\<close> of a string property\<close>
  "opt_field u k = (case fld u k of Str s \<Rightarrow> Some s | _ \<Rightarrow> None)"

definition text_field :: "jval \<Rightarrow> string \<Rightarrow> ustr \<Rightarrow> ustr" where
  \<comment> \<open>\<open>user?.key || fallback\<close>\<close>
  "text_field u k fallback = or_else (opt_str (opt_field u k)) fallback"

definition fallback_user :: "jval \<Rightarrow> ustr \<Rightarrow> ustr \<Rightarrow> ustr \<Rightarrow> ustr \<Rightarrow> ustr \<Rightarrow> ustr \<Rightarrow> login_user" where
  "fallback_user u firstName lastName email phone city area =
     \<lparr> lu_id = opt_field u ''id'', lu_firstName = text_field u ''firstName'' firstName,
       lu_lastName = text_field u ''lastName'' lastName, lu_email = text_field u ''email'' email,
       lu_phone = text_field u ''phone'' phone, lu_city = text_field u ''city'' city,
       lu_area = text_field u ''area'' area, lu_cityId = None, lu_areaId = None, lu_avatar = opt_field u ''avatar'',
       lu_joinedDate = fld u ''joinedDate'', lu_role = resolveLoginRole u,
       lu_hasAdminAccess = resolveHasAdminAccessFromPayload (as_object u), lu_permissions = readAuthPermissions u \<rparr>"

definition sign_in_fallback :: "login_values \<Rightarrow> auth_result \<Rightarrow> login_user" where
  "sign_in_fallback values r = fallback_user (user_of r) [] [] (trim (values Identifier)) [] [] []"

definition handleSignIn_settled :: "page_copy \<Rightarrow> origin \<Rightarrow> login_values \<Rightarrow> thrown + auth_result \<Rightarrow> login_page \<Rightarrow> login_page" where
  \<comment> \<open>the rest of \<open>handleSignIn\<close>, and of \<open>handleResendTwoFactor\<close>, which does not look for an unverified address\<close>
  "handleSignIn_settled c o' values reply p =
     (case reply of
        Inl e \<Rightarrow> show_error (toExceptionMessage e (unexpected_error c) (backendConnection c)) o' p
      | Inr r \<Rightarrow>
          if \<not> ar_success r then
            (if o' = Submitted \<and> ar_requiresEmailVerification r
             then finish o' (dispatch (ENTER_EMAIL_VERIFICATION (trim (values Identifier))
                    (or_else (opt_str (ar_message r)) (verifyFirst c))) p)
             else show_error (extractErrorMessage (result_json r) (loginFailedFallback c) (backendConnection c)) o' p)
          else if ar_requiresTwoFactor r then
            (if opt_str (ar_twoFactorToken r) = [] then show_error (twoFactorSessionExpired c) o' p
             else finish o' (dispatch (ENTER_TWO_FACTOR (opt_str (ar_twoFactorToken r))
                    (or_else (opt_str (ar_message r)) (twoFactorRequiredPrompt c))) p))
          else finalizeAuthenticatedLogin (sign_in_fallback values r) o' p)"

definition handleTwoFactorVerification_settled ::
    "page_copy \<Rightarrow> login_values \<Rightarrow> thrown + auth_result \<Rightarrow> login_page \<Rightarrow> login_page" where
  "handleTwoFactorVerification_settled c values reply p =
     (case reply of
        Inl e \<Rightarrow> show_error (toExceptionMessage e (twoFactorCodeInvalid c) (backendConnection c)) Submitted p
      | Inr r \<Rightarrow>
          if \<not> ar_success r
          then show_error (extractErrorMessage (result_json r) (twoFactorCodeInvalid c) (backendConnection c)) Submitted p
          else if ar_requiresTwoFactor r then show_error (twoFactorSessionExpired c) Submitted p
          else finalizeAuthenticatedLogin (sign_in_fallback values r) Submitted p)"

section \<open>Signing up\<close>

definition handleSignUp :: "ustr \<Rightarrow> page_copy \<Rightarrow> login_page \<Rightarrow> login_page" where
  "handleSignUp phonePrefix c p =
     (let values = ls_values (lp_state p); ms = validation_copy c;
          refused = (\<lambda>f e m. show_error m Submitted (dispatch (SET_ERROR f e) p))
      in if ai_email (parseAuthIdentifier phonePrefix (values Identifier)) = None
         then refused Identifier (emailInvalid ms) (signUpIdentifierMustBeEmail c)
         else if normalizeJordanPhone phonePrefix (values Phone) = None
         then refused Phone (phoneInvalid ms) (signUpInvalidPhonePrompt c)
         else if trim (values City) = [] then refused City (cityRequired ms) (signUpCityRequiredPrompt c)
         else if trim (values Area) = [] then refused Area (areaRequired ms) (signUpAreaRequiredPrompt c)
         else send_request (SignupRequest values (lp_avatarPreview p) (lp_avatarFile p)) p)"

definition signup_data_of :: "ustr \<Rightarrow> login_values \<Rightarrow> ustr \<Rightarrow> signup_data" where
  \<comment> \<open>the argument of \<open>api.auth.signup\<close>, with the avatar preview\<close>
  "signup_data_of phonePrefix values preview =
     \<lparr> su_firstName = trim (values FirstName), su_lastName = trim (values LastName),
       su_email = opt_str (ai_email (parseAuthIdentifier phonePrefix (values Identifier))),
       su_password = values Password, su_phone = opt_str (normalizeJordanPhone phonePrefix (values Phone)),
       su_city = trim (values City), su_area = trim (values Area), su_bio = [],
       su_avatar = (if starts_with preview (U ''http'') then preview else []) \<rparr>"

definition phone_taken :: "ustr \<Rightarrow> bool" where
  "phone_taken m \<longleftrightarrow> js_includes (lower m) (U ''phone number'')
     \<and> includes_any (lower m) [''already exists'', ''already registered'', ''already in use'']"

definition sign_up_fallback :: "ustr \<Rightarrow> login_values \<Rightarrow> jval \<Rightarrow> login_user" where
  "sign_up_fallback phonePrefix values u =
     fallback_user u (trim (values FirstName)) (trim (values LastName))
       (or_else (opt_str (ai_email (parseAuthIdentifier phonePrefix (values Identifier)))) (trim (values Identifier)))
       (opt_str (normalizeJordanPhone phonePrefix (values Phone))) (trim (values City)) (trim (values Area))"

definition pending_avatar :: "ustr \<Rightarrow> bool \<Rightarrow> login_page \<Rightarrow> storage" where
  "pending_avatar preview chosen p =
     (if chosen \<and> starts_with preview (U ''data:'')
      then setItem (lp_sessionStorage p) (U ''pending_signup_avatar'') preview
      else removeItem (lp_sessionStorage p) (U ''pending_signup_avatar''))"

definition handleSignUp_settled ::
    "ustr \<Rightarrow> page_copy \<Rightarrow> login_values \<Rightarrow> ustr \<Rightarrow> bool \<Rightarrow> thrown + auth_result \<Rightarrow> login_page \<Rightarrow> login_page" where
  "handleSignUp_settled phonePrefix c values preview chosen reply p =
     (case reply of
        Inl e \<Rightarrow> show_error (toExceptionMessage e (unexpected_error c) (backendConnection c)) Submitted p
      | Inr r \<Rightarrow>
          if \<not> ar_success r then
            (let m = appendDuplicateAccountHint
                       (extractErrorMessage (result_json r) (registrationFailedFallback c) (backendConnection c))
                       (duplicateHintSuffix c)
             in show_error m Submitted (if phone_taken m then dispatch (SET_ERROR Phone (phoneTaken c)) p else p))
          else if ar_requiresEmailVerification r then
            finish Submitted (dispatch (ENTER_EMAIL_VERIFICATION
                (or_else (opt_str (ai_email (parseAuthIdentifier phonePrefix (values Identifier)))) (trim (values Identifier)))
                (or_else (opt_str (ar_message r)) (accountCreated c)))
              (p\<lparr> lp_sessionStorage := pending_avatar preview chosen p \<rparr>))
          else
            (let fu = sign_up_fallback phonePrefix values (user_of r)
             in if opt_str (lu_id fu) \<noteq> [] \<and> chosen then send_request (AvatarRequest fu) p
                else finalizeAuthenticatedLogin fu Submitted p))"

definition avatar_settled :: "thrown + ustr option \<Rightarrow> login_user \<Rightarrow> login_page \<Rightarrow> login_page" where
  "avatar_settled reply fu p =
     finalizeAuthenticatedLogin (case reply of Inr url \<Rightarrow> fu\<lparr> lu_avatar := url \<rparr> | Inl e \<Rightarrow> fu) Submitted p"

section \<open>Submitting and resending\<close>

definition handleTwoFactorVerification :: "page_copy \<Rightarrow> login_page \<Rightarrow> login_page" where
  "handleTwoFactorVerification c p =
     (let s = lp_state p in
      if length (normalizeTwoFactorCode (ls_twoFactorCode s)) \<noteq> 6 then show_error (twoFactorCodeInvalid c) Submitted p
      else if trim (ls_twoFactorToken s) = [] then show_error (twoFactorSessionExpired c) Submitted p
      else send_request (VerifyRequest (ls_twoFactorToken s) (normalizeTwoFactorCode (ls_twoFactorCode s)) (ls_values s)) p)"

definition handleSubmit :: "ustr \<Rightarrow> page_copy \<Rightarrow> login_page \<Rightarrow> login_page" where
  "handleSubmit phonePrefix c p =
     (if ls_isLoading (lp_state p) \<or> lp_inFlight p then p
      else
        (let busy = (\<lambda>q. dispatch START_LOADING (q\<lparr> lp_inFlight := True \<rparr>)) in
         if ls_step (lp_state p) = TwoFactor then handleTwoFactorVerification c (busy p)
         else
           (let errors = validateForSubmit phonePrefix c p; q = dispatch (SET_ERRORS errors) p
            in if \<not> no_errors errors then dispatch (SET_GENERAL_ERROR []) q
               else if isSignUp p then handleSignUp phonePrefix c (busy q)
               else send_request (LoginRequest Submitted (ls_values (lp_state p))) (busy q))))"

definition handleResendTwoFactor :: "login_page \<Rightarrow> login_page" where
  "handleResendTwoFactor p =
     (let s = lp_state p in
      if ls_isLoading s \<or> lp_resendingTwoFactor p \<or> trim (ls_values s Identifier) = [] \<or> ls_values s Password = []
      then p
      else send_request (LoginRequest Resent (ls_values s))
             (dispatch (SET_GENERAL_ERROR []) (p\<lparr> lp_resendingTwoFactor := True \<rparr>)))"

definition handleResendVerification :: "login_page \<Rightarrow> login_page" where
  "handleResendVerification p =
     (if lp_resendingVerification p \<or> lp_cooldown p > 0 \<or> ls_emailVerificationEmail (lp_state p) = [] then p
      else send_request ResendVerification
             (dispatch (SET_GENERAL_ERROR []) (p\<lparr> lp_resendingVerification := True \<rparr>)))"

definition resend_verification_settled :: "page_copy \<Rightarrow> thrown + auth_result \<Rightarrow> login_page \<Rightarrow> login_page" where
  "resend_verification_settled c reply p =
     (case reply of
        Inl e \<Rightarrow> (dispatch (SET_GENERAL_ERROR (resendFailed c)) p)\<lparr> lp_resendingVerification := False \<rparr>
      | Inr r \<Rightarrow>
          (dispatch (SET_GENERAL_ERROR (or_else (opt_str (ar_message r)) (linkSent c))) p)
            \<lparr> lp_cooldown := 60, lp_resendingVerification := False \<rparr>)"

definition url_effect :: "page_copy \<Rightarrow> url_params \<Rightarrow> login_page \<Rightarrow> login_page \<times> url_params" where
  \<comment> \<open>the effect on the query string, with the query it leaves in the address\<close>
  "url_effect c params p =
     (let googleError = opt_str (sp_get params (U ''googleError''));
          required = sp_get params (U ''twoFactorRequired'');
          token = opt_str (sp_get params (U ''twoFactorToken''));
          message = opt_str (sp_get params (U ''twoFactorMessage''));
          p1 = (if googleError = [] then p
                else dispatch (SET_GENERAL_ERROR (or_else (trim googleError) (googleAuthFailedFallback c))) p);
          p2 = (if required \<noteq> Some (U ''1'') then p1
                else if token \<noteq> []
                then dispatch (ENTER_TWO_FACTOR (trim token) (or_else (trim message) (twoFactorRequiredPrompt c))) p1
                else send_request (ChallengeRequest message) p1)
      in (p2, if googleError = [] \<and> opt_str required = [] then params
              else fold (\<lambda>k q. sp_delete q (U k))
                     [''googleError'', ''twoFactorRequired'', ''twoFactorToken'', ''twoFactorMessage''] params))"

definition challenge_settled :: "page_copy \<Rightarrow> ustr \<Rightarrow> thrown + auth_result \<Rightarrow> login_page \<Rightarrow> login_page" where
  \<comment> \<open>a rejected promise is left unhandled\<close>
  "challenge_settled c message reply p =
     (case reply of
        Inl e \<Rightarrow> p
      | Inr r \<Rightarrow>
          if ar_success r \<and> opt_str (ar_twoFactorToken r) \<noteq> []
          then dispatch (ENTER_TWO_FACTOR (opt_str (ar_twoFactorToken r))
                 (or_else (trim message) (or_else (opt_str (ar_message r)) (twoFactorRequiredPrompt c)))) p
          else dispatch (SET_GENERAL_ERROR (or_else (opt_str (ar_message r))
                 (U ''Failed to retrieve two-factor challenge.''))) p)"

section \<open>Runs\<close>

record page_setup =
  ps_prefix :: ustr
  ps_copy :: page_copy
  ps_env :: jsenv
  ps_format :: "language \<Rightarrow> int \<Rightarrow> ustr"
  ps_language :: language
  ps_allowSignup :: bool
  ps_googleAuth :: bool

datatype page_reply = AuthReply "thrown + auth_result" | UserReply "thrown + api_response" | UploadReply "thrown + ustr option"

definition request_settled :: "page_setup \<Rightarrow> page_request \<Rightarrow> page_reply \<Rightarrow> login_page \<Rightarrow> login_page" where
  \<comment> \<open>what follows the await of a request\<close>
  "request_settled st r reply p =
     (case reply of
        AuthReply a \<Rightarrow>
          (case r of
             LoginRequest og values \<Rightarrow> handleSignIn_settled (ps_copy st) og values a p
           | SignupRequest values preview chosen \<Rightarrow>
               handleSignUp_settled (ps_prefix st) (ps_copy st) values preview chosen a p
           | VerifyRequest t k values \<Rightarrow> handleTwoFactorVerification_settled (ps_copy st) values a p
           | ResendVerification \<Rightarrow> resend_verification_settled (ps_copy st) a p
           | ChallengeRequest m \<Rightarrow> challenge_settled (ps_copy st) m a p
           | _ \<Rightarrow> p)
      | UserReply a \<Rightarrow>
          (case r of
             CurrentUserRequest og fu \<Rightarrow> current_user_settled (ps_env st) (ps_format st) (ps_language st) a og fu p
           | _ \<Rightarrow> p)
      | UploadReply a \<Rightarrow> (case r of AvatarRequest fu \<Rightarrow> avatar_settled a fu p | _ \<Rightarrow> p))"

fun answers :: "page_request \<Rightarrow> page_reply \<Rightarrow> bool" where
  \<comment> \<open>the kind of reply a request gets\<close>
  "answers (CurrentUserRequest _ _) reply \<longleftrightarrow> (case reply of UserReply _ \<Rightarrow> True | _ \<Rightarrow> False)"
| "answers (AvatarRequest _) reply \<longleftrightarrow> (case reply of UploadReply _ \<Rightarrow> True | _ \<Rightarrow> False)"
| "answers _ reply \<longleftrightarrow> (case reply of AuthReply _ \<Rightarrow> True | _ \<Rightarrow> False)"

definition remove_at :: "nat \<Rightarrow> 'a list \<Rightarrow> 'a list" where
  "remove_at i xs = take i xs @ drop (Suc i) xs"

datatype page_event =
    FieldChanged login_field ustr
  | FieldFocused login_field
  | FieldBlurred login_field
  | CodeChanged ustr
  | PasswordToggled
  | ConfirmPasswordToggled
  | ModeToggled
  | AvatarChosen "(ustr \<times> int) option" ustr
  | GoogleChosen
  | TwoFactorCancelled
  | EmailVerificationCancelled
  | FormSubmitted
  | CodeResent
  | LinkResent
  | SecondPassed
  | QueryRead url_params
  | Settled nat page_reply

definition page_handler :: "page_setup \<Rightarrow> page_event \<Rightarrow> login_page \<Rightarrow> login_page" where
  "page_handler st e p =
     (case e of
        FieldChanged f v \<Rightarrow> handleFieldValueChange f v p
      | FieldFocused f \<Rightarrow> dispatch (SET_FOCUSED_FIELD (Some f)) p
      | FieldBlurred f \<Rightarrow> handleFieldBlur (ps_prefix st) (ps_copy st) f p
      | CodeChanged v \<Rightarrow> dispatch (SET_TWO_FACTOR_CODE (normalizeTwoFactorCode v)) p
      | PasswordToggled \<Rightarrow> dispatch TOGGLE_PASSWORD p
      | ConfirmPasswordToggled \<Rightarrow> dispatch TOGGLE_CONFIRM_PASSWORD p
      | ModeToggled \<Rightarrow> toggleAuthMode (ps_allowSignup st) p
      | AvatarChosen file url \<Rightarrow> handleAvatarUpload (ps_copy st) file url p
      | GoogleChosen \<Rightarrow> fst (handleGoogleAuth (ps_googleAuth st) (ps_copy st) p)
      | TwoFactorCancelled \<Rightarrow> dispatch CANCEL_TWO_FACTOR p
      | EmailVerificationCancelled \<Rightarrow> dispatch CANCEL_EMAIL_VERIFICATION p
      | FormSubmitted \<Rightarrow> handleSubmit (ps_prefix st) (ps_copy st) p
      | CodeResent \<Rightarrow> handleResendTwoFactor p
      | LinkResent \<Rightarrow> handleResendVerification p
      | SecondPassed \<Rightarrow> cooldown_tick p
      | QueryRead params \<Rightarrow> fst (url_effect (ps_copy st) params p)
      | Settled i reply \<Rightarrow>
          if i < length (lp_requests p) \<and> answers (lp_requests p ! i) reply
          then request_settled st (lp_requests p ! i) reply (p\<lparr> lp_requests := remove_at i (lp_requests p) \<rparr>)
          else p)"

definition page_step :: "page_setup \<Rightarrow> page_event \<Rightarrow> login_page \<Rightarrow> login_page" where
  \<comment> \<open>the handler, then the effect of a changed step\<close>
  "page_step st e p =
     (let q = page_handler st e p in if ls_step (lp_state q) = ls_step (lp_state p) then q else step_effect q)"

definition page_run :: "page_setup \<Rightarrow> page_event list \<Rightarrow> login_page \<Rightarrow> login_page" where
  "page_run st es p = fold (page_step st) es p"

section \<open>The invariant\<close>

fun of_submit :: "page_request \<Rightarrow> bool" where
  \<comment> \<open>the request belongs to the submission under way\<close>
  "of_submit (LoginRequest og _) \<longleftrightarrow> og = Submitted"
| "of_submit (CurrentUserRequest og _) \<longleftrightarrow> og = Submitted"
| "of_submit ResendVerification \<longleftrightarrow> False"
| "of_submit (ChallengeRequest _) \<longleftrightarrow> False"
| "of_submit _ \<longleftrightarrow> True"

fun of_resend :: "page_request \<Rightarrow> bool" where
  "of_resend (LoginRequest og _) \<longleftrightarrow> og = Resent"
| "of_resend (CurrentUserRequest og _) \<longleftrightarrow> og = Resent"
| "of_resend _ \<longleftrightarrow> False"

definition signup_data_ok :: "ustr \<Rightarrow> login_values \<Rightarrow> bool" where
  "signup_data_ok phonePrefix v \<longleftrightarrow>
     (let d = signup_data_of phonePrefix v [] in
      su_firstName d \<noteq> [] \<and> su_lastName d \<noteq> [] \<and> su_city d \<noteq> [] \<and> su_area d \<noteq> []
      \<and> ai_email (parseAuthIdentifier phonePrefix (v Identifier)) = Some (su_email d)
      \<and> normalizeJordanPhone phonePrefix (v Phone) = Some (su_phone d)
      \<and> ps_score (calculatePasswordStrength (su_password d)) = 100 \<and> v ConfirmPassword = su_password d)"

fun request_valid :: "ustr \<Rightarrow> page_request \<Rightarrow> bool" where
  "request_valid phonePrefix (SignupRequest v _ _) \<longleftrightarrow> signup_data_ok phonePrefix v"
| "request_valid phonePrefix (VerifyRequest token code _) \<longleftrightarrow>
     trim token \<noteq> [] \<and> length code = 6 \<and> list_all is_digit code"
| "request_valid phonePrefix (LoginRequest _ v) \<longleftrightarrow> trim (v Identifier) \<noteq> [] \<and> v Password \<noteq> []"
| "request_valid phonePrefix _ \<longleftrightarrow> True"

definition pending :: "(page_request \<Rightarrow> bool) \<Rightarrow> login_page \<Rightarrow> nat" where
  "pending P p = length (filter P (lp_requests p))"

definition page_owes :: "page_setup \<Rightarrow> page_request list \<Rightarrow> login_page \<Rightarrow> bool" where
  \<comment> \<open>the invariant, where the requests of the first list have settled but not been finished\<close>
  "page_owes st rs p \<longleftrightarrow>
     pending of_submit p + length (filter of_submit rs) = of_bool (lp_inFlight p)
     \<and> pending of_resend p + length (filter of_resend rs) = of_bool (lp_resendingTwoFactor p)
     \<and> pending (\<lambda>r. r = ResendVerification) p + length (filter (\<lambda>r. r = ResendVerification) rs)
         = of_bool (lp_resendingVerification p)
     \<and> ls_isLoading (lp_state p) = lp_inFlight p \<and> lp_cooldown p \<le> 60
     \<and> list_all (request_valid (ps_prefix st)) (lp_requests p)"

definition messages_given :: "validation_messages \<Rightarrow> bool" where
  \<comment> \<open>no message of the validation is blank\<close>
  "messages_given ms \<longleftrightarrow>
     list_all (\<lambda>m. m \<noteq> []) [identifierRequired ms, emailRequired ms, emailInvalid ms, passwordRequired ms,
       passwordMinLength ms, passwordUppercase ms, passwordLowercase ms, passwordNumber ms, passwordSpecial ms,
       confirmPasswordRequired ms, confirmPasswordMismatch ms, firstNameRequired ms, lastNameRequired ms,
       phoneRequired ms, phoneInvalid ms, cityRequired ms, areaRequired ms]"

lemma validated_password:
  "validatePassword ms True v = [] \<Longrightarrow> messages_given ms \<Longrightarrow> ps_score (calculatePasswordStrength v) = 100"
  by (simp add: validatePassword_def messages_given_def calculatePasswordStrength_def met_requirements_def
      password_requirements_def split: if_splits)

lemma required_text_iff: "m \<noteq> [] \<Longrightarrow> required_text m v = [] \<longleftrightarrow> trim v \<noteq> []"
  by (simp add: required_text_def)

lemma validated_identifier:
  "validateIdentifier phonePrefix ms True v = [] \<Longrightarrow> messages_given ms \<Longrightarrow>
     \<exists>e. ai_email (parseAuthIdentifier phonePrefix v) = Some e"
  by (simp add: validateIdentifier_def messages_given_def split: if_splits)

lemma validated_phone:
  "validatePhone phonePrefix ms v = [] \<Longrightarrow> messages_given ms \<Longrightarrow> \<exists>n. normalizeJordanPhone phonePrefix v = Some n"
  by (simp add: validatePhone_def messages_given_def split: if_splits)

lemma validated_confirmation:
  "validateConfirmPassword ms v x = [] \<Longrightarrow> messages_given ms \<Longrightarrow> x = v Password"
  by (simp add: validateConfirmPassword_def messages_given_def split: if_splits)

lemma validated_sign_up:
  assumes "no_errors (validateLoginForm phonePrefix ms v True)" and "messages_given ms"
  shows "signup_data_ok phonePrefix v"
proof -
  note v = assms(1) [unfolded no_errors_def login_fields_def validateLoginForm_def Let_def]
  have fields: "validateIdentifier phonePrefix ms True (v Identifier) = []" "validatePassword ms True (v Password) = []"
    "validateConfirmPassword ms v (v ConfirmPassword) = []" "required_text (firstNameRequired ms) (v FirstName) = []"
    "required_text (lastNameRequired ms) (v LastName) = []" "validatePhone phonePrefix ms (v Phone) = []"
    "required_text (cityRequired ms) (v City) = []" "required_text (areaRequired ms) (v Area) = []"
    using v by simp_all
  have "firstNameRequired ms \<noteq> []" "lastNameRequired ms \<noteq> []" "cityRequired ms \<noteq> []" "areaRequired ms \<noteq> []"
    using assms(2) by (simp_all add: messages_given_def)
  with fields have "trim (v FirstName) \<noteq> []" "trim (v LastName) \<noteq> []" "trim (v City) \<noteq> []" "trim (v Area) \<noteq> []"
    by (simp_all add: required_text_iff)
  moreover obtain e where "ai_email (parseAuthIdentifier phonePrefix (v Identifier)) = Some e"
    using validated_identifier [OF fields(1) assms(2)] by blast
  moreover obtain n where "normalizeJordanPhone phonePrefix (v Phone) = Some n"
    using validated_phone [OF fields(6) assms(2)] by blast
  ultimately show ?thesis
    using validated_password [OF fields(2) assms(2)] validated_confirmation [OF fields(3) assms(2)]
    by (simp add: signup_data_ok_def signup_data_of_def Let_def)
qed

lemma validated_sign_in:
  "no_errors (validateLoginForm phonePrefix ms v False) \<Longrightarrow> messages_given ms \<Longrightarrow>
     trim (v Identifier) \<noteq> [] \<and> v Password \<noteq> []"
  by (auto simp: no_errors_def login_fields_def validateLoginForm_def validateIdentifier_def validatePassword_def
      messages_given_def split: if_splits)

lemma digits_of_code: "list_all is_digit (normalizeTwoFactorCode v)"
  by (simp add: normalizeTwoFactorCode_def list_all_iff)

subsection \<open>What the pieces of a handler change\<close>

lemma dispatch_frame [simp]:
  "lp_inFlight (dispatch a p) = lp_inFlight p" "lp_resendingTwoFactor (dispatch a p) = lp_resendingTwoFactor p"
  "lp_resendingVerification (dispatch a p) = lp_resendingVerification p" "lp_cooldown (dispatch a p) = lp_cooldown p"
  "lp_requests (dispatch a p) = lp_requests p" "lp_sessions (dispatch a p) = lp_sessions p"
  "lp_avatarPreview (dispatch a p) = lp_avatarPreview p" "lp_avatarFile (dispatch a p) = lp_avatarFile p"
  "lp_state (dispatch a p) = loginReducer (lp_state p) a"
  by (simp_all add: dispatch_def)

fun keeps_loading :: "login_action \<Rightarrow> bool" where
  "keeps_loading START_LOADING \<longleftrightarrow> False"
| "keeps_loading STOP_LOADING \<longleftrightarrow> False"
| "keeps_loading (ENTER_EMAIL_VERIFICATION _ _) \<longleftrightarrow> False"
| "keeps_loading (RESET _) \<longleftrightarrow> False"
| "keeps_loading _ \<longleftrightarrow> True"

lemma reducer_keeps_loading [simp]: "keeps_loading a \<Longrightarrow> ls_isLoading (loginReducer s a) = ls_isLoading s"
  by (cases a) simp_all

lemma owes_dispatch [simp]: "keeps_loading a \<Longrightarrow> page_owes st rs (dispatch a p) = page_owes st rs p"
  by (simp add: page_owes_def pending_def)

lemma owes_fields [simp]:
  "page_owes st rs (p\<lparr> lp_sessions := us \<rparr>) = page_owes st rs p"
  "page_owes st rs (p\<lparr> lp_local := kv \<rparr>) = page_owes st rs p"
  "page_owes st rs (p\<lparr> lp_sessionStorage := kv \<rparr>) = page_owes st rs p"
  "page_owes st rs (p\<lparr> lp_avatarPreview := a, lp_avatarFile := b \<rparr>) = page_owes st rs p"
  by (simp_all add: page_owes_def pending_def)

lemma owes_send_request:
  "page_owes st (r # rs) p \<Longrightarrow> request_valid (ps_prefix st) r \<Longrightarrow> page_owes st rs (send_request r p)"
  by (cases "of_submit r"; cases "of_resend r"; cases "r = ResendVerification")
    (simp_all add: page_owes_def pending_def send_request_def)

lemma owes_same_kind:
  "of_submit r = of_submit r' \<Longrightarrow> of_resend r = of_resend r' \<Longrightarrow> (r = ResendVerification) = (r' = ResendVerification) \<Longrightarrow>
     page_owes st (r # rs) p = page_owes st (r' # rs) p"
  by (simp add: page_owes_def)

lemma owes_no_kind:
  "\<not> of_submit r \<Longrightarrow> \<not> of_resend r \<Longrightarrow> r \<noteq> ResendVerification \<Longrightarrow> page_owes st (r # rs) p = page_owes st rs p"
  by (simp add: page_owes_def)

text \<open>A request of either origin stands for every request of that origin.\<close>

abbreviation owed :: "origin \<Rightarrow> page_request" where
  "owed og \<equiv> LoginRequest og (\<lambda>_. [])"

lemma finish_step [simp]: "ls_step (lp_state (finish og p)) = ls_step (lp_state p)"
  by (cases og) (simp_all add: finish_def finish_submit_def)

lemma owes_finish: "page_owes st [owed og] p \<Longrightarrow> page_owes st [] (finish og p)"
  by (cases og; cases "lp_inFlight p"; cases "lp_resendingTwoFactor p")
    (simp_all add: page_owes_def pending_def finish_def finish_submit_def)

lemma owes_show_error: "page_owes st [owed og] p \<Longrightarrow> page_owes st [] (show_error m og p)"
  unfolding show_error_def by (rule owes_finish) simp

lemma owes_verification:
  "page_owes st [owed Submitted] p \<Longrightarrow> page_owes st [] (finish Submitted (dispatch (ENTER_EMAIL_VERIFICATION a m) p))"
  by (cases "lp_inFlight p") (simp_all add: page_owes_def pending_def finish_def finish_submit_def)

lemma owes_finalize: "page_owes st [owed og] p \<Longrightarrow> page_owes st [] (finalizeAuthenticatedLogin u og p)"
  unfolding finalizeAuthenticatedLogin_def
  by (rule owes_send_request) (simp_all add: owes_same_kind [of "CurrentUserRequest og u" "owed og"])

subsection \<open>Settled requests\<close>

lemma owes_sign_in:
  assumes "page_owes st [owed og] p" shows "page_owes st [] (handleSignIn_settled c og v reply p)"
proof (cases og)
  case Submitted
  with assms show ?thesis
    by (auto simp: handleSignIn_settled_def intro: owes_show_error owes_verification owes_finalize owes_finish split: sum.split)
next
  case Resent
  with assms show ?thesis
    by (auto simp: handleSignIn_settled_def intro: owes_show_error owes_finalize owes_finish split: sum.split)
qed

lemma owes_two_factor:
  "page_owes st [owed Submitted] p \<Longrightarrow> page_owes st [] (handleTwoFactorVerification_settled c v reply p)"
  by (auto simp: handleTwoFactorVerification_settled_def intro: owes_show_error owes_finalize split: sum.split)

lemma owes_sign_up:
  assumes "page_owes st [owed Submitted] p"
  shows "page_owes st [] (handleSignUp_settled phonePrefix c v preview chosen reply p)"
proof -
  have avatar: "page_owes st [] (send_request (AvatarRequest u) p)" for u
    using assms by (intro owes_send_request) (simp_all add: owes_same_kind [of "AvatarRequest u" "owed Submitted"])
  show ?thesis
    using assms
    by (auto simp: handleSignUp_settled_def Let_def intro: owes_show_error owes_verification owes_finalize avatar split: sum.split)
qed

lemma owes_current_user:
  "page_owes st [owed og] p \<Longrightarrow> page_owes st [] (current_user_settled env fmt l reply og u p)"
  unfolding current_user_settled_def Let_def by (rule owes_finish) simp

lemma owes_resend_verification:
  "page_owes st [ResendVerification] p \<Longrightarrow> page_owes st [] (resend_verification_settled c reply p)"
  by (cases "lp_resendingVerification p")
    (auto simp: resend_verification_settled_def page_owes_def pending_def split: sum.split)

lemma owes_settled:
  assumes "page_owes st [r] p" and "answers r reply"
  shows "page_owes st [] (request_settled st r reply p)"
proof (cases r)
  case (LoginRequest og v)
  with assms show ?thesis
    by (auto simp: request_settled_def owes_same_kind [of "LoginRequest og v" "owed og"] intro: owes_sign_in split: page_reply.splits)
next
  case (SignupRequest v x y)
  with assms show ?thesis
    by (auto simp: request_settled_def owes_same_kind [of "SignupRequest v x y" "owed Submitted"] intro: owes_sign_up split: page_reply.splits)
next
  case (VerifyRequest t k v)
  with assms show ?thesis
    by (auto simp: request_settled_def owes_same_kind [of "VerifyRequest t k v" "owed Submitted"] intro: owes_two_factor split: page_reply.splits)
next
  case (AvatarRequest u)
  with assms show ?thesis
    by (auto simp: request_settled_def avatar_settled_def owes_same_kind [of "AvatarRequest u" "owed Submitted"] intro: owes_finalize
        split: page_reply.splits)
next
  case (CurrentUserRequest og u)
  with assms show ?thesis
    by (auto simp: request_settled_def owes_same_kind [of "CurrentUserRequest og u" "owed og"] intro: owes_current_user split: page_reply.splits)
next
  case ResendVerification
  with assms show ?thesis
    by (auto simp: request_settled_def intro: owes_resend_verification split: page_reply.splits)
next
  case (ChallengeRequest m)
  with assms show ?thesis
    by (auto simp: request_settled_def challenge_settled_def owes_no_kind split: page_reply.splits sum.splits)
qed

subsection \<open>Handlers\<close>

definition busy_page :: "login_page \<Rightarrow> login_page" where
  \<comment> \<open>the page once \<open>handleSubmit\<close> has taken the submission\<close>
  "busy_page p = dispatch START_LOADING (p\<lparr> lp_inFlight := True \<rparr>)"

lemma busy_page_sel [simp]:
  "ls_values (lp_state (busy_page p)) = ls_values (lp_state p)" "ls_step (lp_state (busy_page p)) = ls_step (lp_state p)"
  "ls_twoFactorToken (lp_state (busy_page p)) = ls_twoFactorToken (lp_state p)"
  "ls_twoFactorCode (lp_state (busy_page p)) = ls_twoFactorCode (lp_state p)"
  by (simp_all add: busy_page_def)

lemma owes_busy: "page_owes st [] p \<Longrightarrow> \<not> lp_inFlight p \<Longrightarrow> page_owes st [owed Submitted] (busy_page p)"
  by (simp add: page_owes_def pending_def busy_page_def)

lemma owes_send_submit:
  "page_owes st [owed Submitted] p \<Longrightarrow> of_submit r \<Longrightarrow> \<not> of_resend r \<Longrightarrow> request_valid (ps_prefix st) r \<Longrightarrow>
     page_owes st [] (send_request r p)"
  by (rule owes_send_request) (auto simp: page_owes_def)

lemma owes_verify_code: "page_owes st [owed Submitted] p \<Longrightarrow> page_owes st [] (handleTwoFactorVerification c p)"
  by (auto simp: handleTwoFactorVerification_def Let_def digits_of_code intro: owes_show_error owes_send_submit)

lemma owes_sign_up_sent:
  "page_owes st [owed Submitted] p \<Longrightarrow> signup_data_ok (ps_prefix st) (ls_values (lp_state p)) \<Longrightarrow>
     page_owes st [] (handleSignUp phonePrefix c p)"
  by (auto simp: handleSignUp_def Let_def intro: owes_show_error owes_send_submit)

lemma owes_submit:
  assumes p: "page_owes st [] p" and ms: "messages_given (validation_copy c)"
  shows "page_owes st [] (handleSubmit (ps_prefix st) c p)"
proof (cases "ls_isLoading (lp_state p) \<or> lp_inFlight p")
  case True
  then show ?thesis using p by (auto simp: handleSubmit_def)
next
  case False
  let ?errors = "validateForSubmit (ps_prefix st) c p"
  let ?q = "dispatch (SET_ERRORS ?errors) p"
  have q: "page_owes st [] ?q" "\<not> lp_inFlight ?q" "ls_values (lp_state ?q) = ls_values (lp_state p)"
    using p False by simp_all
  show ?thesis
  proof (cases "ls_step (lp_state p) = TwoFactor \<or> \<not> no_errors ?errors")
    case True
    then show ?thesis
      using p q(1) False owes_verify_code [OF owes_busy [OF p]]
      by (auto simp: handleSubmit_def busy_page_def Let_def)
  next
    case valid: False
    show ?thesis
    proof (cases "isSignUp p")
      case True
      then have "signup_data_ok (ps_prefix st) (ls_values (lp_state p))"
        using valid ms by (auto simp: validateForSubmit_def intro: validated_sign_up)
      then have "page_owes st [] (handleSignUp (ps_prefix st) c (busy_page ?q))"
        using q by (intro owes_sign_up_sent owes_busy) simp_all
      then show ?thesis using False valid True by (simp add: handleSubmit_def busy_page_def Let_def)
    next
      case signIn: False
      then have "page_owes st [] (send_request (LoginRequest Submitted (ls_values (lp_state p))) (busy_page ?q))"
        using q valid ms validated_sign_in
        by (intro owes_send_submit owes_busy) (auto simp: validateForSubmit_def)
      then show ?thesis using False valid signIn by (simp add: handleSubmit_def busy_page_def Let_def)
    qed
  qed
qed

lemma owes_resend_code:
  assumes "page_owes st [] p" shows "page_owes st [] (handleResendTwoFactor p)"
proof -
  have "page_owes st [owed Resent] (p\<lparr> lp_resendingTwoFactor := True \<rparr>)" if "\<not> lp_resendingTwoFactor p"
    using assms that by (simp add: page_owes_def pending_def)
  then have "page_owes st [] (send_request (LoginRequest Resent v) (dispatch (SET_GENERAL_ERROR []) (p\<lparr> lp_resendingTwoFactor := True \<rparr>)))"
    if "\<not> lp_resendingTwoFactor p" "trim (v Identifier) \<noteq> []" "v Password \<noteq> []" for v
    using that by (intro owes_send_request) (simp_all add: owes_same_kind [of "LoginRequest Resent v" "owed Resent"])
  then show ?thesis using assms by (auto simp: handleResendTwoFactor_def Let_def)
qed

lemma owes_resend_link:
  assumes "page_owes st [] p" shows "page_owes st [] (handleResendVerification p)"
proof -
  have "page_owes st [ResendVerification] (p\<lparr> lp_resendingVerification := True \<rparr>)" if "\<not> lp_resendingVerification p"
    using assms that by (simp add: page_owes_def pending_def)
  then have "page_owes st [] (send_request ResendVerification
      (dispatch (SET_GENERAL_ERROR []) (p\<lparr> lp_resendingVerification := True \<rparr>)))" if "\<not> lp_resendingVerification p"
    using that by (intro owes_send_request) simp_all
  then show ?thesis using assms by (auto simp: handleResendVerification_def)
qed

lemma owes_query: "page_owes st [] p \<Longrightarrow> page_owes st [] (fst (url_effect c params p))"
  by (auto simp: url_effect_def Let_def owes_no_kind intro!: owes_send_request)

lemma owes_take_at:
  assumes "page_owes st [] p" and i: "i < length (lp_requests p)"
  shows "page_owes st [lp_requests p ! i] (p\<lparr> lp_requests := remove_at i (lp_requests p) \<rparr>)"
proof -
  have split: "lp_requests p = take i (lp_requests p) @ lp_requests p ! i # drop (Suc i) (lp_requests p)"
    using i by (rule id_take_nth_drop)
  let ?p = "p\<lparr> lp_requests := remove_at i (lp_requests p) \<rparr>"
  have "length (filter P (remove_at i (lp_requests p))) + length (filter P [lp_requests p ! i])
      = length (filter P (lp_requests p))" for P
    by (subst (3) split) (simp add: remove_at_def)
  then have count: "pending P ?p + length (filter P [lp_requests p ! i]) = pending P p" for P
    by (simp add: pending_def)
  have valid: "list_all Q (remove_at i (lp_requests p))" if "list_all Q (lp_requests p)" for Q
    using that by (auto simp: list_all_iff remove_at_def dest: in_set_takeD in_set_dropD)
  show ?thesis
    using assms(1) unfolding page_owes_def count by (simp add: valid)
qed

lemma owes_small:
  assumes "page_owes st [] p"
  shows "page_owes st [] (handleFieldValueChange f v p)" "page_owes st [] (handleFieldBlur phonePrefix c f p)"
    "page_owes st [] (toggleAuthMode allow p)" "page_owes st [] (handleAvatarUpload c file url p)"
    "page_owes st [] (fst (handleGoogleAuth enabled c p))" "page_owes st [] (cooldown_tick p)"
    "page_owes st [] (step_effect p)"
  using assms
  by (simp_all add: handleFieldValueChange_def handleFieldBlur_def toggleAuthMode_def handleAvatarUpload_def
      handleGoogleAuth_def Let_def split: option.split)
    (auto simp: page_owes_def pending_def cooldown_tick_def step_effect_def)

lemma owes_page_step:
  assumes p: "page_owes st [] p" and ms: "messages_given (validation_copy (ps_copy st))"
  shows "page_owes st [] (page_step st e p)"
proof -
  have "page_owes st [] (page_handler st e p)"
    using p owes_submit [OF p ms] owes_settled [OF owes_take_at [OF p]]
    by (cases e) (simp_all add: page_handler_def owes_small owes_resend_code owes_resend_link owes_query)
  then show ?thesis by (simp add: page_step_def Let_def owes_small)
qed

lemma owes_page_run:
  "page_owes st [] p \<Longrightarrow> messages_given (validation_copy (ps_copy st)) \<Longrightarrow> page_owes st [] (page_run st es p)"
  unfolding page_run_def by (induction es arbitrary: p) (simp_all add: owes_page_step)

lemma owes_new_page: "page_owes st [] (new_page kv sv)"
  by (simp add: page_owes_def pending_def new_page_def createInitialLoginState_def)

section \<open>A sample page\<close>

definition sample_copy :: page_copy where
  "sample_copy = \<lparr> backendConnection = U ''offline'', unexpected_error = U ''unexpected'', duplicateHintSuffix = U ''sign in'',
     signUpIdentifierMustBeEmail = U ''email'', signUpInvalidPhonePrompt = U ''phone'', signUpCityRequiredPrompt = U ''city'',
     signUpAreaRequiredPrompt = U ''area'', registrationFailedFallback = U ''failed'', loginFailedFallback = U ''wrong'',
     googleAuthFailedFallback = U ''google'', twoFactorRequiredPrompt = U ''code'', twoFactorCodeInvalid = U ''invalid'',
     twoFactorSessionExpired = U ''expired'', phoneTaken = U ''taken'', accountCreated = U ''created'',
     verifyFirst = U ''verify'', linkSent = U ''sent'', resendFailed = U ''not sent'', fileTooLarge = U ''large'',
     notAnImage = U ''image'', validation_copy = DEFAULT_LOGIN_VALIDATION_MESSAGES \<rparr>"

definition sample_setup :: page_setup where
  "sample_setup = \<lparr> ps_prefix = U ''+962'', ps_copy = sample_copy, ps_env = ref_env, ps_format = (\<lambda>_ _. U ''Jan 2024''),
     ps_language = En, ps_allowSignup = True, ps_googleAuth = True \<rparr>"

definition sample_sign_in :: "page_event list" where
  "sample_sign_in = [FieldChanged Identifier (U ''a@b.jo''), FieldChanged Password (U ''12345678''), FormSubmitted, FormSubmitted]"

definition sample_sign_up :: "page_event list" where
  "sample_sign_up =
     [ModeToggled, FieldChanged Identifier (U ''A@b.jo''), FieldChanged Password (U ''Abcdef1!''),
      FieldChanged ConfirmPassword (U ''Abcdef1!''), FieldChanged FirstName (U ''Zaid''), FieldChanged LastName (U ''A''),
      FieldChanged Phone (U ''0791234567''), FieldChanged City (U ''Amman''), FormSubmitted,
      FieldChanged Area (U ''Abdoun''), FormSubmitted]"

lemma sample_copy_given [simp]: "messages_given (validation_copy (ps_copy sample_setup))"
  by code_simp

section \<open>Theorems\<close>

text \<open>
  Claim C22.  Whatever the visitor and the server do, the login page sends only complete requests.
  From a fresh page, after any sequence of field edits, submissions, cancellations, address queries,
  ticks and settled requests, every sign-up request under way carries non-blank names, city and area,
  an address \<open>parseAuthIdentifier\<close> accepts, a phone \<open>normalizeJordanPhone\<close> accepts and a password of
  full strength that equals its confirmation; every code check carries a token and six digits; every
  login a non-blank identifier and a password.
\<close>

theorem login_requests_valid:
  assumes "messages_given (validation_copy (ps_copy st))"
  shows "list_all (request_valid (ps_prefix st)) (lp_requests (page_run st es (new_page kv sv)))"
  using owes_page_run [OF owes_new_page assms] by (simp add: page_owes_def)

theorem login_requests_valid_witness:
  "let p = page_run sample_setup sample_sign_up (new_page Map.empty Map.empty) in
     pending of_submit p = 1 \<and> list_all (request_valid (ps_prefix sample_setup)) (lp_requests p)"
  using login_requests_valid [OF sample_copy_given, of sample_sign_up Map.empty Map.empty]
  by (simp add: Let_def) code_simp

text \<open>
  Claim C23.  A submission is never sent twice: in every reachable state at most one request of a
  submission is under way, exactly when \<open>submitInFlightRef\<close> is set, which is when the form shows it is
  loading; likewise at most one resent login and one resent verification link, each exactly while its
  button is busy; and the countdown never exceeds a minute.
\<close>

theorem submissions_exclusive:
  assumes "messages_given (validation_copy (ps_copy st))"
  shows "let p = page_run st es (new_page kv sv) in
    pending of_submit p = of_bool (lp_inFlight p) \<and> ls_isLoading (lp_state p) = lp_inFlight p
    \<and> pending of_resend p = of_bool (lp_resendingTwoFactor p)
    \<and> pending (\<lambda>r. r = ResendVerification) p = of_bool (lp_resendingVerification p) \<and> lp_cooldown p \<le> 60"
  using owes_page_run [OF owes_new_page assms] by (simp add: page_owes_def Let_def)

theorem submissions_exclusive_witness:
  "let p = page_run sample_setup sample_sign_in (new_page Map.empty Map.empty) in
     lp_inFlight p \<and> pending of_submit p = of_bool (lp_inFlight p) \<and> lp_cooldown p \<le> 60"
proof -
  have "lp_inFlight (page_run sample_setup sample_sign_in (new_page Map.empty Map.empty))" by code_simp
  then show ?thesis
    using submissions_exclusive [OF sample_copy_given, of sample_sign_in Map.empty Map.empty] by (simp add: Let_def)
qed

text \<open>
  Claim C62.  A login reply that succeeds without naming a user opens a session all the same.  Whatever
  else the reply says, even that the address is not verified, when it asks for no second factor and the
  request for the current user then fails, the page hands \<open>setSession\<close> a user with an empty id and
  the identifier as it was typed.
\<close>

theorem session_without_user:
  assumes "ar_success r" "\<not> ar_requiresTwoFactor r" "ar_user r = None"
  shows "let fu = sign_in_fallback v r;
             q = request_settled st (LoginRequest og v) (AuthReply (Inr r)) p
         in lp_requests q = lp_requests p @ [CurrentUserRequest og fu]
          \<and> lp_sessions (request_settled st (CurrentUserRequest og fu) (UserReply (Inr (ApiErr e))) q) = lp_sessions p @ [fu]
          \<and> user_id (session_user fu) = [] \<and> lu_email fu = trim (v Identifier)"
  using assms
  by (cases og) (simp_all add: request_settled_def handleSignIn_settled_def finalizeAuthenticatedLogin_def send_request_def
      current_user_settled_def finish_def finish_submit_def sign_in_fallback_def fallback_user_def user_of_def
      session_user_def opt_field_def text_field_def opt_str_def or_else_def Let_def dispatch_def)

theorem session_without_user_witness:
  "let r = login_result ref_env (ApiOk (Obj [(U ''success'', Bool True), (U ''requiresEmailVerification'', Bool True)])) in
     ar_requiresEmailVerification r
     \<and> lp_requests (request_settled sample_setup (LoginRequest Submitted (\<lambda>_. U ''a'')) (AuthReply (Inr r)) (new_page Map.empty Map.empty))
         = [CurrentUserRequest Submitted (sign_in_fallback (\<lambda>_. U ''a'') r)]"
proof -
  let ?r = "login_result ref_env (ApiOk (Obj [(U ''success'', Bool True), (U ''requiresEmailVerification'', Bool True)]))"
  have r: "ar_success ?r" "\<not> ar_requiresTwoFactor ?r" "ar_user ?r = None" "ar_requiresEmailVerification ?r"
    by code_simp+
  show ?thesis
    using session_without_user [OF r(1-3), where p = "new_page Map.empty Map.empty" and og = Submitted and v = "\<lambda>_. U ''a''"
        and st = sample_setup and e = "\<lparr> err_code = [], err_message = [], err_details = Undef \<rparr>"] r(4)
    by (simp add: Let_def new_page_def)
qed

end
