(* ===== verification/PostWrite.thy ===== *)
theory PostWrite
  imports PostMapping
begin

text \<open>
  Creating, updating and deleting listings (\<open>services/api/posts/write.ts\<close>) with their images
  (\<open>services/api/posts/writeHelpers.ts\<close>).  The answers of the server are arguments: what
  \<open>apiRequest\<close> returns or throws for each request, and what the name lookups find.
\<close>

section \<open>Image inputs\<close>

datatype image_input =
    UrlInput ustr
  | FileInput (file_name: ustr) (file_size: int) (file_modified: int) (file_type: ustr)

datatype input_key = UrlKey ustr | FileKey ustr

fun clean_input :: "image_input \<Rightarrow> image_input" where
  "clean_input (UrlInput u) = UrlInput (trim u)"
| "clean_input f = f"

fun key_of_input :: "image_input \<Rightarrow> input_key" where
  \<comment> \<open>\<open>`${name}|${size}|${lastModified}`\<close> for a file\<close>
  "key_of_input (UrlInput u) = UrlKey u"
| "key_of_input (FileInput n s m _) = FileKey (n @ U ''|'' @ int_str s @ U ''|'' @ int_str m)"

fun sanitize_loop :: "input_key list \<Rightarrow> image_input list \<Rightarrow> image_input list" where
  "sanitize_loop seen [] = []"
| "sanitize_loop seen (i # is) =
     (let c = clean_input i in
      if c = UrlInput [] \<or> key_of_input c \<in> set seen then sanitize_loop seen is
      else c # sanitize_loop (key_of_input c # seen) is)"

definition sanitizeImageInputs :: "image_input list \<Rightarrow> image_input list" where
  "sanitizeImageInputs images = sanitize_loop [] images"

definition DEFAULT_CITY :: ustr where "DEFAULT_CITY = U ''Jordan''"

definition resolveCity :: "jval \<Rightarrow> ustr" where
  "resolveCity v = (case v of Str s \<Rightarrow> if length (trim s) > 0 then trim s else DEFAULT_CITY | _ \<Rightarrow> DEFAULT_CITY)"

definition resolveArea :: "jval \<Rightarrow> ustr option" where
  "resolveArea v = (case v of Str s \<Rightarrow> if length (trim s) > 0 then Some (trim s) else None | _ \<Rightarrow> None)"

definition resolvePostOwnerId :: "jval \<Rightarrow> int option" where
  "resolvePostOwnerId m =
     toPositiveIntegerId (flds m [''UserID'', ''userID'', ''UserId'', ''SellerID'', ''SellerId'', ''sellerId''])"

definition resolveCurrentUserId :: "thrown + api_response \<Rightarrow> int option" where
  "resolveCurrentUserId outcome =
     (case outcome of
        Inr (ApiOk d) \<Rightarrow>
          if truthy d then toPositiveIntegerId (flds d [''Id'', ''id'', ''UserID'', ''userID'']) else None
      | _ \<Rightarrow> None)"

fun is_object :: "jval \<Rightarrow> bool" where
  "is_object (Obj _) = True"
| "is_object (Arr _) = True"
| "is_object _ = False"

definition nonblank_str :: "jval \<Rightarrow> ustr option" where
  "nonblank_str v = (case v of Str s \<Rightarrow> if length (trim s) > 0 then Some (trim s) else None | _ \<Rightarrow> None)"

definition extractUploadedImageUrl :: "jval \<Rightarrow> ustr option" where
  "extractUploadedImageUrl payload =
     (if \<not> is_object payload then None
      else
        (case nonblank_str (flds payload [''url'', ''Url'', ''postImageURL'', ''PostImageURL'']) of
           Some u \<Rightarrow> Some u
         | None \<Rightarrow>
             (let postImageRecord =
                (if is_object (fld payload ''postImage'') then Some (fld payload ''postImage'')
                 else if is_object (fld payload ''PostImage'') then Some (fld payload ''PostImage'') else None)
              in case postImageRecord of
                   None \<Rightarrow> None
                 | Some r \<Rightarrow> nonblank_str (flds r [''PostImageURL'', ''postImageURL'']))))"

section \<open>Saving images\<close>

definition thrown_text :: "thrown \<Rightarrow> ustr \<Rightarrow> ustr" where
  \<comment> \<open>\<open>e instanceof Error ? e.message : fallback\<close>\<close>
  "thrown_text e fallback = (case e of JsError _ m \<Rightarrow> m | ThrownValue _ \<Rightarrow> fallback)"

definition MAX_POST_IMAGE_BYTES :: int where "MAX_POST_IMAGE_BYTES = 20 * 1024 * 1024"

definition uploadPostImageFile :: "image_input \<Rightarrow> api_response \<Rightarrow> ustr + ustr" where
  \<comment> \<open>\<open>Inl\<close> an error text, \<open>Inr\<close> the address\<close>
  "uploadPostImageFile f response =
     (if file_size f > MAX_POST_IMAGE_BYTES
      then Inl (U ''\"'' @ file_name f @ U ''\" is too large (''
             @ fixed1 (of_int (file_size f) / (1024 * 1024)) @ U '' MB). Maximum allowed size is 20 MB.'')
      else if \<not> starts_with (file_type f) (U ''image/'')
      then Inl (U ''\"'' @ file_name f @ U ''\" is not a supported image file.'')
      else
        (case response of
           ApiErr e \<Rightarrow> Inl (or_else (err_message e) (U ''Unknown error''))
         | ApiOk d \<Rightarrow>
             (case extractUploadedImageUrl d of
                None \<Rightarrow> Inl (U ''Failed to extract image URL from response'')
              | Some u \<Rightarrow> Inr u)))"

definition save_image :: "(image_input \<Rightarrow> thrown + api_response) \<Rightarrow> image_input \<Rightarrow> ustr + ustr" where
  \<comment> \<open>one turn of the loop: \<open>Inl\<close> what is pushed to \<open>errors\<close>, \<open>Inr\<close> what to \<open>savedUrls\<close>\<close>
  "save_image answer i =
     (case i of
        UrlInput u \<Rightarrow>
          (case answer i of
             Inr (ApiOk _) \<Rightarrow> Inr u
           | Inr (ApiErr _) \<Rightarrow> Inl (u @ U '': '' @ U ''Failed to persist image URL'')
           | Inl e \<Rightarrow> Inl (u @ U '': '' @ thrown_text e (U ''Error persisting image URL'')))
      | FileInput n _ _ _ \<Rightarrow>
          (let failed = (\<lambda>t. Inl (n @ U '': '' @ t)) in
           case answer i of
             Inl e \<Rightarrow>
               if file_size i > MAX_POST_IMAGE_BYTES \<or> \<not> starts_with (file_type i) (U ''image/'')
               then (case uploadPostImageFile i (ApiOk Null) of Inl t \<Rightarrow> failed t | Inr u \<Rightarrow> Inr u)
               else failed (thrown_text e (U ''Error uploading image file''))
           | Inr r \<Rightarrow> (case uploadPostImageFile i r of Inl t \<Rightarrow> failed t | Inr u \<Rightarrow> Inr u)))"

record upload_batch =
  savedUrls :: "ustr list"
  upload_errors :: "ustr list"
  cache_invalidated :: bool

definition lefts :: "('a + 'b) list \<Rightarrow> 'a list" where
  "lefts xs = List.map_filter (\<lambda>x. case x of Inl a \<Rightarrow> Some a | Inr _ \<Rightarrow> None) xs"

definition rights :: "('a + 'b) list \<Rightarrow> 'b list" where
  "rights xs = List.map_filter (\<lambda>x. case x of Inr b \<Rightarrow> Some b | Inl _ \<Rightarrow> None) xs"

definition createPostImages :: "(image_input \<Rightarrow> thrown + api_response) \<Rightarrow> image_input list \<Rightarrow> upload_batch" where
  "createPostImages answer imageInputs =
     (let results = map (save_image answer) imageInputs in
      \<lparr> savedUrls = rights results, upload_errors = lefts results,
        cache_invalidated = (length (rights results) > 0) \<rparr>)"

definition existing_image_ids :: "jval list \<Rightarrow> int list" where
  "existing_image_ids rows = uniq (List.map_filter (\<lambda>r. toPositiveIntegerId (fld r ''PostImageID'')) rows)"

definition replacePostImages ::
    "jval list \<Rightarrow> (image_input \<Rightarrow> thrown + api_response) \<Rightarrow> image_input list \<Rightarrow> int list \<times> upload_batch" where
  \<comment> \<open>the existing rows as just fetched; the result says which images are deleted\<close>
  "replacePostImages existingImages answer imageInputs =
     (let ids = existing_image_ids existingImages in
      (ids,
       if length imageInputs = 0
       then \<lparr> savedUrls = [], upload_errors = [], cache_invalidated = (length ids > 0) \<rparr>
       else createPostImages answer imageInputs))"

section \<open>write.ts\<close>

record post_response =
  pr_success :: bool
  pr_post :: "post option"
  pr_message :: "ustr option"

definition post_failure :: "ustr \<Rightarrow> post_response" where
  "post_failure m = \<lparr> pr_success = False, pr_post = None, pr_message = Some m \<rparr>"

definition upload_message :: "ustr list \<Rightarrow> ustr option" where
  "upload_message errors = (if length errors > 0 then Some (join (U ''; '') (uniq errors)) else None)"

definition opt_id :: "int option \<Rightarrow> jval" where
  "opt_id v = (case v of None \<Rightarrow> Undef | Some i \<Rightarrow> Num (Fin (of_int i)))"

record lookups =
  lk_category :: "ustr \<Rightarrow> int option"
  lk_city :: "ustr \<Rightarrow> int option"
  lk_area :: "int \<Rightarrow> ustr \<Rightarrow> int option"
  lk_enrich :: "jval list \<Rightarrow> jval list"

record create_request =
  cr_title :: ustr
  cr_price :: jnum
  cr_category :: ustr
  cr_city :: ustr
  cr_area :: "ustr option"
  cr_description :: ustr
  cr_images :: "image_input list"
  cr_phone :: ustr
  cr_location :: "ustr option"

definition requested_city :: "create_request \<Rightarrow> ustr" where
  "requested_city d = (case cr_location d of None \<Rightarrow> cr_city d | Some l \<Rightarrow> l)"

definition create_body :: "jsenv \<Rightarrow> lookups \<Rightarrow> int \<Rightarrow> int \<Rightarrow> create_request \<Rightarrow> jval" where
  "create_body env lk userId categoryId d =
     (let cityId = lk_city lk (requested_city d);
          areaId = (case cityId of None \<Rightarrow> None
            | Some c \<Rightarrow> (case cr_area d of None \<Rightarrow> None | Some a \<Rightarrow> lk_area lk c a))
      in Obj [(U ''PostID'', Null),
           (U ''UserID'', Num (Fin (of_int userId))),
           (U ''CategoryID'', Num (Fin (of_int categoryId))),
           (U ''PostTitle'', Str (cr_title d)),
           (U ''PostDescription'', Str (cr_description d)),
           (U ''Price'', Num (cr_price d)),
           (U ''Status'', Num (Fin 0)),
           (U ''CreatedAt'', Str (iso_string env (now_ms env))),
           (U ''IsDeleted'', Bool False),
           (U ''CityId'', opt_id cityId),
           (U ''AreaId'', opt_id areaId)])"

record server_answers =
  sa_currentUser :: "thrown + api_response"
  sa_existing :: api_response
  sa_saved :: api_response
  sa_image :: "image_input \<Rightarrow> thrown + api_response"
  sa_image_rows :: "jval list"

definition createPost ::
    "jsenv \<Rightarrow> ustr \<Rightarrow> lookups \<Rightarrow> server_answers \<Rightarrow> create_request \<Rightarrow> post_response \<times> jval option" where
  \<comment> \<open>the response and the body posted, if any\<close>
  "createPost env host lk sa d =
     (case resolveCurrentUserId (sa_currentUser sa) of
        None \<Rightarrow> (post_failure (U ''Cannot create post: User not authenticated. Please log in first.''), None)
      | Some userId \<Rightarrow>
          (case lk_category lk (cr_category d) of
             None \<Rightarrow> (post_failure (U ''Cannot create post: selected category is invalid or not available.''), None)
           | Some categoryId \<Rightarrow>
               (let body = create_body env lk userId categoryId d;
                    response = sa_saved sa;
                    createdPost = (case response of ApiOk v \<Rightarrow> parseRawPost v | ApiErr _ \<Rightarrow> None)
                in (case createdPost of
                      Some created \<Rightarrow>
                        (case toPositiveIntegerId (flds created [''PostID'', ''postID'', ''id'']) of
                           None \<Rightarrow> post_failure (U ''Post created but response did not include a valid PostID.'')
                         | Some postId \<Rightarrow>
                             (let inputs = sanitizeImageInputs (cr_images d);
                                  fallbackImageUrls =
                                    List.map_filter (\<lambda>i. case i of UrlInput u \<Rightarrow> Some u | _ \<Rightarrow> None) inputs;
                                  up = createPostImages (sa_image sa) inputs;
                                  enriched = (case lk_enrich lk [created] of e # _ \<Rightarrow> e | [] \<Rightarrow> created);
                                  m = obj_set (obj_set enriched ''Location'' (Str (resolveCity (Str (requested_city d)))))
                                        ''Area'' (case resolveArea ((case cr_area d of None \<Rightarrow> Undef | Some a \<Rightarrow> Str a)) of None \<Rightarrow> Null | Some a \<Rightarrow> Str a)
                              in \<lparr> pr_success = True,
                                   pr_post = Some (transformPostModelToPost env host m
                                     (if length (savedUrls up) > 0 then savedUrls up else fallbackImageUrls) None),
                                   pr_message = upload_message (upload_errors up) \<rparr>))
                    | None \<Rightarrow> post_failure
                        (case response of ApiErr e \<Rightarrow> or_else (err_message e) (U ''Failed to create post'')
                         | ApiOk _ \<Rightarrow> U ''Failed to create post''),
                    Some body))))"

record update_request =
  ur_id :: jval
  ur_title :: "ustr option"
  ur_price :: "jnum option"
  ur_category :: "ustr option"
  ur_status :: "ustr option"
  ur_city :: "ustr option"
  ur_area :: "ustr option"
  ur_description :: "ustr option"
  ur_images :: "image_input list option"
  ur_phone :: "ustr option"
  ur_location :: "ustr option"

definition opt_or :: "'a option \<Rightarrow> 'a option \<Rightarrow> 'a option" where
  \<comment> \<open>\<open>a ?? b\<close>\<close>
  "opt_or a b = (case a of None \<Rightarrow> b | Some _ \<Rightarrow> a)"

definition nonzero_id :: "jval \<Rightarrow> bool" where
  "nonzero_id v = truthy v"

definition number_or_undef :: "jval \<Rightarrow> jval" where
  "number_or_undef v = (if is_num v then v else Undef)"

definition opt_id_or :: "int option \<Rightarrow> jval \<Rightarrow> jval" where
  "opt_id_or a b = (case a of Some i \<Rightarrow> Num (Fin (of_int i)) | None \<Rightarrow> b)"

text \<open>
  \<open>lk_area\<close> takes a city identifier as an integer; a fallback city that the server gave as a
  fraction, which no city is, resolves no area.
\<close>

definition as_city :: "jval \<Rightarrow> int option" where
  "as_city v = (case v of Num (Fin r) \<Rightarrow> if is_int_rat r \<and> r \<noteq> 0 then Some \<lfloor>r\<rfloor> else None | _ \<Rightarrow> None)"

definition update_body ::
    "jsenv \<Rightarrow> lookups \<Rightarrow> int \<Rightarrow> int \<Rightarrow> int \<Rightarrow> jval \<Rightarrow> update_request \<Rightarrow> jval" where
  "update_body env lk postId userId categoryId cur d =
     (let resolvedDescription = (case ur_description d of Some t \<Rightarrow> t
            | None \<Rightarrow> (case fld cur ''PostDescription'' of Str t \<Rightarrow> t | _ \<Rightarrow> []));
          cityText = opt_or (ur_location d) (ur_city d);
          requestedCityId = (case cityText of None \<Rightarrow> None | Some c \<Rightarrow> lk_city lk c);
          finalCityId = opt_id_or requestedCityId (number_or_undef (flds cur [''CityId'', ''cityId'']));
          requestedAreaId = (case (ur_area d, as_city finalCityId) of
            (Some a, Some c) \<Rightarrow> lk_area lk c a | _ \<Rightarrow> None);
          finalAreaId = opt_id_or requestedAreaId (number_or_undef (flds cur [''AreaId'', ''areaId'']));
          fallbackStatus = toStatusNumber (fld cur ''Status'') POST_STATUS_ACTIVE;
          postTitle = (case ur_title d of Some t \<Rightarrow> t
            | None \<Rightarrow> (case fld cur ''PostTitle'' of Str t \<Rightarrow> t | _ \<Rightarrow> []));
          priceRaw = (case ur_price d of Some n \<Rightarrow> n | None \<Rightarrow> to_num (fld cur ''Price''));
          resolvedPrice = (case priceRaw of Fin r \<Rightarrow> Fin r | _ \<Rightarrow> Fin 0)
      in Obj [(U ''PostID'', Num (Fin (of_int postId))),
           (U ''UserID'', Num (Fin (of_int userId))),
           (U ''CategoryID'', Num (Fin (of_int categoryId))),
           (U ''PostTitle'', Str postTitle),
           (U ''PostDescription'', Str resolvedDescription),
           (U ''Price'', Num resolvedPrice),
           (U ''Status'', Num (Fin (of_int (resolveStatusValue (ur_status d) fallbackStatus)))),
           (U ''CreatedAt'', Str (toIsoStringOrNow env (flds cur [''CreatedAt'', ''createdAt'']))),
           (U ''IsDeleted'', Bool (truthy (coalesce [fld cur ''IsDeleted'', Bool False]))),
           (U ''CityId'', finalCityId),
           (U ''AreaId'', finalAreaId)])"

definition updatePost ::
    "jsenv \<Rightarrow> ustr \<Rightarrow> lookups \<Rightarrow> server_answers \<Rightarrow> update_request \<Rightarrow> post_response \<times> jval option" where
  \<comment> \<open>the response and the body put, if any\<close>
  "updatePost env host lk sa d =
     (case toPositiveIntegerId (ur_id d) of
        None \<Rightarrow> (post_failure (U ''Invalid post ID''), None)
      | Some postId \<Rightarrow>
          (case (case sa_existing sa of ApiOk v \<Rightarrow> parseRawPost v | ApiErr _ \<Rightarrow> None) of
             None \<Rightarrow> (post_failure (U ''Post not found''), None)
           | Some cur \<Rightarrow>
               (let requestedCategoryId = (case ur_category d of None \<Rightarrow> None | Some c \<Rightarrow> lk_category lk c);
                    fallbackCategoryId =
                      toPositiveIntegerId (flds cur [''CategoryID'', ''categoryID'', ''CategoryId''])
                in case opt_or requestedCategoryId fallbackCategoryId of
                     None \<Rightarrow> (post_failure (U ''Cannot update post: selected category is invalid or unavailable.''), None)
                   | Some categoryId \<Rightarrow>
                       (case resolvePostOwnerId cur of
                          None \<Rightarrow> (post_failure (U ''Cannot update post: post owner is invalid.''), None)
                        | Some userId \<Rightarrow>
                            (let body = update_body env lk postId userId categoryId cur d;
                                 response = sa_saved sa
                             in (case (case response of ApiOk v \<Rightarrow> parseRawPost v | ApiErr _ \<Rightarrow> None) of
                                   Some updated \<Rightarrow>
                                     (let up = (case ur_images d of None \<Rightarrow> None
                                            | Some is \<Rightarrow> Some (snd (replacePostImages (sa_image_rows sa) (sa_image sa)
                                                        (sanitizeImageInputs is))))
                                      in \<lparr> pr_success = True,
                                           pr_post = Some (transformPostModelToPost env host updated
                                             (case up of None \<Rightarrow> [] | Some b \<Rightarrow> savedUrls b) None),
                                           pr_message = upload_message
                                             (case up of None \<Rightarrow> [] | Some b \<Rightarrow> upload_errors b) \<rparr>)
                                 | None \<Rightarrow> post_failure
                                     (case response of ApiErr e \<Rightarrow> or_else (err_message e) (U ''Failed to update post'')
                                      | ApiOk _ \<Rightarrow> U ''Failed to update post''),
                                 Some body))))))"

definition updatePostStatus ::
    "jsenv \<Rightarrow> ustr \<Rightarrow> server_answers \<Rightarrow> jval \<Rightarrow> ustr \<Rightarrow> post_response \<times> jval option" where
  "updatePostStatus env host sa i status =
     (case toPositiveIntegerId i of
        None \<Rightarrow> (post_failure (U ''Invalid post ID''), None)
      | Some postId \<Rightarrow>
          (case (case sa_saved sa of ApiOk v \<Rightarrow> parseRawPost v | ApiErr _ \<Rightarrow> None) of
             Some updated \<Rightarrow> \<lparr> pr_success = True,
               pr_post = Some (transformPostModelToPost env host updated [] None), pr_message = None \<rparr>
           | None \<Rightarrow> post_failure
               (case sa_saved sa of ApiErr e \<Rightarrow> or_else (err_message e) (U ''Failed to update post status'')
                | ApiOk _ \<Rightarrow> U ''Failed to update post status''),
           Some (Obj [(U ''Status'', Str (or_else status (U ''ACTIVE'')))])))"

record delete_response =
  dr_success :: bool
  dr_error :: "ustr option"
  dr_invalidates :: bool

definition deletePost :: "jval \<Rightarrow> thrown + api_response \<Rightarrow> delete_response" where
  "deletePost i outcome =
     (case toPositiveIntegerId i of
        None \<Rightarrow> \<lparr> dr_success = False, dr_error = Some (U ''Invalid post ID''), dr_invalidates = False \<rparr>
      | Some postId \<Rightarrow>
          (case outcome of
             Inr (ApiOk _) \<Rightarrow> \<lparr> dr_success = True, dr_error = None, dr_invalidates = True \<rparr>
           | Inr (ApiErr e) \<Rightarrow> \<lparr> dr_success = False,
               dr_error = Some (or_else (err_message e) (U ''Error '' @ or_else (err_code e) (U ''unknown''))),
               dr_invalidates = False \<rparr>
           | Inl e \<Rightarrow> \<lparr> dr_success = False,
               dr_error = Some (thrown_text e (U ''An error occurred while deleting the post'')),
               dr_invalidates = False \<rparr>))"

section \<open>Lemmas\<close>

lemma clean_input_idem [simp]: "clean_input (clean_input i) = clean_input i"
  by (cases i) simp_all

lemma sanitize_loop_mem:
  "c \<in> set (sanitize_loop seen is) \<Longrightarrow>
     c \<noteq> UrlInput [] \<and> c \<in> clean_input ` set is \<and> key_of_input c \<notin> set seen"
proof (induction seen "is" rule: sanitize_loop.induct)
  case (1 seen) then show ?case by simp
next
  case (2 seen j "is")
  show ?case
  proof (cases "clean_input j = UrlInput [] \<or> key_of_input (clean_input j) \<in> set seen")
    case True
    with 2(3) have "c \<in> set (sanitize_loop seen is)" by (simp add: Let_def)
    from 2(1)[OF refl True this] show ?thesis by simp
  next
    case False
    with 2(3) have "c = clean_input j \<or> c \<in> set (sanitize_loop (key_of_input (clean_input j) # seen) is)"
      by (simp add: Let_def)
    then show ?thesis
    proof
      assume "c = clean_input j" then show ?thesis using False by simp
    next
      assume "c \<in> set (sanitize_loop (key_of_input (clean_input j) # seen) is)"
      from 2(2)[OF refl False this] show ?thesis by simp
    qed
  qed
qed

lemma sanitize_loop_distinct: "distinct (map key_of_input (sanitize_loop seen is))"
proof (induction seen "is" rule: sanitize_loop.induct)
  case (1 seen) then show ?case by simp
next
  case (2 seen i "is")
  show ?case
  proof (cases "clean_input i = UrlInput [] \<or> key_of_input (clean_input i) \<in> set seen")
    case True then show ?thesis using 2(1)[OF refl] by (simp add: Let_def)
  next
    case False
    have "key_of_input (clean_input i) \<notin>
        key_of_input ` set (sanitize_loop (key_of_input (clean_input i) # seen) is)"
    proof
      assume "key_of_input (clean_input i) \<in>
        key_of_input ` set (sanitize_loop (key_of_input (clean_input i) # seen) is)"
      then obtain c where c: "c \<in> set (sanitize_loop (key_of_input (clean_input i) # seen) is)"
        and k: "key_of_input (clean_input i) = key_of_input c" by (rule imageE)
      from sanitize_loop_mem[OF c] k show False by simp
    qed
    then show ?thesis using 2(2)[OF refl False] False by (simp add: Let_def)
  qed
qed

lemma sanitize_loop_covers:
  "i \<in> set is \<Longrightarrow> clean_input i \<noteq> UrlInput [] \<Longrightarrow>
     key_of_input (clean_input i) \<in> set seen \<union> key_of_input ` set (sanitize_loop seen is)"
proof (induction seen "is" rule: sanitize_loop.induct)
  case (1 seen) then show ?case by simp
next
  case (2 seen j "is")
  show ?case
  proof (cases "clean_input j = UrlInput [] \<or> key_of_input (clean_input j) \<in> set seen")
    case True
    show ?thesis
    proof (cases "i = j")
      case True
      then show ?thesis using \<open>clean_input j = UrlInput [] \<or> _\<close> 2(4) by simp
    next
      case False
      with 2(3) have "i \<in> set is" by simp
      from 2(1)[OF refl True this 2(4)] True show ?thesis by (simp add: Let_def)
    qed
  next
    case False
    show ?thesis
    proof (cases "i = j")
      case True
      then show ?thesis using False by (simp add: Let_def)
    next
      case ne: False
      with 2(3) have "i \<in> set is" by simp
      from 2(2)[OF refl False this 2(4)] False show ?thesis by (auto simp: Let_def)
    qed
  qed
qed

lemma sanitize_loop_id:
  "\<forall>i \<in> set is. clean_input i = i \<and> i \<noteq> UrlInput [] \<and> key_of_input i \<notin> set seen \<Longrightarrow>
     distinct (map key_of_input is) \<Longrightarrow> sanitize_loop seen is = is"
proof (induction "is" arbitrary: seen)
  case Nil then show ?case by simp
next
  case (Cons j "is")
  have j: "clean_input j = j" "j \<noteq> UrlInput []" "key_of_input j \<notin> set seen" using Cons(2) by simp_all
  have "\<forall>i \<in> set is. clean_input i = i \<and> i \<noteq> UrlInput [] \<and> key_of_input i \<notin> set (key_of_input j # seen)"
  proof
    fix i assume i: "i \<in> set is"
    then have "key_of_input i \<noteq> key_of_input j" using Cons(3) by (auto simp: image_iff)
    with i Cons(2) show "clean_input i = i \<and> i \<noteq> UrlInput [] \<and> key_of_input i \<notin> set (key_of_input j # seen)"
      by simp
  qed
  moreover have "distinct (map key_of_input is)" using Cons(3) by simp
  ultimately show ?case using Cons(1) j by (simp add: Let_def)
qed


lemma set_rights: "u \<in> set (rights xs) \<longleftrightarrow> Inr u \<in> set xs"
  by (induction xs) (auto simp: rights_def List.map_filter_simps split: sum.splits)


lemma sanitize_cleaned:
  assumes "c \<in> set (sanitizeImageInputs is)"
  shows "clean_input c = c" "c \<noteq> UrlInput []" "c \<in> clean_input ` set is"
proof -
  from assms have "c \<in> set (sanitize_loop [] is)" by (simp add: sanitizeImageInputs_def)
  from sanitize_loop_mem[OF this] have c: "c \<noteq> UrlInput []" "c \<in> clean_input ` set is" by simp_all
  then show "c \<noteq> UrlInput []" "c \<in> clean_input ` set is" by simp_all
  from c(2) show "clean_input c = c" by auto
qed

lemma sanitize_idem: "sanitizeImageInputs (sanitizeImageInputs is) = sanitizeImageInputs is"
  unfolding sanitizeImageInputs_def [of "sanitizeImageInputs is"]
  by (rule sanitize_loop_id)
    (simp_all add: sanitize_cleaned sanitizeImageInputs_def sanitize_loop_distinct
      sanitize_cleaned [unfolded sanitizeImageInputs_def])

lemma savedUrls_mem: "u \<in> set (savedUrls (createPostImages answer is)) \<longleftrightarrow> (\<exists>i \<in> set is. save_image answer i = Inr u)"
  by (simp add: createPostImages_def Let_def set_rights image_iff eq_commute)




section \<open>Properties\<close>

text \<open>
  The image inputs of a form are cleaned before they are sent: what is kept is a trimmed
  input of the form, not blank, no two with the same address or file signature; every input that
  is not blank is represented; and cleaning twice changes nothing.
\<close>

theorem sanitized_image_inputs:
  "(\<forall>c \<in> set (sanitizeImageInputs is). c \<noteq> UrlInput [] \<and> c \<in> clean_input ` set is)
   \<and> distinct (map key_of_input (sanitizeImageInputs is))
   \<and> (\<forall>i \<in> set is. clean_input i \<noteq> UrlInput [] \<longrightarrow>
        key_of_input (clean_input i) \<in> key_of_input ` set (sanitizeImageInputs is))
   \<and> sanitizeImageInputs (sanitizeImageInputs is) = sanitizeImageInputs is"
  using sanitize_cleaned [of _ "is"] sanitize_loop_distinct [of "[]" "is"]
    sanitize_loop_covers [of _ "is" "[]"]
  by (simp add: sanitize_idem) (simp add: sanitizeImageInputs_def)

theorem sanitized_image_inputs_witness:
  "distinct (map key_of_input (sanitizeImageInputs [UrlInput (U '' a''), UrlInput (U ''a'')]))"
  using sanitized_image_inputs [of "[UrlInput (U '' a''), UrlInput (U ''a'')]"] by blast



text \<open>
  Replacing the images of a listing deletes every image row it has.  When new images are
  given and none of them can be saved, the rows are gone on the server while the cache of image
  rows, filled by the read just before, is kept: exactly then the cache is stale.
\<close>

theorem replaced_images_cache:
  "fst (replacePostImages rows answer is) = existing_image_ids rows
   \<and> (\<forall>i. i \<in> set (fst (replacePostImages rows answer is)) \<longleftrightarrow>
        (\<exists>r \<in> set rows. toPositiveIntegerId (fld r ''PostImageID'') = Some i))
   \<and> ((fst (replacePostImages rows answer is) \<noteq> []
        \<and> \<not> cache_invalidated (snd (replacePostImages rows answer is))) \<longleftrightarrow>
      (existing_image_ids rows \<noteq> [] \<and> is \<noteq> [] \<and> (\<forall>i \<in> set is. \<exists>e. save_image answer i = Inl e)))"
proof (intro conjI allI)
  show "fst (replacePostImages rows answer is) = existing_image_ids rows"
    by (simp add: replacePostImages_def Let_def)
  fix i
  show "i \<in> set (fst (replacePostImages rows answer is)) \<longleftrightarrow>
      (\<exists>r \<in> set rows. toPositiveIntegerId (fld r ''PostImageID'') = Some i)"
    by (auto simp: replacePostImages_def existing_image_ids_def Let_def set_map_filter)
next
  have none_saved: "savedUrls (createPostImages answer is) = [] \<longleftrightarrow> (\<forall>i \<in> set is. \<exists>e. save_image answer i = Inl e)"
  proof -
    have "savedUrls (createPostImages answer is) = [] \<longleftrightarrow> (\<forall>i \<in> set is. \<forall>u. save_image answer i \<noteq> Inr u)"
      using savedUrls_mem [of _ answer "is"] by (metis empty_set ex_in_conv set_empty)
    also have "\<dots> \<longleftrightarrow> (\<forall>i \<in> set is. \<exists>e. save_image answer i = Inl e)"
      by (metis old.sum.exhaust sum.distinct(1))
    finally show ?thesis .
  qed
  have inv: "cache_invalidated (createPostImages answer is) = (savedUrls (createPostImages answer is) \<noteq> [])"
    by (simp add: createPostImages_def Let_def)
  show "(fst (replacePostImages rows answer is) \<noteq> []
        \<and> \<not> cache_invalidated (snd (replacePostImages rows answer is))) \<longleftrightarrow>
      (existing_image_ids rows \<noteq> [] \<and> is \<noteq> [] \<and> (\<forall>i \<in> set is. \<exists>e. save_image answer i = Inl e))"
    by (cases "is = []") (simp_all add: replacePostImages_def Let_def inv none_saved)
qed

theorem replaced_images_cache_witness:
  "fst (replacePostImages [Obj [(U ''PostImageID'', Num (Fin 7))]] (\<lambda>_. Inl (JsError [] [])) [UrlInput (U ''/a.png'')]) \<noteq> []
   \<and> \<not> cache_invalidated (snd (replacePostImages [Obj [(U ''PostImageID'', Num (Fin 7))]]
        (\<lambda>_. Inl (JsError [] [])) [UrlInput (U ''/a.png'')]))"
proof -
  have "existing_image_ids [Obj [(U ''PostImageID'', Num (Fin 7))]] \<noteq> []"
    using toPositiveIntegerId_int [of 7]
    by (simp add: existing_image_ids_def List.map_filter_simps MAX_SAFE_INTEGER_def uniq_def
      del: toPositiveIntegerId.simps)
  then show ?thesis
    using replaced_images_cache [of "[Obj [(U ''PostImageID'', Num (Fin 7))]]" "\<lambda>_. Inl (JsError [] [])"
        "[UrlInput (U ''/a.png'')]"]
    by (simp add: save_image_def)
qed

text \<open>
  A listing is only posted for a signed-in user and a resolved category, and the body
  carries exactly that user, that category and the active status; every response is a success
  with a listing or a failure with a message.
\<close>

theorem created_posts:
  "(snd (createPost env host lk sa d) \<noteq> None) =
     (\<exists>u c. resolveCurrentUserId (sa_currentUser sa) = Some u \<and> lk_category lk (cr_category d) = Some c)
   \<and> (case snd (createPost env host lk sa d) of None \<Rightarrow> True
      | Some body \<Rightarrow>
          (\<exists>u. resolveCurrentUserId (sa_currentUser sa) = Some u \<and> fld body ''UserID'' = Num (Fin (of_int u)) \<and> 0 < u)
          \<and> fld body ''CategoryID'' = opt_id (lk_category lk (cr_category d))
          \<and> fld body ''PostTitle'' = Str (cr_title d) \<and> fld body ''Status'' = Num (Fin (of_int POST_STATUS_ACTIVE)))
   \<and> (if pr_success (fst (createPost env host lk sa d))
      then pr_post (fst (createPost env host lk sa d)) \<noteq> None \<and> snd (createPost env host lk sa d) \<noteq> None
      else pr_post (fst (createPost env host lk sa d)) = None \<and> pr_message (fst (createPost env host lk sa d)) \<noteq> None)"
proof -
  have pos: "resolveCurrentUserId (sa_currentUser sa) = Some u \<Longrightarrow> 0 < u" for u
    using toPositiveIntegerId_range by (auto simp: resolveCurrentUserId_def split: sum.splits api_response.splits if_splits)
  show ?thesis
    by (cases "resolveCurrentUserId (sa_currentUser sa)"; cases "lk_category lk (cr_category d)")
      (auto simp: createPost_def Let_def post_failure_def create_body_def opt_id_def POST_STATUS_ACTIVE_def
        dest: pos split: option.split api_response.split)
qed

lemma parsed_values:
  "opt_id_or None v = v" "number_or_undef (Num n) = Num n"
  by (simp_all add: opt_id_or_def number_or_undef_def)

text \<open>
  An update that changes nothing sends the listing back as the server has it: the same
  title, description, finite price, category, owner, whole-number status and numeric city and area,
  the category and the owner being positive identifiers.
\<close>

theorem unchanged_update:
  assumes "toPositiveIntegerId (ur_id d) = Some postId" "sa_existing sa = ApiOk v" "parseRawPost v = Some cur"
    and none: "ur_title d = None" "ur_price d = None" "ur_category d = None" "ur_status d = None"
      "ur_city d = None" "ur_area d = None" "ur_description d = None" "ur_location d = None"
    and cur: "fld cur ''PostTitle'' = Str t" "fld cur ''PostDescription'' = Str s" "fld cur ''Price'' = Num (Fin p)"
      "fld cur ''Status'' = Num (Fin (of_int st))" "flds cur [''CityId'', ''cityId''] = Num city"
      "flds cur [''AreaId'', ''areaId''] = Num area"
      "toPositiveIntegerId (flds cur [''CategoryID'', ''categoryID'', ''CategoryId'']) = Some c"
      "resolvePostOwnerId cur = Some u"
  shows "\<exists>body. snd (updatePost env host lk sa d) = Some body
    \<and> fld body ''PostTitle'' = Str t \<and> fld body ''PostDescription'' = Str s \<and> fld body ''Price'' = Num (Fin p)
    \<and> fld body ''Status'' = Num (Fin (of_int st)) \<and> fld body ''CityId'' = Num city
    \<and> fld body ''AreaId'' = Num area \<and> fld body ''CategoryID'' = Num (Fin (of_int c))
    \<and> fld body ''UserID'' = Num (Fin (of_int u)) \<and> 0 < c \<and> 0 < u"
proof -
  have pos: "0 < c" "0 < u"
    using toPositiveIntegerId_range [OF cur(7)] toPositiveIntegerId_range [OF cur(8) [unfolded resolvePostOwnerId_def]]
    by simp_all
  let ?b = "update_body env lk postId u c cur d"
  have "snd (updatePost env host lk sa d) = Some ?b"
    by (simp add: updatePost_def assms(1,2,3) none cur opt_or_def Let_def)
  moreover have "fld ?b ''PostTitle'' = Str t \<and> fld ?b ''PostDescription'' = Str s
      \<and> fld ?b ''Price'' = Num (Fin p) \<and> fld ?b ''Status'' = Num (Fin (of_int st))
      \<and> fld ?b ''CityId'' = Num city \<and> fld ?b ''AreaId'' = Num area
      \<and> fld ?b ''CategoryID'' = Num (Fin (of_int c)) \<and> fld ?b ''UserID'' = Num (Fin (of_int u))"
    by (simp add: update_body_def Let_def none cur opt_or_def parsed_values toStatusNumber_def
      resolveStatusValue_def trunc_rat_def)
  ultimately show ?thesis using pos by blast
qed

definition stored_listing :: jval where
  "stored_listing = Obj [(U ''PostID'', Num (Fin 5)), (U ''UserID'', Num (Fin 3)), (U ''CategoryID'', Num (Fin 2)),
     (U ''PostTitle'', Str (U ''Sofa'')), (U ''PostDescription'', Str (U ''Red'')), (U ''Price'', Num (Fin 10)),
     (U ''Status'', Num (Fin 3)), (U ''CityId'', Num (Fin 1)), (U ''AreaId'', Num (Fin 4))]"

theorem unchanged_update_witness:
  "\<exists>body. snd (updatePost ref_env [] \<lparr> lk_category = \<lambda>_. None, lk_city = \<lambda>_. None, lk_area = \<lambda>_ _. None, lk_enrich = \<lambda>ps. ps \<rparr>
        \<lparr> sa_currentUser = Inr (ApiOk Null), sa_existing = ApiOk stored_listing, sa_saved = ApiOk Null,
          sa_image = (\<lambda>_. Inr (ApiOk Null)), sa_image_rows = [] \<rparr>
        \<lparr> ur_id = Num (Fin 5), ur_title = None, ur_price = None, ur_category = None, ur_status = None,
          ur_city = None, ur_area = None, ur_description = None, ur_images = None, ur_phone = None, ur_location = None \<rparr>) = Some body
     \<and> fld body ''Status'' = Num (Fin 3)"
proof -
  obtain cur where cur: "parseRawPost stored_listing = Some cur"
    "fld cur ''PostTitle'' = Str (U ''Sofa'')" "fld cur ''PostDescription'' = Str (U ''Red'')"
    "fld cur ''Price'' = Num (Fin 10)" "fld cur ''Status'' = Num (Fin 3)"
    "flds cur [''CityId'', ''cityId''] = Num (Fin 1)" "flds cur [''AreaId'', ''areaId''] = Num (Fin 4)"
    "flds cur [''CategoryID'', ''categoryID'', ''CategoryId''] = Num (Fin 2)"
    "flds cur [''UserID'', ''userID'', ''UserId'', ''SellerID'', ''SellerId'', ''sellerId''] = Num (Fin 3)"
  proof
    show "parseRawPost stored_listing = Some (Obj (map (\<lambda>(k, ks). (U k, flds stored_listing ks)) raw_post_fields))"
      by (simp add: parseRawPost_def stored_listing_def)
  qed (simp_all only: fld_Obj_map flds_def list.map, simp_all add: raw_post_fields_def stored_listing_def flds_def)
  have ids: "toPositiveIntegerId (Num (Fin 5)) = Some 5" "toPositiveIntegerId (Num (Fin 2)) = Some 2"
    "toPositiveIntegerId (Num (Fin 3)) = Some 3"
    using toPositiveIntegerId_int [of 5] toPositiveIntegerId_int [of 2] toPositiveIntegerId_int [of 3]
    by (simp_all add: MAX_SAFE_INTEGER_def del: toPositiveIntegerId.simps)
  have "fld cur ''Status'' = Num (Fin (of_int 3))" by (simp add: cur)
  from unchanged_update [of "\<lparr> ur_id = Num (Fin 5), ur_title = None, ur_price = None, ur_category = None,
      ur_status = None, ur_city = None, ur_area = None, ur_description = None, ur_images = None, ur_phone = None, ur_location = None \<rparr>"
      5 "\<lparr> sa_currentUser = Inr (ApiOk Null), sa_existing = ApiOk stored_listing, sa_saved = ApiOk Null,
          sa_image = (\<lambda>_. Inr (ApiOk Null)), sa_image_rows = [] \<rparr>" stored_listing cur, OF _ _ cur(1) _ _ _ _ _ _ _ _ cur(2,3,4) this cur(6,7)]
  show ?thesis using ids by (simp add: cur resolvePostOwnerId_def del: toPositiveIntegerId.simps) blast
qed

end
