(* ===== verification/Routes.thy ===== *)
theory Routes
  imports LoginPage PostWrite ChatMessages
begin

text \<open>
  Routing (\<open>app/routes/appRoutesUtils.ts\<close>, \<open>app/routes/routeConfig.ts\<close>, \<open>shared/lib/backNavigation.ts\<close>)
  and where a sign-in leads (\<open>app/routes/routeGroups/authRouteGroup.tsx\<close>, \<open>app/routes/AppRoutes.tsx\<close>).
  Paths the user is sent back to come from the navigation state of the browser, an arbitrary value.
  The matcher of the router and the URL parser of the platform are arguments.
\<close>

section \<open>routeConfig.ts\<close>

record data_route =
  route_path :: ustr
  loadsPostsData :: bool
  loadsFavoritesData :: bool

definition APP_DATA_ROUTE_CONFIG :: "data_route list" where
  "APP_DATA_ROUTE_CONFIG =
     map (\<lambda>(p, posts). \<lparr> route_path = U p, loadsPostsData = posts, loadsFavoritesData = True \<rparr>)
       [(''/'', True), (''/favorites'', True), (''/posts'', False), (''/search'', False), (''/profile'', True),
        (''/category/:categoryName'', False), (''/post/:id'', False), (''/seller/:userId'', False)]"

section \<open>appRoutesUtils.ts\<close>

definition normalizeIdentityValue :: "ustr \<Rightarrow> ustr" where
  "normalizeIdentityValue v = lower (trim v)"

definition isSameAuthenticatedUser :: "user_profile \<Rightarrow> login_user \<Rightarrow> bool" where
  "isSameAuthenticatedUser p d =
     (let nextUserId = normalizeIdentityValue (opt_str (lu_id d));
          currentUserId = normalizeIdentityValue (profile_id p);
          nextEmail = normalizeIdentityValue (lu_email d);
          currentEmail = normalizeIdentityValue (profile_email p)
      in if nextUserId \<noteq> [] \<and> currentUserId \<noteq> [] then nextUserId = currentUserId
         else nextEmail \<noteq> [] \<and> currentEmail \<noteq> [] \<and> nextEmail = currentEmail)"

definition normalizePathname :: "ustr \<Rightarrow> ustr" where
  "normalizePathname pathname = or_else (strip_slashes (lower (trim pathname))) (U ''/'')"

definition shouldLoadPostsForPath :: "(ustr \<Rightarrow> ustr \<Rightarrow> bool) \<Rightarrow> ustr \<Rightarrow> bool" where
  \<comment> \<open>the first argument is \<open>matchPath\<close> of the router, for a pattern that must end\<close>
  "shouldLoadPostsForPath matchPath pathname =
     list_ex (\<lambda>r. loadsPostsData r \<and> matchPath (route_path r) (normalizePathname pathname)) APP_DATA_ROUTE_CONFIG"

definition shouldLoadFavoritesForPath :: "(ustr \<Rightarrow> ustr \<Rightarrow> bool) \<Rightarrow> ustr \<Rightarrow> bool" where
  "shouldLoadFavoritesForPath matchPath pathname =
     list_ex (\<lambda>r. loadsFavoritesData r \<and> matchPath (route_path r) (normalizePathname pathname)) APP_DATA_ROUTE_CONFIG"

definition getCategoryTranslation :: "ustr \<Rightarrow> language \<Rightarrow> (ustr \<times> ustr) list \<Rightarrow> ustr" where
  \<comment> \<open>the categories with their names in both languages\<close>
  "getCategoryTranslation cat l cats =
     (if l \<noteq> Ar \<or> cats = [] then cat
      else (case find (\<lambda>c. lower (trim (fst c)) = lower (trim cat)) cats of
              None \<Rightarrow> cat | Some c \<Rightarrow> or_else (trim (snd c)) cat))"

definition profile_user_id :: "user_profile \<Rightarrow> ustr option" where
  \<comment> \<open>\<open>resolveCurrentUserId\<close> of a profile\<close>
  "profile_user_id p =
     (let i = trim (profile_id p) in if i \<noteq> [] \<and> list_all is_digit i then Some i else None)"

definition shouldRouteToProfileCompletion :: "bool \<Rightarrow> bool \<Rightarrow> bool \<Rightarrow> bool \<Rightarrow> bool \<Rightarrow> bool" where
  "shouldRouteToProfileCompletion isAuthenticated isAuthLoading isProfileLoading isProfileComplete hasProfileError \<longleftrightarrow>
     isAuthenticated \<and> \<not> isAuthLoading \<and> \<not> isProfileLoading \<and> \<not> hasProfileError \<and> \<not> isProfileComplete"

record create_input =
  ci_name :: ustr
  ci_description :: ustr
  ci_price :: rat
  ci_category :: ustr
  ci_location :: "ustr option"
  ci_area :: "ustr option"
  ci_image :: "image_input option"
  ci_images :: "image_input list"

record create_payload =
  cp_images :: "image_input list"
  cp_title :: ustr
  cp_description :: ustr
  cp_price :: rat
  cp_category :: ustr
  cp_city :: ustr
  cp_area :: ustr
  cp_phone :: ustr

definition resolvePostCity :: "app_config \<Rightarrow> user_profile \<Rightarrow> ustr option \<Rightarrow> ustr" where
  "resolvePostCity cfg p preferredCity =
     or_else (trim (or_else (opt_str preferredCity) (or_else (opt_str (profile_city p)) (defaultCity cfg)))) (defaultCity cfg)"

definition resolvePostArea :: "user_profile \<Rightarrow> ustr option \<Rightarrow> ustr" where
  "resolvePostArea p preferredArea = trim (or_else (opt_str preferredArea) (opt_str (profile_area p)))"

definition resolvePostPhone :: "app_config \<Rightarrow> user_profile \<Rightarrow> ustr" where
  "resolvePostPhone cfg p =
     or_else (trim (or_else (profile_phone p) (defaultPhonePrefix cfg))) (defaultPhonePrefix cfg)"

fun usable_image :: "image_input \<Rightarrow> bool" where
  "usable_image (UrlInput u) \<longleftrightarrow> length (trim u) > 0"
| "usable_image _ \<longleftrightarrow> True"

definition buildCreatePostPayload :: "app_config \<Rightarrow> create_input \<Rightarrow> user_profile \<Rightarrow> create_payload" where
  "buildCreatePostPayload cfg i p =
     \<lparr> cp_images = filter usable_image
         (if ci_images i \<noteq> [] then ci_images i else case ci_image i of None \<Rightarrow> [] | Some v \<Rightarrow> [v]),
       cp_title = ci_name i, cp_description = ci_description i, cp_price = ci_price i, cp_category = ci_category i,
       cp_city = resolvePostCity cfg p (ci_location i), cp_area = resolvePostArea p (ci_area i),
       cp_phone = resolvePostPhone cfg p \<rparr>"

definition isOwnPostForUser :: "post \<Rightarrow> user_profile \<Rightarrow> bool \<Rightarrow> bool" where
  "isOwnPostForUser q p isAuthenticated =
     (let sellerId = normalizeIdentityValue (post_sellerId q); userId = normalizeIdentityValue (profile_id p);
          seller = normalizeIdentityValue (post_seller q)
      in isAuthenticated
         \<and> (if sellerId \<noteq> [] \<or> userId \<noteq> [] then sellerId \<noteq> [] \<and> userId \<noteq> [] \<and> sellerId = userId
            else seller \<noteq> [] \<and> seller = normalizeIdentityValue (profile_name p)))"

definition applyLoginUserDataToProfile :: "user_profile \<Rightarrow> login_user \<Rightarrow> user_profile" where
  "applyLoginUserDataToProfile p d =
     (let preserve = isSameAuthenticatedUser p d;
          city = or_else (lu_city d) (if preserve then opt_str (profile_city p) else []);
          area = or_else (lu_area d) (if preserve then opt_str (profile_area p) else []);
          ident = (\<lambda>v old. case v of Some n \<Rightarrow> Some \<lfloor>n\<rfloor> | None \<Rightarrow> if preserve then old else None);
          joined = (case lu_joinedDate d of Str s \<Rightarrow> s | _ \<Rightarrow> [])
      in p\<lparr> profile_id := or_else (opt_str (lu_id d)) (or_else (profile_id p) (lu_email d)),
            profile_name := or_else (trim (lu_firstName d @ [32] @ lu_lastName d)) (lu_email d),
            profile_firstName := Some (lu_firstName d), profile_lastName := Some (lu_lastName d),
            profile_email := lu_email d,
            profile_phone := or_else (lu_phone d) (if preserve then profile_phone p else []),
            profile_city := Some city, profile_area := Some area,
            profile_cityId := ident (lu_cityId d) (profile_cityId p),
            profile_areaId := ident (lu_areaId d) (profile_areaId p),
            profile_location := (if city \<noteq> [] \<and> area \<noteq> [] then city @ U '', '' @ area else city),
            profile_avatar := (if opt_str (lu_avatar d) \<noteq> [] then lu_avatar d
                               else if preserve then profile_avatar p else None),
            profile_joinedDate := or_else joined (if preserve then profile_joinedDate p else []) \<rparr>)"

definition isProfileCompleteForRouting :: "ustr option \<Rightarrow> ustr option \<Rightarrow> ustr option \<Rightarrow> rat option \<Rightarrow> rat option \<Rightarrow> bool" where
  \<comment> \<open>phone, city, area and the identifiers of city and area\<close>
  "isProfileCompleteForRouting phone city area cityId areaId =
     (let positive = (\<lambda>v. case v of None \<Rightarrow> False | Some n \<Rightarrow> is_int_rat n \<and> n > 0) in
      trim (opt_str phone) \<noteq> []
      \<and> ((trim (opt_str city) \<noteq> [] \<and> trim (opt_str area) \<noteq> []) \<or> (positive cityId \<and> positive areaId)))"

definition normalizeInternalPath :: "jval \<Rightarrow> ustr" where
  "normalizeInternalPath v =
     (case v of
        Str s \<Rightarrow> if starts_with (trim s) (U ''/'') \<and> \<not> starts_with (trim s) (U ''//'') \<and> 92 \<notin> set (trim s)
                 then trim s else []
      | _ \<Rightarrow> [])"

definition before_query :: "ustr \<Rightarrow> ustr" where
  \<comment> \<open>\<open>s.split(/[?#]/, 1)[0]\<close>\<close>
  "before_query s = takeWhile (\<lambda>c. c \<noteq> 63 \<and> c \<noteq> 35) s"

definition path_of :: "ustr \<Rightarrow> ustr" where
  \<comment> \<open>the path name compared with the excluded pages\<close>
  "path_of s = lower (or_else (strip_slashes (before_query s)) (U ''/''))"

definition excluded_page :: "ustr \<Rightarrow> bool" where
  "excluded_page p \<longleftrightarrow> p = U ''/login'' \<or> p = U ''/complete-profile''"


section \<open>backNavigation.ts\<close>

definition normalizePath :: "jval \<Rightarrow> ustr" where
  "normalizePath v = (case v of Str s \<Rightarrow> trim s | _ \<Rightarrow> [])"

definition toSafePathOrEmpty :: "jval \<Rightarrow> ustr" where
  "toSafePathOrEmpty v = (if starts_with (normalizePath v) (U ''/'') then normalizePath v else [])"

definition extractPathname :: "(ustr \<Rightarrow> ustr option) \<Rightarrow> ustr \<Rightarrow> ustr" where
  \<comment> \<open>the first argument is the path name of \<open>new URL(value, "https://tijarahjo.online")\<close>, if it does not throw\<close>
  "extractPathname url_path v =
     (if v = [] then U ''/''
      else or_else (case url_path v of Some p \<Rightarrow> p | None \<Rightarrow> before_query v) (U ''/''))"

definition toBlockedPathnameSet :: "(ustr \<Rightarrow> ustr option) \<Rightarrow> ustr list \<Rightarrow> ustr list" where
  "toBlockedPathnameSet url_path blocked =
     uniq (map (extractPathname url_path) (filter (\<lambda>v. v \<noteq> []) (map (\<lambda>p. toSafePathOrEmpty (Str p)) blocked)))"

definition readFromPathFromLocationState :: "jval \<Rightarrow> ustr" where
  "readFromPathFromLocationState v = (if is_object v then normalizePath (fld v ''fromPath'') else [])"

definition readFromPathFromHistoryState :: "jval \<Rightarrow> ustr" where
  "readFromPathFromHistoryState v = (if is_object v then normalizePath (fld (fld v ''usr'') ''fromPath'') else [])"

definition buildCurrentPath :: "ustr \<Rightarrow> ustr \<Rightarrow> ustr" where
  "buildCurrentPath pathname search = or_else (toSafePathOrEmpty (Str pathname)) (U ''/'') @ trim search"

definition resolveSafeBackPath :: "(ustr \<Rightarrow> ustr option) \<Rightarrow> ustr \<Rightarrow> ustr \<Rightarrow> ustr \<Rightarrow> ustr list \<Rightarrow> ustr" where
  "resolveSafeBackPath url_path candidatePath currentPath fallbackPath blocked =
     (let safeFallbackPath = or_else (toSafePathOrEmpty (Str fallbackPath)) (U ''/'');
          safeCandidatePath = toSafePathOrEmpty (Str candidatePath)
      in if safeCandidatePath = [] \<or> safeCandidatePath = toSafePathOrEmpty (Str currentPath) then safeFallbackPath
         else if extractPathname url_path safeCandidatePath \<in> set (toBlockedPathnameSet url_path blocked)
         then safeFallbackPath else safeCandidatePath)"

definition resolveBackPathFromLocationState :: "(ustr \<Rightarrow> ustr option) \<Rightarrow> jval \<Rightarrow> ustr \<Rightarrow> ustr \<Rightarrow> ustr list \<Rightarrow> ustr" where
  "resolveBackPathFromLocationState url_path state currentPath fallbackPath blocked =
     resolveSafeBackPath url_path (readFromPathFromLocationState state) currentPath fallbackPath blocked"

definition resolveBackPathFromHistoryState :: "(ustr \<Rightarrow> ustr option) \<Rightarrow> jval \<Rightarrow> ustr \<Rightarrow> ustr \<Rightarrow> ustr list \<Rightarrow> ustr" where
  "resolveBackPathFromHistoryState url_path state currentPath fallbackPath blocked =
     resolveSafeBackPath url_path (readFromPathFromHistoryState state) currentPath fallbackPath blocked"

section \<open>Where a sign-in leads\<close>

datatype navigation = GoTo ustr | CompleteProfile ustr   \<comment> \<open>with the path to return to\<close>

definition login_user_admin :: "login_user \<Rightarrow> bool" where
  \<comment> \<open>\<open>userHasAdminAccess\<close> of role, admin access and permissions\<close>
  "login_user_admin d = userHasAdminAccess (Some (session_user d))"

definition login_user_complete :: "login_user \<Rightarrow> bool" where
  "login_user_complete d =
     isProfileCompleteForRouting (Some (lu_phone d)) (Some (lu_city d)) (Some (lu_area d)) (lu_cityId d) (lu_areaId d)"

definition login_page_navigation :: "(ustr \<Rightarrow> ustr option) \<Rightarrow> jval \<Rightarrow> ustr \<Rightarrow> ustr \<Rightarrow> login_user \<Rightarrow> navigation" where
  \<comment> \<open>\<open>onLogin\<close> of the login page\<close>
  "login_page_navigation url_path historyState pathname search d =
     (let safePath = resolveBackPathFromHistoryState url_path historyState (buildCurrentPath pathname search)
                       (U ''/'') [U ''/login''];
          intendedPath = (if login_user_admin d then U ''/admin'' else safePath)
      in if \<not> login_user_complete d then CompleteProfile intendedPath
         else if login_user_admin d then GoTo (U ''/admin'') else GoTo safePath)"

definition login_modal_navigation :: "ustr \<Rightarrow> ustr \<Rightarrow> login_user \<Rightarrow> navigation option" where
  \<comment> \<open>\<open>onLogin\<close> of the login prompt, which may stay on the page\<close>
  "login_modal_navigation pathname search d =
     (let intendedPath = (if login_user_admin d then U ''/admin'' else pathname @ search)
      in if \<not> login_user_complete d then Some (CompleteProfile intendedPath)
         else if login_user_admin d then Some (GoTo (U ''/admin'')) else None)"

section \<open>Lemmas\<close>



definition internal_path :: "ustr \<Rightarrow> bool" where
  "internal_path s \<longleftrightarrow> starts_with s (U ''/'') \<and> \<not> starts_with s (U ''//'')"

lemma internal_root [simp]: "internal_path (U ''/'')"
  by code_simp



lemma path_of_root [simp]: "\<not> excluded_page (path_of (U ''/''))"
  by (simp add: excluded_page_def path_of_def before_query_def strip_slashes_def or_else_def lower_def lower_unit_def U_def)

lemma safe_path_iff: "toSafePathOrEmpty v \<noteq> [] \<Longrightarrow> starts_with (toSafePathOrEmpty v) (U ''/'')"
  by (auto simp: toSafePathOrEmpty_def split: if_splits)

lemma safe_or_root: "starts_with (or_else (toSafePathOrEmpty v) (U ''/'')) (U ''/'')"
  using safe_path_iff [of v] by (auto simp: or_else_def starts_with_def)

section \<open>Properties\<close>



text \<open>
   Going back: the path is the fallback, or the remembered path when it is another page than
  the current one and not blocked; it always starts with a slash.  Unlike the return path above, a
  remembered path that names another host is accepted.
\<close>

theorem back_path_choice:
  shows "(let r = resolveSafeBackPath url_path c current fallback blocked;
              safe = (\<lambda>v. toSafePathOrEmpty (Str v))
          in starts_with r (U ''/'')
             \<and> (r = or_else (safe fallback) (U ''/'')
                \<or> (r = trim c \<and> r \<noteq> safe current \<and> extractPathname url_path r \<notin> set (toBlockedPathnameSet url_path blocked))))
       \<and> (extractPathname url_path (U ''//evil.example/'') \<notin> set (toBlockedPathnameSet url_path blocked)
            \<and> toSafePathOrEmpty (Str current) \<noteq> U ''//evil.example/''
          \<longrightarrow> resolveSafeBackPath url_path (U ''//evil.example/'') current fallback blocked = U ''//evil.example/''
              \<and> normalizeInternalPath (Str (U ''//evil.example/'')) = [])"
proof -
  have "toSafePathOrEmpty (Str (U ''//evil.example/'')) = U ''//evil.example/''"
    "normalizeInternalPath (Str (U ''//evil.example/'')) = []"
    by code_simp+
  moreover have "toSafePathOrEmpty (Str c) = [] \<or> toSafePathOrEmpty (Str c) = trim c"
    by (simp add: toSafePathOrEmpty_def normalizePath_def)
  ultimately show ?thesis
    using safe_or_root [of "Str fallback"] safe_path_iff [of "Str c"]
    by (auto simp: resolveSafeBackPath_def Let_def U_def)
qed

theorem back_path_choice_witness:
  "resolveBackPathFromLocationState Some (Obj [(U ''fromPath'', Str (U ''//evil.example/''))]) (U ''/login'') (U ''/'') [U ''/login'']
     = U ''//evil.example/''"
proof -
  have b: "extractPathname Some (U ''//evil.example/'') \<notin> set (toBlockedPathnameSet Some [U ''/login''])
      \<and> toSafePathOrEmpty (Str (U ''/login'')) \<noteq> U ''//evil.example/''"
    by code_simp
  have "readFromPathFromLocationState (Obj [(U ''fromPath'', Str (U ''//evil.example/''))]) = U ''//evil.example/''"
    by code_simp
  then show ?thesis
    using back_path_choice [THEN conjunct2, rule_format, OF b, of "U ''/''"] by (simp add: resolveBackPathFromLocationState_def)
qed

text \<open>
   Signing in on the login page leads to the completion page exactly when phone or location
  are missing, else to the administration exactly for users with admin access, else back; it never leads
  to the login page itself, and every destination starts with a slash.
\<close>

theorem sign_in_destination:
  assumes "url_path (U ''/'') = Some (U ''/'')" and "url_path (U ''/login'') = Some (U ''/login'')"
    and "url_path (U ''/admin'') = Some (U ''/admin'')"
  shows "(let nav = login_page_navigation url_path state pathname search d;
              p = (case nav of CompleteProfile q \<Rightarrow> q | GoTo q \<Rightarrow> q)
          in (nav = CompleteProfile p) = (\<not> login_user_complete d)
             \<and> (login_user_admin d \<longrightarrow> p = U ''/admin'')
             \<and> starts_with p (U ''/'') \<and> extractPathname url_path p \<noteq> U ''/login'')"
proof -
  let ?r = "resolveBackPathFromHistoryState url_path state (buildCurrentPath pathname search) (U ''/'') [U ''/login'']"
  have blocked: "toBlockedPathnameSet url_path [U ''/login''] = [U ''/login'']"
  proof -
    have "toSafePathOrEmpty (Str (U ''/login'')) = U ''/login''" by code_simp
    moreover have "extractPathname url_path (U ''/login'') = U ''/login''"
      by (simp add: extractPathname_def assms(2) or_else_def)
    moreover have "uniq [U ''/login''] = [U ''/login'']" by (simp add: uniq_def)
    moreover have "U ''/login'' \<noteq> []" by (simp add: U_def)
    ultimately show ?thesis by (simp add: toBlockedPathnameSet_def)
  qed
  have root: "or_else (toSafePathOrEmpty (Str (U ''/''))) (U ''/'') = U ''/''" by code_simp
  have admin: "starts_with (U ''/admin'') (U ''/'')" by code_simp
  have "extractPathname url_path (U ''/'') \<noteq> U ''/login''" "extractPathname url_path (U ''/admin'') \<noteq> U ''/login''"
    using assms(1,3) by (simp_all add: or_else_def extractPathname_def U_def)
  note other = this admin
  have "starts_with ?r (U ''/'') \<and> extractPathname url_path ?r \<noteq> U ''/login''"
    using back_path_choice [of url_path "readFromPathFromHistoryState state" "buildCurrentPath pathname search" "U ''/''"
        "[U ''/login'']", THEN conjunct1] root other
    unfolding blocked resolveBackPathFromHistoryState_def Let_def by auto
  then show ?thesis using other by (auto simp: login_page_navigation_def Let_def)
qed

definition sample_login_user :: login_user where
  "sample_login_user = fallback_user Undef (U ''Zaid'') [] (U ''a@b.jo'') (U ''+962791234567'') (U ''Amman'') (U ''Abdoun'')"

theorem sign_in_destination_witness:
  "login_page_navigation Some (Obj [(U ''usr'', Obj [(U ''fromPath'', Str (U ''/login''))])]) (U ''/login'') [] sample_login_user
     = GoTo (U ''/'')
   \<and> extractPathname Some (U ''/'') \<noteq> U ''/login''"
proof -
  let ?n = "login_page_navigation Some (Obj [(U ''usr'', Obj [(U ''fromPath'', Str (U ''/login''))])]) (U ''/login'') [] sample_login_user"
  have "?n = GoTo (U ''/'')" by code_simp
  then show ?thesis
    using sign_in_destination [of Some "Obj [(U ''usr'', Obj [(U ''fromPath'', Str (U ''/login''))])]" "U ''/login''" "[]"
        sample_login_user] by (simp add: Let_def)
qed

text \<open>
   A sign-in with an identifier keeps accounts apart: for a user other than the one shown, the
  new profile does not depend on the profile shown before, in identity, name, phone, location, picture or
  joining date.  Only the biography is carried over.  For the same user, what the sign-in leaves out is
  kept.
\<close>

theorem sign_in_profile_isolated:
  assumes "opt_str (lu_id d) \<noteq> []" and "\<not> isSameAuthenticatedUser p d" and "\<not> isSameAuthenticatedUser p' d"
  shows "applyLoginUserDataToProfile p d = (applyLoginUserDataToProfile p' d)\<lparr> profile_bio := profile_bio p \<rparr>
    \<and> profile_id (applyLoginUserDataToProfile p d) = opt_str (lu_id d)
    \<and> (isSameAuthenticatedUser q d \<and> lu_phone d = [] \<and> lu_city d = [] \<and> lu_area d = []
       \<longrightarrow> profile_phone (applyLoginUserDataToProfile q d) = profile_phone q
         \<and> opt_str (profile_city (applyLoginUserDataToProfile q d)) = opt_str (profile_city q)
         \<and> opt_str (profile_area (applyLoginUserDataToProfile q d)) = opt_str (profile_area q))"
  using assms by (cases p; cases p') (simp add: applyLoginUserDataToProfile_def Let_def or_else_def)

definition account_shown :: "ustr \<Rightarrow> ustr \<Rightarrow> user_profile" where
  "account_shown i bio = (createProfileForAuthUser None)\<lparr> profile_id := i, profile_bio := bio \<rparr>"

theorem sign_in_profile_isolated_witness:
  "(let d = sample_login_user\<lparr> lu_id := Some (U ''7'') \<rparr> in
      applyLoginUserDataToProfile (account_shown (U ''3'') (U ''I sell cars'')) d
        = (applyLoginUserDataToProfile (account_shown [] []) d)\<lparr> profile_bio := U ''I sell cars'' \<rparr>)"
proof -
  let ?d = "sample_login_user\<lparr> lu_id := Some (U ''7'') \<rparr>"
  have "opt_str (lu_id ?d) \<noteq> []" "\<not> isSameAuthenticatedUser (account_shown (U ''3'') (U ''I sell cars'')) ?d"
    "\<not> isSameAuthenticatedUser (account_shown [] []) ?d"
    by code_simp+
  from sign_in_profile_isolated [OF this] show ?thesis by (simp add: Let_def account_shown_def)
qed

end
