(* ===== verification/Users.thy ===== *)
theory Users
  imports AuthApi Catalog PostWrite
begin

text \<open>
  Users: the payload schema (\<open>services/api/schemas/userSchema.ts\<close>), the records built from it
  (\<open>services/api/users.shared.ts\<close>) and the endpoints (\<open>services/api/users.ts\<close>), with the answers of
  the server and of the location lookups as arguments.  Bodies are the objects given to
  \<open>JSON.stringify\<close>, which leaves out the properties that are \<open>Undef\<close>.
\<close>

section \<open>userSchema.ts\<close>

definition DEFAULT_ACTIVE_STATUS :: int where "DEFAULT_ACTIVE_STATUS = 1"
definition DEFAULT_USER_ROLE_ID :: int where "DEFAULT_USER_ROLE_ID = 2"

record parsed_user =
  pu_id :: ustr
  pu_userId :: "int option"
  pu_email :: ustr
  pu_firstName :: ustr
  pu_lastName :: ustr
  pu_phone :: ustr
  pu_city :: ustr
  pu_area :: ustr
  pu_bio :: ustr
  pu_avatar :: "ustr option"
  pu_joinedDate :: ustr
  pu_joinedAt :: ustr
  pu_status :: int
  pu_suspendedUntil :: "ustr option"
  pu_roleId :: int
  pu_isDeleted :: bool
  pu_raw :: jval
  pu_cityId :: "int option"
  pu_areaId :: "int option"

definition normalizeCandidate :: "jval \<Rightarrow> ustr" where
  "normalizeCandidate v =
     (case v of
        Str s \<Rightarrow> trim s
      | Num (Fin r) \<Rightarrow> if trunc_rat r > 0 then num_str (Fin (of_int (trunc_rat r))) else []
      | BigInt i \<Rightarrow> if i > 0 then int_str i else []
      | _ \<Rightarrow> [])"

definition resolveRawUserId :: "jval \<Rightarrow> ustr" where
  "resolveRawUserId record' =
     (case find (\<lambda>s. s \<noteq> []) (map (\<lambda>k. normalizeCandidate (fld record' k)) [''Id'', ''id'', ''UserID'', ''userID'']) of
        Some s \<Rightarrow> s | None \<Rightarrow> [])"

definition resolveJoinDate :: "jsenv \<Rightarrow> jval \<Rightarrow> ustr" where
  "resolveJoinDate env r =
     foldr (\<lambda>k rest. or_else (readString (fld r k)) rest) [''JoinedDate'', ''joinedDate'', ''JoinDate'', ''joinDate'']
       (iso_string env (now_ms env))"

definition text2 :: "jval \<Rightarrow> string \<Rightarrow> string \<Rightarrow> ustr" where
  \<comment> \<open>\<open>readString(r.A ?? r.b)\<close>\<close>
  "text2 r a b = readString (flds r [a, b])"

definition parseUserSchema :: "jsenv \<Rightarrow> jval \<Rightarrow> ustr \<Rightarrow> parsed_user option" where
  "parseUserSchema env v fallbackUserId =
     (case asRecord v of
        None \<Rightarrow> None
      | Some r \<Rightarrow>
          (let i = resolveRawUserId r; joinedDate = resolveJoinDate env r in
           if i = [] then None
           else Some \<lparr> pu_id = i,
             pu_userId = (case toPositiveIntegerId (Str i) of Some n \<Rightarrow> Some n | None \<Rightarrow> toPositiveIntegerId (Str fallbackUserId)),
             pu_email = text2 r ''Email'' ''email'', pu_firstName = text2 r ''FirstName'' ''firstName'',
             pu_lastName = text2 r ''LastName'' ''lastName'', pu_phone = text2 r ''Phone'' ''phone'',
             pu_city = text2 r ''City'' ''city'', pu_area = text2 r ''Area'' ''area'', pu_bio = text2 r ''Bio'' ''bio'',
             pu_avatar = undef_if_empty (text2 r ''Avatar'' ''avatar''), pu_joinedDate = joinedDate,
             pu_joinedAt = toIsoStringOrNow env (Str joinedDate),
             pu_status = toIntegerOrDefault (flds r [''Status'', ''status'']) DEFAULT_ACTIVE_STATUS MIN_SAFE_INTEGER,
             pu_suspendedUntil = undef_if_empty (text2 r ''SuspendedUntil'' ''suspendedUntil''),
             pu_roleId = toIntegerOrDefault (flds r [''RoleID'', ''roleID'']) DEFAULT_USER_ROLE_ID 1,
             pu_isDeleted = truthy (coalesce [fld r ''IsDeleted'', fld r ''isDeleted'', Bool False]), pu_raw = r,
             pu_cityId = toPositiveIntegerId (flds r [''CityId'', ''cityId'']),
             pu_areaId = toPositiveIntegerId (flds r [''AreaId'', ''areaId'']) \<rparr>))"

definition parseUsersCollection :: "jsenv \<Rightarrow> jval \<Rightarrow> parsed_user list" where
  "parseUsersCollection env v =
     (case v of Arr vs \<Rightarrow> List.map_filter (\<lambda>e. parseUserSchema env e []) vs | _ \<Rightarrow> [])"

section \<open>users.shared.ts\<close>

record profile_record =
  pr_id :: ustr
  pr_userId :: "int option"
  pr_email :: ustr
  pr_firstName :: ustr
  pr_lastName :: ustr
  pr_phone :: ustr
  pr_city :: ustr
  pr_area :: ustr
  pr_cityId :: "int option"
  pr_areaId :: "int option"
  pr_bio :: ustr
  pr_avatar :: "ustr option"
  pr_joinedAt :: ustr
  pr_status :: int
  pr_suspendedUntil :: "ustr option"
  pr_roleId :: int
  pr_isDeleted :: bool
  pr_name :: ustr

datatype account_status = ActiveAccount | SuspendedAccount | BannedAccount

record admin_user =
  au_rawStatus :: int
  au_isDeleted :: bool
  au_id :: ustr
  au_name :: ustr
  au_email :: ustr
  au_roleId :: int
  au_roleName :: ustr
  au_status :: account_status
  au_suspendedUntil :: "ustr option"
  au_joinedDate :: ustr
  au_joinedAt :: ustr
  au_firstName :: ustr
  au_lastName :: ustr
  au_phone :: ustr
  au_city :: ustr
  au_avatar :: "ustr option"
  au_raw :: jval

record mutable_fields =
  mf_email :: ustr
  mf_firstName :: ustr
  mf_lastName :: ustr
  mf_isDeleted :: bool

definition resolveRoleName :: "int \<Rightarrow> jval \<Rightarrow> ustr" where
  "resolveRoleName roleId rawRoleName =
     (if readString rawRoleName \<noteq> [] then readString rawRoleName
      else if roleId = 1 then U ''Admin'' else if roleId = 2 then U ''User''
      else U ''Role #'' @ num_str (Fin (of_int roleId)))"

definition full_name :: "parsed_user \<Rightarrow> ustr" where
  "full_name p = trim (pu_firstName p @ [32] @ pu_lastName p)"

definition normalizeUserProfile :: "jsenv \<Rightarrow> jval \<Rightarrow> ustr \<Rightarrow> profile_record option" where
  "normalizeUserProfile env v fallbackUserId =
     map_option (\<lambda>p. \<lparr> pr_id = pu_id p, pr_userId = pu_userId p, pr_email = pu_email p, pr_firstName = pu_firstName p,
        pr_lastName = pu_lastName p, pr_phone = pu_phone p, pr_city = pu_city p, pr_area = pu_area p,
        pr_cityId = pu_cityId p, pr_areaId = pu_areaId p, pr_bio = pu_bio p, pr_avatar = pu_avatar p,
        pr_joinedAt = pu_joinedAt p, pr_status = pu_status p, pr_suspendedUntil = pu_suspendedUntil p,
        pr_roleId = pu_roleId p, pr_isDeleted = pu_isDeleted p, pr_name = full_name p \<rparr>)
       (parseUserSchema env v fallbackUserId)"

definition isTimedSuspended :: "jsenv \<Rightarrow> parsed_user \<Rightarrow> bool" where
  "isTimedSuspended env p \<longleftrightarrow>
     pu_status p = 1
     \<and> (case pu_suspendedUntil p of None \<Rightarrow> False
        | Some s \<Rightarrow> (case parse_date env s of None \<Rightarrow> False | Some t \<Rightarrow> t > now_ms env))"

definition normalizeAdminUser :: "jsenv \<Rightarrow> jval \<Rightarrow> admin_user option" where
  "normalizeAdminUser env v =
     map_option (\<lambda>p. \<lparr> au_rawStatus = pu_status p, au_isDeleted = pu_isDeleted p, au_id = pu_id p, au_name = full_name p,
        au_email = pu_email p, au_roleId = pu_roleId p,
        au_roleName = resolveRoleName (pu_roleId p) (flds v [''RoleName'', ''roleName'']),
        au_status = (if pu_status p \<noteq> 1 \<or> pu_isDeleted p then BannedAccount
                     else if isTimedSuspended env p then SuspendedAccount else ActiveAccount),
        au_suspendedUntil = pu_suspendedUntil p, au_joinedDate = pu_joinedDate p, au_joinedAt = pu_joinedAt p,
        au_firstName = pu_firstName p, au_lastName = pu_lastName p, au_phone = pu_phone p, au_city = pu_city p,
        au_avatar = pu_avatar p, au_raw = pu_raw p \<rparr>)
       (parseUserSchema env v [])"

definition resolveMutableUserFields :: "profile_record option \<Rightarrow> mutable_fields option" where
  "resolveMutableUserFields u =
     (case u of
        None \<Rightarrow> None
      | Some p \<Rightarrow>
          if pr_email p = [] \<or> pr_firstName p = [] then None
          else Some \<lparr> mf_email = pr_email p, mf_firstName = pr_firstName p, mf_lastName = pr_lastName p,
                      mf_isDeleted = pr_isDeleted p \<rparr>)"

section \<open>users.ts\<close>

definition hasMatchingUserIdentity :: "jval \<Rightarrow> int \<Rightarrow> bool" where
  "hasMatchingUserIdentity u expectedUserId \<longleftrightarrow>
     toPositiveIntegerId (flds u [''Id'', ''id'', ''UserID'', ''userID'']) = Some expectedUserId"

definition is_number :: "jval \<Rightarrow> bool" where
  "is_number v = (case v of Num _ \<Rightarrow> True | _ \<Rightarrow> False)"

definition same_id :: "jval \<Rightarrow> int \<Rightarrow> bool" where
  \<comment> \<open>\<open>=== on a number\<close>\<close>
  "same_id v i = (v = Num (Fin (of_int i)))"

definition with_location_names ::
    "location_city list \<Rightarrow> (jval \<Rightarrow> location_area list) \<Rightarrow> jval \<Rightarrow> jval" where
  \<comment> \<open>names for the identifiers, where the names are missing\<close>
  "with_location_names cities areasByCity rawUser =
     (let city = flds rawUser [''CityId'', ''cityId'']; area = flds rawUser [''AreaId'', ''areaId'']
      in if is_number city \<and> \<not> is_str (fld rawUser ''City'')
         then (case find (\<lambda>c. same_id city (cityId c)) cities of
                 None \<Rightarrow> rawUser
               | Some c \<Rightarrow>
                   (let u = obj_set rawUser ''City'' (Str (cityName c)) in
                    if is_number area \<and> \<not> is_str (fld u ''Area'')
                    then (case find (\<lambda>a. same_id area (areaId a)) (areasByCity city) of
                            None \<Rightarrow> u | Some a \<Rightarrow> obj_set u ''Area'' (Str (areaName a)))
                    else u))
         else rawUser)"

definition getUser ::
    "jsenv \<Rightarrow> location_city list \<Rightarrow> (jval \<Rightarrow> location_area list) \<Rightarrow> ustr \<Rightarrow> api_response \<Rightarrow> thrown + profile_record option" where
  "getUser env cities areasByCity userId response =
     (let invalid = Inl (JsError (U ''Error'') (U ''Invalid user profile response'')) in
      case toPositiveIntegerId (Str userId) of
        None \<Rightarrow> Inl (JsError (U ''Error'') (U ''Invalid user ID''))
      | Some n \<Rightarrow>
          (case response of
             ApiOk d \<Rightarrow>
               if \<not> truthy d then invalid
               else if \<not> hasMatchingUserIdentity d n then invalid
               else (case normalizeUserProfile env (with_location_names cities areasByCity d) (int_str n) of
                       None \<Rightarrow> invalid | Some p \<Rightarrow> Inr (Some p))
           | ApiErr e \<Rightarrow>
               if err_code e = U ''HTTP_404'' then Inr None
               else Inl (JsError (U ''Error'') (or_else (err_message e) (U ''Failed to load user profile'')))))"

definition updateUser :: "ustr \<Rightarrow> api_response \<Rightarrow> thrown + jval" where
  "updateUser userId response =
     (case toPositiveIntegerId (Str userId) of
        None \<Rightarrow> Inl (JsError (U ''Error'') (U ''Invalid user ID''))
      | Some n \<Rightarrow>
          (case response of
             ApiOk d \<Rightarrow> Inr d
           | ApiErr e \<Rightarrow> Inl (JsError (U ''Error'') (or_else (err_message e) (U ''Failed to update user'')))))"

definition MAX_AVATAR_BYTES :: int where "MAX_AVATAR_BYTES = 5 * 1024 * 1024"

definition avatar_refused :: "ustr \<Rightarrow> image_input \<Rightarrow> ustr option" where
  \<comment> \<open>the checks before the upload\<close>
  "avatar_refused userId f =
     (if toPositiveIntegerId (Str userId) = None then Some (U ''Invalid user ID'')
      else if file_size f > MAX_AVATAR_BYTES
      then Some (U ''Avatar image is too large ('' @ fixed1 (of_int (file_size f) / (1024 * 1024))
             @ U '' MB). Maximum allowed size is 5 MB.'')
      else if \<not> starts_with (file_type f) (U ''image/'')
      then Some (U ''Only image files are allowed (JPG, PNG, WebP, GIF).'') else None)"

definition uploadAvatar :: "ustr \<Rightarrow> image_input \<Rightarrow> api_response \<Rightarrow> thrown + jval" where
  "uploadAvatar userId f response =
     (case avatar_refused userId f of
        Some m \<Rightarrow> Inl (JsError (U ''Error'') m)
      | None \<Rightarrow>
          (case response of
             ApiOk d \<Rightarrow> if truthy d then Inr (fld d ''AvatarUrl'')
                        else Inl (JsError (U ''Error'') (U ''Failed to upload avatar''))
           | ApiErr e \<Rightarrow> Inl (JsError (U ''Error'') (or_else (err_message e) (U ''Failed to upload avatar'')))))"

definition getAllUsers :: "jsenv \<Rightarrow> api_response \<Rightarrow> bool \<times> admin_user list" where
  "getAllUsers env response =
     (case response of
        ApiOk (Arr vs) \<Rightarrow>
          (True, List.map_filter (\<lambda>p. normalizeAdminUser env (pu_raw p)) (parseUsersCollection env (Arr vs)))
      | _ \<Rightarrow> (False, []))"

definition null_or :: "jval \<Rightarrow> string \<Rightarrow> string \<Rightarrow> jval" where
  \<comment> \<open>\<open>m.A === null || m.a === null ? null : readString(m.A ?? m.a) || null\<close>\<close>
  "null_or m a b = (if fld m a = Null \<or> fld m b = Null then Null else nonempty_or_null (text2 m a b))"

definition location_text :: "jval \<Rightarrow> string \<Rightarrow> string \<Rightarrow> ustr" where
  \<comment> \<open>the same without the fallback; \<open>null\<close> and the empty text are both falsy\<close>
  "location_text m a b = (if fld m a = Null \<or> fld m b = Null then [] else text2 m a b)"

definition createUser_body ::
    "jsenv \<Rightarrow> (ustr \<Rightarrow> int option) \<Rightarrow> (int \<Rightarrow> ustr \<Rightarrow> int option) \<Rightarrow> jval \<Rightarrow> jval option" where
  \<comment> \<open>\<open>None\<close> where a required field is missing\<close>
  "createUser_body env cityOf areaOf userData =
     (let m = toRecord userData; password = text2 m ''Password'' ''password''; email = lower (text2 m ''Email'' ''email'');
          firstName = text2 m ''FirstName'' ''firstName''
      in if password = [] \<or> email = [] \<or> firstName = [] then None
         else
           (let city = location_text m ''City'' ''city''; area = location_text m ''Area'' ''area'';
                city_id = (if city = [] then None else cityOf city);
                area_id = (case city_id of None \<Rightarrow> None
                           | Some c \<Rightarrow> if c = 0 \<or> area = [] then None else areaOf c area);
                num = (\<lambda>v. case v of None \<Rightarrow> Undef | Some i \<Rightarrow> Num (Fin (of_int i)))
            in Some (jobj [(''Password'', Str password), (''Email'', Str email), (''FirstName'', Str firstName),
                 (''LastName'', Str (text2 m ''LastName'' ''lastName'')), (''CityId'', num city_id), (''AreaId'', num area_id),
                 (''Phone'', null_or m ''Phone'' ''phone''), (''Bio'', null_or m ''Bio'' ''bio''),
                 (''Avatar'', null_or m ''Avatar'' ''avatar''),
                 (''JoinDate'', Str (or_else (text2 m ''JoinDate'' ''joinDate'') (iso_string env (now_ms env)))),
                 (''Status'', num (Some (toIntegerOrDefault (flds m [''Status'', ''status'']) DEFAULT_ACTIVE_STATUS MIN_SAFE_INTEGER))),
                 (''RoleID'', num (Some (toIntegerOrDefault (flds m [''RoleID'', ''roleID'']) DEFAULT_USER_ROLE_ID 1))),
                 (''IsDeleted'', Bool (truthy (coalesce [fld m ''IsDeleted'', fld m ''isDeleted'', Bool False])))])))"

definition createUser :: "jval option \<Rightarrow> api_response \<Rightarrow> bool \<times> jval \<times> ustr option" where
  \<comment> \<open>success, the user and the message\<close>
  "createUser body response =
     (case body of
        None \<Rightarrow> (False, Undef, Some (U ''Password, email, and first name are required''))
      | Some _ \<Rightarrow>
          (case response of
             ApiOk d \<Rightarrow> (True, d, None)
           | ApiErr e \<Rightarrow> (False, Undef, Some (or_else (err_message e) (U ''Failed to create user'')))))"

definition deleteUser :: "ustr \<Rightarrow> api_response \<Rightarrow> bool \<times> ustr" where
  "deleteUser userId response =
     (case toPositiveIntegerId (Str userId) of
        None \<Rightarrow> (False, U ''Invalid user ID'')
      | Some _ \<Rightarrow>
          (case response of
             ApiOk d \<Rightarrow> (True, or_else (readString (flds d [''message'', ''Message''])) (U ''User deleted successfully''))
           | ApiErr e \<Rightarrow> (False, or_else (err_message e) (U ''Failed to delete user''))))"

definition user_exists :: "ustr \<Rightarrow> api_response \<Rightarrow> thrown + bool" where
  "user_exists userId response =
     (case toPositiveIntegerId (Str userId) of
        None \<Rightarrow> Inl (JsError (U ''Error'') (U ''Invalid user ID''))
      | Some _ \<Rightarrow>
          (case response of
             ApiErr e \<Rightarrow> Inl (JsError (U ''Error'') (or_else (err_message e) (U ''Failed to verify user'')))
           | ApiOk (Bool b) \<Rightarrow> Inr b
           | ApiOk _ \<Rightarrow> Inl (JsError (U ''Error'') (U ''Invalid user existence response''))))"

definition admin_patch :: "mutable_fields \<Rightarrow> (string \<times> jval) list \<Rightarrow> jval" where
  \<comment> \<open>the body of \<open>updateUserWithAdminPatch\<close>; a key of the patch overrides\<close>
  "admin_patch f patch =
     Obj (assoc_fill (map (\<lambda>(k, v). (U k, v))
       ([(''FirstName'', Str (mf_firstName f)), (''LastName'', Str (mf_lastName f)), (''Email'', Str (mf_email f))] @ patch)))"

definition status_patch :: "bool \<Rightarrow> mutable_fields \<Rightarrow> (string \<times> jval) list" where
  "status_patch active f =
     [(''Status'', Num (Fin (if active then 1 else 2))),
      (''IsDeleted'', Bool (if active then False else mf_isDeleted f)),
      (''ClearSuspension'', (if active then Bool True else Undef))]"

definition updateUserStatus :: "bool \<Rightarrow> thrown + profile_record option \<Rightarrow> thrown + jval option" where
  \<comment> \<open>the body sent, \<open>None\<close> where nothing is sent and the answer is false; a failed read of the user is rethrown\<close>
  "updateUserStatus active user =
     (case user of
        Inl e \<Rightarrow> Inl e
      | Inr u \<Rightarrow> Inr (map_option (\<lambda>f. admin_patch f (status_patch active f)) (resolveMutableUserFields u)))"

definition updateUserRole :: "jnum \<Rightarrow> thrown + profile_record option \<Rightarrow> thrown + jval option" where
  "updateUserRole roleId user =
     (case roleId of
        Fin r \<Rightarrow>
          if is_int_rat r \<and> r \<ge> 1
          then (case user of
                  Inl e \<Rightarrow> Inl e
                | Inr u \<Rightarrow> Inr (map_option (\<lambda>f. admin_patch f [(''RoleID'', Num roleId)]) (resolveMutableUserFields u)))
          else Inr None
      | _ \<Rightarrow> Inr None)"

section \<open>Lemmas\<close>

lemma is_object_set [simp]: "asRecord (obj_set v k x) = None \<longleftrightarrow> asRecord v = None"
  by (cases v) (simp_all add: obj_set_def)

lemma location_names_keep:
  assumes "k \<noteq> ''City''" and "k \<noteq> ''Area''"
  shows "fld (with_location_names cities areas u) k = fld u k"
  using assms by (auto simp: with_location_names_def Let_def fld_obj_set split: option.splits)

lemma location_names_record: "asRecord (with_location_names cities areas u) = None \<longleftrightarrow> asRecord u = None"
  by (auto simp: with_location_names_def Let_def split: option.splits)

lemma candidate_nullish: "is_nullish v \<Longrightarrow> normalizeCandidate v = []"
  by (cases v) (simp_all add: normalizeCandidate_def)

lemma candidate_id:
  assumes "toPositiveIntegerId v = Some n"
  shows "normalizeCandidate v \<noteq> [] \<and> toPositiveIntegerId (Str (normalizeCandidate v)) = Some n"
proof (cases v)
  case (Str s)
  then have "normalizeCandidate v = trim s" by (simp add: normalizeCandidate_def)
  then show ?thesis using assms Str toPositiveIntegerId_Str_Some [of s n] toPositiveIntegerId_trim [of s] by simp
next
  case (Num x)
  then obtain r where r: "v = Num (Fin r)" "is_safe_integer (Fin r)" "r > 0" "n = \<lfloor>r\<rfloor>"
    using assms by (cases x) (auto split: if_splits)
  then have i: "r = of_int n" by (auto elim!: is_int_ratE)
  have n: "0 < n" "n \<le> MAX_SAFE_INTEGER" using toPositiveIntegerId_range [OF assms] by simp_all
  have "normalizeCandidate v = int_str n"
    using n(1) unfolding r(1) i by (simp add: normalizeCandidate_def trunc_rat_def)
  moreover have "int_str n \<noteq> []" using toPositiveIntegerId_Str_Some [OF toPositiveIntegerId_int_str [OF n]] by auto
  ultimately show ?thesis using toPositiveIntegerId_int_str [OF n] by simp
next
  case (BigInt i)
  then have n: "0 < n" "n \<le> MAX_SAFE_INTEGER" "v = BigInt n" using assms by (auto split: if_splits)
  moreover have "int_str n \<noteq> []" using toPositiveIntegerId_Str_Some [OF toPositiveIntegerId_int_str [OF n(1,2)]] by auto
  ultimately show ?thesis using toPositiveIntegerId_int_str [OF n(1,2)] by (simp add: normalizeCandidate_def)
qed (use assms in simp_all)

lemma find_candidate:
  "toPositiveIntegerId (coalesce vs) = Some n \<Longrightarrow>
     find (\<lambda>s. s \<noteq> []) (map normalizeCandidate vs) = Some (normalizeCandidate (coalesce vs))"
proof (induction vs rule: coalesce.induct)
  case (3 v w vs)
  show ?case
  proof (cases "is_nullish v")
    case True
    then show ?thesis using 3 by (simp add: candidate_nullish)
  next
    case False
    then show ?thesis using 3(2) candidate_id [of v n] by simp
  qed
qed (use candidate_id in auto)

lemma matching_id:
  assumes "hasMatchingUserIdentity u n"
  shows "resolveRawUserId u \<noteq> [] \<and> toPositiveIntegerId (Str (resolveRawUserId u)) = Some n"
proof -
  let ?vs = "map (fld u) [''Id'', ''id'', ''UserID'', ''userID'']"
  have c: "toPositiveIntegerId (coalesce ?vs) = Some n" using assms by (simp add: hasMatchingUserIdentity_def flds_def)
  from find_candidate [OF c] have "resolveRawUserId u = normalizeCandidate (coalesce ?vs)"
    by (simp add: resolveRawUserId_def)
  then show ?thesis using candidate_id [OF c] by simp
qed

lemma location_names_id [simp]:
  "hasMatchingUserIdentity (with_location_names cities areas u) n = hasMatchingUserIdentity u n"
  "resolveRawUserId (with_location_names cities areas u) = resolveRawUserId u"
  by (simp_all add: hasMatchingUserIdentity_def resolveRawUserId_def flds_def location_names_keep)

lemma parsed_raw: "parseUserSchema env v f = Some p \<Longrightarrow> pu_raw p = v \<and> pu_id p \<noteq> []"
  by (cases v) (auto simp: parseUserSchema_def Let_def split: if_splits)

lemma reparsed:
  "List.map_filter (\<lambda>p. normalizeAdminUser env (pu_raw p)) (parseUsersCollection env (Arr vs))
     = List.map_filter (normalizeAdminUser env) vs"
proof (induction vs)
  case (Cons v vs)
  have "normalizeAdminUser env v = None \<longleftrightarrow> parseUserSchema env v [] = None" by (simp add: normalizeAdminUser_def)
  then show ?case
    using Cons parsed_raw [of env v "[]"]
    by (cases "parseUserSchema env v []") (auto simp: parseUsersCollection_def map_filter_simps)
qed (simp add: parseUsersCollection_def map_filter_simps)

lemma role_name_given: "resolveRoleName r v \<noteq> []"
  by (auto simp: resolveRoleName_def U_def)

section \<open>Properties\<close>

text \<open>
  Claim C37.  A profile is the profile asked for: \<open>getUser\<close> answers with a profile only when the
  identifier is a positive integer and the server's record carries that very identifier, whichever of
  its spellings it uses, and the names of city and area are filled in only where they are missing.  A
  confirmed missing user is the only answer without a profile, every other outcome is an error.
\<close>

theorem profile_is_requested_user:
  assumes "getUser env cities areas userId response = Inr (Some p)"
  shows "\<exists>n d. response = ApiOk d \<and> toPositiveIntegerId (Str userId) = Some n \<and> pr_userId p = Some n
     \<and> toPositiveIntegerId (Str (pr_id p)) = Some n \<and> hasMatchingUserIdentity d n
     \<and> pr_email p = text2 d ''Email'' ''email'' \<and> pr_roleId p \<ge> 1
     \<and> (is_str (fld d ''City'') \<longrightarrow> pr_city p = readString (fld d ''City''))"
proof -
  from assms obtain n d where n: "toPositiveIntegerId (Str userId) = Some n" and d: "response = ApiOk d"
    and m: "hasMatchingUserIdentity d n"
    and p: "normalizeUserProfile env (with_location_names cities areas d) (int_str n) = Some p"
    by (auto simp: getUser_def Let_def split: option.splits api_response.splits if_splits)
  let ?u = "with_location_names cities areas d"
  from p obtain q where q: "parseUserSchema env ?u (int_str n) = Some q"
    and p: "pr_id p = pu_id q" "pr_userId p = pu_userId q" "pr_email p = pu_email q" "pr_roleId p = pu_roleId q"
      "pr_city p = pu_city q"
    by (auto simp: normalizeUserProfile_def)
  from q have "asRecord ?u = Some ?u" using parsed_raw [OF q] by (cases ?u) (auto simp: parseUserSchema_def)
  with q have q': "pu_id q = resolveRawUserId ?u" "pu_email q = text2 ?u ''Email'' ''email''"
    "pu_userId q = (case toPositiveIntegerId (Str (resolveRawUserId ?u)) of Some k \<Rightarrow> Some k
        | None \<Rightarrow> toPositiveIntegerId (Str (int_str n)))"
    "pu_roleId q = toIntegerOrDefault (flds ?u [''RoleID'', ''roleID'']) DEFAULT_USER_ROLE_ID 1"
    "pu_city q = text2 ?u ''City'' ''city''"
    by (auto simp: parseUserSchema_def Let_def simp del: toPositiveIntegerId.simps split: if_splits)
  have "text2 ?u ''Email'' ''email'' = text2 d ''Email'' ''email''"
    by (simp add: text2_def flds_def location_names_keep)
  moreover have "pr_roleId p \<ge> 1" by (simp add: p q' toIntegerOrDefault_min DEFAULT_USER_ROLE_ID_def)
  moreover have "pr_city p = readString (fld d ''City'')" if "is_str (fld d ''City'')"
  proof -
    have "?u = d" using that by (simp add: with_location_names_def Let_def)
    then show ?thesis using that by (cases "fld d ''City''") (simp_all add: p q' text2_def flds_def)
  qed
  ultimately show ?thesis using n d m p q' matching_id [OF m] by (auto simp del: toPositiveIntegerId.simps)
qed

definition sample_user_row :: jval where
  "sample_user_row = jobj [(''Id'', Str (U '' 07 '')), (''Email'', Str (U ''a@b.jo'')), (''FirstName'', Str (U ''Zaid'')),
     (''CityId'', Num (Fin 2)), (''Status'', Num (Fin 1)), (''SuspendedUntil'', Str (U ''2999-01-01''))]"

definition sample_city :: location_city where
  "sample_city = \<lparr> cityId = 2, cityName = U ''Zarqa'', cityNameAr = [] \<rparr>"

theorem profile_is_requested_user_witness:
  "\<exists>p. getUser ref_env [sample_city] (\<lambda>_. []) (U ''7'') (ApiOk sample_user_row) = Inr (Some p)
     \<and> pr_userId p = Some 7 \<and> pr_city p = U ''Zarqa''"
proof -
  let ?r = "getUser ref_env [sample_city] (\<lambda>_. []) (U ''7'') (ApiOk sample_user_row)"
  have c: "(case ?r of Inr (Some p) \<Rightarrow> pr_city p = U ''Zarqa'' | _ \<Rightarrow> False)" by code_simp
  then obtain p where p: "?r = Inr (Some p)" "pr_city p = U ''Zarqa''" by (auto split: sum.splits option.splits)
  moreover have "toPositiveIntegerId (Str (U ''7'')) = Some 7" by code_simp
  ultimately show ?thesis using profile_is_requested_user [OF p(1)] by (auto simp del: toPositiveIntegerId.simps)
qed

text \<open>
   The administration lists the users the server sends, in its order, leaving out only rows
  without an identifier, and shows each one's standing: banned exactly when the account is not active or
  deleted, suspended exactly when it is active and its suspension lies in the future; every user has an
  identifier and a role with a name.  Changing the standing sends name and address back as they are.
\<close>

theorem admin_users_listed:
  shows "getAllUsers env (ApiOk (Arr vs)) = (True, List.map_filter (normalizeAdminUser env) vs)
    \<and> (normalizeAdminUser env v = None \<longleftrightarrow> asRecord v = None \<or> resolveRawUserId v = [])
    \<and> (normalizeAdminUser env v = Some u \<longrightarrow>
         au_id u \<noteq> [] \<and> au_roleId u \<ge> 1 \<and> au_roleName u \<noteq> []
         \<and> (au_status u = BannedAccount) = (au_rawStatus u \<noteq> 1 \<or> au_isDeleted u)
         \<and> (au_status u = SuspendedAccount)
             = (au_rawStatus u = 1 \<and> \<not> au_isDeleted u
                \<and> (\<exists>s t. au_suspendedUntil u = Some s \<and> parse_date env s = Some t \<and> t > now_ms env)))
    \<and> (fld (admin_patch f (status_patch active f)) ''Email'' = Str (mf_email f)
       \<and> fld (admin_patch f (status_patch active f)) ''FirstName'' = Str (mf_firstName f)
       \<and> fld (admin_patch f (status_patch active f)) ''LastName'' = Str (mf_lastName f)
       \<and> fld (admin_patch f (status_patch active f)) ''Status'' = Num (Fin (if active then 1 else 2))
       \<and> fld (admin_patch f (status_patch active f)) ''IsDeleted'' = Bool (\<not> active \<and> mf_isDeleted f))"
proof (intro conjI)
  show "getAllUsers env (ApiOk (Arr vs)) = (True, List.map_filter (normalizeAdminUser env) vs)"
    by (simp add: getAllUsers_def reparsed)
  show "normalizeAdminUser env v = None \<longleftrightarrow> asRecord v = None \<or> resolveRawUserId v = []"
    by (cases v) (simp_all add: normalizeAdminUser_def parseUserSchema_def Let_def)
  show "normalizeAdminUser env v = Some u \<longrightarrow>
         au_id u \<noteq> [] \<and> au_roleId u \<ge> 1 \<and> au_roleName u \<noteq> []
         \<and> (au_status u = BannedAccount) = (au_rawStatus u \<noteq> 1 \<or> au_isDeleted u)
         \<and> (au_status u = SuspendedAccount)
             = (au_rawStatus u = 1 \<and> \<not> au_isDeleted u
                \<and> (\<exists>s t. au_suspendedUntil u = Some s \<and> parse_date env s = Some t \<and> t > now_ms env))"
  proof
    assume "normalizeAdminUser env v = Some u"
    then obtain q where q: "parseUserSchema env v [] = Some q" and u: "au_id u = pu_id q" "au_roleId u = pu_roleId q"
      "au_roleName u = resolveRoleName (pu_roleId q) (flds v [''RoleName'', ''roleName''])"
      "au_status u = (if pu_status q \<noteq> 1 \<or> pu_isDeleted q then BannedAccount
                     else if isTimedSuspended env q then SuspendedAccount else ActiveAccount)"
      "au_rawStatus u = pu_status q" "au_isDeleted u = pu_isDeleted q" "au_suspendedUntil u = pu_suspendedUntil q"
      by (auto simp: normalizeAdminUser_def)
    have "pu_roleId q \<ge> 1"
      using q by (cases v) (auto simp: parseUserSchema_def Let_def toIntegerOrDefault_min DEFAULT_USER_ROLE_ID_def
          split: if_splits)
    then show "au_id u \<noteq> [] \<and> au_roleId u \<ge> 1 \<and> au_roleName u \<noteq> []
         \<and> (au_status u = BannedAccount) = (au_rawStatus u \<noteq> 1 \<or> au_isDeleted u)
         \<and> (au_status u = SuspendedAccount)
             = (au_rawStatus u = 1 \<and> \<not> au_isDeleted u
                \<and> (\<exists>s t. au_suspendedUntil u = Some s \<and> parse_date env s = Some t \<and> t > now_ms env))"
      using parsed_raw [OF q] role_name_given by (auto simp: u isTimedSuspended_def split: option.splits)
  qed
qed (auto simp: admin_patch_def status_patch_def assoc_fill_def U_def)

theorem admin_users_listed_witness:
  "\<exists>u. getAllUsers ref_env (ApiOk (Arr [sample_user_row, Null])) = (True, [u]) \<and> au_id u = U ''07''
     \<and> au_roleName u \<noteq> []"
proof -
  have "(case normalizeAdminUser ref_env sample_user_row of Some u \<Rightarrow> au_id u = U ''07'' | None \<Rightarrow> False)" by code_simp
  then obtain u where u: "normalizeAdminUser ref_env sample_user_row = Some u" "au_id u = U ''07''"
    by (auto split: option.splits)
  have "normalizeAdminUser ref_env Null = None" by (simp add: normalizeAdminUser_def parseUserSchema_def)
  then show ?thesis
    using u admin_users_listed [of ref_env "[sample_user_row, Null]" sample_user_row u]
    by (auto simp: map_filter_simps)
qed

end
