(* ===== verification/UserProfile.thy ===== *)
theory UserProfile
  imports Routes Users
begin

text \<open>
  The profile of the signed-in user (\<open>features/auth/hooks/useUserProfile.ts\<close>) and saving it
  (\<open>app/routes/useProfileSaveAction.ts\<close>).  The hook keeps an owner, a run number and a retry count in
  refs, so that answers for another account or from a superseded request are dropped.  Requests under
  way and the retry timer are part of the state; answers are those of \<open>Users.getUser\<close>.  A sign-in is
  one step: the page hands the user to the session and the profile to the hook before anything renders.
\<close>

section \<open>State\<close>

definition MAX_FETCH_RETRIES :: nat where "MAX_FETCH_RETRIES = 3"

definition RETRY_DELAY_MS :: "nat \<Rightarrow> nat" where
  "RETRY_DELAY_MS attempt = 300 * 2 ^ (attempt - 1)"

record profile_store =
  us_auth :: "user option"            \<comment> \<open>the user of the last render, \<open>None\<close> when signed out\<close>
  us_closure :: "user option"         \<comment> \<open>the user \<open>fetchProfileData\<close> was last created with\<close>
  us_profile :: user_profile
  us_isLoading :: bool
  us_error :: "ustr option"
  us_fetchedFor :: ustr
  us_owner :: ustr                    \<comment> \<open>\<open>profileOwnerIdRef\<close>\<close>
  us_runId :: nat
  us_retries :: nat
  us_timer :: "user option"           \<comment> \<open>the user of the closure the retry timer will run\<close>
  us_requests :: "(nat \<times> user) list" \<comment> \<open>run and user of the requests under way\<close>

definition id_of :: "user option \<Rightarrow> ustr" where
  "id_of u = (case u of None \<Rightarrow> [] | Some v \<Rightarrow> user_id v)"

definition profile_date :: "jsenv \<Rightarrow> (int \<Rightarrow> ustr) \<Rightarrow> ustr \<Rightarrow> ustr \<Rightarrow> ustr" where
  \<comment> \<open>\<open>formatJoinedDate\<close> of a text; the second argument formats month and year\<close>
  "profile_date env fmt v fallback =
     (if v \<noteq> [] then (case parse_date env v of Some t \<Rightarrow> fmt t | None \<Rightarrow> fallback) else fallback)"

definition isCurrentProfileOwner :: "ustr \<Rightarrow> profile_store \<Rightarrow> bool" where
  "isCurrentProfileOwner candidate s \<longleftrightarrow>
     trim candidate \<noteq> [] \<and> id_of (us_auth s) = trim candidate \<and> us_owner s = trim candidate"

section \<open>Setting the profile\<close>

definition adopt_profile :: "user_profile \<Rightarrow> ustr \<Rightarrow> profile_store \<Rightarrow> bool \<times> profile_store" where
  \<comment> \<open>\<open>setUserProfile\<close> with the transition of a sign-in\<close>
  "adopt_profile p expectedPreviousOwnerId s =
     (if canAdoptProfileForAuthTransition expectedPreviousOwnerId (trim (profile_id p)) (us_owner s) (id_of (us_auth s))
      then (True, s\<lparr> us_runId := us_runId s + 1, us_owner := trim (profile_id p), us_fetchedFor := [], us_retries := 0,
                     us_timer := None, us_profile := p, us_error := None, us_isLoading := True \<rparr>)
      else (False, s))"

definition setUserProfile :: "user_profile \<Rightarrow> profile_store \<Rightarrow> bool \<times> profile_store" where
  \<comment> \<open>without a transition\<close>
  "setUserProfile p s =
     (if isCurrentProfileOwner (trim (profile_id p)) s
      then (True, s\<lparr> us_profile := p, us_error := None \<rparr>) else (False, s))"

section \<open>Loading the profile\<close>

definition overlay_user :: "user option \<Rightarrow> user_profile \<Rightarrow> user_profile" where
  \<comment> \<open>a refreshed user over the profile of the same account\<close>
  "overlay_user u prev =
     (let a = createProfileForAuthUser u in
      prev\<lparr> profile_id := trim (id_of u), profile_name := profile_name a, profile_firstName := profile_firstName a,
            profile_lastName := profile_lastName a, profile_email := profile_email a,
            profile_avatar := (case u of Some v \<Rightarrow> (case user_avatar v of Some x \<Rightarrow> Some x | None \<Rightarrow> profile_avatar prev)
                               | None \<Rightarrow> profile_avatar prev) \<rparr>)"

definition identity_effect :: "profile_store \<Rightarrow> profile_store" where
  "identity_effect s =
     (let nextUserId = trim (id_of (us_auth s)) in
      if nextUserId = []
      then s\<lparr> us_runId := us_runId s + 1, us_owner := [], us_fetchedFor := [], us_retries := 0,
              us_profile := createProfileForAuthUser None, us_error := None, us_isLoading := False \<rparr>
      else if us_owner s \<noteq> nextUserId
      then s\<lparr> us_runId := us_runId s + 1, us_owner := nextUserId, us_fetchedFor := [], us_retries := 0,
              us_profile := createProfileForAuthUser (us_auth s), us_error := None, us_isLoading := True \<rparr>
      else s\<lparr> us_profile := overlay_user (us_auth s) (us_profile s) \<rparr>)"

definition fetchProfileData :: "user option \<Rightarrow> profile_store \<Rightarrow> profile_store" where
  \<comment> \<open>up to the request, with the user of the closure\<close>
  "fetchProfileData u s0 =
     (let userId = trim (id_of u); s = s0\<lparr> us_runId := us_runId s0 + 1, us_timer := None \<rparr> in
      case u of
        None \<Rightarrow> s\<lparr> us_fetchedFor := [], us_retries := 0, us_error := None, us_isLoading := False \<rparr>
      | Some v \<Rightarrow>
          if userId = [] then s\<lparr> us_fetchedFor := [], us_retries := 0, us_error := None, us_isLoading := False \<rparr>
          else if us_fetchedFor s = userId then s\<lparr> us_isLoading := False \<rparr>
          else s\<lparr> us_isLoading := True, us_requests := us_requests s @ [(us_runId s, v)] \<rparr>)"

definition fetched_profile :: "jsenv \<Rightarrow> (int \<Rightarrow> ustr) \<Rightarrow> user \<Rightarrow> profile_record \<Rightarrow> user_profile" where
  "fetched_profile env fmt u b =
     (let firstName = or_else (pr_firstName b) (opt_str (user_firstName u));
          lastName = or_else (pr_lastName b) (opt_str (user_lastName u))
      in \<lparr> profile_id = or_else (pr_id b) (case pr_userId b of Some n \<Rightarrow> int_str n | None \<Rightarrow> trim (user_id u)),
           profile_firstName = Some firstName, profile_lastName = Some lastName,
           profile_name = or_else (trim (firstName @ [32] @ lastName))
             (or_else (pr_name b) (or_else (user_name u) (user_email u))),
           profile_email = or_else (pr_email b) (user_email u), profile_phone = pr_phone b,
           profile_city = Some (pr_city b), profile_area = Some (pr_area b),
           profile_cityId = pr_cityId b, profile_areaId = pr_areaId b,
           profile_location = (if pr_area b \<noteq> [] then pr_city b @ U '', '' @ pr_area b else pr_city b),
           profile_bio = pr_bio b,
           profile_avatar = (if opt_str (pr_avatar b) \<noteq> [] then pr_avatar b else undef_if_empty (opt_str (user_avatar u))),
           profile_joinedDate = profile_date env fmt (pr_joinedAt b) (U ''Jan 2024'') \<rparr>)"

definition isOwnRequest :: "nat \<times> user \<Rightarrow> profile_store \<Rightarrow> bool" where
  \<comment> \<open>\<open>isCurrentRequest\<close>\<close>
  "isOwnRequest q s \<longleftrightarrow>
     isOwnedProfileRequestCurrent (fst q) (us_runId s) (trim (user_id (snd q))) (us_owner s)"

definition markAsFetched :: "user \<Rightarrow> profile_store \<Rightarrow> profile_store" where
  "markAsFetched u s = s\<lparr> us_retries := 0, us_fetchedFor := trim (user_id u) \<rparr>"

definition scheduleRetry :: "user \<Rightarrow> ustr \<Rightarrow> profile_store \<Rightarrow> profile_store" where
  "scheduleRetry u errorMessage s =
     (if us_retries s \<ge> MAX_FETCH_RETRIES
      then (markAsFetched u s)\<lparr> us_error := Some errorMessage, us_isLoading := False \<rparr>
      else s\<lparr> us_timer := Some u \<rparr>)"

definition profile_answered ::
    "jsenv \<Rightarrow> (int \<Rightarrow> ustr) \<Rightarrow> nat \<times> user \<Rightarrow> thrown + profile_record option \<Rightarrow> profile_store \<Rightarrow> profile_store" where
  \<comment> \<open>the rest of \<open>fetchProfileData\<close>\<close>
  "profile_answered env fmt q result s0 =
     (let s = s0\<lparr> us_requests := remove1 q (us_requests s0) \<rparr> in
      if \<not> isOwnRequest q s then s
      else
        (case result of
           Inr None \<Rightarrow> (markAsFetched (snd q) s)\<lparr> us_error := None, us_isLoading := False \<rparr>
         | Inr (Some b) \<Rightarrow>
             (markAsFetched (snd q) s)\<lparr> us_profile := fetched_profile env fmt (snd q) b, us_error := None,
                                          us_isLoading := False \<rparr>
         | Inl e \<Rightarrow>
             scheduleRetry (snd q) (case e of JsError _ m \<Rightarrow> m | ThrownValue _ \<Rightarrow> U ''Failed to load user profile'')
               (s\<lparr> us_retries := us_retries s + 1 \<rparr>)))"

definition retry_fired :: "profile_store \<Rightarrow> profile_store" where
  "retry_fired s = (case us_timer s of None \<Rightarrow> s | Some u \<Rightarrow> fetchProfileData (Some u) (s\<lparr> us_timer := None \<rparr>))"

definition refreshProfile :: "profile_store \<Rightarrow> profile_store" where
  "refreshProfile s = fetchProfileData (us_closure s) (s\<lparr> us_fetchedFor := [], us_retries := 0, us_error := None \<rparr>)"

definition same_identity :: "user option \<Rightarrow> user option \<Rightarrow> bool" where
  \<comment> \<open>the dependencies of \<open>fetchProfileData\<close> are unchanged\<close>
  "same_identity u v \<longleftrightarrow> (u = None) = (v = None) \<and> id_of u = id_of v"

definition auth_rendered :: "user option \<Rightarrow> profile_store \<Rightarrow> profile_store" where
  \<comment> \<open>a render with the user: the effect on the user, then the one that fetches, its cleanup first\<close>
  "auth_rendered u s =
     (if same_identity u (us_auth s) then identity_effect (s\<lparr> us_auth := u \<rparr>)
      else fetchProfileData u (identity_effect (s\<lparr> us_auth := u, us_closure := u, us_timer := None \<rparr>)))"

definition mounted :: "user option \<Rightarrow> profile_store" where
  "mounted u =
     fetchProfileData u (identity_effect
       \<lparr> us_auth = u, us_closure = u, us_profile = createProfileForAuthUser u, us_isLoading = True, us_error = None, us_fetchedFor = [],
         us_owner = id_of u, us_runId = 0, us_retries = 0, us_timer = None, us_requests = [] \<rparr>)"

section \<open>What the application reads\<close>

definition scopedUserProfile :: "profile_store \<Rightarrow> user_profile" where
  "scopedUserProfile s =
     (let i = id_of (us_auth s) in
      if us_auth s \<noteq> None \<and> i \<noteq> [] \<and> us_owner s = i \<and> trim (profile_id (us_profile s)) = i
      then us_profile s else createProfileForAuthUser (us_auth s))"

definition signed_in :: "login_user \<Rightarrow> profile_store \<Rightarrow> profile_store" where
  \<comment> \<open>a sign-in: the page adopts the new profile for the one shown and sets the session, then all renders\<close>
  "signed_in d s =
     (let p = scopedUserProfile s in
      auth_rendered (Some (session_user d))
        (snd (adopt_profile (applyLoginUserDataToProfile p d) (profile_id p) s)))"

definition isProfileComplete :: "profile_store \<Rightarrow> bool" where
  "isProfileComplete s \<longleftrightarrow>
     (let p = scopedUserProfile s; positive = (\<lambda>v. case v of None \<Rightarrow> False | Some n \<Rightarrow> n > 0) in
      profile_phone p \<noteq> []
      \<and> ((opt_str (profile_city p) \<noteq> [] \<and> opt_str (profile_area p) \<noteq> [])
         \<or> (positive (profile_cityId p) \<and> positive (profile_areaId p))))"

definition shown_loading :: "profile_store \<Rightarrow> bool" where
  "shown_loading s \<longleftrightarrow>
     us_isLoading s \<or> (us_auth s \<noteq> None \<and> id_of (us_auth s) \<noteq> [] \<and> us_fetchedFor s \<noteq> id_of (us_auth s))"

section \<open>useProfileSaveAction.ts\<close>

record edit_form =
  ef_firstName :: ustr
  ef_lastName :: ustr
  ef_email :: ustr
  ef_phone :: ustr
  ef_city :: ustr
  ef_area :: ustr
  ef_bio :: ustr
  ef_avatar :: "ustr option"

definition save_email :: "user_profile \<Rightarrow> edit_form \<Rightarrow> ustr" where
  "save_email p f = trim (or_else (ef_email f) (profile_email p))"

definition shouldSendAvatar :: "user_profile \<Rightarrow> edit_form \<Rightarrow> bool" where
  "shouldSendAvatar p f \<longleftrightarrow> trim (opt_str (ef_avatar f)) \<noteq> trim (opt_str (profile_avatar p))"

definition save_refused :: "user_profile \<Rightarrow> edit_form \<Rightarrow> profile_store \<Rightarrow> ustr option" where
  \<comment> \<open>the error thrown before anything is sent\<close>
  "save_refused p f s =
     (case profile_user_id p of
        None \<Rightarrow> Some (U ''Unable to resolve account ID. Please sign in again.'')
      | Some i \<Rightarrow>
          if \<not> isCurrentProfileOwner i s
          then Some (U ''Your active account changed while saving. Please review the current profile and try again.'')
          else if save_email p f = [] then Some (U ''Email is required to update your profile.'')
          else if trim (ef_phone f) = [] then Some (U ''Phone number is required to update your profile.'')
          else if trim (ef_city f) \<noteq> [] \<and> trim (ef_area f) = [] then Some (U ''Area is required when a city is selected.'')
          else None)"

definition save_body :: "(ustr \<Rightarrow> int option) \<Rightarrow> (int \<Rightarrow> ustr \<Rightarrow> int option) \<Rightarrow> user_profile \<Rightarrow> edit_form \<Rightarrow> jval" where
  "save_body cityOf areaOf p f =
     (let city_id = (if trim (ef_city f) = [] then None else cityOf (trim (ef_city f)));
          area_id = (case city_id of None \<Rightarrow> None
                     | Some c \<Rightarrow> if c = 0 \<or> trim (ef_area f) = [] then None else areaOf c (trim (ef_area f)));
          num = (\<lambda>v. case v of None \<Rightarrow> Undef | Some i \<Rightarrow> Num (Fin (of_int i)))
      in jobj ([(''Email'', Str (save_email p f)), (''FirstName'', Str (trim (ef_firstName f))),
           (''LastName'', Str (trim (ef_lastName f))), (''Phone'', Str (trim (ef_phone f))), (''CityId'', num city_id),
           (''AreaId'', num area_id), (''Bio'', nonempty_or_null (trim (ef_bio f)))]
          @ (if shouldSendAvatar p f then [(''Avatar'', nonempty_or_null (trim (opt_str (ef_avatar f))))] else [])))"

definition saved_profile :: "user_profile \<Rightarrow> edit_form \<Rightarrow> user_profile" where
  "saved_profile p f =
     p\<lparr> profile_id := opt_str (profile_user_id p), profile_firstName := Some (trim (ef_firstName f)),
        profile_lastName := Some (trim (ef_lastName f)), profile_email := save_email p f,
        profile_phone := trim (ef_phone f), profile_city := Some (trim (ef_city f)),
        profile_area := Some (trim (ef_area f)), profile_bio := trim (ef_bio f),
        profile_avatar := (if shouldSendAvatar p f then undef_if_empty (trim (opt_str (ef_avatar f))) else profile_avatar p),
        profile_location := trim (ef_city f) @ U '', '' @ trim (ef_area f),
        profile_name := or_else (trim (trim (ef_firstName f) @ [32] @ trim (ef_lastName f))) (save_email p f) \<rparr>"

definition save_settled :: "user_profile \<Rightarrow> edit_form \<Rightarrow> thrown + jval \<Rightarrow> profile_store \<Rightarrow> bool \<times> profile_store" where
  \<comment> \<open>the answer to the update: whether the save is reported as done, and the new state\<close>
  "save_settled p f answer s =
     (case answer of
        Inl e \<Rightarrow> (False, s)
      | Inr _ \<Rightarrow>
          if \<not> isCurrentProfileOwner (opt_str (profile_user_id p)) s then (False, s)
          else setUserProfile (saved_profile p f) s)"

section \<open>Steps\<close>

datatype profile_event =
    AuthRendered "user option"
  | SignedIn login_user
  | ProfileAnswered "nat \<times> user" "thrown + profile_record option"
  | RetryFired
  | Refreshed
  | ProfileSet user_profile

definition profile_handler :: "jsenv \<Rightarrow> (int \<Rightarrow> ustr) \<Rightarrow> profile_event \<Rightarrow> profile_store \<Rightarrow> profile_store" where
  "profile_handler env fmt e s =
     (case e of
        AuthRendered u \<Rightarrow> auth_rendered u s
      | SignedIn d \<Rightarrow> signed_in d s
      | ProfileAnswered q result \<Rightarrow> profile_answered env fmt q result s
      | RetryFired \<Rightarrow> retry_fired s
      | Refreshed \<Rightarrow> refreshProfile s
      | ProfileSet p \<Rightarrow> snd (setUserProfile p s))"

fun profile_possible :: "profile_event \<Rightarrow> profile_store \<Rightarrow> bool" where
  "profile_possible (ProfileAnswered q _) s \<longleftrightarrow> q \<in> set (us_requests s)"
| "profile_possible RetryFired s \<longleftrightarrow> us_timer s \<noteq> None"
| "profile_possible _ s \<longleftrightarrow> True"

fun signs_in_again :: "profile_event \<Rightarrow> profile_store \<Rightarrow> bool" where
  "signs_in_again (SignedIn d) s \<longleftrightarrow> same_identity (Some (session_user d)) (us_auth s)"
| "signs_in_again _ s \<longleftrightarrow> False"

inductive profile_run :: "jsenv \<Rightarrow> (int \<Rightarrow> ustr) \<Rightarrow> bool \<Rightarrow> profile_event list \<Rightarrow> profile_store \<Rightarrow> bool"
  for env fmt again where
  \<comment> \<open>\<open>again\<close> tells whether a user may sign in again without having signed out\<close>
  mounts: "profile_run env fmt again [] (mounted u)"
| steps: "profile_run env fmt again es s \<Longrightarrow> profile_possible e s \<Longrightarrow> again \<or> \<not> signs_in_again e s
    \<Longrightarrow> profile_run env fmt again (es @ [e]) (profile_handler env fmt e s)"

section \<open>Invariants\<close>

definition in_progress :: "profile_store \<Rightarrow> bool" where
  \<comment> \<open>something under way will still be heard\<close>
  "in_progress s \<longleftrightarrow> us_timer s \<noteq> None \<or> us_runId s \<in> fst ` set (us_requests s)"

definition waiting :: "profile_store \<Rightarrow> bool" where
  "waiting s \<longleftrightarrow> us_isLoading s \<or> (us_owner s \<noteq> [] \<and> us_fetchedFor s \<noteq> us_owner s)"

definition heard :: "(nat \<times> user) list \<Rightarrow> nat \<Rightarrow> ustr \<Rightarrow> bool" where
  \<comment> \<open>requests of the current run are for the owner\<close>
  "heard qs runId owner_id \<longleftrightarrow>
     (\<forall>q \<in> set qs. fst q \<le> runId \<and> trim (user_id (snd q)) \<noteq> [] \<and> (fst q = runId \<longrightarrow> trim (user_id (snd q)) = owner_id))"

lemma heard_superseded: "heard qs n i \<Longrightarrow> heard qs (Suc n) j"
  by (fastforce simp: heard_def)

lemma heard_new: "heard qs n i \<Longrightarrow> trim (user_id v) \<noteq> [] \<Longrightarrow> heard (qs @ [(Suc n, v)]) (Suc n) (trim (user_id v))"
  using heard_superseded [of qs n i "trim (user_id v)"] by (simp add: heard_def)

lemma heard_remove: "heard qs n i \<Longrightarrow> heard (remove1 q qs) n i"
  using set_remove1_subset [of q qs] by (auto simp: heard_def)

lemma heard_current: "heard qs n i \<Longrightarrow> (n, u) \<in> set qs \<Longrightarrow> trim (user_id u) = i"
  by (auto simp: heard_def)

lemma heard_other: "fst q \<noteq> n \<or> q \<notin> set qs \<Longrightarrow> n \<in> fst ` set (remove1 q qs) \<longleftrightarrow> n \<in> fst ` set qs"
  unfolding image_iff by (metis in_set_remove1 notin_set_remove1)

definition owned :: "ustr \<Rightarrow> profile_store \<Rightarrow> bool" where
  \<comment> \<open>everything that can still be heard belongs to the owner\<close>
  "owned i s \<longleftrightarrow>
     us_owner s = i \<and> trim (id_of (us_auth s)) = i \<and> trim (id_of (us_closure s)) = i
     \<and> (us_closure s = None) = (us_auth s = None) \<and> us_retries s < MAX_FETCH_RETRIES
     \<and> us_fetchedFor s \<in> {[], i} \<and> heard (us_requests s) (us_runId s) i
     \<and> (case us_timer s of None \<Rightarrow> True | Some u \<Rightarrow> trim (user_id u) = i \<and> i \<noteq> [])"

lemma id_of_simps [simp]: "id_of None = []" "id_of (Some u) = user_id u"
  by (simp_all add: id_of_def)

lemma owned_identity:
  assumes "us_retries s < MAX_FETCH_RETRIES" and "us_fetchedFor s \<in> {[], us_owner s}"
    and "heard (us_requests s) (us_runId s) (us_owner s)"
    and "us_timer s = None" and "us_auth s = u" and "us_closure s = u"
  shows "owned (trim (id_of u)) (identity_effect s)"
  using assms heard_superseded [OF assms(3)]
  by (auto simp: owned_def identity_effect_def Let_def MAX_FETCH_RETRIES_def)

lemma fetch_cases:
  obtains (skipped) "trim (id_of u) = []"
      "fetchProfileData u s = s\<lparr> us_runId := us_runId s + 1, us_timer := None, us_fetchedFor := [], us_retries := 0,
         us_error := None, us_isLoading := False \<rparr>"
  | (known) v where "u = Some v" "trim (user_id v) \<noteq> []" "us_fetchedFor s = trim (user_id v)"
      "fetchProfileData u s = s\<lparr> us_runId := us_runId s + 1, us_timer := None, us_isLoading := False \<rparr>"
  | (requested) v where "u = Some v" "trim (user_id v) \<noteq> []" "us_fetchedFor s \<noteq> trim (user_id v)"
      "fetchProfileData u s = s\<lparr> us_runId := us_runId s + 1, us_timer := None, us_isLoading := True,
         us_requests := us_requests s @ [(us_runId s + 1, v)] \<rparr>"
proof (cases "trim (id_of u) = []")
  case True
  then show ?thesis by (intro skipped) (auto simp: fetchProfileData_def Let_def split: option.splits)
next
  case False
  then obtain v where v: "u = Some v" "trim (user_id v) \<noteq> []" by (cases u) auto
  show ?thesis
  proof (cases "us_fetchedFor s = trim (user_id v)")
    case True
    then show ?thesis using v by (intro known) (auto simp: fetchProfileData_def Let_def)
  next
    case new: False
    then show ?thesis using v by (intro requested) (auto simp: fetchProfileData_def Let_def)
  qed
qed

lemma owned_fetch:
  assumes "owned i s" and "trim (id_of u) = i"
  shows "owned i (fetchProfileData u s) \<and> (waiting (fetchProfileData u s) \<longrightarrow> in_progress (fetchProfileData u s))"
proof -
  have heard: "heard (us_requests s) (us_runId s) i" using assms(1) by (simp add: owned_def)
  show ?thesis
  proof (cases u s rule: fetch_cases)
    case skipped
    then show ?thesis using assms heard_superseded [OF heard] by (simp add: owned_def waiting_def MAX_FETCH_RETRIES_def)
  next
    case (known v)
    then show ?thesis using assms heard_superseded [OF heard] by (simp add: owned_def waiting_def)
  next
    case (requested v)
    then show ?thesis using assms heard_new [OF heard, of v] by (simp add: owned_def in_progress_def)
  qed
qed

definition hook_ok :: "profile_store \<Rightarrow> bool" where
  "hook_ok s \<longleftrightarrow> owned (us_owner s) s \<and> (waiting s \<longrightarrow> in_progress s)"

lemma hook_okI: "owned i s \<Longrightarrow> (waiting s \<Longrightarrow> in_progress s) \<Longrightarrow> hook_ok s"
  by (auto simp: hook_ok_def owned_def)

lemma hook_fetch: "owned i s \<Longrightarrow> trim (id_of u) = i \<Longrightarrow> hook_ok (fetchProfileData u s)"
  using owned_fetch hook_okI by metis

lemma hook_rendered:
  assumes "us_retries s < MAX_FETCH_RETRIES" and "us_fetchedFor s \<in> {[], us_owner s}"
    and "heard (us_requests s) (us_runId s) (us_owner s)" and "same_identity u (us_auth s) \<Longrightarrow> hook_ok s"
  shows "hook_ok (auth_rendered u s)"
proof (cases "same_identity u (us_auth s)")
  case True
  then obtain i where i: "owned i s" "waiting s \<longrightarrow> in_progress s" using assms(4) by (auto simp: hook_ok_def)
  have u: "trim (id_of u) = i" "(us_auth s = None) = (u = None)"
    using True i(1) by (auto simp: same_identity_def owned_def)
  note heard = heard_superseded [of "us_requests s" "us_runId s" i]
  show ?thesis
  proof (cases "i = []")
    case True
    moreover have "us_timer s = None" using i(1) True by (cases "us_timer s") (auto simp: owned_def)
    ultimately show ?thesis using i u heard [of "[]"] \<open>same_identity u (us_auth s)\<close>
      by (intro hook_okI [of i]) (simp_all add: auth_rendered_def identity_effect_def owned_def waiting_def MAX_FETCH_RETRIES_def)
  next
    case False
    then show ?thesis using i u \<open>same_identity u (us_auth s)\<close>
      by (intro hook_okI [of i])
        (auto simp: auth_rendered_def identity_effect_def owned_def waiting_def in_progress_def split: option.splits)
  qed
next
  case False
  let ?s = "s\<lparr> us_auth := u, us_closure := u, us_timer := None \<rparr>"
  have "owned (trim (id_of u)) (identity_effect ?s)" using assms(1,2,3) by (intro owned_identity) simp_all
  then show ?thesis using False by (simp add: auth_rendered_def hook_fetch)
qed

lemma hook_answered:
  assumes ok: "hook_ok s" and mem: "q \<in> set (us_requests s)"
  shows "hook_ok (profile_answered env fmt q result s)"
proof -
  obtain i where i: "owned i s" "waiting s \<longrightarrow> in_progress s" using ok by (auto simp: hook_ok_def)
  let ?s = "s\<lparr> us_requests := remove1 q (us_requests s) \<rparr>"
  have heard: "heard (us_requests s) (us_runId s) i" and o: "owned i ?s"
    using i(1) heard_remove [of "us_requests s" "us_runId s" i q] by (simp_all add: owned_def)
  show ?thesis
  proof (cases "isOwnRequest q ?s")
    case False
    have "fst q = us_runId s \<Longrightarrow> q \<notin> set (us_requests s)"
      using heard_current [OF heard, of "snd q"] False o
      by (cases q) (auto simp: isOwnRequest_def isOwnedProfileRequestCurrent_def owned_def)
    then have "in_progress ?s = in_progress s"
      using heard_other [of q "us_runId s" "us_requests s"] by (auto simp: in_progress_def)
    then show ?thesis using False o i(2) by (intro hook_okI [of i]) (auto simp: profile_answered_def waiting_def)
  next
    case True
    then have q: "trim (user_id (snd q)) = i" using o
      by (simp add: isOwnRequest_def isOwnedProfileRequestCurrent_def owned_def)
    have settled: "hook_ok (t\<lparr> us_isLoading := False \<rparr>)" if "owned i t" "us_fetchedFor t = i" for t
      using that by (intro hook_okI [of i]) (simp_all add: owned_def waiting_def)
    have marked: "owned i (markAsFetched (snd q) ?s)" "us_fetchedFor (markAsFetched (snd q) ?s) = i"
      using o q by (simp_all add: owned_def markAsFetched_def MAX_FETCH_RETRIES_def)
    have retried: "hook_ok (scheduleRetry (snd q) m (?s\<lparr> us_retries := us_retries s + 1 \<rparr>))" for m
    proof (cases "us_retries s + 1 \<ge> MAX_FETCH_RETRIES")
      case True
      then show ?thesis using o q
        by (intro hook_okI [of i]) (simp_all add: scheduleRetry_def owned_def markAsFetched_def MAX_FETCH_RETRIES_def waiting_def)
    next
      case False
      have "i \<noteq> []" using heard mem q by (auto simp: heard_def)
      then show ?thesis using False o q
        by (intro hook_okI [of i]) (simp_all add: scheduleRetry_def owned_def in_progress_def)
    qed
    show ?thesis
    proof (cases result)
      case (Inl e)
      then show ?thesis using True retried by (simp add: profile_answered_def)
    next
      case (Inr b)
      show ?thesis
      proof (cases b)
        case None
        then show ?thesis using True Inr marked
          by (intro hook_okI [of i]) (simp_all add: profile_answered_def owned_def waiting_def)
      next
        case (Some c)
        then show ?thesis using True Inr marked
          by (intro hook_okI [of i]) (simp_all add: profile_answered_def owned_def waiting_def)
      qed
    qed
  qed
qed

lemma hook_signed_in:
  assumes ok: "hook_ok s" and other: "\<not> same_identity (Some (session_user d)) (us_auth s)"
  shows "hook_ok (signed_in d s)"
proof -
  let ?r = "adopt_profile (applyLoginUserDataToProfile (scopedUserProfile s) d) (profile_id (scopedUserProfile s)) s"
  have o: "owned (us_owner s) s" using ok by (simp add: hook_ok_def)
  have "us_retries (snd ?r) < MAX_FETCH_RETRIES \<and> us_fetchedFor (snd ?r) \<in> {[], us_owner (snd ?r)}
      \<and> heard (us_requests (snd ?r)) (us_runId (snd ?r)) (us_owner (snd ?r)) \<and> us_auth (snd ?r) = us_auth s"
    using o heard_superseded [of "us_requests s" "us_runId s"] by (auto simp: adopt_profile_def owned_def MAX_FETCH_RETRIES_def)
  then show ?thesis using other unfolding signed_in_def Let_def by (intro hook_rendered) simp_all
qed

lemma hook_step:
  assumes ok: "hook_ok s" and "profile_possible e s" and "\<not> signs_in_again e s"
  shows "hook_ok (profile_handler env fmt e s)"
proof -
  obtain i where i: "owned i s" "waiting s \<longrightarrow> in_progress s" using ok by (auto simp: hook_ok_def)
  show ?thesis
  proof (cases e)
    case (AuthRendered u)
    then show ?thesis using ok i by (auto simp: profile_handler_def owned_def intro!: hook_rendered)
  next
    case (ProfileSet p)
    have "waiting (snd (setUserProfile p s)) = waiting s" "in_progress (snd (setUserProfile p s)) = in_progress s"
      "owned i (snd (setUserProfile p s))"
      using i(1) by (simp_all add: setUserProfile_def waiting_def in_progress_def owned_def)
    then show ?thesis using ProfileSet i(2) by (intro hook_okI [of i]) (simp_all add: profile_handler_def)
  next
    case RetryFired
    then obtain u where u: "us_timer s = Some u" using assms(2) by auto
    then have "owned i (s\<lparr> us_timer := None \<rparr>)" "trim (user_id u) = i" using i by (auto simp: owned_def)
    then show ?thesis using RetryFired u by (simp add: profile_handler_def retry_fired_def hook_fetch)
  next
    case Refreshed
    have "owned i (s\<lparr> us_fetchedFor := [], us_retries := 0, us_error := None \<rparr>)" "trim (id_of (us_closure s)) = i"
      using i by (auto simp: owned_def MAX_FETCH_RETRIES_def)
    then show ?thesis using Refreshed by (simp add: profile_handler_def refreshProfile_def hook_fetch)
  qed (use assms in \<open>simp_all add: profile_handler_def hook_answered hook_signed_in\<close>)
qed

lemma hook_mounted: "hook_ok (mounted u)"
proof -
  have "owned (trim (id_of u)) (identity_effect
       \<lparr> us_auth = u, us_closure = u, us_profile = createProfileForAuthUser u, us_isLoading = True, us_error = None,
         us_fetchedFor = [], us_owner = id_of u, us_runId = 0, us_retries = 0, us_timer = None, us_requests = [] \<rparr>)"
    by (rule owned_identity) (simp_all add: MAX_FETCH_RETRIES_def heard_def)
  then show ?thesis by (simp add: mounted_def hook_fetch)
qed

lemma hook_run: "profile_run env fmt False es s \<Longrightarrow> hook_ok s"
  by (induction rule: profile_run.induct) (simp_all add: hook_mounted hook_step)

section \<open>Who the contact data belongs to\<close>

datatype contact = PhoneData | CityData | AreaData

fun profile_contact :: "contact \<Rightarrow> user_profile \<Rightarrow> ustr" where
  "profile_contact PhoneData p = profile_phone p"
| "profile_contact CityData p = opt_str (profile_city p)"
| "profile_contact AreaData p = opt_str (profile_area p)"

fun record_contact :: "contact \<Rightarrow> profile_record \<Rightarrow> ustr" where
  "record_contact PhoneData b = pr_phone b"
| "record_contact CityData b = pr_city b"
| "record_contact AreaData b = pr_area b"

fun login_contact :: "contact \<Rightarrow> login_user \<Rightarrow> ustr" where
  "login_contact PhoneData d = lu_phone d"
| "login_contact CityData d = lu_city d"
| "login_contact AreaData d = lu_area d"

definition given_for :: "profile_event list \<Rightarrow> ustr \<Rightarrow> contact \<Rightarrow> ustr \<Rightarrow> bool" where
  \<comment> \<open>a text that an answer for the account, a sign-in to it or an edit of its profile contained\<close>
  "given_for es account c v \<longleftrightarrow>
     v = []
     \<or> (\<exists>n u b. ProfileAnswered (n, u) (Inr (Some b)) \<in> set es \<and> normalizeIdentityValue (user_id u) = account
           \<and> record_contact c b = v)
     \<or> (\<exists>d. SignedIn d \<in> set es \<and> normalizeIdentityValue (opt_str (lu_id d)) = account \<and> login_contact c d = v)
     \<or> (\<exists>p. ProfileSet p \<in> set es \<and> normalizeIdentityValue (profile_id p) = account \<and> profile_contact c p = v)"

definition contact_ok :: "profile_event list \<Rightarrow> profile_store \<Rightarrow> bool" where
  "contact_ok es s \<longleftrightarrow>
     (\<forall>c. given_for es (lower (us_owner s)) c (profile_contact c (us_profile s)))
     \<and> trim (id_of (us_auth s)) = us_owner s"

lemma given_mono: "given_for es a c v \<Longrightarrow> given_for (es @ [e]) a c v"
  by (auto simp: given_for_def)

lemma given_answer:
  "ProfileAnswered q (Inr (Some b)) \<in> set es
   \<Longrightarrow> given_for es (normalizeIdentityValue (user_id (snd q))) c (record_contact c b)"
  unfolding given_for_def by (cases q) auto

lemma given_empty [simp]: "given_for es a c []"
  by (simp add: given_for_def)

lemma contact_of_user [simp]: "profile_contact c (createProfileForAuthUser u) = []"
  by (cases c) (simp_all add: createProfileForAuthUser_def Let_def)

lemma contact_overlay [simp]: "profile_contact c (overlay_user u p) = profile_contact c p"
  by (cases c) (simp_all add: overlay_user_def Let_def)

lemma contact_fetched [simp]: "profile_contact c (fetched_profile env fmt u b) = record_contact c b"
  by (cases c) (simp_all add: fetched_profile_def Let_def)

lemma contact_login:
  "profile_contact c (applyLoginUserDataToProfile p d)
     = or_else (login_contact c d) (if isSameAuthenticatedUser p d then profile_contact c p else [])"
  by (cases c) (simp_all add: applyLoginUserDataToProfile_def Let_def)

lemma fetch_frame [simp]:
  "us_profile (fetchProfileData u s) = us_profile s" "us_owner (fetchProfileData u s) = us_owner s"
  "us_auth (fetchProfileData u s) = us_auth s"
  by (cases u s rule: fetch_cases; simp)+

lemma contact_fetch [simp]: "contact_ok es (fetchProfileData u s) = contact_ok es s"
  by (simp add: contact_ok_def)

lemma contact_rendered:
  assumes "\<And>c. trim (id_of u) \<noteq> [] \<Longrightarrow> given_for es (lower (us_owner s)) c (profile_contact c (us_profile s))"
  shows "contact_ok es (auth_rendered u s)"
proof -
  have "contact_ok es (identity_effect t)" if "us_auth t = u" "us_owner t = us_owner s" "us_profile t = us_profile s" for t
    using assms that by (auto simp: contact_ok_def identity_effect_def Let_def)
  then have "contact_ok es (identity_effect (s\<lparr> us_auth := u \<rparr>))"
    "contact_ok es (identity_effect (s\<lparr> us_auth := u, us_closure := u, us_timer := None \<rparr>))" by simp_all
  then show ?thesis by (simp add: auth_rendered_def)
qed

lemma scoped_blank: "normalizeIdentityValue (profile_id (scopedUserProfile s)) = [] \<Longrightarrow> profile_contact c (scopedUserProfile s) = []"
  by (auto simp: scopedUserProfile_def normalizeIdentityValue_def lower_eq_Nil Let_def)

lemma contact_adopted:
  assumes ok: "contact_ok es s" and "trim (opt_str (lu_id d)) \<noteq> []"
  defines "q \<equiv> applyLoginUserDataToProfile (scopedUserProfile s) d"
  shows "given_for (es @ [SignedIn d]) (normalizeIdentityValue (profile_id q)) c (profile_contact c q)"
proof -
  let ?p = "scopedUserProfile s"
  have q: "profile_id q = opt_str (lu_id d)"
    using assms(2) by (auto simp: q_def applyLoginUserDataToProfile_def Let_def or_else_def)
  have scoped: "given_for es (normalizeIdentityValue (profile_id ?p)) c (profile_contact c ?p)"
    using ok by (auto simp: scopedUserProfile_def contact_ok_def normalizeIdentityValue_def Let_def)
  show ?thesis
  proof (cases "login_contact c d = [] \<and> isSameAuthenticatedUser ?p d")
    case True
    have "normalizeIdentityValue (opt_str (lu_id d)) \<noteq> []"
      using assms(2) by (simp add: normalizeIdentityValue_def lower_eq_Nil)
    then have "profile_contact c ?p = [] \<or> normalizeIdentityValue (profile_id ?p) = normalizeIdentityValue (opt_str (lu_id d))"
      using True scoped_blank [of s c] by (auto simp: isSameAuthenticatedUser_def Let_def split: if_splits)
    then have "given_for es (normalizeIdentityValue (opt_str (lu_id d))) c (profile_contact c ?p)" using scoped by auto
    then show ?thesis using True given_mono by (simp add: q) (simp add: q_def contact_login or_else_def)
  next
    case False
    then have "profile_contact c q = [] \<or> profile_contact c q = login_contact c d"
      by (auto simp: q_def contact_login or_else_def)
    then show ?thesis by (auto simp: given_for_def q)
  qed
qed

lemma contact_signed_in:
  assumes ok: "contact_ok es s"
  shows "contact_ok (es @ [SignedIn d]) (signed_in d s)"
proof -
  let ?p = "scopedUserProfile s"
  let ?q = "applyLoginUserDataToProfile ?p d"
  have "given_for (es @ [SignedIn d]) (lower (us_owner (snd (adopt_profile ?q e s)))) c
      (profile_contact c (us_profile (snd (adopt_profile ?q e s))))" if "trim (id_of (Some (session_user d))) \<noteq> []" for c e
    using contact_adopted [OF ok, of d c] that ok given_mono
    by (auto simp: adopt_profile_def session_user_def normalizeIdentityValue_def contact_ok_def)
  then show ?thesis unfolding signed_in_def Let_def by (intro contact_rendered)
qed

lemma contact_mono: "contact_ok es s \<Longrightarrow> contact_ok (es @ [e]) s"
  using given_mono by (simp add: contact_ok_def)

lemma answered_frame:
  "us_owner (profile_answered env fmt q result s) = us_owner s" "us_auth (profile_answered env fmt q result s) = us_auth s"
  by (simp_all add: profile_answered_def scheduleRetry_def markAsFetched_def Let_def split: sum.splits option.splits)

lemma contact_step:
  assumes ok: "contact_ok es s"
  shows "contact_ok (es @ [e]) (profile_handler env fmt e s)"
proof (cases e)
  case (AuthRendered u)
  have "contact_ok (es @ [e]) (auth_rendered u s)"
    by (rule contact_rendered) (use ok given_mono in \<open>auto simp: contact_ok_def\<close>)
  then show ?thesis using AuthRendered by (simp add: profile_handler_def)
next
  case (SignedIn d)
  then show ?thesis using contact_signed_in [OF ok] by (simp add: profile_handler_def)
next
  case (ProfileAnswered q result)
  let ?s = "s\<lparr> us_requests := remove1 q (us_requests s) \<rparr>"
  have kept: "contact_ok (es @ [e]) (profile_answered env fmt q result s)"
    if "us_profile (profile_answered env fmt q result s) = us_profile s"
    using contact_mono [OF ok, of e] that answered_frame [of env fmt q result s] by (simp add: contact_ok_def)
  show ?thesis
  proof (cases "isOwnRequest q ?s \<and> (\<exists>b. result = Inr (Some b))")
    case True
    then obtain b where b: "result = Inr (Some b)" and own: "trim (user_id (snd q)) = us_owner s" "isOwnRequest q ?s"
      by (auto simp: isOwnRequest_def isOwnedProfileRequestCurrent_def)
    have "given_for (es @ [e]) (lower (us_owner s)) c (record_contact c b)" for c
      using given_answer [of q b "es @ [e]" c] ProfileAnswered b own(1) by (simp add: normalizeIdentityValue_def)
    moreover have "us_profile (profile_answered env fmt q result s) = fetched_profile env fmt (snd q) b"
      using b own(2) by (simp add: profile_answered_def)
    ultimately show ?thesis using ProfileAnswered contact_mono [OF ok, of e] answered_frame [of env fmt q result s]
      by (simp add: profile_handler_def contact_ok_def)
  next
    case False
    then have "us_profile (profile_answered env fmt q result s) = us_profile s"
      by (auto simp: profile_answered_def scheduleRetry_def markAsFetched_def Let_def split: sum.splits option.splits)
    then show ?thesis using kept ProfileAnswered by (simp add: profile_handler_def)
  qed
next
  case RetryFired
  have "contact_ok (es @ [e]) (s\<lparr> us_timer := None \<rparr>)" using contact_mono [OF ok, of e] by (simp add: contact_ok_def)
  then show ?thesis using RetryFired contact_mono [OF ok, of e]
    by (simp add: profile_handler_def retry_fired_def split: option.splits)
next
  case Refreshed
  have "contact_ok (es @ [e]) (s\<lparr> us_fetchedFor := [], us_retries := 0, us_error := None \<rparr>)"
    using contact_mono [OF ok, of e] by (simp add: contact_ok_def)
  then show ?thesis using Refreshed by (simp add: profile_handler_def refreshProfile_def)
next
  case (ProfileSet p)
  then show ?thesis using contact_mono [OF ok, of e]
    by (auto simp: profile_handler_def setUserProfile_def contact_ok_def isCurrentProfileOwner_def given_for_def normalizeIdentityValue_def)
qed

lemma contact_run: "profile_run env fmt again es s \<Longrightarrow> contact_ok es s"
proof (induction rule: profile_run.induct)
  case (mounts u)
  show ?case by (simp add: mounted_def) (simp add: contact_ok_def identity_effect_def Let_def)
qed (rule contact_step)

section \<open>Properties\<close>

text \<open>
  Claim C24.  The profile settles.  As long as nobody signs in again without having signed out, the hook
  shows that it is loading only while a request of the current account or a retry is under way, whatever
  the order of sign-ins, sign-outs, refreshes, answers and timers.  An answer to the current request ends
  the loading; a failed one schedules a retry, and the third failure in a row gives up with the message
  of the error, keeping what is shown.
\<close>

theorem profile_settles:
  assumes "profile_run env fmt False es s" and "trim (id_of (us_auth s)) = id_of (us_auth s)"
  shows "(us_requests s = [] \<and> us_timer s = None \<longrightarrow> \<not> shown_loading s)
    \<and> us_retries s < 3
    \<and> ((us_runId s, u) \<in> set (us_requests s) \<longrightarrow>
        \<not> shown_loading (profile_answered env fmt (us_runId s, u) (Inr b) s)
        \<and> (let t = profile_answered env fmt (us_runId s, u) (Inl (JsError n m)) s in
            us_profile t = us_profile s
            \<and> (if us_retries s = 2 then us_error t = Some m \<and> \<not> shown_loading t
               else us_timer t = Some u \<and> us_retries t = us_retries s + 1)))"
proof -
  obtain i where o: "owned i s" "waiting s \<longrightarrow> in_progress s"
    using hook_run [OF assms(1)] by (auto simp: hook_ok_def)
  then have i: "us_owner s = i" "id_of (us_auth s) = i" "us_retries s < 3"
    using assms(2) by (auto simp: owned_def MAX_FETCH_RETRIES_def)
  have shown: "shown_loading s \<Longrightarrow> waiting s"
    using i by (auto simp: shown_loading_def waiting_def)
  have own: "isOwnRequest (us_runId s, u) (s\<lparr> us_requests := r \<rparr>) \<and> trim (user_id u) = i"
    if "(us_runId s, u) \<in> set (us_requests s)" for r
    using that heard_current [of "us_requests s" "us_runId s" i u] o(1)
    by (simp add: isOwnRequest_def isOwnedProfileRequestCurrent_def owned_def)
  show ?thesis
    using o(2) shown own i
    by (auto simp: in_progress_def profile_answered_def scheduleRetry_def markAsFetched_def shown_loading_def MAX_FETCH_RETRIES_def
        Let_def split: option.splits)
qed

definition sample_account :: login_user where
  "sample_account = sample_login_user\<lparr> lu_id := Some (U ''7'') \<rparr>"

lemma sample_user_id: "user_id (session_user sample_account) = U ''7''" "trim (U ''7'') = U ''7''" "U ''7'' \<noteq> []"
  by code_simp+

theorem profile_settles_witness:
  "(let u = session_user sample_account; s = mounted (Some u) in
     shown_loading s \<and> us_requests s = [(1, u)]
     \<and> \<not> shown_loading (profile_answered ref_env (\<lambda>_. U ''May 2025'') (1, u) (Inr None) s)
     \<and> us_timer (profile_answered ref_env (\<lambda>_. U ''May 2025'') (1, u) (Inl (JsError (U ''Error'') (U ''down''))) s) = Some u)"
proof -
  let ?u = "session_user sample_account"
  have s: "us_requests (mounted (Some ?u)) = [(1, ?u)]" "us_runId (mounted (Some ?u)) = 1" "us_retries (mounted (Some ?u)) = 0"
    "shown_loading (mounted (Some ?u))" "us_auth (mounted (Some ?u)) = Some ?u"
    by (simp_all add: mounted_def identity_effect_def fetchProfileData_def shown_loading_def sample_user_id)
  have run: "profile_run ref_env (\<lambda>_. U ''May 2025'') False [] (mounted (Some ?u))" by (rule profile_run.mounts)
  show ?thesis
    using profile_settles [OF run, of ?u None "U ''Error''" "U ''down''"] s by (simp add: sample_user_id Let_def)
qed

text \<open>
   Contact data stays with its account.  Whatever the order of sign-ins, sign-outs, edits and
  answers, of several accounts in one session, a phone number, city or area shown is empty or was given
  for the very account that is signed in: by an answer to a request for it, by a sign-in to it or by an
  edit of its profile.
\<close>

theorem contact_data_owned:
  assumes "profile_run env fmt again es s"
  shows "given_for es (normalizeIdentityValue (id_of (us_auth s))) c (profile_contact c (scopedUserProfile s))
    \<and> (profile_id (scopedUserProfile s) = [] \<or> trim (profile_id (scopedUserProfile s)) = trim (id_of (us_auth s)))"
proof -
  have "contact_ok es s" using contact_run [OF assms] .
  moreover have "profile_id (createProfileForAuthUser u) = id_of u" for u
    by (cases u) (simp_all add: createProfileForAuthUser_def Let_def)
  ultimately show ?thesis
    by (auto simp: scopedUserProfile_def contact_ok_def normalizeIdentityValue_def Let_def)
qed

theorem contact_data_owned_witness:
  "let s = signed_in sample_account (mounted None) in given_for [SignedIn sample_account] (U ''7'') PhoneData (profile_contact PhoneData (scopedUserProfile s))
      \<and> profile_contact PhoneData (scopedUserProfile s) = U ''+962791234567''"
proof -
  let ?s = "signed_in sample_account (mounted None)"
  have "profile_run undefined undefined True ([] @ [SignedIn sample_account])
      (profile_handler undefined undefined (SignedIn sample_account) (mounted None))"
    by (intro profile_run.steps profile_run.mounts) simp_all
  then have run: "profile_run undefined undefined True [SignedIn sample_account] ?s" by (simp add: profile_handler_def)
  have "profile_contact PhoneData (scopedUserProfile ?s) = U ''+962791234567''" "normalizeIdentityValue (id_of (us_auth ?s)) = U ''7''"
    by code_simp+
  then show ?thesis using contact_data_owned [OF run, of PhoneData] by (simp add: Let_def)
qed

text \<open>
   Saving the profile.  A save that is not refused belongs to the account shown; what it sends
  is what the profile then shows, trimmed.  The saved profile is shown only when the server accepts it and
  the account is still the same; otherwise nothing changes.  The location shown after a save with neither
  city nor area is a lone comma, and the identifiers of the previous city and area stay.
\<close>

theorem profile_save:
  assumes "save_refused p f s = None"
  shows "let i = opt_str (profile_user_id p); q = saved_profile p f; body = save_body cityOf areaOf p f in
    profile_user_id p = Some i \<and> isCurrentProfileOwner i s
    \<and> save_settled p f (Inr v) t
        = (if isCurrentProfileOwner i t then (True, t\<lparr> us_profile := q, us_error := None \<rparr>) else (False, t))
    \<and> save_settled p f (Inl e) t = (False, t)
    \<and> fld body ''Email'' = Str (profile_email q) \<and> fld body ''Phone'' = Str (profile_phone q)
    \<and> fld body ''FirstName'' = Str (opt_str (profile_firstName q))
    \<and> fld body ''LastName'' = Str (opt_str (profile_lastName q))
    \<and> fld body ''Bio'' = nonempty_or_null (profile_bio q)
    \<and> profile_email q \<noteq> [] \<and> profile_phone q \<noteq> [] \<and> profile_name q \<noteq> []
    \<and> (opt_str (profile_city q) \<noteq> [] \<longrightarrow> opt_str (profile_area q) \<noteq> [])
    \<and> (opt_str (profile_city q) = [] \<and> opt_str (profile_area q) = [] \<longrightarrow> profile_location q = U '', '')
    \<and> profile_cityId q = profile_cityId p \<and> profile_areaId q = profile_areaId p"
proof -
  obtain i where i: "profile_user_id p = Some i" "isCurrentProfileOwner i s"
    using assms by (auto simp: save_refused_def split: option.splits if_splits)
  then have "trim i = i" by (auto simp: profile_user_id_def Let_def split: if_splits)
  then have owner: "isCurrentProfileOwner (trim i) t = isCurrentProfileOwner i t" by simp
  have fields: "save_email p f \<noteq> []" "trim (ef_phone f) \<noteq> []" "trim (ef_city f) = [] \<or> trim (ef_area f) \<noteq> []"
    using assms i by (auto simp: save_refused_def split: if_splits)
  have body: "fld (save_body cityOf areaOf p f) ''Email'' = Str (save_email p f)"
    "fld (save_body cityOf areaOf p f) ''Phone'' = Str (trim (ef_phone f))"
    "fld (save_body cityOf areaOf p f) ''FirstName'' = Str (trim (ef_firstName f))"
    "fld (save_body cityOf areaOf p f) ''LastName'' = Str (trim (ef_lastName f))"
    "fld (save_body cityOf areaOf p f) ''Bio'' = nonempty_or_null (trim (ef_bio f))"
    by (simp_all add: save_body_def jobj_def Let_def U_inj)
  show ?thesis
    using i fields owner by (auto simp: Let_def body saved_profile_def save_settled_def setUserProfile_def or_else_def)
qed

definition sample_edit :: edit_form where
  "sample_edit = \<lparr> ef_firstName = U '' Zaid'', ef_lastName = [], ef_email = [], ef_phone = U ''0791234567 '', ef_city = [],
     ef_area = [], ef_bio = [], ef_avatar = None \<rparr>"

theorem profile_save_witness:
  "(let s = mounted (Some (session_user sample_account)); p = scopedUserProfile s in
     snd (save_settled p sample_edit (Inr Null) s) = s\<lparr> us_profile := saved_profile p sample_edit, us_error := None \<rparr>
     \<and> fld (save_body (\<lambda>_. None) (\<lambda>_ _. None) p sample_edit) ''Phone'' = Str (U ''0791234567'')
     \<and> profile_location (saved_profile p sample_edit) = U '', '')"
proof -
  let ?s = "mounted (Some (session_user sample_account))" let ?p = "scopedUserProfile ?s"
  have ok: "save_refused ?p sample_edit ?s = None" by code_simp
  have "trim (ef_phone sample_edit) = U ''0791234567''" "trim (ef_city sample_edit) = []" "trim (ef_area sample_edit) = []"
    by code_simp+
  then show ?thesis
    using profile_save [OF ok, of "\<lambda>_. None" "\<lambda>_ _. None" Null ?s] by (simp add: Let_def saved_profile_def)
qed

end
