(* ===== verification/Favorites.thy ===== *)
theory Favorites
  imports AuthPolicy
begin

text \<open>
  Favourite listings: the endpoints (\<open>services/api/favorites.ts\<close>, \<open>schemas/favoritesSchema.ts\<close>), the
  hook (\<open>features/marketplace/hooks/useFavorites.ts\<close>) with its optimistic mutations
  (\<open>shared/hooks/useServerMutation.ts\<close>), and the helpers of the query cache
  (\<open>shared/hooks/useServerQuery.ts\<close>).  The cache itself is the TanStack query client, a third-party
  package: a parameter, of which the properties use only that data set for a key is the data read for
  it.  The contract of the component is a set of identifiers; every operation is shown to refine it.
\<close>

section \<open>favoritesSchema.ts and favorites.ts\<close>

definition favorite_post_id :: "jval \<Rightarrow> ustr" where
  "favorite_post_id postId = trim (to_str (coalesce [postId, Str []]))"

definition parseFavoritesEnvelope :: "jval \<Rightarrow> (bool \<times> ustr list) option" where
  "parseFavoritesEnvelope payload =
     (case asRecord payload of
        None \<Rightarrow> None
      | Some r \<Rightarrow>
          Some (fld r ''success'' = Bool True,
                uniq (filter (\<lambda>v. length v > 0)
                  (map favorite_post_id (case fld r ''favorites'' of Arr vs \<Rightarrow> vs | _ \<Rightarrow> [])))))"

definition parseFavoriteMutationSuccess :: "jval \<Rightarrow> bool" where
  "parseFavoriteMutationSuccess payload =
     (case asRecord payload of None \<Rightarrow> False | Some r \<Rightarrow> fld r ''success'' = Bool True)"

definition getFavorites :: "api_response \<Rightarrow> thrown + ustr list" where
  "getFavorites response =
     (case response of
        ApiErr e \<Rightarrow> Inl (JsError (U ''Error'') (or_else (err_message e) (U ''Failed to load favorites'')))
      | ApiOk d \<Rightarrow>
          (case parseFavoritesEnvelope d of
             Some (True, favorites) \<Rightarrow> Inr favorites
           | _ \<Rightarrow> Inl (JsError (U ''Error'') (U ''Invalid favorites response''))))"

definition mutateFavorite :: "ustr \<Rightarrow> api_response \<Rightarrow> bool" where
  "mutateFavorite postId response =
     (if favorite_post_id (Str postId) = [] then False
      else (case response of ApiOk d \<Rightarrow> parseFavoriteMutationSuccess d | ApiErr e \<Rightarrow> False))"

section \<open>useServerQuery.ts and useServerMutation.ts\<close>

definition normalizeServerQueryTag :: "ustr \<Rightarrow> ustr" where
  "normalizeServerQueryTag tag = lower (trim tag)"

definition normalizeServerQueryTags :: "ustr list option \<Rightarrow> ustr list" where
  "normalizeServerQueryTags tags =
     (case tags of None \<Rightarrow> []
      | Some ts \<Rightarrow> uniq (filter (\<lambda>t. length t > 0) (map normalizeServerQueryTag ts)))"

definition toErrorMessage :: "thrown \<Rightarrow> ustr" where
  "toErrorMessage e =
     (case e of JsError n m \<Rightarrow> if m \<noteq> [] then m else U ''Request failed'' | ThrownValue v \<Rightarrow> U ''Request failed'')"

definition query_retry_delay :: "int \<Rightarrow> int \<Rightarrow> int" where
  "query_retry_delay retryDelayMs attempt = retryDelayMs * max 1 attempt"

record ('q, 'd) query_client =
  getServerQueryData :: "'q \<Rightarrow> ustr \<Rightarrow> 'd option"
  setServerQueryData :: "'q \<Rightarrow> ustr \<Rightarrow> 'd \<Rightarrow> 'q"

definition updateServerQueryData ::
    "('q, 'd) query_client \<Rightarrow> ustr \<Rightarrow> ('d option \<Rightarrow> 'd option) \<Rightarrow> 'q \<Rightarrow> 'q" where
  \<comment> \<open>an updater that yields undefined leaves the query client as it is\<close>
  "updateServerQueryData qc key updater q =
     (case updater (getServerQueryData qc q key) of None \<Rightarrow> q | Some d \<Rightarrow> setServerQueryData qc q key d)"

definition aborted :: "thrown \<Rightarrow> bool" where
  \<comment> \<open>\<open>isAbortError\<close> of \<open>useServerMutation.ts\<close>\<close>
  "aborted e = (case e of JsError n m \<Rightarrow> n = U ''AbortError'' | ThrownValue v \<Rightarrow> False)"

definition mutate_result :: "thrown + 'r \<Rightarrow> thrown + 'r option" where
  \<comment> \<open>what \<open>mutate\<close> resolves to\<close>
  "mutate_result outcome =
     (case outcome of Inr r \<Rightarrow> Inr (Some r) | Inl e \<Rightarrow> if aborted e then Inr None else Inl e)"

definition calls_onError :: "thrown + 'r \<Rightarrow> bool" where
  "calls_onError outcome = (case outcome of Inr r \<Rightarrow> False | Inl e \<Rightarrow> \<not> aborted e)"

section \<open>useFavorites.ts\<close>

definition normalizeFavoriteIds :: "jval list \<Rightarrow> ustr list" where
  "normalizeFavoriteIds ids = norm_keys trim (map to_str ids)"

definition normalize_ids :: "ustr list \<Rightarrow> ustr list" where
  \<comment> \<open>the same on strings\<close>
  "normalize_ids ids = normalizeFavoriteIds (map Str ids)"

record fav_mutation =
  mut_adds :: bool
  mut_post :: ustr
  mut_key :: ustr
  mut_snapshot :: "ustr list"
  mut_guest :: "ustr list"     \<comment> \<open>\<open>guestFavoriteIds\<close> of the closure\<close>

record 'q favorites =
  fav_enabled :: bool
  fav_authenticated :: bool
  fav_userId :: ustr
  fav_queries :: 'q
  fav_failed :: bool                      \<comment> \<open>\<open>authFavoritesError !== null\<close>\<close>
  fav_guest :: "ustr list"
  fav_stored :: "jval list option"        \<comment> \<open>the array under \<open>STORAGE_KEYS.FAVORITES\<close>\<close>
  fav_mutations :: "fav_mutation list"    \<comment> \<open>those whose request is under way\<close>

definition resolvedUserId :: "ustr option \<Rightarrow> ustr option \<Rightarrow> ustr" where
  "resolvedUserId userId userIdHint =
     or_else (trim (or_else (opt_str userId) (or_else (opt_str userIdHint) (U ''self'')))) (U ''self'')"

definition authFavoritesCacheKey :: "'q favorites \<Rightarrow> ustr" where
  "authFavoritesCacheKey s = U ''favorites:auth:'' @ fav_userId s"

definition favoriteQueryTags :: "'q favorites \<Rightarrow> ustr list" where
  "favoriteQueryTags s = [U ''favorites'', U ''favorites:'' @ fav_userId s]"

definition hasAuthFavoritesFailure :: "'q favorites \<Rightarrow> bool" where
  "hasAuthFavoritesFailure s \<longleftrightarrow> fav_enabled s \<and> fav_authenticated s \<and> fav_failed s"

definition authFavoriteIds :: "('q, ustr list) query_client \<Rightarrow> 'q favorites \<Rightarrow> ustr list option" where
  "authFavoriteIds qc s = getServerQueryData qc (fav_queries s) (authFavoritesCacheKey s)"

definition or_empty :: "ustr list option \<Rightarrow> ustr list" where
  \<comment> \<open>\<open>ids || []\<close>\<close>
  "or_empty ids = (case ids of None \<Rightarrow> [] | Some v \<Rightarrow> v)"

definition stored_ids :: "'q favorites \<Rightarrow> ustr list" where
  "stored_ids s = normalizeFavoriteIds (case fav_stored s of None \<Rightarrow> [] | Some vs \<Rightarrow> vs)"

definition persistLocalFavoriteIds :: "ustr list \<Rightarrow> 'q favorites \<Rightarrow> 'q favorites" where
  "persistLocalFavoriteIds nextIds s =
     (let ids = normalize_ids nextIds in s\<lparr> fav_guest := ids, fav_stored := Some (map Str ids) \<rparr>)"

definition favoriteIds :: "('q, ustr list) query_client \<Rightarrow> 'q favorites \<Rightarrow> ustr list" where
  "favoriteIds qc s =
     (if \<not> fav_enabled s then []
      else if fav_authenticated s \<and> \<not> hasAuthFavoritesFailure s
      then normalize_ids (or_empty (authFavoriteIds qc s))
      else normalize_ids (fav_guest s))"

text \<open>The three effects, run after a render whose guest list is the argument.\<close>

definition load_effect :: "'q favorites \<Rightarrow> 'q favorites" where
  "load_effect s =
     (if \<not> fav_enabled s \<or> (fav_authenticated s \<and> \<not> hasAuthFavoritesFailure s) then s
      else s\<lparr> fav_guest := stored_ids s \<rparr>)"

definition store_effect :: "ustr list \<Rightarrow> 'q favorites \<Rightarrow> 'q favorites" where
  "store_effect rendered s =
     (if \<not> fav_enabled s \<or> (fav_authenticated s \<and> \<not> hasAuthFavoritesFailure s) then s
      else s\<lparr> fav_stored := Some (map Str (normalize_ids rendered)) \<rparr>)"

definition mirror_effect :: "('q, ustr list) query_client \<Rightarrow> 'q favorites \<Rightarrow> 'q favorites" where
  "mirror_effect qc s =
     (if \<not> fav_enabled s \<or> \<not> fav_authenticated s then s
      else s\<lparr> fav_stored := Some (map Str (normalize_ids (or_empty (authFavoriteIds qc s)))) \<rparr>)"

definition with_id :: "ustr \<Rightarrow> ustr list option \<Rightarrow> ustr list" where
  \<comment> \<open>the updater of an addition\<close>
  "with_id p current =
     (let currentIds = normalize_ids (or_empty current) in if p \<in> set currentIds then currentIds else currentIds @ [p])"

definition without_id :: "ustr \<Rightarrow> ustr list option \<Rightarrow> ustr list" where
  \<comment> \<open>the updater of a removal\<close>
  "without_id p current =
     (let currentIds = normalize_ids (or_empty current)
      in if p \<notin> set currentIds then currentIds else filter (\<lambda>i. i \<noteq> p) currentIds)"

definition local_change :: "bool \<Rightarrow> ustr \<Rightarrow> ustr list \<Rightarrow> ustr list" where
  "local_change adds p guest =
     (if adds then (if p \<in> set guest then guest else guest @ [p]) else filter (\<lambda>i. i \<noteq> p) guest)"

definition start_mutation :: "('q, ustr list) query_client \<Rightarrow> bool \<Rightarrow> ustr \<Rightarrow> 'q favorites \<Rightarrow> 'q favorites" where
  \<comment> \<open>\<open>mutate\<close> up to the request: \<open>onMutate\<close> takes the snapshot and updates the cache\<close>
  "start_mutation qc adds p s =
     (let key = authFavoritesCacheKey s
      in s\<lparr> fav_queries := updateServerQueryData qc key (Some \<circ> (if adds then with_id p else without_id p)) (fav_queries s),
            fav_mutations := fav_mutations s @
              [\<lparr> mut_adds = adds, mut_post = p, mut_key = key,
                 mut_snapshot = normalize_ids (or_empty (getServerQueryData qc (fav_queries s) key)),
                 mut_guest = fav_guest s \<rparr>] \<rparr>)"

definition addFavorite :: "('q, ustr list) query_client \<Rightarrow> ustr \<Rightarrow> 'q favorites \<Rightarrow> 'q favorites" where
  "addFavorite qc postId s =
     (let p = trim postId in
      if p = [] \<or> \<not> fav_enabled s then s
      else if \<not> fav_authenticated s then persistLocalFavoriteIds (local_change True p (fav_guest s)) s
      else if hasAuthFavoritesFailure s then persistLocalFavoriteIds (local_change True p (fav_guest s)) s
      else if p \<in> set (favoriteIds qc s) then s
      else start_mutation qc True p s)"

definition removeFavorite :: "('q, ustr list) query_client \<Rightarrow> ustr \<Rightarrow> 'q favorites \<Rightarrow> 'q favorites" where
  "removeFavorite qc postId s =
     (let p = trim postId in
      if p = [] \<or> \<not> fav_enabled s then s
      else if \<not> fav_authenticated s then persistLocalFavoriteIds (local_change False p (fav_guest s)) s
      else if hasAuthFavoritesFailure s then persistLocalFavoriteIds (local_change False p (fav_guest s)) s
      else if p \<notin> set (favoriteIds qc s) then s
      else start_mutation qc False p s)"

definition toggleFavorite :: "('q, ustr list) query_client \<Rightarrow> ustr \<Rightarrow> 'q favorites \<Rightarrow> 'q favorites" where
  "toggleFavorite qc postId s =
     (let p = trim postId in
      if p = [] then s
      else if p \<in> set (favoriteIds qc s) then removeFavorite qc p s else addFavorite qc p s)"

definition isFavorite :: "('q, ustr list) query_client \<Rightarrow> ustr \<Rightarrow> 'q favorites \<Rightarrow> bool" where
  "isFavorite qc postId s \<longleftrightarrow> trim postId \<in> set (favoriteIds qc s)"

definition clearFavorites :: "('q, ustr list) query_client \<Rightarrow> 'q favorites \<Rightarrow> 'q favorites" where
  "clearFavorites qc s =
     (if \<not> fav_authenticated s \<or> hasAuthFavoritesFailure s then persistLocalFavoriteIds [] s
      else s\<lparr> fav_queries := updateServerQueryData qc (authFavoritesCacheKey s) (\<lambda>_. Some []) (fav_queries s) \<rparr>)"

definition favorite_outcome :: "bool \<Rightarrow> ustr \<Rightarrow> thrown + bool \<Rightarrow> thrown + bool" where
  \<comment> \<open>\<open>mutationFn\<close>: an answer without success is an error as well\<close>
  "favorite_outcome adds p reply =
     (case reply of
        Inl e \<Rightarrow> Inl e
      | Inr success \<Rightarrow>
          if \<not> success
          then Inl (JsError (U ''Error'') ((if adds then U ''Failed to add favorite '' else U ''Failed to remove favorite '') @ p))
          else Inr success)"

definition mutation_settled ::
    "('q, ustr list) query_client \<Rightarrow> fav_mutation \<Rightarrow> thrown + bool \<Rightarrow> 'q favorites \<Rightarrow> 'q favorites" where
  \<comment> \<open>the answer to a mutation; on failure \<open>recoverAuthFavorites\<close> up to its refetch\<close>
  "mutation_settled qc m reply s0 =
     (let s = s0\<lparr> fav_mutations := remove1 m (fav_mutations s0) \<rparr>;
          outcome = favorite_outcome (mut_adds m) (mut_post m) reply
      in if calls_onError outcome
         then s\<lparr> fav_queries := setServerQueryData qc (fav_queries s) (mut_key m) (mut_snapshot m) \<rparr> else s)"

definition mutation_rejected :: "fav_mutation \<Rightarrow> 'q favorites \<Rightarrow> 'q favorites" where
  \<comment> \<open>the catch of \<open>addFavorite\<close> and \<open>removeFavorite\<close>, after the refetch\<close>
  "mutation_rejected m s = persistLocalFavoriteIds (local_change (mut_adds m) (mut_post m) (mut_guest m)) s"

definition favorites_isLoading :: "('q, ustr list) query_client \<Rightarrow> bool \<Rightarrow> bool \<Rightarrow> 'q favorites \<Rightarrow> bool" where
  "favorites_isLoading qc isLoadingAuth isFetchingAuth s \<longleftrightarrow>
     fav_enabled s \<and> fav_authenticated s \<and> \<not> hasAuthFavoritesFailure s
     \<and> ((isLoadingAuth \<and> favoriteIds qc s = []) \<or> (isFetchingAuth \<and> favoriteIds qc s = []))"

section \<open>Lemmas\<close>

definition query_client_ok :: "('q, 'd) query_client \<Rightarrow> bool" where
  \<comment> \<open>data set for a key is what is read for it, and other keys keep theirs\<close>
  "query_client_ok qc \<longleftrightarrow>
     (\<forall>q k v j. getServerQueryData qc (setServerQueryData qc q k v) j
        = (if j = k then Some v else getServerQueryData qc q j))"

definition map_client :: "(ustr \<Rightarrow> 'd option, 'd) query_client" where
  "map_client = \<lparr> getServerQueryData = (\<lambda>q k. q k), setServerQueryData = (\<lambda>q k v. q(k \<mapsto> v)) \<rparr>"

lemma map_client_ok: "query_client_ok map_client"
  by (simp add: query_client_ok_def map_client_def)

definition plain_ids :: "ustr list \<Rightarrow> bool" where
  "plain_ids ids \<longleftrightarrow> distinct ids \<and> (\<forall>i \<in> set ids. trim i = i \<and> i \<noteq> [])"

lemma normalize_ids_keys: "normalize_ids ids = norm_keys trim ids"
  by (simp add: normalize_ids_def normalizeFavoriteIds_def comp_def)

lemma plain_normalize [simp]: "plain_ids (normalizeFavoriteIds vs)" "plain_ids (normalize_ids ids)"
  using trim_keys.norm_keys_fixed
  by (auto simp: plain_ids_def normalizeFavoriteIds_def normalize_ids_keys trim_keys.norm_keys_distinct)

lemma normalize_plain: "plain_ids ids \<Longrightarrow> normalize_ids ids = ids"
  by (simp add: normalize_ids_keys plain_ids_def trim_keys.norm_keys_id)

lemma plain_favoriteIds [simp]: "plain_ids (favoriteIds qc s)"
  by (simp add: favoriteIds_def plain_ids_def [of "[]"])

lemma plain_local_change: "plain_ids ids \<Longrightarrow> trim p = p \<Longrightarrow> p \<noteq> [] \<Longrightarrow> plain_ids (local_change adds p ids)"
  by (auto simp: plain_ids_def local_change_def)

lemma set_local_change:
  "set (local_change True p ids) = insert p (set ids)" "set (local_change False p ids) = set ids - {p}"
  by (auto simp: local_change_def)

lemma set_with_id [simp]: "set (with_id p cur) = insert p (set (normalize_ids (or_empty cur)))"
  by (auto simp: with_id_def Let_def)

lemma set_without_id [simp]: "set (without_id p cur) = set (normalize_ids (or_empty cur)) - {p}"
  by (auto simp: without_id_def Let_def)

lemma plain_updaters: "trim p = p \<Longrightarrow> p \<noteq> [] \<Longrightarrow> plain_ids (with_id p cur)" "plain_ids (without_id p cur)"
  using plain_normalize(2) [of "or_empty cur"]
  by (auto simp: plain_ids_def with_id_def without_id_def Let_def)

lemma favoriteIds_persist:
  assumes "fav_enabled s" and "\<not> fav_authenticated s \<or> hasAuthFavoritesFailure s" and "plain_ids ids"
  shows "favoriteIds qc (persistLocalFavoriteIds ids s) = ids"
  using assms by (auto simp: favoriteIds_def persistLocalFavoriteIds_def Let_def hasAuthFavoritesFailure_def normalize_plain)

definition online :: "'q favorites \<Rightarrow> bool" where
  \<comment> \<open>the account's favourites are shown\<close>
  "online s \<longleftrightarrow> fav_enabled s \<and> fav_authenticated s \<and> \<not> fav_failed s"

lemma favoriteIds_online: "online s \<Longrightarrow> favoriteIds qc s = normalize_ids (or_empty (authFavoriteIds qc s))"
  by (simp add: favoriteIds_def online_def hasAuthFavoritesFailure_def)

lemma favoriteIds_local:
  "fav_enabled s \<Longrightarrow> \<not> online s \<Longrightarrow> favoriteIds qc s = normalize_ids (fav_guest s)"
  by (auto simp: favoriteIds_def online_def hasAuthFavoritesFailure_def)

lemma online_mutation [simp]: "online (start_mutation qc adds p s) \<longleftrightarrow> online s"
  "authFavoritesCacheKey (start_mutation qc adds p s) = authFavoritesCacheKey s"
  by (simp_all add: online_def start_mutation_def Let_def authFavoritesCacheKey_def)

lemma favoriteIds_mutation:
  assumes "query_client_ok qc" and "online s" and "trim p = p" and "p \<noteq> []"
  shows "favoriteIds qc (start_mutation qc adds p s)
     = (if adds then with_id p (authFavoriteIds qc s) else without_id p (authFavoriteIds qc s))"
proof -
  have "authFavoriteIds qc (start_mutation qc adds p s)
     = Some (if adds then with_id p (authFavoriteIds qc s) else without_id p (authFavoriteIds qc s))"
    using assms(1) by (simp add: authFavoriteIds_def start_mutation_def Let_def updateServerQueryData_def
        query_client_ok_def authFavoritesCacheKey_def)
  then show ?thesis
    using assms plain_updaters by (simp add: favoriteIds_online or_empty_def normalize_plain)
qed

definition guest_ok :: "'q favorites \<Rightarrow> bool" where
  "guest_ok s \<longleftrightarrow> plain_ids (fav_guest s)"

lemma guest_ok_steps:
  "guest_ok (persistLocalFavoriteIds ids s)" "guest_ok s \<Longrightarrow> guest_ok (load_effect s)"
  "guest_ok s \<Longrightarrow> guest_ok (addFavorite qc p s)" "guest_ok s \<Longrightarrow> guest_ok (removeFavorite qc p s)"
  by (simp_all add: guest_ok_def persistLocalFavoriteIds_def load_effect_def stored_ids_def addFavorite_def
      removeFavorite_def start_mutation_def Let_def)

lemma set_change:
  assumes "query_client_ok qc" and "guest_ok s" and "fav_enabled s"
  shows "set (favoriteIds qc (addFavorite qc p s))
       = (if trim p = [] then set (favoriteIds qc s) else insert (trim p) (set (favoriteIds qc s)))"
    and "set (favoriteIds qc (removeFavorite qc p s)) = set (favoriteIds qc s) - {trim p}"
proof -
  have not_empty: "[] \<notin> set (favoriteIds qc s)" using plain_favoriteIds [of qc s] by (auto simp: plain_ids_def)
  have local: "set (favoriteIds qc (persistLocalFavoriteIds (local_change adds (trim p) (fav_guest s)) s))
      = (if adds then insert (trim p) (set (favoriteIds qc s)) else set (favoriteIds qc s) - {trim p})"
    if "\<not> online s" "trim p \<noteq> []" for adds
  proof -
    have "favoriteIds qc s = fav_guest s"
      using assms that(1) by (simp add: favoriteIds_local guest_ok_def normalize_plain)
    moreover have "favoriteIds qc (persistLocalFavoriteIds (local_change adds (trim p) (fav_guest s)) s)
        = local_change adds (trim p) (fav_guest s)"
      using assms(2,3) that
      by (intro favoriteIds_persist) (auto simp: online_def hasAuthFavoritesFailure_def guest_ok_def plain_local_change)
    ultimately show ?thesis by (simp add: set_local_change)
  qed
  have mutation: "set (favoriteIds qc (start_mutation qc adds (trim p) s))
      = (if adds then insert (trim p) (set (favoriteIds qc s)) else set (favoriteIds qc s) - {trim p})"
    if "online s" "trim p \<noteq> []" for adds
    using favoriteIds_mutation [OF assms(1) that(1), of "trim p" adds] that
    by (simp add: favoriteIds_online)
  show "set (favoriteIds qc (addFavorite qc p s))
       = (if trim p = [] then set (favoriteIds qc s) else insert (trim p) (set (favoriteIds qc s)))"
    using local [of True] mutation [of True] assms(3)
    by (auto simp: addFavorite_def Let_def online_def hasAuthFavoritesFailure_def)
  show "set (favoriteIds qc (removeFavorite qc p s)) = set (favoriteIds qc s) - {trim p}"
    using local [of False] mutation [of False] assms(3) not_empty
    by (auto simp: removeFavorite_def Let_def online_def hasAuthFavoritesFailure_def)
qed

section \<open>Properties\<close>

text \<open>
  Claim C20. Favourites refine a set of identifiers, for guests, for signed-in users and when the
  account's favourites cannot be loaded: adding inserts, removing deletes, toggling switches, the
  test is membership, clearing empties, and the list shown has no duplicates, blanks or padding.
\<close>

theorem favorites_refine_set:
  assumes "query_client_ok qc" and "guest_ok s" and "fav_enabled s"
  shows "(let shown = (\<lambda>t. set (favoriteIds qc t)) in
      shown (addFavorite qc p s) = (if trim p = [] then shown s else insert (trim p) (shown s))
    \<and> shown (removeFavorite qc p s) = shown s - {trim p}
    \<and> shown (toggleFavorite qc p s)
        = (if trim p = [] then shown s else if trim p \<in> shown s then shown s - {trim p} else insert (trim p) (shown s))
    \<and> isFavorite qc p s = (trim p \<in> shown s)
    \<and> shown (clearFavorites qc s) = {}
    \<and> plain_ids (favoriteIds qc s)
    \<and> guest_ok (addFavorite qc p s) \<and> guest_ok (removeFavorite qc p s) \<and> guest_ok (toggleFavorite qc p s))"
proof -
  have "set (favoriteIds qc (clearFavorites qc s)) = {}"
  proof (cases "online s")
    case True
    then have "authFavoriteIds qc (clearFavorites qc s) = Some []"
      using assms(1) by (simp add: clearFavorites_def authFavoriteIds_def updateServerQueryData_def online_def
          hasAuthFavoritesFailure_def query_client_ok_def authFavoritesCacheKey_def)
    moreover have "online (clearFavorites qc s)"
      using True by (simp add: clearFavorites_def online_def hasAuthFavoritesFailure_def)
    ultimately show ?thesis by (simp add: favoriteIds_online or_empty_def normalize_ids_keys norm_keys_def)
  next
    case False
    then have "clearFavorites qc s = persistLocalFavoriteIds [] s"
      using assms(3) by (auto simp: clearFavorites_def online_def hasAuthFavoritesFailure_def)
    moreover have "favoriteIds qc (persistLocalFavoriteIds [] s) = []"
      using assms(3) False
      by (intro favoriteIds_persist) (auto simp: online_def hasAuthFavoritesFailure_def plain_ids_def)
    ultimately show ?thesis by simp
  qed
  then show ?thesis
    using set_change [OF assms] assms(2)
    by (simp add: Let_def toggleFavorite_def isFavorite_def guest_ok_steps)
qed

definition guest_state :: "(ustr \<Rightarrow> ustr list option) favorites" where
  "guest_state = \<lparr> fav_enabled = True, fav_authenticated = False, fav_userId = U ''self'', fav_queries = Map.empty,
     fav_failed = False, fav_guest = [U ''7''], fav_stored = None, fav_mutations = [] \<rparr>"

definition account_state :: "(ustr \<Rightarrow> ustr list option) favorites" where
  "account_state = guest_state\<lparr> fav_authenticated := True, fav_guest := [],
     fav_queries := [U ''favorites:auth:self'' \<mapsto> [U ''7'']] \<rparr>"

theorem favorites_refine_set_witness:
  "set (favoriteIds map_client (toggleFavorite map_client (U '' 9 '') guest_state)) = {U ''7'', U ''9''}
   \<and> set (favoriteIds map_client (toggleFavorite map_client (U ''7 '') account_state)) = {}"
proof -
  have t: "trim (U '' 9 '') = U ''9''" "trim (U ''7 '') = U ''7''" by code_simp+
  have ids: "set (favoriteIds map_client guest_state) = {U ''7''}" "set (favoriteIds map_client account_state) = {U ''7''}"
    by code_simp+
  have ok: "guest_ok guest_state" "fav_enabled guest_state" "guest_ok account_state" "fav_enabled account_state"
    by code_simp+
  have ne: "U ''9'' \<noteq> []" "U ''7'' \<noteq> []" by code_simp+
  note g = favorites_refine_set [OF map_client_ok ok(1,2), of "U '' 9 ''", unfolded Let_def t ids]
  note a = favorites_refine_set [OF map_client_ok ok(3,4), of "U ''7 ''", unfolded Let_def t ids]
  have "set (favoriteIds map_client (toggleFavorite map_client (U '' 9 '') guest_state)) = {U ''7'', U ''9''}"
    using g [THEN conjunct2, THEN conjunct2, THEN conjunct1] ne by auto
  moreover have "set (favoriteIds map_client (toggleFavorite map_client (U ''7 '') account_state)) = {}"
    using a [THEN conjunct2, THEN conjunct2, THEN conjunct1] ne by simp
  ultimately show ?thesis ..
qed

text \<open>
  A mutation the server refuses is undone exactly: the list shown is the one before it,
  in its order.  It undoes as well every optimistic change made after it, although the requests of
  these are still under way.  A mutation that was aborted stays.
\<close>

theorem refused_mutation_undone:
  assumes "query_client_ok qc" and "online s" and "trim p \<noteq> []" and "trim p \<notin> set (favoriteIds qc s)"
    and "trim r \<noteq> []" and "trim r \<notin> set (favoriteIds qc s)" and "trim r \<noteq> trim p"
    and "fav_mutations s = []"
  shows "(let m = hd (fav_mutations (addFavorite qc p s)); both = addFavorite qc r (addFavorite qc p s) in
      favoriteIds qc (addFavorite qc p s) = favoriteIds qc s @ [trim p]
    \<and> favoriteIds qc (mutation_settled qc m (Inr False) (addFavorite qc p s)) = favoriteIds qc s
    \<and> favoriteIds qc both = favoriteIds qc s @ [trim p, trim r]
    \<and> favoriteIds qc (mutation_settled qc m (Inr False) both) = favoriteIds qc s
    \<and> map mut_post (fav_mutations (mutation_settled qc m (Inr False) both)) = [trim r]
    \<and> favoriteIds qc (mutation_settled qc m (Inl (JsError (U ''AbortError'') [])) both) = favoriteIds qc both)"
proof -
  define m where "m = hd (fav_mutations (addFavorite qc p s))"
  have add: "addFavorite qc x t = start_mutation qc True (trim x) t"
    if "online t" "trim x \<noteq> []" "trim x \<notin> set (favoriteIds qc t)" for x t
    using that by (simp add: addFavorite_def Let_def online_def hasAuthFavoritesFailure_def)
  have ids: "favoriteIds qc (start_mutation qc True (trim x) t) = favoriteIds qc t @ [trim x]"
    if "online t" "trim x \<noteq> []" "trim x \<notin> set (favoriteIds qc t)" for x t
    using favoriteIds_mutation [OF assms(1) that(1), of "trim x" True] that
    by (simp add: with_id_def Let_def favoriteIds_online)
  let ?a = "start_mutation qc True (trim p) s"
  let ?b = "start_mutation qc True (trim r) ?a"
  have a: "addFavorite qc p s = ?a" "favoriteIds qc ?a = favoriteIds qc s @ [trim p]"
    using add ids assms by simp_all
  then have b: "addFavorite qc r ?a = ?b" "favoriteIds qc ?b = favoriteIds qc s @ [trim p, trim r]"
    using add [of ?a r] ids [of ?a r] assms by simp_all
  have m: "mut_key m = authFavoritesCacheKey s" "mut_snapshot m = favoriteIds qc s" "fav_mutations ?a = [m]"
    using assms(2,8) unfolding m_def a by (simp_all add: start_mutation_def Let_def favoriteIds_online authFavoriteIds_def)
  have undone: "favoriteIds qc (mutation_settled qc m (Inr False) t) = favoriteIds qc s"
    if "online t" "authFavoritesCacheKey t = authFavoritesCacheKey s" for t
  proof -
    let ?t = "mutation_settled qc m (Inr False) t"
    have "calls_onError (favorite_outcome (mut_adds m) (mut_post m) (Inr False))"
      by (auto simp: calls_onError_def favorite_outcome_def aborted_def)
    then have t: "?t = t\<lparr> fav_mutations := remove1 m (fav_mutations t),
        fav_queries := setServerQueryData qc (fav_queries t) (mut_key m) (mut_snapshot m) \<rparr>"
      by (simp add: mutation_settled_def Let_def)
    have "authFavoriteIds qc ?t = Some (favoriteIds qc s)"
      using assms(1) m(1,2) that(2) unfolding t
      by (simp add: authFavoriteIds_def query_client_ok_def authFavoritesCacheKey_def)
    moreover have "online ?t" using that(1) unfolding t by (simp add: online_def)
    ultimately show ?thesis by (simp add: favoriteIds_online or_empty_def normalize_plain)
  qed
  have posts: "map mut_post (fav_mutations (mutation_settled qc m (Inr False) ?b)) = [trim r]"
  proof -
    have "fav_mutations ?b = fav_mutations ?a @ [last (fav_mutations ?b)]" "mut_post (last (fav_mutations ?b)) = trim r"
      by (simp_all add: start_mutation_def Let_def)
    with m(3) have "map mut_post (remove1 m (fav_mutations ?b)) = [trim r]"
      by (metis append_Cons append_Nil list.simps(8,9) remove1.simps(2))
    then show ?thesis by (simp add: mutation_settled_def Let_def)
  qed
  have aborted: "favoriteIds qc (mutation_settled qc m (Inl (JsError (U ''AbortError'') [])) t) = favoriteIds qc t" for t
    by (simp add: mutation_settled_def Let_def calls_onError_def favorite_outcome_def aborted_def favoriteIds_def
        authFavoriteIds_def hasAuthFavoritesFailure_def authFavoritesCacheKey_def)
  have on: "online ?a" "online ?b" "authFavoritesCacheKey ?a = authFavoritesCacheKey s"
    "authFavoritesCacheKey ?b = authFavoritesCacheKey s" using assms(2) by simp_all
  show ?thesis
    unfolding Let_def a(1) b(1) m(3) list.sel using a(2) b(2) undone [OF on(1,3)] undone [OF on(2,4)] posts aborted by blast
qed

theorem refused_mutation_undone_witness:
  "(let both = addFavorite map_client (U ''5'') (addFavorite map_client (U ''9'') account_state);
        m = hd (fav_mutations (addFavorite map_client (U ''9'') account_state)) in
     favoriteIds map_client both = [U ''7'', U ''9'', U ''5'']
   \<and> favoriteIds map_client (mutation_settled map_client m (Inr False) both) = [U ''7''])"
proof -
  have t: "trim (U ''9'') = U ''9''" "trim (U ''5'') = U ''5''" by code_simp+
  have ids: "favoriteIds map_client account_state = [U ''7'']" by code_simp
  have ok: "online account_state" "fav_mutations account_state = []" "U ''9'' \<noteq> []" "U ''5'' \<noteq> []" by code_simp+
  from refused_mutation_undone [OF map_client_ok ok(1), of "U ''9''" "U ''5''"] ok show ?thesis
    by (simp add: Let_def t ids)
qed

end
