(* ===== verification/Feed.thy ===== *)
theory Feed
  imports Lookups Favorites Routes
begin

text \<open>
  The feed of listings: reading it (\<open>services/api/posts/feed.ts\<close>, \<open>read.ts\<close>, \<open>services/api/sellers.ts\<close>),
  what the home page shows of it (\<open>features/marketplace/hooks/usePosts.ts\<close>), and the actions on listings
  that keep the cached feed up to date (\<open>app/routes/usePostActions.ts\<close>).  The cache is the query client
  of \<open>Favorites\<close>, a parameter; the contract of the actions is a finite map of listings by identifier.
\<close>

section \<open>feed.ts\<close>

definition FEED_PAGE_SIZE :: int where "FEED_PAGE_SIZE = 200"

definition strings_of :: "jval list \<Rightarrow> ustr list" where
  "strings_of vs = List.map_filter (\<lambda>v. case v of Str s \<Rightarrow> Some s | _ \<Rightarrow> None) vs"

definition feed_images :: "jval \<Rightarrow> ustr list" where
  "feed_images post =
     (case fld post ''Images'' of
        Arr vs \<Rightarrow> strings_of vs
      | _ \<Rightarrow> (case fld post ''images'' of Arr vs \<Rightarrow> strings_of vs | _ \<Rightarrow> []))"

record lookup_context =
  \<comment> \<open>what the lookups depend on: clock, image host, local storage, answers of the server, ratings in time\<close>
  lc_now :: int
  lc_host :: ustr
  lc_storage :: storage
  lc_server :: lookup_server
  lc_inTime :: bool

definition enriched :: "lookup_context \<Rightarrow> jval list \<Rightarrow> lookup_state \<Rightarrow> jval list \<times> lookup_state" where
  "enriched lc posts st =
     enrichPostsWithCategoryAndSeller (lc_now lc) (lc_host lc) (lc_storage lc) (lc_server lc) (lc_inTime lc) posts False st"

definition fetchFeedPage ::
    "jsenv \<Rightarrow> ustr \<Rightarrow> lookup_context \<Rightarrow> int \<Rightarrow> int \<Rightarrow> api_response \<Rightarrow> lookup_state
     \<Rightarrow> (ustr + post list \<times> pagination) \<times> lookup_state" where
  \<comment> \<open>an error is its code\<close>
  "fetchFeedPage env host lc page limit response st =
     (case response of
        ApiErr e \<Rightarrow> (Inl (err_code e), st)
      | ApiOk d \<Rightarrow>
          (case parsePostsEnvelope d of
             None \<Rightarrow> (Inl (U ''PARSE_ERROR''), st)
           | Some parsed \<Rightarrow>
               (let (rows, st') = enriched lc (envelope_posts parsed) st;
                    posts = map (\<lambda>(i, row). transformPostModelToPost env host row (feed_images row) (Some i)) (enumerate 0 rows)
                in (Inr (posts, parsePaginationPayload (envelope_pagination parsed) page limit (int (length posts))), st'))))"

record feed_response =
  fr_success :: bool
  fr_posts :: "post list"
  fr_pagination :: pagination
  fr_error :: "(ustr \<times> ustr) option"   \<comment> \<open>message and code\<close>

definition feed_page_number :: "jnum option \<Rightarrow> int" where
  "feed_page_number page = (case page of Some (Fin r) \<Rightarrow> if r > 0 then \<lfloor>r\<rfloor> else 1 | _ \<Rightarrow> 1)"

definition feed_rows_per_page :: "jnum option \<Rightarrow> int" where
  "feed_rows_per_page limit =
     (case limit of Some (Fin r) \<Rightarrow> if r > 0 then min FEED_PAGE_SIZE \<lfloor>r\<rfloor> else FEED_PAGE_SIZE | _ \<Rightarrow> FEED_PAGE_SIZE)"

definition feed_error :: "ustr \<Rightarrow> ustr \<times> ustr" where
  "feed_error code =
     (if code = U ''DATABASE_UNAVAILABLE''
      then (U ''TijarahJo is currently undergoing maintenance (database unreachable). Please try again later.'',
            U ''DATABASE_UNAVAILABLE'')
      else (U ''We're having trouble loading the marketplace feed right now. Please check your connection and refresh the page to try again.'',
            U ''FEED_PAGE_FAILED''))"

definition getPostsFromFeed ::
    "jsenv \<Rightarrow> ustr \<Rightarrow> lookup_context \<Rightarrow> jnum option \<Rightarrow> jnum option \<Rightarrow> thrown + api_response \<Rightarrow> lookup_state
     \<Rightarrow> (thrown + feed_response) \<times> lookup_state" where
  \<comment> \<open>an aborted request is rethrown\<close>
  "getPostsFromFeed env host lc page limit outcome st =
     (let pageNumber = feed_page_number page; rowsPerPage = feed_rows_per_page limit in
      case outcome of
        Inl e \<Rightarrow> (Inl e, st)
      | Inr response \<Rightarrow>
          (case fetchFeedPage env host lc pageNumber rowsPerPage response st of
             (Inl code, st') \<Rightarrow>
               (Inr \<lparr> fr_success = False, fr_posts = [],
                  fr_pagination = \<lparr> currentPage = pageNumber, totalPages = 0, totalPosts = 0, postsPerPage = rowsPerPage \<rparr>,
                  fr_error = Some (feed_error code) \<rparr>, st')
           | (Inr (posts, pagination), st') \<Rightarrow>
               (Inr \<lparr> fr_success = True, fr_posts = posts, fr_pagination = pagination, fr_error = None \<rparr>, st')))"

section \<open>read.ts and sellers.ts\<close>

definition row_post_id :: "jval \<Rightarrow> ustr" where
  \<comment> \<open>\<open>getPostId\<close>\<close>
  "row_post_id row = trim (to_str (coalesce [flds row [''PostID'', ''postID'', ''id''], Str []]))"

definition getPostById ::
    "jsenv \<Rightarrow> ustr \<Rightarrow> lookup_context \<Rightarrow> api_response \<Rightarrow> ustr list \<Rightarrow> lookup_state \<Rightarrow> (thrown + post option) \<times> lookup_state" where
  \<comment> \<open>the images are those of the row cache\<close>
  "getPostById env host lc response postImages st =
     (let failed = (\<lambda>m. Inl (JsError (U ''Error'') m)) in
      case response of
        ApiErr e \<Rightarrow>
          (if err_code e = U ''HTTP_404'' then Inr None else failed (or_else (err_message e) (U ''Failed to load post'')), st)
      | ApiOk d \<Rightarrow>
          (case parseRawPost d of
             None \<Rightarrow> (failed (U ''Invalid post response''), st)
           | Some row \<Rightarrow>
               if row_post_id row = [] then (failed (U ''Invalid post response''), st)
               else (case enriched lc [row] st of
                       (rows, st') \<Rightarrow>
                         (Inr (Some (transformPostModelToPost env host (case rows of r # _ \<Rightarrow> r | [] \<Rightarrow> row) postImages None)), st'))))"

definition getSellerProfile :: "ustr \<Rightarrow> api_response \<Rightarrow> jval option" where
  "getSellerProfile sellerId response =
     (if trim sellerId = [] then None
      else (case response of ApiOk d \<Rightarrow> if truthy d then Some d else None | ApiErr _ \<Rightarrow> None))"

definition getTopSellers :: "api_response \<Rightarrow> jval list" where
  "getTopSellers response = (case response of ApiOk (Arr vs) \<Rightarrow> vs | _ \<Rightarrow> [])"

definition seller_row_id :: "jval \<Rightarrow> ustr" where
  "seller_row_id row = trim (to_str (or_vals [fld row ''id'', Str []]))"

definition seller_row_text :: "jval \<Rightarrow> string \<Rightarrow> ustr" where
  "seller_row_text row k = trim (to_str (or_vals [fld row k, Str []]))"

definition seller_row :: "jval \<Rightarrow> jval" where
  \<comment> \<open>a listing of a seller with its images and its cover\<close>
  "seller_row row =
     (let images = (case fld row ''images'' of
                      Arr vs \<Rightarrow> filter (\<lambda>s. length (trim s) > 0) (strings_of vs) | _ \<Rightarrow> []);
          cover = or_else (seller_row_text row ''thumbnailImage'')
            (or_else (seller_row_text row ''image'') (case images of i # _ \<Rightarrow> i | [] \<Rightarrow> []))
      in obj_set (obj_set row ''images'' (Arr (map Str images))) ''image'' (Str cover))"

definition getPostsByUserId :: "jval option \<Rightarrow> thrown + jval list" where
  \<comment> \<open>from the answer of \<open>getSellerProfile\<close>\<close>
  "getPostsByUserId response =
     (case response of
        None \<Rightarrow> Inl (JsError (U ''Error'') (U ''Invalid user posts response''))
      | Some d \<Rightarrow>
          (case fld d ''posts'' of
             Arr rows \<Rightarrow>
               if truthy (fld d ''success'') then Inr (map seller_row (filter (\<lambda>row. seller_row_id row \<noteq> []) rows))
               else Inl (JsError (U ''Error'') (U ''Invalid user posts response''))
           | _ \<Rightarrow> Inl (JsError (U ''Error'') (U ''Invalid user posts response''))))"

section \<open>usePosts.ts\<close>


definition feed_query :: "thrown + feed_response \<Rightarrow> thrown + post list" where
  \<comment> \<open>\<open>queryFn\<close>\<close>
  "feed_query outcome =
     (case outcome of
        Inl e \<Rightarrow> Inl e
      | Inr r \<Rightarrow>
          if fr_success r then Inr (fr_posts r)
          else Inl (JsError (U ''Error'')
                 (or_else (case fr_error r of Some (m, _) \<Rightarrow> m | None \<Rightarrow> []) (U ''Failed to load posts''))))"

record posts_view =
  pv_available :: "post list"
  pv_isLoading :: bool
  pv_error :: "ustr option"
  pv_filtered :: "post list"

definition shown_error :: "ustr option \<Rightarrow> bool \<Rightarrow> ustr option" where
  \<comment> \<open>\<open>error && nothingShown ? error : null\<close>\<close>
  "shown_error e nothingShown = (if opt_str e \<noteq> [] \<and> nothingShown then e else None)"

definition usePosts ::
    "jsenv \<Rightarrow> ustr \<Rightarrow> bool \<Rightarrow> bool \<Rightarrow> bool \<Rightarrow> post list option \<Rightarrow> ustr option \<Rightarrow> ustr \<Rightarrow> rat
     \<Rightarrow> pipeline_result option \<Rightarrow> ustr option \<Rightarrow> posts_view" where
  \<comment> \<open>the query typed, whether the feed is loading or a search running, the data and error of the feed, the
      settled query, limit, data and error of the search\<close>
  "usePosts env debouncedSearchQuery enabled isLoadingPosts isSearchingPosts postsData postsError settledQuery limit
       searchData searchQueryError =
     (let q = trim debouncedSearchQuery;
          available = (if enabled then (case postsData of Some ps \<Rightarrow> ps | None \<Rightarrow> []) else []);
          view = useMarketplaceSearchResults settledQuery available (\<lambda>_ _. rankMarketplacePosts env available q) enabled False 1
                   limit searchData searchQueryError;
          filtered = (if \<not> enabled then [] else if q = [] then filter isActivePost available else view_posts view)
      in \<lparr> pv_available = available,
           pv_isLoading = (enabled \<and> (isLoadingPosts \<or> (length q > 0 \<and> isSearchingPosts))),
           pv_error = (if \<not> enabled then None
                       else if q = [] then shown_error postsError (available = [])
                       else shown_error (view_error view) (filtered = [])),
           pv_filtered = filtered \<rparr>)"

section \<open>usePostActions.ts\<close>


definition merged_post :: "bool \<Rightarrow> post \<Rightarrow> post \<Rightarrow> post" where
  \<comment> \<open>the entry of the cache after the next state of its listing is known; the mapper sets every field\<close>
  "merged_post statusOnly nextPost currentPost =
     (if statusOnly
      then currentPost\<lparr> post_state := (case post_state nextPost of Some v \<Rightarrow> Some v | None \<Rightarrow> post_state currentPost) \<rparr>
      else nextPost\<lparr> post_images := (case post_images nextPost of Some v \<Rightarrow> Some v | None \<Rightarrow> post_images currentPost) \<rparr>)"


record update_input =
  ui_id :: ustr
  ui_name :: ustr
  ui_description :: "ustr option"
  ui_category :: ustr
  ui_location :: "ustr option"
  ui_area :: "ustr option"
  ui_status :: "post_status option"







section \<open>Lemmas\<close>





lemma post_id_merged [simp]: "post_id (merged_post b p c) = (if b then post_id c else post_id p)"
  by (simp add: merged_post_def)





section \<open>Properties\<close>





lemma mapped_names:
  "post_id (transformPostModelToPost env host m images i) \<noteq> []"
  "fld m ''Seller'' = Str n \<Longrightarrow> post_seller (transformPostModelToPost env host m images i) = n"
  "fld m ''Category'' = Str c \<Longrightarrow> post_category (transformPostModelToPost env host m images i) = c"
  "post_images (transformPostModelToPost env host m images i) \<noteq> None"
  by (simp_all add: transformPostModelToPost_def Let_def post_identity_def str_chain_def)

lemma enriched_rows:
  assumes "lookup_reachable st" and "\<forall>p \<in> set rows. \<exists>fs. p = Obj fs" and "enriched lc rows st = (rows', st')"
  shows "length rows' = length rows
    \<and> (\<forall>r \<in> set rows'. \<exists>c n. c \<noteq> [] \<and> n \<noteq> [] \<and> fld r ''Category'' = Str c \<and> fld r ''Seller'' = Str n)"
proof -
  obtain t where rows': "rows' = map (enrich_post t) rows"
    using enrich_tables [OF lookups_ok_reachable [OF assms(1)], of "lc_now lc" "lc_host lc" "lc_storage lc" "lc_server lc"
        "lc_inTime lc" rows False] assms(3) by (auto simp: enriched_def)
  have "\<exists>c n. c \<noteq> [] \<and> n \<noteq> [] \<and> fld (enrich_post t p) ''Category'' = Str c \<and> fld (enrich_post t p) ''Seller'' = Str n"
    if prem: "p \<in> set rows" for p
  proof -
    obtain fs where p: "p = Obj fs" using assms(2) prem by blast
    show ?thesis
      by (intro exI conjI) (rule enriched_names fld_enrich_post(1,2) [OF p])+
  qed
  then show ?thesis unfolding rows' set_map length_map by blast
qed

lemma envelope_rows: "parsePostsEnvelope d = Some pe \<Longrightarrow> \<forall>p \<in> set (envelope_posts pe). \<exists>fs. p = Obj fs"
proof -
  have row: "\<exists>fs. p = Obj fs" if "parseRawPost v = Some p" for v p
    using that by (auto simp: parseRawPost_def split: option.splits)
  have "\<exists>fs. p = Obj fs" if "p \<in> set (parseRawPostsCollection v)" for v p
    using that row by (cases v) (auto simp: parseRawPostsCollection_def set_map_filter)
  moreover have "\<exists>v. envelope_posts pe = parseRawPostsCollection v" if prem: "parsePostsEnvelope d = Some pe"
  proof -
    obtain r where r: "asRecord d = Some r" using prem by (cases "asRecord d") (simp_all add: parsePostsEnvelope_def)
    show ?thesis
      using prem by (cases "flds r [''posts'', ''Posts'']") (auto simp: parsePostsEnvelope_def Let_def r)
  qed
  ultimately show "parsePostsEnvelope d = Some pe \<Longrightarrow> ?thesis" by metis
qed

text \<open>
   Reading the feed.  Only an aborted request throws; every other outcome is a response, which
  succeeds exactly when the server answers with a list of listings.  Then there is one listing for every
  record of that list, each with an identifier, a category and a seller name that are not empty, in every
  state the lookup caches can reach; a failure has no listings and an error that tells maintenance from
  other causes.  At most 200 rows of a page are requested; a page number strictly between 0 and 1 is
  taken as page 0.
\<close>

theorem feed_read:
  assumes "lookup_reachable st" and "getPostsFromFeed env host lc page limit outcome st = (res, st')"
  shows "(outcome = Inl e \<longleftrightarrow> res = Inl e)
    \<and> (outcome = Inr response \<longrightarrow>
        (\<exists>r. res = Inr r
           \<and> (case (case response of ApiErr _ \<Rightarrow> None | ApiOk d \<Rightarrow> parsePostsEnvelope d) of
                None \<Rightarrow> \<not> fr_success r \<and> fr_posts r = []
                  \<and> fr_error r = Some (feed_error (case response of ApiErr er \<Rightarrow> err_code er | ApiOk _ \<Rightarrow> U ''PARSE_ERROR''))
              | Some pe \<Rightarrow> fr_success r \<and> fr_error r = None \<and> length (fr_posts r) = length (envelope_posts pe)
                  \<and> (\<forall>p \<in> set (fr_posts r). post_id p \<noteq> [] \<and> post_category p \<noteq> [] \<and> post_seller p \<noteq> [] \<and> post_images p \<noteq> None))))
    \<and> 0 \<le> feed_rows_per_page limit \<and> feed_rows_per_page limit \<le> 200
    \<and> (feed_page_number page = 0 \<longleftrightarrow> (\<exists>r. page = Some (Fin r) \<and> 0 < r \<and> r < 1)) \<and> 0 \<le> feed_page_number page"
proof -
  have limits: "0 \<le> feed_rows_per_page limit" "feed_rows_per_page limit \<le> 200" "0 \<le> feed_page_number page"
    by (auto simp: feed_rows_per_page_def feed_page_number_def FEED_PAGE_SIZE_def le_floor_iff split: option.splits jnum.splits)
  have zero: "feed_page_number page = 0 \<longleftrightarrow> (\<exists>r. page = Some (Fin r) \<and> 0 < r \<and> r < 1)"
    by (auto simp: feed_page_number_def floor_eq_iff split: option.splits jnum.splits)
  have read: "\<exists>r. res = Inr r
      \<and> (case (case response of ApiErr _ \<Rightarrow> None | ApiOk d \<Rightarrow> parsePostsEnvelope d) of
           None \<Rightarrow> \<not> fr_success r \<and> fr_posts r = []
             \<and> fr_error r = Some (feed_error (case response of ApiErr er \<Rightarrow> err_code er | ApiOk _ \<Rightarrow> U ''PARSE_ERROR''))
         | Some pe \<Rightarrow> fr_success r \<and> fr_error r = None \<and> length (fr_posts r) = length (envelope_posts pe)
             \<and> (\<forall>p \<in> set (fr_posts r). post_id p \<noteq> [] \<and> post_category p \<noteq> [] \<and> post_seller p \<noteq> [] \<and> post_images p \<noteq> None))"
    if out: "outcome = Inr response"
  proof (cases "case response of ApiErr _ \<Rightarrow> None | ApiOk d \<Rightarrow> parsePostsEnvelope d")
    case None
    then have "fetchFeedPage env host lc (feed_page_number page) (feed_rows_per_page limit) response st
        = (Inl (case response of ApiErr er \<Rightarrow> err_code er | ApiOk _ \<Rightarrow> U ''PARSE_ERROR''), st)"
      by (cases response) (simp_all add: fetchFeedPage_def)
    then show ?thesis using None assms(2) out by (auto simp: getPostsFromFeed_def Let_def)
  next
    case (Some pe)
    then obtain d where d: "response = ApiOk d" "parsePostsEnvelope d = Some pe" by (cases response) auto
    obtain rows st2 where rows: "enriched lc (envelope_posts pe) st = (rows, st2)" by (cases "enriched lc (envelope_posts pe) st")
    note named = enriched_rows [OF assms(1) envelope_rows [OF d(2)] rows]
    let ?post = "\<lambda>(i, row). transformPostModelToPost env host row (feed_images row) (Some i)"
    have good: "post_id p \<noteq> [] \<and> post_category p \<noteq> [] \<and> post_seller p \<noteq> [] \<and> post_images p \<noteq> None"
      if mem: "p \<in> ?post ` set (enumerate 0 rows)" for p
    proof -
      obtain i row where p: "p = ?post (i, row)" "row \<in> set rows"
        using mem by (auto simp: in_set_enumerate_eq)
      with named obtain c n where "fld row ''Category'' = Str c" "c \<noteq> []" "fld row ''Seller'' = Str n" "n \<noteq> []" by blast
      then show ?thesis using p(1) by (simp add: mapped_names)
    qed
    have "fetchFeedPage env host lc (feed_page_number page) (feed_rows_per_page limit) response st
        = (Inr (map ?post (enumerate 0 rows), parsePaginationPayload (envelope_pagination pe) (feed_page_number page)
             (feed_rows_per_page limit) (int (length rows))), st2)"
      using d rows by (simp add: fetchFeedPage_def)
    then show ?thesis using assms(2) out Some named good by (auto simp: getPostsFromFeed_def Let_def)
  qed
  have "outcome = Inl e \<longleftrightarrow> res = Inl e"
    using assms(2) read by (cases outcome) (auto simp: getPostsFromFeed_def Let_def split: prod.splits sum.splits)
  with read limits zero show ?thesis by blast
qed

definition one_row :: jval where
  "one_row = jobj [(''posts'', Arr [jobj [(''PostID'', Num (Fin 4)), (''PostTitle'', Str (U ''Van''))]])]"

definition idle_context :: lookup_context where
  "idle_context = \<lparr> lc_now = 1, lc_host = [], lc_storage = (\<lambda>_. None), lc_server = silent_server, lc_inTime = True \<rparr>"

theorem feed_read_witness:
  "\<exists>r p st'. getPostsFromFeed ref_env [] idle_context None (Some (Fin 1000)) (Inr (ApiOk one_row)) initial_lookups
      = (Inr r, st') \<and> fr_success r \<and> fr_posts r = [p] \<and> post_category p \<noteq> [] \<and> feed_rows_per_page (Some (Fin 1000)) \<le> 200"
proof -
  obtain res st' where run: "getPostsFromFeed ref_env [] idle_context None (Some (Fin 1000)) (Inr (ApiOk one_row)) initial_lookups
      = (res, st')"
    by fastforce
  have "map_option (\<lambda>pe. length (envelope_posts pe)) (parsePostsEnvelope one_row) = Some 1" by code_simp
  then obtain pe where pe: "parsePostsEnvelope one_row = Some pe" "length (envelope_posts pe) = 1" by blast
  have "\<exists>r. res = Inr r \<and> fr_success r \<and> length (fr_posts r) = 1
      \<and> (\<forall>p \<in> set (fr_posts r). post_category p \<noteq> [])"
    using feed_read [OF lookup_reachable.init run, where response = "ApiOk one_row" and e = "JsError [] []"] pe by auto
  then obtain r where "res = Inr r" "fr_success r" "length (fr_posts r) = 1" "\<forall>p \<in> set (fr_posts r). post_category p \<noteq> []"
    by blast
  moreover from this obtain p where "fr_posts r = [p]" by (auto simp: length_Suc_conv)
  moreover have "feed_rows_per_page (Some (Fin 1000)) \<le> 200" by code_simp
  ultimately show ?thesis using run by auto
qed

end
