(* ===== verification/SellerProfile.thy ===== *)
theory SellerProfile
  imports Feed Users
begin

text \<open>
  Reviews (\<open>services/api/reviews.ts\<close>, \<open>schemas/reviewSchema.ts\<close>) and the page of a seller
  (\<open>features/seller-profile/hooks/useSellerProfileData.ts\<close>).  The hook loads in one or two rounds of
  requests; a run number in a ref drops what was superseded.  Rounds under way are part of the state.
\<close>

section \<open>reviewSchema.ts and reviews.ts\<close>

definition review_keys :: "string list" where
  "review_keys =
     [''ReviewID'', ''reviewID'', ''ReviewerID'', ''reviewerID'', ''ReviewerName'', ''reviewerName'', ''ReviewerAvatar'',
      ''reviewerAvatar'', ''ReviewedUserID'', ''reviewedUserID'', ''Rating'', ''rating'', ''Comment'', ''comment'',
      ''Timestamp'', ''timestamp'']"

definition parseRawReview :: "jval \<Rightarrow> jval option" where
  "parseRawReview v = map_option (\<lambda>r. Obj (map (\<lambda>k. (U k, fld r k)) review_keys)) (asRecord v)"

definition parseRawReviewsCollection :: "jval \<Rightarrow> jval list" where
  "parseRawReviewsCollection v = (case v of Arr vs \<Rightarrow> List.map_filter parseRawReview vs | _ \<Rightarrow> [])"

definition getUserReviews :: "ustr \<Rightarrow> api_response \<Rightarrow> jval list" where
  "getUserReviews userId response =
     (if toPositiveIntegerId (Str userId) = None then []
      else (case response of ApiOk d \<Rightarrow> parseRawReviewsCollection d | ApiErr _ \<Rightarrow> []))"

definition getSellerRating :: "ustr \<Rightarrow> api_response \<Rightarrow> rat \<times> rat" where
  \<comment> \<open>average and number of reviews\<close>
  "getSellerRating userId response =
     (case toPositiveIntegerId (Str userId) of
        None \<Rightarrow> (0, 0)
      | Some n \<Rightarrow>
          (case response of
             ApiErr _ \<Rightarrow> (0, 0)
           | ApiOk d \<Rightarrow>
               (case map_of (object_pairs d) (int_str n) of
                  None \<Rightarrow> (0, 0)
                | Some stat \<Rightarrow>
                    if \<not> truthy stat then (0, 0)
                    else (case to_num (coalesce [fld stat ''AverageRating'', Num (Fin 0)]) of
                            Fin avg \<Rightarrow> min 5 (max 0 avg) | _ \<Rightarrow> 0,
                          case to_num (coalesce [fld stat ''ReviewCount'', Num (Fin 0)]) of
                            Fin n' \<Rightarrow> if n' > 0 then n' else 0 | _ \<Rightarrow> 0))))"

definition js_round :: "rat \<Rightarrow> int" where
  \<comment> \<open>\<open>Math.round\<close>\<close>
  "js_round r = \<lfloor>r + 1 / 2\<rfloor>"

definition clamped_rating :: "jnum \<Rightarrow> jnum" where
  \<comment> \<open>\<open>Math.max(1, Math.min(5, Math.round(x)))\<close>\<close>
  "clamped_rating n =
     (case n of NaN \<Rightarrow> NaN | PInf \<Rightarrow> Fin 5 | NInf \<Rightarrow> Fin 1 | Fin r \<Rightarrow> Fin (of_int (max 1 (min 5 (js_round r)))))"

definition addReview_body :: "jsenv \<Rightarrow> jval \<Rightarrow> jnum \<Rightarrow> ustr \<Rightarrow> ustr + jval" where
  \<comment> \<open>the message of a refusal, or the body posted\<close>
  "addReview_body env reviewedUserId rating comment =
     (case toPositiveIntegerId reviewedUserId of
        None \<Rightarrow> Inl (U ''Invalid reviewed user ID'')
      | Some n \<Rightarrow>
          if trim comment = [] then Inl (U ''Comment is required'')
          else Inr (jobj [(''ReviewID'', Null), (''ReviewerID'', Num (Fin 0)), (''ReviewedUserID'', Num (Fin (of_int n))),
                 (''Rating'', Num (clamped_rating rating)), (''Comment'', Str (trim comment)),
                 (''Timestamp'', Str (iso_string env (now_ms env)))]))"

definition addReview :: "ustr + jval \<Rightarrow> api_response \<Rightarrow> ustr + jval" where
  \<comment> \<open>the message of a failure, or the review\<close>
  "addReview body response =
     (case body of
        Inl m \<Rightarrow> Inl m
      | Inr _ \<Rightarrow>
          (case response of
             ApiOk d \<Rightarrow> (case parseRawReview d of None \<Rightarrow> Inl (U ''Invalid review response'') | Some r \<Rightarrow> Inr r)
           | ApiErr e \<Rightarrow> Inl (or_else (err_message e) (U ''Failed to submit review''))))"

section \<open>Reviews and listings of a seller\<close>

record seller_review =
  sr_id :: jval              \<comment> \<open>a number or a text\<close>
  sr_reviewerId :: int
  sr_reviewerName :: ustr
  sr_reviewerAvatar :: "ustr option"
  sr_rating :: int
  sr_comment :: ustr
  sr_timestamp :: ustr

definition review_identity :: "jval \<Rightarrow> nat \<Rightarrow> jval" where
  "review_identity row index =
     (let fallback = Str (U ''review-'' @ nat_str index) in
      case flds row [''ReviewID'', ''reviewID''] of
        Num (Fin r) \<Rightarrow> Num (Fin (of_int (trunc_rat r)))
      | Str s \<Rightarrow> if length (trim s) > 0 then Str (trim s) else fallback
      | _ \<Rightarrow> fallback)"

definition safe_rating :: "jnum \<Rightarrow> int" where
  "safe_rating n = (case n of Fin r \<Rightarrow> if r > 0 then min 5 (max 1 (js_round r)) else 0 | _ \<Rightarrow> 0)"

definition review_time :: "jsenv \<Rightarrow> jval \<Rightarrow> ustr" where
  "review_time env raw =
     iso_string env
       (case (case raw of Str _ \<Rightarrow> date_value env raw | Num _ \<Rightarrow> date_value env raw | _ \<Rightarrow> None) of
          Some t \<Rightarrow> t | None \<Rightarrow> now_ms env)"

definition seller_review_of :: "jsenv \<Rightarrow> nat \<times> jval \<Rightarrow> seller_review" where
  "seller_review_of env ir =
     (let row = snd ir;
          reviewerId = (case toPositiveIntegerId (flds row [''ReviewerID'', ''reviewerID'']) of Some n \<Rightarrow> n | None \<Rightarrow> 0)
      in \<lparr> sr_id = review_identity row (fst ir), sr_reviewerId = reviewerId,
           sr_reviewerName = resolveUserDisplayName
             (jobj [(''name'', flds row [''ReviewerName'', ''reviewerName'']),
                    (''email'', flds row [''ReviewerEmail'', ''reviewerEmail''])]) (Num (Fin (of_int reviewerId))),
           sr_reviewerAvatar = (case flds row [''ReviewerAvatar'', ''reviewerAvatar''] of
                                  Str s \<Rightarrow> undef_if_empty (trim s) | _ \<Rightarrow> None),
           sr_rating = safe_rating (to_num (coalesce [fld row ''Rating'', fld row ''rating'', Num (Fin 0)])),
           sr_comment = to_str (coalesce [fld row ''Comment'', fld row ''comment'', Str []]),
           sr_timestamp = review_time env (flds row [''Timestamp'', ''timestamp'']) \<rparr>)"

definition seller_reviews :: "jsenv \<Rightarrow> jval list \<Rightarrow> seller_review list" where
  "seller_reviews env rows = map (seller_review_of env) (enumerate 0 rows)"

definition valid_ratings :: "seller_review list \<Rightarrow> int list" where
  "valid_ratings rs = filter (\<lambda>r. r > 0) (map sr_rating rs)"

definition sellerAverageRating :: "seller_review list \<Rightarrow> rat option" where
  "sellerAverageRating rs =
     (let vs = valid_ratings rs in if vs = [] then None else Some (of_int (sum_list vs) / of_nat (length vs)))"

definition sellerReviewCount :: "seller_review list \<Rightarrow> rat option" where
  "sellerReviewCount rs = (let n = length (valid_ratings rs) in if n > 0 then Some (of_nat n) else None)"

definition listing_status :: "jval \<Rightarrow> ustr" where
  "listing_status row = upper (to_str (coalesce [fld row ''status'', fld row ''Status'', Str []]))"

definition listing_deleted :: "jval \<Rightarrow> bool" where
  "listing_deleted row = truthy (coalesce [fld row ''isDeleted'', fld row ''IsDeleted'', Bool False])"

definition isActiveListing :: "jval \<Rightarrow> bool" where
  "isActiveListing row \<longleftrightarrow> listing_status row = U ''ACTIVE'' \<and> \<not> listing_deleted row"

definition isSoldListing :: "jval \<Rightarrow> bool" where
  "isSoldListing row \<longleftrightarrow> listing_status row = U ''SOLD'' \<and> \<not> listing_deleted row"

definition readPhone :: "jval \<Rightarrow> ustr" where
  "readPhone row = trim (to_str (coalesce [fld row ''phone'', fld row ''Phone'', Str []]))"

definition findFirstPostPhone :: "jval list \<Rightarrow> ustr" where
  "findFirstPostPhone posts =
     (case find (\<lambda>row. length (readPhone row) > 0) posts of Some row \<Rightarrow> readPhone row | None \<Rightarrow> [])"

definition positive_or :: "rat option \<Rightarrow> rat option \<Rightarrow> rat option" where
  "positive_or v fallback = (case v of Some r \<Rightarrow> if r > 0 then v else fallback | None \<Rightarrow> fallback)"

definition normalizeListingToPost ::
    "jsenv \<Rightarrow> ustr \<Rightarrow> ustr \<Rightarrow> ustr \<Rightarrow> ustr \<Rightarrow> seller_review list \<Rightarrow> nat \<times> jval \<Rightarrow> post" where
  "normalizeListingToPost env host sellerName sellerId fallbackLocation rs ir =
     (let n = transformPostModelToPost env host (snd ir) [] (Some (fst ir)) in
      n\<lparr> post_seller := or_else (trim (post_seller n)) sellerName,
         post_sellerId := or_else (trim (post_sellerId n)) sellerId,
         post_location := or_else (trim (post_location n)) fallbackLocation,
         post_averageRating := positive_or (sellerAverageRating rs) (post_averageRating n),
         post_reviewCount := positive_or (sellerReviewCount rs) (post_reviewCount n) \<rparr>)"

definition seller_listings ::
    "jsenv \<Rightarrow> ustr \<Rightarrow> ustr \<Rightarrow> ustr \<Rightarrow> ustr \<Rightarrow> seller_review list \<Rightarrow> (jval \<Rightarrow> bool) \<Rightarrow> jval list \<Rightarrow> post list" where
  "seller_listings env host sellerName sellerId location rs kind rows =
     map (normalizeListingToPost env host sellerName sellerId location rs) (enumerate 0 (filter kind rows))"

section \<open>The hook\<close>

record seller_profile =
  spr_name :: ustr
  spr_joinDate :: jval
  spr_location :: ustr
  spr_phone :: ustr
  spr_bio :: jval
  spr_avatar :: jval

record seller_view =
  sv_active :: "post list"
  sv_sold :: "post list"
  sv_reviews :: "seller_review list"
  sv_profile :: "seller_profile option"

definition empty_view :: seller_view where
  "empty_view = \<lparr> sv_active = [], sv_sold = [], sv_reviews = [], sv_profile = None \<rparr>"

definition place_text :: "ustr list \<Rightarrow> ustr" where
  \<comment> \<open>\<open>[area, city].filter(Boolean).join(", ") || "Amman, Jordan"\<close>\<close>
  "place_text parts = or_else (join (U '', '') (filter (\<lambda>v. v \<noteq> []) parts)) (U ''Amman, Jordan'')"

definition text_of :: "jval \<Rightarrow> ustr" where
  \<comment> \<open>the text a truthy value is joined as\<close>
  "text_of v = (if truthy v then to_str v else [])"

definition rows_of :: "jval \<Rightarrow> jval list" where
  \<comment> \<open>\<open>sellerResponse.posts || []\<close>, a list as declared\<close>
  "rows_of response = (case fld response ''posts'' of Arr vs \<Rightarrow> vs | _ \<Rightarrow> [])"

definition response_view ::
    "jsenv \<Rightarrow> ustr \<Rightarrow> ustr \<Rightarrow> jval \<Rightarrow> jval list \<Rightarrow> seller_view" where
  \<comment> \<open>what an answer with a seller shows\<close>
  "response_view env host requestedUserId response reviewList =
     (let rs = seller_reviews env reviewList; seller = fld response ''seller''; rows = rows_of response;
          sellerId = or_else (text_of (fld seller ''id'')) requestedUserId;
          location = place_text [text_of (fld seller ''area''), text_of (fld seller ''city'')];
          sellerName = normalizeSellerDisplayName (fld seller ''name'') sellerId;
          listings = seller_listings env host sellerName sellerId location rs
      in \<lparr> sv_active = listings isActiveListing rows, sv_sold = listings isSoldListing rows, sv_reviews = rs,
           sv_profile = Some \<lparr> spr_name = sellerName,
             spr_joinDate = or_vals [fld seller ''joinedDate'', Str (U ''2024'')], spr_location = location,
             spr_phone = or_else (readPhone seller) (findFirstPostPhone rows),
             spr_bio = fld seller ''bio'', spr_avatar = fld seller ''avatar'' \<rparr> \<rparr>)"

definition profile_row :: "profile_record \<Rightarrow> jval" where
  \<comment> \<open>the fields of the profile the names are read from\<close>
  "profile_row b = jobj [(''name'', Str (pr_name b)), (''firstName'', Str (pr_firstName b)),
     (''lastName'', Str (pr_lastName b)), (''email'', Str (pr_email b))]"

definition fallback_view ::
    "jsenv \<Rightarrow> ustr \<Rightarrow> ustr \<Rightarrow> seller_review list \<Rightarrow> profile_record option \<Rightarrow> jval list \<Rightarrow> seller_view" where
  \<comment> \<open>what the user and the listings of the second round show\<close>
  "fallback_view env host requestedUserId rs sellerUser userPosts =
     (let location = (case sellerUser of None \<Rightarrow> U ''Amman, Jordan'' | Some b \<Rightarrow> place_text [trim (pr_area b), trim (pr_city b)]);
          sellerName = (case sellerUser of
                          None \<Rightarrow> U ''User '' @ requestedUserId
                        | Some b \<Rightarrow> normalizeSellerDisplayName
                            (Str (resolveUserDisplayName (profile_row b) (Str requestedUserId))) requestedUserId);
          listings = seller_listings env host sellerName requestedUserId location rs
      in \<lparr> sv_active = listings isActiveListing userPosts, sv_sold = listings isSoldListing userPosts, sv_reviews = rs,
           sv_profile = map_option (\<lambda>b. \<lparr> spr_name = sellerName, spr_joinDate = Str (pr_joinedAt b), spr_location = location,
             spr_phone = or_else (trim (pr_phone b)) (findFirstPostPhone userPosts), spr_bio = Str (pr_bio b),
             spr_avatar = Str (opt_str (pr_avatar b)) \<rparr>) sellerUser \<rparr>)"

datatype seller_request =
    FirstRound nat ustr                       \<comment> \<open>run and requested user\<close>
  | SecondRound nat ustr "seller_review list"

record seller_page =
  sp_userId :: ustr            \<comment> \<open>the user of the last render, empty when undefined\<close>
  sp_view :: seller_view
  sp_isLoading :: bool
  sp_loadedUserId :: ustr
  sp_runId :: nat
  sp_requests :: "seller_request list"

definition reload :: "ustr \<Rightarrow> seller_page \<Rightarrow> seller_page" where
  \<comment> \<open>the callback of the render for \<open>userId\<close>\<close>
  "reload userId s0 =
     (let requestedUserId = trim userId;
          s = s0\<lparr> sp_runId := sp_runId s0 + 1, sp_loadedUserId := [], sp_view := empty_view \<rparr> in
      if requestedUserId = [] then s\<lparr> sp_isLoading := False \<rparr>
      else s\<lparr> sp_isLoading := True, sp_requests := sp_requests s @ [FirstRound (sp_runId s) requestedUserId] \<rparr>)"

definition loaded :: "ustr \<Rightarrow> seller_page \<Rightarrow> seller_page" where
  \<comment> \<open>\<open>finally\<close>\<close>
  "loaded requestedUserId s = s\<lparr> sp_loadedUserId := requestedUserId, sp_isLoading := False \<rparr>"

definition first_settled ::
    "jsenv \<Rightarrow> ustr \<Rightarrow> nat \<Rightarrow> ustr \<Rightarrow> thrown + jval option \<times> jval list \<Rightarrow> seller_page \<Rightarrow> seller_page" where
  "first_settled env host runId requestedUserId outcome s0 =
     (let s = s0\<lparr> sp_requests := remove1 (FirstRound runId requestedUserId) (sp_requests s0) \<rparr> in
      if runId \<noteq> sp_runId s then s
      else (case outcome of
              Inl _ \<Rightarrow> loaded requestedUserId s
            | Inr (response, reviewList) \<Rightarrow>
                (case response of
                   Some d \<Rightarrow>
                     if truthy (fld d ''seller'')
                     then loaded requestedUserId (s\<lparr> sp_view := response_view env host requestedUserId d reviewList \<rparr>)
                     else s\<lparr> sp_view := (sp_view s)\<lparr> sv_reviews := seller_reviews env reviewList \<rparr>,
                            sp_requests := sp_requests s @ [SecondRound runId requestedUserId (seller_reviews env reviewList)] \<rparr>
                 | None \<Rightarrow>
                     s\<lparr> sp_view := (sp_view s)\<lparr> sv_reviews := seller_reviews env reviewList \<rparr>,
                       sp_requests := sp_requests s @ [SecondRound runId requestedUserId (seller_reviews env reviewList)] \<rparr>)))"

definition second_settled ::
    "jsenv \<Rightarrow> ustr \<Rightarrow> nat \<Rightarrow> ustr \<Rightarrow> seller_review list \<Rightarrow> thrown + profile_record option \<times> jval list
     \<Rightarrow> seller_page \<Rightarrow> seller_page" where
  "second_settled env host runId requestedUserId rs outcome s0 =
     (let s = s0\<lparr> sp_requests := remove1 (SecondRound runId requestedUserId rs) (sp_requests s0) \<rparr> in
      if runId \<noteq> sp_runId s then s
      else (case outcome of
              Inl _ \<Rightarrow> loaded requestedUserId s
            | Inr (sellerUser, userPosts) \<Rightarrow>
                loaded requestedUserId (s\<lparr> sp_view := fallback_view env host requestedUserId rs sellerUser userPosts \<rparr>)))"

definition user_rendered :: "ustr \<Rightarrow> seller_page \<Rightarrow> seller_page" where
  \<comment> \<open>a render for a user: the effect reloads when the user is another one, after its cleanup\<close>
  "user_rendered userId s =
     (if userId = sp_userId s then s else reload userId (s\<lparr> sp_userId := userId, sp_runId := sp_runId s + 1 \<rparr>))"

definition page_opened :: "ustr \<Rightarrow> seller_page" where
  "page_opened userId =
     reload userId \<lparr> sp_userId = userId, sp_view = empty_view, sp_isLoading = True, sp_loadedUserId = [], sp_runId = 0, sp_requests = [] \<rparr>"

definition dataBelongsToCurrentUser :: "seller_page \<Rightarrow> bool" where
  "dataBelongsToCurrentUser s \<longleftrightarrow> sp_loadedUserId s = trim (sp_userId s)"

definition shown_view :: "seller_page \<Rightarrow> seller_view" where
  "shown_view s = (if dataBelongsToCurrentUser s then sp_view s else empty_view)"

definition page_loading :: "seller_page \<Rightarrow> bool" where
  "page_loading s \<longleftrightarrow> sp_isLoading s \<or> \<not> dataBelongsToCurrentUser s"

section \<open>Steps\<close>

datatype seller_event =
    Opened ustr
  | UserRendered ustr
  | Reloaded ustr    \<comment> \<open>the callback of the render for this user, called after a review, a deletion or an edit\<close>
  | FirstSettled nat ustr "thrown + jval option \<times> jval list"
  | SecondSettled nat ustr "seller_review list" "thrown + profile_record option \<times> jval list"

inductive seller_run :: "jsenv \<Rightarrow> ustr \<Rightarrow> bool \<Rightarrow> seller_event list \<Rightarrow> seller_page \<Rightarrow> bool" for env host late where
  \<comment> \<open>with \<open>late\<close>, a reload may come from an earlier render of the page\<close>
  opens: "seller_run env host late [Opened u] (page_opened u)"
| renders: "seller_run env host late es s \<Longrightarrow> seller_run env host late (es @ [UserRendered u]) (user_rendered u s)"
| reloads: "seller_run env host late es s \<Longrightarrow> u = sp_userId s \<or> late \<and> (Opened u \<in> set es \<or> UserRendered u \<in> set es)
    \<Longrightarrow> seller_run env host late (es @ [Reloaded u]) (reload u s)"
| first: "seller_run env host late es s \<Longrightarrow> FirstRound n i \<in> set (sp_requests s)
    \<Longrightarrow> seller_run env host late (es @ [FirstSettled n i out1]) (first_settled env host n i out1 s)"
| second: "seller_run env host late es s \<Longrightarrow> SecondRound n i rs \<in> set (sp_requests s)
    \<Longrightarrow> seller_run env host late (es @ [SecondSettled n i rs out2]) (second_settled env host n i rs out2 s)"

section \<open>Where the page's data comes from\<close>

fun request_run :: "seller_request \<Rightarrow> nat" where
  "request_run (FirstRound n _) = n"
| "request_run (SecondRound n _ _) = n"

fun request_user :: "seller_request \<Rightarrow> ustr" where
  "request_user (FirstRound _ i) = i"
| "request_user (SecondRound _ i _) = i"

definition reviews_from :: "jsenv \<Rightarrow> seller_event list \<Rightarrow> ustr \<Rightarrow> seller_review list \<Rightarrow> bool" where
  "reviews_from env es i rs \<longleftrightarrow>
     (\<exists>n response rl. FirstSettled n i (Inr (response, rl)) \<in> set es \<and> rs = seller_reviews env rl)"

definition view_from :: "jsenv \<Rightarrow> ustr \<Rightarrow> seller_event list \<Rightarrow> ustr \<Rightarrow> seller_view \<Rightarrow> bool" where
  \<comment> \<open>the view shows answers to requests for this user, or nothing\<close>
  "view_from env host es i v \<longleftrightarrow>
     v = empty_view
   \<or> (\<exists>n d rl. FirstSettled n i (Inr (Some d, rl)) \<in> set es \<and> v = response_view env host i d rl)
   \<or> (\<exists>rs. reviews_from env es i rs \<and> v = empty_view\<lparr> sv_reviews := rs \<rparr>)
   \<or> (\<exists>n rs b posts. reviews_from env es i rs \<and> SecondSettled n i rs (Inr (b, posts)) \<in> set es
        \<and> v = fallback_view env host i rs b posts)"

fun request_ok :: "jsenv \<Rightarrow> seller_event list \<Rightarrow> seller_page \<Rightarrow> seller_request \<Rightarrow> bool" where
  \<comment> \<open>what is shown while a round of the current run is under way\<close>
  "request_ok env es s (FirstRound n i) \<longleftrightarrow>
     i \<noteq> [] \<and> n \<le> sp_runId s \<and> (n = sp_runId s \<longrightarrow> sp_isLoading s \<and> sp_loadedUserId s = [] \<and> sp_view s = empty_view)"
| "request_ok env es s (SecondRound n i rs) \<longleftrightarrow>
     i \<noteq> [] \<and> n \<le> sp_runId s \<and> reviews_from env es i rs
   \<and> (n = sp_runId s \<longrightarrow> sp_isLoading s \<and> sp_loadedUserId s = [] \<and> sp_view s = empty_view\<lparr> sv_reviews := rs \<rparr>)"

definition seller_ok :: "jsenv \<Rightarrow> ustr \<Rightarrow> seller_event list \<Rightarrow> seller_page \<Rightarrow> bool" where
  "seller_ok env host es s \<longleftrightarrow>
     (\<forall>r \<in> set (sp_requests s). request_ok env es s r)
   \<and> distinct (map request_run (sp_requests s))
   \<and> (sp_loadedUserId s \<noteq> [] \<longrightarrow> view_from env host es (sp_loadedUserId s) (sp_view s))
   \<and> (sp_isLoading s \<longrightarrow> (\<exists>r \<in> set (sp_requests s). request_run r = sp_runId s))"

definition seller_current :: "seller_page \<Rightarrow> bool" where
  \<comment> \<open>the last run is for the user of the last render\<close>
  "seller_current s \<longleftrightarrow>
     (\<forall>r \<in> set (sp_requests s). request_run r = sp_runId s \<longrightarrow> request_user r = trim (sp_userId s))
   \<and> (\<not> sp_isLoading s \<longrightarrow> sp_loadedUserId s = trim (sp_userId s))"

lemma reviews_from_mono: "reviews_from env es i rs \<Longrightarrow> reviews_from env (es @ es') i rs"
  by (auto simp: reviews_from_def)

lemma view_from_mono: "view_from env host es i v \<Longrightarrow> view_from env host (es @ es') i v"
  unfolding view_from_def using reviews_from_mono by fastforce

lemma request_ok_mono:
  "request_ok env es s r \<Longrightarrow> sp_runId s < sp_runId s' \<Longrightarrow> request_ok env (es @ es') s' r"
  "request_ok env es s r \<Longrightarrow> request_run r \<noteq> sp_runId s \<Longrightarrow> sp_runId s' = sp_runId s \<Longrightarrow> request_ok env (es @ es') s' r"
  by (cases r; auto intro: reviews_from_mono)+

lemma reload_ok:
  assumes "seller_ok env host es s"
  shows "seller_ok env host (es @ es') (reload u (s\<lparr> sp_userId := v, sp_runId := sp_runId s + k \<rparr>))"
proof -
  have old: "\<forall>r \<in> set (sp_requests s). request_run r \<le> sp_runId s"
  proof
    fix r assume "r \<in> set (sp_requests s)"
    with assms have "request_ok env es s r" by (simp add: seller_ok_def)
    then show "request_run r \<le> sp_runId s" by (cases r) simp_all
  qed
  have kept: "request_ok env (es @ es') (reload u (s\<lparr> sp_userId := v, sp_runId := sp_runId s + k \<rparr>)) r"
    if prem: "r \<in> set (sp_requests s)" for r
    using assms prem by (intro request_ok_mono(1) [of env es s]) (simp_all add: seller_ok_def reload_def Let_def)
  show ?thesis
  proof (cases "trim u = []")
    case True
    then show ?thesis using assms kept by (simp add: seller_ok_def reload_def Let_def)
  next
    case False
    have "sp_runId s + k + 1 \<notin> request_run ` set (sp_requests s)" using old by fastforce
    then show ?thesis using assms kept False by (simp add: seller_ok_def reload_def Let_def)
  qed
qed

lemma drop_request:
  assumes "seller_ok env host es s" and "r \<in> set (sp_requests s)"
  shows "\<forall>r' \<in> set (remove1 r (sp_requests s)). request_ok env es s r' \<and> request_run r' \<noteq> request_run r"
    "distinct (map request_run (remove1 r (sp_requests s)))" "request_run r \<notin> request_run ` set (remove1 r (sp_requests s))"
proof -
  have "distinct (sp_requests s)" and inj: "inj_on request_run (set (sp_requests s))"
    using assms(1) by (auto simp: seller_ok_def distinct_map)
  then have rest: "set (remove1 r (sp_requests s)) = set (sp_requests s) - {r}" by simp
  show 1: "\<forall>r' \<in> set (remove1 r (sp_requests s)). request_ok env es s r' \<and> request_run r' \<noteq> request_run r"
    unfolding rest using assms inj by (auto simp: seller_ok_def dest: inj_onD)
  show "distinct (map request_run (remove1 r (sp_requests s)))"
    using assms(1) inj by (auto simp: seller_ok_def distinct_map rest intro: inj_on_subset)
  show "request_run r \<notin> request_run ` set (remove1 r (sp_requests s))" using 1 by auto
qed

lemma settled_drop:
  assumes "seller_ok env host es s" and "r \<in> set (sp_requests s)" and "request_run r \<noteq> sp_runId s"
  shows "seller_ok env host (es @ es') (s\<lparr> sp_requests := remove1 r (sp_requests s) \<rparr>)"
proof -
  have "request_ok env (es @ es') (s\<lparr> sp_requests := remove1 r (sp_requests s) \<rparr>) r'"
    if prem: "r' \<in> set (remove1 r (sp_requests s))" for r'
  proof -
    have "request_ok env es s r'" using drop_request(1) [OF assms(1,2)] prem by blast
    then show ?thesis by (cases r') (auto intro: reviews_from_mono)
  qed
  moreover have "\<exists>r' \<in> set (remove1 r (sp_requests s)). request_run r' = sp_runId s" if prem: "sp_isLoading s"
    using assms prem in_set_remove1 by (metis seller_ok_def)
  ultimately show ?thesis using assms(1) drop_request(2) [OF assms(1,2)] view_from_mono by (simp add: seller_ok_def)
qed

lemma settled_loaded:
  assumes "seller_ok env host es s" and "r \<in> set (sp_requests s)" and "request_run r = sp_runId s"
    and "view_from env host (es @ es') i v"
  shows "seller_ok env host (es @ es') (loaded i (s\<lparr> sp_requests := remove1 r (sp_requests s), sp_view := v \<rparr>))"
proof -
  have "request_ok env (es @ es') (loaded i (s\<lparr> sp_requests := remove1 r (sp_requests s), sp_view := v \<rparr>)) r'"
    if prem: "r' \<in> set (remove1 r (sp_requests s))" for r'
    using drop_request(1) [OF assms(1,2)] prem assms(3) by (intro request_ok_mono(2) [of env es s]) (auto simp: loaded_def)
  then show ?thesis using assms(4) drop_request(2) [OF assms(1,2)] by (simp add: seller_ok_def loaded_def)
qed

lemma settled_second:
  assumes "seller_ok env host es s" and "FirstRound n i \<in> set (sp_requests s)" and "n = sp_runId s"
    and "reviews_from env (es @ es') i rs"
  shows "seller_ok env host (es @ es') (s\<lparr> sp_view := (sp_view s)\<lparr> sv_reviews := rs \<rparr>,
     sp_requests := remove1 (FirstRound n i) (sp_requests s) @ [SecondRound n i rs] \<rparr>)" (is "seller_ok env host _ ?s'")
proof -
  have now: "i \<noteq> []" "sp_isLoading s" "sp_loadedUserId s = []" "sp_view s = empty_view"
    using assms(1-3) by (auto simp: seller_ok_def dest: bspec)
  have "request_ok env (es @ es') ?s' r'" if prem: "r' \<in> set (remove1 (FirstRound n i) (sp_requests s))" for r'
    using drop_request(1) [OF assms(1,2)] prem assms(3) by (intro request_ok_mono(2) [of env es s]) auto
  then show ?thesis
    using now assms(3,4) drop_request(2,3) [OF assms(1,2)] by (simp add: seller_ok_def)
qed

lemma first_settled_ok:
  assumes "seller_ok env host es s" and "FirstRound n i \<in> set (sp_requests s)"
  shows "seller_ok env host (es @ [FirstSettled n i out1]) (first_settled env host n i out1 s)"
proof (cases "n = sp_runId s")
  case False
  then show ?thesis using settled_drop [OF assms] by (simp add: first_settled_def Let_def)
next
  case True
  have view: "sp_view s = empty_view" using assms True by (auto simp: seller_ok_def)
  show ?thesis
  proof (cases out1)
    case (Inl e)
    have "view_from env host (es @ [FirstSettled n i out1]) i (sp_view s)" using view by (simp add: view_from_def)
    from settled_loaded [OF assms _ this] show ?thesis using True Inl by (simp add: first_settled_def Let_def loaded_def)
  next
    case (Inr a)
    obtain response rl where a: "a = (response, rl)" by (cases a)
    have "reviews_from env (es @ [FirstSettled n i out1]) i (seller_reviews env rl)" using Inr a by (auto simp: reviews_from_def)
    note second = settled_second [OF assms True this]
    show ?thesis
    proof (cases "\<exists>d. response = Some d \<and> truthy (fld d ''seller'')")
      case seller: True
      then obtain d where d: "response = Some d" "truthy (fld d ''seller'')" by blast
      have "view_from env host (es @ [FirstSettled n i out1]) i (response_view env host i d rl)"
        using Inr a d by (auto simp: view_from_def)
      from settled_loaded [OF assms _ this] show ?thesis using True Inr a d by (simp add: first_settled_def Let_def)
    next
      case False
      then show ?thesis using second True Inr a by (auto simp: first_settled_def Let_def split: option.split)
    qed
  qed
qed

lemma second_settled_ok:
  assumes "seller_ok env host es s" and "SecondRound n i rs \<in> set (sp_requests s)"
  shows "seller_ok env host (es @ [SecondSettled n i rs out2]) (second_settled env host n i rs out2 s)"
proof (cases "n = sp_runId s")
  case False
  then show ?thesis using settled_drop [OF assms] by (simp add: second_settled_def Let_def)
next
  case True
  have view: "sp_view s = empty_view\<lparr> sv_reviews := rs \<rparr>" and prov: "reviews_from env (es @ [SecondSettled n i rs out2]) i rs"
    using assms True reviews_from_mono by (auto simp: seller_ok_def dest!: bspec)
  show ?thesis
  proof (cases out2)
    case (Inl e)
    have "view_from env host (es @ [SecondSettled n i rs out2]) i (sp_view s)" using prov view by (auto simp: view_from_def)
    from settled_loaded [OF assms _ this] show ?thesis using True Inl by (simp add: second_settled_def Let_def loaded_def)
  next
    case (Inr a)
    obtain b posts where a: "a = (b, posts)" by (cases a)
    have "view_from env host (es @ [SecondSettled n i rs out2]) i (fallback_view env host i rs b posts)"
      unfolding view_from_def using prov Inr a by fastforce
    from settled_loaded [OF assms _ this] show ?thesis using True Inr a by (simp add: second_settled_def Let_def)
  qed
qed

lemma seller_run_ok: "seller_run env host late es s \<Longrightarrow> seller_ok env host es s"
proof (induction rule: seller_run.induct)
  case (opens u)
  then show ?case by (simp add: page_opened_def reload_def Let_def seller_ok_def)
next
  case (renders es s u)
  show ?case
  proof (cases "u = sp_userId s")
    case True
    then have "user_rendered u s = s" by (simp add: user_rendered_def)
    moreover have "request_ok env (es @ [UserRendered u]) s r" if "request_ok env es s r" for r
      using that by (cases r) (auto intro: reviews_from_mono)
    ultimately show ?thesis using renders.IH view_from_mono by (auto simp: seller_ok_def)
  next
    case False
    then show ?thesis using reload_ok [OF renders.IH, where k = 1] by (simp add: user_rendered_def)
  qed
next
  case (reloads es s u)
  show ?case using reload_ok [OF reloads.IH, where v = "sp_userId s" and k = 0] by simp
qed (rule first_settled_ok second_settled_ok; assumption)+

lemma seller_runs_below:
  assumes "seller_run env host late es s"
  shows "\<forall>r \<in> set (sp_requests s). request_run r \<le> sp_runId s"
proof
  fix r assume "r \<in> set (sp_requests s)"
  with seller_run_ok [OF assms] have "request_ok env es s r" by (simp add: seller_ok_def)
  then show "request_run r \<le> sp_runId s" by (cases r) simp_all
qed

lemma seller_page_hangs:
  "\<exists>es s. seller_run env host True es s \<and> trim (sp_userId s) \<noteq> [] \<and> sp_requests s = [] \<and> page_loading s"
proof -
  let ?a = "U ''7''" and ?b = "U ''9''" and ?out = "Inl (JsError [] []) :: thrown + jval option \<times> jval list"
  have names: "trim ?a = ?a" "trim ?b = ?b" "?a \<noteq> []" "?b \<noteq> []" "?a \<noteq> ?b" "?b \<noteq> ?a" by code_simp+
  define s1 where "s1 = page_opened ?a"
  define s2 where "s2 = user_rendered ?b s1"
  define s3 where "s3 = reload ?a s2"
  note states = s1_def s2_def s3_def page_opened_def user_rendered_def reload_def
  have s3: "s3 = \<lparr> sp_userId = ?b, sp_view = empty_view, sp_isLoading = True, sp_loadedUserId = [], sp_runId = 4,
      sp_requests = [FirstRound 1 ?a, FirstRound 3 ?b, FirstRound 4 ?a] \<rparr>"
    by (simp add: states names Let_def)
  have r3: "seller_run env host True [Opened ?a, UserRendered ?b, Reloaded ?a] s3"
  proof -
    have "seller_run env host True ([Opened ?a] @ [UserRendered ?b]) s2"
      unfolding s2_def s1_def by (rule seller_run.renders, rule seller_run.opens)
    from seller_run.reloads [OF this, of ?a] show ?thesis unfolding s3_def by simp
  qed
  define s4 where "s4 = first_settled env host 1 ?a ?out s3"
  define s5 where "s5 = first_settled env host 3 ?b ?out s4"
  define s6 where "s6 = first_settled env host 4 ?a ?out s5"
  have s4: "s4 = s3\<lparr> sp_requests := [FirstRound 3 ?b, FirstRound 4 ?a] \<rparr>" by (simp add: s4_def s3 first_settled_def)
  have s5: "s5 = s3\<lparr> sp_requests := [FirstRound 4 ?a] \<rparr>" by (simp add: s5_def s4 s3 first_settled_def)
  have s6: "s6 = s3\<lparr> sp_requests := [], sp_loadedUserId := ?a, sp_isLoading := False \<rparr>"
    by (simp add: s6_def s5 s3 first_settled_def loaded_def)
  have "FirstRound 1 ?a \<in> set (sp_requests s3)" "FirstRound 3 ?b \<in> set (sp_requests s4)" "FirstRound 4 ?a \<in> set (sp_requests s5)"
    by (simp_all add: s3 s4 s5)
  then have "\<exists>es. seller_run env host True es s6"
    unfolding s6_def s5_def s4_def using r3 seller_run.first by blast
  moreover have "page_loading s6" "sp_requests s6 = []" "trim (sp_userId s6) \<noteq> []"
    by (simp_all add: s6 s3 page_loading_def dataBelongsToCurrentUser_def names)
  ultimately show ?thesis by blast
qed

lemma reload_current:
  assumes "\<forall>r \<in> set (sp_requests s). request_run r \<le> sp_runId s" and "sp_userId s = u"
  shows "seller_current (reload u s)"
  using assms by (force simp: seller_current_def reload_def Let_def)

lemma seller_run_current: "seller_run env host late es s \<Longrightarrow> \<not> late \<Longrightarrow> seller_current s"
proof (induction rule: seller_run.induct)
  case (opens u)
  show ?case unfolding page_opened_def by (rule reload_current) simp_all
next
  case (renders es s u)
  have "\<forall>r \<in> set (sp_requests s). request_run r \<le> sp_runId s + 1" using seller_runs_below [OF renders.hyps] by fastforce
  then show ?case using renders.IH renders.prems by (auto simp: user_rendered_def intro!: reload_current)
next
  case (reloads es s u)
  then show ?case using seller_runs_below [OF reloads.hyps(1)] by (auto intro: reload_current)
next
  case (first es s n i out1)
  have dropped: "set (remove1 (FirstRound n i) (sp_requests s)) \<subseteq> set (sp_requests s)" by (rule set_remove1_subset)
  have "n = sp_runId s \<longrightarrow> i = trim (sp_userId s)" using first by (auto simp: seller_current_def)
  then show ?case using first dropped
    by (auto simp: first_settled_def Let_def loaded_def seller_current_def split: sum.split option.split)
next
  case (second es s n i rs out2)
  have dropped: "set (remove1 (SecondRound n i rs) (sp_requests s)) \<subseteq> set (sp_requests s)" by (rule set_remove1_subset)
  have "n = sp_runId s \<longrightarrow> i = trim (sp_userId s)" using second by (auto simp: seller_current_def)
  then show ?case using second dropped
    by (auto simp: second_settled_def Let_def loaded_def seller_current_def split: sum.split)
qed

text \<open>
  Claim C26.  The page of a seller never shows another seller's data: whatever interleaving of renders,
  reloads (also those called late, by an earlier render) and answers, what is shown for a user is empty or
  was made from answers to requests for that very user - the answer with the seller, the user and listings
  of the second round together with the reviews of its first round, or these reviews alone.
\<close>

theorem seller_page_owned:
  assumes "seller_run env host late es s" and "trim (sp_userId s) \<noteq> []"
  shows "view_from env host es (trim (sp_userId s)) (shown_view s)"
proof (cases "dataBelongsToCurrentUser s")
  case True
  then show ?thesis
    using seller_run_ok [OF assms(1)] assms(2) by (simp add: seller_ok_def shown_view_def dataBelongsToCurrentUser_def)
qed (simp add: shown_view_def view_from_def)

theorem seller_page_owned_witness:
  "view_from ref_env [] [Opened (U ''7''), FirstSettled 1 (U ''7'') (Inl (JsError [] []))] (U ''7'')
     (shown_view (first_settled ref_env [] 1 (U ''7'') (Inl (JsError [] [])) (page_opened (U ''7''))))"
proof -
  have seven: "trim (U ''7'') = U ''7''" "U ''7'' \<noteq> []" by code_simp+
  let ?s = "first_settled ref_env [] 1 (U ''7'') (Inl (JsError [] [])) (page_opened (U ''7''))"
  have "FirstRound 1 (U ''7'') \<in> set (sp_requests (page_opened (U ''7'')))"
    using seven by (simp add: page_opened_def reload_def Let_def)
  from seller_run.first [OF seller_run.opens this]
  have run: "seller_run ref_env [] False [Opened (U ''7''), FirstSettled 1 (U ''7'') (Inl (JsError [] []))] ?s" by simp
  have "trim (sp_userId ?s) = U ''7''"
    using seven by (simp add: first_settled_def page_opened_def reload_def loaded_def Let_def)
  then show ?thesis using seller_page_owned [OF run] seven by simp
qed

text \<open>
   When the page is loading.  As long as every reload is called by the last render, the page
  loads exactly while a round of its last run is under way for the user it shows, so it stops once that
  round is answered, whatever the answer.  A reload called by an earlier render - after a review whose
  answer arrives once another seller's page is open - loads the earlier seller again and leaves the page
  loading for good.
\<close>

theorem seller_page_settles:
  assumes "seller_run env host False es s"
  shows "(page_loading s \<longleftrightarrow> (\<exists>r \<in> set (sp_requests s). request_run r = sp_runId s \<and> request_user r = trim (sp_userId s)))
    \<and> (\<exists>es' s'. seller_run env host True es' s' \<and> trim (sp_userId s') \<noteq> [] \<and> sp_requests s' = [] \<and> page_loading s')"
proof -
  have ok: "seller_ok env host es s" and current: "seller_current s"
    using seller_run_ok [OF assms] seller_run_current [OF assms] by simp_all
  have "sp_isLoading s" if "r \<in> set (sp_requests s)" "request_run r = sp_runId s" for r
    using ok that by (cases r) (auto simp: seller_ok_def dest!: bspec)
  then have "page_loading s \<longleftrightarrow> (\<exists>r \<in> set (sp_requests s). request_run r = sp_runId s \<and> request_user r = trim (sp_userId s))"
    using ok current by (auto simp: seller_ok_def seller_current_def page_loading_def dataBelongsToCurrentUser_def)
  with seller_page_hangs show ?thesis by blast
qed

theorem seller_page_settles_witness: "page_loading (page_opened (U ''7''))"
proof -
  have "trim (U ''7'') = U ''7''" "U ''7'' \<noteq> []" by code_simp+
  moreover have "seller_run ref_env [] False [Opened (U ''7'')] (page_opened (U ''7''))" by (rule seller_run.opens)
  ultimately show ?thesis
    using seller_page_settles [of ref_env "[]" "[Opened (U ''7'')]" "page_opened (U ''7'')"] by (simp add: page_opened_def reload_def Let_def)
qed

section \<open>What the page shows\<close>

lemma normalizeSellerDisplayName_not_Nil: "normalizeSellerDisplayName v i \<noteq> []"
  by (auto simp: normalizeSellerDisplayName_def Let_def)

lemma place_text_not_Nil: "place_text ps \<noteq> []"
  by (auto simp: place_text_def or_else_def)

lemma review_rating_bounds: "0 \<le> sr_rating (seller_review_of env ir) \<and> sr_rating (seller_review_of env ir) \<le> 5"
  by (auto simp: seller_review_of_def Let_def safe_rating_def split: jnum.split)

lemma mean_bounds:
  assumes "\<forall>x \<in> set xs. (1 :: int) \<le> x \<and> x \<le> 5" and "xs \<noteq> []"
  shows "1 \<le> (of_int (sum_list xs) / of_nat (length xs) :: rat) \<and> (of_int (sum_list xs) / of_nat (length xs) :: rat) \<le> 5"
proof -
  have "int (length xs) \<le> sum_list xs \<and> sum_list xs \<le> 5 * int (length xs)"
    using assms(1) by (induction xs) auto
  then have "(of_int (int (length xs)) :: rat) \<le> of_int (sum_list xs) \<and> (of_int (sum_list xs) :: rat) \<le> of_int (5 * int (length xs))"
    unfolding of_int_le_iff .
  then show ?thesis using assms(2) by (simp add: field_simps)
qed

lemma seller_average_bounds:
  assumes "\<forall>r \<in> set rs. sr_rating r \<le> 5" and "sellerAverageRating rs = Some a"
  shows "1 \<le> a \<and> a \<le> 5"
proof -
  have "\<forall>x \<in> set (valid_ratings rs). 1 \<le> x \<and> x \<le> 5" using assms(1) by (auto simp: valid_ratings_def)
  then show ?thesis
    using assms(2) mean_bounds by (auto simp: sellerAverageRating_def Let_def split: if_splits)
qed

lemma kinds_disjoint: "isActiveListing row \<Longrightarrow> \<not> isSoldListing row"
  by (auto simp: isActiveListing_def isSoldListing_def U_def)

lemma filters_disjoint: "(\<And>x. P x \<Longrightarrow> \<not> Q x) \<Longrightarrow> length (filter P xs) + length (filter Q xs) \<le> length xs"
  by (induction xs) (auto simp: le_SucI)

lemma listing_labelled:
  assumes "name \<noteq> []" "i \<noteq> []" "place \<noteq> []" and "\<forall>r \<in> set rs. sr_rating r \<le> 5"
    and "p \<in> set (seller_listings env host name i place rs kind rows)"
  shows "post_id p \<noteq> [] \<and> post_seller p \<noteq> [] \<and> post_sellerId p \<noteq> [] \<and> post_location p \<noteq> []
    \<and> (case sellerAverageRating rs of Some a \<Rightarrow> post_averageRating p = Some a | None \<Rightarrow> True)
    \<and> (case post_averageRating p of Some r \<Rightarrow> 1 \<le> r \<and> r \<le> 5 | None \<Rightarrow> True)"
proof -
  obtain ir where p: "p = normalizeListingToPost env host name i place rs ir"
    using assms(5) by (auto simp: seller_listings_def)
  have own: "(case post_averageRating (transformPostModelToPost env host m im j) of Some r \<Rightarrow> 1 \<le> r \<and> r \<le> 5 | None \<Rightarrow> True)" for m im j
    by (auto simp: transformPostModelToPost_def Let_def post_rating_def split: jnum.splits if_splits)
  have bound: "0 < a" "1 \<le> a" "a \<le> 5" if "sellerAverageRating rs = Some a" for a
    using seller_average_bounds [OF assms(4) that] by auto
  show ?thesis
    unfolding p
    by (cases "sellerAverageRating rs")
      (use assms(1-3) own bound in \<open>simp_all add: normalizeListingToPost_def Let_def mapped_names(1) or_else_def positive_or_def\<close>)
qed

lemma seller_reviews_bounds: "r \<in> set (seller_reviews env rl) \<Longrightarrow> 0 \<le> sr_rating r \<and> sr_rating r \<le> 5"
  using review_rating_bounds by (auto simp: seller_reviews_def)

text \<open>
   What an answer shows.  The page lists exactly the active and the sold listings of the
  seller, none twice in both; each has an identifier, a seller name, the seller's identifier and a place,
  and a rating between 1 and 5 if any, which is the mean of the valid reviews when there are some.  A row
  without a seller is labelled Unknown, never with the seller's name: the mapper's own default hides the
  fallback to it.
\<close>

theorem seller_listings_labelled:
  assumes "i \<noteq> []"
  shows "let v = response_view env host i d rl in
      length (sv_active v) = length (filter isActiveListing (rows_of d))
    \<and> length (sv_sold v) = length (filter isSoldListing (rows_of d))
    \<and> length (sv_active v) + length (sv_sold v) \<le> length (rows_of d)
    \<and> (\<forall>r \<in> set (sv_reviews v). 0 \<le> sr_rating r \<and> sr_rating r \<le> 5)
    \<and> (\<forall>p \<in> set (sv_active v) \<union> set (sv_sold v).
         post_id p \<noteq> [] \<and> post_seller p \<noteq> [] \<and> post_sellerId p \<noteq> [] \<and> post_location p \<noteq> []
       \<and> (case sellerAverageRating (sv_reviews v) of Some a \<Rightarrow> post_averageRating p = Some a | None \<Rightarrow> True)
       \<and> (case post_averageRating p of Some r \<Rightarrow> 1 \<le> r \<and> r \<le> 5 | None \<Rightarrow> True))
    \<and> (\<forall>name place k fs. fld (Obj fs) ''Seller'' = Undef \<and> fld (Obj fs) ''seller'' = Undef
         \<longrightarrow> post_seller (normalizeListingToPost env host name i place (sv_reviews v) (k, Obj fs)) = U ''Unknown'')"
proof -
  let ?v = "response_view env host i d rl" and ?rs = "seller_reviews env rl"
  let ?id = "or_else (text_of (fld (fld d ''seller'') ''id'')) i"
  let ?place = "place_text [text_of (fld (fld d ''seller'') ''area''), text_of (fld (fld d ''seller'') ''city'')]"
  let ?name = "normalizeSellerDisplayName (fld (fld d ''seller'') ''name'') ?id"
  have v: "sv_active ?v = seller_listings env host ?name ?id ?place ?rs isActiveListing (rows_of d)"
    "sv_sold ?v = seller_listings env host ?name ?id ?place ?rs isSoldListing (rows_of d)" "sv_reviews ?v = ?rs"
    by (simp_all add: response_view_def Let_def)
  have id: "?id \<noteq> []" using assms by (simp add: or_else_def)
  have five: "\<forall>r \<in> set ?rs. sr_rating r \<le> 5" using seller_reviews_bounds by blast
  note labelled = listing_labelled [OF normalizeSellerDisplayName_not_Nil id place_text_not_Nil five]
  have unknown: "trim (U ''Unknown'') = U ''Unknown''" "U ''Unknown'' \<noteq> []" by code_simp+
  have "length (filter isActiveListing (rows_of d)) + length (filter isSoldListing (rows_of d)) \<le> length (rows_of d)"
    by (rule filters_disjoint) (rule kinds_disjoint)
  moreover have "post_seller (normalizeListingToPost env host name i place ?rs (k, Obj fs)) = U ''Unknown''"
    if "fld (Obj fs) ''Seller'' = Undef" "fld (Obj fs) ''seller'' = Undef" for name place k fs
    using that unknown by (simp add: normalizeListingToPost_def Let_def transformPostModelToPost_def str_chain_def or_else_def)
  moreover have "length (seller_listings env host n j place ?rs kind rows) = length (filter kind rows)" for n j place kind rows
    by (simp add: seller_listings_def)
  ultimately show ?thesis
    unfolding Let_def v using labelled seller_reviews_bounds by simp blast
qed

theorem seller_listings_labelled_witness:
  "length (sv_active (response_view ref_env [] (U ''7'') (jobj [(''posts'', Arr [jobj [(''status'', Str (U ''active''))]])]) [])) = 1"
proof -
  let ?d = "jobj [(''posts'', Arr [jobj [(''status'', Str (U ''active''))]])]"
  have "length (filter isActiveListing (rows_of ?d)) = 1" "U ''7'' \<noteq> []" by code_simp+
  then show ?thesis using seller_listings_labelled [of "U ''7''" ref_env "[]" ?d "[]"] by (simp add: Let_def)
qed

end
