(* ===== verification/AccountPages.thy ===== *)
theory AccountPages
  imports LoginPage
begin

text \<open>
  The page for a forgotten password (\<open>features/auth/pages/ForgotPasswordPage.tsx\<close>) without its rendering.
  Handlers are cut at their awaits: a request under way keeps what its closure captured.  Events are
  those the rendered controls allow; texts are parameters.
\<close>

section \<open>ForgotPasswordPage.tsx\<close>

datatype reset_step = RequestStep | VerifyStep | PasswordStep | CompleteStep

record reset_copy =
  rc_backendConnection :: ustr
  rc_emailRequired :: ustr
  rc_emailInvalid :: ustr
  rc_codeRequired :: ustr
  rc_passwordRequired :: ustr
  rc_passwordMinLength :: ustr
  rc_passwordMismatch :: ustr
  rc_requestFailed :: ustr
  rc_verifyFailed :: ustr
  rc_confirmFailed :: ustr
  rc_codeSentHint :: ustr
  rc_successBody :: ustr

definition reset_copy_en :: reset_copy where
  "reset_copy_en =
     \<lparr> rc_backendConnection = U ''Unable to connect to the server. Please try again later.'',
       rc_emailRequired = U ''Email is required.'', rc_emailInvalid = U ''Enter a valid email address.'',
       rc_codeRequired = U ''Verification code is required.'', rc_passwordRequired = U ''New password is required.'',
       rc_passwordMinLength = U ''Password must be at least 8 characters.'',
       rc_passwordMismatch = U ''Passwords do not match.'',
       rc_requestFailed = U ''Could not send a verification code. Please try again.'',
       rc_verifyFailed = U ''Invalid or expired verification code.'',
       rc_confirmFailed = U ''Could not reset password. Please check your code.'',
       rc_codeSentHint = U ''A verification code has been sent to your email.'',
       rc_successBody = U ''Your password has been reset. You can now sign in.'' \<rparr>"

datatype reset_request =
    CodeRequest ustr                      \<comment> \<open>address\<close>
  | CodeVerification ustr ustr            \<comment> \<open>address and code\<close>
  | PasswordConfirmation ustr ustr ustr   \<comment> \<open>address, code and password\<close>

record reset_page =
  rp_step :: reset_step
  rp_email :: ustr
  rp_code :: ustr
  rp_newPassword :: ustr
  rp_confirmPassword :: ustr
  rp_isRequestLoading :: bool
  rp_isVerifyLoading :: bool
  rp_isConfirmLoading :: bool
  rp_error :: ustr
  rp_info :: ustr
  rp_requests :: "reset_request list"   \<comment> \<open>under way\<close>

definition new_reset_page :: reset_page where
  "new_reset_page = \<lparr> rp_step = RequestStep, rp_email = [], rp_code = [], rp_newPassword = [], rp_confirmPassword = [],
     rp_isRequestLoading = False, rp_isVerifyLoading = False, rp_isConfirmLoading = False, rp_error = [], rp_info = [],
     rp_requests = [] \<rparr>"

definition normalizeVerificationCode :: "ustr \<Rightarrow> ustr" where
  "normalizeVerificationCode v = take 6 (filter is_digit v)"

definition validateEmail :: "reset_copy \<Rightarrow> reset_page \<Rightarrow> ustr" where
  "validateEmail c p =
     (if trim (rp_email p) = [] then rc_emailRequired c
      else if \<not> isValidEmail (trim (rp_email p)) then rc_emailInvalid c else [])"

definition cleared :: "reset_page \<Rightarrow> reset_page" where
  "cleared p = p\<lparr> rp_error := [], rp_info := [] \<rparr>"

definition send_reset :: "reset_request \<Rightarrow> reset_page \<Rightarrow> reset_page" where
  "send_reset r p = p\<lparr> rp_requests := rp_requests p @ [r] \<rparr>"

definition requestCode :: "reset_copy \<Rightarrow> reset_page \<Rightarrow> reset_page" where
  "requestCode c p0 =
     (let p = cleared p0; e = validateEmail c p in
      if e \<noteq> [] then p\<lparr> rp_error := e \<rparr>
      else send_reset (CodeRequest (trim (rp_email p))) (p\<lparr> rp_isRequestLoading := True \<rparr>))"

definition handleVerifyCode :: "reset_copy \<Rightarrow> reset_page \<Rightarrow> reset_page" where
  "handleVerifyCode c p0 =
     (let p = cleared p0; e = validateEmail c p; code = normalizeVerificationCode (rp_code p) in
      if e \<noteq> [] then p\<lparr> rp_error := e \<rparr>
      else if length code \<noteq> 6 then p\<lparr> rp_error := rc_codeRequired c \<rparr>
      else send_reset (CodeVerification (trim (rp_email p)) code) (p\<lparr> rp_isVerifyLoading := True \<rparr>))"

definition handleConfirmReset :: "reset_copy \<Rightarrow> reset_page \<Rightarrow> reset_page" where
  "handleConfirmReset c p0 =
     (let p = cleared p0; e = validateEmail c p; code = normalizeVerificationCode (rp_code p) in
      if e \<noteq> [] then p\<lparr> rp_error := e \<rparr>
      else if length code \<noteq> 6 then p\<lparr> rp_error := rc_codeRequired c, rp_step := VerifyStep \<rparr>
      else if rp_newPassword p = [] then p\<lparr> rp_error := rc_passwordRequired c \<rparr>
      else if length (rp_newPassword p) < 8 then p\<lparr> rp_error := rc_passwordMinLength c \<rparr>
      else if rp_newPassword p \<noteq> rp_confirmPassword p then p\<lparr> rp_error := rc_passwordMismatch c \<rparr>
      else send_reset (PasswordConfirmation (trim (rp_email p)) code (rp_newPassword p)) (p\<lparr> rp_isConfirmLoading := True \<rparr>))"

definition reset_failure :: "reset_copy \<Rightarrow> ustr \<Rightarrow> auth_result \<Rightarrow> ustr" where
  \<comment> \<open>\<open>result.message || (result.error?.code === "CONNECTION_REFUSED" ? ... : fallback)\<close>\<close>
  "reset_failure c fallback r =
     or_else (opt_str (ar_message r))
       (case ar_error r of
          Some (code, m) \<Rightarrow> if code = U ''CONNECTION_REFUSED'' then rc_backendConnection c else fallback
        | None \<Rightarrow> fallback)"

definition code_requested :: "reset_copy \<Rightarrow> ustr \<Rightarrow> thrown + auth_result \<Rightarrow> reset_page \<Rightarrow> reset_page" where
  "code_requested c email reply p0 =
     (let p = p0\<lparr> rp_requests := remove1 (CodeRequest email) (rp_requests p0), rp_isRequestLoading := False \<rparr> in
      case reply of
        Inl e \<Rightarrow> p\<lparr> rp_error := rc_requestFailed c \<rparr>
      | Inr r \<Rightarrow>
          if \<not> ar_success r then p\<lparr> rp_error := reset_failure c (rc_requestFailed c) r \<rparr>
          else p\<lparr> rp_code := [], rp_step := VerifyStep,
                  rp_info := or_else (opt_str (ar_message r)) (rc_codeSentHint c) \<rparr>)"

definition code_verified :: "reset_copy \<Rightarrow> ustr \<Rightarrow> ustr \<Rightarrow> thrown + auth_result \<Rightarrow> reset_page \<Rightarrow> reset_page" where
  "code_verified c email code reply p0 =
     (let p = p0\<lparr> rp_requests := remove1 (CodeVerification email code) (rp_requests p0), rp_isVerifyLoading := False \<rparr> in
      case reply of
        Inl e \<Rightarrow> p\<lparr> rp_error := rc_verifyFailed c \<rparr>
      | Inr r \<Rightarrow>
          if \<not> ar_success r then p\<lparr> rp_error := reset_failure c (rc_verifyFailed c) r \<rparr>
          else p\<lparr> rp_code := code, rp_step := PasswordStep \<rparr>)"

definition reset_confirmed ::
    "reset_copy \<Rightarrow> ustr \<Rightarrow> ustr \<Rightarrow> ustr \<Rightarrow> thrown + auth_result \<Rightarrow> reset_page \<Rightarrow> reset_page" where
  "reset_confirmed c email code password reply p0 =
     (let p = p0\<lparr> rp_requests := remove1 (PasswordConfirmation email code password) (rp_requests p0),
                rp_isConfirmLoading := False \<rparr> in
      case reply of
        Inl e \<Rightarrow> p\<lparr> rp_error := rc_confirmFailed c \<rparr>
      | Inr r \<Rightarrow>
          if \<not> ar_success r then p\<lparr> rp_error := reset_failure c (rc_confirmFailed c) r \<rparr>
          else p\<lparr> rp_step := CompleteStep, rp_info := or_else (opt_str (ar_message r)) (rc_successBody c) \<rparr>)"

datatype reset_event =
    EmailTyped ustr
  | CodeTyped ustr
  | PasswordTyped ustr
  | ConfirmTyped ustr
  | CodeAsked            \<comment> \<open>the form of the first step, or the button to send the code again\<close>
  | CodeSubmitted
  | PasswordSubmitted
  | CodeRequested ustr "thrown + auth_result"
  | CodeVerified ustr ustr "thrown + auth_result"
  | ResetConfirmed ustr ustr ustr "thrown + auth_result"

fun reset_allowed :: "reset_event \<Rightarrow> reset_page \<Rightarrow> bool" where
  \<comment> \<open>the controls rendered and not disabled, and the requests under way\<close>
  "reset_allowed (EmailTyped _) p \<longleftrightarrow> rp_step p = RequestStep"
| "reset_allowed (CodeTyped _) p \<longleftrightarrow>
     rp_step p = VerifyStep \<and> \<not> rp_isVerifyLoading p \<and> \<not> rp_isConfirmLoading p \<and> \<not> rp_isRequestLoading p"
| "reset_allowed (PasswordTyped _) p \<longleftrightarrow> rp_step p = PasswordStep"
| "reset_allowed (ConfirmTyped _) p \<longleftrightarrow> rp_step p = PasswordStep"
| "reset_allowed CodeAsked p \<longleftrightarrow>
     rp_step p = RequestStep \<and> \<not> rp_isRequestLoading p
   \<or> rp_step p = VerifyStep \<and> \<not> rp_isVerifyLoading p \<and> \<not> rp_isConfirmLoading p \<and> \<not> rp_isRequestLoading p"
| "reset_allowed CodeSubmitted p \<longleftrightarrow>
     rp_step p = VerifyStep \<and> \<not> rp_isVerifyLoading p \<and> \<not> rp_isRequestLoading p
   \<and> length (normalizeVerificationCode (rp_code p)) = 6"
| "reset_allowed PasswordSubmitted p \<longleftrightarrow> rp_step p = PasswordStep \<and> \<not> rp_isConfirmLoading p"
| "reset_allowed (CodeRequested e _) p \<longleftrightarrow> CodeRequest e \<in> set (rp_requests p)"
| "reset_allowed (CodeVerified e c _) p \<longleftrightarrow> CodeVerification e c \<in> set (rp_requests p)"
| "reset_allowed (ResetConfirmed e c w _) p \<longleftrightarrow> PasswordConfirmation e c w \<in> set (rp_requests p)"

fun reset_handler :: "reset_copy \<Rightarrow> reset_event \<Rightarrow> reset_page \<Rightarrow> reset_page" where
  "reset_handler c (EmailTyped v) p = p\<lparr> rp_email := v \<rparr>"
| "reset_handler c (CodeTyped v) p = p\<lparr> rp_code := v \<rparr>"
| "reset_handler c (PasswordTyped v) p = p\<lparr> rp_newPassword := v \<rparr>"
| "reset_handler c (ConfirmTyped v) p = p\<lparr> rp_confirmPassword := v \<rparr>"
| "reset_handler c CodeAsked p = requestCode c p"
| "reset_handler c CodeSubmitted p = handleVerifyCode c p"
| "reset_handler c PasswordSubmitted p = handleConfirmReset c p"
| "reset_handler c (CodeRequested e r) p = code_requested c e r p"
| "reset_handler c (CodeVerified e d r) p = code_verified c e d r p"
| "reset_handler c (ResetConfirmed e d w r) p = reset_confirmed c e d w r p"

inductive reset_run :: "reset_copy \<Rightarrow> reset_event list \<Rightarrow> reset_page \<Rightarrow> bool" for c where
  start: "reset_run c [] new_reset_page"
| step: "reset_run c es p \<Longrightarrow> reset_allowed e p \<Longrightarrow> reset_run c (es @ [e]) (reset_handler c e p)"

subsection \<open>Steps and requests\<close>

fun reset_request_ok :: "reset_request \<Rightarrow> bool" where
  "reset_request_ok (CodeRequest e) \<longleftrightarrow> isValidEmail e"
| "reset_request_ok (CodeVerification e c) \<longleftrightarrow> isValidEmail e \<and> length c = 6 \<and> list_all is_digit c"
| "reset_request_ok (PasswordConfirmation e c w) \<longleftrightarrow> isValidEmail e \<and> length c = 6 \<and> list_all is_digit c \<and> 8 \<le> length w"

definition code_accepted :: "reset_event list \<Rightarrow> ustr \<Rightarrow> ustr \<Rightarrow> bool" where
  "code_accepted es e c \<longleftrightarrow> (\<exists>r. CodeVerified e c (Inr r) \<in> set es \<and> ar_success r)"

definition password_replaced :: "reset_event list \<Rightarrow> ustr \<Rightarrow> ustr \<Rightarrow> ustr \<Rightarrow> bool" where
  "password_replaced es e c w \<longleftrightarrow> (\<exists>r. ResetConfirmed e c w (Inr r) \<in> set es \<and> ar_success r)"

definition reset_waiting :: "reset_page \<Rightarrow> bool" where
  \<comment> \<open>the requests under way against the step and the loading flags\<close>
  "reset_waiting p \<longleftrightarrow>
     (case rp_requests p of
        [] \<Rightarrow> \<not> rp_isRequestLoading p \<and> \<not> rp_isVerifyLoading p \<and> \<not> rp_isConfirmLoading p
      | [CodeRequest e] \<Rightarrow> rp_isRequestLoading p \<and> \<not> rp_isVerifyLoading p \<and> \<not> rp_isConfirmLoading p
          \<and> (rp_step p = RequestStep \<or> rp_step p = VerifyStep)
      | [CodeVerification e c] \<Rightarrow> \<not> rp_isRequestLoading p \<and> rp_isVerifyLoading p \<and> \<not> rp_isConfirmLoading p
          \<and> rp_step p = VerifyStep \<and> e = trim (rp_email p)
      | [PasswordConfirmation e c w] \<Rightarrow> \<not> rp_isRequestLoading p \<and> \<not> rp_isVerifyLoading p \<and> rp_isConfirmLoading p
          \<and> rp_step p = PasswordStep \<and> e = trim (rp_email p) \<and> c = rp_code p
      | _ \<Rightarrow> False)"

definition reset_ok :: "reset_event list \<Rightarrow> reset_page \<Rightarrow> bool" where
  "reset_ok es p \<longleftrightarrow> reset_waiting p \<and> list_all reset_request_ok (rp_requests p)
   \<and> (rp_step p = PasswordStep \<longrightarrow> length (rp_code p) = 6 \<and> list_all is_digit (rp_code p)
        \<and> code_accepted es (trim (rp_email p)) (rp_code p))
   \<and> (rp_step p = CompleteStep \<longrightarrow> (\<exists>e c w. reset_request_ok (PasswordConfirmation e c w)
        \<and> code_accepted es e c \<and> password_replaced es e c w))"

lemma accepted_mono:
  "code_accepted es e c \<Longrightarrow> code_accepted (es @ es') e c" "password_replaced es e c w \<Longrightarrow> password_replaced (es @ es') e c w"
  by (auto simp: code_accepted_def password_replaced_def)

lemma normalized_code: "list_all is_digit (normalizeVerificationCode v)"
  by (auto simp: normalizeVerificationCode_def list_all_iff dest!: in_set_takeD)

lemma normalized_code_id: "length c = 6 \<Longrightarrow> list_all is_digit c \<Longrightarrow> normalizeVerificationCode c = c"
  by (simp add: normalizeVerificationCode_def list_all_iff filter_True)

lemma validated_email:
  "rc_emailRequired c \<noteq> [] \<Longrightarrow> rc_emailInvalid c \<noteq> [] \<Longrightarrow> validateEmail c p = [] \<Longrightarrow> isValidEmail (trim (rp_email p))"
  by (simp add: validateEmail_def split: if_splits)

lemma reset_waiting_cases:
  assumes "reset_waiting p"
  obtains (idle) "rp_requests p = []" "\<not> rp_isRequestLoading p" "\<not> rp_isVerifyLoading p" "\<not> rp_isConfirmLoading p"
  | (asking) e where "rp_requests p = [CodeRequest e]" "rp_isRequestLoading p" "\<not> rp_isVerifyLoading p" "\<not> rp_isConfirmLoading p"
      "rp_step p = RequestStep \<or> rp_step p = VerifyStep"
  | (verifying) c where "rp_requests p = [CodeVerification (trim (rp_email p)) c]" "\<not> rp_isRequestLoading p" "rp_isVerifyLoading p"
      "\<not> rp_isConfirmLoading p" "rp_step p = VerifyStep"
  | (confirming) w where "rp_requests p = [PasswordConfirmation (trim (rp_email p)) (rp_code p) w]" "\<not> rp_isRequestLoading p"
      "\<not> rp_isVerifyLoading p" "rp_isConfirmLoading p" "rp_step p = PasswordStep"
  using assms by (auto simp: reset_waiting_def split: list.splits reset_request.splits)

lemma reset_step_ok:
  assumes "rc_emailRequired c \<noteq> []" "rc_emailInvalid c \<noteq> []" "reset_ok es p" "reset_allowed e p"
  shows "reset_ok (es @ [e]) (reset_handler c e p)"
proof -
  have waiting: "reset_waiting p" using assms(3) by (simp add: reset_ok_def)
  note email = validated_email [OF assms(1,2)]
  show ?thesis
  proof (cases e)
    case (EmailTyped v)
    with assms(3,4) show ?thesis
      by (cases rule: reset_waiting_cases [OF waiting]) (auto simp: reset_ok_def reset_waiting_def)
  next
    case (CodeTyped v)
    with assms(3,4) show ?thesis
      by (cases rule: reset_waiting_cases [OF waiting]) (auto simp: reset_ok_def reset_waiting_def)
  next
    case CodeAsked
    with assms(3,4) email [of "cleared p"] show ?thesis
      by (cases rule: reset_waiting_cases [OF waiting])
        (auto simp: reset_ok_def reset_waiting_def requestCode_def Let_def send_reset_def cleared_def)
  next
    case CodeSubmitted
    with assms(3,4) email [of "cleared p"] normalized_code show ?thesis
      by (cases rule: reset_waiting_cases [OF waiting])
        (auto simp: reset_ok_def reset_waiting_def handleVerifyCode_def Let_def send_reset_def cleared_def)
  next
    case PasswordSubmitted
    with assms(3,4) email [of "cleared p"] show ?thesis
      by (cases rule: reset_waiting_cases [OF waiting])
        (auto simp: reset_ok_def reset_waiting_def handleConfirmReset_def Let_def send_reset_def cleared_def
          normalized_code_id accepted_mono)
  next
    case (CodeRequested a r)
    with assms(3,4) show ?thesis
      by (cases rule: reset_waiting_cases [OF waiting])
        (auto simp: reset_ok_def reset_waiting_def code_requested_def Let_def accepted_mono split: sum.splits)
  next
    case (CodeVerified a d r)
    with assms(3,4) show ?thesis
      by (cases rule: reset_waiting_cases [OF waiting])
        (auto simp: reset_ok_def reset_waiting_def code_verified_def Let_def accepted_mono code_accepted_def split: sum.splits)
  next
    case (ResetConfirmed a d w r)
    with assms(3,4) show ?thesis
      by (cases rule: reset_waiting_cases [OF waiting])
        (auto simp: reset_ok_def reset_waiting_def reset_confirmed_def Let_def accepted_mono code_accepted_def
          password_replaced_def split: sum.splits)
  qed (use assms(3,4) waiting in \<open>auto simp: reset_ok_def reset_waiting_def accepted_mono split: list.splits reset_request.splits\<close>)
qed

lemma reset_run_ok:
  "reset_run c es p \<Longrightarrow> rc_emailRequired c \<noteq> [] \<Longrightarrow> rc_emailInvalid c \<noteq> [] \<Longrightarrow> reset_ok es p"
proof (induction rule: reset_run.induct)
  case start
  show ?case by (simp add: reset_ok_def reset_waiting_def new_reset_page_def)
qed (simp add: reset_step_ok)

fun reset_trace :: "reset_copy \<Rightarrow> reset_event list \<Rightarrow> reset_page \<Rightarrow> reset_page option" where
  "reset_trace c [] p = Some p"
| "reset_trace c (e # es) p = (if reset_allowed e p then reset_trace c es (reset_handler c e p) else None)"

lemma reset_trace_run: "reset_run c es p \<Longrightarrow> reset_trace c es' p = Some p' \<Longrightarrow> reset_run c (es @ es') p'"
proof (induction es' arbitrary: es p)
  case (Cons e es')
  then have "reset_run c (es @ [e]) (reset_handler c e p)" "reset_trace c es' (reset_handler c e p) = Some p'"
    by (auto split: if_splits intro: reset_run.step)
  from Cons.IH [OF this] show ?case by simp
qed simp

definition other_address_run :: "reset_event list" where
  \<comment> \<open>the address is edited while the code is requested\<close>
  "other_address_run =
     [EmailTyped (U ''a@b.jo''), CodeAsked, EmailTyped (U ''c@d.jo''), CodeRequested (U ''a@b.jo'') (Inr auth_ok),
      CodeTyped (U ''123456''), CodeSubmitted]"

lemma other_address_verified:
  "\<exists>p. reset_run reset_copy_en other_address_run p \<and> CodeVerification (U ''c@d.jo'') (U ''123456'') \<in> set (rp_requests p)
     \<and> (\<forall>r. CodeRequested (U ''c@d.jo'') r \<notin> set other_address_run)"
proof -
  have "map_option rp_requests (reset_trace reset_copy_en other_address_run new_reset_page)
      = Some [CodeVerification (U ''c@d.jo'') (U ''123456'')]"
    by code_simp
  then obtain p where p: "reset_trace reset_copy_en other_address_run new_reset_page = Some p"
    "rp_requests p = [CodeVerification (U ''c@d.jo'') (U ''123456'')]"
    by blast
  have "reset_run reset_copy_en other_address_run p"
    using reset_trace_run [OF reset_run.start p(1)] by simp
  moreover have "CodeRequested (U ''c@d.jo'') r \<notin> set other_address_run" for r
    by (simp add: other_address_run_def U_def)
  ultimately show ?thesis using p(2) by auto
qed

text \<open>
  Claim C27.  Resetting a password takes its steps in order, whatever is typed and however the answers
  arrive.  At most one request is under way, and each names a valid address, a code of six digits and a
  password of at least eight characters where it has one.  The page for the password is shown only after
  the server accepted the code shown for the address shown; the reset is complete only after it accepted
  a code and then a password for one address.  The address may still be edited while the code is
  requested, so that the code is verified for an address it was not sent to.
\<close>

theorem reset_in_order:
  assumes "rc_emailRequired c \<noteq> []" and "rc_emailInvalid c \<noteq> []" and "reset_run c es p"
  shows "length (rp_requests p) \<le> 1 \<and> list_all reset_request_ok (rp_requests p)
    \<and> (rp_requests p = [] \<longleftrightarrow> \<not> rp_isRequestLoading p \<and> \<not> rp_isVerifyLoading p \<and> \<not> rp_isConfirmLoading p)
    \<and> (rp_step p = PasswordStep \<longrightarrow> length (rp_code p) = 6 \<and> code_accepted es (trim (rp_email p)) (rp_code p))
    \<and> (rp_step p = CompleteStep \<longrightarrow> (\<exists>e c w. 8 \<le> length w \<and> code_accepted es e c \<and> password_replaced es e c w))
    \<and> (\<exists>es' p' e c. reset_run reset_copy_en es' p' \<and> CodeVerification e c \<in> set (rp_requests p')
         \<and> (\<forall>r. CodeRequested e r \<notin> set es'))"
proof -
  have ok: "reset_ok es p" using reset_run_ok [OF assms(3,1,2)] .
  then have "reset_waiting p" by (simp add: reset_ok_def)
  then have "length (rp_requests p) \<le> 1
      \<and> (rp_requests p = [] \<longleftrightarrow> \<not> rp_isRequestLoading p \<and> \<not> rp_isVerifyLoading p \<and> \<not> rp_isConfirmLoading p)"
    by (cases rule: reset_waiting_cases) auto
  moreover have "rp_step p = CompleteStep \<longrightarrow> (\<exists>e c w. 8 \<le> length w \<and> code_accepted es e c \<and> password_replaced es e c w)"
    using ok by (force simp: reset_ok_def)
  ultimately show ?thesis using ok other_address_verified unfolding reset_ok_def by blast
qed

theorem reset_in_order_witness:
  "\<exists>p. reset_run reset_copy_en other_address_run p \<and> rp_requests p \<noteq> [] \<and> list_all reset_request_ok (rp_requests p)"
proof -
  obtain p where p: "reset_run reset_copy_en other_address_run p" "CodeVerification (U ''c@d.jo'') (U ''123456'') \<in> set (rp_requests p)"
    using other_address_verified by blast
  have "rc_emailRequired reset_copy_en \<noteq> []" "rc_emailInvalid reset_copy_en \<noteq> []" by code_simp+
  from reset_in_order [OF this p(1)] show ?thesis using p by auto
qed

end
