(* ===== verification/VerifyEmail.thy ===== *)
theory VerifyEmail
  imports LoginPage
begin

text \<open>
  The page a verification link opens (\<open>features/auth/pages/VerifyEmailPage.tsx\<close>) without its rendering.
  The requests of links and the links already verified are tables of the module, shared by every page that
  is mounted; pages are numbered in the order they are.  Texts are parameters.
\<close>

section \<open>State\<close>

datatype verify_step = Verifying | Verified | AutoLogin | VerifyFailed

record verify_copy =
  vc_successBody :: ustr
  vc_successBodyAutoLogin :: ustr
  vc_errorBody :: ustr
  vc_resendSuccess :: ustr
  vc_noTokenError :: ustr
  vc_addressMissing :: ustr

record verify_page =
  vp_token :: ustr
  vp_link :: ustr                 \<comment> \<open>the address the link names\<close>
  vp_step :: verify_step
  vp_message :: ustr
  vp_error :: ustr
  vp_waiting :: bool              \<comment> \<open>for the request of its link\<close>
  vp_upload :: "jval option"      \<comment> \<open>the user whose picture is being uploaded\<close>
  vp_redirect :: bool             \<comment> \<open>the timer that leads home\<close>
  vp_home :: bool
  vp_isResending :: bool
  vp_cooldown :: nat
  vp_resendEmail :: ustr
  vp_resends :: "ustr list"       \<comment> \<open>under way\<close>

record verify_app =
  va_pages :: "verify_page list"
  va_requests :: "ustr list"      \<comment> \<open>\<open>verificationRequests\<close>: the links whose request is under way\<close>
  va_completed :: "ustr list"     \<comment> \<open>\<open>completedVerificationTokens\<close>\<close>
  va_storage :: storage
  va_sent :: "ustr list"          \<comment> \<open>the links posted, in order\<close>
  va_sessions :: "login_user list"

definition pending_avatar_key :: ustr where "pending_avatar_key = U ''pending_signup_avatar''"

section \<open>Verification\<close>

definition verify_page_of :: "ustr \<Rightarrow> ustr \<Rightarrow> verify_page" where
  "verify_page_of token email =
     \<lparr> vp_token = token, vp_link = email, vp_step = Verifying, vp_message = [], vp_error = [], vp_waiting = False,
       vp_upload = None, vp_redirect = False, vp_home = False, vp_isResending = False, vp_cooldown = 0,
       vp_resendEmail = email, vp_resends = [] \<rparr>"

definition verifyEmailOnce :: "ustr \<Rightarrow> verify_app \<Rightarrow> verify_app" where
  "verifyEmailOnce token a =
     (if token \<in> set (va_requests a) then a
      else a\<lparr> va_requests := va_requests a @ [token], va_sent := va_sent a @ [token] \<rparr>)"

definition page_mounted :: "verify_copy \<Rightarrow> ustr \<Rightarrow> ustr \<Rightarrow> verify_app \<Rightarrow> verify_app" where
  "page_mounted c token email a =
     (let p = verify_page_of token email; add = (\<lambda>p a. a\<lparr> va_pages := va_pages a @ [p] \<rparr>) in
      if token = [] then add (p\<lparr> vp_step := VerifyFailed, vp_error := vc_noTokenError c \<rparr>) a
      else if token \<in> set (va_completed a) then add (p\<lparr> vp_home := True \<rparr>) a
      else add (p\<lparr> vp_waiting := True \<rparr>) (verifyEmailOnce token a))"

definition verified_user :: "jval \<Rightarrow> ustr option \<Rightarrow> login_user" where
  \<comment> \<open>the user of the answer with the picture to show\<close>
  "verified_user u avatar = (fallback_user u [] [] [] [] [] [])\<lparr> lu_avatar := avatar, lu_joinedDate := Undef \<rparr>"

definition auto_login :: "verify_copy \<Rightarrow> verify_page \<Rightarrow> verify_page" where
  "auto_login c p = p\<lparr> vp_upload := None, vp_step := AutoLogin, vp_message := vc_successBodyAutoLogin c, vp_redirect := True \<rparr>"

definition page_verified ::
    "verify_copy \<Rightarrow> thrown + auth_result \<Rightarrow> ustr \<Rightarrow> verify_page \<Rightarrow> verify_page \<times> login_user option" where
  \<comment> \<open>with the picture chosen at the sign-up; the user of the session opened at once\<close>
  "page_verified c reply pendingAvatar p0 =
     (let p = p0\<lparr> vp_waiting := False \<rparr> in
      case reply of
        Inl _ \<Rightarrow> (p\<lparr> vp_step := VerifyFailed, vp_error := vc_errorBody c \<rparr>, None)
      | Inr r \<Rightarrow>
          if \<not> ar_success r
          then (p\<lparr> vp_step := VerifyFailed, vp_error := or_else (opt_str (ar_message r)) (vc_errorBody c) \<rparr>, None)
          else (let u = user_of r; i = text_field u ''id'' [] in
            if i = [] \<and> text_field u ''email'' [] = []
            then (p\<lparr> vp_step := Verified, vp_message := or_else (opt_str (ar_message r)) (vc_successBody c) \<rparr>, None)
            else if pendingAvatar \<noteq> [] \<and> i \<noteq> [] then (p\<lparr> vp_upload := Some u \<rparr>, None)
            else (auto_login c p, Some (verified_user u (opt_field u ''avatar'')))))"

definition awaits :: "ustr \<Rightarrow> verify_page \<Rightarrow> bool" where
  "awaits token p \<longleftrightarrow> vp_waiting p \<and> vp_token p = token"

definition link_settled :: "verify_copy \<Rightarrow> ustr \<Rightarrow> thrown + auth_result \<Rightarrow> verify_app \<Rightarrow> verify_app" where
  \<comment> \<open>every page that awaits the request goes on\<close>
  "link_settled c token reply a =
     (let picture = opt_str (getItem (va_storage a) pending_avatar_key);
          go = page_verified c reply picture
      in a\<lparr> va_requests := filter (\<lambda>t. t \<noteq> token) (va_requests a),
            va_completed := (case reply of
               Inr r \<Rightarrow> if ar_success r \<and> token \<notin> set (va_completed a) then va_completed a @ [token] else va_completed a
             | Inl _ \<Rightarrow> va_completed a),
            va_pages := map (\<lambda>p. if awaits token p then fst (go p) else p) (va_pages a),
            va_sessions := va_sessions a
              @ List.map_filter (\<lambda>p. if awaits token p then snd (go p) else None) (va_pages a) \<rparr>)"

definition avatar_uploaded :: "verify_copy \<Rightarrow> nat \<Rightarrow> jval \<Rightarrow> thrown + ustr \<Rightarrow> verify_app \<Rightarrow> verify_app" where
  \<comment> \<open>the picture is forgotten whatever the answer\<close>
  "avatar_uploaded c k u reply a =
     a\<lparr> va_storage := removeItem (va_storage a) pending_avatar_key,
        va_pages := (va_pages a)[k := auto_login c (va_pages a ! k)],
        va_sessions := va_sessions a
          @ [verified_user u (case reply of Inr url \<Rightarrow> Some url | Inl _ \<Rightarrow> opt_field u ''avatar'')] \<rparr>"

section \<open>Sending the link again\<close>

definition startCooldown :: "verify_page \<Rightarrow> verify_page" where
  "startCooldown p = p\<lparr> vp_cooldown := 60 \<rparr>"

definition resend_tick :: "verify_page \<Rightarrow> verify_page" where
  "resend_tick p = p\<lparr> vp_cooldown := (if vp_cooldown p \<le> 1 then 0 else vp_cooldown p - 1) \<rparr>"

definition handleResend :: "verify_copy \<Rightarrow> verify_page \<Rightarrow> verify_page" where
  "handleResend c p =
     (if vp_isResending p \<or> vp_cooldown p > 0 then p
      else (let emailToSend = lower (trim (vp_resendEmail p)) in
        if emailToSend = [] then p\<lparr> vp_error := vc_addressMissing c \<rparr>
        else p\<lparr> vp_isResending := True, vp_error := [], vp_resends := vp_resends p @ [emailToSend] \<rparr>))"

definition resend_settled :: "verify_copy \<Rightarrow> ustr \<Rightarrow> thrown + auth_result \<Rightarrow> verify_page \<Rightarrow> verify_page" where
  "resend_settled c email reply p0 =
     (let p = p0\<lparr> vp_resends := remove1 email (vp_resends p0), vp_isResending := False \<rparr> in
      case reply of
        Inl _ \<Rightarrow> p\<lparr> vp_error := vc_errorBody c \<rparr>
      | Inr r \<Rightarrow> startCooldown (p\<lparr> vp_message := or_else (opt_str (ar_message r)) (vc_resendSuccess c) \<rparr>))"

definition address_shown :: "verify_page \<Rightarrow> bool" where
  \<comment> \<open>whether the field for the address is rendered\<close>
  "address_shown p \<longleftrightarrow> vp_step p = VerifyFailed \<and> vp_resendEmail p = []"

section \<open>Steps\<close>

datatype verify_event =
    PageMounted ustr ustr
  | LinkSettled ustr "thrown + auth_result"
  | AvatarUploaded nat jval "thrown + ustr"
  | RedirectFired nat
  | AddressTyped nat ustr
  | ResendAsked nat
  | ResendSettled nat ustr "thrown + auth_result"
  | ResendTick nat

definition on_page :: "nat \<Rightarrow> (verify_page \<Rightarrow> verify_page) \<Rightarrow> verify_app \<Rightarrow> verify_app" where
  "on_page k f a = a\<lparr> va_pages := (va_pages a)[k := f (va_pages a ! k)] \<rparr>"

fun verify_allowed :: "verify_event \<Rightarrow> verify_app \<Rightarrow> bool" where
  "verify_allowed (PageMounted _ _) a \<longleftrightarrow> True"
| "verify_allowed (LinkSettled t _) a \<longleftrightarrow> t \<in> set (va_requests a)"
| "verify_allowed (AvatarUploaded k u _) a \<longleftrightarrow> k < length (va_pages a) \<and> vp_upload (va_pages a ! k) = Some u"
| "verify_allowed (RedirectFired k) a \<longleftrightarrow> k < length (va_pages a) \<and> vp_redirect (va_pages a ! k)"
| "verify_allowed (AddressTyped k _) a \<longleftrightarrow> k < length (va_pages a) \<and> address_shown (va_pages a ! k)"
| "verify_allowed (ResendAsked k) a \<longleftrightarrow> k < length (va_pages a) \<and> vp_step (va_pages a ! k) = VerifyFailed"
| "verify_allowed (ResendSettled k e _) a \<longleftrightarrow> k < length (va_pages a) \<and> e \<in> set (vp_resends (va_pages a ! k))"
| "verify_allowed (ResendTick k) a \<longleftrightarrow> k < length (va_pages a) \<and> vp_cooldown (va_pages a ! k) > 0"

fun verify_handler :: "verify_copy \<Rightarrow> verify_event \<Rightarrow> verify_app \<Rightarrow> verify_app" where
  "verify_handler c (PageMounted t e) a = page_mounted c t e a"
| "verify_handler c (LinkSettled t r) a = link_settled c t r a"
| "verify_handler c (AvatarUploaded k u r) a = avatar_uploaded c k u r a"
| "verify_handler c (RedirectFired k) a = on_page k (\<lambda>p. p\<lparr> vp_redirect := False, vp_home := True \<rparr>) a"
| "verify_handler c (AddressTyped k v) a = on_page k (\<lambda>p. p\<lparr> vp_resendEmail := v \<rparr>) a"
| "verify_handler c (ResendAsked k) a = on_page k (handleResend c) a"
| "verify_handler c (ResendSettled k e r) a = on_page k (resend_settled c e r) a"
| "verify_handler c (ResendTick k) a = on_page k resend_tick a"

inductive verify_run :: "verify_copy \<Rightarrow> storage \<Rightarrow> verify_event list \<Rightarrow> verify_app \<Rightarrow> bool" for c st where
  start: "verify_run c st [] \<lparr> va_pages = [], va_requests = [], va_completed = [], va_storage = st, va_sent = [], va_sessions = [] \<rparr>"
| step: "verify_run c st es a \<Longrightarrow> verify_allowed e a \<Longrightarrow> verify_run c st (es @ [e]) (verify_handler c e a)"

section \<open>Links\<close>

fun settles :: "ustr \<Rightarrow> verify_event \<Rightarrow> bool" where
  "settles t (LinkSettled t' _) \<longleftrightarrow> t' = t"
| "settles t _ \<longleftrightarrow> False"

fun verifies :: "ustr \<Rightarrow> verify_event \<Rightarrow> bool" where
  "verifies t (LinkSettled t' (Inr r)) \<longleftrightarrow> t' = t \<and> ar_success r"
| "verifies t _ \<longleftrightarrow> False"

definition times :: "(verify_event \<Rightarrow> bool) \<Rightarrow> verify_event list \<Rightarrow> nat" where
  "times P es = length (filter P es)"

definition user_named :: "jval \<Rightarrow> bool" where
  "user_named u \<longleftrightarrow> text_field u ''id'' [] \<noteq> [] \<or> text_field u ''email'' [] \<noteq> []"

definition verified_by :: "verify_event list \<Rightarrow> jval \<Rightarrow> bool" where
  \<comment> \<open>the user a successful verification answered with\<close>
  "verified_by es u \<longleftrightarrow>
     user_named u \<and> (\<exists>t r. LinkSettled t (Inr r) \<in> set es \<and> ar_success r \<and> user_of r = u)"

definition session_by :: "verify_event list \<Rightarrow> login_user \<Rightarrow> bool" where
  "session_by es l \<longleftrightarrow> (\<exists>u avatar. l = verified_user u avatar \<and> verified_by es u)"

definition link_page_ok :: "verify_event list \<Rightarrow> ustr list \<Rightarrow> verify_page \<Rightarrow> bool" where
  "link_page_ok es reqs p \<longleftrightarrow>
     (vp_waiting p \<longrightarrow> vp_token p \<in> set reqs) \<and> (case vp_upload p of Some u \<Rightarrow> verified_by es u | None \<Rightarrow> True)"

definition links_counted :: "verify_event list \<Rightarrow> verify_app \<Rightarrow> ustr \<Rightarrow> bool" where
  "links_counted es a t \<longleftrightarrow>
     count_list (va_sent a) t = times (settles t) es + (if t \<in> set (va_requests a) then 1 else 0)
   \<and> times (verifies t) es = (if t \<in> set (va_completed a) then 1 else 0)
   \<and> (t \<in> set (va_completed a) \<longrightarrow> t \<notin> set (va_requests a))"

definition links_ok :: "verify_event list \<Rightarrow> verify_app \<Rightarrow> bool" where
  "links_ok es a \<longleftrightarrow> (\<forall>t. links_counted es a t) \<and> (\<forall>p \<in> set (va_pages a). link_page_ok es (va_requests a) p)
     \<and> (\<forall>l \<in> set (va_sessions a). session_by es l)"

lemma verified_by_mono: "verified_by es u \<Longrightarrow> verified_by (es @ es') u"
  by (auto simp: verified_by_def)

lemma session_by_mono: "session_by es l \<Longrightarrow> session_by (es @ es') l"
  using verified_by_mono by (auto simp: session_by_def)

lemma link_page_ok_mono: "link_page_ok es reqs p \<Longrightarrow> set reqs \<subseteq> set reqs' \<Longrightarrow> link_page_ok (es @ es') reqs' p"
  using verified_by_mono by (auto simp: link_page_ok_def split: option.splits)

lemma times_snoc: "times P (es @ [e]) = times P es + (if P e then 1 else 0)"
  by (simp add: times_def)

lemma page_verified_cases:
  assumes "page_verified c reply picture p = (p', l)"
  shows "\<not> vp_waiting p'"
    "vp_upload p' = vp_upload p \<or> vp_upload p' = None
       \<or> (\<exists>u r. reply = Inr r \<and> ar_success r \<and> user_of r = u \<and> user_named u \<and> vp_upload p' = Some u)"
    "l = None \<or> (\<exists>u r av. reply = Inr r \<and> ar_success r \<and> user_of r = u \<and> user_named u \<and> l = Some (verified_user u av))"
  using assms
  by (auto simp: page_verified_def Let_def auto_login_def user_named_def split: sum.splits if_splits)

lemma page_changed_ok:
  assumes "links_ok es a" and "k < length (va_pages a)" and "\<forall>t. \<not> settles t e \<and> \<not> verifies t e"
    and "vp_waiting (f (va_pages a ! k)) \<longrightarrow> vp_waiting (va_pages a ! k)" and "vp_token (f (va_pages a ! k)) = vp_token (va_pages a ! k)"
    and "vp_upload (f (va_pages a ! k)) = vp_upload (va_pages a ! k) \<or> vp_upload (f (va_pages a ! k)) = None"
  shows "links_ok (es @ [e]) (on_page k f a)"
proof -
  have old: "\<forall>p \<in> set (va_pages a). link_page_ok (es @ [e]) (va_requests a) p"
    using assms(1) link_page_ok_mono by (auto simp: links_ok_def)
  then have "link_page_ok (es @ [e]) (va_requests a) (f (va_pages a ! k))"
    using assms(4-6) nth_mem [OF assms(2)] by (auto simp: link_page_ok_def split: option.splits)
  with old have "\<forall>p \<in> set ((va_pages a)[k := f (va_pages a ! k)]). link_page_ok (es @ [e]) (va_requests a) p"
    using set_update_subset_insert by fastforce
  then show ?thesis
    using assms(1,3) session_by_mono by (auto simp: links_ok_def links_counted_def on_page_def times_snoc)
qed

lemma mounted_ok:
  assumes "links_ok es a"
  shows "links_ok (es @ [PageMounted t e]) (page_mounted c t e a)"
proof -
  have pages: "link_page_ok (es @ [PageMounted t e]) reqs p" if "p \<in> set (va_pages a)" "set (va_requests a) \<subseteq> set reqs" for p reqs
    using assms that link_page_ok_mono by (auto simp: links_ok_def)
  have sessions: "session_by (es @ [PageMounted t e]) l" if "l \<in> set (va_sessions a)" for l
    using assms that session_by_mono by (auto simp: links_ok_def)
  have counted: "links_counted es a t'" for t' using assms by (simp add: links_ok_def)
  show ?thesis
    using pages sessions counted
    by (auto simp: links_ok_def links_counted_def page_mounted_def Let_def verifyEmailOnce_def times_snoc
        link_page_ok_def verify_page_of_def)
qed

lemma settled_ok:
  assumes "links_ok es a" and "t \<in> set (va_requests a)"
  shows "links_ok (es @ [LinkSettled t reply]) (link_settled c t reply a)"
proof -
  let ?es = "es @ [LinkSettled t reply]" and ?reqs = "filter (\<lambda>t'. t' \<noteq> t) (va_requests a)"
  let ?go = "page_verified c reply (opt_str (getItem (va_storage a) pending_avatar_key))"
  have now: "verified_by ?es u" if "reply = Inr r" "ar_success r" "user_of r = u" "user_named u" for r u
    using that by (auto simp: verified_by_def)
  have page: "link_page_ok ?es ?reqs (if awaits t p then fst (?go p) else p)" if mem: "p \<in> set (va_pages a)" for p
  proof (cases "awaits t p")
    case True
    obtain p' l where go: "?go p = (p', l)" by (cases "?go p")
    have "case vp_upload p of Some u \<Rightarrow> verified_by ?es u | None \<Rightarrow> True"
      using assms(1) mem verified_by_mono by (auto simp: links_ok_def link_page_ok_def split: option.splits)
    then show ?thesis using True go page_verified_cases(1,2) [OF go] now by (auto simp: link_page_ok_def)
  next
    case False
    have "link_page_ok es (va_requests a) p" using assms(1) mem by (simp add: links_ok_def)
    then have "vp_waiting p \<longrightarrow> vp_token p \<in> set ?reqs" "case vp_upload p of Some u \<Rightarrow> verified_by ?es u | None \<Rightarrow> True"
      using False verified_by_mono by (auto simp: link_page_ok_def awaits_def split: option.splits)
    then show ?thesis using False by (simp add: link_page_ok_def)
  qed
  have session: "session_by ?es l" if prem: "snd (?go p) = Some l" for p l
  proof -
    obtain p' where "?go p = (p', Some l)" using prem by (cases "?go p") auto
    from page_verified_cases(3) [OF this] now show ?thesis by (auto simp: session_by_def)
  qed
  have "links_counted ?es (link_settled c t reply a) t'" for t'
  proof -
    have "links_counted es a t'" "links_counted es a t" using assms(1) by (simp_all add: links_ok_def)
    then show ?thesis
      using assms(2) by (cases reply) (auto simp: links_counted_def link_settled_def Let_def times_snoc)
  qed
  moreover have pages: "va_pages (link_settled c t reply a) = map (\<lambda>p. if awaits t p then fst (?go p) else p) (va_pages a)"
    by (simp add: link_settled_def Let_def)
  have "\<forall>p \<in> set (va_pages (link_settled c t reply a)). link_page_ok ?es ?reqs p"
    unfolding pages set_map using page by blast
  moreover have "\<forall>l \<in> set (va_sessions (link_settled c t reply a)). session_by ?es l"
    using assms(1) session session_by_mono
    by (auto simp: link_settled_def Let_def links_ok_def set_map_filter split: if_splits)
  ultimately show ?thesis by (simp add: links_ok_def link_settled_def Let_def)
qed

lemma uploaded_ok:
  assumes "links_ok es a" and "k < length (va_pages a)" and "vp_upload (va_pages a ! k) = Some u"
  shows "links_ok (es @ [AvatarUploaded k u reply]) (avatar_uploaded c k u reply a)"
proof -
  have "links_ok (es @ [AvatarUploaded k u reply]) (on_page k (auto_login c) a)"
    by (rule page_changed_ok [OF assms(1,2)]) (simp_all add: auto_login_def)
  moreover have "link_page_ok es (va_requests a) (va_pages a ! k)"
    using assms(1,2) by (simp add: links_ok_def)
  then have "verified_by (es @ [AvatarUploaded k u reply]) u"
    using assms(3) verified_by_mono by (simp add: link_page_ok_def)
  ultimately show ?thesis
    by (auto simp: links_ok_def links_counted_def avatar_uploaded_def on_page_def session_by_def)
qed

lemma resend_fields [simp]:
  "vp_waiting (resend_settled c e r p) = vp_waiting p" "vp_waiting (handleResend c p) = vp_waiting p"
  "vp_token (resend_settled c e r p) = vp_token p" "vp_token (handleResend c p) = vp_token p"
  "vp_upload (resend_settled c e r p) = vp_upload p" "vp_upload (handleResend c p) = vp_upload p"
  "vp_resendEmail (resend_settled c e r p) = vp_resendEmail p" "vp_resendEmail (handleResend c p) = vp_resendEmail p"
  "vp_link (resend_settled c e r p) = vp_link p" "vp_link (handleResend c p) = vp_link p"
  by (simp_all add: resend_settled_def startCooldown_def handleResend_def Let_def split: sum.split)

lemma verify_run_links: "verify_run c st es a \<Longrightarrow> links_ok es a"
proof (induction rule: verify_run.induct)
  case start
  show ?case by (simp add: links_ok_def links_counted_def times_def)
next
  case (step es a e)
  show ?case
  proof (cases e)
    case (PageMounted t m)
    then show ?thesis using mounted_ok [OF step.IH] by simp
  next
    case (LinkSettled t r)
    then show ?thesis using settled_ok [OF step.IH] step.hyps(2) by simp
  next
    case (AvatarUploaded k u r)
    then show ?thesis using uploaded_ok [OF step.IH] step.hyps(2) by simp
  qed (use step.hyps(2) in \<open>auto intro!: page_changed_ok [OF step.IH] simp: resend_tick_def\<close>)
qed

section \<open>Sending again\<close>














section \<open>Properties\<close>

text \<open>
  Claim C28.  A verification link is used once.  However many pages open it, a new request for a link is
  sent only after the earlier ones failed: the requests sent are the failures, the one success if any, and
  the one under way if any, and never one after a success.  A session is opened only for a user with an
  identifier or address that the server answered a successful verification with.
\<close>

theorem links_verified_once:
  assumes "verify_run c st es a"
  shows "count_list (va_sent a) t = times (settles t) es + (if t \<in> set (va_requests a) then 1 else 0)
    \<and> times (verifies t) es \<le> 1
    \<and> (t \<in> set (va_completed a) \<longleftrightarrow> times (verifies t) es = 1)
    \<and> (t \<in> set (va_completed a) \<longrightarrow> t \<notin> set (va_requests a)
         \<and> va_sent (page_mounted c t m a) = va_sent a \<and> vp_home (last (va_pages (page_mounted c t m a))) = (t \<noteq> []))
    \<and> (\<forall>l \<in> set (va_sessions a). \<exists>u avatar. l = verified_user u avatar \<and> verified_by es u)"
proof -
  have "links_ok es a" by (rule verify_run_links [OF assms])
  then have "links_counted es a t" "\<forall>l \<in> set (va_sessions a). session_by es l" by (simp_all add: links_ok_def)
  moreover have "t \<in> set (va_completed a) \<longrightarrow> va_sent (page_mounted c t m a) = va_sent a
      \<and> vp_home (last (va_pages (page_mounted c t m a))) = (t \<noteq> [])"
    by (simp add: page_mounted_def verify_page_of_def Let_def)
  ultimately show ?thesis by (auto simp: links_counted_def session_by_def)
qed


definition verify_copy_en :: verify_copy where
  "verify_copy_en =
     \<lparr> vc_successBody = U ''Your email address has been verified. You can now sign in to your account.'',
       vc_successBodyAutoLogin = U ''Your email has been verified. Taking you to your account...'',
       vc_errorBody = U ''The verification link may have expired or is invalid. Please try requesting a new one.'',
       vc_resendSuccess = U ''If an account exists with this email, a verification link has been sent.'',
       vc_noTokenError = U ''No verification token found. Please check your email link.'',
       vc_addressMissing = U ''Please enter your email address to resend the verification link.'' \<rparr>"

lemma typed_run:
  "\<exists>a. verify_run verify_copy_en (\<lambda>_. None) [PageMounted [] [], AddressTyped 0 (U ''a'')] a \<and> length (va_pages a) = 1"
proof -
  let ?a0 = "\<lparr> va_pages = [], va_requests = [], va_completed = [], va_storage = (\<lambda>_. None), va_sent = [], va_sessions = [] \<rparr>"
  let ?a1 = "page_mounted verify_copy_en [] [] ?a0"
  have "verify_run verify_copy_en (\<lambda>_. None) [PageMounted [] []] ?a1"
  proof -
    have "verify_run verify_copy_en (\<lambda>_. None) ([] @ [PageMounted [] []]) (verify_handler verify_copy_en (PageMounted [] []) ?a0)"
      by (rule verify_run.step [OF verify_run.start]) simp
    then show ?thesis by simp
  qed
  moreover have "verify_allowed (AddressTyped 0 (U ''a'')) ?a1"
    by (simp add: page_mounted_def verify_page_of_def address_shown_def Let_def)
  ultimately have "verify_run verify_copy_en (\<lambda>_. None) ([PageMounted [] []] @ [AddressTyped 0 (U ''a'')])
      (verify_handler verify_copy_en (AddressTyped 0 (U ''a'')) ?a1)"
    by (rule verify_run.step)
  moreover have "length (va_pages (verify_handler verify_copy_en (AddressTyped 0 (U ''a'')) ?a1)) = 1"
    by (simp add: page_mounted_def on_page_def Let_def)
  ultimately show ?thesis by auto
qed

theorem links_verified_once_witness:
  "\<exists>a. verify_run verify_copy_en (\<lambda>_. None) [PageMounted [] [], AddressTyped 0 (U ''a'')] a \<and> count_list (va_sent a) (U ''t'') \<le> 1"
proof -
  obtain a where a: "verify_run verify_copy_en (\<lambda>_. None) [PageMounted [] [], AddressTyped 0 (U ''a'')] a"
    using typed_run by blast
  from links_verified_once [OF a, of "U ''t''"] show ?thesis using a by (auto simp: times_def)
qed


end
