(* ===== verification/CompleteProfile.thy ===== *)
theory CompleteProfile
  imports ChatWindow Users
begin

text \<open>
  Completing the profile after a sign-in (\<open>features/auth/pages/CompleteProfilePage.tsx\<close>) with the
  choices of city and area it offers (\<open>shared/hooks/useLocationOptions.ts\<close>), without rendering.  After
  each render the effects run in the order they are declared, on the state of that render; they are
  repeated until nothing changes.  Texts, phone prefix and image host are parameters.
\<close>

section \<open>useLocationOptions.ts\<close>

record location_options =
  lo_cities :: "location_city list"
  lo_areas :: "location_area list"
  lo_isLoadingCities :: bool
  lo_isLoadingAreas :: bool
  lo_selected :: "int option"            \<comment> \<open>the city of the last effect\<close>
  lo_run :: nat                          \<comment> \<open>its number; the effects before it are cancelled\<close>
  lo_requests :: "(nat \<times> int) list"     \<comment> \<open>requests for areas under way\<close>

definition new_options :: location_options where
  "new_options = \<lparr> lo_cities = [], lo_areas = [], lo_isLoadingCities = True, lo_isLoadingAreas = False,
     lo_selected = None, lo_run = 0, lo_requests = [] \<rparr>"

definition normalizeLocationName :: "ustr \<Rightarrow> ustr" where
  "normalizeLocationName v = lower (trim v)"

definition selectedCityId :: "location_city list \<Rightarrow> ustr \<Rightarrow> int option" where
  "selectedCityId cs name =
     (let n = normalizeLocationName name in
      if n = [] then None
      else map_option cityId (find (\<lambda>c. normalizeLocationName (cityName c) = n \<or> normalizeLocationName (cityNameAr c) = n) cs))"

definition areas_effect :: "ustr \<Rightarrow> location_options \<Rightarrow> location_options" where
  \<comment> \<open>the effect on the selected city\<close>
  "areas_effect name o' =
     (let sel = selectedCityId (lo_cities o') name in
      if sel = lo_selected o' then o'
      else (let o1 = o'\<lparr> lo_selected := sel, lo_run := lo_run o' + 1 \<rparr> in
        case sel of
          None \<Rightarrow> o1\<lparr> lo_areas := [], lo_isLoadingAreas := False \<rparr>
        | Some i \<Rightarrow>
            if i = 0 then o1\<lparr> lo_areas := [], lo_isLoadingAreas := False \<rparr>
            else o1\<lparr> lo_isLoadingAreas := True, lo_requests := lo_requests o1 @ [(lo_run o1, i)] \<rparr>))"

definition cities_settled :: "location_city list option \<Rightarrow> location_options \<Rightarrow> location_options" where
  \<comment> \<open>\<open>None\<close> when the request throws\<close>
  "cities_settled reply o' =
     o'\<lparr> lo_cities := (case reply of Some cs \<Rightarrow> cs | None \<Rightarrow> []), lo_isLoadingCities := False \<rparr>"

definition areas_settled :: "nat \<Rightarrow> int \<Rightarrow> location_area list option \<Rightarrow> location_options \<Rightarrow> location_options" where
  "areas_settled n i reply o0 =
     (let o' = o0\<lparr> lo_requests := remove1 (n, i) (lo_requests o0) \<rparr> in
      if n \<noteq> lo_run o' then o'
      else o'\<lparr> lo_areas := (case reply of Some as \<Rightarrow> as | None \<Rightarrow> []), lo_isLoadingAreas := False \<rparr>)"

definition cityNames :: "bool \<Rightarrow> location_options \<Rightarrow> ustr list" where
  "cityNames isArabic o' = map (\<lambda>c. if isArabic \<and> cityNameAr c \<noteq> [] then cityNameAr c else cityName c) (lo_cities o')"

definition areaNames :: "bool \<Rightarrow> location_options \<Rightarrow> ustr list" where
  "areaNames isArabic o' = map (\<lambda>a. if isArabic \<and> areaNameAr a \<noteq> [] then areaNameAr a else areaName a) (lo_areas o')"

section \<open>Phone and picture\<close>

record complete_copy =
  cc_invalidPrefix :: ustr
  cc_phoneRequired :: ustr
  cc_firstName :: ustr
  cc_lastName :: ustr
  cc_city :: ustr
  cc_area :: ustr
  cc_invalidUser :: ustr
  cc_cityNotFound :: ustr
  cc_fileTooLarge :: ustr
  cc_notAnImage :: ustr
  cc_unexpected :: ustr

definition isPlaceholderAvatar :: "ustr \<Rightarrow> ustr option \<Rightarrow> bool" where
  "isPlaceholderAvatar host src \<longleftrightarrow> opt_str (resolveAvatarSrc host src) = []"

definition getPhoneValidationError :: "ustr \<Rightarrow> complete_copy \<Rightarrow> ustr \<Rightarrow> bool \<Rightarrow> ustr" where
  "getPhoneValidationError phonePrefix c value requireComplete =
     (let digits = digits_only value in
      if digits = [] then (if requireComplete then cc_phoneRequired c else [])
      else if digits ! 0 \<noteq> 55 then cc_invalidPrefix c
      else if length digits \<ge> 2 \<and> digits ! 1 \<notin> {55, 56, 57} then cc_invalidPrefix c
      else if (requireComplete \<or> length digits = 9) \<and> opt_str (normalizeJordanPhone phonePrefix digits) = []
      then cc_phoneRequired c else [])"

section \<open>State\<close>

datatype complete_field = CFirstName | CLastName | CPhone | CCity | CArea

record completion =
  \<comment> \<open>the body of the update, taken from the closure of the submission\<close>
  cb_firstName :: ustr
  cb_lastName :: ustr
  cb_phone :: ustr
  cb_cityId :: int
  cb_areaId :: "int option"      \<comment> \<open>left out of the JSON when undefined\<close>
  cb_email :: ustr
  cb_avatar :: "ustr option"

datatype complete_request =
    AvatarUpload ustr image_input completion
  | ProfileUpdate ustr completion
  | ProfileRefresh

record complete_page =
  cp_profile :: "user_profile option"
  cp_firstName :: ustr
  cp_lastName :: ustr
  cp_phone :: ustr
  cp_city :: ustr
  cp_area :: ustr
  cp_avatarPreview :: ustr
  cp_avatarFile :: "image_input option"
  cp_errors :: "complete_field \<Rightarrow> ustr"
  cp_generalError :: ustr
  cp_isLoading :: bool
  cp_prevCity :: ustr
  cp_options :: location_options
  cp_requests :: "complete_request list"
  cp_left :: bool

section \<open>Effects\<close>

definition fill :: "ustr \<Rightarrow> ustr \<Rightarrow> ustr" where
  \<comment> \<open>\<open>if (!value && known) setValue(known)\<close>\<close>
  "fill v known = (if v = [] then known else v)"

definition sync_effect :: "ustr \<Rightarrow> complete_page \<Rightarrow> complete_page" where
  "sync_effect host p =
     (case cp_profile p of
        None \<Rightarrow> p
      | Some u \<Rightarrow>
          p\<lparr> cp_firstName := fill (cp_firstName p) (opt_str (profile_firstName u)),
             cp_lastName := fill (cp_lastName p) (opt_str (profile_lastName u)),
             cp_phone := fill (cp_phone p) (profile_phone u),
             cp_city := fill (cp_city p) (opt_str (profile_city u)),
             cp_area := fill (cp_area p) (opt_str (profile_area u)),
             cp_avatarPreview :=
               (if isPlaceholderAvatar host (Some (cp_avatarPreview p)) \<and> \<not> isPlaceholderAvatar host (profile_avatar u)
                then opt_str (profile_avatar u) else cp_avatarPreview p) \<rparr>)"

definition effects_round :: "ustr \<Rightarrow> complete_page \<Rightarrow> complete_page" where
  \<comment> \<open>the effects after one render; a later \<open>setArea\<close> wins\<close>
  "effects_round host p =
     (let q = sync_effect host p in
      q\<lparr> cp_options := areas_effect (cp_city p) (cp_options p),
         cp_area := (if cp_city p \<noteq> cp_prevCity p then [] else cp_area q),
         cp_prevCity := cp_city p \<rparr>)"

definition effects :: "ustr \<Rightarrow> complete_page \<Rightarrow> complete_page" where
  "effects host p = effects_round host (effects_round host (effects_round host p))"

definition complete_opened :: "ustr \<Rightarrow> user_profile option \<Rightarrow> complete_page" where
  "complete_opened host profile =
     (let known = (\<lambda>f. case profile of Some u \<Rightarrow> f u | None \<Rightarrow> []); avatar = (case profile of Some u \<Rightarrow> profile_avatar u | None \<Rightarrow> None) in
      effects host
        \<lparr> cp_profile = profile, cp_firstName = known (\<lambda>u. opt_str (profile_firstName u)),
          cp_lastName = known (\<lambda>u. opt_str (profile_lastName u)), cp_phone = known profile_phone,
          cp_city = known (\<lambda>u. opt_str (profile_city u)), cp_area = known (\<lambda>u. opt_str (profile_area u)),
          cp_avatarPreview = (if isPlaceholderAvatar host avatar then [] else opt_str avatar), cp_avatarFile = None,
          cp_errors = (\<lambda>_. []), cp_generalError = [], cp_isLoading = False,
          cp_prevCity = known (\<lambda>u. opt_str (profile_city u)), cp_options = new_options, cp_requests = [], cp_left = False \<rparr>)"

section \<open>Handlers\<close>

definition avatar_chosen :: "complete_copy \<Rightarrow> image_input option \<Rightarrow> ustr \<Rightarrow> complete_page \<Rightarrow> complete_page" where
  \<comment> \<open>\<open>handleAvatarUpload\<close> with the data address the reader yields\<close>
  "avatar_chosen c file data_url p =
     (case file of
        Some (FileInput n sz modified ftype) \<Rightarrow>
          if sz > 10 * 1024 * 1024 then p\<lparr> cp_generalError := cc_fileTooLarge c \<rparr>
          else if \<not> starts_with ftype (U ''image/'') then p\<lparr> cp_generalError := cc_notAnImage c \<rparr>
          else p\<lparr> cp_avatarFile := file, cp_avatarPreview := data_url \<rparr>
      | _ \<Rightarrow> p)"

definition phone_typed :: "ustr \<Rightarrow> complete_copy \<Rightarrow> ustr \<Rightarrow> complete_page \<Rightarrow> complete_page" where
  \<comment> \<open>the field of \<open>AuthPhoneField.tsx\<close> keeps the digits, at most nine\<close>
  "phone_typed phonePrefix c text p =
     (let v = digits_only text in
      if length v > 9 then p
      else p\<lparr> cp_phone := v, cp_errors := (cp_errors p)(CPhone := getPhoneValidationError phonePrefix c v False) \<rparr>)"

definition phone_blurred :: "ustr \<Rightarrow> complete_copy \<Rightarrow> complete_page \<Rightarrow> complete_page" where
  "phone_blurred phonePrefix c p =
     p\<lparr> cp_errors := (cp_errors p)(CPhone := getPhoneValidationError phonePrefix c (cp_phone p) True) \<rparr>"

definition city_chosen :: "ustr \<Rightarrow> complete_page \<Rightarrow> complete_page" where
  "city_chosen v p = p\<lparr> cp_city := v, cp_errors := (cp_errors p)(CCity := []) \<rparr>"

definition area_chosen :: "ustr \<Rightarrow> complete_page \<Rightarrow> complete_page" where
  "area_chosen v p = p\<lparr> cp_area := v, cp_errors := (cp_errors p)(CArea := []) \<rparr>"

definition bad_phone :: "ustr \<Rightarrow> complete_copy \<Rightarrow> complete_page \<Rightarrow> bool" where
  "bad_phone phonePrefix c p \<longleftrightarrow>
     length (opt_str (normalizeJordanPhone phonePrefix (cp_phone p))) < 12
   \<or> getPhoneValidationError phonePrefix c (cp_phone p) True \<noteq> []"

definition submit_errors :: "ustr \<Rightarrow> complete_copy \<Rightarrow> complete_page \<Rightarrow> (complete_field \<times> ustr) list" where
  "submit_errors phonePrefix c p =
     (if trim (cp_firstName p) = [] then [(CFirstName, cc_firstName c)] else [])
   @ (if trim (cp_lastName p) = [] then [(CLastName, cc_lastName c)] else [])
   @ (if bad_phone phonePrefix c p then [(CPhone, getPhoneValidationError phonePrefix c (cp_phone p) True)] else [])
   @ (if cp_city p = [] then [(CCity, cc_city c)] else [])
   @ (if cp_area p = [] then [(CArea, cc_area c)] else [])"

definition chosen_city :: "complete_page \<Rightarrow> location_city option" where
  "chosen_city p = find (\<lambda>c. cityName c = cp_city p \<or> cityNameAr c = cp_city p) (lo_cities (cp_options p))"

definition chosen_area :: "complete_page \<Rightarrow> location_area option" where
  "chosen_area p = find (\<lambda>a. areaName a = cp_area p \<or> areaNameAr a = cp_area p) (lo_areas (cp_options p))"

definition completion_of :: "ustr \<Rightarrow> user_profile \<Rightarrow> int \<Rightarrow> complete_page \<Rightarrow> completion" where
  "completion_of phonePrefix u i p =
     \<lparr> cb_firstName = trim (cp_firstName p), cb_lastName = trim (cp_lastName p),
       cb_phone = opt_str (normalizeJordanPhone phonePrefix (cp_phone p)), cb_cityId = i,
       cb_areaId = map_option areaId (chosen_area p), cb_email = profile_email u,
       cb_avatar = (if cp_avatarFile p = None
           \<and> (starts_with (cp_avatarPreview p) (U ''http://'') \<or> starts_with (cp_avatarPreview p) (U ''https://''))
         then Some (cp_avatarPreview p) else None) \<rparr>"

definition send_completion :: "complete_request \<Rightarrow> complete_page \<Rightarrow> complete_page" where
  "send_completion r p = p\<lparr> cp_requests := cp_requests p @ [r], cp_isLoading := True \<rparr>"

definition complete_submit :: "ustr \<Rightarrow> complete_copy \<Rightarrow> complete_page \<Rightarrow> complete_page" where
  \<comment> \<open>\<open>handleSubmit\<close> up to its first await\<close>
  "complete_submit phonePrefix c p0 =
     (let p = p0\<lparr> cp_errors := (\<lambda>_. []), cp_generalError := [] \<rparr>; es = submit_errors phonePrefix c p in
      if es \<noteq> [] then p\<lparr> cp_errors := (\<lambda>f. opt_str (map_of es f)) \<rparr>
      else (case cp_profile p of
              None \<Rightarrow> p\<lparr> cp_generalError := cc_invalidUser c \<rparr>
            | Some u \<Rightarrow>
                if profile_id u = [] then p\<lparr> cp_generalError := cc_invalidUser c \<rparr>
                else (case chosen_city p of
                        None \<Rightarrow> p\<lparr> cp_generalError := cc_cityNotFound c \<rparr>
                      | Some city \<Rightarrow>
                          if cityId city = 0 then p\<lparr> cp_generalError := cc_cityNotFound c \<rparr>
                          else (let b = completion_of phonePrefix u (cityId city) p in
                            send_completion (case cp_avatarFile p of
                                Some f \<Rightarrow> AvatarUpload (profile_id u) f b
                              | None \<Rightarrow> ProfileUpdate (profile_id u) b) p))))"

definition complete_failed :: "complete_copy \<Rightarrow> thrown \<Rightarrow> complete_page \<Rightarrow> complete_page" where
  "complete_failed c e p =
     p\<lparr> cp_generalError := (case e of JsError _ m \<Rightarrow> m | _ \<Rightarrow> cc_unexpected c), cp_isLoading := False \<rparr>"

definition complete_answered ::
    "complete_copy \<Rightarrow> complete_request \<Rightarrow> api_response \<Rightarrow> (thrown + unit) \<Rightarrow> complete_page \<Rightarrow> complete_page" where
  \<comment> \<open>the answer to an upload or update, or the outcome of the refresh\<close>
  "complete_answered c r response refreshed p0 =
     (let p = p0\<lparr> cp_requests := remove1 r (cp_requests p0) \<rparr> in
      case r of
        AvatarUpload i f b \<Rightarrow>
          (case uploadAvatar i f response of
             Inl e \<Rightarrow> complete_failed c e p | Inr _ \<Rightarrow> send_completion (ProfileUpdate i b) p)
      | ProfileUpdate i b \<Rightarrow>
          (case updateUser i response of
             Inl e \<Rightarrow> complete_failed c e p | Inr _ \<Rightarrow> send_completion ProfileRefresh p)
      | ProfileRefresh \<Rightarrow>
          (case refreshed of
             Inl e \<Rightarrow> complete_failed c e p | Inr _ \<Rightarrow> p\<lparr> cp_left := True, cp_isLoading := False \<rparr>))"

definition complete_canSubmit :: "ustr \<Rightarrow> complete_page \<Rightarrow> bool" where
  "complete_canSubmit phonePrefix p \<longleftrightarrow>
     trim (cp_firstName p) \<noteq> [] \<and> trim (cp_lastName p) \<noteq> []
   \<and> length (opt_str (normalizeJordanPhone phonePrefix (cp_phone p))) \<ge> 12 \<and> cp_city p \<noteq> [] \<and> cp_area p \<noteq> []"

section \<open>Steps\<close>

datatype complete_event =
    ProfileLoaded "user_profile option"
  | FirstNameTyped ustr
  | LastNameTyped ustr
  | PhoneTyped ustr
  | PhoneBlurred
  | CityChosen ustr
  | AreaChosen ustr
  | AvatarChosen "image_input option" ustr
  | CompleteSubmitted
  | CompleteAnswered complete_request api_response "thrown + unit"
  | CitiesSettled "location_city list option"
  | AreasSettled nat int "location_area list option"
  | BackPressed

fun complete_allowed :: "bool \<Rightarrow> ustr \<Rightarrow> complete_event \<Rightarrow> complete_page \<Rightarrow> bool" where
  \<comment> \<open>the controls not disabled and the requests under way\<close>
  "complete_allowed ar pf (ProfileLoaded _) p \<longleftrightarrow> True"
| "complete_allowed ar pf (FirstNameTyped _) p \<longleftrightarrow> \<not> cp_isLoading p"
| "complete_allowed ar pf (LastNameTyped _) p \<longleftrightarrow> \<not> cp_isLoading p"
| "complete_allowed ar pf (PhoneTyped _) p \<longleftrightarrow> \<not> cp_isLoading p"
| "complete_allowed ar pf PhoneBlurred p \<longleftrightarrow> True"
| "complete_allowed ar pf (CityChosen v) p \<longleftrightarrow>
     \<not> cp_isLoading p \<and> \<not> lo_isLoadingCities (cp_options p) \<and> v \<in> set (cityNames ar (cp_options p))"
| "complete_allowed ar pf (AreaChosen v) p \<longleftrightarrow>
     \<not> cp_isLoading p \<and> cp_city p \<noteq> [] \<and> \<not> lo_isLoadingAreas (cp_options p) \<and> v \<in> set (areaNames ar (cp_options p))"
| "complete_allowed ar pf (AvatarChosen _ _) p \<longleftrightarrow> True"
| "complete_allowed ar pf CompleteSubmitted p \<longleftrightarrow> complete_canSubmit pf p \<and> \<not> cp_isLoading p"
| "complete_allowed ar pf (CompleteAnswered r _ _) p \<longleftrightarrow> r \<in> set (cp_requests p)"
| "complete_allowed ar pf (CitiesSettled _) p \<longleftrightarrow> lo_isLoadingCities (cp_options p)"
| "complete_allowed ar pf (AreasSettled n i _) p \<longleftrightarrow> (n, i) \<in> set (lo_requests (cp_options p))"
| "complete_allowed ar pf BackPressed p \<longleftrightarrow> True"

fun complete_handler :: "ustr \<Rightarrow> complete_copy \<Rightarrow> complete_event \<Rightarrow> complete_page \<Rightarrow> complete_page" where
  "complete_handler pf c (ProfileLoaded u) p = p\<lparr> cp_profile := u \<rparr>"
| "complete_handler pf c (FirstNameTyped v) p = p\<lparr> cp_firstName := v \<rparr>"
| "complete_handler pf c (LastNameTyped v) p = p\<lparr> cp_lastName := v \<rparr>"
| "complete_handler pf c (PhoneTyped v) p = phone_typed pf c v p"
| "complete_handler pf c PhoneBlurred p = phone_blurred pf c p"
| "complete_handler pf c (CityChosen v) p = city_chosen v p"
| "complete_handler pf c (AreaChosen v) p = area_chosen v p"
| "complete_handler pf c (AvatarChosen f url) p = avatar_chosen c f url p"
| "complete_handler pf c CompleteSubmitted p = complete_submit pf c p"
| "complete_handler pf c (CompleteAnswered r a w) p = complete_answered c r a w p"
| "complete_handler pf c (CitiesSettled cs) p = p\<lparr> cp_options := cities_settled cs (cp_options p) \<rparr>"
| "complete_handler pf c (AreasSettled n i as) p = p\<lparr> cp_options := areas_settled n i as (cp_options p) \<rparr>"
| "complete_handler pf c BackPressed p = p\<lparr> cp_left := True \<rparr>"

inductive complete_run ::
    "bool \<Rightarrow> ustr \<Rightarrow> ustr \<Rightarrow> complete_copy \<Rightarrow> complete_event list \<Rightarrow> complete_page \<Rightarrow> bool" for ar pf host c where
  open': "complete_run ar pf host c [] (complete_opened host u)"
| step: "complete_run ar pf host c es p \<Longrightarrow> complete_allowed ar pf e p
    \<Longrightarrow> complete_run ar pf host c (es @ [e]) (effects host (complete_handler pf c e p))"

section \<open>The effects come to rest\<close>

lemma fill_fill [simp]: "fill (fill v k) k = fill v k"
  by (simp add: fill_def)

lemma fill_Nil [simp]: "fill v [] = v" "fill [] k = k"
  by (simp_all add: fill_def)

lemma areas_effect_idem [simp]: "areas_effect n (areas_effect n o') = areas_effect n o'"
  by (simp add: areas_effect_def Let_def split: option.split)

lemma effects_settle: "effects_round host (effects host p) = effects host p"
  by (cases "cp_profile p") (simp_all add: effects_def effects_round_def sync_effect_def Let_def)

section \<open>Requests\<close>

definition completion_ok :: "ustr \<Rightarrow> completion \<Rightarrow> bool" where
  "completion_ok pf b \<longleftrightarrow> cb_firstName b \<noteq> [] \<and> cb_lastName b \<noteq> []
     \<and> cb_phone b = pf @ drop (length pf) (cb_phone b) \<and> is_local_mobile (drop (length pf) (cb_phone b)) \<and> cb_cityId b \<noteq> 0"

fun complete_request_ok :: "ustr \<Rightarrow> complete_request \<Rightarrow> bool" where
  "complete_request_ok pf (AvatarUpload i f b) \<longleftrightarrow> i \<noteq> [] \<and> completion_ok pf b"
| "complete_request_ok pf (ProfileUpdate i b) \<longleftrightarrow> i \<noteq> [] \<and> completion_ok pf b"
| "complete_request_ok pf ProfileRefresh \<longleftrightarrow> True"

definition complete_ok :: "ustr \<Rightarrow> complete_page \<Rightarrow> bool" where
  "complete_ok pf p \<longleftrightarrow> length (cp_requests p) \<le> 1 \<and> (cp_isLoading p \<longleftrightarrow> cp_requests p \<noteq> [])
     \<and> list_all (complete_request_ok pf) (cp_requests p)"

lemma effects_keep [simp]:
  "cp_requests (effects host p) = cp_requests p" "cp_isLoading (effects host p) = cp_isLoading p"
proof -
  have "cp_requests (effects_round host q) = cp_requests q" "cp_isLoading (effects_round host q) = cp_isLoading q" for q
    by (simp_all add: effects_round_def sync_effect_def Let_def split: option.split)
  then show "cp_requests (effects host p) = cp_requests p" "cp_isLoading (effects host p) = cp_isLoading p"
    by (simp_all add: effects_def)
qed

lemma complete_ok_effects [simp]: "complete_ok pf (effects host p) = complete_ok pf p"
  by (simp add: complete_ok_def)

lemma completion_of_ok:
  assumes "submit_errors pf c p = []" and "i \<noteq> 0"
  shows "completion_ok pf (completion_of pf u i p)"
proof -
  have fields: "trim (cp_firstName p) \<noteq> []" "trim (cp_lastName p) \<noteq> []" "\<not> bad_phone pf c p"
    using assms(1) by (auto simp: submit_errors_def split: if_splits)
  then have "normalizeJordanPhone pf (cp_phone p) \<noteq> None"
    by (cases "normalizeJordanPhone pf (cp_phone p)") (simp_all add: bad_phone_def opt_str_def)
  then obtain l where "normalizeJordanPhone pf (cp_phone p) = Some (pf @ l)" "is_local_mobile l"
    using normalizeJordanPhone_Some by blast
  then show ?thesis using fields assms(2) by (simp add: completion_ok_def completion_of_def)
qed

lemma complete_submit_ok:
  assumes "complete_ok pf p" and "\<not> cp_isLoading p"
  shows "complete_ok pf (complete_submit pf c p)"
proof -
  have idle: "cp_requests p = []" using assms by (simp add: complete_ok_def)
  let ?p = "p\<lparr> cp_errors := (\<lambda>_. []), cp_generalError := [] \<rparr>"
  have "completion_ok pf (completion_of pf u i ?p)" if "submit_errors pf c ?p = []" "i \<noteq> 0" for u i
    by (rule completion_of_ok [OF that])
  then show ?thesis
    using idle assms(2)
    by (auto simp: complete_ok_def complete_submit_def Let_def send_completion_def split: option.split)
qed

lemma complete_answered_ok:
  assumes "complete_ok pf p" and "r \<in> set (cp_requests p)"
  shows "complete_ok pf (complete_answered c r a w p)"
proof -
  have "cp_requests p = [r]" "complete_request_ok pf r"
    using assms by (cases "cp_requests p"; auto simp: complete_ok_def)+
  then show ?thesis
    by (cases r) (auto simp: complete_ok_def complete_answered_def complete_failed_def send_completion_def Let_def split: sum.split)
qed

lemma complete_run_ok: "complete_run ar pf host c es p \<Longrightarrow> complete_ok pf p"
proof (induction rule: complete_run.induct)
  case (open' u)
  show ?case by (simp add: complete_opened_def Let_def) (simp add: complete_ok_def)
next
  case (step es p e)
  then show ?case
    by (cases e) (auto simp: complete_submit_ok complete_answered_ok, auto simp: complete_ok_def phone_typed_def phone_blurred_def
        city_chosen_def area_chosen_def avatar_chosen_def Let_def split: option.split image_input.split)
qed

text \<open>
   Completing the profile.  Whatever is typed, chosen and answered, at most one request is under
  way, exactly while the page is loading, and every update carries both names, a valid mobile number behind
  the prefix and a city of the directory; after each render the effects come to rest within three rounds.
\<close>

theorem completion_requests_valid:
  assumes "complete_run ar pf host c es p"
  shows "length (cp_requests p) \<le> 1 \<and> (cp_isLoading p \<longleftrightarrow> cp_requests p \<noteq> [])
    \<and> list_all (complete_request_ok pf) (cp_requests p) \<and> effects_round host p = p"
proof -
  have "complete_ok pf p" by (rule complete_run_ok [OF assms])
  moreover have "effects_round host p = p"
    using assms by cases (simp_all add: complete_opened_def Let_def effects_settle)
  ultimately show ?thesis by (simp add: complete_ok_def)
qed

definition complete_copy_en :: complete_copy where
  "complete_copy_en =
     \<lparr> cc_invalidPrefix = U ''Phone number must start with 77, 78, or 79'', cc_phoneRequired = U ''Valid Jordan phone required'',
       cc_firstName = U ''First name is required'', cc_lastName = U ''Last name is required'', cc_city = U ''City is required'',
       cc_area = U ''Area is required'', cc_invalidUser = U ''Invalid user'', cc_cityNotFound = U ''City not found'',
       cc_fileTooLarge = U ''File size too large. Maximum size is 10MB.'',
       cc_notAnImage = U ''Please select an image file (JPG, PNG, or GIF).'', cc_unexpected = U ''An unexpected error occurred'' \<rparr>"

theorem completion_requests_valid_witness:
  "length (cp_requests (complete_opened [] None)) \<le> 1 \<and> \<not> cp_isLoading (complete_opened [] None)"
proof -
  have "complete_run False (U ''+962'') [] complete_copy_en [] (complete_opened [] None)" by (rule complete_run.open')
  from completion_requests_valid [OF this] show ?thesis by (simp add: complete_opened_def Let_def)
qed

section \<open>What the profile brings back\<close>

fun complete_trace :: "bool \<Rightarrow> ustr \<Rightarrow> ustr \<Rightarrow> complete_copy \<Rightarrow> complete_event list \<Rightarrow> complete_page \<Rightarrow> complete_page option" where
  "complete_trace ar pf host c [] p = Some p"
| "complete_trace ar pf host c (e # es) p =
     (if complete_allowed ar pf e p then complete_trace ar pf host c es (effects host (complete_handler pf c e p)) else None)"

lemma complete_trace_run:
  "complete_run ar pf host c es p \<Longrightarrow> complete_trace ar pf host c es' p = Some p' \<Longrightarrow> complete_run ar pf host c (es @ es') p'"
proof (induction es' arbitrary: es p)
  case (Cons e es')
  then have "complete_run ar pf host c (es @ [e]) (effects host (complete_handler pf c e p))"
    "complete_trace ar pf host c es' (effects host (complete_handler pf c e p)) = Some p'"
    by (auto split: if_splits intro: complete_run.step)
  from Cons.IH [OF this] show ?case by simp
qed simp

definition amman_profile :: user_profile where
  "amman_profile = \<lparr> profile_id = U ''7'', profile_firstName = Some (U ''Ann''), profile_lastName = Some (U ''Bee''),
     profile_name = U ''Ann Bee'', profile_email = U ''a@b.jo'', profile_phone = U ''791234567'', profile_city = Some (U ''Amman''),
     profile_area = Some (U ''Abdoun''), profile_cityId = None, profile_areaId = None, profile_location = [], profile_bio = [],
     profile_avatar = None, profile_joinedDate = [] \<rparr>"

definition abdoun :: location_area where
  "abdoun = \<lparr> areaId = 10, areaName = U ''Abdoun'', areaNameAr = [], area_cityId = 1 \<rparr>"

definition other_city_run :: "complete_event list" where
  \<comment> \<open>another city is chosen and the form sent before its areas are there\<close>
  "other_city_run =
     [CitiesSettled (Some [\<lparr> cityId = 1, cityName = U ''Amman'', cityNameAr = [] \<rparr>, \<lparr> cityId = 2, cityName = U ''Irbid'', cityNameAr = [] \<rparr>]),
      AreasSettled 1 1 (Some [abdoun]), CityChosen (U ''Irbid''), CompleteSubmitted]"

definition sent_cities :: "complete_page \<Rightarrow> (int \<times> int option) list" where
  "sent_cities p = List.map_filter (\<lambda>r. case r of ProfileUpdate _ b \<Rightarrow> Some (cb_cityId b, cb_areaId b) | _ \<Rightarrow> None) (cp_requests p)"

lemma sent_case:
  assumes "(case r of ProfileUpdate _ b \<Rightarrow> Some (cb_cityId b, cb_areaId b) | _ \<Rightarrow> None) = Some (x, y)"
  obtains i b where "r = ProfileUpdate i b" "cb_cityId b = x" "cb_areaId b = y"
  using assms by (cases r) auto

lemma other_city_sent:
  "map_option sent_cities (complete_trace False (U ''+962'') [] complete_copy_en other_city_run (complete_opened [] (Some amman_profile)))
     = Some [(2, Some 10)]"
  by code_simp

text \<open>
   What the profile brings back.  A field emptied by hand is filled with the profile's value at
  once, so it cannot be cleared.  Choosing another city clears the area and then fills it with the area of
  the profile, which belongs to the city before; sent before the areas of the new city have arrived, the
  form names the new city with the identifier of an area of the other one.
\<close>

theorem profile_values_return:
  assumes "cp_profile p = Some u" and "effects_round host p = p"
  shows "(profile_firstName u = Some n \<longrightarrow> cp_firstName (effects host (complete_handler pf c (FirstNameTyped []) p)) = n)
    \<and> (profile_area u = Some a \<and> v \<noteq> [] \<and> v \<noteq> cp_city p
        \<longrightarrow> cp_city (effects host (complete_handler pf c (CityChosen v) p)) = v
          \<and> cp_area (effects host (complete_handler pf c (CityChosen v) p)) = a)
    \<and> (\<exists>es p' i b. complete_run False (U ''+962'') [] complete_copy_en es p' \<and> ProfileUpdate i b \<in> set (cp_requests p')
        \<and> cb_areaId b = Some (areaId abdoun) \<and> cb_cityId b \<noteq> area_cityId abdoun)"
proof -
  have "cp_prevCity (effects_round host p) = cp_city p" by (simp add: effects_round_def Let_def)
  then have prev: "cp_prevCity p = cp_city p" by (simp add: assms(2))
  have name: "cp_firstName (effects host (complete_handler pf c (FirstNameTyped []) p)) = n" if "profile_firstName u = Some n"
    using assms(1) that by (simp add: effects_def effects_round_def sync_effect_def Let_def fill_def)
  have area: "cp_city (effects host (complete_handler pf c (CityChosen v) p)) = v
      \<and> cp_area (effects host (complete_handler pf c (CityChosen v) p)) = a"
    if "profile_area u = Some a" "v \<noteq> []" "v \<noteq> cp_city p"
    using assms(1) prev that by (simp add: effects_def effects_round_def sync_effect_def city_chosen_def Let_def fill_def)
  obtain p' where p': "complete_trace False (U ''+962'') [] complete_copy_en other_city_run (complete_opened [] (Some amman_profile)) = Some p'"
    "sent_cities p' = [(2, Some 10)]"
    using other_city_sent by blast
  have "complete_run False (U ''+962'') [] complete_copy_en other_city_run p'"
    using complete_trace_run [OF complete_run.open' p'(1)] by simp
  moreover have "(2, Some 10) \<in> set (sent_cities p')" by (simp add: p'(2))
  then obtain i b where "ProfileUpdate i b \<in> set (cp_requests p')" "cb_cityId b = 2" "cb_areaId b = Some 10"
    by (auto simp: sent_cities_def set_map_filter elim!: sent_case)
  moreover have "areaId abdoun = 10" "area_cityId abdoun = 1" by (simp_all add: abdoun_def)
  ultimately have "\<exists>es p' i b. complete_run False (U ''+962'') [] complete_copy_en es p' \<and> ProfileUpdate i b \<in> set (cp_requests p')
        \<and> cb_areaId b = Some (areaId abdoun) \<and> cb_cityId b \<noteq> area_cityId abdoun"
    by (metis numeral_One numeral_eq_iff semiring_norm(85))
  then show ?thesis using name area by blast
qed

theorem profile_values_return_witness:
  "cp_area (effects [] (complete_handler [] complete_copy_en (CityChosen (U ''Irbid'')) (complete_opened [] (Some amman_profile))))
     = U ''Abdoun''"
proof -
  let ?p = "complete_opened [] (Some amman_profile)"
  have "map_option profile_area (cp_profile ?p) = Some (Some (U ''Abdoun''))" "cp_city ?p = U ''Amman''" "U ''Irbid'' \<noteq> []"
    "U ''Irbid'' \<noteq> U ''Amman''"
    by code_simp+
  moreover have "effects_round [] ?p = ?p" by (simp add: complete_opened_def Let_def effects_settle)
  moreover obtain u where "cp_profile ?p = Some u" using calculation(1) by blast
  ultimately show ?thesis
    using profile_values_return [of ?p u "[]"] by auto
qed

text \<open>
   Refusals the form could have told before.  A number stored with its prefix, as sign-up and
  profile updates store it, enables the button but is always refused with the message that a number starts
  with 77, 78 or 79.  A picture between 5 and 10 MB is accepted by the page, and then fails the whole
  submission, since the upload refuses it without sending it.
\<close>

theorem completion_refusals:
  assumes "is_local_mobile l" and "cp_phone p = U ''+962'' @ l" and "cc_invalidPrefix c \<noteq> []"
    and "5 * 1024 * 1024 < sz" and "sz \<le> 10 * 1024 * 1024" and "starts_with ftype (U ''image/'')"
  shows "length (opt_str (normalizeJordanPhone (U ''+962'') (cp_phone p))) \<ge> 12
    \<and> cp_requests (complete_submit (U ''+962'') c p) = cp_requests p
    \<and> cp_errors (complete_submit (U ''+962'') c p) CPhone = cc_invalidPrefix c
    \<and> cp_avatarFile (avatar_chosen c (Some (FileInput n sz m ftype)) url p) = Some (FileInput n sz m ftype)
    \<and> (let q = complete_answered c (AvatarUpload i (FileInput n sz m ftype) b) response w p in
         cp_requests q = remove1 (AvatarUpload i (FileInput n sz m ftype) b) (cp_requests p)
         \<and> \<not> cp_isLoading q \<and> cp_generalError q \<noteq> [])"
proof -
  have len: "length l = 9" using assms(1) by (simp add: is_local_mobile_def)
  have normal: "normalizeJordanPhone (U ''+962'') (cp_phone p) = Some (U ''+962'' @ l)"
    unfolding assms(2) by (rule normalizeJordanPhone_local [OF assms(1)])
  have "digits_only (U ''+962'') = [57, 54, 50]" by code_simp
  then have "digits_only (cp_phone p) = [57, 54, 50] @ l"
    using local_mobile_digits [OF assms(1)] assms(2) by (simp add: digits_only_def)
  then have error: "getPhoneValidationError (U ''+962'') c (cp_phone p) True = cc_invalidPrefix c"
    by (simp add: getPhoneValidationError_def)
  let ?p = "p\<lparr> cp_errors := (\<lambda>_. []), cp_generalError := [] \<rparr>"
  have bad: "bad_phone (U ''+962'') c ?p" using error assms(3) by (simp add: bad_phone_def)
  have "submit_errors (U ''+962'') c ?p \<noteq> []" "opt_str (map_of (submit_errors (U ''+962'') c ?p) CPhone) = cc_invalidPrefix c"
    using bad error by (simp_all add: submit_errors_def opt_str_def)
  then have submit: "cp_requests (complete_submit (U ''+962'') c p) = cp_requests p"
    "cp_errors (complete_submit (U ''+962'') c p) CPhone = cc_invalidPrefix c"
    by (simp_all add: complete_submit_def Let_def)
  have "\<exists>e. avatar_refused i (FileInput n sz m ftype) = Some e \<and> e \<noteq> []"
    using assms(4) by (cases "toPositiveIntegerId (Str i)") (simp_all add: avatar_refused_def MAX_AVATAR_BYTES_def U_def)
  then obtain e where "uploadAvatar i (FileInput n sz m ftype) response = Inl (JsError (U ''Error'') e)" "e \<noteq> []"
    by (auto simp: uploadAvatar_def)
  then have "let q = complete_answered c (AvatarUpload i (FileInput n sz m ftype) b) response w p in
         cp_requests q = remove1 (AvatarUpload i (FileInput n sz m ftype) b) (cp_requests p)
         \<and> \<not> cp_isLoading q \<and> cp_generalError q \<noteq> []"
    by (simp add: complete_answered_def complete_failed_def Let_def)
  moreover have "length (opt_str (normalizeJordanPhone (U ''+962'') (cp_phone p))) \<ge> 12"
    using normal len by (simp add: opt_str_def U_def)
  moreover have "cp_avatarFile (avatar_chosen c (Some (FileInput n sz m ftype)) url p) = Some (FileInput n sz m ftype)"
    using assms(5,6) by (simp add: avatar_chosen_def)
  ultimately show ?thesis using submit by blast
qed

theorem completion_refusals_witness:
  "cp_errors (complete_submit (U ''+962'') complete_copy_en
     ((complete_opened [] None)\<lparr> cp_phone := U ''+962'' @ U ''791234567'' \<rparr>)) CPhone = U ''Phone number must start with 77, 78, or 79''"
proof -
  have "is_local_mobile (U ''791234567'')" "cc_invalidPrefix complete_copy_en \<noteq> []" "starts_with (U ''image/png'') (U ''image/'')"
    "cc_invalidPrefix complete_copy_en = U ''Phone number must start with 77, 78, or 79''"
    by code_simp+
  with completion_refusals [of "U ''791234567''" "(complete_opened [] None)\<lparr> cp_phone := U ''+962'' @ U ''791234567'' \<rparr>"
      complete_copy_en "6 * 1024 * 1024" "U ''image/png''"]
  show ?thesis by simp
qed

end
