(* ===== verification/Compare.thy ===== *)
theory Compare
  imports Entities
begin

text \<open>
  The listings chosen for a comparison (\<open>contexts/CompareContext.tsx\<close>): at most three, of one category,
  kept in the session storage of the browser under a key of the account.  The storage holds lists of
  listings; text that is no list reads as none.  Messages and the endpoints of the comparison itself
  (\<open>services/api/compare.ts\<close>) are left out.
\<close>

section \<open>Storage\<close>

record compare_post =
  cmp_id :: ustr
  cmp_name :: ustr
  cmp_price :: rat
  cmp_image :: ustr
  cmp_category :: ustr
  cmp_categoryId :: "ustr option"
  cmp_location :: "ustr option"
  cmp_views :: "rat option"
  cmp_averageRating :: "rat option"
  cmp_reviewCount :: "rat option"
  cmp_sellerId :: "ustr option"
  cmp_sellerName :: "ustr option"
  cmp_sellerAvatar :: "ustr option"

type_synonym compare_storage = "ustr \<Rightarrow> compare_post list option"

definition MAX_COMPARE_ITEMS :: nat where "MAX_COMPARE_ITEMS = 3"
definition BASE_STORAGE_KEY :: ustr where "BASE_STORAGE_KEY = U ''tijarahjo_compare_items''"

definition getStorageKey :: "ustr \<Rightarrow> ustr" where
  \<comment> \<open>no account is the empty identifier\<close>
  "getStorageKey userId = BASE_STORAGE_KEY @ U ''_'' @ (if userId \<noteq> [] then userId else U ''guest'')"

definition loadFromStorage :: "compare_storage \<Rightarrow> ustr \<Rightarrow> compare_post list" where
  "loadFromStorage st userId = (case st (getStorageKey userId) of Some ps \<Rightarrow> ps | None \<Rightarrow> [])"

definition saveToStorage :: "compare_post list \<Rightarrow> ustr \<Rightarrow> compare_storage \<Rightarrow> compare_storage" where
  "saveToStorage ps userId st = st(getStorageKey userId \<mapsto> ps)"

section \<open>The context\<close>

record compare_state =
  cs_selected :: "compare_post list"
  cs_initialized :: bool
  cs_user :: ustr          \<comment> \<open>of the last render\<close>
  cs_loading :: bool
  cs_storage :: compare_storage

definition add_item :: "compare_post \<Rightarrow> compare_post list \<Rightarrow> compare_post list" where
  \<comment> \<open>the updater of \<open>addToCompare\<close>\<close>
  "add_item post prev =
     (if list_ex (\<lambda>p. cmp_id p = cmp_id post) prev then prev
      else if length prev \<ge> MAX_COMPARE_ITEMS then prev
      else if length prev > 0 \<and> cmp_category (prev ! 0) \<noteq> cmp_category post then prev
      else prev @ [post])"

definition remove_item :: "ustr \<Rightarrow> compare_post list \<Rightarrow> compare_post list" where
  "remove_item postId prev =
     (case find (\<lambda>p. cmp_id p = postId) prev of None \<Rightarrow> prev | Some _ \<Rightarrow> filter (\<lambda>p. cmp_id p \<noteq> postId) prev)"

definition persist_effect :: "compare_state \<Rightarrow> compare_state" where
  "persist_effect s =
     (if cs_initialized s then s\<lparr> cs_storage := saveToStorage (cs_selected s) (cs_user s) (cs_storage s) \<rparr> else s)"

definition set_selected :: "(compare_post list \<Rightarrow> compare_post list) \<Rightarrow> compare_state \<Rightarrow> compare_state" where
  \<comment> \<open>a state update and the effect after its render\<close>
  "set_selected f s = persist_effect (s\<lparr> cs_selected := f (cs_selected s) \<rparr>)"

definition addToCompare :: "compare_post \<Rightarrow> compare_state \<Rightarrow> compare_state" where
  "addToCompare post = set_selected (add_item post)"

definition removeFromCompare :: "ustr \<Rightarrow> compare_state \<Rightarrow> compare_state" where
  "removeFromCompare postId = set_selected (remove_item postId)"

definition clearCompare :: "compare_state \<Rightarrow> compare_state" where
  "clearCompare = set_selected (\<lambda>_. [])"

definition isInCompare :: "ustr \<Rightarrow> compare_state \<Rightarrow> bool" where
  "isInCompare postId s \<longleftrightarrow> list_ex (\<lambda>p. cmp_id p = postId) (cs_selected s)"

definition canAddMore :: "compare_state \<Rightarrow> bool" where
  "canAddMore s \<longleftrightarrow> length (cs_selected s) < MAX_COMPARE_ITEMS"

definition compare_auth_rendered :: "ustr \<Rightarrow> bool \<Rightarrow> compare_state \<Rightarrow> compare_state" where
  \<comment> \<open>a render for an account: the first effect reads the storage before the second writes the list of this
      render, and the render the first one causes writes what was read\<close>
  "compare_auth_rendered user loading s =
     (if user = cs_user s \<and> loading = cs_loading s then s
      else
        (let now = s\<lparr> cs_user := user, cs_loading := loading \<rparr>;
             items = loadFromStorage (cs_storage now) user;
             written = (if user = cs_user s then now else persist_effect now)
         in if loading then written
            else persist_effect (written\<lparr> cs_selected := items, cs_initialized := True \<rparr>)))"

definition compare_mounted :: "compare_storage \<Rightarrow> ustr \<Rightarrow> bool \<Rightarrow> compare_state" where
  "compare_mounted st user loading =
     (let s = \<lparr> cs_selected = [], cs_initialized = False, cs_user = user, cs_loading = loading, cs_storage = st \<rparr> in
      if loading then s
      else persist_effect (s\<lparr> cs_selected := loadFromStorage st user, cs_initialized := True \<rparr>))"

datatype compare_event =
    AuthRendered ustr bool
  | ItemAdded ustr compare_post   \<comment> \<open>with the account shown\<close>
  | ItemRemoved ustr
  | CompareCleared

inductive compare_run :: "bool \<Rightarrow> compare_event list \<Rightarrow> compare_state \<Rightarrow> bool" for steady where
  \<comment> \<open>from an empty storage; \<open>steady\<close>: once the list is there, the account changes only while it is not being loaded\<close>
  mounts: "compare_run steady [] (compare_mounted (\<lambda>_. None) u l)"
| renders: "compare_run steady es s \<Longrightarrow> steady \<Longrightarrow> \<not> (cs_initialized s \<and> l \<and> u \<noteq> cs_user s)
    \<Longrightarrow> compare_run steady (es @ [AuthRendered u l]) (compare_auth_rendered u l s)"
| renders_any: "compare_run steady es s \<Longrightarrow> \<not> steady \<Longrightarrow> compare_run steady (es @ [AuthRendered u l]) (compare_auth_rendered u l s)"
| adds: "compare_run steady es s \<Longrightarrow> compare_run steady (es @ [ItemAdded (cs_user s) p]) (addToCompare p s)"
| removes: "compare_run steady es s \<Longrightarrow> compare_run steady (es @ [ItemRemoved i]) (removeFromCompare i s)"
| clears: "compare_run steady es s \<Longrightarrow> compare_run steady (es @ [CompareCleared]) (clearCompare s)"

section \<open>Invariant\<close>

definition items_ok :: "compare_post list \<Rightarrow> bool" where
  "items_ok ps \<longleftrightarrow> length ps \<le> MAX_COMPARE_ITEMS \<and> distinct (map cmp_id ps) \<and> (\<forall>p \<in> set ps. \<forall>q \<in> set ps. cmp_category p = cmp_category q)"

definition stored_ok :: "compare_storage \<Rightarrow> bool" where
  "stored_ok st \<longleftrightarrow> (\<forall>k ps. st k = Some ps \<longrightarrow> items_ok ps)"

definition added_for :: "compare_event list \<Rightarrow> ustr \<Rightarrow> compare_post \<Rightarrow> bool" where
  "added_for es k p \<longleftrightarrow> (\<exists>u. ItemAdded u p \<in> set es \<and> getStorageKey u = k)"

definition owned_ok :: "compare_event list \<Rightarrow> compare_state \<Rightarrow> bool" where
  "owned_ok es s \<longleftrightarrow>
     (\<forall>k ps. cs_storage s k = Some ps \<longrightarrow> (\<forall>p \<in> set ps. added_for es k p))
   \<and> (cs_initialized s \<longrightarrow> (\<forall>p \<in> set (cs_selected s). added_for es (getStorageKey (cs_user s)) p))"

lemma items_ok_Nil [simp]: "items_ok []"
  by (simp add: items_ok_def MAX_COMPARE_ITEMS_def)

lemma items_ok_add:
  assumes "items_ok ps"
  shows "items_ok (add_item p ps)"
proof (cases "add_item p ps = ps")
  case False
  then have new: "cmp_id p \<notin> cmp_id ` set ps" "length ps < MAX_COMPARE_ITEMS" "ps = [] \<or> cmp_category (ps ! 0) = cmp_category p"
    by (auto simp: add_item_def list_ex_iff split: if_splits)
  have "cmp_category q = cmp_category p" if "q \<in> set ps" for q
  proof -
    have "ps ! 0 \<in> set ps" using that by (intro nth_mem) auto
    then show ?thesis using assms new(3) that unfolding items_ok_def by (metis empty_iff empty_set)
  qed
  then have "items_ok (ps @ [p])" using assms new(1,2) by (auto simp: items_ok_def)
  then show ?thesis using False assms by (simp add: add_item_def split: if_splits)
qed (use assms in simp)

lemma items_ok_filter: "items_ok ps \<Longrightarrow> items_ok (filter P ps)"
  using length_filter_le [of P ps] by (auto simp: items_ok_def distinct_map intro: inj_on_subset simp del: length_filter_le)

lemma items_ok_remove: "items_ok ps \<Longrightarrow> items_ok (remove_item i ps)"
  by (simp add: remove_item_def items_ok_filter split: option.split)

lemma add_item_set: "set (add_item p ps) \<subseteq> insert p (set ps)"
  by (auto simp: add_item_def)

lemma remove_item_set: "set (remove_item i ps) \<subseteq> set ps"
  by (auto simp: remove_item_def split: option.split)

lemma added_for_mono: "added_for es k p \<Longrightarrow> added_for (es @ es') k p"
  by (auto simp: added_for_def)

lemma stored_ok_load: "stored_ok st \<Longrightarrow> items_ok (loadFromStorage st u)"
  by (auto simp: stored_ok_def loadFromStorage_def split: option.split)

lemma stored_ok_save: "stored_ok st \<Longrightarrow> items_ok ps \<Longrightarrow> stored_ok (saveToStorage ps u st)"
  by (auto simp: stored_ok_def saveToStorage_def)

definition compare_ok :: "compare_state \<Rightarrow> bool" where
  "compare_ok s \<longleftrightarrow> items_ok (cs_selected s) \<and> stored_ok (cs_storage s)
     \<and> (cs_initialized s \<longrightarrow> cs_storage s (getStorageKey (cs_user s)) = Some (cs_selected s))"

lemma compare_ok_persist:
  "items_ok (cs_selected s) \<Longrightarrow> stored_ok (cs_storage s) \<Longrightarrow> compare_ok (persist_effect s)"
  by (auto simp: compare_ok_def persist_effect_def stored_ok_save) (simp add: saveToStorage_def)

lemma compare_rendered_ok:
  assumes "compare_ok s"
  shows "compare_ok (compare_auth_rendered u l s)"
proof -
  let ?now = "s\<lparr> cs_user := u, cs_loading := l \<rparr>"
  let ?written = "if u = cs_user s then ?now else persist_effect ?now"
  have s: "items_ok (cs_selected s)" "stored_ok (cs_storage s)" using assms by (simp_all add: compare_ok_def)
  have written: "compare_ok ?written"
    using assms s compare_ok_persist [of ?now] by (simp add: compare_ok_def)
  have "items_ok (loadFromStorage (cs_storage s) u)" by (rule stored_ok_load [OF s(2)])
  then have "compare_ok (persist_effect (?written\<lparr> cs_selected := loadFromStorage (cs_storage ?now) u, cs_initialized := True \<rparr>))"
    using written by (intro compare_ok_persist) (simp_all add: compare_ok_def)
  then show ?thesis using assms written by (simp add: compare_auth_rendered_def Let_def)
qed

lemma compare_run_ok: "compare_run steady es s \<Longrightarrow> compare_ok s"
proof (induction rule: compare_run.induct)
  case (mounts u l)
  then show ?case
    by (auto simp: compare_mounted_def Let_def intro!: compare_ok_persist)
      (auto simp: compare_ok_def stored_ok_def loadFromStorage_def)
next
  case (adds es s p)
  then show ?case by (auto simp: addToCompare_def set_selected_def compare_ok_def items_ok_add intro!: compare_ok_persist [unfolded compare_ok_def])
next
  case (removes es s i)
  then show ?case by (auto simp: removeFromCompare_def set_selected_def compare_ok_def items_ok_remove intro!: compare_ok_persist [unfolded compare_ok_def])
next
  case (clears es s)
  then show ?case by (auto simp: clearCompare_def set_selected_def compare_ok_def intro!: compare_ok_persist [unfolded compare_ok_def])
qed (rule compare_rendered_ok; assumption)+

section \<open>Accounts\<close>

lemma owned_set_selected:
  assumes "owned_ok es s"
    and "cs_initialized s \<Longrightarrow> \<forall>p \<in> set (f (cs_selected s)). added_for (es @ es') (getStorageKey (cs_user s)) p"
  shows "owned_ok (es @ es') (set_selected f s)"
  using assms added_for_mono
  by (auto simp: owned_ok_def set_selected_def persist_effect_def saveToStorage_def split: if_splits)

lemma owned_rendered:
  assumes "owned_ok es s" and "\<not> (cs_initialized s \<and> l \<and> u \<noteq> cs_user s)"
  shows "owned_ok (es @ es') (compare_auth_rendered u l s)"
proof -
  have stored: "\<forall>p \<in> set ps. added_for (es @ es') k p" if "cs_storage s k = Some ps" for k ps
    using assms(1) that added_for_mono by (auto simp: owned_ok_def)
  have shown: "\<forall>p \<in> set (cs_selected s). added_for (es @ es') (getStorageKey (cs_user s)) p" if "cs_initialized s"
    using assms(1) that added_for_mono by (auto simp: owned_ok_def)
  have loaded: "\<forall>p \<in> set (loadFromStorage (cs_storage s) u). added_for (es @ es') (getStorageKey u) p"
    by (cases "cs_storage s (getStorageKey u)") (use stored in \<open>auto simp: loadFromStorage_def\<close>)
  show ?thesis
  proof (cases l)
    case True
    then have "\<not> cs_initialized s \<or> u = cs_user s" using assms(2) by blast
    then show ?thesis
      using True stored shown
      by (auto simp: owned_ok_def compare_auth_rendered_def Let_def persist_effect_def saveToStorage_def)
  next
    case False
    then show ?thesis
      using stored shown loaded
      by (auto simp: owned_ok_def compare_auth_rendered_def Let_def persist_effect_def saveToStorage_def split: if_splits)
  qed
qed

lemma compare_run_owned: "compare_run steady es s \<Longrightarrow> steady \<Longrightarrow> owned_ok es s"
proof (induction rule: compare_run.induct)
  case (mounts u l)
  then show ?case
    by (simp add: compare_mounted_def Let_def owned_ok_def persist_effect_def saveToStorage_def loadFromStorage_def)
next
  case (renders es s l u)
  then show ?case using owned_rendered by blast
next
  case (adds es s p)
  have "\<forall>q \<in> set (add_item p (cs_selected s)). added_for (es @ [ItemAdded (cs_user s) p]) (getStorageKey (cs_user s)) q"
    if "cs_initialized s"
  proof
    fix q assume "q \<in> set (add_item p (cs_selected s))"
    then have "q = p \<or> q \<in> set (cs_selected s)" using add_item_set by blast
    then show "added_for (es @ [ItemAdded (cs_user s) p]) (getStorageKey (cs_user s)) q"
      using adds that added_for_mono by (auto simp: owned_ok_def) (auto simp: added_for_def)
  qed
  then show ?case using owned_set_selected adds by (simp add: addToCompare_def)
next
  case (removes es s i)
  have "\<forall>q \<in> set (remove_item i (cs_selected s)). added_for (es @ [ItemRemoved i]) (getStorageKey (cs_user s)) q"
    if "cs_initialized s"
    using removes that remove_item_set added_for_mono by (fastforce simp: owned_ok_def)
  then show ?case using owned_set_selected removes by (simp add: removeFromCompare_def)
next
  case (clears es s)
  then show ?case using owned_set_selected by (simp add: clearCompare_def)
qed simp

definition compare_item :: "ustr \<Rightarrow> compare_post" where
  "compare_item i = \<lparr> cmp_id = i, cmp_name = i, cmp_price = 1, cmp_image = [], cmp_category = U ''Cars'', cmp_categoryId = None,
     cmp_location = None, cmp_views = None, cmp_averageRating = None, cmp_reviewCount = None, cmp_sellerId = None,
     cmp_sellerName = None, cmp_sellerAvatar = None \<rparr>"

lemma leaked_item:
  "\<exists>es s p. compare_run False es s \<and> cs_storage s (getStorageKey (U ''9'')) = Some [p] \<and> \<not> added_for es (getStorageKey (U ''9'')) p"
proof -
  let ?p = "compare_item (U ''1'')"
  define s1 where "s1 = compare_mounted (\<lambda>_. None) (U ''7'') False"
  define s2 where "s2 = addToCompare ?p s1"
  define s3 where "s3 = compare_auth_rendered (U ''9'') True s2"
  have keys: "getStorageKey (U ''9'') \<noteq> getStorageKey (U ''7'')" by code_simp
  have "cs_user s1 = U ''7''" by (simp add: s1_def compare_mounted_def Let_def persist_effect_def)
  then have "compare_run False [ItemAdded (U ''7'') ?p] s2"
    using compare_run.adds [OF compare_run.mounts [where u = "U ''7''" and l = False], of False ?p]
    unfolding s2_def s1_def by simp
  from compare_run.renders_any [OF this, of "U ''9''" True]
  have "compare_run False [ItemAdded (U ''7'') ?p, AuthRendered (U ''9'') True] s3" unfolding s3_def by simp
  moreover have "U ''9'' \<noteq> U ''7''" by code_simp
  then have "cs_storage s3 (getStorageKey (U ''9'')) = Some [?p]"
    by (simp add: s3_def s2_def s1_def compare_auth_rendered_def addToCompare_def set_selected_def compare_mounted_def
        persist_effect_def saveToStorage_def loadFromStorage_def add_item_def MAX_COMPARE_ITEMS_def Let_def)
  moreover have "\<not> added_for [ItemAdded (U ''7'') ?p, AuthRendered (U ''9'') True] (getStorageKey (U ''9'')) ?p"
    using keys by (auto simp: added_for_def)
  ultimately show ?thesis by blast
qed

text \<open>
  Claim C30.  The comparison.  Whatever is added, removed and rendered, the listings chosen and every list
  stored are at most three, distinct and of one category, and once a list was read from the storage, the
  storage of the account shown holds exactly what is chosen.  As long as the account does not change while
  it is being loaded again, every stored listing was added for that very account; if it does, the list of
  the earlier account is written under the key of the later one.
\<close>

theorem compare_lists_owned:
  assumes "compare_run steady es s"
  shows "items_ok (cs_selected s) \<and> stored_ok (cs_storage s)
    \<and> (cs_initialized s \<longrightarrow> cs_storage s (getStorageKey (cs_user s)) = Some (cs_selected s))
    \<and> (steady \<and> cs_storage s k = Some ps \<and> p \<in> set ps \<longrightarrow> added_for es k p)
    \<and> (\<exists>es' s' p'. compare_run False es' s' \<and> cs_storage s' (getStorageKey (U ''9'')) = Some [p']
         \<and> \<not> added_for es' (getStorageKey (U ''9'')) p')"
proof -
  have "steady \<and> cs_storage s k = Some ps \<and> p \<in> set ps \<longrightarrow> added_for es k p"
    using compare_run_owned [OF assms] by (simp add: owned_ok_def)
  then show ?thesis using compare_run_ok [OF assms] leaked_item by (simp add: compare_ok_def)
qed

theorem compare_lists_owned_witness:
  "items_ok (cs_selected (addToCompare (compare_item (U ''1'')) (compare_mounted (\<lambda>_. None) (U ''7'') False)))"
proof -
  let ?s = "compare_mounted (\<lambda>_. None) (U ''7'') False"
  have "compare_run True ([] @ [ItemAdded (cs_user ?s) (compare_item (U ''1''))]) (addToCompare (compare_item (U ''1'')) ?s)"
    by (rule compare_run.adds, rule compare_run.mounts)
  from compare_lists_owned [OF this] show ?thesis by blast
qed

end
