(* ===== verification/TwoFactorSettings.thy ===== *)
theory TwoFactorSettings
  imports LoginForm
begin

text \<open>
  Two-factor authentication in the settings (\<open>features/settings/useTwoFactorSettings.ts\<close>): the status read
  when the page opens and after every change, the code asked for in a dialog, and its confirmation.
  Handlers are cut at their awaits; texts, notices and the clipboard are left out.
\<close>

datatype dialog_mode = SetupDialog | DisableDialog

datatype status_origin = OnMount | AfterStart | AfterConfirm   \<comment> \<open>who awaits \<open>loadTwoFactorStatus\<close>\<close>

datatype two_factor_request =
    StatusRead status_origin
  | SetupStart bool                     \<comment> \<open>enabled, as shown when the button was pressed\<close>
  | CodeConfirm dialog_mode ustr

record two_factor_settings =
  tw_isLoading :: bool
  tw_isMutationPending :: bool
  tw_isEnabled :: bool
  tw_hasPendingSetup :: bool
  tw_isDialogOpen :: bool
  tw_mode :: dialog_mode
  tw_code :: ustr
  tw_error :: ustr
  tw_requests :: "two_factor_request list"

definition loadTwoFactorStatus :: "status_origin \<Rightarrow> two_factor_settings \<Rightarrow> two_factor_settings" where
  "loadTwoFactorStatus o' s = s\<lparr> tw_isLoading := True, tw_requests := tw_requests s @ [StatusRead o'] \<rparr>"

definition settings_opened :: two_factor_settings where
  "settings_opened = loadTwoFactorStatus OnMount
     \<lparr> tw_isLoading = True, tw_isMutationPending = False, tw_isEnabled = False, tw_hasPendingSetup = False,
       tw_isDialogOpen = False, tw_mode = SetupDialog, tw_code = [], tw_error = [], tw_requests = [] \<rparr>"

definition status_settled :: "status_origin \<Rightarrow> thrown + two_factor_status \<Rightarrow> two_factor_settings \<Rightarrow> two_factor_settings" where
  \<comment> \<open>with the \<open>finally\<close> of the handler that awaits it\<close>
  "status_settled o' reply s0 =
     (let s = s0\<lparr> tw_requests := remove1 (StatusRead o') (tw_requests s0), tw_isLoading := False,
                tw_isMutationPending := (if o' = OnMount then tw_isMutationPending s0 else False) \<rparr> in
      case reply of
        Inr r \<Rightarrow> if tfs_success r
                 then s\<lparr> tw_isEnabled := tfs_enabled r, tw_hasPendingSetup := tfs_hasPendingSetup r \<rparr>
                 else s\<lparr> tw_isEnabled := False, tw_hasPendingSetup := False \<rparr>
      | Inl _ \<Rightarrow> s\<lparr> tw_isEnabled := False, tw_hasPendingSetup := False \<rparr>)"

definition resetTwoFactorDialogState :: "two_factor_settings \<Rightarrow> two_factor_settings" where
  "resetTwoFactorDialogState s = s\<lparr> tw_code := [], tw_error := [] \<rparr>"

definition onDialogOpenChange :: "bool \<Rightarrow> two_factor_settings \<Rightarrow> two_factor_settings" where
  "onDialogOpenChange shown s =
     (let s' = s\<lparr> tw_isDialogOpen := shown \<rparr> in if shown then s' else resetTwoFactorDialogState s')"

definition onCodeChange :: "ustr \<Rightarrow> two_factor_settings \<Rightarrow> two_factor_settings" where
  "onCodeChange v s = s\<lparr> tw_code := filter is_digit v \<rparr>"

definition onTwoFactorAction :: "two_factor_settings \<Rightarrow> two_factor_settings" where
  "onTwoFactorAction s =
     (if tw_isLoading s \<or> tw_isMutationPending s then s
      else s\<lparr> tw_isMutationPending := True, tw_error := [],
              tw_requests := tw_requests s @ [SetupStart (tw_isEnabled s)] \<rparr>)"

definition dialog_of :: "bool \<Rightarrow> dialog_mode" where
  "dialog_of enabled = (if enabled then DisableDialog else SetupDialog)"

definition setup_started :: "bool \<Rightarrow> thrown + two_factor_setup \<Rightarrow> two_factor_settings \<Rightarrow> two_factor_settings" where
  \<comment> \<open>the rest of \<open>onTwoFactorAction\<close>\<close>
  "setup_started enabled reply s0 =
     (let s = s0\<lparr> tw_requests := remove1 (SetupStart enabled) (tw_requests s0) \<rparr> in
      case reply of
        Inr r \<Rightarrow>
          if tfu_success r
          then loadTwoFactorStatus AfterStart
                 (s\<lparr> tw_mode := dialog_of enabled, tw_code := [], tw_error := [],
                    tw_isDialogOpen := True \<rparr>)
          else s\<lparr> tw_isMutationPending := False \<rparr>
      | Inl _ \<Rightarrow> s\<lparr> tw_isMutationPending := False \<rparr>)"

definition onConfirmDialog :: "ustr \<Rightarrow> two_factor_settings \<Rightarrow> two_factor_settings" where
  \<comment> \<open>with the text that asks for a code\<close>
  "onConfirmDialog codeRequired s =
     (let code = filter is_digit (tw_code s) in
      if tw_isMutationPending s then s
      else if length code \<noteq> 6 then s\<lparr> tw_error := codeRequired \<rparr>
      else s\<lparr> tw_isMutationPending := True, tw_error := [], tw_requests := tw_requests s @ [CodeConfirm (tw_mode s) code] \<rparr>)"

definition confirm_settled ::
    "ustr \<Rightarrow> dialog_mode \<Rightarrow> ustr \<Rightarrow> thrown + auth_result \<Rightarrow> two_factor_settings \<Rightarrow> two_factor_settings" where
  \<comment> \<open>the rest of \<open>onConfirmDialog\<close>, with the generic text\<close>
  "confirm_settled genericError mode code reply s0 =
     (let s = s0\<lparr> tw_requests := remove1 (CodeConfirm mode code) (tw_requests s0) \<rparr> in
      case reply of
        Inr r \<Rightarrow>
          if ar_success r
          then loadTwoFactorStatus AfterConfirm (resetTwoFactorDialogState (s\<lparr> tw_isDialogOpen := False \<rparr>))
          else s\<lparr> tw_error := or_else (opt_str (ar_message r)) genericError, tw_isMutationPending := False \<rparr>
      | Inl _ \<Rightarrow> s\<lparr> tw_error := genericError, tw_isMutationPending := False \<rparr>)"

datatype two_factor_event =
    StatusSettled status_origin "thrown + two_factor_status"
  | ActionPressed
  | StartSettled bool "thrown + two_factor_setup"
  | TwoFactorCodeTyped ustr
  | ConfirmPressed
  | ConfirmSettled dialog_mode ustr "thrown + auth_result"
  | DialogChanged bool

fun two_factor_allowed :: "two_factor_event \<Rightarrow> two_factor_settings \<Rightarrow> bool" where
  \<comment> \<open>the dialog has no control that opens it\<close>
  "two_factor_allowed (StatusSettled o' _) s \<longleftrightarrow> StatusRead o' \<in> set (tw_requests s)"
| "two_factor_allowed (StartSettled b _) s \<longleftrightarrow> SetupStart b \<in> set (tw_requests s)"
| "two_factor_allowed (ConfirmSettled m d _) s \<longleftrightarrow> CodeConfirm m d \<in> set (tw_requests s)"
| "two_factor_allowed ConfirmPressed s \<longleftrightarrow> tw_isDialogOpen s"
| "two_factor_allowed (DialogChanged b) s \<longleftrightarrow> \<not> b \<and> tw_isDialogOpen s"
| "two_factor_allowed (TwoFactorCodeTyped _) s \<longleftrightarrow> tw_isDialogOpen s"
| "two_factor_allowed ActionPressed s \<longleftrightarrow> True"

fun two_factor_handler :: "two_factor_event \<Rightarrow> two_factor_settings \<Rightarrow> two_factor_settings" where
  "two_factor_handler (StatusSettled o' r) s = status_settled o' r s"
| "two_factor_handler ActionPressed s = onTwoFactorAction s"
| "two_factor_handler (StartSettled b r) s = setup_started b r s"
| "two_factor_handler (TwoFactorCodeTyped v) s = onCodeChange v s"
| "two_factor_handler ConfirmPressed s = onConfirmDialog (U ''Enter a valid 6-digit verification code.'') s"
| "two_factor_handler (ConfirmSettled m d r) s =
     confirm_settled (U ''Something went wrong while updating two-factor settings.'') m d r s"
| "two_factor_handler (DialogChanged b) s = onDialogOpenChange b s"

inductive two_factor_run :: "two_factor_event list \<Rightarrow> two_factor_settings \<Rightarrow> bool" where
  opens: "two_factor_run [] settings_opened"
| step: "two_factor_run es s \<Longrightarrow> two_factor_allowed e s \<Longrightarrow> two_factor_run (es @ [e]) (two_factor_handler e s)"

section \<open>Invariant\<close>

definition two_factor_waiting :: "two_factor_settings \<Rightarrow> bool" where
  \<comment> \<open>what is under way against the flags\<close>
  "two_factor_waiting s \<longleftrightarrow>
     (case tw_requests s of
        [] \<Rightarrow> \<not> tw_isLoading s \<and> \<not> tw_isMutationPending s
      | [StatusRead o'] \<Rightarrow> tw_isLoading s \<and> (tw_isMutationPending s \<longleftrightarrow> o' \<noteq> OnMount) \<and> (o' = OnMount \<longrightarrow> \<not> tw_isDialogOpen s)
      | [SetupStart b] \<Rightarrow> \<not> tw_isLoading s \<and> tw_isMutationPending s \<and> b = tw_isEnabled s
      | [CodeConfirm m d] \<Rightarrow> \<not> tw_isLoading s \<and> tw_isMutationPending s \<and> length d = 6 \<and> list_all is_digit d \<and> m = tw_mode s
      | _ \<Rightarrow> False)"

definition enabled_read :: "two_factor_event list \<Rightarrow> bool" where
  \<comment> \<open>what the last status said; a failure is read as not enabled\<close>
  "enabled_read es =
     (case filter (\<lambda>e. case e of StatusSettled _ _ \<Rightarrow> True | _ \<Rightarrow> False) (rev es) of
        StatusSettled _ (Inr r) # _ \<Rightarrow> tfs_success r \<and> tfs_enabled r
      | _ \<Rightarrow> False)"

definition dialog_from :: "two_factor_event list \<Rightarrow> dialog_mode \<Rightarrow> bool" where
  \<comment> \<open>the dialog a successful start asked for\<close>
  "dialog_from es m \<longleftrightarrow>
     (\<exists>b r. StartSettled b (Inr r) \<in> set es \<and> tfu_success r \<and> dialog_of b = m)"

lemma dialog_from_snoc [simp]: "dialog_from es m \<Longrightarrow> dialog_from (es @ [e]) m"
  by (auto simp: dialog_from_def)

lemma dialog_from_start [simp]: "tfu_success r \<Longrightarrow> dialog_from (es @ [StartSettled b (Inr r)]) (dialog_of b)"
  by (auto simp: dialog_from_def)

definition two_factor_ok :: "two_factor_event list \<Rightarrow> two_factor_settings \<Rightarrow> bool" where
  "two_factor_ok es s \<longleftrightarrow> two_factor_waiting s \<and> enabled_read es = tw_isEnabled s
     \<and> (tw_isDialogOpen s \<longrightarrow> dialog_from es (tw_mode s))"

lemma enabled_read_snoc [simp]:
  "enabled_read (es @ [StatusSettled o' reply]) = (case reply of Inr r \<Rightarrow> tfs_success r \<and> tfs_enabled r | Inl _ \<Rightarrow> False)"
  "enabled_read (es @ [ActionPressed]) = enabled_read es"
  "enabled_read (es @ [StartSettled b a]) = enabled_read es"
  "enabled_read (es @ [TwoFactorCodeTyped v]) = enabled_read es"
  "enabled_read (es @ [ConfirmPressed]) = enabled_read es"
  "enabled_read (es @ [ConfirmSettled m d w]) = enabled_read es"
  "enabled_read (es @ [DialogChanged x]) = enabled_read es"
  by (simp_all add: enabled_read_def split: sum.split)

lemma two_factor_waiting_cases:
  assumes "two_factor_waiting s"
  obtains (idle) "tw_requests s = []" "\<not> tw_isLoading s" "\<not> tw_isMutationPending s"
  | (reading) o' where "tw_requests s = [StatusRead o']" "tw_isLoading s" "tw_isMutationPending s \<longleftrightarrow> o' \<noteq> OnMount"
      "o' = OnMount \<longrightarrow> \<not> tw_isDialogOpen s"
  | (starting) "tw_requests s = [SetupStart (tw_isEnabled s)]" "\<not> tw_isLoading s" "tw_isMutationPending s"
  | (confirming) d where "tw_requests s = [CodeConfirm (tw_mode s) d]" "\<not> tw_isLoading s" "tw_isMutationPending s"
      "length d = 6" "list_all is_digit d"
  using assms
  by (cases "tw_requests s"; cases "tl (tw_requests s)"; cases "hd (tw_requests s)") (auto simp: two_factor_waiting_def)

lemmas two_factor_defs = two_factor_waiting_def status_settled_def onTwoFactorAction_def setup_started_def onConfirmDialog_def
  confirm_settled_def onDialogOpenChange_def resetTwoFactorDialogState_def loadTwoFactorStatus_def onCodeChange_def Let_def

lemma two_factor_step_ok:
  assumes "two_factor_ok es s" "two_factor_allowed e s"
  shows "two_factor_ok (es @ [e]) (two_factor_handler e s)"
proof -
  have waiting: "two_factor_waiting s" using assms(1) by (simp add: two_factor_ok_def)
  have digits: "list_all is_digit (filter is_digit v)" for v by (simp add: list_all_iff)
  show ?thesis
  proof (cases e)
    case (StatusSettled o' r)
    then show ?thesis
      using assms by (cases rule: two_factor_waiting_cases [OF waiting]; cases r) (auto simp: two_factor_ok_def two_factor_defs)
  next
    case ActionPressed
    then show ?thesis
      using assms by (cases rule: two_factor_waiting_cases [OF waiting]) (auto simp: two_factor_ok_def two_factor_defs)
  next
    case (StartSettled b r)
    then show ?thesis
      using assms by (cases rule: two_factor_waiting_cases [OF waiting]; cases r) (auto simp: two_factor_ok_def two_factor_defs)
  next
    case ConfirmPressed
    then show ?thesis
      using assms by (cases rule: two_factor_waiting_cases [OF waiting]) (auto simp: two_factor_ok_def two_factor_defs digits)
  next
    case (ConfirmSettled m d r)
    then show ?thesis
      using assms by (cases rule: two_factor_waiting_cases [OF waiting]; cases r) (auto simp: two_factor_ok_def two_factor_defs)
  next
    case (TwoFactorCodeTyped v)
    then show ?thesis
      using assms by (cases rule: two_factor_waiting_cases [OF waiting]) (auto simp: two_factor_ok_def two_factor_defs)
  next
    case (DialogChanged b)
    then show ?thesis
      using assms by (cases rule: two_factor_waiting_cases [OF waiting]) (auto simp: two_factor_ok_def two_factor_defs)
  qed
qed

lemma two_factor_run_ok: "two_factor_run es s \<Longrightarrow> two_factor_ok es s"
proof (induction rule: two_factor_run.induct)
  case opens
  show ?case by (simp add: two_factor_ok_def two_factor_waiting_def settings_opened_def loadTwoFactorStatus_def enabled_read_def)
qed (rule two_factor_step_ok)

text \<open>
   Two-factor authentication in the settings.  At most one request is under way, exactly while
  the button of the page is disabled; a confirmation carries a code of six digits and belongs to the dialog
  shown; what is shown as enabled is what the last status said, and the dialog is the one for what was
  shown when the button was pressed.  A failed status is shown as not enabled, and then the button opens
  the dialog that enables it, also for a user who has it enabled.
\<close>

theorem two_factor_exclusive:
  assumes "two_factor_run es s"
  shows "length (tw_requests s) \<le> 1 \<and> (tw_requests s \<noteq> [] \<longleftrightarrow> tw_isLoading s \<or> tw_isMutationPending s)
    \<and> (CodeConfirm m d \<in> set (tw_requests s) \<longrightarrow> length d = 6 \<and> list_all is_digit d \<and> m = tw_mode s)
    \<and> enabled_read es = tw_isEnabled s
    \<and> (tw_isDialogOpen s \<longrightarrow> dialog_from es (tw_mode s))
    \<and> (StatusRead o' \<in> set (tw_requests s) \<and> o' = OnMount \<and> tfu_success r
        \<longrightarrow> tw_mode (setup_started False (Inr r) (onTwoFactorAction (status_settled o' (Inl x) s))) = SetupDialog
          \<and> SetupStart False \<in> set (tw_requests (onTwoFactorAction (status_settled o' (Inl x) s))))"
proof -
  have ok: "two_factor_ok es s" by (rule two_factor_run_ok [OF assms])
  then have waiting: "two_factor_waiting s" by (simp add: two_factor_ok_def)
  have "length (tw_requests s) \<le> 1 \<and> (tw_requests s \<noteq> [] \<longleftrightarrow> tw_isLoading s \<or> tw_isMutationPending s)
    \<and> (CodeConfirm m d \<in> set (tw_requests s) \<longrightarrow> length d = 6 \<and> list_all is_digit d \<and> m = tw_mode s)"
    by (cases rule: two_factor_waiting_cases [OF waiting]) auto
  moreover have "tw_mode (setup_started False (Inr r) (onTwoFactorAction (status_settled o' (Inl x) s))) = SetupDialog
          \<and> SetupStart False \<in> set (tw_requests (onTwoFactorAction (status_settled o' (Inl x) s)))"
    if "StatusRead o' \<in> set (tw_requests s)" "o' = OnMount" "tfu_success r"
    using that by (cases rule: two_factor_waiting_cases [OF waiting]) (simp_all add: two_factor_defs dialog_of_def)
  ultimately show ?thesis using ok unfolding two_factor_ok_def by blast
qed

theorem two_factor_exclusive_witness:
  "tw_isEnabled (two_factor_handler (StatusSettled OnMount (Inr \<lparr> tfs_success = True, tfs_enabled = True, tfs_hasPendingSetup = False,
     tfs_message = None \<rparr>)) settings_opened)"
proof -
  let ?e = "StatusSettled OnMount (Inr \<lparr> tfs_success = True, tfs_enabled = True, tfs_hasPendingSetup = False, tfs_message = None \<rparr>)"
  have "two_factor_run ([] @ [?e]) (two_factor_handler ?e settings_opened)"
    by (rule two_factor_run.step [OF two_factor_run.opens]) (simp add: settings_opened_def loadTwoFactorStatus_def)
  from two_factor_exclusive [OF this]
  have "enabled_read ([] @ [?e]) = tw_isEnabled (two_factor_handler ?e settings_opened)" by blast
  then show ?thesis unfolding enabled_read_snoc by simp
qed

end
