(* ===== verification/AdminApi.thy ===== *)
theory AdminApi
  imports PostWrite ChatMessages
begin

text \<open>
  The endpoints of the administration (\<open>services/api/admin.ts\<close>) and the submission of a report
  (\<open>services/api/reports.ts\<close>).  A request is its method, path, parameters and body, the object given to
  \<open>JSON.stringify\<close>, which leaves out the properties that are \<open>Undef\<close>.  A reply is what \<open>apiRequest\<close> throws
  or answers.
\<close>

section \<open>admin.ts\<close>

record admin_request =
  rq_method :: string
  rq_path :: ustr
  rq_params :: url_params
  rq_body :: "jval option"

definition admin_call :: "string \<Rightarrow> ustr \<Rightarrow> admin_request" where
  "admin_call m path = \<lparr> rq_method = m, rq_path = path, rq_params = [], rq_body = None \<rparr>"

subsection \<open>Reading\<close>

definition read_or_fail :: "string \<Rightarrow> thrown + api_response \<Rightarrow> thrown + jval" where
  \<comment> \<open>\<open>if (response.success && response.data) return toCamelCaseKeys(...); throw new Error(fallback)\<close>\<close>
  "read_or_fail fallback reply =
     (case reply of
        Inl e \<Rightarrow> Inl e
      | Inr (ApiErr e) \<Rightarrow> Inl (js_error (U fallback))
      | Inr (ApiOk d) \<Rightarrow> if truthy d then Inr (toCamelCaseKeys d) else Inl (js_error (U fallback)))"

definition read_or_message :: "string \<Rightarrow> thrown + api_response \<Rightarrow> thrown + jval" where
  \<comment> \<open>as above, with the message of the answer where there is one\<close>
  "read_or_message fallback reply =
     (case reply of
        Inl e \<Rightarrow> Inl e
      | Inr (ApiErr e) \<Rightarrow> Inl (js_error (err_message e))
      | Inr (ApiOk d) \<Rightarrow> if truthy d then Inr (toCamelCaseKeys d) else Inl (js_error (U fallback)))"

definition getStats :: "thrown + api_response \<Rightarrow> thrown + jval" where
  "getStats = read_or_fail ''Failed to fetch admin stats''"

definition getAnalytics :: "thrown + api_response \<Rightarrow> thrown + jval" where
  "getAnalytics = read_or_fail ''Failed to fetch admin analytics''"

record admin_post_filter =
  pf_status :: "jnum option"
  pf_categoryId :: "jnum option"
  pf_cityId :: "jnum option"
  pf_page :: "jnum option"
  pf_pageSize :: "jnum option"

definition append_num :: "string \<Rightarrow> jnum option \<Rightarrow> url_params \<Rightarrow> url_params" where
  \<comment> \<open>\<open>if (v !== undefined) params.append(k, v.toString())\<close>\<close>
  "append_num k v ps = (case v of None \<Rightarrow> ps | Some n \<Rightarrow> ps @ [(U k, num_str n)])"

definition admin_posts_request :: "admin_post_filter \<Rightarrow> admin_request" where
  "admin_posts_request f =
     (admin_call ''GET'' (U ''/admin/posts''))
       \<lparr> rq_params := append_num ''pageSize'' (pf_pageSize f) (append_num ''page'' (pf_page f)
           (append_num ''cityId'' (pf_cityId f) (append_num ''categoryId'' (pf_categoryId f)
             (append_num ''status'' (pf_status f) [])))) \<rparr>"

definition admin_getPosts :: "thrown + api_response \<Rightarrow> thrown + jval" where
  "admin_getPosts = read_or_message ''Failed to fetch admin posts''"

definition getUserDetails :: "thrown + api_response \<Rightarrow> jval" where
  "getUserDetails reply =
     (case reply of Inr (ApiOk d) \<Rightarrow> if truthy d then toCamelCaseKeys d else Null | _ \<Rightarrow> Null)"

definition admin_getReviews :: "thrown + api_response \<Rightarrow> thrown + jval" where
  "admin_getReviews = read_or_message ''Failed to fetch admin reviews''"

definition post_comments_request :: "jnum \<Rightarrow> jnum \<Rightarrow> ustr \<Rightarrow> jnum option \<Rightarrow> admin_request" where
  "post_comments_request page pageSize searchQuery userId =
     (let ps = sp_set (sp_set [] (U ''page'') (num_str page)) (U ''pageSize'') (num_str pageSize);
          ps = (if trim searchQuery \<noteq> [] then sp_set ps (U ''search'') (trim searchQuery) else ps);
          ps = (case userId of None \<Rightarrow> ps | Some u \<Rightarrow> sp_set ps (U ''userId'') (num_str u))
      in (admin_call ''GET'' (U ''/admin/post-comments''))\<lparr> rq_params := ps \<rparr>)"

definition getPostComments :: "thrown + api_response \<Rightarrow> thrown + jval" where
  "getPostComments = read_or_message ''Failed to fetch admin post comments''"

definition audit_logs_request :: "ustr option \<Rightarrow> jnum \<Rightarrow> jnum \<Rightarrow> admin_request" where
  "audit_logs_request tableName page pageSize =
     (admin_call ''GET'' (U ''/admin/audit-logs''))
       \<lparr> rq_params := (if opt_str tableName \<noteq> [] then [(U ''tableName'', opt_str tableName)] else [])
           @ [(U ''page'', num_str page), (U ''pageSize'', num_str pageSize)] \<rparr>"

definition getAuditLogs :: "thrown + api_response \<Rightarrow> thrown + jval" where
  "getAuditLogs = read_or_message ''Failed to fetch audit logs''"

definition getSettings :: "thrown + api_response \<Rightarrow> thrown + jval" where
  "getSettings = read_or_fail ''Failed to fetch settings''"

definition reports_request :: "jnum option \<Rightarrow> ustr option \<Rightarrow> ustr option \<Rightarrow> jnum \<Rightarrow> jnum \<Rightarrow> admin_request" where
  "reports_request status reportType search page pageSize =
     (let ps = (case status of None \<Rightarrow> [] | Some n \<Rightarrow> sp_set [] (U ''status'') (num_str n));
          ps = (if opt_str reportType \<noteq> [] then sp_set ps (U ''reportType'') (opt_str reportType) else ps);
          ps = (if trim (opt_str search) \<noteq> [] then sp_set ps (U ''search'') (trim (opt_str search)) else ps);
          ps = sp_set (sp_set ps (U ''page'') (num_str page)) (U ''pageSize'') (num_str pageSize)
      in (admin_call ''GET'' (U ''/admin/reports''))\<lparr> rq_params := ps \<rparr>)"

definition getReports :: "thrown + api_response \<Rightarrow> thrown + jval" where
  "getReports = read_or_fail ''Failed to fetch reports''"

definition getPermissions :: "thrown + api_response \<Rightarrow> thrown + jval" where
  "getPermissions = read_or_fail ''Failed to fetch permissions''"

definition getRolePermissions :: "thrown + api_response \<Rightarrow> thrown + jval" where
  "getRolePermissions reply =
     (case reply of
        Inl e \<Rightarrow> Inl e
      | Inr (ApiErr e) \<Rightarrow> Inl (js_error (U ''Failed to fetch role permissions''))
      | Inr (ApiOk d) \<Rightarrow> if truthy d then Inr d else Inl (js_error (U ''Failed to fetch role permissions'')))"

subsection \<open>Moderating\<close>

definition succeeded :: "api_response \<Rightarrow> bool" where
  "succeeded r = (case r of ApiOk _ \<Rightarrow> True | ApiErr _ \<Rightarrow> False)"

definition caught_success :: "thrown + api_response \<Rightarrow> bool" where
  \<comment> \<open>\<open>try { ... return response.success; } catch { return false; }\<close>\<close>
  "caught_success reply = (case reply of Inl _ \<Rightarrow> False | Inr r \<Rightarrow> succeeded r)"

definition passed_success :: "thrown + api_response \<Rightarrow> thrown + bool" where
  \<comment> \<open>without a \<open>catch\<close>\<close>
  "passed_success reply = (case reply of Inl e \<Rightarrow> Inl e | Inr r \<Rightarrow> Inr (succeeded r))"

definition STATUS_MAP :: "int \<Rightarrow> ustr option" where
  "STATUS_MAP n = (if n = 0 then Some (U ''ACTIVE'') else if n = 1 then Some (U ''BLOCKED'')
     else if n = 3 then Some (U ''SOLD'') else None)"

definition admin_updatePostStatus :: "jval \<Rightarrow> int \<Rightarrow> admin_request" where
  "admin_updatePostStatus pid status =
     (admin_call ''PATCH'' (U ''/admin/posts/'' @ to_str pid @ U ''/status''))
       \<lparr> rq_body := Some (Obj [(U ''Status'', Str (case STATUS_MAP status of None \<Rightarrow> U ''ACTIVE'' | Some s \<Rightarrow> s))]) \<rparr>"

definition softDeletePost :: "jval \<Rightarrow> admin_request" where
  "softDeletePost pid = admin_call ''DELETE'' (U ''/admin/posts/'' @ to_str pid)"

definition admin_deleteReview :: "jval \<Rightarrow> admin_request" where
  "admin_deleteReview rid = admin_call ''DELETE'' (U ''/admin/reviews/'' @ to_str rid)"

definition deletePostComment_request :: "jval \<Rightarrow> admin_request" where
  "deletePostComment_request cid = admin_call ''DELETE'' (U ''/admin/post-comments/'' @ to_str cid)"

datatype delete_comment_result =
    CommentDeleted (dc_alreadyDeleted: bool) (dc_message: jval)
  | CommentNotDeleted (dc_failure: ustr)

definition deletePostComment :: "thrown + api_response \<Rightarrow> delete_comment_result" where
  "deletePostComment reply =
     (case reply of
        Inl _ \<Rightarrow> CommentNotDeleted (U ''Failed to delete post comment'')
      | Inr (ApiOk d) \<Rightarrow> CommentDeleted False (flds d [''message'', ''Message''])
      | Inr (ApiErr e) \<Rightarrow>
          if err_code e = U ''HTTP_404'' then CommentDeleted True (Str (err_message e))
          else CommentNotDeleted (or_else (err_message e) (U ''Failed to delete post comment'')))"

definition updateSetting :: "ustr \<Rightarrow> ustr \<Rightarrow> admin_request" where
  "updateSetting key v =
     (admin_call ''PUT'' (U ''/admin/settings/'' @ key))\<lparr> rq_body := Some (Obj [(U ''Value'', Str v)]) \<rparr>"

definition updateReportStatus :: "jval \<Rightarrow> jval \<Rightarrow> jval \<Rightarrow> admin_request" where
  "updateReportStatus reportId status resolutionNotes =
     (admin_call ''PUT'' (U ''/admin/reports/'' @ to_str reportId @ U ''/status''))
       \<lparr> rq_body := Some (Obj [(U ''Status'', status), (U ''ResolutionNotes'', resolutionNotes)]) \<rparr>"

definition updateRolePermissions :: "jnum \<Rightarrow> jnum list \<Rightarrow> admin_request" where
  "updateRolePermissions roleId permissionIds =
     (admin_call ''PUT'' (U ''/admin/permissions/role/'' @ num_str roleId))
       \<lparr> rq_body := Some (Obj [(U ''permissionIds'', Arr (map Num permissionIds))]) \<rparr>"

datatype bulk_status = BulkBanned | BulkActive

definition bulkUpdateUserStatus :: "ustr list \<Rightarrow> bulk_status \<Rightarrow> admin_request" where
  "bulkUpdateUserStatus userIds status =
     (admin_call ''PUT'' (U ''/admin/users/bulk-status''))
       \<lparr> rq_body := Some (Obj [(U ''userIds'', Arr (map Str userIds)),
           (U ''status'', Str (case status of BulkBanned \<Rightarrow> U ''banned'' | BulkActive \<Rightarrow> U ''active''))]) \<rparr>"

definition suspendUser_request :: "jval \<Rightarrow> jnum option \<Rightarrow> admin_request" where
  "suspendUser_request userId durationHours =
     (admin_call ''POST'' (U ''/admin/users/'' @ to_str userId @ U ''/suspend''))
       \<lparr> rq_body := Some (Obj [(U ''DurationHours'', case durationHours of None \<Rightarrow> Null | Some n \<Rightarrow> Num n)]) \<rparr>"

record suspend_result =
  su_success :: bool
  su_message :: jval
  su_suspendedUntil :: jval

definition suspendUser :: "thrown + api_response \<Rightarrow> suspend_result" where
  "suspendUser reply =
     (let failed = \<lparr> su_success = False, su_message = Str (U ''Failed to suspend user''), su_suspendedUntil = Undef \<rparr> in
      case reply of
        Inr (ApiOk d) \<Rightarrow>
          if truthy d
          then \<lparr> su_success = True, su_message = fld d ''Message'', su_suspendedUntil = fld d ''SuspendedUntil'' \<rparr>
          else failed
      | _ \<Rightarrow> failed)"

section \<open>reports.ts\<close>

datatype report_type = ListingReport | UserReport | ReviewReport | CommentReport

fun report_type_name :: "report_type \<Rightarrow> ustr" where
  "report_type_name ListingReport = U ''LISTING''"
| "report_type_name UserReport = U ''USER''"
| "report_type_name ReviewReport = U ''REVIEW''"
| "report_type_name CommentReport = U ''COMMENT''"

record report_payload =
  rt_reportType :: report_type
  rt_targetId :: jval
  rt_reason :: ustr
  rt_description :: "ustr option"
  rt_image :: "image_input option"   \<comment> \<open>a file\<close>

definition MAX_REPORT_IMAGE_BYTES :: int where "MAX_REPORT_IMAGE_BYTES = 10 * 1024 * 1024"

definition resolveReportSubmissionError :: "ustr \<Rightarrow> ustr \<Rightarrow> ustr" where
  "resolveReportSubmissionError errorCode errorMessage =
     (let m = trim errorMessage in
      if errorCode = U ''HTTP_404'' \<and> m = U ''Not Found''
      then U ''Reporting is not available on the current backend yet. Restart the backend on the latest code and try again.''
      else if m \<noteq> [] then m else U ''Failed to submit report'')"

record report_form =
  fd_fields :: "(ustr \<times> ustr) list"
  fd_image :: "image_input option"

definition report_form_of :: "report_payload \<Rightarrow> ustr + report_form" where
  \<comment> \<open>the message of a refusal or the form posted to \<open>/reports\<close>\<close>
  "report_form_of p =
     (case toPositiveIntegerId (rt_targetId p) of
        None \<Rightarrow> Inl (U ''Invalid report target'')
      | Some targetId \<Rightarrow>
          let reason = upper (trim (rt_reason p)) in
          if reason = [] then Inl (U ''Report reason is required'')
          else
            let fields = [(U ''ReportType'', report_type_name (rt_reportType p)), (U ''TargetID'', int_str targetId), (U ''Reason'', reason)]
                  @ (if trim (opt_str (rt_description p)) \<noteq> [] then [(U ''Description'', trim (opt_str (rt_description p)))] else [])
            in case rt_image p of
                 None \<Rightarrow> Inr \<lparr> fd_fields = fields, fd_image = None \<rparr>
               | Some f \<Rightarrow>
                   if file_size f > MAX_REPORT_IMAGE_BYTES
                   then Inl (U ''Evidence image is too large ('' @ fixed1 (of_int (file_size f) / (1024 * 1024))
                          @ U '' MB). Maximum allowed size is 10 MB.'')
                   else if \<not> starts_with (file_type f) (U ''image/'')
                   then Inl (U ''Only image files are allowed as evidence (JPG, PNG, WebP, GIF).'')
                   else Inr \<lparr> fd_fields = fields, fd_image = Some f \<rparr>)"

definition submitReport :: "report_payload \<Rightarrow> api_response \<Rightarrow> ustr option" where
  \<comment> \<open>the message of the failure, if any; the response is the answer if a request is made\<close>
  "submitReport p response =
     (case report_form_of p of
        Inl m \<Rightarrow> Some m
      | Inr f \<Rightarrow>
          (case response of ApiOk _ \<Rightarrow> None
           | ApiErr e \<Rightarrow> Some (resolveReportSubmissionError (err_code e) (err_message e))))"

end
