(* ===== verification/Moderation.thy ===== *)
theory Moderation
  imports AdminApi
begin

text \<open>
  The queue of reports (\<open>features/admin/components/ReportsQueue.tsx\<close>, \<open>reportActionOutcome.ts\<close>) with the
  dialog that acts on one (\<open>ReportActionDialog.tsx\<close>), without markup.  Handlers are cut at their awaits; a
  task keeps what its closure captured: the report, what was sent for it and the filters \<open>fetchReports\<close> was
  made for.  Events are those the rendered controls allow.  Reports are the values the server sent; an
  answer to \<open>getReports\<close> is assumed to have the declared shape, a list and a count.
\<close>

section \<open>What is shown of a report\<close>

definition formatReportTargetLabel :: "jval \<Rightarrow> ustr" where
  "formatReportTargetLabel r =
     (let label = (case fld r ''targetLabel'' of Str s \<Rightarrow> trim s | _ \<Rightarrow> []);
          t = fld r ''reportType''; target = to_str (fld r ''targetID'')
      in if label \<noteq> [] then label
         else if t = Str (U ''LISTING'') then U ''Listing #'' @ target
         else if t = Str (U ''USER'') then U ''User #'' @ target
         else if t = Str (U ''REVIEW'') then U ''Review #'' @ target
         else if t = Str (U ''COMMENT'') then U ''Comment #'' @ target
         else U ''Target #'' @ target)"

datatype user_standing = Standing_Active | Standing_Suspended | Standing_Banned

definition target_suspended :: "jsenv \<Rightarrow> jval \<Rightarrow> bool" where
  \<comment> \<open>\<open>isTimedSuspended\<close>\<close>
  "target_suspended env r \<longleftrightarrow>
     fld r ''targetUserStatus'' = Num (Fin 1) \<and> truthy (fld r ''targetUserSuspendedUntil'')
   \<and> (case parse_date env (to_str (fld r ''targetUserSuspendedUntil'')) of None \<Rightarrow> False | Some t \<Rightarrow> t > now_ms env)"

definition renderTargetUserStatus :: "jsenv \<Rightarrow> jval \<Rightarrow> user_standing option" where
  "renderTargetUserStatus env r =
     (if is_nullish (fld r ''targetUserStatus'') then None
      else if fld r ''targetUserStatus'' \<noteq> Num (Fin 1) then Some Standing_Banned
      else if target_suspended env r then Some Standing_Suspended else Some Standing_Active)"

definition isPermanentlyBanned :: "jval \<Rightarrow> bool" where
  "isPermanentlyBanned r \<longleftrightarrow> \<not> is_nullish (fld r ''targetUserStatus'') \<and> fld r ''targetUserStatus'' \<noteq> Num (Fin 1)"

definition SUSPENSION_OPTIONS :: "ustr list" where
  \<comment> \<open>the values of the options, \<open>String(opt.hours)\<close>\<close>
  "SUSPENSION_OPTIONS = [int_str 1, int_str 24, int_str (24 * 7), int_str (24 * 30), U ''null'']"

record failure_outcome =
  fo_message :: ustr
  fo_shouldCloseDialog :: bool
  fo_shouldRefreshReports :: bool

definition getReportActionFailureOutcome :: "bool \<Rightarrow> ustr \<Rightarrow> ustr \<Rightarrow> failure_outcome" where
  "getReportActionFailureOutcome primaryActionSucceeded primaryFailureMessage resolutionFailureMessage =
     (if primaryActionSucceeded
      then \<lparr> fo_message = resolutionFailureMessage, fo_shouldCloseDialog = True, fo_shouldRefreshReports = True \<rparr>
      else \<lparr> fo_message = primaryFailureMessage, fo_shouldCloseDialog = False, fo_shouldRefreshReports = False \<rparr>)"

section \<open>The queue\<close>

datatype report_action = SuspendTarget | BlockListing | DeleteComment

record queue_filters =   \<comment> \<open>the dependencies of \<open>fetchReports\<close>\<close>
  qf_status :: ustr
  qf_type :: ustr
  qf_query :: ustr
  qf_page :: int

datatype queue_task =
    Fetching queue_filters "report_action option"   \<comment> \<open>and the action whose handler awaits it\<close>
  | Saving jval jval jval queue_filters             \<comment> \<open>report, status and notes\<close>
  | Acting report_action jval ustr queue_filters    \<comment> \<open>report and chosen hours\<close>
  | Resolving report_action jval ustr jval queue_filters   \<comment> \<open>report, hours and the message of the action\<close>

record reports_queue =
  rq_reports :: "jval list"
  rq_totalCount :: int
  rq_isLoading :: bool
  rq_page :: int
  rq_statusFilter :: ustr
  rq_typeFilter :: ustr
  rq_searchInput :: ustr
  rq_searchQuery :: ustr
  rq_selectedReport :: "jval option"
  rq_dialogOpen :: bool
  rq_newStatus :: jval
  rq_notes :: ustr
  rq_hours :: ustr
  rq_isSuspending :: bool
  rq_isBlockingPost :: bool
  rq_isDeletingComment :: bool
  rq_timer :: "ustr option"       \<comment> \<open>the debounced input\<close>
  rq_fetchedFor :: queue_filters  \<comment> \<open>the dependencies when the effect last ran\<close>
  rq_tasks :: "queue_task list"
  rq_toasts :: "(bool \<times> jval) list"

definition pageSize :: int where "pageSize = 25"

definition filters_of :: "reports_queue \<Rightarrow> queue_filters" where
  "filters_of s = \<lparr> qf_status = rq_statusFilter s, qf_type = rq_typeFilter s, qf_query = rq_searchQuery s, qf_page = rq_page s \<rparr>"

definition queue_request :: "queue_filters \<Rightarrow> admin_request" where
  "queue_request f = reports_request
     (if qf_status f = U ''all'' then None else Some (str_num (qf_status f)))
     (if qf_type f = U ''all'' then None else Some (qf_type f))
     (if qf_query f = [] then None else Some (qf_query f)) (Fin (of_int (qf_page f))) (Fin (of_int pageSize))"

definition toast :: "bool \<Rightarrow> jval \<Rightarrow> reports_queue \<Rightarrow> reports_queue" where
  "toast ok m s = s\<lparr> rq_toasts := rq_toasts s @ [(ok, m)] \<rparr>"

definition toast_error :: "string \<Rightarrow> reports_queue \<Rightarrow> reports_queue" where
  "toast_error m = toast False (Str (U m))"

definition add_task :: "queue_task \<Rightarrow> reports_queue \<Rightarrow> reports_queue" where
  "add_task t s = s\<lparr> rq_tasks := rq_tasks s @ [t] \<rparr>"

definition end_task :: "queue_task \<Rightarrow> reports_queue \<Rightarrow> reports_queue" where
  "end_task t s = s\<lparr> rq_tasks := remove1 t (rq_tasks s) \<rparr>"

definition fetchReports :: "queue_filters \<Rightarrow> report_action option \<Rightarrow> reports_queue \<Rightarrow> reports_queue" where
  "fetchReports f after s = add_task (Fetching f after) (s\<lparr> rq_isLoading := True \<rparr>)"

fun set_busy :: "report_action \<Rightarrow> bool \<Rightarrow> reports_queue \<Rightarrow> reports_queue" where
  "set_busy SuspendTarget b s = s\<lparr> rq_isSuspending := b \<rparr>"
| "set_busy BlockListing b s = s\<lparr> rq_isBlockingPost := b \<rparr>"
| "set_busy DeleteComment b s = s\<lparr> rq_isDeletingComment := b \<rparr>"

fun is_busy :: "report_action \<Rightarrow> reports_queue \<Rightarrow> bool" where
  "is_busy SuspendTarget s = rq_isSuspending s"
| "is_busy BlockListing s = rq_isBlockingPost s"
| "is_busy DeleteComment s = rq_isDeletingComment s"

definition handler_done :: "report_action option \<Rightarrow> reports_queue \<Rightarrow> reports_queue" where
  \<comment> \<open>the \<open>finally\<close> of the action\<close>
  "handler_done after s = (case after of None \<Rightarrow> s | Some a \<Rightarrow> set_busy a False s)"

definition report_page :: "jval \<Rightarrow> (jval list \<times> int) option" where
  "report_page d =
     (case (fld d ''reports'', fld d ''totalCount'') of
        (Arr rs, Num (Fin n)) \<Rightarrow> if is_int_rat n \<and> n \<ge> 0 then Some (rs, \<lfloor>n\<rfloor>) else None
      | _ \<Rightarrow> None)"

definition reports_fetched ::
    "queue_filters \<Rightarrow> report_action option \<Rightarrow> thrown + api_response \<Rightarrow> reports_queue \<Rightarrow> reports_queue" where
  "reports_fetched f after reply s0 =
     (let s = end_task (Fetching f after) s0;
          s' = (case getReports reply of
                  Inl e \<Rightarrow> toast_error ''Failed to load reports'' s
                | Inr d \<Rightarrow> (case report_page d of None \<Rightarrow> s
                            | Some (rs, n) \<Rightarrow> s\<lparr> rq_reports := rs, rq_totalCount := n \<rparr>))
      in handler_done after (s'\<lparr> rq_isLoading := False \<rparr>))"

definition queue_rendered :: "reports_queue \<Rightarrow> reports_queue" where
  \<comment> \<open>the effect on \<open>fetchReports\<close>\<close>
  "queue_rendered s =
     (if filters_of s = rq_fetchedFor s then s
      else fetchReports (filters_of s) None (s\<lparr> rq_fetchedFor := filters_of s \<rparr>))"

definition queue_mounted :: reports_queue where
  "queue_mounted =
     (let f = \<lparr> qf_status = U ''all'', qf_type = U ''all'', qf_query = [], qf_page = 1 \<rparr> in
      fetchReports f None
       \<lparr> rq_reports = [], rq_totalCount = 0, rq_isLoading = False, rq_page = 1, rq_statusFilter = U ''all'',
         rq_typeFilter = U ''all'', rq_searchInput = [], rq_searchQuery = [], rq_selectedReport = None,
         rq_dialogOpen = False, rq_newStatus = Num (Fin 0), rq_notes = [], rq_hours = U ''24'',
         rq_isSuspending = False, rq_isBlockingPost = False, rq_isDeletingComment = False, rq_timer = Some [],
         rq_fetchedFor = f, rq_tasks = [], rq_toasts = [] \<rparr>)"

subsection \<open>Handlers\<close>

definition openActionDialog :: "jval \<Rightarrow> reports_queue \<Rightarrow> reports_queue" where
  "openActionDialog r s =
     s\<lparr> rq_selectedReport := Some r, rq_newStatus := fld r ''status'',
        rq_notes := (if is_nullish (fld r ''resolutionNotes'') then [] else to_str (fld r ''resolutionNotes'')),
        rq_hours := U ''24'', rq_dialogOpen := True \<rparr>"

definition handleUpdateStatus :: "reports_queue \<Rightarrow> reports_queue" where
  "handleUpdateStatus s =
     (case rq_selectedReport s of
        None \<Rightarrow> s
      | Some r \<Rightarrow> add_task (Saving r (rq_newStatus s) (if rq_notes s = [] then Undef else Str (rq_notes s)) (filters_of s)) s)"

definition status_saved ::
    "jval \<Rightarrow> jval \<Rightarrow> jval \<Rightarrow> queue_filters \<Rightarrow> thrown + api_response \<Rightarrow> reports_queue \<Rightarrow> reports_queue" where
  "status_saved r st notes f reply s0 =
     (let s = end_task (Saving r st notes f) s0 in
      case passed_success reply of
        Inr True \<Rightarrow> fetchReports f None ((toast True (Str (U ''Report updated'')) s)\<lparr> rq_dialogOpen := False \<rparr>)
      | _ \<Rightarrow> toast_error ''Failed to update report'' s)"

fun primary_failure :: "report_action \<Rightarrow> string" where
  "primary_failure SuspendTarget = ''Failed to block user''"
| "primary_failure BlockListing = ''Failed to block post''"
| "primary_failure DeleteComment = ''Failed to delete comment''"

fun resolution_failure :: "report_action \<Rightarrow> string" where
  "resolution_failure SuspendTarget = ''User blocked, but the report could not be resolved''"
| "resolution_failure BlockListing = ''Post blocked, but the report could not be resolved''"
| "resolution_failure DeleteComment = ''Comment deleted, but the report could not be resolved''"

definition handleReportActionFailure :: "report_action \<Rightarrow> bool \<Rightarrow> queue_filters \<Rightarrow> reports_queue \<Rightarrow> reports_queue" where
  \<comment> \<open>with the \<open>finally\<close> of the handler that awaits it\<close>
  "handleReportActionFailure a primaryActionSucceeded f s =
     (let o' = getReportActionFailureOutcome primaryActionSucceeded (U (primary_failure a)) (U (resolution_failure a));
          s = toast False (Str (fo_message o')) s;
          s = (if fo_shouldCloseDialog o' then s\<lparr> rq_dialogOpen := False \<rparr> else s)
      in if fo_shouldRefreshReports o' then fetchReports f (Some a) s else handler_done (Some a) s)"

definition duration_hours :: "ustr \<Rightarrow> jnum option" where
  "duration_hours h = (if h = U ''null'' then None else Some (str_num h))"

fun action_applies :: "report_action \<Rightarrow> jval \<Rightarrow> bool" where
  \<comment> \<open>the guards of the handlers\<close>
  "action_applies SuspendTarget r \<longleftrightarrow> truthy (fld r ''targetUserID'')"
| "action_applies BlockListing r \<longleftrightarrow> fld r ''reportType'' = Str (U ''LISTING'')"
| "action_applies DeleteComment r \<longleftrightarrow> fld r ''reportType'' = Str (U ''COMMENT'')"

definition start_action :: "report_action \<Rightarrow> reports_queue \<Rightarrow> reports_queue" where
  \<comment> \<open>the beginning that the three handlers share\<close>
  "start_action a s =
     (case rq_selectedReport s of
        None \<Rightarrow> s
      | Some r \<Rightarrow> if \<not> action_applies a r then s
                  else add_task (Acting a r (rq_hours s) (filters_of s)) (set_busy a True s))"

definition handleBlockUser :: "reports_queue \<Rightarrow> reports_queue" where "handleBlockUser = start_action SuspendTarget"
definition handleBlockPost :: "reports_queue \<Rightarrow> reports_queue" where "handleBlockPost = start_action BlockListing"
definition handleDeleteComment :: "reports_queue \<Rightarrow> reports_queue" where "handleDeleteComment = start_action DeleteComment"

fun action_request :: "report_action \<Rightarrow> jval \<Rightarrow> ustr \<Rightarrow> admin_request" where
  "action_request SuspendTarget r h = suspendUser_request (fld r ''targetUserID'') (duration_hours h)"
| "action_request BlockListing r h = admin_updatePostStatus (fld r ''targetID'') 1"
| "action_request DeleteComment r h = deletePostComment_request (fld r ''targetID'')"

fun action_result :: "report_action \<Rightarrow> thrown + api_response \<Rightarrow> bool \<times> jval" where
  \<comment> \<open>success and the message of the result\<close>
  "action_result SuspendTarget reply = (let r = suspendUser reply in (su_success r, su_message r))"
| "action_result BlockListing reply = (caught_success reply, Undef)"
| "action_result DeleteComment reply =
     (case deletePostComment reply of CommentDeleted _ m \<Rightarrow> (True, m) | CommentNotDeleted m \<Rightarrow> (False, Str m))"

fun failure_text :: "report_action \<Rightarrow> jval \<Rightarrow> jval" where
  "failure_text SuspendTarget m = coalesce [m, Str (U ''Failed to block user'')]"
| "failure_text BlockListing m = Str (U ''Failed to block post'')"
| "failure_text DeleteComment m = (if truthy m then m else Str (U ''Failed to delete comment''))"

fun success_text :: "report_action \<Rightarrow> jval \<Rightarrow> jval" where
  "success_text SuspendTarget m = coalesce [m, Str (U ''User blocked successfully'')]"
| "success_text BlockListing m = Str (U ''Post blocked successfully'')"
| "success_text DeleteComment m = (if truthy m then m else Str (U ''Comment deleted successfully''))"

fun resolution_notes :: "report_action \<Rightarrow> jval \<Rightarrow> ustr \<Rightarrow> ustr" where
  "resolution_notes SuspendTarget r h =
     U ''User #'' @ to_str (fld r ''targetUserID'')
       @ (case duration_hours h of None \<Rightarrow> U '' permanently banned'' | Some n \<Rightarrow> U '' suspended for '' @ num_str n @ U ''h'')
       @ U '' via report #'' @ to_str (fld r ''reportID'')"
| "resolution_notes BlockListing r h = U ''Post blocked via report #'' @ to_str (fld r ''reportID'')"
| "resolution_notes DeleteComment r h = U ''Comment deleted via report #'' @ to_str (fld r ''reportID'')"

definition action_settled ::
    "report_action \<Rightarrow> jval \<Rightarrow> ustr \<Rightarrow> queue_filters \<Rightarrow> thrown + api_response \<Rightarrow> reports_queue \<Rightarrow> reports_queue" where
  \<comment> \<open>the endpoints of the actions catch what is thrown\<close>
  "action_settled a r h f reply s0 =
     (let s = end_task (Acting a r h f) s0; (ok, m) = action_result a reply in
      if ok then add_task (Resolving a r h m f) s
      else handler_done (Some a) (toast False (failure_text a m) s))"

definition resolution_request :: "report_action \<Rightarrow> jval \<Rightarrow> ustr \<Rightarrow> admin_request" where
  "resolution_request a r h = updateReportStatus (fld r ''reportID'') (Num (Fin 2)) (Str (resolution_notes a r h))"

definition report_resolved ::
    "report_action \<Rightarrow> jval \<Rightarrow> ustr \<Rightarrow> jval \<Rightarrow> queue_filters \<Rightarrow> thrown + api_response \<Rightarrow> reports_queue \<Rightarrow> reports_queue" where
  "report_resolved a r h m f reply s0 =
     (let s = end_task (Resolving a r h m f) s0 in
      case passed_success reply of
        Inr True \<Rightarrow> fetchReports f (Some a) ((toast True (success_text a m) s)\<lparr> rq_dialogOpen := False \<rparr>)
      | _ \<Rightarrow> handleReportActionFailure a True f s)"


section \<open>Runs\<close>

datatype queue_event =
    SearchTyped ustr
  | SearchSettled                       \<comment> \<open>the debounce timer\<close>
  | StatusFiltered ustr
  | TypeFiltered ustr
  | PreviousPage
  | NextPage
  | ReviewClicked jval
  | DialogClosed
  | StatusChosen ustr
  | NotesTyped ustr
  | HoursChosen ustr
  | SaveClicked
  | ActionClicked report_action
  | FetchAnswered queue_filters "report_action option" "thrown + api_response"
  | SaveAnswered jval jval jval queue_filters "thrown + api_response"
  | ActionAnswered report_action jval ustr queue_filters "thrown + api_response"
  | ResolutionAnswered report_action jval ustr jval queue_filters "thrown + api_response"

definition total_pages :: "reports_queue \<Rightarrow> int" where
  "total_pages s = (rq_totalCount s + pageSize - 1) div pageSize"

definition page_shown :: "reports_queue \<Rightarrow> bool" where
  "page_shown s \<longleftrightarrow> \<not> (rq_isLoading s \<and> rq_reports s = [])"

fun queue_allowed :: "queue_event \<Rightarrow> reports_queue \<Rightarrow> bool" where
  \<comment> \<open>the controls rendered and not disabled - the dialog is modal -, the timer and the tasks under way\<close>
  "queue_allowed (SearchTyped _) s \<longleftrightarrow> page_shown s \<and> \<not> rq_dialogOpen s"
| "queue_allowed SearchSettled s \<longleftrightarrow> rq_timer s \<noteq> None"
| "queue_allowed (StatusFiltered v) s \<longleftrightarrow> page_shown s \<and> \<not> rq_dialogOpen s
     \<and> v \<in> {U ''all'', U ''0'', U ''1'', U ''2'', U ''3''}"
| "queue_allowed (TypeFiltered v) s \<longleftrightarrow> page_shown s \<and> \<not> rq_dialogOpen s
     \<and> v \<in> {U ''all'', U ''LISTING'', U ''USER'', U ''REVIEW'', U ''COMMENT''}"
| "queue_allowed PreviousPage s \<longleftrightarrow> page_shown s \<and> \<not> rq_dialogOpen s \<and> total_pages s > 1 \<and> rq_page s \<noteq> 1"
| "queue_allowed NextPage s \<longleftrightarrow> page_shown s \<and> \<not> rq_dialogOpen s \<and> total_pages s > 1 \<and> rq_page s < total_pages s"
| "queue_allowed (ReviewClicked r) s \<longleftrightarrow> page_shown s \<and> \<not> rq_dialogOpen s \<and> r \<in> set (rq_reports s)"
| "queue_allowed DialogClosed s \<longleftrightarrow> page_shown s \<and> rq_dialogOpen s"
| "queue_allowed (StatusChosen v) s \<longleftrightarrow> page_shown s \<and> rq_dialogOpen s \<and> v \<in> {U ''0'', U ''1'', U ''2'', U ''3''}"
| "queue_allowed (NotesTyped _) s \<longleftrightarrow> page_shown s \<and> rq_dialogOpen s"
| "queue_allowed (HoursChosen h) s \<longleftrightarrow> page_shown s \<and> rq_dialogOpen s \<and> h \<in> set SUSPENSION_OPTIONS"
| "queue_allowed SaveClicked s \<longleftrightarrow> page_shown s \<and> rq_dialogOpen s"
| "queue_allowed (ActionClicked a) s \<longleftrightarrow> page_shown s \<and> rq_dialogOpen s \<and> \<not> is_busy a s
     \<and> (case rq_selectedReport s of None \<Rightarrow> False
        | Some r \<Rightarrow> action_applies a r \<and> (a = SuspendTarget \<longrightarrow> \<not> isPermanentlyBanned r))"
| "queue_allowed (FetchAnswered f after reply) s \<longleftrightarrow> Fetching f after \<in> set (rq_tasks s)
     \<and> (case getReports reply of Inl _ \<Rightarrow> True | Inr d \<Rightarrow> report_page d \<noteq> None)"
| "queue_allowed (SaveAnswered r st n f _) s \<longleftrightarrow> Saving r st n f \<in> set (rq_tasks s)"
| "queue_allowed (ActionAnswered a r h f _) s \<longleftrightarrow> Acting a r h f \<in> set (rq_tasks s)"
| "queue_allowed (ResolutionAnswered a r h m f _) s \<longleftrightarrow> Resolving a r h m f \<in> set (rq_tasks s)"

fun queue_handler :: "queue_event \<Rightarrow> reports_queue \<Rightarrow> reports_queue" where
  "queue_handler (SearchTyped v) s = s\<lparr> rq_searchInput := v, rq_timer := Some v \<rparr>"
| "queue_handler SearchSettled s =
     (case rq_timer s of None \<Rightarrow> s | Some v \<Rightarrow> s\<lparr> rq_searchQuery := v, rq_page := 1, rq_timer := None \<rparr>)"
| "queue_handler (StatusFiltered v) s = s\<lparr> rq_statusFilter := v, rq_page := 1 \<rparr>"
| "queue_handler (TypeFiltered v) s = s\<lparr> rq_typeFilter := v, rq_page := 1 \<rparr>"
| "queue_handler PreviousPage s = s\<lparr> rq_page := max 1 (rq_page s - 1) \<rparr>"
| "queue_handler NextPage s = s\<lparr> rq_page := rq_page s + 1 \<rparr>"
| "queue_handler (ReviewClicked r) s = openActionDialog r s"
| "queue_handler DialogClosed s = s\<lparr> rq_dialogOpen := False \<rparr>"
| "queue_handler (StatusChosen v) s = s\<lparr> rq_newStatus := Num (str_num v) \<rparr>"
| "queue_handler (NotesTyped v) s = s\<lparr> rq_notes := v \<rparr>"
| "queue_handler (HoursChosen h) s = s\<lparr> rq_hours := h \<rparr>"
| "queue_handler SaveClicked s = handleUpdateStatus s"
| "queue_handler (ActionClicked a) s =
     (case a of SuspendTarget \<Rightarrow> handleBlockUser s | BlockListing \<Rightarrow> handleBlockPost s | DeleteComment \<Rightarrow> handleDeleteComment s)"
| "queue_handler (FetchAnswered f after reply) s = reports_fetched f after reply s"
| "queue_handler (SaveAnswered r st n f reply) s = status_saved r st n f reply s"
| "queue_handler (ActionAnswered a r h f reply) s = action_settled a r h f reply s"
| "queue_handler (ResolutionAnswered a r h m f reply) s = report_resolved a r h m f reply s"

definition queue_step :: "queue_event \<Rightarrow> reports_queue \<Rightarrow> reports_queue" where
  "queue_step e s = queue_rendered (queue_handler e s)"

inductive queue_run :: "queue_event list \<Rightarrow> reports_queue \<Rightarrow> bool" where
  mounted: "queue_run [] queue_mounted"
| step: "queue_run es s \<Longrightarrow> queue_allowed e s \<Longrightarrow> queue_run (es @ [e]) (queue_step e s)"

fun queue_trace :: "queue_event list \<Rightarrow> reports_queue \<Rightarrow> reports_queue option" where
  "queue_trace [] s = Some s"
| "queue_trace (e # es) s = (if queue_allowed e s then queue_trace es (queue_step e s) else None)"

lemma queue_trace_run: "queue_run es s \<Longrightarrow> queue_trace es' s = Some s' \<Longrightarrow> queue_run (es @ es') s'"
proof (induction es' arbitrary: es s)
  case (Cons e es')
  then have "queue_run (es @ [e]) (queue_step e s)" "queue_trace es' (queue_step e s) = Some s'"
    by (auto split: if_splits intro: queue_run.step)
  from Cons.IH [OF this] show ?case by simp
qed simp

subsection \<open>Actions and resolutions\<close>

fun task_owner :: "queue_task \<Rightarrow> report_action option" where
  \<comment> \<open>the action whose handler the task belongs to\<close>
  "task_owner (Fetching f after) = after"
| "task_owner (Saving r st n f) = None"
| "task_owner (Acting a r h f) = Some a"
| "task_owner (Resolving a r h m f) = Some a"

definition action_succeeded :: "queue_event list \<Rightarrow> report_action \<Rightarrow> jval \<Rightarrow> ustr \<Rightarrow> bool" where
  "action_succeeded es a r h \<longleftrightarrow> (\<exists>f reply. ActionAnswered a r h f reply \<in> set es \<and> fst (action_result a reply))"

fun task_sound :: "queue_event list \<Rightarrow> queue_task \<Rightarrow> bool" where
  "task_sound es (Fetching f after) \<longleftrightarrow> True"
| "task_sound es (Saving r st n f) \<longleftrightarrow> ReviewClicked r \<in> set es"
| "task_sound es (Acting a r h f) \<longleftrightarrow> ReviewClicked r \<in> set es \<and> action_applies a r \<and> h \<in> set SUSPENSION_OPTIONS"
| "task_sound es (Resolving a r h m f) \<longleftrightarrow> ReviewClicked r \<in> set es \<and> action_applies a r \<and> action_succeeded es a r h"

definition handler_tasks :: "report_action \<Rightarrow> queue_task list \<Rightarrow> nat" where
  "handler_tasks a ts = length (filter (\<lambda>t. task_owner t = Some a) ts)"

definition queue_owes :: "queue_event list \<Rightarrow> report_action option \<Rightarrow> reports_queue \<Rightarrow> bool" where
  \<comment> \<open>the handler of the owed action is running between two tasks\<close>
  "queue_owes es owed s \<longleftrightarrow>
     (\<forall>a. handler_tasks a (rq_tasks s) + (if owed = Some a then 1 else 0) = (if is_busy a s then 1 else 0))
   \<and> list_all (task_sound es) (rq_tasks s)
   \<and> rq_hours s \<in> set SUSPENSION_OPTIONS
   \<and> (\<forall>r. rq_selectedReport s = Some r \<longrightarrow> ReviewClicked r \<in> set es)"

lemma handler_tasks_simps [simp]:
  "handler_tasks a [] = 0" "handler_tasks a (ts @ [t]) = handler_tasks a ts + (if task_owner t = Some a then 1 else 0)"
  by (simp_all add: handler_tasks_def)

lemma handler_tasks_remove1:
  "t \<in> set ts \<Longrightarrow> handler_tasks a (remove1 t ts) + (if task_owner t = Some a then 1 else 0) = handler_tasks a ts"
  by (induction ts) (auto simp: handler_tasks_def)

lemma task_sound_mono: "task_sound es t \<Longrightarrow> task_sound (es @ es') t"
  by (cases t) (auto simp: action_succeeded_def)

lemma is_busy_set: "is_busy a (set_busy b v s) = (if a = b then v else is_busy a s)"
  by (cases a; cases b) simp_all

lemma set_busy_frame [simp]:
  "rq_tasks (set_busy b v s) = rq_tasks s" "rq_hours (set_busy b v s) = rq_hours s"
  "rq_selectedReport (set_busy b v s) = rq_selectedReport s" "filters_of (set_busy b v s) = filters_of s"
  by (cases b; simp add: filters_of_def)+


lemma queue_owes_mono: "queue_owes es owed s \<Longrightarrow> queue_owes (es @ es') owed s"
  by (auto simp: queue_owes_def list_all_iff task_sound_mono)

lemma queue_owes_cong:
  assumes "queue_owes es owed s" "rq_tasks s' = rq_tasks s" "rq_hours s' = rq_hours s"
    "rq_selectedReport s' = rq_selectedReport s" "\<And>a. is_busy a s' = is_busy a s"
  shows "queue_owes es owed s'"
  using assms by (simp add: queue_owes_def)

lemma is_busy_cong:
  "rq_isSuspending s' = rq_isSuspending s \<Longrightarrow> rq_isBlockingPost s' = rq_isBlockingPost s
   \<Longrightarrow> rq_isDeletingComment s' = rq_isDeletingComment s \<Longrightarrow> is_busy a s' = is_busy a s"
  by (cases a) simp_all

lemmas queue_owes_frame = queue_owes_cong [OF _ _ _ _ is_busy_cong]

lemma queue_owes_end:
  assumes "queue_owes es None s" "t \<in> set (rq_tasks s)"
  shows "queue_owes es (task_owner t) (end_task t s)"
proof -
  have "is_busy a (end_task t s) = is_busy a s" for a by (rule is_busy_cong) (simp_all add: end_task_def)
  with assms handler_tasks_remove1 [OF assms(2)] show ?thesis
    by (auto simp: queue_owes_def end_task_def list_all_iff dest: notin_set_remove1)
qed

lemma queue_owes_add:
  assumes "queue_owes es (task_owner t) s" "task_sound es t"
  shows "queue_owes es None (add_task t s)"
proof -
  have "is_busy a (add_task t s) = is_busy a s" for a by (rule is_busy_cong) (simp_all add: add_task_def)
  with assms show ?thesis by (simp add: queue_owes_def add_task_def)
qed

lemma queue_owes_done:
  assumes "queue_owes es owed s"
  shows "queue_owes es None (handler_done owed s)"
proof (cases owed)
  case (Some b)
  have count: "handler_tasks a (rq_tasks s) + (if b = a then 1 else 0) = (if is_busy a s then 1 else 0)" for a
    using assms Some by (simp add: queue_owes_def)
  have "handler_tasks a (rq_tasks s) = (if is_busy a (set_busy b False s) then 1 else 0)" for a
    using count [of a] by (cases "b = a") (simp_all add: is_busy_set split: if_splits)
  then show ?thesis using assms Some by (simp add: handler_done_def queue_owes_def)
qed (use assms in \<open>simp add: handler_done_def\<close>)

lemma queue_owes_busy:
  assumes "queue_owes es None s" "\<not> is_busy a s"
  shows "queue_owes es (Some a) (set_busy a True s)"
proof -
  have "handler_tasks b (rq_tasks s) + (if a = b then 1 else 0) = (if is_busy b (set_busy a True s) then 1 else 0)" for b
    using assms by (cases "a = b") (simp_all add: queue_owes_def is_busy_set)
  then show ?thesis using assms(1) by (simp add: queue_owes_def)
qed

lemma queue_owes_toast: "queue_owes es owed s \<Longrightarrow> queue_owes es owed (toast b m s)"
  by (erule queue_owes_frame) (simp_all add: toast_def)

lemma queue_owes_closed: "queue_owes es owed s \<Longrightarrow> queue_owes es owed (s\<lparr> rq_dialogOpen := b \<rparr>)"
  by (erule queue_owes_frame) simp_all

lemma queue_owes_fetch:
  assumes "queue_owes es after s"
  shows "queue_owes es None (fetchReports f after s)"
proof -
  have "queue_owes es after (s\<lparr> rq_isLoading := True \<rparr>)" by (rule queue_owes_frame [OF assms]) simp_all
  then show ?thesis by (simp add: fetchReports_def queue_owes_add)
qed

lemma queue_owes_rendered:
  assumes "queue_owes es None s"
  shows "queue_owes es None (queue_rendered s)"
proof -
  have "queue_owes es None (s\<lparr> rq_fetchedFor := filters_of s \<rparr>)" by (rule queue_owes_frame [OF assms]) simp_all
  then show ?thesis using assms by (simp add: queue_rendered_def queue_owes_fetch)
qed

lemma queue_owes_failure: "queue_owes es (Some a) s \<Longrightarrow> queue_owes es None (handleReportActionFailure a p f s)"
  by (simp add: handleReportActionFailure_def getReportActionFailureOutcome_def Let_def queue_owes_toast queue_owes_closed queue_owes_done queue_owes_fetch)

lemma queue_owes_fetched:
  assumes "queue_owes es None s" "Fetching f after \<in> set (rq_tasks s)"
  shows "queue_owes es None (reports_fetched f after reply s)"
proof -
  have ended: "queue_owes es after (end_task (Fetching f after) s)" using queue_owes_end [OF assms] by simp
  have "queue_owes es after (s'\<lparr> rq_isLoading := False \<rparr>)" if prem: "queue_owes es after s'" for s'
    by (rule queue_owes_frame [OF prem]) simp_all
  moreover have "queue_owes es after (s'\<lparr> rq_reports := rs, rq_totalCount := n \<rparr>)" if prem: "queue_owes es after s'" for s' rs n
    by (rule queue_owes_frame [OF prem]) simp_all
  ultimately show ?thesis
    using ended by (auto simp: reports_fetched_def Let_def toast_error_def intro!: queue_owes_done queue_owes_toast split: sum.splits option.splits)
qed

lemma queue_owes_saved:
  assumes "queue_owes es None s" "Saving r st n f \<in> set (rq_tasks s)"
  shows "queue_owes es None (status_saved r st n f reply s)"
  using queue_owes_end [OF assms]
  by (simp add: status_saved_def Let_def toast_error_def queue_owes_toast queue_owes_closed queue_owes_fetch split: sum.split bool.split)

lemma queue_owes_settled:
  assumes "queue_owes es None s" "Acting a r h f \<in> set (rq_tasks s)"
  shows "queue_owes (es @ [ActionAnswered a r h f reply]) None (action_settled a r h f reply s)"
proof -
  let ?es = "es @ [ActionAnswered a r h f reply]" and ?s = "end_task (Acting a r h f) s"
  obtain ok m where result: "action_result a reply = (ok, m)" by (cases "action_result a reply")
  have ended: "queue_owes ?es (Some a) ?s" using queue_owes_mono [OF queue_owes_end [OF assms]] by simp
  have "task_sound es (Acting a r h f)" using assms by (auto simp: queue_owes_def list_all_iff)
  then have "task_sound ?es (Resolving a r h m f)" if prem: "ok"
    using prem result by (force simp: action_succeeded_def)
  with ended queue_owes_add [of ?es "Resolving a r h m f" ?s] queue_owes_done [OF queue_owes_toast [OF ended]] result show ?thesis
    by (simp add: action_settled_def Let_def)
qed

lemma queue_owes_resolved:
  assumes "queue_owes es None s" "Resolving a r h m f \<in> set (rq_tasks s)"
  shows "queue_owes es None (report_resolved a r h m f reply s)"
  using queue_owes_end [OF assms]
  by (simp add: report_resolved_def Let_def queue_owes_toast queue_owes_closed queue_owes_fetch queue_owes_failure split: sum.split bool.split)

lemma queue_owes_start:
  assumes "queue_owes es None s" "\<not> is_busy a s"
  shows "queue_owes es None (start_action a s)"
proof (cases "rq_selectedReport s")
  case (Some r)
  have "task_sound es (Acting a r (rq_hours s) (filters_of s))" if prem: "action_applies a r"
    using assms(1) Some prem by (simp add: queue_owes_def)
  with queue_owes_add [of es "Acting a r (rq_hours s) (filters_of s)" "set_busy a True s"] queue_owes_busy [OF assms] assms(1) Some
  show ?thesis by (simp add: start_action_def)
qed (use assms(1) in \<open>simp add: start_action_def\<close>)

lemma queue_owes_save:
  assumes "queue_owes es None s"
  shows "queue_owes es None (handleUpdateStatus s)"
proof (cases "rq_selectedReport s")
  case (Some r)
  then have "ReviewClicked r \<in> set es" using assms by (simp add: queue_owes_def)
  then show ?thesis using assms Some by (simp add: handleUpdateStatus_def queue_owes_add)
qed (use assms in \<open>simp add: handleUpdateStatus_def\<close>)

lemma default_hours: "U ''24'' \<in> set SUSPENSION_OPTIONS"
  by code_simp

lemma queue_step_ok:
  assumes "queue_owes es None s" "queue_allowed e s"
  shows "queue_owes (es @ [e]) None (queue_step e s)"
proof -
  have mono: "queue_owes (es @ [e]) None s" using queue_owes_mono [OF assms(1)] .
  have "queue_owes (es @ [e]) None (queue_handler e s)"
  proof (cases e)
    case (ReviewClicked r)
    then show ?thesis using mono is_busy_cong [of "openActionDialog r s" s]
      by (simp add: queue_owes_def openActionDialog_def default_hours)
  next
    case (HoursChosen h)
    then show ?thesis using mono assms(2) is_busy_cong [of "s\<lparr> rq_hours := h \<rparr>" s] by (simp add: queue_owes_def)
  next
    case SaveClicked
    with queue_owes_save [OF mono] show ?thesis by simp
  next
    case (ActionClicked a)
    with queue_owes_start [OF mono, of a] assms(2) show ?thesis
      by (cases a) (simp_all add: handleBlockUser_def handleBlockPost_def handleDeleteComment_def)
  next
    case (FetchAnswered f after reply)
    with queue_owes_fetched [OF mono] assms(2) show ?thesis by simp
  next
    case (SaveAnswered r st n f reply)
    with queue_owes_saved [OF mono] assms(2) show ?thesis by simp
  next
    case (ActionAnswered a r h f reply)
    with queue_owes_settled [OF assms(1)] assms(2) show ?thesis by simp
  next
    case (ResolutionAnswered a r h m f reply)
    with queue_owes_resolved [OF mono] assms(2) show ?thesis by simp
  qed (simp_all add: queue_owes_mono [OF assms(1)] queue_owes_frame [OF queue_owes_mono [OF assms(1)]] split: option.split)
  then show ?thesis unfolding queue_step_def by (rule queue_owes_rendered)
qed

lemma queue_run_ok: "queue_run es s \<Longrightarrow> queue_owes es None s"
proof (induction rule: queue_run.induct)
  case mounted
  have "is_busy a queue_mounted = False" for a by (cases a) (simp_all add: queue_mounted_def fetchReports_def add_task_def Let_def)
  then show ?case
    by (simp add: queue_owes_def queue_mounted_def fetchReports_def add_task_def Let_def default_hours handler_tasks_def)
qed (rule queue_step_ok)


section \<open>Properties\<close>

definition sample_report :: jval where
  "sample_report = Obj [(U ''reportID'', Num (Fin 5)), (U ''reportType'', Str (U ''LISTING'')), (U ''targetID'', Num (Fin 9)),
     (U ''targetUserID'', Num (Fin 3)), (U ''targetUserStatus'', Num (Fin 1)), (U ''status'', Num (Fin 0))]"

definition reports_answer :: "jval list \<Rightarrow> rat \<Rightarrow> thrown + api_response" where
  "reports_answer rs n = Inr (ApiOk (Obj [(U ''reports'', Arr rs), (U ''totalCount'', Num (Fin n))]))"

definition all_reports :: "int \<Rightarrow> queue_filters" where
  "all_reports n = \<lparr> qf_status = U ''all'', qf_type = U ''all'', qf_query = [], qf_page = n \<rparr>"

definition blocking_run :: "queue_event list" where
  \<comment> \<open>the listing is blocked, resolving the report fails\<close>
  "blocking_run =
     [FetchAnswered (all_reports 1) None (reports_answer [sample_report] 1), ReviewClicked sample_report,
      ActionClicked BlockListing, ActionAnswered BlockListing sample_report (U ''24'') (all_reports 1) (Inr (ApiOk Null))]"

text \<open>
  Claim C31.  Acting on reports.  Whatever is clicked and however the answers arrive, at most one suspension,
  one blocking and one deletion is under way, each exactly while its button is disabled; it is for a report
  that was opened for review and that it applies to, and a suspension is for one of the offered durations.
  A report is resolved by itself only after the server confirmed the action on that report's target, and
  when resolving it fails the dialog is closed, the message says so and the list is fetched again.
\<close>

theorem moderation_actions_sound:
  assumes "queue_run es s"
  shows "(\<forall>a. handler_tasks a (rq_tasks s) = (if is_busy a s then 1 else 0))
    \<and> (\<forall>a r h f. Acting a r h f \<in> set (rq_tasks s) \<longrightarrow>
         ReviewClicked r \<in> set es \<and> action_applies a r \<and> h \<in> set SUSPENSION_OPTIONS)
    \<and> (\<forall>a r h m f. Resolving a r h m f \<in> set (rq_tasks s) \<longrightarrow>
         ReviewClicked r \<in> set es \<and> action_applies a r \<and> action_succeeded es a r h
       \<and> (\<forall>reply. passed_success reply \<noteq> Inr True \<longrightarrow>
            (let s' = report_resolved a r h m f reply s in
             \<not> rq_dialogOpen s' \<and> Fetching f (Some a) \<in> set (rq_tasks s')
           \<and> last (rq_toasts s') = (False, Str (U (resolution_failure a))))))"
proof -
  have ok: "queue_owes es None s" by (rule queue_run_ok [OF assms])
  then have sound: "t \<in> set (rq_tasks s) \<Longrightarrow> task_sound es t" for t by (simp add: queue_owes_def list_all_iff)
  have failed: "\<not> rq_dialogOpen s' \<and> Fetching f (Some a) \<in> set (rq_tasks s') \<and> last (rq_toasts s') = (False, Str (U (resolution_failure a)))"
    if prem: "s' = handleReportActionFailure a True f u" for a f u s'
    unfolding prem by (simp add: handleReportActionFailure_def getReportActionFailureOutcome_def Let_def toast_def fetchReports_def add_task_def)
  have "report_resolved a r h m f reply s = handleReportActionFailure a True f (end_task (Resolving a r h m f) s)"
    if prem: "passed_success reply \<noteq> Inr True" for a r h m f reply
    using prem by (simp add: report_resolved_def Let_def split: sum.split bool.split)
  note failed [OF this]
  then show ?thesis using ok sound [of "Acting _ _ _ _"] sound [of "Resolving _ _ _ _ _"]
    by (simp add: queue_owes_def Let_def)
qed

theorem moderation_actions_sound_witness:
  "\<exists>s. queue_run blocking_run s \<and> rq_isBlockingPost s \<and> action_succeeded blocking_run BlockListing sample_report (U ''24'')"
proof -
  have "map_option (\<lambda>s. (rq_tasks s, rq_isBlockingPost s)) (queue_trace blocking_run queue_mounted)
      = Some ([Resolving BlockListing sample_report (U ''24'') Undef (all_reports 1)], True)"
    by code_simp
  then obtain s where s: "queue_trace blocking_run queue_mounted = Some s" "rq_isBlockingPost s"
      "rq_tasks s = [Resolving BlockListing sample_report (U ''24'') Undef (all_reports 1)]"
    by auto
  have run: "queue_run blocking_run s" using queue_trace_run [OF queue_run.mounted s(1)] by simp
  from moderation_actions_sound [OF this] s(3) have "action_succeeded blocking_run BlockListing sample_report (U ''24'')" by simp
  with run s(2) show ?thesis by blast
qed


subsection \<open>What the queue shows\<close>

definition list_shown :: "reports_queue \<Rightarrow> jval list \<times> int" where
  "list_shown s = (rq_reports s, rq_totalCount s)"

fun answered :: "queue_event \<Rightarrow> jval list \<times> int \<Rightarrow> jval list \<times> int" where
  "answered (FetchAnswered f after reply) shown =
     (case getReports reply of Inl _ \<Rightarrow> shown
      | Inr d \<Rightarrow> (case report_page d of None \<Rightarrow> shown | Some p \<Rightarrow> p))"
| "answered _ shown = shown"

lemma list_shown_frame [simp]:
  "list_shown (toast b m s) = list_shown s" "list_shown (toast_error e s) = list_shown s"
  "list_shown (add_task t s) = list_shown s" "list_shown (end_task t s) = list_shown s"
  "list_shown (s\<lparr> rq_dialogOpen := b \<rparr>) = list_shown s" "list_shown (s\<lparr> rq_isLoading := b \<rparr>) = list_shown s"
  "list_shown (s\<lparr> rq_fetchedFor := f \<rparr>) = list_shown s"
  by (simp_all add: list_shown_def toast_def toast_error_def add_task_def end_task_def)

lemma list_shown_busy [simp]: "list_shown (set_busy a b s) = list_shown s"
  by (cases a) (simp_all add: list_shown_def)

lemma list_shown_handlers [simp]:
  "list_shown (handler_done o' s) = list_shown s" "list_shown (fetchReports f after s) = list_shown s"
  "list_shown (queue_rendered s) = list_shown s" "list_shown (handleReportActionFailure a p f s) = list_shown s"
  "list_shown (start_action a s) = list_shown s" "list_shown (handleUpdateStatus s) = list_shown s"
  by (simp_all add: handler_done_def fetchReports_def queue_rendered_def handleReportActionFailure_def start_action_def
      handleUpdateStatus_def getReportActionFailureOutcome_def Let_def split: option.split)

lemma list_shown_settled [simp]:
  "list_shown (status_saved r st n f reply s) = list_shown s" "list_shown (action_settled a r h f reply s) = list_shown s"
  "list_shown (report_resolved a r h m f reply s) = list_shown s"
  by (simp_all add: status_saved_def action_settled_def report_resolved_def Let_def split: sum.split bool.split prod.split)

lemma list_shown_fetched:
  "list_shown (reports_fetched f after reply s) = answered (FetchAnswered f after reply) (list_shown s)"
proof -
  have "list_shown (u\<lparr> rq_reports := rs, rq_totalCount := n \<rparr>) = (rs, n)" for u rs n by (simp add: list_shown_def)
  then show ?thesis by (simp add: reports_fetched_def Let_def split: sum.split option.split)
qed

lemma list_shown_step: "list_shown (queue_step e s) = answered e (list_shown s)"
proof (cases e)
  case (ActionClicked a)
  then show ?thesis by (cases a) (simp_all add: queue_step_def handleBlockUser_def handleBlockPost_def handleDeleteComment_def)
qed (simp_all add: queue_step_def list_shown_fetched, simp_all add: list_shown_def openActionDialog_def split: option.split)

lemma list_shown_run: "queue_run es s \<Longrightarrow> list_shown s = fold answered es ([], 0)"
  by (induction rule: queue_run.induct)
    (simp_all add: list_shown_step, simp add: list_shown_def queue_mounted_def fetchReports_def add_task_def Let_def)

definition review_report :: jval where
  "review_report = Obj [(U ''reportID'', Num (Fin 6)), (U ''reportType'', Str (U ''REVIEW'')), (U ''targetID'', Num (Fin 4)),
     (U ''status'', Num (Fin 0))]"

definition status_filter :: "string \<Rightarrow> queue_filters" where
  "status_filter v = (all_reports 1)\<lparr> qf_status := U v \<rparr>"

definition overtaken_run :: "queue_event list" where
  \<comment> \<open>the answer for pending reports arrives after the one for resolved reports, chosen later\<close>
  "overtaken_run =
     [FetchAnswered (all_reports 1) None (reports_answer [sample_report, review_report] 2), StatusFiltered (U ''0''), StatusFiltered (U ''2''),
      FetchAnswered (status_filter ''2'') None (reports_answer [review_report] 1),
      FetchAnswered (status_filter ''0'') None (reports_answer [sample_report] 1)]"

definition emptied_page_run :: "queue_event list" where
  \<comment> \<open>the last report of the second page is dealt with\<close>
  "emptied_page_run =
     [FetchAnswered (all_reports 1) None (reports_answer [review_report] 26), NextPage,
      FetchAnswered (all_reports 2) None (reports_answer [sample_report] 26), ReviewClicked sample_report, SaveClicked,
      SaveAnswered sample_report (Num (Fin 0)) Undef (all_reports 2) (Inr (ApiOk Null)),
      FetchAnswered (all_reports 2) None (reports_answer [] 25)]"

definition other_dialog_run :: "queue_event list" where
  \<comment> \<open>the answer for one report arrives while another one is reviewed\<close>
  "other_dialog_run =
     [FetchAnswered (all_reports 1) None (reports_answer [sample_report, review_report] 2), ReviewClicked sample_report, SaveClicked,
      DialogClosed, ReviewClicked review_report, NotesTyped (U ''spam''),
      SaveAnswered sample_report (Num (Fin 0)) Undef (all_reports 1) (Inr (ApiOk Null))]"

lemma queue_sample:
  assumes "map_option q (queue_trace es queue_mounted) = Some v"
  obtains s where "queue_run es s" "q s = v"
  using assms queue_trace_run [OF queue_run.mounted, of es] by auto

lemma overtaken_list:
  "\<exists>s. queue_run overtaken_run s \<and> rq_tasks s = [] \<and> rq_statusFilter s = U ''2''
     \<and> fold answered (butlast overtaken_run) ([], 0) \<noteq> list_shown s"
proof -
  have "map_option (\<lambda>s. (rq_tasks s, rq_statusFilter s, rq_totalCount s, rq_reports s)) (queue_trace overtaken_run queue_mounted)
      = Some ([], U ''2'', 1, [sample_report])"
    by code_simp
  then obtain s where "queue_run overtaken_run s" "rq_tasks s = []" "rq_statusFilter s = U ''2''" "rq_reports s = [sample_report]"
    by (rule queue_sample) simp
  moreover have "fst (fold answered (butlast overtaken_run) ([], 0)) \<noteq> [sample_report]" by code_simp
  ultimately show ?thesis by (auto simp: list_shown_def)
qed

lemma emptied_page:
  "\<exists>s. queue_run emptied_page_run s \<and> rq_tasks s = [] \<and> rq_page s = 2 \<and> rq_totalCount s = 25 \<and> rq_reports s = []
     \<and> \<not> queue_allowed PreviousPage s"
proof -
  have "map_option (\<lambda>s. (rq_tasks s, rq_page s, rq_totalCount s, rq_reports s, queue_allowed PreviousPage s))
      (queue_trace emptied_page_run queue_mounted) = Some ([], 2, 25, [], False)"
    by code_simp
  then show ?thesis by (rule queue_sample) auto
qed

lemma other_dialog:
  "\<exists>s. queue_run other_dialog_run s \<and> rq_selectedReport s = Some review_report \<and> rq_notes s = U ''spam'' \<and> \<not> rq_dialogOpen s"
proof -
  have "map_option (\<lambda>s. (rq_selectedReport s, rq_notes s, rq_dialogOpen s)) (queue_trace other_dialog_run queue_mounted)
      = Some (Some review_report, U ''spam'', False)"
    by code_simp
  then show ?thesis by (rule queue_sample) auto
qed

text \<open>
   What the queue shows is the answer that arrived last, whatever filters it was asked for.  So an
  answer that is overtaken stays on the screen under filters it does not belong to; when the only report of
  the last page is dealt with, the page is empty and no control leads back to the page before; and the answer
  for one report closes the dialog in which another one is reviewed.
\<close>

theorem queue_shows_last_answer:
  assumes "queue_run es s"
  shows "(rq_reports s, rq_totalCount s) = fold answered es ([], 0)
    \<and> (\<exists>s'. queue_run overtaken_run s' \<and> rq_tasks s' = [] \<and> rq_statusFilter s' = U ''2''
         \<and> fold answered (butlast overtaken_run) ([], 0) \<noteq> (rq_reports s', rq_totalCount s'))
    \<and> (\<exists>s'. queue_run emptied_page_run s' \<and> rq_tasks s' = [] \<and> rq_page s' = 2 \<and> rq_totalCount s' = 25
         \<and> rq_reports s' = [] \<and> \<not> queue_allowed PreviousPage s')
    \<and> (\<exists>s'. queue_run other_dialog_run s' \<and> rq_selectedReport s' = Some review_report \<and> \<not> rq_dialogOpen s')"
  using list_shown_run [OF assms] overtaken_list emptied_page other_dialog unfolding list_shown_def by blast

theorem queue_shows_last_answer_witness:
  "\<exists>s. queue_run emptied_page_run s \<and> (rq_reports s, rq_totalCount s) = ([], 25)"
proof -
  obtain s where s: "queue_run emptied_page_run s" using emptied_page by blast
  have "fold answered emptied_page_run ([], 0) = ([], 25)" by code_simp
  with queue_shows_last_answer [OF s] s show ?thesis by metis
qed

end
