(* ===== verification/Comments.thy ===== *)
theory Comments
  imports AdminApi
begin

text \<open>
  Comments on a listing: payloads (\<open>services/api/schemas/commentsSchema.ts\<close>), endpoints
  (\<open>services/api/comments.ts\<close>), the section below a listing
  (\<open>features/post-details/components/PostCommentsSection.tsx\<close>) and one comment with its replies
  (\<open>CommentItem.tsx\<close>), without markup.  Handlers are cut at their awaits; a task keeps what its closure
  captured, the listing shown then and the number of the request.
\<close>

section \<open>commentsSchema.ts\<close>

definition parsePostComment :: "jsenv \<Rightarrow> jval \<Rightarrow> post_comment option" where
  "parsePostComment env v =
     (case asRecord v of
        None \<Rightarrow> None
      | Some r \<Rightarrow>
          let c = toIntegerOrDefault (flds r [''commentId'', ''commentID'', ''CommentID'']) 0 1;
              p = toIntegerOrDefault (flds r [''postId'', ''postID'', ''PostID'']) 0 1;
              u = toIntegerOrDefault (flds r [''userId'', ''userID'', ''UserID'']) 0 1
          in if c = 0 \<or> p = 0 \<or> u = 0 then None
             else (let parent = toIntegerOrDefault (flds r [''parentCommentId'', ''parentCommentID'', ''ParentCommentID'']) 0 1 in
               Some \<lparr> commentId = c, comment_id = or_else (readString (flds r [''id'', ''Id''])) (int_str c),
                 comment_postId = p, comment_userId = u, parentCommentId = (if parent = 0 then None else Some parent),
                 comment_content = readString (flds r [''content'', ''Content'']),
                 comment_createdAt = toIsoStringOrNow env (flds r [''createdAt'', ''CreatedAt'']),
                 comment_updatedAt = toIsoStringOrNow env (flds r [''updatedAt'', ''UpdatedAt'']),
                 authorName = or_else (readString (flds r [''authorName'', ''AuthorName''])) (U ''Unknown User''),
                 authorAvatar = (let a = readString (flds r [''authorAvatar'', ''AuthorAvatar'']) in if a = [] then None else Some a),
                 replyCount = toIntegerOrDefault (flds r [''replyCount'', ''ReplyCount'']) 0 0,
                 isEdited = toBoolean (flds r [''isEdited'', ''IsEdited'']) False \<rparr>))"

definition parsePostCommentsCollection :: "jsenv \<Rightarrow> jval \<Rightarrow> post_comment list" where
  "parsePostCommentsCollection env v = (case v of Arr vs \<Rightarrow> List.map_filter (parsePostComment env) vs | _ \<Rightarrow> [])"

record comment_list =
  cl_comments :: "post_comment list"
  cl_totalCount :: int
  cl_page :: int
  cl_pageSize :: int

definition parseCommentListResponse :: "jsenv \<Rightarrow> jval \<Rightarrow> comment_list option" where
  "parseCommentListResponse env v =
     (case asRecord v of
        None \<Rightarrow> None
      | Some r \<Rightarrow>
          let comments = parsePostCommentsCollection env (flds r [''comments'', ''Comments'']); n = int (length comments) in
          Some \<lparr> cl_comments = comments, cl_totalCount = toIntegerOrDefault (flds r [''totalCount'', ''TotalCount'']) n 0,
            cl_page = toIntegerOrDefault (flds r [''page'', ''Page'']) 1 1,
            cl_pageSize = toIntegerOrDefault (flds r [''pageSize'', ''PageSize'']) (if n = 0 then 20 else n) 1 \<rparr>)"

section \<open>comments.ts\<close>

type_synonym 'a api_reply = "thrown + (api_error + 'a)"
  \<comment> \<open>what a call throws, its \<open>error\<close> or its \<open>data\<close>\<close>

definition parsed_reply :: "(jval \<Rightarrow> 'a option) \<Rightarrow> string \<Rightarrow> string \<Rightarrow> thrown + api_response \<Rightarrow> 'a api_reply" where
  "parsed_reply parse code message reply =
     (case reply of
        Inl e \<Rightarrow> Inl e
      | Inr (ApiErr e) \<Rightarrow> Inr (Inl e)
      | Inr (ApiOk d) \<Rightarrow>
          (case parse d of None \<Rightarrow> Inr (Inl \<lparr> err_code = U code, err_message = U message, err_details = Undef \<rparr>)
           | Some v \<Rightarrow> Inr (Inr v)))"

definition comments_path :: "ustr \<Rightarrow> ustr" where
  "comments_path p = U ''/posts/'' @ p @ U ''/comments''"

definition getComments_request :: "ustr \<Rightarrow> int \<Rightarrow> int \<Rightarrow> admin_request" where
  "getComments_request p n limit = (admin_call ''GET'' (comments_path p))
     \<lparr> rq_params := [(U ''page'', int_str n), (U ''limit'', int_str limit)] \<rparr>"

definition getComments :: "jsenv \<Rightarrow> thrown + api_response \<Rightarrow> comment_list api_reply" where
  "getComments env = parsed_reply (parseCommentListResponse env) ''INVALID_COMMENT_LIST'' ''Invalid comments response''"

definition getReplies_request :: "ustr \<Rightarrow> int \<Rightarrow> int \<Rightarrow> int \<Rightarrow> admin_request" where
  "getReplies_request p c n limit = (admin_call ''GET'' (comments_path p @ U ''/'' @ int_str c @ U ''/replies''))
     \<lparr> rq_params := [(U ''page'', int_str n), (U ''limit'', int_str limit)] \<rparr>"

definition getReplies :: "jsenv \<Rightarrow> thrown + api_response \<Rightarrow> comment_list api_reply" where
  "getReplies env = parsed_reply (parseCommentListResponse env) ''INVALID_COMMENT_LIST'' ''Invalid replies response''"

definition addComment_request :: "ustr \<Rightarrow> ustr \<Rightarrow> int option \<Rightarrow> admin_request" where
  "addComment_request p txt parent = (admin_call ''POST'' (comments_path p))
     \<lparr> rq_body := Some (Obj [(U ''Content'', Str txt),
         (U ''ParentCommentId'', case parent of None \<Rightarrow> Undef | Some c \<Rightarrow> Num (Fin (of_int c)))]) \<rparr>"

definition addComment :: "jsenv \<Rightarrow> thrown + api_response \<Rightarrow> post_comment api_reply" where
  "addComment env = parsed_reply (parsePostComment env) ''INVALID_COMMENT'' ''Invalid comment response''"

definition updateComment_request :: "ustr \<Rightarrow> int \<Rightarrow> ustr \<Rightarrow> admin_request" where
  "updateComment_request p c txt = (admin_call ''PUT'' (comments_path p @ U ''/'' @ int_str c))
     \<lparr> rq_body := Some (Obj [(U ''Content'', Str txt)]) \<rparr>"

definition updateComment :: "jsenv \<Rightarrow> thrown + api_response \<Rightarrow> post_comment api_reply" where
  "updateComment env = parsed_reply (parsePostComment env) ''INVALID_COMMENT'' ''Invalid comment response''"

definition deleteComment_request :: "ustr \<Rightarrow> int \<Rightarrow> admin_request" where
  "deleteComment_request p c = admin_call ''DELETE'' (comments_path p @ U ''/'' @ int_str c)"

section \<open>PostCommentsSection.tsx\<close>

datatype comments_task =
    PageLoad ustr nat int bool          \<comment> \<open>listing, run, page and whether \<open>loadMore\<close> awaits it\<close>
  | CommentPost ustr ustr               \<comment> \<open>listing and text\<close>
  | CommentDeletion ustr int
  | CommentChange ustr int ustr

record comments_section =
  cs_post :: ustr                 \<comment> \<open>the listing shown, also \<open>activePostIdRef\<close>\<close>
  cs_run :: nat                   \<comment> \<open>\<open>commentsRequestRunIdRef\<close>\<close>
  cs_moreInFlight :: bool         \<comment> \<open>\<open>loadMoreInFlightRef\<close>\<close>
  cs_comments :: "post_comment list"
  cs_totalCount :: int
  cs_loading :: bool
  cs_submitting :: bool
  cs_newComment :: ustr
  cs_page :: int
  cs_hasMore :: bool
  cs_loadingMore :: bool
  cs_tasks :: "comments_task list"

definition comments_task_added :: "comments_task \<Rightarrow> comments_section \<Rightarrow> comments_section" where
  "comments_task_added t s = s\<lparr> cs_tasks := cs_tasks s @ [t] \<rparr>"

definition comments_task_ended :: "comments_task \<Rightarrow> comments_section \<Rightarrow> comments_section" where
  "comments_task_ended t s = s\<lparr> cs_tasks := remove1 t (cs_tasks s) \<rparr>"

definition fetchComments :: "int \<Rightarrow> bool \<Rightarrow> comments_section \<Rightarrow> comments_section" where
  "fetchComments n appending s =
     comments_task_added (PageLoad (cs_post s) (cs_run s + 1) n appending) (s\<lparr> cs_run := cs_run s + 1 \<rparr>)"

definition page_received :: "int \<Rightarrow> bool \<Rightarrow> comment_list \<Rightarrow> comments_section \<Rightarrow> comments_section" where
  "page_received n appending d s =
     s\<lparr> cs_comments := (if appending then cs_comments s @ cl_comments d else cl_comments d),
        cs_totalCount := cl_totalCount d,
        cs_hasMore := (length (cl_comments d) = 20 \<and> n * 20 < cl_totalCount d) \<rparr>"

definition comments_fetched ::
    "ustr \<Rightarrow> nat \<Rightarrow> int \<Rightarrow> bool \<Rightarrow> comment_list api_reply \<Rightarrow> comments_section \<Rightarrow> comments_section" where
  \<comment> \<open>the rest of \<open>fetchComments\<close> and, when it awaits it, of \<open>loadMore\<close>\<close>
  "comments_fetched p run n appending reply s0 =
     (let s = comments_task_ended (PageLoad p run n appending) s0;
          current = (run = cs_run s \<and> cs_post s = p);
          s1 = (if \<not> current then s
                else (case reply of Inr (Inr d) \<Rightarrow> page_received n appending d s | _ \<Rightarrow> s)\<lparr> cs_loading := False \<rparr>);
          loaded = (current \<and> (case reply of Inr (Inr d) \<Rightarrow> True | _ \<Rightarrow> False))
      in if \<not> appending then s1
         else (let s2 = (if loaded then s1\<lparr> cs_page := n \<rparr> else s1) in
           if cs_post s = p then s2\<lparr> cs_moreInFlight := False, cs_loadingMore := False \<rparr> else s2))"

definition post_opened :: "ustr \<Rightarrow> comments_section \<Rightarrow> comments_section" where
  \<comment> \<open>the clean-up and the effect on the listing\<close>
  "post_opened p s =
     fetchComments 1 False
       (s\<lparr> cs_post := p, cs_run := cs_run s + 2, cs_comments := [], cs_totalCount := 0, cs_loading := True,
           cs_submitting := False, cs_newComment := [], cs_page := 1, cs_hasMore := False, cs_loadingMore := False,
           cs_moreInFlight := False \<rparr>)"

definition new_section :: comments_section where
  "new_section = \<lparr> cs_post = [], cs_run = 0, cs_moreInFlight = False, cs_comments = [], cs_totalCount = 0,
     cs_loading = True, cs_submitting = False, cs_newComment = [], cs_page = 1, cs_hasMore = False,
     cs_loadingMore = False, cs_tasks = [] \<rparr>"

definition section_mounted :: "ustr \<Rightarrow> comments_section" where
  "section_mounted p = post_opened p new_section"

definition handleAddComment :: "comments_section \<Rightarrow> comments_section" where
  "handleAddComment s =
     (if trim (cs_newComment s) = [] then s
      else comments_task_added (CommentPost (cs_post s) (cs_newComment s)) (s\<lparr> cs_submitting := True \<rparr>))"

definition comment_added :: "ustr \<Rightarrow> ustr \<Rightarrow> post_comment api_reply \<Rightarrow> comments_section \<Rightarrow> comments_section" where
  "comment_added p txt reply s0 =
     (let s = comments_task_ended (CommentPost p txt) s0 in
      if cs_post s \<noteq> p then s
      else (case reply of
              Inr (Inr c) \<Rightarrow> s\<lparr> cs_newComment := [], cs_page := 1, cs_comments := c # cs_comments s,
                                cs_totalCount := cs_totalCount s + 1 \<rparr>
            | _ \<Rightarrow> s)\<lparr> cs_submitting := False \<rparr>)"

definition handleDeleteComment :: "int \<Rightarrow> comments_section \<Rightarrow> comments_section" where
  "handleDeleteComment c s = comments_task_added (CommentDeletion (cs_post s) c) s"

definition comment_deleted :: "ustr \<Rightarrow> int \<Rightarrow> thrown + api_response \<Rightarrow> comments_section \<Rightarrow> bool \<times> comments_section" where
  \<comment> \<open>with the result of the handler\<close>
  "comment_deleted p c reply s0 =
     (let s = comments_task_ended (CommentDeletion p c) s0 in
      if cs_post s \<noteq> p then (False, s)
      else (case reply of
              Inr (ApiOk _) \<Rightarrow> (True, s\<lparr> cs_comments := filter (\<lambda>x. commentId x \<noteq> c) (cs_comments s),
                                         cs_totalCount := cs_totalCount s - 1 \<rparr>)
            | _ \<Rightarrow> (False, s)))"

definition handleUpdateComment :: "int \<Rightarrow> ustr \<Rightarrow> comments_section \<Rightarrow> comments_section" where
  "handleUpdateComment c txt s = comments_task_added (CommentChange (cs_post s) c txt) s"

definition with_content :: "jsenv \<Rightarrow> int \<Rightarrow> ustr \<Rightarrow> post_comment list \<Rightarrow> post_comment list" where
  "with_content env c txt cs =
     map (\<lambda>x. if commentId x = c
              then x\<lparr> comment_content := txt, isEdited := True, comment_updatedAt := iso_string env (now_ms env) \<rparr>
              else x) cs"

definition comment_updated ::
    "jsenv \<Rightarrow> ustr \<Rightarrow> int \<Rightarrow> ustr \<Rightarrow> post_comment api_reply \<Rightarrow> comments_section \<Rightarrow> bool \<times> comments_section" where
  "comment_updated env p c txt reply s0 =
     (let s = comments_task_ended (CommentChange p c txt) s0 in
      if cs_post s \<noteq> p then (False, s)
      else (case reply of
              Inr (Inr _) \<Rightarrow> (True, s\<lparr> cs_comments := with_content env c txt (cs_comments s) \<rparr>)
            | _ \<Rightarrow> (False, s)))"

definition loadMore :: "comments_section \<Rightarrow> comments_section" where
  "loadMore s =
     (if cs_moreInFlight s \<or> \<not> cs_hasMore s then s
      else fetchComments (cs_page s + 1) True (s\<lparr> cs_moreInFlight := True, cs_loadingMore := True \<rparr>))"

section \<open>CommentItem.tsx\<close>

record comment_viewer =
  cv_id :: ustr
  cv_admin :: bool

definition canEdit :: "comment_viewer option \<Rightarrow> post_comment \<Rightarrow> bool" where
  "canEdit v c \<longleftrightarrow> (case v of None \<Rightarrow> False | Some u \<Rightarrow> cv_id u = int_str (comment_userId c))"

definition canDelete :: "comment_viewer option \<Rightarrow> ustr option \<Rightarrow> post_comment \<Rightarrow> bool" where
  "canDelete v postOwnerId c \<longleftrightarrow>
     (case v of None \<Rightarrow> False
      | Some u \<Rightarrow> cv_id u = int_str (comment_userId c) \<or> Some (cv_id u) = postOwnerId \<or> cv_admin u)"

definition canReport :: "comment_viewer option \<Rightarrow> post_comment \<Rightarrow> bool" where
  "canReport v c \<longleftrightarrow> (case v of None \<Rightarrow> True | Some u \<Rightarrow> cv_id u \<noteq> int_str (comment_userId c))"

datatype item_task =
    RepliesLoad bool               \<comment> \<open>\<open>showReplies\<close> of the closure\<close>
  | ReplyPost ustr bool int        \<comment> \<open>text, \<open>showReplies\<close> and \<open>replyCount\<close> of the closure\<close>

record comment_item =
  it_showReplyForm :: bool
  it_replyContent :: ustr
  it_showReplies :: bool
  it_replies :: "post_comment list"
  it_replyCount :: int
  it_loadingReplies :: bool
  it_isEditing :: bool
  it_editContent :: ustr
  it_submittingReply :: bool
  it_tasks :: "item_task list"

definition new_item :: "post_comment \<Rightarrow> comment_item" where
  "new_item c = \<lparr> it_showReplyForm = False, it_replyContent = [], it_showReplies = False, it_replies = [],
     it_replyCount = replyCount c, it_loadingReplies = False, it_isEditing = False, it_editContent = comment_content c,
     it_submittingReply = False, it_tasks = [] \<rparr>"

definition handleToggleReplies :: "comment_item \<Rightarrow> comment_item" where
  "handleToggleReplies s =
     (if \<not> it_showReplies s \<and> it_replies s = [] \<and> it_replyCount s > 0
      then s\<lparr> it_loadingReplies := True, it_tasks := it_tasks s @ [RepliesLoad (it_showReplies s)] \<rparr>
      else s\<lparr> it_showReplies := \<not> it_showReplies s \<rparr>)"

definition replies_loaded :: "bool \<Rightarrow> comment_list api_reply \<Rightarrow> comment_item \<Rightarrow> comment_item" where
  "replies_loaded shown reply s =
     s\<lparr> it_tasks := remove1 (RepliesLoad shown) (it_tasks s),
        it_replies := (case reply of Inr (Inr d) \<Rightarrow> cl_comments d | _ \<Rightarrow> it_replies s),
        it_loadingReplies := False, it_showReplies := \<not> shown \<rparr>"

definition handleReplySubmit :: "comment_item \<Rightarrow> comment_item" where
  "handleReplySubmit s =
     (if trim (it_replyContent s) = [] then s
      else s\<lparr> it_submittingReply := True,
              it_tasks := it_tasks s @ [ReplyPost (it_replyContent s) (it_showReplies s) (it_replyCount s)] \<rparr>)"

definition reply_posted :: "ustr \<Rightarrow> bool \<Rightarrow> int \<Rightarrow> post_comment api_reply \<Rightarrow> comment_item \<Rightarrow> comment_item" where
  "reply_posted txt shown n reply s0 =
     (let s = s0\<lparr> it_tasks := remove1 (ReplyPost txt shown n) (it_tasks s0), it_submittingReply := False \<rparr> in
      case reply of
        Inr (Inr c) \<Rightarrow>
          (let s = s\<lparr> it_replyContent := [], it_showReplyForm := False, it_replyCount := it_replyCount s + 1 \<rparr> in
           if shown then s\<lparr> it_replies := it_replies s @ [c] \<rparr>
           else if n = 0 then s\<lparr> it_replies := [c], it_showReplies := True \<rparr> else s)
      | _ \<Rightarrow> s)"

definition reply_deleted :: "int \<Rightarrow> bool \<Rightarrow> comment_item \<Rightarrow> comment_item" where
  \<comment> \<open>\<open>handleDeleteReply\<close> after the section's handler has answered\<close>
  "reply_deleted c ok s =
     (if ok then s\<lparr> it_replies := filter (\<lambda>x. commentId x \<noteq> c) (it_replies s), it_replyCount := max 0 (it_replyCount s - 1) \<rparr>
      else s)"

definition reply_updated :: "jsenv \<Rightarrow> int \<Rightarrow> ustr \<Rightarrow> bool \<Rightarrow> comment_item \<Rightarrow> comment_item" where
  "reply_updated env c txt ok s = (if ok then s\<lparr> it_replies := with_content env c txt (it_replies s) \<rparr> else s)"

definition edit_saved :: "bool \<Rightarrow> comment_item \<Rightarrow> comment_item" where
  "edit_saved ok s = (if ok then s\<lparr> it_isEditing := False \<rparr> else s)"

definition edit_requested :: "comment_item \<Rightarrow> ustr option" where
  \<comment> \<open>the text \<open>handleSaveEdit\<close> hands to the section\<close>
  "edit_requested s = (if trim (it_editContent s) = [] then None else Some (it_editContent s))"


section \<open>Runs of the section\<close>

datatype section_event =
    PostOpened ustr
  | CommentTyped ustr
  | CommentSubmitted
  | DeleteAsked int                     \<comment> \<open>of a comment or a reply\<close>
  | UpdateAsked int ustr
  | MoreAsked
  | PageAnswered ustr nat int bool "comment_list api_reply"
  | PostAnswered ustr ustr "post_comment api_reply"
  | DeleteAnswered ustr int "thrown + api_response"
  | UpdateAnswered ustr int ustr "post_comment api_reply"

fun section_allowed :: "section_event \<Rightarrow> comments_section \<Rightarrow> bool" where
  \<comment> \<open>the buttons not disabled and the tasks under way\<close>
  "section_allowed (PostOpened p) s \<longleftrightarrow> p \<noteq> cs_post s"
| "section_allowed (CommentTyped _) s \<longleftrightarrow> True"
| "section_allowed CommentSubmitted s \<longleftrightarrow> \<not> cs_submitting s \<and> trim (cs_newComment s) \<noteq> []"
| "section_allowed (DeleteAsked _) s \<longleftrightarrow> True"
| "section_allowed (UpdateAsked _ _) s \<longleftrightarrow> True"
| "section_allowed MoreAsked s \<longleftrightarrow> cs_hasMore s \<and> \<not> cs_loadingMore s"
| "section_allowed (PageAnswered p r n a _) s \<longleftrightarrow> PageLoad p r n a \<in> set (cs_tasks s)"
| "section_allowed (PostAnswered p t _) s \<longleftrightarrow> CommentPost p t \<in> set (cs_tasks s)"
| "section_allowed (DeleteAnswered p c _) s \<longleftrightarrow> CommentDeletion p c \<in> set (cs_tasks s)"
| "section_allowed (UpdateAnswered p c t _) s \<longleftrightarrow> CommentChange p c t \<in> set (cs_tasks s)"

fun section_handler :: "jsenv \<Rightarrow> section_event \<Rightarrow> comments_section \<Rightarrow> comments_section" where
  "section_handler env (PostOpened p) s = post_opened p s"
| "section_handler env (CommentTyped v) s = s\<lparr> cs_newComment := v \<rparr>"
| "section_handler env CommentSubmitted s = handleAddComment s"
| "section_handler env (DeleteAsked c) s = handleDeleteComment c s"
| "section_handler env (UpdateAsked c t) s = handleUpdateComment c t s"
| "section_handler env MoreAsked s = loadMore s"
| "section_handler env (PageAnswered p r n a reply) s = comments_fetched p r n a reply s"
| "section_handler env (PostAnswered p t reply) s = comment_added p t reply s"
| "section_handler env (DeleteAnswered p c reply) s = snd (comment_deleted p c reply s)"
| "section_handler env (UpdateAnswered p c t reply) s = snd (comment_updated env p c t reply s)"

inductive section_run :: "jsenv \<Rightarrow> section_event list \<Rightarrow> comments_section \<Rightarrow> bool" for env where
  mounted: "section_run env [] (section_mounted p)"
| step: "section_run env es s \<Longrightarrow> section_allowed e s \<Longrightarrow> section_run env (es @ [e]) (section_handler env e s)"

fun section_trace :: "jsenv \<Rightarrow> section_event list \<Rightarrow> comments_section \<Rightarrow> comments_section option" where
  "section_trace env [] s = Some s"
| "section_trace env (e # es) s = (if section_allowed e s then section_trace env es (section_handler env e s) else None)"

lemma section_trace_run:
  "section_run env es s \<Longrightarrow> section_trace env es' s = Some s' \<Longrightarrow> section_run env (es @ es') s'"
proof (induction es' arbitrary: es s)
  case (Cons e es')
  then have "section_run env (es @ [e]) (section_handler env e s)" "section_trace env es' (section_handler env e s) = Some s'"
    by (auto split: if_splits intro: section_run.step)
  from Cons.IH [OF this] show ?case by simp
qed simp

subsection \<open>Comments of the listing shown\<close>

definition brought :: "section_event list \<Rightarrow> ustr \<Rightarrow> post_comment \<Rightarrow> bool" where
  "brought es p c \<longleftrightarrow>
     (\<exists>r n a d. PageAnswered p r n a (Inr (Inr d)) \<in> set es \<and> c \<in> set (cl_comments d))
   \<or> (\<exists>t. PostAnswered p t (Inr (Inr c)) \<in> set es)"

definition comment_from :: "section_event list \<Rightarrow> ustr \<Rightarrow> post_comment \<Rightarrow> bool" where
  "comment_from es p c \<longleftrightarrow>
     (\<exists>c0. brought es p c0 \<and> commentId c = commentId c0 \<and> comment_userId c = comment_userId c0
        \<and> (comment_content c = comment_content c0
           \<or> (\<exists>r. UpdateAnswered p (commentId c) (comment_content c) (Inr (Inr r)) \<in> set es)))"

fun comments_task_ok :: "comments_section \<Rightarrow> comments_task \<Rightarrow> bool" where
  "comments_task_ok s (PageLoad p r n a) \<longleftrightarrow> r \<le> cs_run s \<and> 1 \<le> n \<and> (r = cs_run s \<longrightarrow> p = cs_post s)"
| "comments_task_ok s (CommentPost p t) \<longleftrightarrow> trim t \<noteq> []"
| "comments_task_ok s _ \<longleftrightarrow> True"

definition loads_ok :: "comments_section \<Rightarrow> bool" where
  "loads_ok s \<longleftrightarrow>
     list_all (comments_task_ok s) (cs_tasks s) \<and> 1 \<le> cs_page s
   \<and> (cs_moreInFlight s \<longleftrightarrow> cs_loadingMore s)
   \<and> (cs_loading s \<longrightarrow> PageLoad (cs_post s) (cs_run s) 1 False \<in> set (cs_tasks s) \<and> \<not> cs_hasMore s \<and> \<not> cs_loadingMore s)
   \<and> (cs_loadingMore s \<longrightarrow> (\<exists>n. PageLoad (cs_post s) (cs_run s) n True \<in> set (cs_tasks s)))"

definition shown_ok :: "section_event list \<Rightarrow> comments_section \<Rightarrow> bool" where
  "shown_ok es s \<longleftrightarrow> (\<forall>c \<in> set (cs_comments s). comment_from es (cs_post s) c)"

lemma comment_from_mono: "comment_from es p c \<Longrightarrow> comment_from (es @ es') p c"
  unfolding comment_from_def brought_def by (metis Un_iff set_append)

lemma brought_from: "brought es p c \<Longrightarrow> comment_from es p c"
  by (auto simp: comment_from_def)

lemma comment_from_changed:
  assumes "comment_from es p c" "commentId c = i"
  shows "comment_from (es @ [UpdateAnswered p i t (Inr (Inr r))]) p
    (c\<lparr> comment_content := t, isEdited := True, comment_updatedAt := d \<rparr>)"
proof -
  obtain c0 where c0: "brought es p c0" "commentId c = commentId c0" "comment_userId c = comment_userId c0"
    using assms(1) by (auto simp: comment_from_def)
  then have "brought (es @ [UpdateAnswered p i t (Inr (Inr r))]) p c0" by (auto simp: brought_def)
  then show ?thesis using c0 assms(2) unfolding comment_from_def
    by (intro exI [of _ c0] conjI disjI2 exI [of _ r]) simp_all
qed

lemma shown_ok_mono: "shown_ok es s \<Longrightarrow> shown_ok (es @ es') s"
  by (simp add: shown_ok_def comment_from_mono)

lemma shown_fetched:
  assumes "shown_ok es s"
  shows "shown_ok (es @ [PageAnswered p r n a reply]) (comments_fetched p r n a reply s)"
proof -
  have "comment_from (es @ [PageAnswered p r n a (Inr (Inr d))]) p c" if prem: "c \<in> set (cl_comments d)" for c d
    using prem by (intro brought_from) (auto simp: brought_def)
  with shown_ok_mono [OF assms, of "[PageAnswered p r n a reply]"] show ?thesis
    by (auto simp: shown_ok_def comments_fetched_def comments_task_ended_def page_received_def Let_def split: sum.splits)
qed

lemma shown_added:
  assumes "shown_ok es s"
  shows "shown_ok (es @ [PostAnswered p t reply]) (comment_added p t reply s)"
proof -
  have "comment_from (es @ [PostAnswered p t (Inr (Inr c))]) p c" for c
    by (intro brought_from) (auto simp: brought_def)
  with shown_ok_mono [OF assms, of "[PostAnswered p t reply]"] show ?thesis
    by (auto simp: shown_ok_def comment_added_def comments_task_ended_def Let_def split: sum.splits)
qed

lemma shown_updated:
  assumes "shown_ok es s"
  shows "shown_ok (es @ [UpdateAnswered p c t reply]) (snd (comment_updated env p c t reply s))"
  using shown_ok_mono [OF assms, of "[UpdateAnswered p c t reply]"] assms
  by (auto simp: shown_ok_def comment_updated_def comments_task_ended_def with_content_def comment_from_changed Let_def
      split: sum.splits)

lemma shown_deleted: "shown_ok es s \<Longrightarrow> shown_ok (es @ es') (snd (comment_deleted p c reply s))"
  using shown_ok_mono [of es s es']
  by (auto simp: shown_ok_def comment_deleted_def comments_task_ended_def Let_def split: sum.splits api_response.splits)

lemma shown_step: "shown_ok es s \<Longrightarrow> shown_ok (es @ [e]) (section_handler env e s)"
  using shown_ok_mono [of es s "[e]"]
  by (cases e)
    (auto simp: shown_fetched shown_added shown_updated shown_deleted,
     auto simp: shown_ok_def post_opened_def fetchComments_def comments_task_added_def handleAddComment_def
      handleDeleteComment_def handleUpdateComment_def loadMore_def)


subsection \<open>Requests under way\<close>

lemma task_ok_cong:
  assumes "cs_run s' = cs_run s" "cs_post s' = cs_post s"
  shows "comments_task_ok s' = comments_task_ok s"
proof
  fix t show "comments_task_ok s' t = comments_task_ok s t" using assms by (cases t) simp_all
qed

lemma loads_frame:
  assumes "loads_ok s" "cs_tasks s' = cs_tasks s" "cs_run s' = cs_run s" "cs_post s' = cs_post s"
    "cs_page s' = cs_page s \<or> cs_page s' = 1" "cs_moreInFlight s' = cs_moreInFlight s" "cs_loadingMore s' = cs_loadingMore s" "cs_loading s' = cs_loading s"
    "cs_hasMore s' = cs_hasMore s"
  shows "loads_ok s'"
  using assms task_ok_cong [of s' s] by (auto simp: loads_ok_def)


lemma task_ok_later: "comments_task_ok s t \<Longrightarrow> cs_run s < cs_run s' \<Longrightarrow> comments_task_ok s' t"
  by (cases t) auto

lemma loads_added:
  assumes "loads_ok s" "comments_task_ok s t"
  shows "loads_ok (comments_task_added t s)"
  using assms task_ok_cong [of "comments_task_added t s" s]
  by (auto simp: loads_ok_def comments_task_added_def)

lemma loads_ended:
  assumes "loads_ok s" "\<And>p r n a. t \<noteq> PageLoad p r n a"
  shows "loads_ok (comments_task_ended t s)"
proof -
  have keep: "PageLoad p r n a \<in> set (remove1 t (cs_tasks s)) \<longleftrightarrow> PageLoad p r n a \<in> set (cs_tasks s)" for p r n a
    using assms(2) by (metis in_set_remove1)
  show ?thesis using assms(1) task_ok_cong [of "comments_task_ended t s" s]
    by (auto simp: loads_ok_def comments_task_ended_def keep list_all_iff dest: notin_set_remove1)
qed

lemma loads_fetch:
  assumes "list_all (comments_task_ok s) (cs_tasks s)" "1 \<le> cs_page s" "1 \<le> n" "cs_moreInFlight s = cs_loadingMore s"
    "appending \<Longrightarrow> cs_loadingMore s \<and> \<not> cs_loading s" "\<not> appending \<Longrightarrow> n = 1 \<and> \<not> cs_loadingMore s \<and> \<not> cs_hasMore s"
  shows "loads_ok (fetchComments n appending s)"
proof -
  let ?s = "fetchComments n appending s"
  have run: "cs_run ?s = cs_run s + 1" "cs_post ?s = cs_post s" "cs_tasks ?s = cs_tasks s @ [PageLoad (cs_post s) (cs_run s + 1) n appending]"
    by (simp_all add: fetchComments_def comments_task_added_def)
  have "list_all (comments_task_ok ?s) (cs_tasks s)"
    using assms(1) task_ok_later [of s _ ?s] run by (auto simp: list_all_iff)
  then show ?thesis using assms run by (auto simp: loads_ok_def fetchComments_def comments_task_added_def)
qed

lemma loads_opened:
  assumes "list_all (comments_task_ok s) (cs_tasks s)"
  shows "loads_ok (post_opened p s)"
proof -
  let ?s = "s\<lparr> cs_post := p, cs_run := cs_run s + 2, cs_comments := [], cs_totalCount := 0, cs_loading := True,
    cs_submitting := False, cs_newComment := [], cs_page := 1, cs_hasMore := False, cs_loadingMore := False,
    cs_moreInFlight := False \<rparr>"
  have "list_all (comments_task_ok ?s) (cs_tasks s)"
    using assms task_ok_later [of s _ ?s] by (auto simp: list_all_iff)
  then show ?thesis unfolding post_opened_def by (intro loads_fetch) simp_all
qed

lemma fetched_frame:
  "cs_run (comments_fetched p r n a reply s) = cs_run s" "cs_post (comments_fetched p r n a reply s) = cs_post s"
  "cs_tasks (comments_fetched p r n a reply s) = remove1 (PageLoad p r n a) (cs_tasks s)"
  "cs_page (comments_fetched p r n a reply s) \<in> {n, cs_page s}"
  "cs_moreInFlight (comments_fetched p r n a reply s) = (if a \<and> cs_post s = p then False else cs_moreInFlight s)"
  "cs_loadingMore (comments_fetched p r n a reply s) = (if a \<and> cs_post s = p then False else cs_loadingMore s)"
  "cs_loading (comments_fetched p r n a reply s) = (if r = cs_run s \<and> cs_post s = p then False else cs_loading s)"
  "r \<noteq> cs_run s \<Longrightarrow> cs_hasMore (comments_fetched p r n a reply s) = cs_hasMore s"
  by (simp_all add: comments_fetched_def comments_task_ended_def page_received_def Let_def split: sum.split)

lemma loads_fetched:
  assumes "loads_ok s" "PageLoad p r n a \<in> set (cs_tasks s)"
  shows "loads_ok (comments_fetched p r n a reply s)"
proof -
  let ?t = "PageLoad p r n a" and ?s = "comments_fetched p r n a reply s"
  have task: "comments_task_ok s ?t" using assms by (auto simp: loads_ok_def list_all_iff)
  have kept: "t \<noteq> ?t \<Longrightarrow> t \<in> set (cs_tasks s) \<Longrightarrow> t \<in> set (cs_tasks ?s)" for t by (simp add: fetched_frame)
  have "list_all (comments_task_ok ?s) (cs_tasks ?s)"
    using assms(1) task_ok_cong [of ?s s] fetched_frame(1,2) by (auto simp: fetched_frame(3) loads_ok_def list_all_iff dest: notin_set_remove1)
  moreover have "1 \<le> cs_page ?s" using assms(1) task fetched_frame(4) [of p r n a reply s] by (auto simp: loads_ok_def)
  moreover have "cs_loading ?s \<longrightarrow> PageLoad (cs_post s) (cs_run s) 1 False \<in> set (cs_tasks ?s) \<and> \<not> cs_hasMore ?s \<and> \<not> cs_loadingMore ?s"
  proof
    assume loading: "cs_loading ?s"
    then have run: "r \<noteq> cs_run s" and "cs_loading s" using task by (auto simp: fetched_frame(7) split: if_splits)
    then have first: "PageLoad (cs_post s) (cs_run s) 1 False \<in> set (cs_tasks s)" "\<not> cs_hasMore s" "\<not> cs_loadingMore s"
      using assms(1) by (auto simp: loads_ok_def)
    have "PageLoad (cs_post s) (cs_run s) 1 False \<noteq> ?t" using run by simp
    from kept [OF this first(1)] first(2,3) run
    show "PageLoad (cs_post s) (cs_run s) 1 False \<in> set (cs_tasks ?s) \<and> \<not> cs_hasMore ?s \<and> \<not> cs_loadingMore ?s"
      by (simp add: fetched_frame(6,8))
  qed
  moreover have "cs_loadingMore ?s \<longrightarrow> (\<exists>m. PageLoad (cs_post s) (cs_run s) m True \<in> set (cs_tasks ?s))"
  proof
    assume more: "cs_loadingMore ?s"
    then obtain m where m: "PageLoad (cs_post s) (cs_run s) m True \<in> set (cs_tasks s)" and other: "\<not> (a \<and> cs_post s = p)"
      using assms(1) by (auto simp: fetched_frame(6) loads_ok_def split: if_splits)
    then have "PageLoad (cs_post s) (cs_run s) m True \<noteq> ?t" by auto
    from kept [OF this m] show "\<exists>m. PageLoad (cs_post s) (cs_run s) m True \<in> set (cs_tasks ?s)" by blast
  qed
  moreover have "cs_moreInFlight ?s \<longleftrightarrow> cs_loadingMore ?s" using assms(1) by (simp add: fetched_frame(5,6) loads_ok_def)
  ultimately show ?thesis by (simp add: loads_ok_def fetched_frame(1,2))
qed

lemma loads_step:
  assumes "loads_ok s" "section_allowed e s"
  shows "loads_ok (section_handler env e s)"
proof (cases e)
  case (PostOpened p)
  then show ?thesis using assms(1) by (simp add: loads_ok_def loads_opened [unfolded loads_ok_def])
next
  case MoreAsked
  let ?s = "s\<lparr> cs_moreInFlight := True, cs_loadingMore := True \<rparr>"
  have tasks: "list_all (comments_task_ok s) (cs_tasks s)" "1 \<le> cs_page s" using assms(1) by (simp_all add: loads_ok_def)
  have idle: "\<not> cs_loading s" "cs_hasMore s" using assms MoreAsked by (auto simp: loads_ok_def)
  have "comments_task_ok ?s = comments_task_ok s" by (rule task_ok_cong) simp_all
  with tasks idle have "loads_ok (fetchComments (cs_page s + 1) True ?s)" by (intro loads_fetch) simp_all
  then show ?thesis using MoreAsked assms(1) by (simp add: loadMore_def)
next
  case CommentSubmitted
  have "loads_ok (s\<lparr> cs_submitting := True \<rparr>)" by (rule loads_frame [OF assms(1)]) simp_all
  then show ?thesis using CommentSubmitted assms by (simp add: handleAddComment_def loads_added)
next
  case (PostAnswered p t reply)
  have "loads_ok (comments_task_ended (CommentPost p t) s)" by (rule loads_ended [OF assms(1)]) simp
  from loads_frame [OF this] PostAnswered show ?thesis
    by (simp add: comment_added_def Let_def split: sum.split)
next
  case (DeleteAnswered p c reply)
  have "loads_ok (comments_task_ended (CommentDeletion p c) s)" by (rule loads_ended [OF assms(1)]) simp
  from this loads_frame [OF this] DeleteAnswered show ?thesis
    by (simp add: comment_deleted_def Let_def split: sum.split api_response.split)
next
  case (UpdateAnswered p c t reply)
  have "loads_ok (comments_task_ended (CommentChange p c t) s)" by (rule loads_ended [OF assms(1)]) simp
  from this loads_frame [OF this] UpdateAnswered show ?thesis
    by (simp add: comment_updated_def Let_def split: sum.split)
qed (use assms in \<open>auto simp: loads_fetched loads_added handleDeleteComment_def handleUpdateComment_def intro: loads_frame\<close>)

lemma section_run_ok: "section_run env es s \<Longrightarrow> shown_ok es s \<and> loads_ok s"
proof (induction rule: section_run.induct)
  case (mounted p)
  have "loads_ok (section_mounted p)" unfolding section_mounted_def by (rule loads_opened) (simp add: new_section_def)
  moreover have "shown_ok [] (section_mounted p)"
    by (simp add: shown_ok_def section_mounted_def post_opened_def fetchComments_def comments_task_added_def)
  ultimately show ?case by simp
qed (simp add: shown_step loads_step)


section \<open>Properties\<close>

definition sample_comment :: "int \<Rightarrow> post_comment" where
  "sample_comment i = \<lparr> commentId = i, comment_id = int_str i, comment_postId = 7, comment_userId = 3, parentCommentId = None,
     comment_content = U ''hello'', comment_createdAt = [], comment_updatedAt = [], authorName = U ''Ann'', authorAvatar = None,
     replyCount = 0, isEdited = False \<rparr>"

definition comments_answer :: "int list \<Rightarrow> int \<Rightarrow> comment_list api_reply" where
  "comments_answer is n = Inr (Inr \<lparr> cl_comments = map sample_comment is, cl_totalCount = n, cl_page = 1, cl_pageSize = 20 \<rparr>)"

definition listing :: ustr where "listing = U ''7''"

definition repeated_run :: "section_event list" where
  \<comment> \<open>two pages are loaded, a comment is added, and more are asked for\<close>
  "repeated_run =
     [PageAnswered listing 3 1 False (comments_answer [1..20] 60), MoreAsked,
      PageAnswered listing 4 2 True (comments_answer [21..40] 60), CommentTyped (U ''hi''), CommentSubmitted,
      PostAnswered listing (U ''hi'') (Inr (Inr (sample_comment 99))), MoreAsked,
      PageAnswered listing 5 2 True (comments_answer [20..39] 61)]"

definition reply_deleted_run :: "section_event list" where
  "reply_deleted_run =
     [PageAnswered listing 3 1 False (comments_answer [1] 1), DeleteAsked 50, DeleteAnswered listing 50 (Inr (ApiOk Null))]"

lemma section_sample:
  assumes "map_option q (section_trace env es (section_mounted p)) = Some v"
  obtains s where "section_run env es s" "q s = v"
  using assms section_trace_run [OF section_run.mounted, of env es p] by auto

lemma repeated_comments:
  "\<exists>s. section_run ref_env repeated_run s \<and> \<not> distinct (map commentId (cs_comments s))"
proof -
  have "map_option (\<lambda>s. distinct (map commentId (cs_comments s))) (section_trace ref_env repeated_run (section_mounted listing)) = Some False"
    by code_simp
  then show ?thesis by (rule section_sample) auto
qed

lemma reply_uncounted:
  "\<exists>s. section_run ref_env reply_deleted_run s \<and> cs_totalCount s = 0 \<and> cs_comments s = [sample_comment 1]"
proof -
  have "map_option (\<lambda>s. (cs_totalCount s, cs_comments s)) (section_trace ref_env reply_deleted_run (section_mounted listing))
      = Some (0, [sample_comment 1])"
    by code_simp
  then show ?thesis by (rule section_sample) auto
qed

text \<open>
  Claim C32.  The comments below a listing.  However listings, pages, additions, changes and deletions
  interleave, every comment shown was sent by the server for the listing shown, by the user it names, and
  its text is the one sent or one whose change the server confirmed there.  The section shows that it is
  loading only while the first page of this listing is under way, and that it loads more only while a
  further one is.
\<close>

theorem comments_of_listing:
  assumes "section_run env es s"
  shows "(\<forall>c \<in> set (cs_comments s). comment_from es (cs_post s) c)
    \<and> (cs_loading s \<longrightarrow> PageLoad (cs_post s) (cs_run s) 1 False \<in> set (cs_tasks s))
    \<and> (cs_loadingMore s \<longrightarrow> (\<exists>n. PageLoad (cs_post s) (cs_run s) n True \<in> set (cs_tasks s)))
    \<and> (cs_moreInFlight s \<longleftrightarrow> cs_loadingMore s)
    \<and> (\<forall>p t. CommentPost p t \<in> set (cs_tasks s) \<longrightarrow> trim t \<noteq> [])"
proof -
  have ok: "shown_ok es s" "loads_ok s" using section_run_ok [OF assms] by simp_all
  then have "comments_task_ok s t" if prem: "t \<in> set (cs_tasks s)" for t using prem by (simp add: loads_ok_def list_all_iff)
  from this [of "CommentPost _ _"] ok show ?thesis by (simp add: shown_ok_def loads_ok_def)
qed

theorem comments_of_listing_witness:
  "\<exists>s. section_run ref_env reply_deleted_run s \<and> (\<exists>c \<in> set (cs_comments s). comment_from reply_deleted_run (cs_post s) c)"
proof -
  obtain s where s: "section_run ref_env reply_deleted_run s" "cs_comments s = [sample_comment 1]"
    using reply_uncounted by blast
  from comments_of_listing [OF s(1)] s show ?thesis by (intro exI [of _ s]) simp
qed

text \<open>
   Counts that drift.  Adding a comment starts the counting of pages again, so that loading more
  shows comments a second time; deleting a reply lowers the number of comments of the listing, which
  replies never raised; and a reply added while loaded replies are hidden is counted but not among the
  replies shown again, for which no request is made.
\<close>

theorem comment_counts_drift:
  assumes "\<not> it_showReplies i" and "it_replies i \<noteq> []" and "trim (it_replyContent i) \<noteq> []" and "it_replyCount i > 0"
  shows "(\<exists>s. section_run ref_env repeated_run s \<and> \<not> distinct (map commentId (cs_comments s)))
    \<and> (\<exists>s. section_run ref_env reply_deleted_run s \<and> cs_totalCount s < int (length (cs_comments s)))
    \<and> (let i' = handleToggleReplies (reply_posted (it_replyContent i) False (it_replyCount i) (Inr (Inr c)) (handleReplySubmit i)) in
       it_showReplies i' \<and> it_replies i' = it_replies i \<and> it_replyCount i' = it_replyCount i + 1
     \<and> (RepliesLoad b \<in> set (it_tasks i') \<longrightarrow> RepliesLoad b \<in> set (it_tasks i)))"
proof -
  have "\<exists>s. section_run ref_env reply_deleted_run s \<and> cs_totalCount s < int (length (cs_comments s))"
    using reply_uncounted by force
  moreover have "RepliesLoad b \<in> set (remove1 (ReplyPost t sh n) ts) \<longleftrightarrow> RepliesLoad b \<in> set ts" for t sh n ts
    by (simp add: in_set_remove1)
  ultimately show ?thesis using repeated_comments assms
    by (simp add: handleReplySubmit_def reply_posted_def handleToggleReplies_def Let_def)
qed

theorem comment_counts_drift_witness:
  "\<exists>i. it_replies i = [sample_comment 2] \<and> it_replyCount i = 1
     \<and> it_replyCount (handleToggleReplies (reply_posted (U ''yes'') False 1 (Inr (Inr (sample_comment 3))) (handleReplySubmit i))) = 2"
proof -
  let ?i = "(new_item (sample_comment 1))\<lparr> it_replies := [sample_comment 2], it_replyCount := 1, it_replyContent := U ''yes'' \<rparr>"
  have "trim (it_replyContent ?i) \<noteq> []" by code_simp
  from comment_counts_drift [of ?i, OF _ _ this] show ?thesis
    by (intro exI [of _ ?i]) (simp add: new_item_def Let_def)
qed

end
