(* ===== verification/AdminTools.thy ===== *)
theory AdminTools
  imports Lookups
begin

text \<open>
  Tools of the administration: the export of a table as comma-separated values
  (\<open>features/admin/utils/exportCsv.ts\<close>, without the download) and the end of a session nobody uses
  (\<open>features/admin/hooks/useSessionTimeout.ts\<close>) as a step relation over the events of the page and the
  interval timer.  The abstract specification of the export is a reader of the format.
\<close>

section \<open>exportCsv.ts\<close>

definition double_quotes :: "ustr \<Rightarrow> ustr" where
  "double_quotes s = concat (map (\<lambda>c. if c = 34 then [34, 34] else [c]) s)"

definition csv_value :: "jval \<Rightarrow> ustr" where
  "csv_value v = (if is_nullish v then [] else to_str v)"

definition csv_cell :: "jval \<Rightarrow> ustr" where
  "csv_cell v =
     (if is_nullish v then []
      else (let str = double_quotes (to_str v) in
        if 44 \<in> set str \<or> 10 \<in> set str \<or> 34 \<in> set str then 34 # str @ [34] else str))"

definition row_field :: "(ustr \<times> jval) list \<Rightarrow> ustr \<Rightarrow> jval" where
  "row_field row h = (case map_of row h of None \<Rightarrow> Undef | Some v \<Rightarrow> v)"

definition csv_headers :: "(ustr \<times> jval) list list \<Rightarrow> ustr list" where
  "csv_headers rows = map fst (object_entries (hd rows))"

definition csvString :: "(ustr \<times> jval) list list \<Rightarrow> ustr option" where
  \<comment> \<open>the text of the file; nothing without rows\<close>
  "csvString rows =
     (if rows = [] then None
      else (let hs = csv_headers rows in
        Some (65279 # join [13, 10] (join [44] hs # map (\<lambda>row. join [44] (map (\<lambda>h. csv_cell (row_field row h)) hs)) rows))))"

subsection \<open>Reading the format\<close>

fun read_csv :: "bool \<Rightarrow> ustr \<Rightarrow> ustr list \<Rightarrow> ustr \<Rightarrow> ustr list list" where
  \<comment> \<open>inside quotes, the field read so far, the fields of the line before it, and the rest\<close>
  "read_csv q f fs [] = [fs @ [f]]"
| "read_csv True f fs (c # s) =
     (if c \<noteq> 34 then read_csv True (f @ [c]) fs s
      else if s \<noteq> [] \<and> hd s = 34 then read_csv True (f @ [34]) fs (tl s)
      else read_csv False f fs s)"
| "read_csv False f fs (c # s) =
     (if c = 44 then read_csv False [] (fs @ [f]) s
      else if c = 13 \<and> s \<noteq> [] \<and> hd s = 10 then (fs @ [f]) # read_csv False [] [] (tl s)
      else if c = 34 \<and> f = [] then read_csv True [] fs s
      else read_csv False (f @ [c]) fs s)"

definition plain_text :: "ustr \<Rightarrow> bool" where
  "plain_text s \<longleftrightarrow> 44 \<notin> set s \<and> 10 \<notin> set s \<and> 34 \<notin> set s"

definition field_ends :: "ustr \<Rightarrow> bool" where
  "field_ends s \<longleftrightarrow> s = [] \<or> hd s = 44 \<or> hd s = 13"

lemma read_plain:
  "plain_text v \<Longrightarrow> field_ends s \<Longrightarrow> read_csv False f fs (v @ s) = read_csv False (f @ v) fs s"
proof (induction v arbitrary: f)
  case (Cons c v)
  have "v @ s \<noteq> [] \<Longrightarrow> hd (v @ s) \<noteq> 10"
    using Cons.prems by (cases v) (auto simp: plain_text_def field_ends_def)
  then show ?case using Cons by (auto simp: plain_text_def)
qed simp

lemma read_quoted:
  "field_ends s \<Longrightarrow> read_csv True f fs (double_quotes v @ 34 # s) = read_csv False (f @ v) fs s"
proof (induction v arbitrary: f)
  case Nil
  then show ?case by (auto simp: double_quotes_def field_ends_def)
next
  case (Cons c v)
  then show ?case by (simp add: double_quotes_def)
qed

lemma double_quotes_set: "set (double_quotes s) = set s"
  by (auto simp: double_quotes_def)

lemma double_quotes_id: "34 \<notin> set s \<Longrightarrow> double_quotes s = s"
  by (induction s) (auto simp: double_quotes_def)

lemma read_cell:
  assumes "field_ends s"
  shows "read_csv False [] fs (csv_cell v @ s) = read_csv False (csv_value v) fs s"
proof -
  have quoted: "read_csv False [] fs (34 # double_quotes (to_str v) @ 34 # s) = read_csv False (to_str v) fs s"
    using read_quoted [OF assms, of "[]" fs "to_str v"] by simp
  show ?thesis
    using quoted read_plain [OF _ assms, of "to_str v" "[]" fs]
    by (auto simp: csv_cell_def csv_value_def Let_def double_quotes_set double_quotes_id plain_text_def)
qed

lemma read_cells:
  assumes "vs \<noteq> []" "s = [] \<or> (\<exists>r. s = 13 # 10 # r)"
  shows "read_csv False [] fs (join [44] (map csv_cell vs) @ s)
    = (fs @ map csv_value vs) # (if s = [] then [] else read_csv False [] [] (drop 2 s))"
  using assms(1)
proof (induction vs arbitrary: fs rule: list_nonempty_induct)
  case (single v)
  have "field_ends s" using assms(2) by (auto simp: field_ends_def)
  then show ?case using assms(2) by (auto simp: read_cell)
next
  case (cons v vs)
  have "field_ends (44 # t)" for t by (simp add: field_ends_def)
  then show ?case using cons by (cases vs) (simp_all add: read_cell)
qed

lemma csv_cell_plain: "plain_text h \<Longrightarrow> csv_cell (Str h) = h \<and> csv_value (Str h) = h"
  by (simp add: csv_cell_def csv_value_def plain_text_def double_quotes_id)

lemma read_lines:
  assumes "lss \<noteq> []" "\<forall>vs \<in> set lss. vs \<noteq> []"
  shows "read_csv False [] [] (join [13, 10] (map (\<lambda>vs. join [44] (map csv_cell vs)) lss)) = map (map csv_value) lss"
  using assms
proof (induction lss rule: list_nonempty_induct)
  case (single vs)
  then show ?case using read_cells [of vs "[]" "[]"] by simp
next
  case (cons vs lss)
  then show ?case using read_cells [of vs "13 # 10 # _" "[]"] by (cases lss) simp_all
qed

section \<open>useSessionTimeout.ts\<close>

definition SESSION_TIMEOUT_MS :: int where "SESSION_TIMEOUT_MS = 30 * 60 * 1000"
definition WARNING_BEFORE_MS :: int where "WARNING_BEFORE_MS = 5 * 60 * 1000"

record timeout_snapshot =
  ts_isExpired :: bool
  ts_showWarning :: bool
  ts_minutesLeft :: int

definition getSessionTimeoutSnapshot :: "int \<Rightarrow> int \<Rightarrow> timeout_snapshot" where
  "getSessionTimeoutSnapshot now lastActivity =
     (let remainingMs = SESSION_TIMEOUT_MS - max 0 (now - lastActivity) in
      \<lparr> ts_isExpired = (remainingMs \<le> 0), ts_showWarning = (remainingMs \<le> WARNING_BEFORE_MS \<and> remainingMs > 0),
        ts_minutesLeft = max 0 ((remainingMs + 59999) div 60000) \<rparr>)"

record session_timer =
  st_showWarning :: bool
  st_minutesLeft :: int
  st_lastActivity :: int
  st_hasExpired :: bool
  st_expirations :: nat      \<comment> \<open>calls of \<open>onExpire\<close>\<close>

definition timer_mounted :: "int \<Rightarrow> session_timer" where
  "timer_mounted now = \<lparr> st_showWarning = False, st_minutesLeft = 30, st_lastActivity = now, st_hasExpired = False,
     st_expirations = 0 \<rparr>"

definition expireSession :: "session_timer \<Rightarrow> session_timer" where
  "expireSession s =
     (if st_hasExpired s then s
      else s\<lparr> st_hasExpired := True, st_minutesLeft := 0, st_showWarning := False, st_expirations := st_expirations s + 1 \<rparr>)"

definition resetTimer :: "int \<Rightarrow> session_timer \<Rightarrow> session_timer" where
  "resetTimer now s =
     (if st_hasExpired s then s
      else if ts_isExpired (getSessionTimeoutSnapshot now (st_lastActivity s)) then expireSession s
      else s\<lparr> st_lastActivity := now, st_minutesLeft := 30, st_showWarning := False \<rparr>)"

definition onActivity :: "int \<Rightarrow> session_timer \<Rightarrow> session_timer" where
  "onActivity now s =
     (if st_hasExpired s then s
      else if ts_isExpired (getSessionTimeoutSnapshot now (st_lastActivity s)) then expireSession s
      else s\<lparr> st_lastActivity := now, st_showWarning := False \<rparr>)"

definition timer_ticked :: "int \<Rightarrow> session_timer \<Rightarrow> session_timer" where
  "timer_ticked now s =
     (let snapshot = getSessionTimeoutSnapshot now (st_lastActivity s);
          s' = s\<lparr> st_minutesLeft := ts_minutesLeft snapshot, st_showWarning := ts_showWarning snapshot \<rparr>
      in if ts_isExpired snapshot then expireSession s' else s')"

datatype timer_event = Activity (timer_time: int) | TimerReset (timer_time: int) | Ticked (timer_time: int)

fun timer_handler :: "timer_event \<Rightarrow> session_timer \<Rightarrow> session_timer" where
  "timer_handler (Activity t) s = onActivity t s"
| "timer_handler (TimerReset t) s = resetTimer t s"
| "timer_handler (Ticked t) s = timer_ticked t s"

inductive timer_run :: "int \<Rightarrow> timer_event list \<Rightarrow> session_timer \<Rightarrow> bool" for t0 where
  mounted: "timer_run t0 [] (timer_mounted t0)"
| step: "timer_run t0 es s \<Longrightarrow> (es = [] \<Longrightarrow> t0 \<le> timer_time e) \<Longrightarrow> (es \<noteq> [] \<Longrightarrow> timer_time (last es) \<le> timer_time e)
    \<Longrightarrow> timer_run t0 (es @ [e]) (timer_handler e s)"

fun last_activity :: "int \<Rightarrow> timer_event list \<Rightarrow> int" where
  "last_activity t0 [] = t0"
| "last_activity t0 (Ticked t # es) = last_activity t0 es"
| "last_activity t0 (Activity t # es) = last_activity t es"
| "last_activity t0 (TimerReset t # es) = last_activity t es"

definition idle_too_long :: "int \<Rightarrow> timer_event list \<Rightarrow> bool" where
  \<comment> \<open>some event comes half an hour after the last activity before it\<close>
  "idle_too_long t0 es \<longleftrightarrow>
     (\<exists>es1 e es2. es = es1 @ e # es2 \<and> timer_time e - last_activity t0 es1 \<ge> SESSION_TIMEOUT_MS)"

lemma last_activity_snoc:
  "last_activity t0 (es @ [e]) = (case e of Ticked _ \<Rightarrow> last_activity t0 es | _ \<Rightarrow> timer_time e)"
  by (induction t0 es rule: last_activity.induct) (cases e; simp)+

lemma idle_snoc:
  "idle_too_long t0 (es @ [e]) \<longleftrightarrow> idle_too_long t0 es \<or> timer_time e - last_activity t0 es \<ge> SESSION_TIMEOUT_MS"
proof
  assume "idle_too_long t0 (es @ [e])"
  then obtain es1 d es2 where split: "es @ [e] = es1 @ d # es2" "timer_time d - last_activity t0 es1 \<ge> SESSION_TIMEOUT_MS"
    by (auto simp: idle_too_long_def)
  show "idle_too_long t0 es \<or> timer_time e - last_activity t0 es \<ge> SESSION_TIMEOUT_MS"
  proof (cases es2 rule: rev_cases)
    case Nil
    then show ?thesis using split by simp
  next
    case (snoc es3 x)
    then have "es = es1 @ d # es3" using split(1) by (metis append_Cons append_assoc butlast_snoc)
    then show ?thesis using split(2) by (auto simp: idle_too_long_def)
  qed
next
  assume "idle_too_long t0 es \<or> timer_time e - last_activity t0 es \<ge> SESSION_TIMEOUT_MS"
  then show "idle_too_long t0 (es @ [e])" by (fastforce simp: idle_too_long_def)
qed

definition timer_ok :: "int \<Rightarrow> timer_event list \<Rightarrow> session_timer \<Rightarrow> bool" where
  "timer_ok t0 es s \<longleftrightarrow>
     (st_hasExpired s \<longleftrightarrow> idle_too_long t0 es)
   \<and> st_expirations s = (if st_hasExpired s then 1 else 0)
   \<and> (\<not> st_hasExpired s \<longrightarrow> st_lastActivity s = last_activity t0 es)
   \<and> (st_hasExpired s \<longrightarrow> \<not> st_showWarning s \<and> es \<noteq> [] \<and> timer_time (last es) - st_lastActivity s \<ge> SESSION_TIMEOUT_MS)"

lemma timer_step_ok:
  assumes "timer_ok t0 es s" "es \<noteq> [] \<Longrightarrow> timer_time (last es) \<le> timer_time e"
  shows "timer_ok t0 (es @ [e]) (timer_handler e s)"
  using assms
  by (cases e; cases "st_hasExpired s")
    (auto simp: timer_ok_def idle_snoc last_activity_snoc onActivity_def resetTimer_def timer_ticked_def
      expireSession_def getSessionTimeoutSnapshot_def Let_def SESSION_TIMEOUT_MS_def max_def)

lemma timer_run_ok: "timer_run t0 es s \<Longrightarrow> timer_ok t0 es s"
proof (induction rule: timer_run.induct)
  case mounted
  show ?case by (simp add: timer_ok_def timer_mounted_def idle_too_long_def)
qed (simp add: timer_step_ok)

section \<open>Properties\<close>

text \<open>
  Claim C33.  The exported file reads back as the table: as long as the names of the columns hold no comma,
  quote or line feed and there is a column, a reader of the format finds behind the byte order mark the
  names of the columns and then, row by row, the text of every value, whatever it contains; missing
  values read as empty text.
\<close>

theorem csv_roundtrip:
  assumes "rows \<noteq> []" and "csv_headers rows \<noteq> []" and "\<forall>h \<in> set (csv_headers rows). plain_text h"
  shows "\<exists>text. csvString rows = Some (65279 # text)
    \<and> read_csv False [] [] text
        = csv_headers rows # map (\<lambda>row. map (\<lambda>h. csv_value (row_field row h)) (csv_headers rows)) rows"
proof -
  let ?hs = "csv_headers rows"
  let ?lss = "map Str ?hs # map (\<lambda>row. map (row_field row) ?hs) rows"
  have plain: "map csv_cell (map Str ?hs) = ?hs" "map csv_value (map Str ?hs) = ?hs"
    using assms(3) by (simp_all add: csv_cell_plain map_idI)
  have "read_csv False [] [] (join [13, 10] (map (\<lambda>vs. join [44] (map csv_cell vs)) ?lss)) = map (map csv_value) ?lss"
    by (rule read_lines) (use assms(2) in auto)
  with plain assms(1) show ?thesis by (simp add: csvString_def Let_def comp_def)
qed

theorem csv_roundtrip_witness:
  "\<exists>text. csvString [[(U ''ID'', Num (Fin 1)), (U ''Title'', Str (U ''a, \"b\"''))]] = Some (65279 # text)
    \<and> read_csv False [] [] text = [[U ''ID'', U ''Title''], [U ''1'', U ''a, \"b\"'']]"
proof -
  let ?rows = "[[(U ''ID'', Num (Fin 1)), (U ''Title'', Str (U ''a, \"b\"''))]]"
  have hs: "csv_headers ?rows = [U ''ID'', U ''Title'']" by code_simp
  have plain: "\<forall>h \<in> set [U ''ID'', U ''Title'']. plain_text h" by code_simp
  have values': "map (\<lambda>row. map (\<lambda>h. csv_value (row_field row h)) [U ''ID'', U ''Title'']) ?rows = [[U ''1'', U ''a, \"b\"'']]" by code_simp
  show ?thesis using csv_roundtrip [of ?rows] plain unfolding hs values' by simp
qed

text \<open>
  Claim C37.  The end of an unused session.  As time goes on, the session expires exactly when an event of
  the page or of the timer comes half an hour or more after the last activity; then \<open>onExpire\<close> is called
  once and never again, no later activity revives the session, and the warning is gone.
\<close>

theorem session_expires_once:
  assumes "timer_run t0 es s"
  shows "(st_hasExpired s \<longleftrightarrow> idle_too_long t0 es)
    \<and> st_expirations s = (if idle_too_long t0 es then 1 else 0)
    \<and> (idle_too_long t0 es \<longrightarrow> \<not> st_showWarning s \<and> idle_too_long t0 (es @ es'))
    \<and> (\<not> idle_too_long t0 es \<longrightarrow> st_lastActivity s = last_activity t0 es)"
proof -
  have "idle_too_long t0 (es @ es')" if prem: "idle_too_long t0 es" for es'
    using prem unfolding idle_too_long_def by fastforce
  then show ?thesis using timer_run_ok [OF assms] by (auto simp: timer_ok_def)
qed

theorem session_expires_once_witness:
  "\<exists>s. timer_run 0 [Activity 60000, Ticked 1860000, Activity 1860001] s \<and> st_hasExpired s \<and> st_expirations s = 1"
proof -
  have "timer_run 0 ([] @ [Activity 60000]) (timer_handler (Activity 60000) (timer_mounted 0))"
    by (rule timer_run.step [OF timer_run.mounted]) simp_all
  then have "timer_run 0 ([Activity 60000] @ [Ticked 1860000]) (timer_handler (Ticked 1860000) (timer_handler (Activity 60000) (timer_mounted 0)))"
    by (intro timer_run.step) simp_all
  then have "timer_run 0 ([Activity 60000, Ticked 1860000] @ [Activity 1860001])
      (timer_handler (Activity 1860001) (timer_handler (Ticked 1860000) (timer_handler (Activity 60000) (timer_mounted 0))))"
    by (intro timer_run.step) simp_all
  then obtain s where run: "timer_run 0 [Activity 60000, Ticked 1860000, Activity 1860001] s" by auto
  have "idle_too_long 0 [Activity 60000, Ticked 1860000, Activity 1860001]"
    using idle_snoc [of 0 "[Activity 60000]" "Ticked 1860000"] idle_snoc [of 0 "[Activity 60000, Ticked 1860000]" "Activity 1860001"]
    by (simp add: SESSION_TIMEOUT_MS_def)
  with session_expires_once [OF run] run show ?thesis by auto
qed

end
