(* ===== verification/ListingForm.thy ===== *)
theory ListingForm
  imports CompleteProfile PostWrite
begin

text \<open>
  The form of a listing: publishing one (\<open>features/marketplace/components/CreatePostDialog.tsx\<close>) and editing
  one (\<open>EditPostDialog.tsx\<close>) over the same fields (\<open>PostForm.tsx\<close>, \<open>PostImagePicker.tsx\<close>), without markup.
  Handlers are cut at their awaits.  Addresses of chosen files come from the browser, whose store of live
  addresses is part of the state; texts are parameters.  A render runs one round of the effects, an
  event of its own.
\<close>

section \<open>Numbers and categories\<close>

definition js_parse_float :: "ustr \<Rightarrow> jnum" where
  \<comment> \<open>the longest prefix that is a decimal literal\<close>
  "js_parse_float s =
     (let t = ltrim s; neg = (t \<noteq> [] \<and> hd t = 45);
          u = (if t \<noteq> [] \<and> (hd t = 45 \<or> hd t = 43) then tl t else t);
          (ip, r1) = digit_span u;
          (fp, r2) = (case r1 of c # r \<Rightarrow> if c = 46 then digit_span r else ([], r1) | [] \<Rightarrow> ([], []));
          e = (case r2 of [] \<Rightarrow> 0
               | c # r \<Rightarrow> if c = 101 \<or> c = 69
                   then (let ds = takeWhile is_digit (if r \<noteq> [] \<and> (hd r = 45 \<or> hd r = 43) then tl r else r)
                     in if r \<noteq> [] \<and> hd r = 45 then - int (digits_val ds) else int (digits_val ds))
                   else 0);
          v = (if starts_with u (U ''Infinity'') then PInf
               else if ip = [] \<and> fp = [] then NaN
               else fin_or_inf (of_nat (digits_val (ip @ fp)) / 10 ^ length fp * (if 0 \<le> e then 10 ^ nat e else 1 / 10 ^ nat (- e))))
      in if neg then neg_num v else v)"

definition num_ge :: "jnum \<Rightarrow> rat \<Rightarrow> bool" where
  "num_ge n r \<longleftrightarrow> (case n of Fin q \<Rightarrow> q \<ge> r | PInf \<Rightarrow> True | _ \<Rightarrow> False)"

definition num_below :: "jnum \<Rightarrow> rat \<Rightarrow> bool" where
  "num_below n r \<longleftrightarrow> (case n of Fin q \<Rightarrow> q < r | NInf \<Rightarrow> True | _ \<Rightarrow> False)"

type_synonym category_option = "ustr \<times> ustr"   \<comment> \<open>value and label\<close>

definition category_label :: "bool \<Rightarrow> category \<Rightarrow> ustr" where
  "category_label ar c = (if ar \<and> category_nameAr c \<noteq> [] then category_nameAr c else trim (category_name c))"

definition named_categories :: "category list \<Rightarrow> category list" where
  "named_categories = filter (\<lambda>c. trim (category_name c) \<noteq> [])"

definition create_categories :: "bool \<Rightarrow> category list \<Rightarrow> category_option list" where
  \<comment> \<open>the first category of a name wins\<close>
  "create_categories ar cs =
     fold (\<lambda>c m. if trim (category_name c) \<in> set (map fst m) then m else m @ [(trim (category_name c), category_label ar c)])
       (named_categories cs) []"

definition edit_categories :: "bool \<Rightarrow> ustr \<Rightarrow> category list \<Rightarrow> category_option list" where
  \<comment> \<open>the category of the listing first; the last label of a name wins\<close>
  "edit_categories ar current cs =
     fold (\<lambda>c m. assoc_set (trim (category_name c)) (category_label ar c) m) (named_categories cs)
       (if trim current = [] then [] else [(trim current, trim current)])"

definition with_current :: "ustr \<Rightarrow> ustr list \<Rightarrow> ustr list" where
  \<comment> \<open>\<open>cityOptions\<close> and \<open>areaSuggestions\<close>\<close>
  "with_current current names =
     (if trim current \<noteq> [] \<and> lower (trim current) \<notin> set (filter (\<lambda>n. n \<noteq> []) (map (\<lambda>n. lower (trim n)) names))
      then trim current # names else names)"

section \<open>State\<close>

datatype listing_field = FTitle | FPrice | FCategory | FLocation | FArea | FDescription | FImages

record listing_image =
  li_id :: ustr
  li_preview :: ustr
  li_source :: image_input      \<comment> \<open>a chosen file, or the address of an existing picture\<close>
  li_validating :: bool
  li_error :: ustr              \<comment> \<open>empty for none\<close>

record listing_submission =
  sb_post :: "ustr option"      \<comment> \<open>the listing edited\<close>
  sb_name :: ustr
  sb_price :: jnum
  sb_category :: ustr
  sb_status :: "post_status option"
  sb_location :: ustr
  sb_area :: ustr
  sb_description :: ustr
  sb_image :: ustr
  sb_images :: "image_input list"

datatype form_task =
    ImageValidation ustr image_input
  | ListingSubmit listing_submission

record listing_copy =
  fc_waitForImages :: ustr
  fc_rejectedImages :: ustr
  fc_imagesRequired :: ustr
  fc_moderation :: ustr
  fc_tooLarge :: ustr
  fc_unsupported :: ustr
  fc_emptyFile :: ustr
  fc_otherImageError :: "ustr option"   \<comment> \<open>the Arabic text; in English the error itself\<close>

record listing_form =
  lf_title :: ustr
  lf_price :: ustr
  lf_category :: ustr
  lf_location :: ustr
  lf_area :: ustr
  lf_description :: ustr
  lf_images :: "listing_image list"
  lf_errors :: "listing_field \<Rightarrow> bool"
  lf_imageError :: "ustr option"
  lf_isSubmitting :: bool
  lf_objectUrls :: "ustr list"          \<comment> \<open>\<open>objectUrlsRef\<close>\<close>
  lf_live :: "ustr list"                \<comment> \<open>addresses the browser keeps for this form\<close>
  lf_options :: location_options
  lf_tasks :: "form_task list"
  lf_closed :: bool

definition MAX_IMAGES :: nat where "MAX_IMAGES = 5"

definition existing_images :: "post \<Rightarrow> listing_image list" where
  \<comment> \<open>\<open>buildInitialImageEntries\<close>\<close>
  "existing_images p =
     (let urls = (case post_images p of Some us \<Rightarrow> if us \<noteq> [] then us else [post_image p] | None \<Rightarrow> [post_image p]) in
      map (\<lambda>(i, u). \<lparr> li_id = U ''existing-'' @ int_str (int i) @ U ''-'' @ u, li_preview = u, li_source = UrlInput u,
             li_validating = False, li_error = [] \<rparr>)
        (enumerate 0 (filter (\<lambda>u. u \<noteq> []) (map trim urls))))"

definition create_opened :: "user_profile \<Rightarrow> listing_form" where
  "create_opened u = \<lparr> lf_title = [], lf_price = [], lf_category = [], lf_location = opt_str (profile_city u),
     lf_area = opt_str (profile_area u), lf_description = [], lf_images = [], lf_errors = (\<lambda>_. False), lf_imageError = None,
     lf_isSubmitting = False, lf_objectUrls = [], lf_live = [], lf_options = new_options, lf_tasks = [], lf_closed = False \<rparr>"

definition edit_opened :: "post \<Rightarrow> listing_form" where
  "edit_opened p = \<lparr> lf_title = post_name p, lf_price = num_str (Fin (post_price p)), lf_category = post_category p,
     lf_location = post_location p, lf_area = opt_str (post_area p), lf_description = opt_str (post_description p),
     lf_images = existing_images p, lf_errors = (\<lambda>_. False), lf_imageError = None, lf_isSubmitting = False,
     lf_objectUrls = [], lf_live = [], lf_options = new_options, lf_tasks = [], lf_closed = False \<rparr>"

section \<open>Effects\<close>

definition localized_name :: "bool \<Rightarrow> (ustr \<times> ustr) list \<Rightarrow> ustr \<Rightarrow> ustr" where
  \<comment> \<open>what the two effects share: the name, in the language in use, of the first place of either name\<close>
  "localized_name ar ns loc =
     (let raw = lower (trim loc) in
      if raw = [] then loc
      else (case find (\<lambda>(en, a). lower en = raw \<or> lower a = raw) ns of
              None \<Rightarrow> loc
            | Some (en, a) \<Rightarrow> if ar \<and> a \<noteq> [] then a else en))"

definition localized_city :: "bool \<Rightarrow> location_city list \<Rightarrow> ustr \<Rightarrow> ustr" where
  "localized_city ar cs loc = localized_name ar (map (\<lambda>c. (cityName c, cityNameAr c)) cs) loc"

definition localized_area :: "bool \<Rightarrow> location_area list \<Rightarrow> ustr \<Rightarrow> ustr" where
  "localized_area ar as loc = localized_name ar (map (\<lambda>a. (areaName a, areaNameAr a)) as) loc"

definition form_effects :: "bool \<Rightarrow> listing_form \<Rightarrow> listing_form" where
  \<comment> \<open>one round after a render, on the state of that render\<close>
  "form_effects ar s =
     s\<lparr> lf_options := areas_effect (lf_location s) (lf_options s),
        lf_location := localized_city ar (lo_cities (lf_options s)) (lf_location s),
        lf_area := localized_area ar (lo_areas (lf_options s)) (lf_area s) \<rparr>"

definition profile_effect :: "user_profile \<Rightarrow> listing_form \<Rightarrow> listing_form" where
  \<comment> \<open>when city or area of the profile changed\<close>
  "profile_effect u s =
     s\<lparr> lf_location := or_else (lf_location s) (opt_str (profile_city u)), lf_area := or_else (lf_area s) (opt_str (profile_area u)) \<rparr>"

definition form_unmounted :: "listing_form \<Rightarrow> listing_form" where
  "form_unmounted s = s\<lparr> lf_live := filter (\<lambda>u. u \<notin> set (lf_objectUrls s)) (lf_live s), lf_objectUrls := [], lf_closed := True \<rparr>"

section \<open>Images\<close>

definition getLocalizedImageError :: "listing_copy \<Rightarrow> ustr \<Rightarrow> ustr" where
  "getLocalizedImageError c rawError =
     (let e = lower rawError in
      if includes_any e [''moderation'', ''inappropriate'', ''flagged''] then fc_moderation c
      else if includes_any e [''exceeds size'', ''size limit'', ''too large''] then fc_tooLarge c
      else if includes_any e [''extension'', ''unsupported'', ''content type'', ''type''] then fc_unsupported c
      else if includes_any e [''empty'', ''required''] then fc_emptyFile c
      else (case fc_otherImageError c of Some t \<Rightarrow> t | None \<Rightarrow> rawError))"

definition mark_image :: "ustr \<Rightarrow> ustr \<Rightarrow> listing_form \<Rightarrow> listing_form" where
  "mark_image i e s =
     s\<lparr> lf_images := map (\<lambda>img. if li_id img = i then img\<lparr> li_validating := False, li_error := e \<rparr> else img) (lf_images s) \<rparr>"

definition image_error :: "listing_copy \<Rightarrow> thrown + api_response \<Rightarrow> ustr" where
  \<comment> \<open>the error a settled validation leaves on its image, empty for none\<close>
  "image_error c reply =
     (case reply of
        Inr (ApiOk _) \<Rightarrow> []
      | Inr (ApiErr e) \<Rightarrow> getLocalizedImageError c (or_else (err_message e) (U ''Failed to validate image''))
      | Inl (JsError _ m) \<Rightarrow> getLocalizedImageError c m
      | Inl _ \<Rightarrow> getLocalizedImageError c (U ''Validation failed''))"

definition image_validated :: "listing_copy \<Rightarrow> ustr \<Rightarrow> image_input \<Rightarrow> thrown + api_response \<Rightarrow> listing_form \<Rightarrow> listing_form" where
  \<comment> \<open>the rest of \<open>validateImageAsync\<close>\<close>
  "image_validated c i f reply s =
     mark_image i (image_error c reply) (s\<lparr> lf_tasks := remove1 (ImageValidation i f) (lf_tasks s) \<rparr>)"

definition image_id :: "string \<Rightarrow> image_input \<Rightarrow> nat \<Rightarrow> int \<Rightarrow> ustr" where
  "image_id pfx f index now = U pfx @ file_name f @ U ''-'' @ int_str (file_size f) @ U ''-'' @ int_str (file_modified f)
     @ U ''-'' @ int_str (int index) @ U ''-'' @ int_str now"

definition handleImageUpload :: "string \<Rightarrow> (image_input \<times> ustr) list \<Rightarrow> int \<Rightarrow> listing_form \<Rightarrow> listing_form" where
  \<comment> \<open>the chosen files with the addresses \<open>createObjectURL\<close> yields\<close>
  "handleImageUpload pfx files now s =
     (let chosen = take (MAX_IMAGES - length (lf_images s)) files;
          items = map (\<lambda>(i, f, u). \<lparr> li_id = image_id pfx f i now, li_preview = u, li_source = f, li_validating = True, li_error = [] \<rparr>)
            (enumerate 0 chosen)
      in s\<lparr> lf_imageError := None, lf_images := take MAX_IMAGES (lf_images s @ items),
            lf_objectUrls := lf_objectUrls s @ map snd chosen, lf_live := lf_live s @ map snd chosen,
            lf_tasks := lf_tasks s @ map (\<lambda>img. ImageValidation (li_id img) (li_source img)) items \<rparr>)"

fun chosen_file :: "image_input \<Rightarrow> bool" where
  "chosen_file (FileInput _ _ _ _) \<longleftrightarrow> True"
| "chosen_file (UrlInput _) \<longleftrightarrow> False"

definition remove_image :: "nat \<Rightarrow> listing_form \<Rightarrow> listing_form" where
  \<comment> \<open>\<open>removeImage\<close>; the browser forgets the address of a chosen file\<close>
  "remove_image i s =
     (let s' = s\<lparr> lf_imageError := None, lf_images := take i (lf_images s) @ drop (i + 1) (lf_images s) \<rparr>;
          target = lf_images s ! i in
      if i < length (lf_images s) \<and> chosen_file (li_source target) \<and> li_preview target \<in> set (lf_objectUrls s)
      then s'\<lparr> lf_objectUrls := removeAll (li_preview target) (lf_objectUrls s),
               lf_live := removeAll (li_preview target) (lf_live s) \<rparr>
      else s')"

section \<open>Submitting\<close>

definition image_obstacle :: "listing_copy \<Rightarrow> listing_form \<Rightarrow> ustr option" where
  "image_obstacle c s =
     (if list_ex li_validating (lf_images s) then Some (fc_waitForImages c)
      else if list_ex (\<lambda>i. li_error i \<noteq> []) (lf_images s) then Some (fc_rejectedImages c) else None)"

definition form_progress :: "listing_form \<Rightarrow> int" where
  "form_progress s =
     (let steps = [trim (lf_title s) \<noteq> [], lf_price s \<noteq> [] \<and> num_ge (js_parse_float (lf_price s)) (1 / 100), lf_category s \<noteq> [],
                   lf_location s \<noteq> [], lf_area s \<noteq> [], trim (lf_description s) \<noteq> [], lf_images s \<noteq> []]
      in \<lfloor>of_nat (length (filter id steps)) / 7 * (100 :: rat) + 1 / 2\<rfloor>)"

fun create_errors :: "listing_form \<Rightarrow> listing_field \<Rightarrow> bool" where
  "create_errors s FTitle \<longleftrightarrow> lf_title s = []"
| "create_errors s FPrice \<longleftrightarrow> lf_price s = [] \<or> num_below (js_parse_float (lf_price s)) (1 / 100)"
| "create_errors s FCategory \<longleftrightarrow> lf_category s = []"
| "create_errors s FLocation \<longleftrightarrow> lf_location s = []"
| "create_errors s FArea \<longleftrightarrow> lf_area s = []"
| "create_errors s FDescription \<longleftrightarrow> trim (lf_description s) = []"
| "create_errors s FImages \<longleftrightarrow> lf_images s = []"

fun edit_errors :: "post \<Rightarrow> listing_form \<Rightarrow> listing_field \<Rightarrow> bool" where
  "edit_errors p s FTitle \<longleftrightarrow> trim (lf_title s) = []"
| "edit_errors p s FImages \<longleftrightarrow> lf_images s = []
     \<and> \<not> ((case post_images p of Some us \<Rightarrow> us \<noteq> [] | None \<Rightarrow> False) \<or> post_image p \<noteq> [])"
| "edit_errors p s f \<longleftrightarrow> create_errors s f"

definition listing_fields :: "listing_field list" where
  "listing_fields = [FTitle, FPrice, FCategory, FLocation, FArea, FDescription, FImages]"

definition create_submission :: "listing_form \<Rightarrow> listing_submission" where
  "create_submission s =
     \<lparr> sb_post = None, sb_name = lf_title s, sb_price = js_parse_float (lf_price s), sb_category = lf_category s,
       sb_status = None, sb_location = lf_location s, sb_area = lf_area s, sb_description = lf_description s,
       sb_image = (case lf_images s of [] \<Rightarrow> [] | i # _ \<Rightarrow> li_preview i), sb_images = map li_source (lf_images s) \<rparr>"

definition edit_submission :: "post \<Rightarrow> listing_form \<Rightarrow> listing_submission" where
  "edit_submission p s =
     \<lparr> sb_post = Some (post_id p), sb_name = lf_title s, sb_price = js_parse_float (lf_price s), sb_category = lf_category s,
       sb_status = Some (case post_state p of Some st \<Rightarrow> st | None \<Rightarrow> ACTIVE), sb_location = lf_location s,
       sb_area = lf_area s, sb_description = lf_description s, sb_image = [], sb_images = map li_source (lf_images s) \<rparr>"

definition submit_listing ::
    "listing_copy \<Rightarrow> (listing_form \<Rightarrow> listing_field \<Rightarrow> bool) \<Rightarrow> (listing_form \<Rightarrow> listing_submission) \<Rightarrow> listing_form \<Rightarrow> listing_form" where
  \<comment> \<open>what the two \<open>handleSubmit\<close> share, up to the await\<close>
  "submit_listing c errs submission s =
     (if lf_isSubmitting s then s
      else (case image_obstacle c s of
              Some e \<Rightarrow> s\<lparr> lf_imageError := Some e \<rparr>
            | None \<Rightarrow>
                let s' = s\<lparr> lf_errors := errs s, lf_imageError := (if errs s FImages then Some (fc_imagesRequired c) else None) \<rparr> in
                if list_ex (errs s) listing_fields then s'
                else s'\<lparr> lf_isSubmitting := True, lf_tasks := lf_tasks s' @ [ListingSubmit (submission s)] \<rparr>))"

definition create_handleSubmit :: "listing_copy \<Rightarrow> listing_form \<Rightarrow> listing_form" where
  "create_handleSubmit c = submit_listing c create_errors create_submission"

definition edit_handleSubmit :: "listing_copy \<Rightarrow> post \<Rightarrow> listing_form \<Rightarrow> listing_form" where
  "edit_handleSubmit c p = submit_listing c (edit_errors p) (edit_submission p)"

definition listing_submitted :: "listing_submission \<Rightarrow> thrown + unit \<Rightarrow> listing_form \<Rightarrow> listing_form" where
  \<comment> \<open>a published listing closes the form; an edited one is closed by its page\<close>
  "listing_submitted b reply s0 =
     (let s = s0\<lparr> lf_tasks := remove1 (ListingSubmit b) (lf_tasks s0), lf_isSubmitting := False \<rparr> in
      case reply of Inr _ \<Rightarrow> if sb_post b = None then form_unmounted s else s | Inl _ \<Rightarrow> s)"

section \<open>Fields\<close>

definition price_typed :: "ustr \<Rightarrow> listing_form \<Rightarrow> listing_form" where
  "price_typed v s = (if num_ge (js_parse_float v) 0 \<or> v = [] then s\<lparr> lf_price := v \<rparr> else s)"

definition location_chosen :: "ustr \<Rightarrow> listing_form \<Rightarrow> listing_form" where
  "location_chosen v s = s\<lparr> lf_location := v, lf_area := [] \<rparr>"

definition form_area_chosen :: "ustr \<Rightarrow> listing_form \<Rightarrow> listing_form" where
  "form_area_chosen v s = s\<lparr> lf_area := v, lf_errors := (lf_errors s)(FArea := False) \<rparr>"

definition description_typed :: "ustr \<Rightarrow> listing_form \<Rightarrow> listing_form" where
  "description_typed v s = s\<lparr> lf_description := take 1200 v, lf_errors := (lf_errors s)(FDescription := False) \<rparr>"

section \<open>Runs\<close>

datatype listing_dialog = Publishing | Editing post

fun dialog_opened :: "listing_dialog \<Rightarrow> user_profile \<Rightarrow> listing_form" where
  "dialog_opened Publishing u = create_opened u"
| "dialog_opened (Editing p) u = edit_opened p"

fun id_prefix :: "listing_dialog \<Rightarrow> string" where
  "id_prefix Publishing = ''''"
| "id_prefix (Editing _) = ''new-''"

fun category_options :: "listing_dialog \<Rightarrow> bool \<Rightarrow> category list \<Rightarrow> category_option list" where
  "category_options Publishing ar cs = create_categories ar cs"
| "category_options (Editing p) ar cs = edit_categories ar (post_category p) cs"

fun dialog_submit :: "listing_copy \<Rightarrow> listing_dialog \<Rightarrow> listing_form \<Rightarrow> listing_form" where
  "dialog_submit c Publishing s = create_handleSubmit c s"
| "dialog_submit c (Editing p) s = edit_handleSubmit c p s"

datatype form_event =
    TitleTyped ustr
  | PriceTyped ustr
  | CategoryPicked "category list" ustr            \<comment> \<open>with the categories known by then\<close>
  | LocationPicked ustr
  | FormAreaPicked ustr
  | DescriptionTyped ustr
  | ImagesChosen "(image_input \<times> ustr) list" int  \<comment> \<open>with the addresses made for them, and the time\<close>
  | ImageRemoved nat
  | ImageAnswered ustr image_input "thrown + api_response"
  | PublishPressed
  | ListingAnswered listing_submission "thrown + unit"
  | FormCitiesSettled "location_city list option"
  | FormAreasSettled nat int "location_area list option"
  | FormRendered
  | OwnProfileChanged user_profile
  | FormClosed

fun form_allowed :: "bool \<Rightarrow> listing_dialog \<Rightarrow> form_event \<Rightarrow> listing_form \<Rightarrow> bool" where
  \<comment> \<open>the controls of an open form, and the requests under way\<close>
  "form_allowed ar d (CategoryPicked cs v) s \<longleftrightarrow> \<not> lf_closed s \<and> v \<in> set (map fst (category_options d ar cs))"
| "form_allowed ar d (LocationPicked v) s \<longleftrightarrow> \<not> lf_closed s \<and> v \<in> set (with_current (lf_location s) (cityNames ar (lf_options s)))"
| "form_allowed ar d (FormAreaPicked v) s \<longleftrightarrow> \<not> lf_closed s \<and> lf_location s \<noteq> [] \<and> \<not> lo_isLoadingAreas (lf_options s)
     \<and> v \<in> set (with_current (lf_area s) (areaNames ar (lf_options s)))"
| "form_allowed ar d (ImagesChosen files now) s \<longleftrightarrow> \<not> lf_closed s \<and> 0 \<le> now
     \<and> list_all (\<lambda>(f, u). chosen_file f \<and> u \<notin> set (lf_live s)) files \<and> distinct (map snd files)"
| "form_allowed ar d (ImageAnswered i f _) s \<longleftrightarrow> ImageValidation i f \<in> set (lf_tasks s)"
| "form_allowed ar d (ListingAnswered b _) s \<longleftrightarrow> ListingSubmit b \<in> set (lf_tasks s)"
| "form_allowed ar d (FormCitiesSettled _) s \<longleftrightarrow> lo_isLoadingCities (lf_options s)"
| "form_allowed ar d (FormAreasSettled n i _) s \<longleftrightarrow> (n, i) \<in> set (lo_requests (lf_options s))"
| "form_allowed ar d (OwnProfileChanged _) s \<longleftrightarrow> \<not> lf_closed s \<and> d = Publishing"
| "form_allowed ar d _ s \<longleftrightarrow> \<not> lf_closed s"

fun form_handler :: "bool \<Rightarrow> listing_copy \<Rightarrow> listing_dialog \<Rightarrow> form_event \<Rightarrow> listing_form \<Rightarrow> listing_form" where
  "form_handler ar c d (TitleTyped v) s = s\<lparr> lf_title := v \<rparr>"
| "form_handler ar c d (PriceTyped v) s = price_typed v s"
| "form_handler ar c d (CategoryPicked _ v) s = s\<lparr> lf_category := v \<rparr>"
| "form_handler ar c d (LocationPicked v) s = location_chosen v s"
| "form_handler ar c d (FormAreaPicked v) s = form_area_chosen v s"
| "form_handler ar c d (DescriptionTyped v) s = description_typed v s"
| "form_handler ar c d (ImagesChosen files now) s = handleImageUpload (id_prefix d) files now s"
| "form_handler ar c d (ImageRemoved i) s = remove_image i s"
| "form_handler ar c d (ImageAnswered i f r) s = image_validated c i f r s"
| "form_handler ar c d PublishPressed s = dialog_submit c d s"
| "form_handler ar c d (ListingAnswered b r) s = listing_submitted b r s"
| "form_handler ar c d (FormCitiesSettled cs) s = s\<lparr> lf_options := cities_settled cs (lf_options s) \<rparr>"
| "form_handler ar c d (FormAreasSettled n i as) s = s\<lparr> lf_options := areas_settled n i as (lf_options s) \<rparr>"
| "form_handler ar c d FormRendered s = form_effects ar s"
| "form_handler ar c d (OwnProfileChanged u) s = profile_effect u s"
| "form_handler ar c d FormClosed s = form_unmounted s"

fun upload_time :: "form_event \<Rightarrow> int option" where
  "upload_time (ImagesChosen _ t) = Some t"
| "upload_time _ = None"

definition later_than :: "form_event list \<Rightarrow> form_event \<Rightarrow> bool" where
  \<comment> \<open>the clock moves on between two choices of files\<close>
  "later_than es e = (case upload_time e of None \<Rightarrow> True | Some t \<Rightarrow> list_all (\<lambda>t'. t' < t) (List.map_filter upload_time es))"

inductive form_run ::
    "bool \<Rightarrow> listing_copy \<Rightarrow> listing_dialog \<Rightarrow> form_event list \<Rightarrow> listing_form \<Rightarrow> bool" for ar c d where
  opened: "form_run ar c d [] (dialog_opened d u)"
| step: "form_run ar c d es s \<Longrightarrow> form_allowed ar d e s \<Longrightarrow> later_than es e
    \<Longrightarrow> form_run ar c d (es @ [e]) (form_handler ar c d e s)"

fun form_trace :: "bool \<Rightarrow> listing_copy \<Rightarrow> listing_dialog \<Rightarrow> form_event list \<Rightarrow> form_event list \<Rightarrow> listing_form \<Rightarrow> listing_form option" where
  "form_trace ar c d past [] s = Some s"
| "form_trace ar c d past (e # es) s =
     (if form_allowed ar d e s \<and> later_than past e then form_trace ar c d (past @ [e]) es (form_handler ar c d e s) else None)"

lemma form_trace_run: "form_run ar c d es s \<Longrightarrow> form_trace ar c d es es' s = Some s' \<Longrightarrow> form_run ar c d (es @ es') s'"
proof (induction es' arbitrary: es s)
  case (Cons e es')
  then have "form_run ar c d (es @ [e]) (form_handler ar c d e s)"
      "form_trace ar c d (es @ [e]) es' (form_handler ar c d e s) = Some s'"
    by (auto split: if_splits intro: form_run.step)
  from Cons.IH [OF this] show ?case by simp
qed simp

section \<open>Identifiers of chosen files\<close>

fun chosen_in :: "string \<Rightarrow> ustr \<Rightarrow> image_input \<Rightarrow> form_event \<Rightarrow> bool" where
  "chosen_in pfx i f (ImagesChosen files t) \<longleftrightarrow> list_ex (\<lambda>(n, g, u). g = f \<and> i = image_id pfx f n t) (enumerate 0 files)"
| "chosen_in pfx i f _ \<longleftrightarrow> False"

definition from_upload :: "string \<Rightarrow> form_event list \<Rightarrow> ustr \<Rightarrow> image_input \<Rightarrow> bool" where
  "from_upload pfx es i f \<longleftrightarrow> list_ex (chosen_in pfx i f) es"













section \<open>Pictures and submissions\<close>

fun accepted_by :: "listing_copy \<Rightarrow> ustr \<Rightarrow> image_input \<Rightarrow> form_event \<Rightarrow> bool" where
  "accepted_by c i f (ImageAnswered j g r) \<longleftrightarrow> j = i \<and> g = f \<and> image_error c r = []"
| "accepted_by c i f _ \<longleftrightarrow> False"


fun dialog_pictures :: "listing_dialog \<Rightarrow> ustr list" where
  "dialog_pictures Publishing = []"
| "dialog_pictures (Editing p) = map li_preview (existing_images p)"

definition image_ok :: "listing_copy \<Rightarrow> listing_dialog \<Rightarrow> form_event list \<Rightarrow> listing_image \<Rightarrow> bool" where
  "image_ok c d es img \<longleftrightarrow>
     (case li_source img of
        UrlInput u \<Rightarrow> u \<in> set (dialog_pictures d) \<and> \<not> li_validating img
      | _ \<Rightarrow> from_upload (id_prefix d) es (li_id img) (li_source img)
          \<and> (li_validating img \<or> li_error img \<noteq> [] \<or> list_ex (accepted_by c (li_id img) (li_source img)) es))"
















lemma image_ok_UrlInput [simp]:
  "li_source img = UrlInput u \<Longrightarrow> image_ok c d es img \<longleftrightarrow> u \<in> set (dialog_pictures d) \<and> \<not> li_validating img"
  by (simp add: image_ok_def)








lemma submit_frame [simp]:
  "lf_images (submit_listing c errs sub s) = lf_images s" "lf_description (submit_listing c errs sub s) = lf_description s"
  "lf_price (submit_listing c errs sub s) = lf_price s" "lf_objectUrls (submit_listing c errs sub s) = lf_objectUrls s"
  "lf_live (submit_listing c errs sub s) = lf_live s" "lf_closed (submit_listing c errs sub s) = lf_closed s"
  by (simp_all add: submit_listing_def Let_def split: option.split)






section \<open>Addresses of chosen files\<close>

definition chosen_previews :: "listing_image list \<Rightarrow> ustr list" where
  "chosen_previews imgs = map li_preview (filter (\<lambda>i. chosen_file (li_source i)) imgs)"

definition addresses_ok :: "listing_form \<Rightarrow> bool" where
  \<comment> \<open>the browser keeps the addresses of the chosen pictures shown, and none once the form is closed\<close>
  "addresses_ok s \<longleftrightarrow>
     lf_objectUrls s = lf_live s \<and> distinct (lf_live s)
   \<and> lf_live s = (if lf_closed s then [] else chosen_previews (lf_images s))
   \<and> (\<not> lf_closed s \<longrightarrow> chosen_previews (drop MAX_IMAGES (lf_images s)) = [])"

lemma chosen_previews_append [simp]: "chosen_previews (xs @ ys) = chosen_previews xs @ chosen_previews ys"
  by (simp add: chosen_previews_def)

lemma chosen_previews_Cons [simp]:
  "chosen_previews (x # xs) = (if chosen_file (li_source x) then li_preview x # chosen_previews xs else chosen_previews xs)"
  by (simp add: chosen_previews_def)

lemma chosen_previews_Nil [simp]: "chosen_previews [] = []"
  by (simp add: chosen_previews_def)

lemma addresses_frame:
  "addresses_ok s \<Longrightarrow> lf_images s' = lf_images s \<Longrightarrow> lf_objectUrls s' = lf_objectUrls s \<Longrightarrow> lf_live s' = lf_live s
     \<Longrightarrow> lf_closed s' = lf_closed s \<Longrightarrow> addresses_ok s'"
  by (auto simp: addresses_ok_def)

lemma addresses_unmounted: "addresses_ok s \<Longrightarrow> addresses_ok (form_unmounted s)"
  by (auto simp: addresses_ok_def form_unmounted_def)

lemma addresses_marked: "addresses_ok s \<Longrightarrow> addresses_ok (mark_image i e s)"
proof -
  let ?mark = "\<lambda>img. if li_id img = i then img\<lparr> li_validating := False, li_error := e \<rparr> else img"
  have "chosen_previews (map ?mark imgs) = chosen_previews imgs" for imgs
    by (induction imgs) auto
  then show "addresses_ok s \<Longrightarrow> addresses_ok (mark_image i e s)"
    by (auto simp: addresses_ok_def mark_image_def drop_map)
qed

lemma addresses_uploaded:
  assumes ok: "addresses_ok s" and allowed: "form_allowed ar d (ImagesChosen files t) s"
  shows "addresses_ok (handleImageUpload pfx files t s)"
proof -
  define n where "n = MAX_IMAGES - length (lf_images s)"
  define items where "items = map (\<lambda>(i, f, u). \<lparr> li_id = image_id pfx f i t, li_preview = u, li_source = f,
      li_validating = True, li_error = [] \<rparr>) (enumerate 0 (take n files))"
  have shown: "chosen_previews (map (\<lambda>(i, f, u). \<lparr> li_id = image_id pfx f i t, li_preview = u, li_source = f,
      li_validating = True, li_error = [] \<rparr>) (enumerate k fs)) = map snd fs" if "list_all (\<lambda>(f, u). chosen_file f) fs" for k fs
    using that by (induction fs arbitrary: k) auto
  have "list_all (\<lambda>(f, u). chosen_file f) (take n files)"
    using allowed by (auto simp: list_all_iff dest: in_set_takeD)
  then have items: "chosen_previews items = map snd (take n files)" by (simp add: items_def shown)
  have len: "length items \<le> n" by (simp add: items_def)
  have taken: "chosen_previews (take MAX_IMAGES (lf_images s @ items)) = chosen_previews (lf_images s) @ map snd (take n files)"
  proof (cases "length (lf_images s) \<le> MAX_IMAGES")
    case True
    with len items show ?thesis by (simp add: n_def)
  next
    case False
    then have "n = 0" "items = []" using len by (simp_all add: n_def)
    moreover have "chosen_previews (lf_images s) = chosen_previews (take MAX_IMAGES (lf_images s))"
      using ok allowed append_take_drop_id [of MAX_IMAGES "lf_images s"]
      by (metis addresses_ok_def chosen_previews_append append_Nil2 form_allowed.simps(4))
    ultimately show ?thesis by simp
  qed
  have "u \<notin> set (lf_live s)" if u: "u \<in> set (map snd (take n files))" for u
    using allowed u by (auto simp: list_all_iff dest!: in_set_takeD)
  moreover have "distinct (map snd (take n files))"
    using allowed distinct_take [of "map snd files" n] by (simp add: take_map)
  moreover have "distinct (lf_live s)" using ok unfolding addresses_ok_def by blast
  ultimately have "distinct (lf_live s @ map snd (take n files))"
    unfolding distinct_append by blast
  with ok allowed taken show ?thesis
    by (simp add: addresses_ok_def handleImageUpload_def Let_def items_def n_def)
qed

lemma addresses_removed: "addresses_ok s \<Longrightarrow> \<not> lf_closed s \<Longrightarrow> addresses_ok (remove_image i s)"
proof -
  assume ok: "addresses_ok s" and open_form: "\<not> lf_closed s"
  have live: "lf_live s = chosen_previews (lf_images s)" "lf_objectUrls s = lf_live s" "distinct (chosen_previews (lf_images s))"
      "chosen_previews (drop MAX_IMAGES (lf_images s)) = []"
    using ok open_form by (auto simp: addresses_ok_def)
  let ?rest = "take i (lf_images s) @ drop (i + 1) (lf_images s)"
  have late: "chosen_previews (drop MAX_IMAGES ?rest) = []"
  proof -
    have "set (drop MAX_IMAGES ?rest) \<subseteq> set (drop MAX_IMAGES (lf_images s))"
    proof (cases "MAX_IMAGES \<le> i")
      case True
      then have "drop MAX_IMAGES ?rest = drop MAX_IMAGES (take i (lf_images s)) @ drop (i + 1) (lf_images s)"
        by (cases "i \<le> length (lf_images s)") simp_all
      moreover have "set (drop (i + 1) (lf_images s)) \<subseteq> set (drop MAX_IMAGES (lf_images s))"
        using True by (intro set_drop_subset_set_drop) simp
      moreover have "set (drop MAX_IMAGES (take i (lf_images s))) \<subseteq> set (drop MAX_IMAGES (lf_images s))"
        by (metis drop_take set_take_subset)
      ultimately show ?thesis by auto
    next
      case False
      then show ?thesis by (auto intro: subsetD [OF set_drop_subset_set_drop, rotated])
    qed
    then show ?thesis using live(4) by (auto simp: chosen_previews_def filter_empty_conv)
  qed
  show "addresses_ok (remove_image i s)"
  proof (cases "i < length (lf_images s)")
    case True
    then have split: "lf_images s = take i (lf_images s) @ lf_images s ! i # drop (i + 1) (lf_images s)"
      by (simp add: id_take_nth_drop)
    define xs where "xs = chosen_previews (take i (lf_images s))"
    define ys where "ys = chosen_previews (drop (i + 1) (lf_images s))"
    define x where "x = lf_images s ! i"
    have parts: "chosen_previews (lf_images s) = xs @ (if chosen_file (li_source x) then [li_preview x] else []) @ ys"
      unfolding xs_def ys_def x_def by (subst split) simp
    have rest: "chosen_previews ?rest = xs @ ys" by (simp add: xs_def ys_def)
    show ?thesis
    proof (cases "chosen_file (li_source x)")
      case True
      with parts live(3) have "li_preview x \<notin> set xs" "li_preview x \<notin> set ys" "distinct (xs @ ys)" by simp_all
      moreover from this True have "remove_image i s = s\<lparr> lf_imageError := None, lf_images := ?rest, lf_objectUrls := xs @ ys, lf_live := xs @ ys \<rparr>"
        using live(1,2) parts \<open>i < length (lf_images s)\<close> by (simp add: remove_image_def Let_def x_def [symmetric])
      ultimately show ?thesis using late rest open_form by (simp add: addresses_ok_def)
    next
      case False
      then have "remove_image i s = s\<lparr> lf_imageError := None, lf_images := ?rest \<rparr>"
        by (simp add: remove_image_def Let_def x_def [symmetric])
      with False parts late rest live open_form show ?thesis by (simp add: addresses_ok_def)
    qed
  next
    case False
    with live late open_form show ?thesis by (simp add: addresses_ok_def remove_image_def Let_def)
  qed
qed

lemma addresses_step:
  assumes ok: "addresses_ok s" and allowed: "form_allowed ar d e s"
  shows "addresses_ok (form_handler ar c d e s)"
proof (cases e)
  case (ImagesChosen files t)
  with addresses_uploaded [OF ok] allowed show ?thesis by simp
next
  case (ImageRemoved i)
  with addresses_removed [OF ok] allowed show ?thesis by simp
next
  case (ImageAnswered i f r)
  have "addresses_ok (s\<lparr> lf_tasks := ts \<rparr>)" for ts by (rule addresses_frame [OF ok]) simp_all
  with ImageAnswered show ?thesis by (simp add: image_validated_def addresses_marked)
next
  case PublishPressed
  have "addresses_ok (submit_listing c errs sub s)" for errs sub
    by (rule addresses_frame [OF ok]) simp_all
  with PublishPressed show ?thesis by (cases d) (simp_all add: create_handleSubmit_def edit_handleSubmit_def)
next
  case (ListingAnswered b r)
  have "addresses_ok (s\<lparr> lf_tasks := ts, lf_isSubmitting := False \<rparr>)" for ts by (rule addresses_frame [OF ok]) simp_all
  with ListingAnswered show ?thesis by (auto simp: listing_submitted_def Let_def addresses_unmounted split: sum.split)
next
  case FormClosed
  with addresses_unmounted [OF ok] show ?thesis by simp
qed (use ok in \<open>auto intro!: addresses_frame [OF ok] simp: price_typed_def location_chosen_def form_area_chosen_def
    description_typed_def form_effects_def profile_effect_def\<close>)

lemma addresses_run: "form_run ar c d es s \<Longrightarrow> addresses_ok s"
proof (induction rule: form_run.induct)
  case (opened u)
  have existing: "\<not> chosen_file (li_source x)" if "x \<in> set (existing_images p)" for x p
    using that by (auto simp: existing_images_def)
  have "chosen_previews (existing_images p) = []" "chosen_previews (drop n (existing_images p)) = []" for p n
    using existing by (auto simp: chosen_previews_def filter_empty_conv dest: in_set_dropD)
  then show ?case by (cases d) (simp_all add: addresses_ok_def create_opened_def edit_opened_def)
qed (rule addresses_step)

section \<open>Localized names\<close>

text \<open>Every change moves to an earlier place of the list, or to a name that stays.\<close>

definition place_index :: "(ustr \<times> ustr) list \<Rightarrow> ustr \<Rightarrow> nat" where
  "place_index ns loc = length (takeWhile (\<lambda>(en, a). \<not> (lower en = lower (trim loc) \<or> lower a = lower (trim loc))) ns)"

definition names_trimmed :: "(ustr \<times> ustr) list \<Rightarrow> bool" where
  "names_trimmed ns \<longleftrightarrow> list_all (\<lambda>(en, a). trim en = en \<and> trim a = a) ns"

lemma find_index:
  "find P xs = Some x \<Longrightarrow> length (takeWhile (\<lambda>y. \<not> P y) xs) < length xs \<and> xs ! length (takeWhile (\<lambda>y. \<not> P y) xs) = x \<and> P x"
  by (induction xs) (auto split: if_splits)

lemma localized_name_cases:
  assumes trimmed: "names_trimmed ns" and moved: "localized_name ar ns loc \<noteq> loc"
  defines "loc' \<equiv> localized_name ar ns loc"
  shows "localized_name ar ns loc' = loc' \<or> place_index ns loc' < place_index ns loc"
proof (cases "loc' = []")
  case True
  then show ?thesis by (simp add: localized_name_def)
next
  case False
  define P where "P l = (\<lambda>(en, a). lower en = lower (trim l) \<or> lower a = lower (trim l))" for l :: ustr
  have index: "place_index ns l = length (takeWhile (\<lambda>y. \<not> P l y) ns)" for l
    unfolding place_index_def P_def by (metis (no_types, lifting) case_prod_conv old.prod.exhaust)
  obtain en a where f: "find (P loc) ns = Some (en, a)" and loc': "loc' = (if ar \<and> a \<noteq> [] then a else en)"
    using moved by (auto simp: loc'_def localized_name_def P_def Let_def split: if_splits option.splits)
  from find_index [OF f] have k: "place_index ns loc < length ns" "ns ! place_index ns loc = (en, a)"
    by (simp_all add: index)
  then have "trim loc' = loc'" using trimmed loc' nth_mem [OF k(1)] by (auto simp: names_trimmed_def list_all_iff)
  then have P': "P loc' (en, a)" using loc' by (auto simp: P_def)
  have le: "place_index ns loc' \<le> place_index ns loc"
    unfolding index [of loc'] using k P' by (metis linorder_not_le nth_mem length_takeWhile_le set_takeWhileD takeWhile_nth)
  show ?thesis
  proof (cases "place_index ns loc' = place_index ns loc")
    case True
    have "find (P loc') ns \<noteq> None" using P' nth_mem [OF k(1)] k(2) by (auto simp: find_None_iff)
    then obtain q where q: "find (P loc') ns = Some q" by blast
    from find_index [OF q] True k have "q = (en, a)" by (simp add: index)
    with q False \<open>trim loc' = loc'\<close> have "localized_name ar ns loc' = loc'"
      by (simp add: localized_name_def P_def loc' [symmetric] Let_def)
    then show ?thesis ..
  qed (use le in simp)
qed

lemma iterate_fixed: "f ((f ^^ n) x) = (f ^^ n) x \<Longrightarrow> (f ^^ (k + n)) x = (f ^^ n) x"
  by (induction k) simp_all

lemma iterate_fixed_le: "f ((f ^^ n) x) = (f ^^ n) x \<Longrightarrow> n \<le> m \<Longrightarrow> (f ^^ m) x = (f ^^ n) x"
  using iterate_fixed [of f n x "m - n"] by simp

lemma localized_rests:
  assumes "names_trimmed ns"
  shows "let f = localized_name ar ns in f ((f ^^ Suc (place_index ns loc)) loc) = (f ^^ Suc (place_index ns loc)) loc"
proof (induction "place_index ns loc" arbitrary: loc rule: less_induct)
  case less
  define f where "f = localized_name ar ns"
  consider "f loc = loc" | "f (f loc) = f loc" | "place_index ns (f loc) < place_index ns loc"
    using localized_name_cases [OF assms, of ar loc] unfolding f_def by blast
  then have "f ((f ^^ Suc (place_index ns loc)) loc) = (f ^^ Suc (place_index ns loc)) loc"
  proof cases
    case 1
    with iterate_fixed [of f 0 loc] show ?thesis by simp
  next
    case 2
    with iterate_fixed_le [of f 1 loc "Suc (place_index ns loc)"] show ?thesis by simp
  next
    case 3
    from less [OF 3] have rest: "f ((f ^^ Suc (Suc (place_index ns (f loc)))) loc) = (f ^^ Suc (Suc (place_index ns (f loc)))) loc"
      by (simp add: f_def Let_def funpow_swap1)
    from iterate_fixed_le [OF this, of "Suc (place_index ns loc)"] 3 rest show ?thesis by simp
  qed
  then show ?case by (simp add: f_def Let_def)
qed

lemma localized_settled:
  assumes "names_trimmed ns" and "length ns < n"
  shows "localized_name ar ns ((localized_name ar ns ^^ n) loc) = (localized_name ar ns ^^ n) loc"
proof -
  have "Suc (place_index ns loc) \<le> n"
    using assms(2) length_takeWhile_le [of _ ns] by (simp add: place_index_def Suc_le_eq) (meson le_less_trans)
  from iterate_fixed_le [OF localized_rests [OF assms(1), unfolded Let_def] this] localized_rests [OF assms(1), of ar loc, unfolded Let_def]
  show ?thesis by simp
qed

lemma funpow_settled:
  assumes "\<And>k. m \<le> k \<Longrightarrow> g (Suc k) = f (g k)" and "\<And>x. f ((f ^^ n) x) = (f ^^ n) x"
  shows "g (Suc (m + n)) = g (m + n)"
proof -
  have "g (m + k) = (f ^^ k) (g m)" for k
    by (induction k) (simp_all add: assms(1))
  from this [of n] this [of "Suc n"] assms(2) [of "g m"] show ?thesis by simp
qed

lemma effects_keep_places:
  "lo_cities (lf_options (form_effects ar t)) = lo_cities (lf_options t)"
  "lo_areas (lf_options (form_effects ar t)) \<in> {[], lo_areas (lf_options t)}"
  by (auto simp: form_effects_def areas_effect_def Let_def split: option.splits)

lemma form_rest:
  assumes cities: "names_trimmed (map (\<lambda>c. (cityName c, cityNameAr c)) (lo_cities (lf_options s)))"
    and areas: "names_trimmed (map (\<lambda>a. (areaName a, areaNameAr a)) (lo_areas (lf_options s)))"
  defines "n \<equiv> length (lo_cities (lf_options s)) + length (lo_areas (lf_options s)) + 3"
  shows "form_effects ar ((form_effects ar ^^ n) s) = (form_effects ar ^^ n) s"
proof -
  define form where "form k = (form_effects ar ^^ k) s" for k
  define city where "city = localized_city ar (lo_cities (lf_options s))"
  define m where "m = Suc (length (lo_cities (lf_options s)))"
  have next_form: "form (Suc k) = form_effects ar (form k)" for k by (simp add: form_def)
  have known: "lo_cities (lf_options (form k)) = lo_cities (lf_options s) \<and> lo_areas (lf_options (form k)) \<in> {[], lo_areas (lf_options s)}" for k
  proof (induction k)
    case (Suc k)
    then show ?case using effects_keep_places [of ar "form k"] by (auto simp: next_form)
  qed (simp add: form_def)
  have loc: "lf_location (form k) = (city ^^ k) (lf_location s)" for k
  proof (induction k)
    case (Suc k)
    then show ?case using known [of k] by (simp add: next_form form_effects_def city_def)
  qed (simp add: form_def)
  have fixed: "city ((city ^^ m) l) = (city ^^ m) l" for l
    using localized_settled [OF cities, of m ar l]
    by (simp add: m_def city_def localized_city_def [abs_def])
  have loc_rest: "lf_location (form (m + k)) = lf_location (form m)" for k
    using iterate_fixed_le [OF fixed, of "m + k"] by (simp add: loc)
  have opt_rest: "lf_options (form (Suc m + k)) = lf_options (form (Suc m))" for k
  proof (induction k)
    case (Suc k)
    have "lf_options (form (Suc m + Suc k)) = areas_effect (lf_location (form (m + Suc k))) (lf_options (form (Suc m + k)))"
      using next_form [of "Suc m + k"] by (simp add: form_effects_def)
    also have "\<dots> = areas_effect (lf_location (form m)) (areas_effect (lf_location (form m)) (lf_options (form m)))"
      using Suc next_form [of m] loc_rest [of "Suc k"] by (simp add: form_effects_def)
    also have "\<dots> = lf_options (form (Suc m))"
      using next_form [of m] by (simp add: form_effects_def)
    finally show ?case .
  qed simp
  define xs where "xs = lo_areas (lf_options (form (Suc m)))"
  have xs: "names_trimmed (map (\<lambda>a. (areaName a, areaNameAr a)) xs)" "length xs \<le> length (lo_areas (lf_options s))"
    using known [of "Suc m"] areas by (auto simp: xs_def names_trimmed_def)
  have area: "lf_area (form (Suc k)) = localized_area ar xs (lf_area (form k))" if "Suc m \<le> k" for k
    using opt_rest [of "k - Suc m"] that next_form [of k] by (simp add: form_effects_def xs_def)
  have area_fixed: "localized_area ar xs ((localized_area ar xs ^^ Suc (length (lo_areas (lf_options s)))) l)
      = (localized_area ar xs ^^ Suc (length (lo_areas (lf_options s)))) l" for l
    using localized_settled [OF xs(1), of "Suc (length (lo_areas (lf_options s)))" ar l] xs(2)
    by (simp add: localized_area_def [abs_def] less_Suc_eq_le)
  have "lf_area (form (Suc (Suc m + Suc (length (lo_areas (lf_options s)))))) = lf_area (form (Suc m + Suc (length (lo_areas (lf_options s)))))"
    by (rule funpow_settled [where f = "localized_area ar xs" and g = "\<lambda>k. lf_area (form k)", OF area area_fixed])
  moreover have n: "Suc m + Suc (length (lo_areas (lf_options s))) = n" by (simp add: m_def n_def)
  ultimately have a: "lf_area (form (Suc n)) = lf_area (form n)" by simp
  have l: "lf_location (form (Suc n)) = lf_location (form n)" using loc_rest [of "n - m"] loc_rest [of "Suc n - m"] n by simp
  have o': "lf_options (form (Suc n)) = lf_options (form n)"
    using opt_rest [of "n - Suc m"] opt_rest [of "Suc n - Suc m"] n by simp
  have "form (Suc n) = (form n)\<lparr> lf_options := lf_options (form (Suc n)), lf_location := lf_location (form (Suc n)), lf_area := lf_area (form (Suc n)) \<rparr>"
    unfolding next_form [of n] by (simp add: form_effects_def)
  also have "\<dots> = form n" by (simp add: a l o')
  finally show ?thesis by (simp add: form_def)
qed

lemma trim_name_text [simp]: "trim (name_text payload ks) = name_text payload ks"
  by (simp add: name_text_def)

lemma normalizeCity_trimmed: "normalizeCity v = Some c \<Longrightarrow> trim (cityName c) = cityName c \<and> trim (cityNameAr c) = cityNameAr c"
  by (auto simp: normalizeCity_def Let_def split: option.splits if_splits)

lemma normalizeArea_trimmed: "normalizeArea v = Some a \<Longrightarrow> trim (areaName a) = areaName a \<and> trim (areaNameAr a) = areaNameAr a"
  by (auto simp: normalizeArea_def Let_def split: option.splits if_splits)

lemma getCities_trimmed: "names_trimmed (map (\<lambda>c. (cityName c, cityNameAr c)) (getCities r))"
  by (auto simp: names_trimmed_def list_all_iff getCities_def set_map_filter normalizeCity_trimmed
      split: api_response.splits jval.splits)

lemma getAreasByCity_trimmed: "names_trimmed (map (\<lambda>a. (areaName a, areaNameAr a)) (getAreasByCity i r))"
  by (auto simp: names_trimmed_def list_all_iff getAreasByCity_def set_map_filter normalizeArea_trimmed
      split: api_response.splits jval.splits option.splits)

section \<open>Samples\<close>

definition listing_texts :: listing_copy where
  "listing_texts = \<lparr> fc_waitForImages = U ''Please wait for image verification to complete'',
     fc_rejectedImages = U ''One or more images failed safety verification'', fc_imagesRequired = U ''Images are required'',
     fc_moderation = U ''Image rejected by moderation filters'', fc_tooLarge = U ''Image size exceeds the allowed limit.'',
     fc_unsupported = U ''Unsupported image file format.'', fc_emptyFile = U ''Image file is empty or required.'', fc_otherImageError = None \<rparr>"

definition photo :: image_input where
  "photo = FileInput (U ''car.png'') 900 5 (U ''image/png'')"

definition cars_category :: category where
  "cars_category = \<lparr> category_id = U ''3'', category_name = U '' Cars'', category_nameAr = [], category_image = [], category_postCount = 0 \<rparr>"

definition placeless_profile :: user_profile where
  "placeless_profile = amman_profile\<lparr> profile_city := None, profile_area := None \<rparr>"

definition late_profile_run :: "form_event list" where
  \<comment> \<open>a city is picked, and the profile with the area of another arrives\<close>
  "late_profile_run =
     [FormCitiesSettled (Some [\<lparr> cityId = 2, cityName = U ''Irbid'', cityNameAr = [] \<rparr>]), LocationPicked (U ''Irbid''),
      TitleTyped (U '' ''), PriceTyped (U ''12.5''), CategoryPicked [cars_category] (U ''Cars''), DescriptionTyped (U ''red''),
      ImagesChosen [(photo, U ''blob:1'')] 0, ImageAnswered (image_id '''' photo 0 0) photo (Inr (ApiOk Null)),
      OwnProfileChanged amman_profile, PublishPressed]"

lemma listing_sample:
  assumes "map_option q (form_trace ar c d [] es (dialog_opened d u)) = Some v"
  obtains s where "form_run ar c d es s" "q s = v"
proof -
  obtain z where z: "form_trace ar c d [] es (dialog_opened d u) = Some z" "q z = v" using assms by auto
  from form_trace_run [OF form_run.opened z(1)] z(2) show thesis by (intro that) simp_all
qed

definition late_submission :: listing_submission where
  "late_submission = \<lparr> sb_post = None, sb_name = U '' '', sb_price = Fin (25 / 2), sb_category = U ''Cars'', sb_status = None,
     sb_location = U ''Irbid'', sb_area = U ''Abdoun'', sb_description = U ''red'', sb_image = U ''blob:1'', sb_images = [photo] \<rparr>"

lemma late_profile_sample:
  obtains s where "form_run False listing_texts Publishing late_profile_run s" "lf_tasks s = [ListingSubmit late_submission]"
    "lf_isSubmitting s" "lf_live s = [U ''blob:1'']"
proof -
  have "map_option (\<lambda>s. (lf_tasks s, lf_isSubmitting s, lf_live s))
      (form_trace False listing_texts Publishing [] late_profile_run (dialog_opened Publishing placeless_profile))
      = Some ([ListingSubmit late_submission], True, [U ''blob:1''])"
    by code_simp
  then show thesis by (rule listing_sample) (auto intro: that)
qed



text \<open>
  Claim C35.  While the form of a listing is open, the addresses the browser keeps for it are exactly those of
  the chosen files shown, each once; when it has closed, none is kept.
\<close>
theorem file_addresses_released:
  assumes "form_run ar c d es s"
  shows "distinct (lf_live s)
    \<and> lf_live s = (if lf_closed s then [] else map li_preview (filter (\<lambda>i. chosen_file (li_source i)) (lf_images s)))"
  using addresses_run [OF assms] unfolding addresses_ok_def chosen_previews_def by blast

theorem file_addresses_released_witness:
  "\<exists>s. form_run False listing_texts Publishing late_profile_run s \<and> lf_live s = [U ''blob:1'']
     \<and> map li_preview (filter (\<lambda>i. chosen_file (li_source i)) (lf_images s)) = [U ''blob:1'']"
proof -
  obtain s where s: "form_run False listing_texts Publishing late_profile_run s" "lf_live s = [U ''blob:1'']"
    by (rule late_profile_sample)
  with file_addresses_released [OF s(1)] show ?thesis by (auto split: if_splits)
qed

text \<open>
  Claim C36.  The effects that rewrite city and area in the language in use come to rest: with the places the
  server's answers give, a few renders after the last other event the form no longer changes.
\<close>
theorem localized_places_rest:
  assumes cities: "lo_cities (lf_options s) = getCities r" and areas: "lo_areas (lf_options s) = getAreasByCity i q"
  shows "let n = length (getCities r) + length (getAreasByCity i q) + 3; s' = (form_effects ar ^^ n) s in form_effects ar s' = s'"
  using form_rest [of s ar] getCities_trimmed [of r] getAreasByCity_trimmed [of i q]
  unfolding cities areas by (simp only: Let_def)

definition two_cities :: api_response where
  "two_cities = ApiOk (Arr [Obj [(U ''cityId'', Num (Fin 1)), (U ''cityName'', Str (U ''Amman'')), (U ''cityNameAr'', Str (U ''Irbid''))],
     Obj [(U ''cityId'', Num (Fin 2)), (U ''cityName'', Str (U ''Zarqa'')), (U ''cityNameAr'', Str (U ''Amman''))]])"

theorem localized_places_rest_witness:
  "let s = (create_opened placeless_profile)\<lparr> lf_location := U ''zarqa '', lf_options := new_options\<lparr> lo_cities := getCities two_cities \<rparr> \<rparr>;
       s' = (form_effects True ^^ 5) s in
   form_effects True s' = s' \<and> lf_location (form_effects True s) = U ''Amman'' \<and> localized_city True (getCities two_cities) (U ''Amman'') = U ''Irbid''"
proof -
  let ?s = "(create_opened placeless_profile)\<lparr> lf_location := U ''zarqa '', lf_options := new_options\<lparr> lo_cities := getCities two_cities \<rparr> \<rparr>"
  have "length (getCities two_cities) = 2" "length (getAreasByCity (Num (Fin 0)) two_cities) = 0" by code_simp+
  moreover have "lo_areas (lf_options ?s) = getAreasByCity (Num (Fin 0)) two_cities" by code_simp
  ultimately have "form_effects True ((form_effects True ^^ 5) ?s) = (form_effects True ^^ 5) ?s"
    using localized_places_rest [of ?s two_cities "Num (Fin 0)" two_cities True] by (simp add: Let_def)
  moreover have "lf_location (form_effects True ?s) = U ''Amman''" "localized_city True (getCities two_cities) (U ''Amman'') = U ''Irbid''"
    by code_simp+
  ultimately show ?thesis by (simp add: Let_def)
qed

lemma late_profile_mismatch:
  "\<exists>s. form_run False listing_texts Publishing late_profile_run s \<and> ListingSubmit late_submission \<in> set (lf_tasks s)
     \<and> sb_location late_submission = U ''Irbid'' \<and> Some (sb_area late_submission) = profile_area amman_profile
     \<and> trim (sb_name late_submission) = []"
proof -
  obtain s where "form_run False listing_texts Publishing late_profile_run s" "lf_tasks s = [ListingSubmit late_submission]"
    by (rule late_profile_sample)
  moreover have "trim (sb_name late_submission) = []" "Some (sb_area late_submission) = profile_area amman_profile"
      "sb_location late_submission = U ''Irbid''" by code_simp+
  ultimately show ?thesis by auto
qed

end
