(* ===== verification/Roles.thy ===== *)
theory Roles
  imports AdminApi UrlState
begin

text \<open>
  Roles and their permissions: the endpoints (\<open>services/api/roles.ts\<close>), the page
  (\<open>features/admin/components/RolesManagement.tsx\<close>) and the dialog of the permissions of a role
  (\<open>PermissionsDialog.tsx\<close>), without markup and notices.  Handlers are cut at their awaits; what a
  suspended handler holds is a task of the page, and answers arrive in any order.  These requests carry no
  abort signal, so \<open>apiRequest\<close> answers and does not throw (\<open>ApiClient.request_bounded\<close>).
\<close>

section \<open>roles.ts\<close>

record role_record =
  rr_id :: int
  rr_name :: ustr
  rr_createdAt :: ustr
  rr_isDeleted :: bool

definition role_createdAt :: "jsenv \<Rightarrow> jval \<Rightarrow> ustr" where
  "role_createdAt env v =
     (case (case v of Str s \<Rightarrow> parse_date env s | _ \<Rightarrow> None) of
        Some t \<Rightarrow> iso_string env t
      | None \<Rightarrow> iso_string env (now_ms env))"

definition normalizeRoleRecord :: "jsenv \<Rightarrow> jval \<Rightarrow> role_record option" where
  "normalizeRoleRecord env v =
     (if asRecord v = None then None
      else
        (case toPositiveIntegerId (flds v [''RoleID'', ''roleID'', ''id'']) of
           None \<Rightarrow> None
         | Some i \<Rightarrow>
             (let n = trim (to_str (coalesce [fld v ''RoleName'', fld v ''roleName'', fld v ''name'', Str []])) in
              if n = [] then None
              else Some \<lparr> rr_id = i, rr_name = n, rr_createdAt = role_createdAt env (flds v [''CreatedAt'', ''createdAt'']),
                     rr_isDeleted = truthy (coalesce [fld v ''IsDeleted'', fld v ''isDeleted'', Bool False]) \<rparr>)))"

definition extractMessage :: "jval \<Rightarrow> string \<Rightarrow> ustr" where
  "extractMessage d fallback =
     (case coalesce [fld d ''message'', fld d ''Message''] of
        Str m \<Rightarrow> or_else (trim m) (U fallback)
      | _ \<Rightarrow> U fallback)"

record role_payload =
  rp_name :: ustr
  rp_createdAt :: "ustr option"
  rp_isDeleted :: "bool option"

definition role_body :: "jsenv \<Rightarrow> (ustr \<times> jval) list \<Rightarrow> role_payload \<Rightarrow> jval" where
  "role_body env ids p =
     Obj (ids @ [(U ''RoleName'', Str (trim (rp_name p))),
       (U ''CreatedAt'', Str (or_else (opt_str (rp_createdAt p)) (iso_string env (now_ms env)))),
       (U ''IsDeleted'', Bool (case rp_isDeleted p of None \<Rightarrow> False | Some b \<Rightarrow> b))])"

definition role_path :: "int \<Rightarrow> ustr" where
  "role_path i = U ''/roles/'' @ int_str i"

definition getRoles :: "jsenv \<Rightarrow> api_response \<Rightarrow> role_record list" where
  "getRoles env response =
     (case response of ApiOk (Arr vs) \<Rightarrow> List.map_filter (normalizeRoleRecord env) vs | _ \<Rightarrow> [])"

definition getRole :: "jsenv \<Rightarrow> ustr \<Rightarrow> api_response \<Rightarrow> role_record option" where
  "getRole env rid response =
     (case toPositiveIntegerId (Str rid) of
        None \<Rightarrow> None
      | Some _ \<Rightarrow> (case response of ApiOk d \<Rightarrow> if truthy d then normalizeRoleRecord env d else None | ApiErr _ \<Rightarrow> None))"

definition createRole_request :: "jsenv \<Rightarrow> role_payload \<Rightarrow> ustr + admin_request" where
  \<comment> \<open>the message of a refusal or what is sent\<close>
  "createRole_request env p =
     (if trim (rp_name p) = [] then Inl (U ''Role name is required'')
      else Inr ((admin_call ''POST'' (U ''/roles''))\<lparr> rq_body := Some (role_body env [] p) \<rparr>))"

definition updateRole_request :: "jsenv \<Rightarrow> ustr \<Rightarrow> role_payload \<Rightarrow> ustr + admin_request" where
  "updateRole_request env rid p =
     (case toPositiveIntegerId (Str rid) of
        None \<Rightarrow> Inl (U ''Invalid role ID'')
      | Some i \<Rightarrow>
          if trim (rp_name p) = [] then Inl (U ''Role name is required'')
          else Inr ((admin_call ''PUT'' (role_path i))\<lparr> rq_body := Some (role_body env [(U ''RoleID'', Num (Fin (of_int i)))] p) \<rparr>))"

definition deleteRole_request :: "ustr \<Rightarrow> ustr + admin_request" where
  "deleteRole_request rid =
     (case toPositiveIntegerId (Str rid) of
        None \<Rightarrow> Inl (U ''Invalid role ID'')
      | Some i \<Rightarrow> Inr (admin_call ''DELETE'' (role_path i)))"

definition role_reply :: "jsenv \<Rightarrow> string \<Rightarrow> string \<Rightarrow> ustr + admin_request \<Rightarrow> api_response \<Rightarrow> ustr + role_record" where
  \<comment> \<open>what \<open>createRole\<close> and \<open>updateRole\<close> make of the answer\<close>
  "role_reply env invalid failed request response =
     (case request of
        Inl m \<Rightarrow> Inl m
      | Inr _ \<Rightarrow>
          (case response of
             ApiErr e \<Rightarrow> Inl (or_else (err_message e) (U failed))
           | ApiOk d \<Rightarrow>
               if \<not> truthy d then Inl (U failed)
               else (case normalizeRoleRecord env d of Some r \<Rightarrow> Inr r | None \<Rightarrow> Inl (U invalid))))"

definition createRole :: "jsenv \<Rightarrow> role_payload \<Rightarrow> api_response \<Rightarrow> ustr + role_record" where
  "createRole env p = role_reply env ''Role created but response payload was invalid'' ''Failed to create role'' (createRole_request env p)"

definition updateRole :: "jsenv \<Rightarrow> ustr \<Rightarrow> role_payload \<Rightarrow> api_response \<Rightarrow> ustr + role_record" where
  "updateRole env rid p =
     role_reply env ''Role updated but response payload was invalid'' ''Failed to update role'' (updateRole_request env rid p)"

definition deleteRole :: "ustr \<Rightarrow> api_response \<Rightarrow> ustr + ustr" where
  \<comment> \<open>the message of the failure or of the success\<close>
  "deleteRole rid response =
     (case deleteRole_request rid of
        Inl m \<Rightarrow> Inl m
      | Inr _ \<Rightarrow>
          (case response of
             ApiOk d \<Rightarrow> Inr (extractMessage d ''Role deleted successfully'')
           | ApiErr e \<Rightarrow> Inl (or_else (err_message e) (U ''Failed to delete role''))))"

definition role_exists :: "ustr \<Rightarrow> api_response \<Rightarrow> bool" where
  "role_exists rid response =
     (case toPositiveIntegerId (Str rid) of
        None \<Rightarrow> False
      | Some _ \<Rightarrow> (case response of ApiOk d \<Rightarrow> truthy d | ApiErr _ \<Rightarrow> False))"

section \<open>RolesManagement.tsx\<close>

record role_row =
  rw_id :: ustr
  rw_name :: ustr
  rw_createdAt :: ustr

definition normalizeRole :: "role_record \<Rightarrow> role_row" where
  "normalizeRole r = \<lparr> rw_id = trim (int_str (rr_id r)), rw_name = trim (rr_name r), rw_createdAt = rr_createdAt r \<rparr>"

definition isSystemRoleId :: "ustr \<Rightarrow> bool" where
  "isSystemRoleId rid \<longleftrightarrow> str_num rid = Fin 1 \<or> str_num rid = Fin 2"

datatype role_task =
    FetchRoles bool             \<comment> \<open>awaited by a save\<close>
  | SaveExists role_row ustr
  | SaveUpdate role_row ustr
  | SaveCreate ustr
  | EditExists role_row
  | EditGet role_row
  | DeleteExists role_row
  | DeleteCall role_row

record roles_page =
  rl_roles :: "role_row list"
  rl_searchQuery :: ustr
  rl_isAddOpen :: bool
  rl_isEditOpen :: bool
  rl_isSaving :: bool
  rl_selectedRole :: "role_row option"
  rl_roleName :: ustr
  rl_pendingDelete :: "role_row option"
  rl_permDialogRole :: "role_row option"
  rl_tasks :: "role_task list"

definition roles_mounted :: roles_page where
  "roles_mounted = \<lparr> rl_roles = [], rl_searchQuery = [], rl_isAddOpen = False, rl_isEditOpen = False, rl_isSaving = False,
     rl_selectedRole = None, rl_roleName = [], rl_pendingDelete = None, rl_permDialogRole = None, rl_tasks = [FetchRoles False] \<rparr>"

definition filteredRoles :: "roles_page \<Rightarrow> role_row list" where
  "filteredRoles s = filter (\<lambda>r. js_includes (lower (rw_name r)) (lower (rl_searchQuery s))) (rl_roles s)"

definition add_role_task :: "role_task \<Rightarrow> roles_page \<Rightarrow> roles_page" where
  "add_role_task t s = s\<lparr> rl_tasks := rl_tasks s @ [t] \<rparr>"

definition without_role :: "ustr \<Rightarrow> roles_page \<Rightarrow> roles_page" where
  "without_role rid s = s\<lparr> rl_roles := filter (\<lambda>r. rw_id r \<noteq> rid) (rl_roles s) \<rparr>"

definition save_finished :: "roles_page \<Rightarrow> roles_page" where
  \<comment> \<open>the \<open>finally\<close> of \<open>handleSave\<close>\<close>
  "save_finished s = s\<lparr> rl_roleName := [], rl_selectedRole := None, rl_isSaving := False \<rparr>"

definition role_handleSave :: "roles_page \<Rightarrow> roles_page" where
  "role_handleSave s =
     (let n = trim (rl_roleName s) in
      if n = [] then s
      else add_role_task (case rl_selectedRole s of Some r \<Rightarrow> SaveExists r n | None \<Rightarrow> SaveCreate n) (s\<lparr> rl_isSaving := True \<rparr>))"

definition openEdit :: "role_row \<Rightarrow> roles_page \<Rightarrow> roles_page" where
  "openEdit r s = (if isSystemRoleId (rw_id r) then s else add_role_task (EditExists r) s)"

definition deleteRole_start :: "role_row \<Rightarrow> roles_page \<Rightarrow> roles_page" where
  "deleteRole_start r s = (if isSystemRoleId (rw_id r) then s else add_role_task (DeleteExists r) s)"

definition role_rows :: "jsenv \<Rightarrow> api_response \<Rightarrow> role_row list" where
  "role_rows env response = filter (\<lambda>r. rw_id r \<noteq> [] \<and> rw_name r \<noteq> []) (map normalizeRole (getRoles env response))"

definition named_payload :: "ustr \<Rightarrow> role_payload" where
  "named_payload n = \<lparr> rp_name = n, rp_createdAt = None, rp_isDeleted = None \<rparr>"

fun role_continued :: "jsenv \<Rightarrow> role_task \<Rightarrow> api_response \<Rightarrow> roles_page \<Rightarrow> roles_page" where
  "role_continued env (FetchRoles saving) reply s =
     (let s' = s\<lparr> rl_roles := role_rows env reply \<rparr> in if saving then save_finished (s'\<lparr> rl_isAddOpen := False \<rparr>) else s')"
| "role_continued env (SaveExists r n) reply s =
     (if role_exists (rw_id r) reply then add_role_task (SaveUpdate r n) s
      else save_finished ((without_role (rw_id r) s)\<lparr> rl_isEditOpen := False \<rparr>))"
| "role_continued env (SaveUpdate r n) reply s =
     save_finished (case updateRole env (rw_id r) (named_payload n) reply of
         Inr q \<Rightarrow> s\<lparr> rl_roles := map (\<lambda>x. if rw_id x = rw_id r then normalizeRole q else x) (rl_roles s), rl_isEditOpen := False \<rparr>
       | Inl _ \<Rightarrow> s)"
| "role_continued env (SaveCreate n) reply s =
     (case createRole env (named_payload n) reply of
        Inl _ \<Rightarrow> save_finished s
      | Inr q \<Rightarrow>
          let x = normalizeRole q in
          if rw_id x \<noteq> [] \<and> rw_name x \<noteq> []
          then save_finished (s\<lparr> rl_roles := rl_roles s @ [x], rl_isAddOpen := False \<rparr>)
          else add_role_task (FetchRoles True) s)"
| "role_continued env (EditExists r) reply s =
     (if role_exists (rw_id r) reply then add_role_task (EditGet r) s else without_role (rw_id r) s)"
| "role_continued env (EditGet r) reply s =
     (let source = (case getRole env (rw_id r) reply of Some q \<Rightarrow> normalizeRole q | None \<Rightarrow> r) in
      s\<lparr> rl_selectedRole := Some source, rl_roleName := rw_name source, rl_isEditOpen := True \<rparr>)"
| "role_continued env (DeleteExists r) reply s =
     (if role_exists (rw_id r) reply then add_role_task (DeleteCall r) s else without_role (rw_id r) s)"
| "role_continued env (DeleteCall r) reply s =
     (case deleteRole (rw_id r) reply of Inr _ \<Rightarrow> without_role (rw_id r) s | Inl _ \<Rightarrow> s)"

definition role_answered :: "jsenv \<Rightarrow> role_task \<Rightarrow> api_response \<Rightarrow> roles_page \<Rightarrow> roles_page" where
  "role_answered env t reply s = role_continued env t reply (s\<lparr> rl_tasks := remove1 t (rl_tasks s) \<rparr>)"

datatype roles_event =
    RoleSearched ustr
  | AddOpened
  | AddClosed
  | RoleNameTyped ustr
  | EditPressed role_row
  | EditClosed
  | RoleSavePressed
  | DeleteAsked role_row
  | DeleteDismissed
  | DeleteConfirmed
  | PermissionsOpened role_row
  | PermissionsDismissed
  | RoleAnswered role_task api_response

definition no_dialog :: "roles_page \<Rightarrow> bool" where
  "no_dialog s \<longleftrightarrow> \<not> rl_isAddOpen s \<and> \<not> rl_isEditOpen s \<and> rl_pendingDelete s = None \<and> rl_permDialogRole s = None"

fun roles_allowed :: "roles_event \<Rightarrow> roles_page \<Rightarrow> bool" where
  \<comment> \<open>the page lies behind an open dialog; the buttons of system roles are disabled\<close>
  "roles_allowed (RoleSearched _) s \<longleftrightarrow> no_dialog s"
| "roles_allowed AddOpened s \<longleftrightarrow> no_dialog s"
| "roles_allowed AddClosed s \<longleftrightarrow> rl_isAddOpen s"
| "roles_allowed (RoleNameTyped _) s \<longleftrightarrow> rl_isAddOpen s \<or> rl_isEditOpen s"
| "roles_allowed (EditPressed r) s \<longleftrightarrow> no_dialog s \<and> r \<in> set (filteredRoles s) \<and> \<not> isSystemRoleId (rw_id r)"
| "roles_allowed EditClosed s \<longleftrightarrow> rl_isEditOpen s"
| "roles_allowed RoleSavePressed s \<longleftrightarrow> (rl_isAddOpen s \<or> rl_isEditOpen s) \<and> \<not> rl_isSaving s"
| "roles_allowed (DeleteAsked r) s \<longleftrightarrow> no_dialog s \<and> r \<in> set (filteredRoles s) \<and> \<not> isSystemRoleId (rw_id r)"
| "roles_allowed DeleteDismissed s \<longleftrightarrow> rl_pendingDelete s \<noteq> None"
| "roles_allowed DeleteConfirmed s \<longleftrightarrow> rl_pendingDelete s \<noteq> None"
| "roles_allowed (PermissionsOpened r) s \<longleftrightarrow> no_dialog s \<and> r \<in> set (filteredRoles s)"
| "roles_allowed PermissionsDismissed s \<longleftrightarrow> rl_permDialogRole s \<noteq> None"
| "roles_allowed (RoleAnswered t _) s \<longleftrightarrow> t \<in> set (rl_tasks s)"

fun roles_handler :: "jsenv \<Rightarrow> roles_event \<Rightarrow> roles_page \<Rightarrow> roles_page" where
  "roles_handler env (RoleSearched v) s = s\<lparr> rl_searchQuery := v \<rparr>"
| "roles_handler env AddOpened s = s\<lparr> rl_selectedRole := None, rl_roleName := [], rl_isAddOpen := True \<rparr>"
| "roles_handler env AddClosed s = s\<lparr> rl_isAddOpen := False, rl_roleName := [], rl_selectedRole := None \<rparr>"
| "roles_handler env (RoleNameTyped v) s = s\<lparr> rl_roleName := v \<rparr>"
| "roles_handler env (EditPressed r) s = openEdit r s"
| "roles_handler env EditClosed s = s\<lparr> rl_isEditOpen := False, rl_selectedRole := None, rl_roleName := [] \<rparr>"
| "roles_handler env RoleSavePressed s = role_handleSave s"
| "roles_handler env (DeleteAsked r) s = s\<lparr> rl_pendingDelete := Some r \<rparr>"
| "roles_handler env DeleteDismissed s = s\<lparr> rl_pendingDelete := None \<rparr>"
| "roles_handler env DeleteConfirmed s =
     (case rl_pendingDelete s of None \<Rightarrow> s | Some r \<Rightarrow> (deleteRole_start r s)\<lparr> rl_pendingDelete := None \<rparr>)"
| "roles_handler env (PermissionsOpened r) s = s\<lparr> rl_permDialogRole := Some r \<rparr>"
| "roles_handler env PermissionsDismissed s = s\<lparr> rl_permDialogRole := None \<rparr>"
| "roles_handler env (RoleAnswered t reply) s = role_answered env t reply s"

inductive roles_run :: "jsenv \<Rightarrow> roles_event list \<Rightarrow> roles_page \<Rightarrow> bool" for env where
  mounted: "roles_run env [] roles_mounted"
| step: "roles_run env es s \<Longrightarrow> roles_allowed e s \<Longrightarrow> roles_run env (es @ [e]) (roles_handler env e s)"

fun roles_trace :: "jsenv \<Rightarrow> roles_event list \<Rightarrow> roles_page \<Rightarrow> roles_page option" where
  "roles_trace env [] s = Some s"
| "roles_trace env (e # es) s = (if roles_allowed e s then roles_trace env es (roles_handler env e s) else None)"

lemma roles_trace_run: "roles_run env es s \<Longrightarrow> roles_trace env es' s = Some s' \<Longrightarrow> roles_run env (es @ es') s'"
proof (induction es' arbitrary: es s)
  case (Cons e es')
  then have "roles_run env (es @ [e]) (roles_handler env e s)" "roles_trace env es' (roles_handler env e s) = Some s'"
    by (auto split: if_splits intro: roles_run.step)
  from Cons.IH [OF this] show ?case by simp
qed simp

section \<open>Roles changed\<close>




fun save_task :: "role_task \<Rightarrow> bool" where
  "save_task (FetchRoles saving) \<longleftrightarrow> saving"
| "save_task (SaveExists _ _) \<longleftrightarrow> True"
| "save_task (SaveUpdate _ _) \<longleftrightarrow> True"
| "save_task (SaveCreate _) \<longleftrightarrow> True"
| "save_task _ \<longleftrightarrow> False"

definition saves :: "role_task list \<Rightarrow> nat" where
  "saves ts = length (filter save_task ts)"








lemma saves_simps [simp]:
  "saves [] = 0" "saves (t # ts) = (if save_task t then Suc (saves ts) else saves ts)" "saves (ts @ us) = saves ts + saves us"
  by (simp_all add: saves_def)














section \<open>PermissionsDialog.tsx\<close>

fun number_ids :: "jval list \<Rightarrow> jnum list option" where
  "number_ids [] = Some []"
| "number_ids (Num n # vs) = map_option ((#) n) (number_ids vs)"
| "number_ids _ = None"

definition role_permission_ids :: "thrown + api_response \<Rightarrow> jnum list option" where
  "role_permission_ids reply =
     (case getRolePermissions reply of Inr (Arr vs) \<Rightarrow> number_ids vs | _ \<Rightarrow> None)"

record permissions_dialog =
  pd_all :: jval
  pd_selected :: "jnum list"          \<comment> \<open>a set in insertion order\<close>
  pd_isSaving :: bool
  pd_isLoading :: bool
  pd_loaded :: bool
  pd_loadError :: bool
  pd_open :: bool
  pd_loads :: nat                     \<comment> \<open>rounds of requests made\<close>
  pd_sent :: "jnum list option"       \<comment> \<open>permissions of the save under way\<close>

definition loadPermissions :: "permissions_dialog \<Rightarrow> permissions_dialog" where
  "loadPermissions s =
     (if pd_loaded s \<or> pd_isLoading s then s
      else s\<lparr> pd_isLoading := True, pd_loadError := False, pd_loads := pd_loads s + 1 \<rparr>)"

definition permissions_effect :: "permissions_dialog \<Rightarrow> permissions_dialog" where
  \<comment> \<open>the effect on \<open>loadPermissions\<close>, which is another function whenever \<open>isLoading\<close> or \<open>loaded\<close> change\<close>
  "permissions_effect s = (if pd_open s then loadPermissions s else s)"

definition permissions_opened :: permissions_dialog where
  "permissions_opened = permissions_effect
     \<lparr> pd_all = Arr [], pd_selected = [], pd_isSaving = False, pd_isLoading = False, pd_loaded = False, pd_loadError = False,
       pd_open = True, pd_loads = 0, pd_sent = None \<rparr>"

definition permissions_loaded :: "thrown + api_response \<Rightarrow> thrown + api_response \<Rightarrow> permissions_dialog \<Rightarrow> permissions_dialog" where
  \<comment> \<open>the two answers awaited together\<close>
  "permissions_loaded r1 r2 s =
     (case (getPermissions r1, role_permission_ids r2) of
        (Inr p, Some ns) \<Rightarrow> s\<lparr> pd_all := p, pd_selected := uniq ns, pd_loaded := True, pd_isLoading := False \<rparr>
      | _ \<Rightarrow> s\<lparr> pd_loadError := True, pd_isLoading := False \<rparr>)"

definition togglePermission :: "jnum \<Rightarrow> permissions_dialog \<Rightarrow> permissions_dialog" where
  "togglePermission i s =
     s\<lparr> pd_selected := (if i \<in> set (pd_selected s) then removeAll i (pd_selected s) else pd_selected s @ [i]) \<rparr>"

definition permissions_handleSave :: "permissions_dialog \<Rightarrow> permissions_dialog" where
  "permissions_handleSave s = s\<lparr> pd_isSaving := True, pd_sent := Some (pd_selected s) \<rparr>"

definition permissions_saved :: "bool \<Rightarrow> permissions_dialog \<Rightarrow> permissions_dialog" where
  \<comment> \<open>whether the save succeeded; a success closes the dialog\<close>
  "permissions_saved ok s =
     (if ok then s\<lparr> pd_sent := None, pd_open := False, pd_loaded := False, pd_isSaving := False \<rparr>
      else s\<lparr> pd_sent := None, pd_isSaving := False \<rparr>)"

definition resetDialogState :: "permissions_dialog \<Rightarrow> permissions_dialog" where
  "resetDialogState s =
     s\<lparr> pd_all := Arr [], pd_selected := [], pd_loaded := False, pd_isLoading := False, pd_loadError := False \<rparr>"

datatype permissions_event =
    PermissionsAnswered "thrown + api_response" "thrown + api_response"
  | PermissionToggled jnum
  | PermissionsSavePressed
  | PermissionsSaved bool
  | RetryPressed
  | PermissionsClosed

fun permissions_allowed :: "permissions_event \<Rightarrow> permissions_dialog \<Rightarrow> bool" where
  \<comment> \<open>the controls shown, and the answers awaited; the identifiers of a role arrive as numbers\<close>
  "permissions_allowed (PermissionsAnswered r1 r2) s \<longleftrightarrow> pd_open s \<and> pd_isLoading s
     \<and> (case getRolePermissions r2 of Inr d \<Rightarrow> role_permission_ids r2 \<noteq> None | Inl _ \<Rightarrow> True)"
| "permissions_allowed (PermissionToggled i) s \<longleftrightarrow> pd_open s \<and> pd_loaded s"
| "permissions_allowed PermissionsSavePressed s \<longleftrightarrow> pd_open s \<and> \<not> pd_isSaving s \<and> \<not> pd_isLoading s \<and> pd_loaded s"
| "permissions_allowed (PermissionsSaved _) s \<longleftrightarrow> pd_sent s \<noteq> None"
| "permissions_allowed RetryPressed s \<longleftrightarrow> pd_open s \<and> \<not> pd_isLoading s \<and> pd_loadError s"
| "permissions_allowed PermissionsClosed s \<longleftrightarrow> pd_open s"

fun permissions_handler :: "permissions_event \<Rightarrow> permissions_dialog \<Rightarrow> permissions_dialog" where
  "permissions_handler (PermissionsAnswered r1 r2) s = permissions_loaded r1 r2 s"
| "permissions_handler (PermissionToggled i) s = togglePermission i s"
| "permissions_handler PermissionsSavePressed s = permissions_handleSave s"
| "permissions_handler (PermissionsSaved ok) s = permissions_saved ok s"
| "permissions_handler RetryPressed s = loadPermissions s"
| "permissions_handler PermissionsClosed s = (resetDialogState s)\<lparr> pd_open := False \<rparr>"

inductive permissions_run :: "permissions_event list \<Rightarrow> permissions_dialog \<Rightarrow> bool" where
  opened: "permissions_run [] permissions_opened"
| step: "permissions_run es s \<Longrightarrow> permissions_allowed e s
    \<Longrightarrow> permissions_run (es @ [e]) (permissions_effect (permissions_handler e s))"

fun permissions_trace :: "permissions_event list \<Rightarrow> permissions_dialog \<Rightarrow> permissions_dialog option" where
  "permissions_trace [] s = Some s"
| "permissions_trace (e # es) s =
     (if permissions_allowed e s then permissions_trace es (permissions_effect (permissions_handler e s)) else None)"

lemma permissions_trace_run: "permissions_run es s \<Longrightarrow> permissions_trace es' s = Some s' \<Longrightarrow> permissions_run (es @ es') s'"
proof (induction es' arbitrary: es s)
  case (Cons e es')
  then have "permissions_run (es @ [e]) (permissions_effect (permissions_handler e s))"
      "permissions_trace es' (permissions_effect (permissions_handler e s)) = Some s'"
    by (auto split: if_splits intro: permissions_run.step)
  from Cons.IH [OF this] show ?case by simp
qed simp

text \<open>What the user chose: the permissions the role was answered with, and the boxes ticked since.\<close>

fun chosen_by :: "permissions_event \<Rightarrow> jnum set \<Rightarrow> jnum set" where
  "chosen_by (PermissionsAnswered r1 r2) S = (case (getPermissions r1, role_permission_ids r2) of (Inr _, Some ns) \<Rightarrow> set ns | _ \<Rightarrow> S)"
| "chosen_by (PermissionToggled i) S = (if i \<in> S then S - {i} else insert i S)"
| "chosen_by PermissionsClosed S = {}"
| "chosen_by _ S = S"

definition chosen_perms :: "permissions_event list \<Rightarrow> jnum set" where
  "chosen_perms es = fold chosen_by es {}"

fun load_failed :: "permissions_event \<Rightarrow> bool" where
  "load_failed (PermissionsAnswered r1 r2) \<longleftrightarrow> (case (getPermissions r1, role_permission_ids r2) of (Inr _, Some ns) \<Rightarrow> False | _ \<Rightarrow> True)"
| "load_failed _ \<longleftrightarrow> False"

definition permissions_ok :: "permissions_event list \<Rightarrow> permissions_dialog \<Rightarrow> bool" where
  "permissions_ok es s \<longleftrightarrow>
     distinct (pd_selected s) \<and> set (pd_selected s) = chosen_perms es
   \<and> (pd_open s \<longrightarrow> \<not> pd_loadError s \<and> pd_isLoading s = (\<not> pd_loaded s) \<and> pd_loads s = Suc (length (filter load_failed es)))
   \<and> (pd_sent s \<noteq> None) = pd_isSaving s"

lemma chosen_perms_snoc [simp]: "chosen_perms (es @ [e]) = chosen_by e (chosen_perms es)" "chosen_perms [] = {}"
  by (simp_all add: chosen_perms_def)

lemma permissions_step_ok:
  assumes ok: "permissions_ok es s" and allowed: "permissions_allowed e s"
  shows "permissions_ok (es @ [e]) (permissions_effect (permissions_handler e s))"
proof (cases e)
  case (PermissionsAnswered r1 r2)
  with ok allowed show ?thesis
    by (auto simp: permissions_ok_def permissions_loaded_def permissions_effect_def loadPermissions_def distinct_uniq set_uniq
        split: sum.split option.split)
qed (use ok allowed in \<open>auto simp: permissions_ok_def permissions_effect_def loadPermissions_def togglePermission_def
    permissions_handleSave_def permissions_saved_def resetDialogState_def distinct_removeAll\<close>)

lemma permissions_run_ok: "permissions_run es s \<Longrightarrow> permissions_ok es s"
proof (induction rule: permissions_run.induct)
  case opened
  show ?case by (simp add: permissions_ok_def permissions_opened_def permissions_effect_def loadPermissions_def)
qed (rule permissions_step_ok)

lemma sent_chosen:
  "permissions_run es s \<Longrightarrow> pd_sent s = Some ids \<Longrightarrow>
     \<exists>es1 es2. es = es1 @ PermissionsSavePressed # es2 \<and> distinct ids \<and> set ids = chosen_perms es1 \<and> \<not> list_ex (\<lambda>e. e = PermissionsSavePressed) es2"
proof (induction arbitrary: ids rule: permissions_run.induct)
  case opened
  then show ?case by (simp add: permissions_opened_def permissions_effect_def loadPermissions_def)
next
  case (step es s e)
  show ?case
  proof (cases "e = PermissionsSavePressed")
    case True
    with step.prems have "ids = pd_selected s"
      by (auto simp: permissions_effect_def loadPermissions_def permissions_handleSave_def split: if_splits)
    with permissions_run_ok [OF step.hyps(1)] True show ?thesis
      by (intro exI [of _ es] exI [of _ "[]"]) (simp add: permissions_ok_def)
  next
    case False
    have "pd_sent s = Some ids"
      using step.prems False by (cases e) (auto simp: permissions_effect_def loadPermissions_def permissions_loaded_def togglePermission_def
          permissions_saved_def resetDialogState_def split: if_splits sum.splits option.splits)
    from step.IH [OF this] obtain es1 es2 where "es = es1 @ PermissionsSavePressed # es2" "distinct ids" "set ids = chosen_perms es1"
        "\<not> list_ex (\<lambda>e. e = PermissionsSavePressed) es2" by blast
    with False show ?thesis by (intro exI [of _ es1] exI [of _ "es2 @ [e]"]) simp
  qed
qed

section \<open>Properties\<close>

definition helper_role :: jval where
  "helper_role = Obj [(U ''roleID'', Num (Fin 5)), (U ''roleName'', Str (U '' Helper ''))]"

definition helper_row :: role_row where
  "helper_row = \<lparr> rw_id = U ''5'', rw_name = U ''Helper'', rw_createdAt = U ''1700000000000'' \<rparr>"

definition lost_selection_run :: "roles_event list" where
  \<comment> \<open>a role is being created while another is opened for a change\<close>
  "lost_selection_run =
     [RoleAnswered (FetchRoles False) (ApiOk (Arr [helper_role])), AddOpened, RoleNameTyped (U ''Porter''), RoleSavePressed, AddClosed,
      EditPressed helper_row, RoleAnswered (EditExists helper_row) (ApiOk (Bool True)),
      RoleAnswered (EditGet helper_row) (ApiOk helper_role),
      RoleAnswered (SaveCreate (U ''Porter'')) (ApiOk (Obj [(U ''id'', Num (Fin 6)), (U ''name'', Str (U ''Porter''))])),
      RoleNameTyped (U ''Clerk''), RoleSavePressed]"

definition failed_check_run :: "roles_event list" where
  "failed_check_run =
     [RoleAnswered (FetchRoles False) (ApiOk (Arr [helper_role])), EditPressed helper_row,
      RoleAnswered (EditExists helper_row) (ApiErr \<lparr> err_code = U ''NETWORK_ERROR'', err_message = [], err_details = Undef \<rparr>)]"

lemma roles_sample:
  assumes "map_option q (roles_trace ref_env es roles_mounted) = Some v"
  obtains s where "roles_run ref_env es s" "q s = v"
proof -
  obtain z where z: "roles_trace ref_env es roles_mounted = Some z" "q z = v" using assms by auto
  from roles_trace_run [OF roles_run.mounted z(1)] z(2) show thesis by (intro that) simp_all
qed

lemma lost_selection_sample:
  obtains s where "roles_run ref_env lost_selection_run s" "rl_tasks s = [SaveCreate (U ''Clerk'')]" "rl_isEditOpen s" "\<not> rl_isAddOpen s"
proof -
  have "map_option (\<lambda>s. (rl_tasks s, rl_isEditOpen s, rl_isAddOpen s)) (roles_trace ref_env lost_selection_run roles_mounted)
      = Some ([SaveCreate (U ''Clerk'')], True, False)"
    by code_simp
  then show thesis by (rule roles_sample) (auto intro: that)
qed



text \<open>
  A save that settles clears what another dialog edits: the dialog of the role \<open>Helper\<close> then creates a role.
  A check that fails takes the role off the table.
\<close>

lemma save_clears_other_dialog:
  "\<exists>s. roles_run ref_env lost_selection_run s \<and> rl_isEditOpen s \<and> \<not> rl_isAddOpen s \<and> rl_tasks s = [SaveCreate (U ''Clerk'')]"
  by (rule lost_selection_sample) blast

lemma failed_check_drops_role:
  "\<exists>s. roles_run ref_env failed_check_run s \<and> rl_roles s = [] \<and> rl_tasks s = []"
proof -
  have "map_option (\<lambda>s. (rl_roles s, rl_tasks s)) (roles_trace ref_env failed_check_run roles_mounted) = Some ([], [])"
    by code_simp
  then show ?thesis by (rule roles_sample) auto
qed

text \<open>
  Claim C38.  The permissions saved for a role are those it was answered with, as a set, changed by the boxes
  the user ticked up to the save, and are sent only once they were loaded.  An open dialog that has not
  loaded is always loading: a failed load is at once repeated, without end while it fails, and the button to
  try again is never shown.
\<close>
theorem permissions_saved_as_chosen:
  assumes "permissions_run es s"
  shows "(pd_loaded s \<longrightarrow> set (pd_selected s) = chosen_perms es)
    \<and> (\<forall>ids. pd_sent s = Some ids \<longrightarrow> (\<exists>es1 es2. es = es1 @ PermissionsSavePressed # es2 \<and> distinct ids \<and> set ids = chosen_perms es1))
    \<and> (pd_open s \<longrightarrow> pd_isLoading s = (\<not> pd_loaded s) \<and> pd_loads s = Suc (length (filter load_failed es)))
    \<and> \<not> permissions_allowed RetryPressed s"
  using permissions_run_ok [OF assms] sent_chosen [OF assms] unfolding permissions_ok_def permissions_allowed.simps by blast

definition permissions_sample_run :: "permissions_event list" where
  "permissions_sample_run =
     (let refused = Inl (js_error (U ''x'')); ids = (\<lambda>ns. Inr (ApiOk (Arr (map (\<lambda>n. Num (Fin n)) ns)))) in
      [PermissionsAnswered refused (ids [1]), PermissionsAnswered (Inr (ApiOk (Arr []))) (ids [1, 2]),
       PermissionToggled (Fin 3), PermissionToggled (Fin 1), PermissionsSavePressed])"

theorem permissions_saved_as_chosen_witness:
  "\<exists>s. permissions_run permissions_sample_run s \<and> pd_sent s = Some [Fin 2, Fin 3] \<and> pd_loads s = 2
     \<and> set (pd_selected s) = chosen_perms permissions_sample_run"
proof -
  have "map_option (\<lambda>s. (pd_sent s, pd_loads s, pd_loaded s)) (permissions_trace permissions_sample_run permissions_opened)
      = Some (Some [Fin 2, Fin 3], 2, True)"
    by code_simp
  then obtain s where "permissions_trace permissions_sample_run permissions_opened = Some s" and s: "pd_sent s = Some [Fin 2, Fin 3]"
      "pd_loads s = 2" "pd_loaded s"
    by auto
  from permissions_trace_run [OF permissions_run.opened this(1)] have run: "permissions_run permissions_sample_run s" by simp
  with permissions_saved_as_chosen [OF run] s show ?thesis by blast
qed

end
