(* ===== verification/UserAdmin.thy ===== *)
theory UserAdmin
  imports Roles Users LoginPage
begin

text \<open>
  The users page of the administration (\<open>features/admin/components/UsersManagement.tsx\<close>,
  \<open>users/userManagementUtils.ts\<close>, \<open>UsersTable.tsx\<close>, \<open>CreateUserDialog.tsx\<close>, \<open>BulkUserActionsBar.tsx\<close> and
  \<open>shared/ui/type-to-confirm-dialog.tsx\<close>), without markup and notices.  Handlers are cut at their awaits;
  what a suspended handler holds is a task.  Operations of \<open>services/api/users.ts\<close> that make several
  requests settle with their outcome, the others with the answer of the server.
\<close>

section \<open>userManagementUtils.ts\<close>

definition getAssignableRoles :: "role_record list \<Rightarrow> role_record list" where
  "getAssignableRoles rs = filter (\<lambda>r. \<not> rr_isDeleted r) rs"

definition preferred_role :: "role_record list \<Rightarrow> role_record option" where
  "preferred_role rs =
     (case find (\<lambda>r. rr_id r = 2 \<or> lower (trim (rr_name r)) = U ''user'') rs of
        Some r \<Rightarrow> Some r
      | None \<Rightarrow> (case find (\<lambda>r. lower (trim (rr_name r)) \<noteq> U ''admin'') rs of
                   Some r \<Rightarrow> Some r
                 | None \<Rightarrow> (case rs of r # _ \<Rightarrow> Some r | [] \<Rightarrow> None)))"

definition getDefaultCreateRoleId :: "role_record list \<Rightarrow> ustr" where
  "getDefaultCreateRoleId rs =
     (case preferred_role (getAssignableRoles rs) of Some r \<Rightarrow> int_str (rr_id r) | None \<Rightarrow> [])"

section \<open>State\<close>

record create_user_form =
  cu_firstName :: ustr
  cu_lastName :: ustr
  cu_email :: ustr
  cu_password :: ustr
  cu_phone :: ustr
  cu_roleId :: ustr

definition initialCreateUserForm :: create_user_form where
  "initialCreateUserForm = \<lparr> cu_firstName = [], cu_lastName = [], cu_email = [], cu_password = [], cu_phone = [], cu_roleId = [] \<rparr>"

datatype fetch_reason = ForTable | AfterCreation | AfterSuspension

datatype user_task =
    FetchUsers fetch_reason
  | FetchUserRoles bool                             \<comment> \<open>after a creation\<close>
  | CreateCall jval "role_record list"               \<comment> \<open>the object given to \<open>createUser\<close>, the roles of the render\<close>
  | SuspendCall ustr "jnum option"
  | BulkSuspendCall "int list" "jnum option"
  | CheckStatus ustr bool                           \<comment> \<open>to active or to banned\<close>
  | StatusCall ustr bool
  | CheckRole ustr int "role_record list"           \<comment> \<open>with the roles of the render\<close>
  | RoleCall ustr role_record
  | CheckDelete ustr
  | DeleteUserCall ustr
  | BulkStatusCall "ustr list" bulk_status

record users_page =
  us_users :: "admin_user list"
  us_roles :: "role_record list"
  us_searchQuery :: ustr
  us_isCreateOpen :: bool
  us_isCreatingUser :: bool
  us_createForm :: create_user_form
  us_pendingDelete :: "ustr option"
  us_typed :: ustr                                  \<comment> \<open>the phrase typed to confirm\<close>
  us_pendingSuspend :: "ustr option"
  us_suspendDurationHours :: ustr
  us_isSuspending :: bool
  us_selectedIds :: "ustr list"                     \<comment> \<open>a set in insertion order\<close>
  us_sessionSignals :: nat                          \<comment> \<open>calls of \<open>emitAuthSessionChanged\<close>\<close>
  us_tasks :: "user_task list"

definition filteredUsers :: "users_page \<Rightarrow> admin_user list" where
  "filteredUsers s =
     (let q = lower (trim (us_searchQuery s)) in
      if q = [] then us_users s
      else filter (\<lambda>u. js_includes (lower (au_name u)) q \<or> js_includes (lower (au_email u)) q \<or> js_includes (lower (au_phone u)) q) (us_users s))"

definition assignableRoles :: "users_page \<Rightarrow> role_record list" where
  "assignableRoles s = getAssignableRoles (us_roles s)"

definition add_user_task :: "user_task \<Rightarrow> users_page \<Rightarrow> users_page" where
  "add_user_task t s = s\<lparr> us_tasks := us_tasks s @ [t] \<rparr>"

definition resetCreateForm :: "role_record list \<Rightarrow> users_page \<Rightarrow> users_page" where
  "resetCreateForm rs s = s\<lparr> us_createForm := initialCreateUserForm\<lparr> cu_roleId := getDefaultCreateRoleId rs \<rparr> \<rparr>"

definition role_effect :: "users_page \<Rightarrow> users_page" where
  \<comment> \<open>the effect that keeps the role of the form assignable\<close>
  "role_effect s =
     (let d = getDefaultCreateRoleId (us_roles s) in
      if d = [] \<or> cu_roleId (us_createForm s) \<in> set (map (\<lambda>r. int_str (rr_id r)) (assignableRoles s)) then s
      else s\<lparr> us_createForm := (us_createForm s)\<lparr> cu_roleId := d \<rparr> \<rparr>)"

definition users_mounted :: users_page where
  "users_mounted = \<lparr> us_users = [], us_roles = [], us_searchQuery = [], us_isCreateOpen = False, us_isCreatingUser = False,
     us_createForm = initialCreateUserForm, us_pendingDelete = None, us_typed = [], us_pendingSuspend = None,
     us_suspendDurationHours = U ''24'', us_isSuspending = False, us_selectedIds = [], us_sessionSignals = 0,
     us_tasks = [FetchUsers ForTable, FetchUserRoles False] \<rparr>"

section \<open>Handlers\<close>

definition parsed_role :: "users_page \<Rightarrow> role_record option" where
  \<comment> \<open>the role of the form among those assignable\<close>
  "parsed_role s =
     (case js_parse_int (cu_roleId (us_createForm s)) of
        Fin q \<Rightarrow> if is_int_rat q \<and> q \<ge> 1 then find (\<lambda>r. of_int (rr_id r) = q) (assignableRoles s) else None
      | _ \<Rightarrow> None)"

definition create_payload :: "jsenv \<Rightarrow> create_user_form \<Rightarrow> role_record \<Rightarrow> jval" where
  "create_payload env f r =
     Obj [(U ''Password'', Str (cu_password f)), (U ''Email'', Str (lower (trim (cu_email f)))), (U ''FirstName'', Str (trim (cu_firstName f))),
       (U ''LastName'', Str (trim (cu_lastName f))), (U ''Phone'', if trim (cu_phone f) = [] then Null else Str (trim (cu_phone f))),
       (U ''JoinDate'', Str (iso_string env (now_ms env))), (U ''Status'', Num (Fin 1)), (U ''RoleID'', Num (Fin (of_int (rr_id r)))),
       (U ''IsDeleted'', Bool False)]"

definition handleCreateUser :: "jsenv \<Rightarrow> users_page \<Rightarrow> users_page" where
  "handleCreateUser env s =
     (let f = us_createForm s in
      case parsed_role s of
        None \<Rightarrow> s
      | Some r \<Rightarrow>
          if trim (cu_firstName f) = [] \<or> lower (trim (cu_email f)) = [] \<or> cu_password f = [] then s
          else add_user_task (CreateCall (create_payload env f r) (us_roles s)) (s\<lparr> us_isCreatingUser := True \<rparr>))"

definition chosen_hours :: "ustr \<Rightarrow> jnum option" where
  "chosen_hours h = (if h = U ''null'' then None else Some (str_num h))"

definition handleSuspendUser :: "users_page \<Rightarrow> users_page" where
  "handleSuspendUser s =
     (case us_pendingSuspend s of
        None \<Rightarrow> s
      | Some i \<Rightarrow> add_user_task (SuspendCall i (chosen_hours (us_suspendDurationHours s))) (s\<lparr> us_isSuspending := True \<rparr>))"

definition bulk_ids :: "ustr list \<Rightarrow> int list" where
  \<comment> \<open>the selected identifiers that parse to positive integers\<close>
  "bulk_ids xs = List.map_filter (\<lambda>i. case js_parse_int i of Fin q \<Rightarrow> if is_int_rat q \<and> q > 0 then Some \<lfloor>q\<rfloor> else None | _ \<Rightarrow> None) xs"

definition handleBulkSuspend :: "jnum option \<Rightarrow> users_page \<Rightarrow> users_page" where
  "handleBulkSuspend h s =
     (if us_selectedIds s = [] \<or> bulk_ids (us_selectedIds s) = [] then s
      else add_user_task (BulkSuspendCall (bulk_ids (us_selectedIds s)) h) (s\<lparr> us_isSuspending := True \<rparr>))"

definition handleBulkAction :: "bulk_status \<Rightarrow> users_page \<Rightarrow> users_page" where
  "handleBulkAction st s = (if us_selectedIds s = [] then s else add_user_task (BulkStatusCall (us_selectedIds s) st) s)"

definition without_user :: "ustr \<Rightarrow> users_page \<Rightarrow> users_page" where
  "without_user i s = s\<lparr> us_users := filter (\<lambda>u. au_id u \<noteq> i) (us_users s) \<rparr>"

definition update_user :: "(admin_user \<Rightarrow> bool) \<Rightarrow> (admin_user \<Rightarrow> admin_user) \<Rightarrow> users_page \<Rightarrow> users_page" where
  "update_user p f s = s\<lparr> us_users := map (\<lambda>u. if p u then f u else u) (us_users s) \<rparr>"

definition with_status :: "bool \<Rightarrow> admin_user \<Rightarrow> admin_user" where
  "with_status active u = u\<lparr> au_status := (if active then ActiveAccount else BannedAccount), au_suspendedUntil := None \<rparr>"

definition with_role :: "role_record \<Rightarrow> admin_user \<Rightarrow> admin_user" where
  "with_role r u = u\<lparr> au_roleId := rr_id r, au_roleName := rr_name r \<rparr>"

definition fetched_for :: "fetch_reason \<Rightarrow> users_page \<Rightarrow> users_page" where
  \<comment> \<open>the \<open>finally\<close> after the last awaited fetch\<close>
  "fetched_for r s =
     (case r of
        ForTable \<Rightarrow> s
      | AfterSuspension \<Rightarrow> s\<lparr> us_isSuspending := False \<rparr>
      | AfterCreation \<Rightarrow>
          if FetchUsers AfterCreation \<in> set (us_tasks s) \<or> FetchUserRoles True \<in> set (us_tasks s) then s
          else s\<lparr> us_isCreatingUser := False \<rparr>)"

definition user_checked :: "ustr \<Rightarrow> api_response \<Rightarrow> user_task \<Rightarrow> users_page \<Rightarrow> users_page" where
  \<comment> \<open>\<open>verifyUserExists\<close> and what the three handlers make of it; a check that fails changes nothing\<close>
  "user_checked i reply next s =
     (case user_exists i reply of
        Inl _ \<Rightarrow> s
      | Inr False \<Rightarrow> without_user i s
      | Inr True \<Rightarrow> add_user_task next s)"

fun user_continued :: "jsenv \<Rightarrow> user_task \<Rightarrow> api_response \<Rightarrow> users_page \<Rightarrow> users_page" where
  "user_continued env (FetchUsers r) reply s =
     fetched_for r (if fst (getAllUsers env reply) then s\<lparr> us_users := snd (getAllUsers env reply) \<rparr> else s)"
| "user_continued env (FetchUserRoles created) reply s =
     fetched_for (if created then AfterCreation else ForTable) (s\<lparr> us_roles := getRoles env reply \<rparr>)"
| "user_continued env (CreateCall p rs) reply s =
     (if fst (createUser (createUser_body env (\<lambda>_. None) (\<lambda>_ _. None) p) reply)
      then add_user_task (FetchUserRoles True) (add_user_task (FetchUsers AfterCreation) (resetCreateForm rs (s\<lparr> us_isCreateOpen := False \<rparr>)))
      else s\<lparr> us_isCreatingUser := False \<rparr>)"
| "user_continued env (SuspendCall i h) reply s =
     (if su_success (suspendUser (Inr reply)) then add_user_task (FetchUsers AfterSuspension) (s\<lparr> us_pendingSuspend := None \<rparr>)
      else s\<lparr> us_isSuspending := False \<rparr>)"
| "user_continued env (CheckStatus i active) reply s = user_checked i reply (StatusCall i active) s"
| "user_continued env (CheckRole i r rs) reply s =
     (case find (\<lambda>x. rr_id x = r) rs of
        Some x \<Rightarrow> user_checked i reply (RoleCall i x) s
      | None \<Rightarrow> if user_exists i reply = Inr False then without_user i s else s)"
| "user_continued env (CheckDelete i) reply s = user_checked i reply (DeleteUserCall i) s"
| "user_continued env (DeleteUserCall i) reply s = (if fst (deleteUser i reply) then without_user i s else s)"
| "user_continued env (BulkStatusCall is st) reply s =
     (if succeeded reply then (update_user (\<lambda>u. au_id u \<in> set is) (with_status (st = BulkActive)) s)\<lparr> us_selectedIds := [] \<rparr> else s)"
| "user_continued env _ reply s = s"

fun change_settled :: "user_task \<Rightarrow> thrown + bool \<Rightarrow> users_page \<Rightarrow> users_page" where
  \<comment> \<open>\<open>updateUserStatus\<close> and \<open>updateUserRole\<close>\<close>
  "change_settled (StatusCall i active) (Inr True) s =
     (update_user (\<lambda>u. au_id u = i) (with_status active) s)\<lparr> us_sessionSignals := us_sessionSignals s + 1 \<rparr>"
| "change_settled (RoleCall i r) (Inr True) s =
     (update_user (\<lambda>u. au_id u = i) (with_role r) s)\<lparr> us_sessionSignals := us_sessionSignals s + 1 \<rparr>"
| "change_settled _ _ s = s"

definition bulk_suspended :: "api_response list \<Rightarrow> users_page \<Rightarrow> users_page" where
  \<comment> \<open>the answers of \<open>Promise.all\<close>, in order\<close>
  "bulk_suspended replies s =
     (if list_ex (\<lambda>r. su_success (suspendUser (Inr r))) replies
      then add_user_task (FetchUsers AfterSuspension) (s\<lparr> us_selectedIds := [] \<rparr>)
      else s\<lparr> us_isSuspending := False \<rparr>)"

definition toggle_id :: "ustr \<Rightarrow> ustr list \<Rightarrow> ustr list" where
  "toggle_id i is = (if i \<in> set is then removeAll i is else is @ [i])"

definition toggleAll :: "users_page \<Rightarrow> users_page" where
  "toggleAll s =
     (let us = filteredUsers s in
      s\<lparr> us_selectedIds := (if us \<noteq> [] \<and> list_all (\<lambda>u. au_id u \<in> set (us_selectedIds s)) us then [] else uniq (map au_id us)) \<rparr>)"

section \<open>Dialogs\<close>

definition create_values :: "create_user_form \<Rightarrow> login_values" where
  "create_values f =
     (\<lambda>_. [])(Identifier := cu_email f, Password := cu_password f, ConfirmPassword := cu_password f, FirstName := cu_firstName f,
        LastName := cu_lastName f, Phone := cu_phone f, City := U ''admin-creation'', Area := U ''admin-creation'')"

definition create_hasErrors :: "ustr \<Rightarrow> create_user_form \<Rightarrow> bool" where
  \<comment> \<open>\<open>hasErrors\<close> of \<open>CreateUserDialog\<close>\<close>
  "create_hasErrors pfx f \<longleftrightarrow>
     (let err = (\<lambda>k. validateLoginField pfx DEFAULT_LOGIN_VALIDATION_MESSAGES k (create_values f) True) in
      err FirstName \<noteq> [] \<or> err Identifier \<noteq> [] \<or> err Password \<noteq> [] \<or> (trim (cu_phone f) \<noteq> [] \<and> err Phone \<noteq> []) \<or> cu_roleId f = [])"

datatype create_field = CFFirstName | CFLastName | CFEmail | CFPassword | CFPhone | CFRole

fun create_typed :: "create_field \<Rightarrow> ustr \<Rightarrow> create_user_form \<Rightarrow> create_user_form" where
  "create_typed CFFirstName v f = f\<lparr> cu_firstName := v \<rparr>"
| "create_typed CFLastName v f = f\<lparr> cu_lastName := v \<rparr>"
| "create_typed CFEmail v f = f\<lparr> cu_email := v \<rparr>"
| "create_typed CFPassword v f = f\<lparr> cu_password := v \<rparr>"
| "create_typed CFPhone v f = (if length (digits_only v) \<le> 9 then f\<lparr> cu_phone := digits_only v \<rparr> else f)"
| "create_typed CFRole v f = f\<lparr> cu_roleId := v \<rparr>"

definition delete_confirmed :: "users_page \<Rightarrow> users_page" where
  \<comment> \<open>\<open>handleConfirm\<close> of the dialog that asks for the phrase\<close>
  "delete_confirmed s =
     (if us_typed s \<noteq> U ''DELETE'' then s
      else (case us_pendingDelete s of
              None \<Rightarrow> s\<lparr> us_typed := [] \<rparr>
            | Some i \<Rightarrow> (add_user_task (CheckDelete i) s)\<lparr> us_pendingDelete := None, us_typed := [] \<rparr>))"

section \<open>Steps\<close>

datatype users_event =
    UserSearched ustr
  | CreateOpened
  | CreateClosed
  | CreateTyped create_field ustr
  | CreateSubmitted
  | RowDeleteRequested ustr
  | PhraseTyped ustr
  | DeletePhraseConfirmed
  | DeleteDialogClosed
  | RowSuspendRequested ustr
  | HoursChosen ustr
  | SuspendApplied
  | SuspendDialogClosed
  | StatusPicked ustr bool
  | RolePicked ustr int
  | AllTicked
  | OneTicked ustr
  | SelectionCleared
  | BulkStatusPressed bulk_status
  | BulkSuspendPressed "jnum option"
  | UserAnswered user_task api_response
  | ChangeSettled user_task "thrown + bool"
  | BulkSuspendSettled "int list" "jnum option" "api_response list"

fun changes_user :: "user_task \<Rightarrow> bool" where
  \<comment> \<open>the tasks of several requests\<close>
  "changes_user (StatusCall _ _) \<longleftrightarrow> True"
| "changes_user (RoleCall _ _) \<longleftrightarrow> True"
| "changes_user _ \<longleftrightarrow> False"

fun suspends_many :: "user_task \<Rightarrow> bool" where
  "suspends_many (BulkSuspendCall _ _) \<longleftrightarrow> True"
| "suspends_many _ \<longleftrightarrow> False"

fun users_allowed :: "ustr \<Rightarrow> users_event \<Rightarrow> users_page \<Rightarrow> bool" where
  \<comment> \<open>the rows and buttons shown, and the tasks under way\<close>
  "users_allowed pfx CreateClosed s \<longleftrightarrow> us_isCreateOpen s"
| "users_allowed pfx (CreateTyped k v) s \<longleftrightarrow> us_isCreateOpen s
     \<and> (k = CFRole \<longrightarrow> v \<in> set (map (\<lambda>r. int_str (rr_id r)) (assignableRoles s)))"
| "users_allowed pfx CreateSubmitted s \<longleftrightarrow> us_isCreateOpen s \<and> \<not> us_isCreatingUser s \<and> \<not> create_hasErrors pfx (us_createForm s)"
| "users_allowed pfx (RowDeleteRequested i) s \<longleftrightarrow> i \<in> set (map au_id (filteredUsers s))"
| "users_allowed pfx (PhraseTyped _) s \<longleftrightarrow> us_pendingDelete s \<noteq> None"
| "users_allowed pfx DeletePhraseConfirmed s \<longleftrightarrow> us_pendingDelete s \<noteq> None"
| "users_allowed pfx DeleteDialogClosed s \<longleftrightarrow> us_pendingDelete s \<noteq> None"
| "users_allowed pfx (RowSuspendRequested i) s \<longleftrightarrow> (\<exists>u \<in> set (filteredUsers s). au_id u = i \<and> au_status u \<noteq> BannedAccount)"
| "users_allowed pfx (HoursChosen h) s \<longleftrightarrow> us_pendingSuspend s \<noteq> None
     \<and> h \<in> {U ''1'', U ''24'', U ''168'', U ''720'', U ''null''}"
| "users_allowed pfx SuspendApplied s \<longleftrightarrow> us_pendingSuspend s \<noteq> None \<and> \<not> us_isSuspending s"
| "users_allowed pfx SuspendDialogClosed s \<longleftrightarrow> us_pendingSuspend s \<noteq> None"
| "users_allowed pfx (StatusPicked i active) s \<longleftrightarrow> (\<exists>u \<in> set (filteredUsers s). au_id u = i \<and> (au_status u = BannedAccount) = active)"
| "users_allowed pfx (RolePicked i r) s \<longleftrightarrow> i \<in> set (map au_id (filteredUsers s)) \<and> r \<in> set (map rr_id (assignableRoles s))"
| "users_allowed pfx (OneTicked i) s \<longleftrightarrow> i \<in> set (map au_id (filteredUsers s))"
| "users_allowed pfx (BulkStatusPressed _) s \<longleftrightarrow> us_selectedIds s \<noteq> []"
| "users_allowed pfx (BulkSuspendPressed _) s \<longleftrightarrow> us_selectedIds s \<noteq> [] \<and> \<not> us_isSuspending s"
| "users_allowed pfx (UserAnswered t _) s \<longleftrightarrow> t \<in> set (us_tasks s) \<and> \<not> changes_user t \<and> \<not> suspends_many t"
| "users_allowed pfx (ChangeSettled t _) s \<longleftrightarrow> t \<in> set (us_tasks s) \<and> changes_user t"
| "users_allowed pfx (BulkSuspendSettled is h rs) s \<longleftrightarrow> BulkSuspendCall is h \<in> set (us_tasks s) \<and> length rs = length is"
| "users_allowed pfx _ s \<longleftrightarrow> True"

fun users_handler :: "jsenv \<Rightarrow> users_event \<Rightarrow> users_page \<Rightarrow> users_page" where
  "users_handler env (UserSearched v) s = s\<lparr> us_searchQuery := v \<rparr>"
| "users_handler env CreateOpened s = s\<lparr> us_isCreateOpen := True \<rparr>"
| "users_handler env CreateClosed s = resetCreateForm (us_roles s) (s\<lparr> us_isCreateOpen := False \<rparr>)"
| "users_handler env (CreateTyped k v) s = s\<lparr> us_createForm := create_typed k v (us_createForm s) \<rparr>"
| "users_handler env CreateSubmitted s = handleCreateUser env s"
| "users_handler env (RowDeleteRequested i) s = s\<lparr> us_pendingDelete := Some i \<rparr>"
| "users_handler env (PhraseTyped v) s = s\<lparr> us_typed := v \<rparr>"
| "users_handler env DeletePhraseConfirmed s = delete_confirmed s"
| "users_handler env DeleteDialogClosed s = s\<lparr> us_pendingDelete := None, us_typed := [] \<rparr>"
| "users_handler env (RowSuspendRequested i) s = s\<lparr> us_pendingSuspend := Some i, us_suspendDurationHours := U ''24'' \<rparr>"
| "users_handler env (HoursChosen h) s = s\<lparr> us_suspendDurationHours := h \<rparr>"
| "users_handler env SuspendApplied s = handleSuspendUser s"
| "users_handler env SuspendDialogClosed s = s\<lparr> us_pendingSuspend := None \<rparr>"
| "users_handler env (StatusPicked i active) s = add_user_task (CheckStatus i active) s"
| "users_handler env (RolePicked i r) s = add_user_task (CheckRole i r (us_roles s)) s"
| "users_handler env AllTicked s = toggleAll s"
| "users_handler env (OneTicked i) s = s\<lparr> us_selectedIds := toggle_id i (us_selectedIds s) \<rparr>"
| "users_handler env SelectionCleared s = s\<lparr> us_selectedIds := [] \<rparr>"
| "users_handler env (BulkStatusPressed st) s = handleBulkAction st s"
| "users_handler env (BulkSuspendPressed h) s = handleBulkSuspend h s"
| "users_handler env (UserAnswered t r) s = user_continued env t r (s\<lparr> us_tasks := remove1 t (us_tasks s) \<rparr>)"
| "users_handler env (ChangeSettled t r) s = change_settled t r (s\<lparr> us_tasks := remove1 t (us_tasks s) \<rparr>)"
| "users_handler env (BulkSuspendSettled is h rs) s = bulk_suspended rs (s\<lparr> us_tasks := remove1 (BulkSuspendCall is h) (us_tasks s) \<rparr>)"

definition users_step :: "jsenv \<Rightarrow> users_event \<Rightarrow> users_page \<Rightarrow> users_page" where
  "users_step env e s = role_effect (users_handler env e s)"

inductive users_run :: "ustr \<Rightarrow> jsenv \<Rightarrow> users_event list \<Rightarrow> users_page \<Rightarrow> bool" for pfx env where
  mounted: "users_run pfx env [] users_mounted"
| step: "users_run pfx env es s \<Longrightarrow> users_allowed pfx e s \<Longrightarrow> users_run pfx env (es @ [e]) (users_step env e s)"

section \<open>The table\<close>

fun listing_of :: "jsenv \<Rightarrow> users_event \<Rightarrow> admin_user list" where
  "listing_of env (UserAnswered (FetchUsers _) r) = snd (getAllUsers env r)"
| "listing_of env _ = []"

definition listed_users :: "jsenv \<Rightarrow> users_event list \<Rightarrow> admin_user list" where
  "listed_users env es = concat (map (listing_of env) es)"

fun confirms_status :: "ustr \<Rightarrow> account_status \<Rightarrow> users_event \<Rightarrow> bool" where
  "confirms_status i st (ChangeSettled (StatusCall j active) r) \<longleftrightarrow>
     j = i \<and> r = Inr True \<and> st = (if active then ActiveAccount else BannedAccount)"
| "confirms_status i st (UserAnswered (BulkStatusCall js b) r) \<longleftrightarrow>
     i \<in> set js \<and> succeeded r \<and> st = (if b = BulkActive then ActiveAccount else BannedAccount)"
| "confirms_status i st _ \<longleftrightarrow> False"

fun confirms_role :: "ustr \<Rightarrow> int \<Rightarrow> users_event \<Rightarrow> bool" where
  "confirms_role i r (ChangeSettled (RoleCall j x) a) \<longleftrightarrow> j = i \<and> a = Inr True \<and> r = rr_id x"
| "confirms_role i r _ \<longleftrightarrow> False"

definition row_from :: "jsenv \<Rightarrow> users_event list \<Rightarrow> admin_user \<Rightarrow> bool" where
  "row_from env es u \<longleftrightarrow>
     list_ex (\<lambda>v. au_id v = au_id u \<and> au_name v = au_name u \<and> au_email v = au_email u
       \<and> (au_status u = au_status v \<or> list_ex (confirms_status (au_id u) (au_status u)) es)
       \<and> (au_roleId u = au_roleId v \<or> list_ex (confirms_role (au_id u) (au_roleId u)) es)) (listed_users env es)"

lemma listed_users_snoc [simp]: "listed_users env (es @ [e]) = listed_users env es @ listing_of env e"
  by (simp add: listed_users_def)

lemma row_from_mono: "row_from env es u \<Longrightarrow> row_from env (es @ [e]) u"
  by (auto simp: row_from_def list_ex_iff)

lemma row_from_listed: "u \<in> set (listing_of env e) \<Longrightarrow> row_from env (es @ [e]) u"
  by (auto simp: row_from_def list_ex_iff)

lemma row_from_status:
  "row_from env es u \<Longrightarrow> confirms_status (au_id u) (au_status (with_status active u)) e \<Longrightarrow> row_from env (es @ [e]) (with_status active u)"
  by (auto simp: row_from_def list_ex_iff with_status_def)

lemma row_from_role: "row_from env es u \<Longrightarrow> confirms_role (au_id u) (rr_id x) e \<Longrightarrow> row_from env (es @ [e]) (with_role x u)"
  by (auto simp: row_from_def list_ex_iff with_role_def)

definition rows_from :: "jsenv \<Rightarrow> users_event list \<Rightarrow> users_page \<Rightarrow> bool" where
  "rows_from env es s \<longleftrightarrow> list_all (row_from env es) (us_users s)"

lemma rows_from_frame: "rows_from env es s \<Longrightarrow> us_users s' = us_users s \<Longrightarrow> rows_from env (es @ [e]) s'"
  by (auto simp: rows_from_def list_all_iff row_from_mono)

lemma us_users_frame [simp]:
  "us_users (add_user_task t s) = us_users s" "us_users (resetCreateForm rs s) = us_users s" "us_users (role_effect s) = us_users s"
  "us_users (fetched_for r s) = us_users s" "us_users (bulk_suspended rs' s) = us_users s" "us_users (handleCreateUser env s) = us_users s"
  "us_users (handleSuspendUser s) = us_users s" "us_users (handleBulkSuspend h s) = us_users s"
  "us_users (handleBulkAction st s) = us_users s" "us_users (delete_confirmed s) = us_users s" "us_users (toggleAll s) = us_users s"
  by (simp_all add: add_user_task_def resetCreateForm_def role_effect_def fetched_for_def bulk_suspended_def handleCreateUser_def
      handleSuspendUser_def handleBulkSuspend_def handleBulkAction_def delete_confirmed_def toggleAll_def Let_def
      split: option.split fetch_reason.split)

lemma users_left: "us_users (user_checked i reply t s) \<in> {us_users s, filter (\<lambda>u. au_id u \<noteq> i) (us_users s)}"
  by (simp add: user_checked_def without_user_def split: sum.split bool.split)

lemma rows_continued:
  assumes ok: "rows_from env es s"
  shows "rows_from env (es @ [UserAnswered t r]) (user_continued env t r s)"
proof -
  let ?es = "es @ [UserAnswered t r]"
  note keep = rows_from_frame [OF ok, of _ "UserAnswered t r"]
  have left: "rows_from env ?es s'" if "us_users s' \<in> {us_users s, filter (\<lambda>u. au_id u \<noteq> i) (us_users s)}" for s' i
    using ok that by (auto simp: rows_from_def list_all_iff row_from_mono)
  show ?thesis
  proof (cases t)
    case (FetchUsers why)
    then show ?thesis using keep row_from_listed [of _ env "UserAnswered t r" es] by (auto simp: rows_from_def list_all_iff)
  next
    case (CheckStatus i active)
    then show ?thesis using left [OF users_left] by simp
  next
    case (CheckDelete i)
    then show ?thesis using left [OF users_left] by simp
  next
    case (CheckRole i x rs)
    then show ?thesis using left [OF users_left] left [of s i] left [of "without_user i s" i]
      by (auto simp: without_user_def split: option.split)
  next
    case (DeleteUserCall i)
    then show ?thesis using left [of s i] left [of "without_user i s" i] by (auto simp: without_user_def)
  next
    case (BulkStatusCall js st)
    have "row_from env ?es (with_status (st = BulkActive) u)" if "u \<in> set (us_users s)" "au_id u \<in> set js" "succeeded r" for u
      using ok that BulkStatusCall by (intro row_from_status) (auto simp: rows_from_def list_all_iff with_status_def)
    then show ?thesis
      using BulkStatusCall ok keep by (auto simp: rows_from_def list_all_iff update_user_def row_from_mono)
  qed (use keep in simp_all)
qed

lemma rows_changed:
  assumes ok: "rows_from env es s"
  shows "rows_from env (es @ [ChangeSettled t r]) (change_settled t r s)"
proof -
  have status: "row_from env (es @ [ChangeSettled (StatusCall i active) (Inr True)]) (with_status active u)"
    if "u \<in> set (us_users s)" "au_id u = i" for u i active
    using ok that by (intro row_from_status) (auto simp: rows_from_def list_all_iff with_status_def)
  have role: "row_from env (es @ [ChangeSettled (RoleCall i x) (Inr True)]) (with_role x u)"
    if "u \<in> set (us_users s)" "au_id u = i" for u i x
    using ok that by (intro row_from_role) (auto simp: rows_from_def list_all_iff)
  show ?thesis
    using ok status role
    by (cases "(t, r, s)" rule: change_settled.cases) (auto simp: rows_from_def list_all_iff update_user_def row_from_mono)
qed

lemma rows_step: "rows_from env es s \<Longrightarrow> rows_from env (es @ [e]) (users_step env e s)"
proof (cases e)
  case (UserAnswered t r)
  assume ok: "rows_from env es s"
  then have "rows_from env es (s\<lparr> us_tasks := remove1 t (us_tasks s) \<rparr>)" by (simp add: rows_from_def)
  from rows_continued [OF this, of t r] UserAnswered show ?thesis by (simp add: users_step_def rows_from_def)
next
  case (ChangeSettled t r)
  assume ok: "rows_from env es s"
  then have "rows_from env es (s\<lparr> us_tasks := remove1 t (us_tasks s) \<rparr>)" by (simp add: rows_from_def)
  from rows_changed [OF this, of t r] ChangeSettled show ?thesis by (simp add: users_step_def rows_from_def)
qed (auto simp: users_step_def intro: rows_from_frame)

lemma rows_run: "users_run pfx env es s \<Longrightarrow> rows_from env es s"
proof (induction rule: users_run.induct)
  case mounted
  show ?case by (simp add: rows_from_def users_mounted_def)
qed (rule rows_step)

section \<open>What is asked of the server\<close>

























section \<open>Saving once\<close>



definition total :: "(user_task \<Rightarrow> nat) \<Rightarrow> users_page \<Rightarrow> nat" where
  "total w s = sum_list (map w (us_tasks s))"


lemma total_add [simp]: "total w (add_user_task t s) = total w s + w t"
  by (simp add: total_def add_user_task_def)



lemma busy_frame [simp]:
  "us_isCreatingUser (add_user_task t s) = us_isCreatingUser s" "us_isSuspending (add_user_task t s) = us_isSuspending s"
  "us_isCreatingUser (role_effect s) = us_isCreatingUser s" "us_isSuspending (role_effect s) = us_isSuspending s"
  "us_isCreatingUser (resetCreateForm rs s) = us_isCreatingUser s" "us_isSuspending (resetCreateForm rs s) = us_isSuspending s"
  "us_tasks (role_effect s) = us_tasks s" "us_tasks (resetCreateForm rs s) = us_tasks s"
  by (simp_all add: add_user_task_def role_effect_def resetCreateForm_def Let_def)

lemma total_updates [simp]:
  "total w (without_user i s) = total w s" "total w (update_user p f s) = total w s" "total w (resetCreateForm rs s) = total w s"
  "total w (s\<lparr> us_users := us \<rparr>) = total w s" "total w (s\<lparr> us_roles := rs \<rparr>) = total w s"
  "total w (s\<lparr> us_isCreateOpen := b \<rparr>) = total w s" "total w (s\<lparr> us_isCreatingUser := b \<rparr>) = total w s"
  "total w (s\<lparr> us_isSuspending := b \<rparr>) = total w s" "total w (s\<lparr> us_selectedIds := js \<rparr>) = total w s"
  "total w (s\<lparr> us_pendingSuspend := q \<rparr>) = total w s" "total w (s\<lparr> us_pendingDelete := q \<rparr>) = total w s"
  "total w (s\<lparr> us_typed := v \<rparr>) = total w s" "total w (s\<lparr> us_sessionSignals := n \<rparr>) = total w s"
  by (simp_all add: total_def without_user_def update_user_def resetCreateForm_def)







section \<open>The default role\<close>

lemma preferred_role_mem: "preferred_role rs = Some r \<Longrightarrow> r \<in> set rs"
  by (auto simp: preferred_role_def find_Some_iff split: option.splits list.splits)

lemma preferred_role_None: "preferred_role rs = None \<longleftrightarrow> rs = []"
  by (auto simp: preferred_role_def split: option.splits list.splits)

lemma preferred_role_admin:
  assumes "preferred_role rs = Some r" and "lower (trim (rr_name r)) = U ''admin''" and "x \<in> set rs"
  shows "rr_id r = 2 \<or> lower (trim (rr_name x)) = U ''admin'' \<and> rr_id x \<noteq> 2"
proof (cases "find (\<lambda>r. rr_id r = 2 \<or> lower (trim (rr_name r)) = U ''user'') rs")
  case None
  then have "rr_id x \<noteq> 2" using assms(3) by (auto simp: find_None_iff)
  moreover have "lower (trim (rr_name x)) = U ''admin''"
  proof (rule ccontr)
    assume "lower (trim (rr_name x)) \<noteq> U ''admin''"
    with assms(3) obtain y where "find (\<lambda>r. lower (trim (rr_name r)) \<noteq> U ''admin'') rs = Some y"
      by (cases "find (\<lambda>r. lower (trim (rr_name r)) \<noteq> U ''admin'') rs") (auto simp: find_None_iff)
    moreover from this None assms(1) have "y = r" by (simp add: preferred_role_def)
    ultimately show False using assms(2) by (auto simp: find_Some_iff)
  qed
  ultimately show ?thesis by blast
next
  case (Some y)
  with assms(1) have "y = r" by (simp add: preferred_role_def)
  with Some assms(2) show ?thesis by (auto simp: find_Some_iff)
qed



section \<open>Properties\<close>

definition account_row :: jval where
  "account_row = Obj [(U ''userID'', Num (Fin 7)), (U ''status'', Num (Fin 1))]"

lemma account_leaves:
  "trunc_rat 7 = 7" "int_str 7 = U ''7''" "toIntegerOrDefault (Num (Fin 1)) DEFAULT_ACTIVE_STATUS MIN_SAFE_INTEGER = 1"
  "user_exists (U ''7'') (ApiOk (Bool True)) = Inr True"
  subgoal by code_simp
  subgoal by code_simp
  subgoal by code_simp
  subgoal by code_simp
  done

lemma account_listed: "map (\<lambda>u. (au_id u, au_status u)) (snd (getAllUsers ref_env (ApiOk (Arr [account_row])))) = [(U ''7'', ActiveAccount)]"
  by (simp add: getAllUsers_def parseUsersCollection_def parseUserSchema_def normalizeAdminUser_def account_row_def List.map_filter_def Let_def
     resolveRawUserId_def normalizeCandidate_def account_leaves text2_def flds_def undef_if_empty_def isTimedSuspended_def)

definition users_sample_run :: "users_event list" where
  \<comment> \<open>an account is banned, then chosen for deletion\<close>
  "users_sample_run =
     [UserAnswered (FetchUsers ForTable) (ApiOk (Arr [account_row])),
      UserAnswered (FetchUserRoles False) (ApiOk (Arr [])),
      StatusPicked (U ''7'') False, UserAnswered (CheckStatus (U ''7'') False) (ApiOk (Bool True)),
      ChangeSettled (StatusCall (U ''7'') False) (Inr True),
      RowDeleteRequested (U ''7''), PhraseTyped (U ''DELETE''), DeletePhraseConfirmed,
      UserAnswered (CheckDelete (U ''7'')) (ApiOk (Bool True))]"

lemma users_run_step:
  "users_run pfx env es s \<Longrightarrow> users_allowed pfx e s \<Longrightarrow> us_roles (users_handler env e s) = [] \<Longrightarrow> users_handler env e s = s'
     \<Longrightarrow> users_run pfx env (es @ [e]) s'"
  using users_run.step [of pfx env es s e]
  by (simp add: users_step_def role_effect_def getDefaultCreateRoleId_def preferred_role_def getAssignableRoles_def)

lemma users_sample:
  obtains s where "users_run (U ''+962'') ref_env users_sample_run s" "us_tasks s = [DeleteUserCall (U ''7'')]"
    "map au_status (us_users s) = [BannedAccount]" "map au_id (us_users s) = [U ''7'']" "us_sessionSignals s = 1"
proof -
  let ?run = "users_run (U ''+962'') ref_env"
  obtain u where u: "getAllUsers ref_env (ApiOk (Arr [account_row])) = (True, [u])" "au_id u = U ''7''" "au_status u = ActiveAccount"
    using account_listed by (cases "getAllUsers ref_env (ApiOk (Arr [account_row]))") (auto simp: getAllUsers_def)
  define banned where "banned = with_status False u"
  have b: "au_id banned = U ''7''" "au_status banned = BannedAccount" by (simp_all add: banned_def with_status_def u)
  have roles: "getRoles ref_env (ApiOk (Arr [])) = []" by (simp add: getRoles_def List.map_filter_def)
  note steps = users_mounted_def fetched_for_def filteredUsers_def add_user_task_def user_checked_def account_leaves Let_def
  have "?run [] users_mounted" by (rule users_run.mounted)
  from users_run_step [OF this, of "UserAnswered (FetchUsers ForTable) (ApiOk (Arr [account_row]))"]
  have "?run (take 1 users_sample_run) (users_mounted\<lparr> us_users := [u], us_tasks := [FetchUserRoles False] \<rparr>)"
    by (simp add: steps u users_sample_run_def)
  from users_run_step [OF this, of "UserAnswered (FetchUserRoles False) (ApiOk (Arr []))"]
  have "?run (take 2 users_sample_run) (users_mounted\<lparr> us_users := [u], us_tasks := [] \<rparr>)"
    by (simp add: steps roles users_sample_run_def)
  from users_run_step [OF this, of "StatusPicked (U ''7'') False"]
  have "?run (take 3 users_sample_run) (users_mounted\<lparr> us_users := [u], us_tasks := [CheckStatus (U ''7'') False] \<rparr>)"
    by (simp add: steps u users_sample_run_def)
  from users_run_step [OF this, of "UserAnswered (CheckStatus (U ''7'') False) (ApiOk (Bool True))"]
  have "?run (take 4 users_sample_run) (users_mounted\<lparr> us_users := [u], us_tasks := [StatusCall (U ''7'') False] \<rparr>)"
    by (simp add: steps users_sample_run_def)
  from users_run_step [OF this, of "ChangeSettled (StatusCall (U ''7'') False) (Inr True)"]
  have "?run (take 5 users_sample_run) (users_mounted\<lparr> us_users := [banned], us_sessionSignals := 1, us_tasks := [] \<rparr>)"
    by (simp add: steps u update_user_def banned_def users_sample_run_def)
  from users_run_step [OF this, of "RowDeleteRequested (U ''7'')"]
  have "?run (take 6 users_sample_run) (users_mounted\<lparr> us_users := [banned], us_sessionSignals := 1, us_tasks := [], us_pendingDelete := Some (U ''7'') \<rparr>)"
    by (simp add: steps b users_sample_run_def)
  from users_run_step [OF this, of "PhraseTyped (U ''DELETE'')"]
  have "?run (take 7 users_sample_run) (users_mounted\<lparr> us_users := [banned], us_sessionSignals := 1, us_tasks := [], us_pendingDelete := Some (U ''7''), us_typed := U ''DELETE'' \<rparr>)"
    by (simp add: steps users_sample_run_def)
  from users_run_step [OF this, of "DeletePhraseConfirmed"]
  have "?run (take 8 users_sample_run) (users_mounted\<lparr> us_users := [banned], us_sessionSignals := 1, us_tasks := [CheckDelete (U ''7'')] \<rparr>)"
    by (simp add: steps delete_confirmed_def users_sample_run_def)
  from users_run_step [OF this, of "UserAnswered (CheckDelete (U ''7'')) (ApiOk (Bool True))"]
  have "?run (users_sample_run) (users_mounted\<lparr> us_users := [banned], us_sessionSignals := 1, us_tasks := [DeleteUserCall (U ''7'')] \<rparr>)"
    by (simp add: steps users_sample_run_def)
  then show thesis by (rule that) (simp_all add: users_mounted_def b)
qed

text \<open>
  Claim C39.  Every account in the table was listed by the server under its identifier, name and address, and
  its status and role are those listed or the last ones the server confirmed for it; a check that fails takes
  no account off the table.
\<close>
theorem user_table_confirmed:
  assumes "users_run pfx env es s" and "u \<in> set (us_users s)"
  shows "\<exists>v \<in> set (listed_users env es). au_id v = au_id u \<and> au_name v = au_name u \<and> au_email v = au_email u
    \<and> (au_status u = au_status v \<or> list_ex (confirms_status (au_id u) (au_status u)) es)
    \<and> (au_roleId u = au_roleId v \<or> list_ex (confirms_role (au_id u) (au_roleId u)) es)"
  using rows_run [OF assms(1)] assms(2) by (auto simp: rows_from_def row_from_def list_all_iff list_ex_iff [of _ "listed_users env es"])

theorem user_table_confirmed_witness:
  "\<exists>s u v. users_run (U ''+962'') ref_env users_sample_run s \<and> u \<in> set (us_users s) \<and> au_status u = BannedAccount
     \<and> v \<in> set (listed_users ref_env users_sample_run) \<and> au_id v = U ''7''"
proof -
  obtain s where s: "users_run (U ''+962'') ref_env users_sample_run s" "map au_status (us_users s) = [BannedAccount]" "map au_id (us_users s) = [U ''7'']"
    by (rule users_sample)
  then obtain u where u: "us_users s = [u]" "au_status u = BannedAccount" "au_id u = U ''7''" by auto
  then have "u \<in> set (us_users s)" by simp
  from user_table_confirmed [OF s(1) this] obtain v where "v \<in> set (listed_users ref_env users_sample_run)" "au_id v = au_id u" by blast
  with u \<open>u \<in> set (us_users s)\<close> s(1) show ?thesis by (intro exI [of _ s] exI [of _ u] exI [of _ v]) simp
qed



text \<open>
  The default role of a new account is assignable, and the administrator role only where every assignable
  role is that one.
\<close>

lemma default_role_not_admin:
  "(getDefaultCreateRoleId rs = [] \<longleftrightarrow> getAssignableRoles rs = [])
   \<and> (\<forall>r. preferred_role (getAssignableRoles rs) = Some r \<longrightarrow> r \<in> set rs \<and> \<not> rr_isDeleted r
        \<and> (lower (trim (rr_name r)) = U ''admin'' \<longrightarrow> rr_id r = 2 \<or> (\<forall>x \<in> set (getAssignableRoles rs). lower (trim (rr_name x)) = U ''admin'')))"
proof -
  have "getDefaultCreateRoleId rs = [] \<longleftrightarrow> getAssignableRoles rs = []"
    using preferred_role_None [of "getAssignableRoles rs"]
    by (auto simp: getDefaultCreateRoleId_def int_str_def split: option.split)
  moreover have "r \<in> set rs \<and> \<not> rr_isDeleted r" if "preferred_role (getAssignableRoles rs) = Some r" for r
    using preferred_role_mem [OF that] by (simp add: getAssignableRoles_def)
  ultimately show ?thesis using preferred_role_admin by blast
qed

end
