(* ===== verification/Spec2Isabelle.thy ===== *)
theory Spec2Isabelle
  imports UrlState Paging Session Lookups ChatViews ChatWindow Notifications UserProfile SellerProfile AccountPages VerifyEmail
    CompleteProfile Compare TwoFactorSettings Moderation Comments AdminTools ListingForm UserAdmin
begin

text \<open>
  A model of the web client of TijarahJO, a classified-ads marketplace
  (\<open>apps/web/src\<close>, TypeScript), and the properties that make it correct.

  \<^bold>\<open>The program.\<close>  The client talks to the server through one HTTP helper, keeps a session in a
  React context and in the browser's storage, maps what the server sends into the entities of
  \<open>types/index.ts\<close>, lets the user search, page through, compare, create and edit listings, and chats
  over a realtime connection.  Paths below are relative to \<open>apps/web/src\<close>.

  \<^bold>\<open>Language level.\<close>
  \<^item> \<open>Prelude\<close>: UTF-16 strings (\<open>ustr\<close>, a list of code units), their methods, the stable
    \<open>Array.prototype.sort\<close> with the locale \<open>comparator\<close>, sets in insertion order (\<open>uniq\<close>) with the
    locale \<open>key_normaliser\<close>, and case rules shared by the proofs.
  \<^item> \<open>JsValue\<close>: values of unknown shape (\<open>jval\<close>) with \<open>??\<close>, truthiness, \<open>String\<close>, \<open>Number\<close>,
    \<open>parseInt\<close> and \<open>Date\<close>; \<open>jsenv\<close> carries the clock, \<open>Date.parse\<close>, \<open>toISOString\<close> and
    \<open>Math.log10\<close>, which ECMAScript leaves to the implementation.
  \<^item> \<open>Json\<close>: \<open>JSON.parse\<close>.
  \<^item> \<open>KeyStore\<close>: \<open>URLSearchParams\<close>, web storage and, in \<open>ImageCache\<close>, the \<open>Map\<close> as interpretations
    of the locale \<open>key_store\<close>; the clients of each reason from its laws only.

  \<^bold>\<open>Data and search.\<close>
  \<^item> \<open>Normalizers\<close> (\<open>services/api/normalizers.ts\<close>, \<open>services/api/shared.ts\<close>, \<open>services/api/utils.ts\<close>,
    \<open>services/api/posts/status.ts\<close>, \<open>utils/*.ts\<close>): total readers of untrusted values; the lemmas
    give their ranges, round trips and idempotence.
  \<^item> \<open>Entities\<close> (\<open>types/index.ts\<close>): the records.
  \<^item> \<open>SearchRanking\<close> (\<open>lib/searchRanking.ts\<close>): query analysis, scoring and ranking.
    The ranking is a sorted, stable, idempotent selection of the matching active posts.
  \<^item> \<open>Marketplace\<close> (\<open>features/marketplace/search/*.ts\<close>): filtering and sorting, the search pipeline
    with its local fallback, and the view derived from a query state.
  \<^item> \<open>UrlState\<close> (\<open>useMarketplaceUrlState.ts\<close>): page, query and filters in the query string.
  \<^item> \<open>Paging\<close> (\<open>shared/hooks/useInfiniteScroll.ts\<close>): the pager as a step relation, with the
    invariant of its reachable states.
  \<^item> \<open>Compare\<close> (\<open>contexts/CompareContext.tsx\<close>): the listings chosen for a comparison and their copies
    in the storage of each account.
  \<^item> \<open>ListingForm\<close> (\<open>features/marketplace/components/CreatePostDialog.tsx\<close>, \<open>EditPostDialog.tsx\<close>,
    \<open>PostForm.tsx\<close>): the form a listing is published or edited with, the validation of its pictures
    and the addresses of chosen files, as a step relation.
  \<^item> \<open>Favorites\<close> (\<open>features/marketplace/hooks/useFavorites.ts\<close>, \<open>shared/hooks/useServerMutation.ts\<close>,
    \<open>services/api/favorites.ts\<close>): optimistic mutations and guest lists, which refine a set of
    identifiers.

  \<^bold>\<open>Session and accounts.\<close>
  \<^item> \<open>AuthPolicy\<close> (\<open>contexts/authUtils.ts\<close>, \<open>authRuntimePolicy.ts\<close>, \<open>authContextUtils.ts\<close>): who the
    user is, what the user may administrate, back-off, stored hints.
  \<^item> \<open>AuthApi\<close> (\<open>services/api/auth.ts\<close>, \<open>authHelpers.ts\<close>, \<open>schemas/authSchema.ts\<close>): requests and the
    reading of replies.
  \<^item> \<open>Session\<close> (\<open>contexts/useAuthProviderController.ts\<close>, \<open>authActions.ts\<close>, \<open>useAuthEventSync.ts\<close>):
    the session as a step relation.  Every asynchronous function is cut at its awaits, the rest of
    a suspended call is a task of the state, and tasks interleave freely; the invariants hold in
    every reachable state.
  \<^item> \<open>LoginForm\<close> (\<open>features/auth/loginUtils.ts\<close>, \<open>loginValidation.ts\<close>, \<open>useLoginReducer.ts\<close>,
    \<open>profileState.ts\<close>) and \<open>LoginPage\<close> (\<open>features/auth/pages/LoginPage.tsx\<close>): the form and the state
    machine of its page, whose requests are valid and exclusive.
  \<^item> \<open>Routes\<close> (\<open>app/routes/*.ts\<close>, \<open>authRouteGroup.tsx\<close>, \<open>AppRoutes.tsx\<close>, \<open>shared/lib/backNavigation.ts\<close>):
    where a sign-in leads, which paths may be returned to, whose profile is kept.
  \<^item> \<open>Users\<close> (\<open>services/api/users.ts\<close>, \<open>users.shared.ts\<close>, \<open>schemas/userSchema.ts\<close>) and \<open>UserProfile\<close>
    (\<open>features/auth/hooks/useUserProfile.ts\<close>, \<open>app/routes/useProfileSaveAction.ts\<close>): user records, and
    the profile of the signed-in user with superseded requests and retries.
  \<^item> \<open>AccountPages\<close> (\<open>ForgotPasswordPage.tsx\<close>), \<open>VerifyEmail\<close> (\<open>VerifyEmailPage.tsx\<close>),
    \<open>CompleteProfile\<close> (\<open>CompleteProfilePage.tsx\<close>, \<open>shared/hooks/useLocationOptions.ts\<close>) and
    \<open>TwoFactorSettings\<close> (\<open>features/settings/useTwoFactorSettings.ts\<close>): the remaining account pages, each
    a state record with one operation per handler and continuation.

  \<^bold>\<open>Server access.\<close>
  \<^item> \<open>ApiClient\<close> (\<open>services/api/client.ts\<close>, \<open>csrfPolicy.ts\<close>): one request with its transient retry,
    token refresh and CSRF retry, against a script of network outcomes of any length.
  \<^item> \<open>PostMapping\<close> (\<open>services/api/schemas/postSchema.ts\<close>, \<open>posts/mappers.ts\<close>, \<open>services/api/search.ts\<close>):
    listings from the wire.  \<open>PostWrite\<close> (\<open>services/api/posts/write.ts\<close>, \<open>writeHelpers.ts\<close>): creating,
    updating and deleting listings and their images.
  \<^item> \<open>Catalog\<close> (\<open>services/api/categories.ts\<close>, \<open>locations.ts\<close>), \<open>ImageCache\<close>
    (\<open>posts/lookups.images.ts\<close>) and \<open>Lookups\<close> (\<open>posts/lookups.resolvers.ts\<close>): what listings refer to,
    and the caches that resolve it.
  \<^item> \<open>Feed\<close> (\<open>services/api/posts/feed.ts\<close>, \<open>read.ts\<close>, \<open>sellers.ts\<close>, \<open>usePosts.ts\<close>,
    \<open>app/routes/usePostActions.ts\<close>): the feed and the actions on it, which refine a finite map.
  \<^item> \<open>SellerProfile\<close> (\<open>useSellerProfileData.ts\<close>, \<open>services/api/reviews.ts\<close>): the page of a seller with
    superseded rounds of requests.
  \<^item> \<open>Notifications\<close> (\<open>services/api/notifications.ts\<close>, \<open>ownerScopedRequestDeduper.ts\<close>,
    \<open>app/hooks/useNotificationPolling.ts\<close>): shared requests and the unread counter.

  \<^bold>\<open>Comments.\<close>
  \<^item> \<open>Comments\<close> (\<open>services/api/comments.ts\<close>, \<open>schemas/commentsSchema.ts\<close>, \<open>PostCommentsSection.tsx\<close>,
    \<open>CommentItem.tsx\<close>): the comments below a listing with their pages, changes and replies.

  \<^bold>\<open>Administration.\<close>
  \<^item> \<open>AdminApi\<close> (\<open>services/api/admin.ts\<close>, \<open>reports.ts\<close>): requests and the reading of replies.
  \<^item> \<open>Moderation\<close> (\<open>features/admin/components/ReportsQueue.tsx\<close>, \<open>ReportActionDialog.tsx\<close>,
    \<open>reportActionOutcome.ts\<close>): the queue of reports and the actions on them, which are exclusive and
    resolve a report only after they succeeded.
  \<^item> \<open>Roles\<close> (\<open>services/api/roles.ts\<close>, \<open>RolesManagement.tsx\<close>, \<open>PermissionsDialog.tsx\<close>): roles, whose system
    roles no request changes, and the permissions chosen for a role.
  \<^item> \<open>UserAdmin\<close> (\<open>UsersManagement.tsx\<close>, \<open>users/*.ts*\<close>): the table of accounts and the actions on them.
  \<^item> \<open>AdminTools\<close> (\<open>features/admin/utils/exportCsv.ts\<close>, \<open>hooks/useSessionTimeout.ts\<close>): the export of a table,
    which a reader of the format reads back, and the end of an unused session.

  \<^bold>\<open>Chat.\<close>
  \<^item> \<open>ChatMessages\<close> (\<open>services/api/chat.ts\<close>, \<open>chatNormalization.ts\<close>, \<open>schemas/chatSchema.ts\<close>): messages.
  \<^item> \<open>ChatService\<close> (\<open>services/chatService.ts\<close>): the connection as a step relation with the hub as its
    environment, its invariant, the separation of accounts, and that it settles.
  \<^item> \<open>ChatViews\<close> (\<open>features/chat/hooks/useChat.ts\<close>, \<open>useChatList.ts\<close>) and \<open>ChatWindow\<close>
    (\<open>features/chat/components/ChatWindow.tsx\<close>): the conversation, the list of conversations, links,
    the draft and its picture.

  \<^bold>\<open>Interactions.\<close>  \<open>ApiClient.apiRequest\<close> yields the \<open>api_response\<close> that \<open>AuthApi\<close>, \<open>PostMapping\<close>,
  \<open>PostWrite\<close>, \<open>Users\<close> and the other endpoints interpret; \<open>Session\<close> resumes its tasks with the results of
  \<open>AuthApi\<close>, decides with \<open>AuthPolicy\<close> and stores its hints in the \<open>KeyStore\<close> that \<open>ApiClient\<close> reads to
  decide whether a refresh makes sense; \<open>Marketplace\<close> ranks with \<open>SearchRanking\<close>, takes its filters from
  \<open>UrlState\<close> and its listings through \<open>PostMapping\<close>, and its result is what \<open>Paging\<close> shows; \<open>Lookups\<close>
  fills its tables from \<open>Catalog\<close> and \<open>ImageCache\<close> and enriches what \<open>Feed\<close> reads; \<open>LoginPage\<close> hands the
  user of \<open>AuthApi\<close> to \<open>Routes\<close> and \<open>UserProfile\<close>; \<open>ChatService\<close> normalises with \<open>ChatMessages\<close> what
  \<open>ChatViews\<close> appends and \<open>ChatWindow\<close> shows.

  \<^bold>\<open>Interfaces.\<close>  \<open>comparator\<close> is interpreted by every comparator the program sorts with (ranking entries
  and posts, filtered listings, message history, conversations), \<open>key_store\<close> by every table keyed by
  text, \<open>key_normaliser\<close> by every normalisation used as a key.  Two components are shown to refine an
  abstract specification: favourites a set, the cached feed a finite map.

  \<^bold>\<open>Requests and interleaving.\<close>  A handler or effect that awaits is cut there; what its closure captured
  goes into a record of the request under way, and a step relation or a step function over events lets the
  answers arrive in any order, late, or never.  Properties of these components hold after every list of
  events from the initial state.

  \<^bold>\<open>Bounds and fuel.\<close>  \<open>JSON_parse\<close> is the only definition with fuel: it starts with three units per
  code unit, and \<open>Json.json_parse_terminates\<close> shows that more fuel never changes its result.  Numbers are
  exact rationals: rounding to doubles is not modelled, overflow of literals to infinity is.  The 32-bit
  hash of a listing without identifier is a 32-bit word.  \<open>apiRequest\<close> has no loop: its retries are
  unrolled as in the code.  Effects after a render are iterated a fixed number of rounds, which
  \<open>CompleteProfile.completion_requests_valid\<close> shows to be enough.

  \<^bold>\<open>Not modelled.\<close>  The markup of React components (of \<open>.tsx\<close> files only handlers, effects and pure
  helpers are), translations, the DOM, timers and debouncing as such (a timer is an event of a step
  relation), third-party packages, and the C\# server under \<open>apps/api\<close>.  Server replies are arbitrary
  inputs of the definitions, so no property rests on what the server does unless its statement says so.
\<close>

end
